(* ===== verification/Prelude.thy ===== *)
theory Prelude
  imports Main "HOL-Library.Sublist" "HOL-Library.Char_ord" "HOL-Library.Product_Lexorder"
begin

text \<open>
  What the components share: the string operations of the standard library that the
  sources call (\<open>trim\<close>, \<open>toLowerCase\<close>, \<open>split\<close>, \<open>join\<close>, \<open>slice\<close>), the operators
  \<open>??\<close> and \<open>||\<close> on optional values, de-duplication by a key, and index search in
  lists. Strings are lists of code units below 256 (the type \<open>char\<close>); on these
  \<open>to_lower\<close> and \<open>trim\<close> agree with the language, the accented letters and the
  no-break space included. An optional or nullable property is an \<open>option\<close> value.
  The collection \<open>js_simps\<close> evaluates the string operations on literals.
\<close>

named_theorems js_simps \<open>evaluation of the string operations on literals\<close>

section \<open>Optional values\<close>

text \<open>The operator \<open>??\<close>, on a default value and as a chain of optional values.\<close>

definition nullish :: "'a option \<Rightarrow> 'a \<Rightarrow> 'a" where
  "nullish v d = (case v of None \<Rightarrow> d | Some x \<Rightarrow> x)"

definition orElse :: "'a option \<Rightarrow> 'a option \<Rightarrow> 'a option" where
  "orElse v w = (case v of None \<Rightarrow> w | Some x \<Rightarrow> Some x)"

text \<open>An optional string is truthy when it is present and not empty.\<close>

definition truthy :: "string option \<Rightarrow> bool" where
  "truthy v = (case v of None \<Rightarrow> False | Some s \<Rightarrow> s \<noteq> [])"

text \<open>The operator \<open>||\<close> on strings: the first one that is not empty.\<close>

definition strOr :: "string \<Rightarrow> string \<Rightarrow> string" where
  "strOr s t = (if s = [] then t else s)"

lemma nullish_simps [simp]: "nullish None d = d" "nullish (Some x) d = x"
  by (simp_all add: nullish_def)

lemma orElse_simps [simp]: "orElse None w = w" "orElse (Some x) w = Some x"
  by (simp_all add: orElse_def)

lemma orElse_None_right [simp]: "orElse v None = v"
  by (cases v) simp_all

lemma truthy_simps [simp]: "\<not> truthy None" "truthy (Some s) \<longleftrightarrow> s \<noteq> []"
  by (simp_all add: truthy_def)

lemma truthyE: "truthy v \<Longrightarrow> (\<And>s. v = Some s \<Longrightarrow> s \<noteq> [] \<Longrightarrow> P) \<Longrightarrow> P"
  by (cases v) simp_all

lemma strOr_simps [simp]: "strOr [] t = t" "s \<noteq> [] \<Longrightarrow> strOr s t = s" "strOr s [] = s"
  by (simp_all add: strOr_def)

section \<open>Characters and strings\<close>

definition lower_char :: "char \<Rightarrow> char" where
  "lower_char c =
     (let n = (of_char c :: nat)
      in if 65 \<le> n \<and> n \<le> 90 \<or> 192 \<le> n \<and> n \<le> 222 \<and> n \<noteq> 215 then char_of (n + 32) else c)"

definition to_lower :: "string \<Rightarrow> string" where
  "to_lower s = map lower_char s"

definition is_space :: "char \<Rightarrow> bool" where
  "is_space c = (let n = (of_char c :: nat) in 9 \<le> n \<and> n \<le> 13 \<or> n = 32 \<or> n = 160)"

definition trim :: "string \<Rightarrow> string" where
  "trim s = rev (dropWhile is_space (rev (dropWhile is_space s)))"

text \<open>\<open>s.split(c)\<close> for a one-character separator, and \<open>parts.join(sep)\<close>.\<close>

fun split_on :: "char \<Rightarrow> string \<Rightarrow> string list" where
  "split_on c [] = [[]]"
| "split_on c (x # xs) =
     (if x = c then [] # split_on c xs
      else (case split_on c xs of [] \<Rightarrow> [[x]] | w # ws \<Rightarrow> (x # w) # ws))"

fun join :: "string \<Rightarrow> string list \<Rightarrow> string" where
  "join sep [] = []"
| "join sep [w] = w"
| "join sep (w # v # ws) = w @ sep @ join sep (v # ws)"

text \<open>\<open>s.slice(-n)\<close>: the last \<open>n\<close> code units.\<close>

definition last_n :: "nat \<Rightarrow> 'a list \<Rightarrow> 'a list" where
  "last_n n s = drop (length s - n) s"

text \<open>The decimal digits of a number, as in a template literal.\<close>

fun show_nat :: "nat \<Rightarrow> string" where
  "show_nat n = (if n < 10 then [char_of (48 + n)] else show_nat (n div 10) @ [char_of (48 + n mod 10)])"

declare show_nat.simps [simp del]

lemmas [js_simps] = lower_char_def to_lower_def is_space_def trim_def last_n_def Let_def
  char_of_eq_iff prefix_def suffix_def

lemma lower_char_idem [simp]: "lower_char (lower_char c) = lower_char c"
  by (auto simp: lower_char_def Let_def)

lemma to_lower_idem [simp]: "to_lower (to_lower s) = to_lower s"
  by (simp add: to_lower_def)

lemma to_lower_Nil [simp]: "to_lower [] = []"
  by (simp add: to_lower_def)

lemma to_lower_append [simp]: "to_lower (s @ t) = to_lower s @ to_lower t"
  by (simp add: to_lower_def)

lemma length_to_lower [simp]: "length (to_lower s) = length s"
  by (simp add: to_lower_def)

lemma trim_Nil [simp]: "trim [] = []"
  by (simp add: trim_def)

lemma trim_Cons_nonspace_ne: "\<not> is_space c \<Longrightarrow> trim (c # s) \<noteq> []"
  by (simp add: trim_def dropWhile_append)

lemma trim_id: "(\<And>c. c \<in> set s \<Longrightarrow> \<not> is_space c) \<Longrightarrow> trim s = s"
proof -
  assume no: "\<And>c. c \<in> set s \<Longrightarrow> \<not> is_space c"
  have "dropWhile is_space t = t" if "set t \<subseteq> set s" for t
    using that no by (cases t) auto
  then show ?thesis by (simp add: trim_def)
qed

lemma set_trim: "set (trim s) \<subseteq> set s"
  by (auto simp: trim_def dest!: set_dropWhileD)

lemma trim_ends: "trim s \<noteq> [] \<Longrightarrow> \<not> is_space (last (trim s))"
proof -
  assume "trim s \<noteq> []"
  then have "dropWhile is_space (rev (dropWhile is_space s)) \<noteq> []" by (simp add: trim_def)
  then have "\<not> is_space (hd (dropWhile is_space (rev (dropWhile is_space s))))" by (rule hd_dropWhile)
  then show ?thesis by (simp add: trim_def last_rev)
qed

lemma dropWhile_rev_hd:
  "dropWhile P (rev (dropWhile P s)) \<noteq> [] \<Longrightarrow>
     dropWhile P (rev (dropWhile P (rev (dropWhile P s)))) = rev (dropWhile P (rev (dropWhile P s)))"
proof -
  assume ne: "dropWhile P (rev (dropWhile P s)) \<noteq> []"
  define t where "t = dropWhile P s"
  obtain u where u: "rev t = u @ dropWhile P (rev t)"
    using takeWhile_dropWhile_id [of P "rev t"] by metis
  from ne have "t \<noteq> []" unfolding t_def by (metis dropWhile.simps(1) rev.simps(1))
  then have h: "\<not> P (hd t)" unfolding t_def by (rule hd_dropWhile)
  from u have t: "t = rev (dropWhile P (rev t)) @ rev u" by (metis rev_append rev_rev_ident)
  from ne have "rev (dropWhile P (rev t)) \<noteq> []" by (simp add: t_def)
  then have "\<not> P (hd (rev (dropWhile P (rev t))))" using h t by (metis hd_append2)
  then show ?thesis unfolding t_def [symmetric]
    by (subst dropWhile_eq_self_iff) simp
qed

lemma trim_idem [simp]: "trim (trim s) = trim s"
proof (cases "trim s = []")
  case False
  then have ne: "dropWhile is_space (rev (dropWhile is_space s)) \<noteq> []" by (simp add: trim_def)
  have "dropWhile is_space (trim s) = trim s"
    using dropWhile_rev_hd [OF ne] by (simp add: trim_def)
  moreover have "dropWhile is_space (rev (trim s)) = rev (trim s)"
    using trim_ends [OF False] False by (cases "rev (trim s)") (auto simp: last_rev hd_rev)
  ultimately show ?thesis by (simp add: trim_def)
qed simp

text \<open>A prefix without the separator, and what follows the separator, are determined by the whole.\<close>

lemma sep_inject:
  "c \<notin> set s \<Longrightarrow> c \<notin> set t \<Longrightarrow> s @ c # u = t @ c # v \<Longrightarrow> s = t \<and> u = v"
proof (induction s arbitrary: t)
  case Nil
  then show ?case by (cases t) auto
next
  case (Cons x xs)
  then show ?case by (cases t) auto
qed

section \<open>Replacement of runs\<close>

text \<open>
  \<open>s.replace(/[^K]+/g, sep)\<close>: every maximal run of characters outside \<open>K\<close> becomes the one
  character \<open>sep\<close>; and the removal of a separator from both ends.
\<close>

function squash :: "(char \<Rightarrow> bool) \<Rightarrow> char \<Rightarrow> string \<Rightarrow> string" where
  "squash keep sep [] = []"
| "squash keep sep (x # xs) =
     (if keep x then x # squash keep sep xs
      else sep # squash keep sep (dropWhile (\<lambda>c. \<not> keep c) xs))"
  by pat_completeness auto
termination
  by (relation "measure (\<lambda>(keep, sep, s). length s)") (auto simp: le_imp_less_Suc length_dropWhile_le)

definition strip_edges :: "char \<Rightarrow> string \<Rightarrow> string" where
  "strip_edges c s = rev (dropWhile ((=) c) (rev (dropWhile ((=) c) s)))"

definition is_digit :: "char \<Rightarrow> bool" where
  "is_digit c = (let n = (of_char c :: nat) in 48 \<le> n \<and> n \<le> 57)"

definition is_lower_alnum :: "char \<Rightarrow> bool" where
  "is_lower_alnum c = (let n = (of_char c :: nat) in 48 \<le> n \<and> n \<le> 57 \<or> 97 \<le> n \<and> n \<le> 122)"

definition is_alnum :: "char \<Rightarrow> bool" where
  "is_alnum c = (let n = (of_char c :: nat)
     in 48 \<le> n \<and> n \<le> 57 \<or> 65 \<le> n \<and> n \<le> 90 \<or> 97 \<le> n \<and> n \<le> 122)"

lemmas [js_simps] = strip_edges_def is_digit_def is_lower_alnum_def is_alnum_def

lemma set_squash: "set (squash keep sep s) \<subseteq> {c. keep c} \<union> {sep}"
  by (induction keep sep s rule: squash.induct) auto

lemma set_strip_edges: "set (strip_edges c s) \<subseteq> set s"
  by (auto simp: strip_edges_def dest!: set_dropWhileD)

lemma strip_edges_ends:
  assumes "strip_edges c s \<noteq> []"
  shows "hd (strip_edges c s) \<noteq> c" "last (strip_edges c s) \<noteq> c"
proof -
  let ?t = "dropWhile ((=) c) s"
  have ne: "dropWhile ((=) c) (rev ?t) \<noteq> []" using assms by (simp add: strip_edges_def)
  then have "?t \<noteq> []" by (metis dropWhile.simps(1) rev.simps(1))
  then have h: "hd ?t \<noteq> c" using hd_dropWhile [of "(=) c" s] by auto
  show "last (strip_edges c s) \<noteq> c"
    using ne hd_dropWhile [of "(=) c" "rev ?t"] by (auto simp: strip_edges_def last_rev)
  obtain u where "rev ?t = u @ dropWhile ((=) c) (rev ?t)"
    using takeWhile_dropWhile_id [of "(=) c" "rev ?t"] by metis
  then have "?t = strip_edges c s @ rev u" unfolding strip_edges_def by (metis rev_append rev_rev_ident)
  then show "hd (strip_edges c s) \<noteq> c" using h assms by (metis hd_append2)
qed

section \<open>Splitting and joining\<close>

lemma split_on_ne [simp]: "split_on c s \<noteq> []"
  by (induction s) (auto split: list.splits)

lemma join_Cons: "ws \<noteq> [] \<Longrightarrow> join sep (w # ws) = w @ sep @ join sep ws"
  by (cases ws) simp_all

lemma join_split_on [simp]: "join [c] (split_on c s) = s"
proof (induction s)
  case (Cons x xs)
  then show ?case
    by (cases "split_on c xs") (auto simp: join_Cons split: list.splits, (cases "tl (split_on c xs)", auto)+)
qed simp

lemma split_on_noc [simp]: "c \<notin> set s \<Longrightarrow> split_on c s = [s]"
  by (induction s) auto

lemma split_on_append: "c \<notin> set s \<Longrightarrow> split_on c (s @ c # t) = s # split_on c t"
  by (induction s) auto

lemma split_on_parts: "w \<in> set (split_on c s) \<Longrightarrow> c \<notin> set w"
  by (induction s arbitrary: w) (auto split: list.splits if_splits)

lemma split_on_join:
  "ws \<noteq> [] \<Longrightarrow> (\<And>w. w \<in> set ws \<Longrightarrow> c \<notin> set w) \<Longrightarrow> split_on c (join [c] ws) = ws"
proof (induction ws)
  case (Cons w ws)
  then show ?case by (cases ws) (auto simp: split_on_append join_Cons)
qed simp

lemma split_on_join_append:
  "ws \<noteq> [] \<Longrightarrow> (\<And>w. w \<in> set ws \<Longrightarrow> c \<notin> set w) \<Longrightarrow>
     split_on c (join [c] (ws @ [t])) = ws @ split_on c t"
proof (induction ws)
  case (Cons w ws)
  then show ?case by (cases "ws = []") (auto simp: split_on_append join_Cons)
qed simp

section \<open>Untyped values\<close>

text \<open>
  A value of type \<open>unknown\<close> that came from JSON: the code inspects it with \<open>typeof\<close>,
  \<open>Array.isArray\<close> and property reads. \<open>jget\<close> reads a property of an object value
  (\<open>None\<close> for \<open>undefined\<close>), \<open>is_record\<close> is the test for a non-array object.
\<close>

datatype json = JNull | JBool bool | JNum int | JStr string | JArr "json list" | JObj "(string \<times> json) list"

fun jget :: "string \<Rightarrow> json \<Rightarrow> json option" where
  "jget k (JObj kvs) = map_of kvs k"
| "jget k v = None"

fun is_record :: "json \<Rightarrow> bool" where
  "is_record (JObj kvs) = True"
| "is_record v = False"

text \<open>A non-empty string property, and a string property that is not blank, trimmed.\<close>

definition nonEmptyString :: "json option \<Rightarrow> string option" where
  "nonEmptyString v = (case v of Some (JStr s) \<Rightarrow> if s = [] then None else Some s | _ \<Rightarrow> None)"

definition cleanString :: "json option \<Rightarrow> string option" where
  "cleanString v = (case v of Some (JStr s) \<Rightarrow> if trim s = [] then None else Some (trim s) | _ \<Rightarrow> None)"

lemma nonEmptyString_Some: "nonEmptyString v = Some s \<Longrightarrow> v = Some (JStr s) \<and> s \<noteq> []"
  by (auto simp: nonEmptyString_def split: option.splits json.splits if_splits)

lemma nonEmptyString_ne [simp]: "nonEmptyString v \<noteq> Some []" "Some [] \<noteq> nonEmptyString v"
  by (auto dest: nonEmptyString_Some dest: sym)

lemma cleanString_Some: "cleanString v = Some s \<Longrightarrow> s \<noteq> [] \<and> trim s = s"
  by (auto simp: cleanString_def split: option.splits json.splits if_splits)

section \<open>Lists\<close>

text \<open>\<open>xs.findIndex(p)\<close>, with \<open>None\<close> for the result -1.\<close>

fun find_index :: "('a \<Rightarrow> bool) \<Rightarrow> 'a list \<Rightarrow> nat option" where
  "find_index p [] = None"
| "find_index p (x # xs) = (if p x then Some 0 else map_option Suc (find_index p xs))"

lemma find_index_None: "find_index p xs = None \<longleftrightarrow> (\<forall>x \<in> set xs. \<not> p x)"
  by (induction xs) auto

lemma find_index_Some:
  "find_index p xs = Some i \<Longrightarrow> i < length xs \<and> p (xs ! i) \<and> (\<forall>x \<in> set (take i xs). \<not> p x)"
  by (induction xs arbitrary: i) (auto split: if_splits)

text \<open>The cut of a list before the first element that satisfies \<open>p\<close>.\<close>

definition cut_at :: "('a \<Rightarrow> bool) \<Rightarrow> 'a list \<Rightarrow> 'a list" where
  "cut_at p xs = (case find_index p xs of None \<Rightarrow> xs | Some i \<Rightarrow> take i xs)"

lemma cut_at_takeWhile: "cut_at p xs = takeWhile (\<lambda>x. \<not> p x) xs"
  unfolding cut_at_def
  by (induction xs) (auto split: option.splits)

text \<open>De-duplication with a \<open>Set\<close> of keys already seen: the first element of each key is kept.\<close>

fun dedup_from :: "'k set \<Rightarrow> ('a \<Rightarrow> 'k) \<Rightarrow> 'a list \<Rightarrow> 'a list" where
  "dedup_from seen key [] = []"
| "dedup_from seen key (x # xs) =
     (if key x \<in> seen then dedup_from seen key xs
      else x # dedup_from (insert (key x) seen) key xs)"

definition dedup_by :: "('a \<Rightarrow> 'k) \<Rightarrow> 'a list \<Rightarrow> 'a list" where
  "dedup_by key xs = dedup_from {} key xs"

lemma dedup_from_subset: "set (dedup_from seen key xs) \<subseteq> set xs"
  by (induction xs arbitrary: seen) auto

lemma dedup_from_keys: "key ` set (dedup_from seen key xs) = key ` set xs - seen"
  by (induction xs arbitrary: seen) auto

lemma dedup_from_distinct: "distinct (map key (dedup_from seen key xs))"
proof (induction xs arbitrary: seen)
  case (Cons x xs)
  have "key x \<notin> key ` set (dedup_from (insert (key x) seen) key xs)"
    by (simp add: dedup_from_keys)
  with Cons show ?case by simp
qed simp

lemma dedup_by_subset: "set (dedup_by key xs) \<subseteq> set xs"
  by (simp add: dedup_by_def dedup_from_subset)

lemma dedup_by_keys: "key ` set (dedup_by key xs) = key ` set xs"
  by (simp add: dedup_by_def dedup_from_keys)

lemma dedup_by_distinct: "distinct (map key (dedup_by key xs))"
  by (simp add: dedup_by_def dedup_from_distinct)

lemma dedup_by_simps [simp]: "dedup_by key [] = []" "dedup_by key [x] = [x]"
  by (simp_all add: dedup_by_def)

lemma dedup_from_id: "distinct (map key xs) \<Longrightarrow> key ` set xs \<inter> seen = {} \<Longrightarrow> dedup_from seen key xs = xs"
  by (induction xs arbitrary: seen) auto

lemma dedup_by_id: "distinct (map key xs) \<Longrightarrow> dedup_by key xs = xs"
  by (simp add: dedup_by_def dedup_from_id)

text \<open>A property that only depends on the key sees through the de-duplication.\<close>

lemma dedup_by_Bex:
  assumes "\<And>x y. key x = key y \<Longrightarrow> P x = P y"
  shows "(\<exists>x \<in> set (dedup_by key xs). P x) \<longleftrightarrow> (\<exists>x \<in> set xs. P x)"
proof
  assume "\<exists>x \<in> set xs. P x"
  then obtain x where x: "x \<in> set xs" "P x" by blast
  then have "key x \<in> key ` set (dedup_by key xs)" by (simp add: dedup_by_keys)
  then obtain y where "y \<in> set (dedup_by key xs)" "key y = key x" by force
  with x assms show "\<exists>x \<in> set (dedup_by key xs). P x" by metis
next
  assume "\<exists>x \<in> set (dedup_by key xs). P x"
  then show "\<exists>x \<in> set xs. P x" using dedup_by_subset [of key xs] by auto
qed

section \<open>Objects\<close>

text \<open>Writing and deleting a property of an object, its properties in insertion order.\<close>

definition obj_set :: "string \<Rightarrow> 'v \<Rightarrow> (string \<times> 'v) list \<Rightarrow> (string \<times> 'v) list" where
  "obj_set k v kvs =
     (if k \<in> set (map fst kvs) then map (\<lambda>p. if fst p = k then (k, v) else p) kvs else kvs @ [(k, v)])"

definition obj_del :: "string \<Rightarrow> (string \<times> 'v) list \<Rightarrow> (string \<times> 'v) list" where
  "obj_del k kvs = filter (\<lambda>p. fst p \<noteq> k) kvs"

lemma obj_set_get [simp]: "map_of (obj_set k v kvs) k = Some v"
proof (cases "k \<in> set (map fst kvs)")
  case True
  have "k \<in> fst ` set xs \<Longrightarrow> map_of (map (\<lambda>p. if fst p = k then (k, v) else p) xs) k = Some v" for xs
    by (induction xs) auto
  with True show ?thesis by (simp add: obj_set_def)
next
  case False
  then have "map_of kvs k = None" by (simp add: map_of_eq_None_iff)
  with False show ?thesis by (simp add: obj_set_def map_add_def)
qed

lemma obj_set_other [simp]: "k' \<noteq> k \<Longrightarrow> map_of (obj_set k v kvs) k' = map_of kvs k'"
proof -
  assume "k' \<noteq> k"
  then have "map_of (map (\<lambda>p. if fst p = k then (k, v) else p) xs) k' = map_of xs k'" for xs
    by (induction xs) auto
  with \<open>k' \<noteq> k\<close> show ?thesis by (simp add: obj_set_def map_add_def split: option.split)
qed

lemma obj_set_ne [simp]: "obj_set k v kvs \<noteq> []"
  by (auto simp: obj_set_def)

lemma obj_del_get [simp]: "map_of (obj_del k kvs) k = None"
  by (auto simp: obj_del_def map_of_eq_None_iff)

lemma obj_del_other [simp]: "k' \<noteq> k \<Longrightarrow> map_of (obj_del k kvs) k' = map_of kvs k'"
  by (induction kvs) (auto simp: obj_del_def)

end
