(* ===== verification/DeliveryBarriers.thy ===== *)
theory DeliveryBarriers
  imports Prelude
begin

text \<open>
  The delivery barriers of a prompt (\<open>src/src/delivery-barriers.ts\<close>): the four barriers,
  their urgency order, the aliases a caller may write, the inference of a barrier from
  the envelope of a prompt, and the choice of the more urgent of two barriers. The
  alias table is a lookup among its own properties.
\<close>

section \<open>Barriers and aliases\<close>

datatype delivery_barrier = ImmediateInterrupt | AfterTool | AfterResponse | AfterTask

datatype delivery_barrier_source = SrcExplicit | SrcDefault | SrcInferred

definition DEFAULT_DELIVERY_BARRIER :: delivery_barrier where
  "DEFAULT_DELIVERY_BARRIER = AfterTool"

fun barrier_name :: "delivery_barrier \<Rightarrow> string" where
  "barrier_name ImmediateInterrupt = ''immediate_interrupt''"
| "barrier_name AfterTool = ''after_tool''"
| "barrier_name AfterResponse = ''after_response''"
| "barrier_name AfterTask = ''after_task''"

definition DELIVERY_BARRIER_VALUES :: "delivery_barrier list" where
  "DELIVERY_BARRIER_VALUES = [ImmediateInterrupt, AfterTool, AfterResponse, AfterTask]"

text \<open>
  The flags of a prompt the inference reads. A flag is any value in the source; the model
  keeps its truth value.
\<close>

record barrier_input =
  bi_deliveryBarrier :: "string option"
  bi_prompt :: "string option"
  bi_taskBarrierTaskId :: "string option"
  bi_humanUrgent :: bool
  bi_heartbeat :: bool
  bi_trigger :: bool
  bi_systemSupervisor :: bool
  bi_cron :: bool
  bi_hook :: bool
  bi_daemonRestartResume :: bool

fun DELIVERY_BARRIER_PRIORITY :: "delivery_barrier \<Rightarrow> nat" where
  "DELIVERY_BARRIER_PRIORITY ImmediateInterrupt = 0"
| "DELIVERY_BARRIER_PRIORITY AfterTool = 1"
| "DELIVERY_BARRIER_PRIORITY AfterResponse = 2"
| "DELIVERY_BARRIER_PRIORITY AfterTask = 3"

definition DELIVERY_BARRIER_ALIASES :: "(string \<times> delivery_barrier) list" where
  "DELIVERY_BARRIER_ALIASES =
    [(''p0'', ImmediateInterrupt), (''interrupt'', ImmediateInterrupt),
     (''immediate'', ImmediateInterrupt), (''now'', ImmediateInterrupt),
     (''p1'', AfterTool), (''steer'', AfterTool), (''steering'', AfterTool), (''tool'', AfterTool),
     (''after_tool'', AfterTool), (''after-tool'', AfterTool),
     (''p2'', AfterResponse), (''followup'', AfterResponse), (''follow-up'', AfterResponse),
     (''response'', AfterResponse), (''after_response'', AfterResponse), (''after-response'', AfterResponse),
     (''p3'', AfterTask), (''task'', AfterTask), (''after_task'', AfterTask), (''after-task'', AfterTask)]"

section \<open>Parsing\<close>

definition normalizeDeliveryBarrier :: "string option \<Rightarrow> delivery_barrier option" where
  "normalizeDeliveryBarrier value =
     (case value of
        None \<Rightarrow> None
      | Some s \<Rightarrow> if s = [] then None else map_of DELIVERY_BARRIER_ALIASES (to_lower (trim s)))"

definition parseDeliveryBarrier :: "string option \<Rightarrow> delivery_barrier \<Rightarrow> delivery_barrier" where
  "parseDeliveryBarrier value fallback = nullish (normalizeDeliveryBarrier value) fallback"

datatype barrier_error = BarrierRequired string | BarrierUnknown string string

definition requireDeliveryBarrier :: "string option \<Rightarrow> string \<Rightarrow> barrier_error + delivery_barrier" where
  "requireDeliveryBarrier value label =
     (case value of
        None \<Rightarrow> Inl (BarrierRequired label)
      | Some s \<Rightarrow>
          if trim s = [] then Inl (BarrierRequired label)
          else (case normalizeDeliveryBarrier (Some s) of
                  None \<Rightarrow> Inl (BarrierUnknown label s)
                | Some b \<Rightarrow> Inr b))"

section \<open>Inference\<close>

definition inferDeliveryBarrier :: "barrier_input \<Rightarrow> delivery_barrier" where
  "inferDeliveryBarrier input =
     (case normalizeDeliveryBarrier (bi_deliveryBarrier input) of
        Some explicit \<Rightarrow> explicit
      | None \<Rightarrow>
          if bi_humanUrgent input then ImmediateInterrupt
          else if truthy (bi_taskBarrierTaskId input) then AfterTask
          else
            let prompt = nullish (bi_prompt input) [] in
            if bi_heartbeat input \<or> bi_trigger input \<or> bi_systemSupervisor input
               \<or> prefix ''[System] Execute:'' prompt
            then AfterTask
            else if bi_cron input \<or> bi_hook input \<or> bi_daemonRestartResume input
               \<or> prefix ''[System] Ask:'' prompt \<or> prefix ''[System] Answer:'' prompt
               \<or> prefix ''[System] Inform:'' prompt
            then AfterResponse
            else DEFAULT_DELIVERY_BARRIER)"

fun describeDeliveryBarrier :: "delivery_barrier \<Rightarrow> string" where
  "describeDeliveryBarrier ImmediateInterrupt = ''p0/immediate_interrupt''"
| "describeDeliveryBarrier AfterTool = ''p1/after_tool''"
| "describeDeliveryBarrier AfterResponse = ''p2/after_response''"
| "describeDeliveryBarrier AfterTask = ''p3/after_task''"

definition chooseMoreUrgentBarrier :: "delivery_barrier \<Rightarrow> delivery_barrier \<Rightarrow> delivery_barrier" where
  "chooseMoreUrgentBarrier left right =
     (if DELIVERY_BARRIER_PRIORITY left \<le> DELIVERY_BARRIER_PRIORITY right then left else right)"

section \<open>The urgency order\<close>

text \<open>
  Barriers are ordered by their priority number; the choice of the more urgent of two is
  the minimum of that order.
\<close>

instantiation delivery_barrier :: linorder
begin

definition less_eq_delivery_barrier :: "delivery_barrier \<Rightarrow> delivery_barrier \<Rightarrow> bool" where
  "less_eq_delivery_barrier a b \<longleftrightarrow> DELIVERY_BARRIER_PRIORITY a \<le> DELIVERY_BARRIER_PRIORITY b"

definition less_delivery_barrier :: "delivery_barrier \<Rightarrow> delivery_barrier \<Rightarrow> bool" where
  "less_delivery_barrier a b \<longleftrightarrow> DELIVERY_BARRIER_PRIORITY a < DELIVERY_BARRIER_PRIORITY b"

instance
proof
  fix a b :: delivery_barrier
  show "a \<le> b \<Longrightarrow> b \<le> a \<Longrightarrow> a = b"
    by (cases a; cases b) (simp_all add: less_eq_delivery_barrier_def)
qed (auto simp: less_eq_delivery_barrier_def less_delivery_barrier_def)

end

lemma chooseMoreUrgentBarrier_min: "chooseMoreUrgentBarrier a b = min a b"
  by (simp add: chooseMoreUrgentBarrier_def min_def less_eq_delivery_barrier_def)

lemma barrier_alias_lower: "(k, b) \<in> set DELIVERY_BARRIER_ALIASES \<Longrightarrow> to_lower k = k \<and> trim k = k \<and> k \<noteq> []"
proof -
  have "\<forall>kb \<in> set DELIVERY_BARRIER_ALIASES. to_lower (fst kb) = fst kb \<and> trim (fst kb) = fst kb \<and> fst kb \<noteq> []"
    by code_simp
  then show "(k, b) \<in> set DELIVERY_BARRIER_ALIASES \<Longrightarrow> to_lower k = k \<and> trim k = k \<and> k \<noteq> []"
    by fastforce
qed

lemma normalize_alias_None: "normalizeDeliveryBarrier None = None"
  by (simp add: normalizeDeliveryBarrier_def)

lemma normalize_empty: "trim s = [] \<Longrightarrow> normalizeDeliveryBarrier (Some s) = None"
  by (simp add: normalizeDeliveryBarrier_def DELIVERY_BARRIER_ALIASES_def)

lemma normalize_insensitive:
  "to_lower (trim s) = to_lower (trim t) \<Longrightarrow>
     normalizeDeliveryBarrier (Some s) = normalizeDeliveryBarrier (Some t)"
  by (cases "s = []"; cases "t = []")
    (auto simp: normalizeDeliveryBarrier_def DELIVERY_BARRIER_ALIASES_def)

lemma normalize_of_alias:
  assumes "map_of DELIVERY_BARRIER_ALIASES k = Some b" and "to_lower (trim s) = k"
  shows "normalizeDeliveryBarrier (Some s) = Some b"
proof -
  from assms(1) have "(k, b) \<in> set DELIVERY_BARRIER_ALIASES" by (rule map_of_SomeD)
  then have "k \<noteq> []" by (blast dest: barrier_alias_lower)
  with assms show ?thesis by (auto simp: normalizeDeliveryBarrier_def)
qed

lemma infer_explicit:
  "normalizeDeliveryBarrier (bi_deliveryBarrier i) = Some b \<Longrightarrow> inferDeliveryBarrier i = b"
  by (simp add: inferDeliveryBarrier_def)

end
