(* ===== verification/ToolRegistry.thy ===== *)
theory ToolRegistry
  imports Prelude
begin

text \<open>
  The registry of built-in runtime tools (\<open>src/src/cli/tool-registry.ts\<close>): the table of
  tools with their capability names and groups, the alias map built from it at load
  time, the tool groups used by bulk permission grants, and the lazily filled list of
  CLI tools. Object lookups are lookups among own properties.
\<close>

section \<open>The table of built-in tools\<close>

datatype tool_operation = OpRead | OpMutate | OpExecute | OpAsk
datatype tool_risk = RiskLow | RiskMedium | RiskHigh | RiskDestructive

record builtin_tool =
  bt_capability :: string
  bt_nativeName :: string
  bt_groups :: "string list"
  bt_description :: string
  bt_operation :: tool_operation
  bt_risk :: tool_risk

abbreviation tool_entry ::
  "string \<Rightarrow> string \<Rightarrow> string \<Rightarrow> string \<Rightarrow> tool_operation \<Rightarrow> tool_risk \<Rightarrow> builtin_tool" where
  "tool_entry cap name grp descr op risk \<equiv>
     \<lparr>bt_capability = cap, bt_nativeName = name, bt_groups = [grp], bt_description = descr,
      bt_operation = op, bt_risk = risk\<rparr>"

definition fs_tools :: "builtin_tool list" where
  "fs_tools =
    [tool_entry ''fs.read'' ''Read'' ''read-only'' ''Read a local file'' OpRead RiskLow,
     tool_entry ''fs.edit'' ''Edit'' ''write'' ''Edit a local file'' OpMutate RiskMedium,
     tool_entry ''fs.write'' ''Write'' ''write'' ''Write a local file'' OpMutate RiskMedium,
     tool_entry ''fs.glob'' ''Glob'' ''read-only'' ''Find local files by pattern'' OpRead RiskLow,
     tool_entry ''fs.grep'' ''Grep'' ''read-only'' ''Search local file contents'' OpRead RiskLow,
     tool_entry ''fs.notebook.edit'' ''NotebookEdit'' ''write'' ''Edit a notebook'' OpMutate RiskMedium]"

definition exec_tools :: "builtin_tool list" where
  "exec_tools =
    [tool_entry ''exec.shell'' ''Bash'' ''execute'' ''Run a local shell command'' OpExecute RiskHigh,
     tool_entry ''agent.task.start'' ''Task'' ''execute'' ''Start a delegated task'' OpExecute RiskMedium,
     tool_entry ''agent.task.output'' ''TaskOutput'' ''execute'' ''Read delegated task output'' OpRead RiskLow,
     tool_entry ''agent.task.stop'' ''TaskStop'' ''execute'' ''Stop a delegated task'' OpExecute RiskMedium]"

definition web_plan_tools :: "builtin_tool list" where
  "web_plan_tools =
    [tool_entry ''web.fetch'' ''WebFetch'' ''read-only'' ''Fetch a web resource'' OpRead RiskLow,
     tool_entry ''web.search'' ''WebSearch'' ''read-only'' ''Search the web'' OpRead RiskLow,
     tool_entry ''plan.enter'' ''EnterPlanMode'' ''plan'' ''Enter planning mode'' OpMutate RiskLow,
     tool_entry ''plan.exit'' ''ExitPlanMode'' ''plan'' ''Leave planning mode'' OpMutate RiskLow,
     tool_entry ''user.ask'' ''AskUserQuestion'' ''plan'' ''Ask the user for input'' OpAsk RiskLow,
     tool_entry ''plan.todo.write'' ''TodoWrite'' ''plan'' ''Update the task plan'' OpMutate RiskLow]"

definition team_tools :: "builtin_tool list" where
  "team_tools =
    [tool_entry ''team.create'' ''TeamCreate'' ''teams'' ''Create an agent team'' OpExecute RiskMedium,
     tool_entry ''team.delete'' ''TeamDelete'' ''teams'' ''Remove an agent team'' OpMutate RiskHigh,
     tool_entry ''team.message.send'' ''SendMessage'' ''teams'' ''Send a message to an agent'' OpExecute RiskLow,
     tool_entry ''tool.search'' ''ToolSearch'' ''read-only'' ''Search available tools'' OpRead RiskLow,
     tool_entry ''workspace.enter'' ''EnterWorktree'' ''navigate'' ''Enter a workspace'' OpMutate RiskLow,
     tool_entry ''skill.invoke'' ''Skill'' ''navigate'' ''Load a runtime skill'' OpRead RiskLow,
     tool_entry ''lsp.query'' ''LSP'' ''read-only'' ''Query the language server'' OpRead RiskLow]"

definition RUNTIME_BUILTIN_TOOLS :: "builtin_tool list" where
  "RUNTIME_BUILTIN_TOOLS = fs_tools @ exec_tools @ web_plan_tools @ team_tools"

definition SDK_TOOLS :: "string list" where
  "SDK_TOOLS = map bt_nativeName RUNTIME_BUILTIN_TOOLS"

section \<open>Aliases\<close>

definition RUNTIME_BUILTIN_TOOL_PROVIDER_ALIASES :: "(string \<times> string) list" where
  "RUNTIME_BUILTIN_TOOL_PROVIDER_ALIASES =
    [(''shell'', ''Bash''), (''command_execution'', ''Bash''), (''exec_command'', ''Bash''),
     (''read'', ''Read''), (''read_file'', ''Read''), (''file_read'', ''Read''), (''fs_read'', ''Read''),
     (''imageView'', ''Read''), (''image_view'', ''Read''), (''view_image'', ''Read''),
     (''edit'', ''Edit''), (''file_edit'', ''Edit''), (''fs_edit'', ''Edit''), (''file_change'', ''Edit''),
     (''apply_patch'', ''Edit''), (''write'', ''Write''), (''file_write'', ''Write''), (''fs_write'', ''Write''),
     (''glob'', ''Glob''), (''grep'', ''Grep'')]"

definition normalizeToolAliasKey :: "string \<Rightarrow> string" where
  "normalizeToolAliasKey value =
     to_lower (strip_edges (CHR ''_'') (squash is_alnum (CHR ''_'') (trim value)))"

text \<open>
  The alias \<open>Map\<close> after the module has loaded: its entries in the order of the \<open>set\<close>
  calls, the last of which wins.
\<close>

definition tool_alias_entries :: "(string \<times> string) list" where
  "tool_alias_entries =
     concat (map (\<lambda>t. [(normalizeToolAliasKey (bt_nativeName t), bt_nativeName t),
                        (normalizeToolAliasKey (bt_capability t), bt_nativeName t)]) RUNTIME_BUILTIN_TOOLS)
     @ map (\<lambda>(a, n). (normalizeToolAliasKey a, n)) RUNTIME_BUILTIN_TOOL_PROVIDER_ALIASES"

definition normalizeRuntimeBuiltinToolName :: "string \<Rightarrow> string option" where
  "normalizeRuntimeBuiltinToolName toolName =
     map_of (rev tool_alias_entries) (normalizeToolAliasKey toolName)"

definition builtinToolByNativeName :: "string \<Rightarrow> builtin_tool option" where
  "builtinToolByNativeName name = map_of (rev (map (\<lambda>t. (bt_nativeName t, t)) RUNTIME_BUILTIN_TOOLS)) name"

definition getBuiltinToolCapability :: "string \<Rightarrow> string option" where
  "getBuiltinToolCapability toolName =
     map_option bt_capability
       (builtinToolByNativeName (nullish (normalizeRuntimeBuiltinToolName toolName) toolName))"

definition getRuntimeBuiltinToolDefinition :: "string \<Rightarrow> builtin_tool option" where
  "getRuntimeBuiltinToolDefinition toolName =
     builtinToolByNativeName (nullish (normalizeRuntimeBuiltinToolName toolName) toolName)"

definition getBuiltinToolNativeName :: "string \<Rightarrow> string option" where
  "getBuiltinToolNativeName capability =
     map_option bt_nativeName
       (map_of (rev (map (\<lambda>t. (bt_capability t, t)) RUNTIME_BUILTIN_TOOLS)) capability)"

section \<open>Tool groups\<close>

definition TOOL_GROUPS :: "(string \<times> string list) list" where
  "TOOL_GROUPS =
     map (\<lambda>g. (g, map bt_nativeName (filter (\<lambda>t. g \<in> set (bt_groups t)) RUNTIME_BUILTIN_TOOLS)))
       (dedup_by id (concat (map bt_groups RUNTIME_BUILTIN_TOOLS)))"

definition resolveToolGroup :: "string \<Rightarrow> string list option" where
  "resolveToolGroup groupName = map_of TOOL_GROUPS groupName"

definition getToolGroups :: "string \<Rightarrow> string list" where
  "getToolGroups toolName = (case builtinToolByNativeName toolName of None \<Rightarrow> [] | Some t \<Rightarrow> bt_groups t)"

section \<open>CLI tools\<close>

text \<open>
  The two module variables: the cached list of CLI tool names and the registered
  initializer, whose result is a parameter of the model.
\<close>

record cli_tools =
  ct_names :: "string list option"
  ct_initializer :: "string list option"

definition setCliToolsInitializer :: "string list \<Rightarrow> cli_tools \<Rightarrow> cli_tools" where
  "setCliToolsInitializer result st = st\<lparr>ct_initializer := Some result\<rparr>"

definition registerCliTools :: "string list \<Rightarrow> cli_tools \<Rightarrow> cli_tools" where
  "registerCliTools names st = st\<lparr>ct_names := Some names\<rparr>"

definition getCliToolNames :: "cli_tools \<Rightarrow> string list \<times> cli_tools" where
  "getCliToolNames st =
     (let st' = (if ct_names st = None \<and> ct_initializer st \<noteq> None
                 then st\<lparr>ct_names := ct_initializer st\<rparr> else st)
      in (nullish (ct_names st') [], st'))"

definition getAllToolNames :: "cli_tools \<Rightarrow> string list \<times> cli_tools" where
  "getAllToolNames st = (let (names, st') = getCliToolNames st in (SDK_TOOLS @ names, st'))"

definition isCliTool :: "string \<Rightarrow> cli_tools \<Rightarrow> bool \<times> cli_tools" where
  "isCliTool name st = (let (names, st') = getCliToolNames st in (name \<in> set names, st'))"

definition isSdkTool :: "string \<Rightarrow> bool" where
  "isSdkTool name = (name \<in> set SDK_TOOLS)"

section \<open>Facts about the groups\<close>

lemma TOOL_GROUPS_eval:
  "TOOL_GROUPS =
    [(''read-only'', [''Read'', ''Glob'', ''Grep'', ''WebFetch'', ''WebSearch'', ''ToolSearch'', ''LSP'']),
     (''write'', [''Edit'', ''Write'', ''NotebookEdit'']),
     (''execute'', [''Bash'', ''Task'', ''TaskOutput'', ''TaskStop'']),
     (''plan'', [''EnterPlanMode'', ''ExitPlanMode'', ''AskUserQuestion'', ''TodoWrite'']),
     (''teams'', [''TeamCreate'', ''TeamDelete'', ''SendMessage'']),
     (''navigate'', [''EnterWorktree'', ''Skill''])]"
  by code_simp

lemma resolveToolGroup_In:
  "resolveToolGroup g = Some ms \<Longrightarrow> (g, ms) \<in> set TOOL_GROUPS"
  by (simp add: resolveToolGroup_def map_of_SomeD)

lemma tool_groups_shape:
  "\<forall>(g, ms) \<in> set TOOL_GROUPS. CHR ''*'' \<notin> set g \<and> ms \<noteq> [] \<and> (\<forall>m \<in> set ms. CHR ''*'' \<notin> set m)"
  unfolding TOOL_GROUPS_eval by simp

lemma tool_groups_disjoint:
  "\<forall>(g, ms) \<in> set TOOL_GROUPS. \<forall>(h, ns) \<in> set TOOL_GROUPS. g = h \<or> set ms \<inter> set ns = {}"
  unfolding TOOL_GROUPS_eval by simp

lemma resolveToolGroup_shape:
  assumes "resolveToolGroup g = Some ms"
  shows "CHR ''*'' \<notin> set g" "ms \<noteq> []" "m \<in> set ms \<Longrightarrow> CHR ''*'' \<notin> set m"
  using resolveToolGroup_In [OF assms] tool_groups_shape by auto

lemma resolveToolGroup_disjoint:
  assumes "resolveToolGroup g = Some ms" "resolveToolGroup h = Some ns" "m \<in> set ms" "m \<in> set ns"
  shows "g = h"
proof -
  from tool_groups_disjoint resolveToolGroup_In [OF assms(1)] resolveToolGroup_In [OF assms(2)]
  have "g = h \<or> set ms \<inter> set ns = {}" by blast
  with assms(3,4) show ?thesis by blast
qed

lemma getCliToolNames_cached:
  "getCliToolNames (snd (getCliToolNames st)) = (fst (getCliToolNames st), snd (getCliToolNames st))"
  by (simp add: getCliToolNames_def Let_def)

end
