(* ===== verification/Capabilities.thy ===== *)
theory Capabilities
  imports ToolRegistry
begin

text \<open>
  The capability snapshot matcher (\<open>src/src/permissions/capability-snapshot.ts\<close>) and the
  reading of capabilities from context metadata (\<open>capability-context.ts\<close>). A capability
  is a granted (permission, object type, object id); an object id may end in a star.
  \<open>capCovers\<close> is what one granted capability covers; the matcher is the disjunction of
  it over the snapshot (\<open>canWithCapabilities_iff\<close>), and the lemmas below say when
  covering composes.
\<close>

section \<open>Capabilities\<close>

record capability =
  cap_permission :: string
  cap_objectType :: string
  cap_objectId :: string
  cap_source :: "string option"

abbreviation mk_cap :: "string \<Rightarrow> string \<Rightarrow> string \<Rightarrow> capability" where
  "mk_cap p t i \<equiv> \<lparr>cap_permission = p, cap_objectType = t, cap_objectId = i, cap_source = None\<rparr>"

abbreviation same_grant :: "capability \<Rightarrow> capability \<Rightarrow> bool" where
  "same_grant c d \<equiv> cap_permission c = cap_permission d \<and> cap_objectType c = cap_objectType d
     \<and> cap_objectId c = cap_objectId d"

section \<open>Matching object ids\<close>

definition matchPattern_cap :: "string \<Rightarrow> string \<Rightarrow> bool" where
  "matchPattern_cap pattern value \<longleftrightarrow>
     (if pattern = value then True
      else if suffix ''*'' pattern then prefix (butlast pattern) value
      else False)"

definition objectIdMatches :: "string \<Rightarrow> string \<Rightarrow> bool" where
  "objectIdMatches grantObjectId requestedObjectId \<longleftrightarrow>
     (if grantObjectId = requestedObjectId then True
      else if requestedObjectId = ''*'' then False
      else if grantObjectId = ''*'' then True
      else if CHR ''*'' \<in> set grantObjectId then matchPattern_cap grantObjectId requestedObjectId
      else False)"

section \<open>The snapshot matcher\<close>

definition canWithCapabilities :: "capability list \<Rightarrow> string \<Rightarrow> string \<Rightarrow> string \<Rightarrow> bool" where
  "canWithCapabilities capabilities permission objectType objectId \<longleftrightarrow>
     (if list_ex (\<lambda>cap. cap_permission cap = ''admin'' \<and> cap_objectType cap = ''system''
                    \<and> cap_objectId cap = ''*'') capabilities then True
      else if list_ex (\<lambda>cap. cap_permission cap = permission \<and> cap_objectType cap = objectType
                    \<and> objectIdMatches (cap_objectId cap) objectId) capabilities then True
      else if permission = ''use'' \<and> objectType = ''tool'' \<and> objectId \<noteq> ''*'' then
        list_ex (\<lambda>cap. cap_permission cap = ''use'' \<and> cap_objectType cap = ''toolgroup''
           \<and> (case resolveToolGroup (cap_objectId cap) of
                None \<Rightarrow> False
              | Some members \<Rightarrow> objectId \<in> set members)) capabilities
      else False)"

section \<open>Capability contexts\<close>

record capability_context =
  cc_contextId :: "string option"
  cc_agentId :: "string option"
  cc_kind :: "string option"
  cc_sessionKey :: "string option"
  cc_sessionName :: "string option"
  cc_capabilities :: "capability list"
  cc_metadata :: "(string \<times> json) list option"

definition AGENT_IDENTITY_AUTHORITY_MODE :: string where
  "AGENT_IDENTITY_AUTHORITY_MODE = ''agent-identity''"

definition contextMetadata :: "capability_context \<Rightarrow> string \<Rightarrow> json option" where
  "contextMetadata ctx k = (case cc_metadata ctx of None \<Rightarrow> None | Some m \<Rightarrow> map_of m k)"

definition canWithCapabilityContext_snapshot ::
  "capability_context \<Rightarrow> string \<Rightarrow> string \<Rightarrow> string \<Rightarrow> bool" where
  "canWithCapabilityContext_snapshot ctx permission objectType objectId =
     canWithCapabilities (cc_capabilities ctx) permission objectType objectId"

definition isDelegatedAuthorityContext :: "capability_context \<Rightarrow> bool" where
  "isDelegatedAuthorityContext ctx \<longleftrightarrow>
     (if cc_kind ctx = Some ''turn-runtime'' \<or> cc_kind ctx = Some ''invocation-runtime'' then True
      else contextMetadata ctx ''authorityMode'' = Some (JStr ''delegated'')
         \<or> contextMetadata ctx ''authorityMode'' = Some (JStr AGENT_IDENTITY_AUTHORITY_MODE))"

definition parseContextCapability :: "json \<Rightarrow> capability list" where
  "parseContextCapability item =
     (if \<not> is_record item then []
      else case (nonEmptyString (jget ''permission'' item), nonEmptyString (jget ''objectType'' item),
                 nonEmptyString (jget ''objectId'' item)) of
             (Some p, Some t, Some i) \<Rightarrow>
               [\<lparr>cap_permission = p, cap_objectType = t, cap_objectId = i,
                 cap_source = nonEmptyString (jget ''source'' item)\<rparr>]
           | _ \<Rightarrow> [])"

definition parseContextCapabilities :: "json option \<Rightarrow> capability list" where
  "parseContextCapabilities value =
     (case value of Some (JArr items) \<Rightarrow> concat (map parseContextCapability items) | _ \<Rightarrow> [])"

section \<open>What one capability covers\<close>

definition isAdminCap :: "capability \<Rightarrow> bool" where
  "isAdminCap c \<longleftrightarrow> cap_permission c = ''admin'' \<and> cap_objectType c = ''system'' \<and> cap_objectId c = ''*''"

definition capCovers :: "capability \<Rightarrow> string \<Rightarrow> string \<Rightarrow> string \<Rightarrow> bool" where
  "capCovers c p t i \<longleftrightarrow>
     isAdminCap c
     \<or> (cap_permission c = p \<and> cap_objectType c = t \<and> objectIdMatches (cap_objectId c) i)
     \<or> (p = ''use'' \<and> t = ''tool'' \<and> i \<noteq> ''*'' \<and> cap_permission c = ''use'' \<and> cap_objectType c = ''toolgroup''
        \<and> (\<exists>ms. resolveToolGroup (cap_objectId c) = Some ms \<and> i \<in> set ms))"

lemma canWithCapabilities_iff: "canWithCapabilities cs p t i \<longleftrightarrow> (\<exists>c \<in> set cs. capCovers c p t i)"
  unfolding canWithCapabilities_def capCovers_def isAdminCap_def list_ex_iff
  by (auto split: option.splits)

lemma canWithCapabilities_mono:
  "set cs \<subseteq> set ds \<Longrightarrow> canWithCapabilities cs p t i \<Longrightarrow> canWithCapabilities ds p t i"
  by (auto simp: canWithCapabilities_iff)

lemma canWithCapabilities_append [simp]:
  "canWithCapabilities (cs @ ds) p t i \<longleftrightarrow> canWithCapabilities cs p t i \<or> canWithCapabilities ds p t i"
  by (auto simp: canWithCapabilities_iff)

lemma canWithCapabilities_Nil [simp]: "\<not> canWithCapabilities [] p t i"
  by (simp add: canWithCapabilities_iff)

lemma canWithCapabilities_single [simp]: "canWithCapabilities [c] p t i \<longleftrightarrow> capCovers c p t i"
  by (simp add: canWithCapabilities_iff)

lemma capCovers_same_grant: "same_grant c d \<Longrightarrow> capCovers c p t i = capCovers d p t i"
  by (simp add: capCovers_def isAdminCap_def)

lemma objectIdMatches_refl [simp]: "objectIdMatches i i"
  by (simp add: objectIdMatches_def)

lemma objectIdMatches_star_request: "objectIdMatches g ''*'' \<longleftrightarrow> g = ''*''"
  by (simp add: objectIdMatches_def)

lemma objectIdMatches_concrete: "CHR ''*'' \<notin> set g \<Longrightarrow> objectIdMatches g i \<longleftrightarrow> g = i"
  by (auto simp: objectIdMatches_def)

lemma objectIdMatches_star_grant: "i \<noteq> ''*'' \<Longrightarrow> objectIdMatches ''*'' i"
  by (simp add: objectIdMatches_def)

lemma star_suffix: "suffix ''*'' g \<Longrightarrow> g = butlast g @ ''*''"
  by (auto simp: suffix_def)

text \<open>An id that matches is equal, the full wildcard, or a prefix pattern.\<close>

lemma objectIdMatches_cases:
  assumes "objectIdMatches g i"
  obtains (eq) "g = i"
  | (star) "g = ''*''" "i \<noteq> ''*''"
  | (pat) q where "g = q @ ''*''" "q \<noteq> []" "prefix q i" "i \<noteq> ''*''"
proof (cases "g = i \<or> g = ''*''")
  case False
  with assms have "suffix ''*'' g" "prefix (butlast g) i" "i \<noteq> ''*''"
    by (auto simp: objectIdMatches_def matchPattern_cap_def split: if_splits)
  with False pat [of "butlast g"] show ?thesis by (metis append_Nil star_suffix)
qed (use assms eq star in \<open>auto simp: objectIdMatches_def\<close>)

lemma objectIdMatches_pat: "prefix q i \<Longrightarrow> i \<noteq> ''*'' \<Longrightarrow> objectIdMatches (q @ ''*'') i"
  by (auto simp: objectIdMatches_def matchPattern_cap_def suffix_def)

text \<open>
  A plain id has no star before its last character. Matching composes when the outer
  grant is plain; \<open>objectIdMatches_not_transitive\<close> in the delegation theory shows that
  it does not in general.
\<close>

definition plain_id :: "string \<Rightarrow> bool" where
  "plain_id g \<longleftrightarrow> CHR ''*'' \<notin> set (butlast g)"

lemma objectIdMatches_trans:
  assumes plain: "plain_id g" and gc: "objectIdMatches g c" and ci: "objectIdMatches c i"
  shows "objectIdMatches g i"
  using ci
proof (cases rule: objectIdMatches_cases)
  case eq
  with gc show ?thesis by simp
next
  case star
  with gc show ?thesis by (simp add: objectIdMatches_star_request objectIdMatches_star_grant)
next
  case (pat p)
  from gc show ?thesis
  proof (cases rule: objectIdMatches_cases)
    case eq
    with ci show ?thesis by simp
  next
    case star
    with pat(4) show ?thesis by (simp add: objectIdMatches_star_grant)
  next
    case (pat q)
    have "CHR ''*'' \<notin> set q" using plain pat(1) by (simp add: plain_id_def)
    moreover have "prefix q (p @ ''*'')" using pat(3) \<open>c = p @ ''*''\<close> by simp
    ultimately have "prefix q p" by (auto simp: prefix_append prefix_Cons)
    then have "prefix q i" using \<open>prefix p i\<close> by (rule prefix_order.trans)
    with \<open>i \<noteq> ''*''\<close> pat(1) show ?thesis by (simp add: objectIdMatches_pat)
  qed
qed

text \<open>Two ids that match a common request: one of them matches the other, or one is the full wildcard.\<close>

lemma objectIdMatches_common:
  assumes "objectIdMatches g i" and "objectIdMatches h i"
  shows "objectIdMatches g h \<or> objectIdMatches h g \<or> g = ''*'' \<or> h = ''*''"
proof -
  consider "g = i \<or> h = i" | "g = ''*'' \<or> h = ''*''"
    | q r where "g = q @ ''*''" "prefix q i" "h = r @ ''*''" "prefix r i" "g \<noteq> ''*''" "h \<noteq> ''*''"
    using assms by (metis objectIdMatches_cases)
  then show ?thesis
  proof cases
    case 3
    then consider "prefix q r" | "prefix r q" using prefix_same_cases by blast
    then show ?thesis
    proof cases
      case 1
      then have "prefix q h" using 3(3) by (simp add: prefix_append)
      then show ?thesis using 3 by (simp add: objectIdMatches_pat)
    next
      case 2
      then have "prefix r g" using 3(1) by (simp add: prefix_append)
      then show ?thesis using 3 by (simp add: objectIdMatches_pat)
    qed
  qed (use assms in auto)
qed

lemma parseContextCapabilities_wf:
  "c \<in> set (parseContextCapabilities v) \<Longrightarrow>
     cap_permission c \<noteq> [] \<and> cap_objectType c \<noteq> [] \<and> cap_objectId c \<noteq> []"
  by (auto simp: parseContextCapabilities_def parseContextCapability_def
      split: option.splits json.splits if_splits dest!: nonEmptyString_Some)

end
