(* ===== verification/Delegation.thy ===== *)
theory Delegation
  imports Capabilities
begin

text \<open>
  Delegated authority (\<open>src/src/permissions/delegation.ts\<close>): a turn runs with the
  intersection of what the executing agent, the actor who spoke, the surface it spoke
  on and the turn itself allow, less what any of them denies. The lemmas show that a
  deny wins and bound the effective set by the grants of every branch, request by
  request, together with the conditions both need.
\<close>

section \<open>Names and principals\<close>

definition DELEGATED_AUTHORITY_MODE :: string where "DELEGATED_AUTHORITY_MODE = ''delegated''"
definition TURN_SCOPED_AUTHORITY_KIND :: string where "TURN_SCOPED_AUTHORITY_KIND = ''turn-runtime''"
definition ROLE_MEMBERSHIP_RELATION :: string where "ROLE_MEMBERSHIP_RELATION = ''member''"
definition ROLE_OBJECT_TYPE :: string where "ROLE_OBJECT_TYPE = ''role''"
definition DELEGATION_OVERRIDE_RELATION_PREFIX :: string where
  "DELEGATION_OVERRIDE_RELATION_PREFIX = ''delegate_''"
definition DENY_RELATION_PREFIX :: string where "DENY_RELATION_PREFIX = ''deny_''"
definition BLOCKED_DELEGATION_OVERRIDE_RELATIONS :: "string list" where
  "BLOCKED_DELEGATION_OVERRIDE_RELATIONS = [''admin'']"

record authority_principal =
  ap_subjectType :: string
  ap_subjectId :: string

text \<open>\<open>value.slice(0, idx)\<close> and \<open>value.slice(idx + 1)\<close> at the first colon.\<close>

definition parseAuthorityPrincipal :: "json option \<Rightarrow> authority_principal option" where
  "parseAuthorityPrincipal value =
     (case value of
        Some (JStr v) \<Rightarrow>
          (case find_index ((=) (CHR '':'')) v of
             None \<Rightarrow> None
           | Some idx \<Rightarrow>
               if idx = 0 then None
               else
                 let subjectType = trim (take idx v); subjectId = trim (drop (idx + 1) v) in
                 if subjectType = [] \<or> subjectId = [] \<or> subjectId = ''<unknown>'' \<or> subjectId = ''unknown''
                 then None
                 else Some \<lparr>ap_subjectType = subjectType, ap_subjectId = subjectId\<rparr>)
      | _ \<Rightarrow> None)"

definition formatAuthorityPrincipal :: "authority_principal \<Rightarrow> string" where
  "formatAuthorityPrincipal pr = ap_subjectType pr @ '':'' @ ap_subjectId pr"

section \<open>Kinds of capabilities\<close>

definition isRoleMembership :: "capability \<Rightarrow> bool" where
  "isRoleMembership c \<longleftrightarrow> cap_permission c = ROLE_MEMBERSHIP_RELATION \<and> cap_objectType c = ROLE_OBJECT_TYPE"

definition isSurfaceConstraint :: "capability \<Rightarrow> bool" where
  "isSurfaceConstraint c \<longleftrightarrow> cap_permission c = ''constrain'' \<and> cap_objectType c = ROLE_OBJECT_TYPE"

definition isDelegationOverrideCapability :: "capability \<Rightarrow> bool" where
  "isDelegationOverrideCapability c \<longleftrightarrow>
     prefix DELEGATION_OVERRIDE_RELATION_PREFIX (cap_permission c)
     \<and> length DELEGATION_OVERRIDE_RELATION_PREFIX < length (cap_permission c)"

definition isDenyCapability :: "capability \<Rightarrow> bool" where
  "isDenyCapability c \<longleftrightarrow>
     prefix DENY_RELATION_PREFIX (cap_permission c) \<and> length DENY_RELATION_PREFIX < length (cap_permission c)"

definition isSnapshotCapability :: "capability \<Rightarrow> bool" where
  "isSnapshotCapability c \<longleftrightarrow>
     \<not> isRoleMembership c \<and> \<not> isDelegationOverrideCapability c \<and> \<not> isSurfaceConstraint c"

definition isRegularCapability :: "capability \<Rightarrow> bool" where
  "isRegularCapability c \<longleftrightarrow> isSnapshotCapability c \<and> \<not> isDenyCapability c"

definition isConstraintExpandedCapability :: "capability \<Rightarrow> bool" where
  "isConstraintExpandedCapability c =
     (case cap_source c of None \<Rightarrow> False | Some s \<Rightarrow> prefix ''constraint:'' s)"

definition normalizeDenyCapability :: "capability \<Rightarrow> capability list" where
  "normalizeDenyCapability c =
     (if \<not> isDenyCapability c then []
      else [\<lparr>cap_permission = drop (length DENY_RELATION_PREFIX) (cap_permission c),
             cap_objectType = cap_objectType c, cap_objectId = cap_objectId c,
             cap_source = Some (if truthy (cap_source c) then ''deny:'' @ nullish (cap_source c) [] else ''deny'')\<rparr>])"

text \<open>The key of the de-duplication is the joined string, not the triple.\<close>

definition capabilityKey :: "capability \<Rightarrow> string" where
  "capabilityKey c = cap_permission c @ '':'' @ cap_objectType c @ '':'' @ cap_objectId c"

definition dedupeContextCapabilities :: "capability list \<Rightarrow> capability list" where
  "dedupeContextCapabilities cs = dedup_by capabilityKey cs"

definition regularCapabilities :: "capability list \<Rightarrow> capability list" where
  "regularCapabilities cs = dedupeContextCapabilities (filter isRegularCapability cs)"

definition denyCapabilities :: "capability list \<Rightarrow> capability list" where
  "denyCapabilities cs = dedupeContextCapabilities (concat (map normalizeDenyCapability cs))"

definition hasAnyCapability :: "capability list option \<Rightarrow> bool" where
  "hasAnyCapability cs = (case cs of None \<Rightarrow> False | Some xs \<Rightarrow> xs \<noteq> [])"

section \<open>Allowing and denying a candidate\<close>

definition capabilitySetAllows :: "capability list \<Rightarrow> capability \<Rightarrow> bool" where
  "capabilitySetAllows cs candidate \<longleftrightarrow>
     (if canWithCapabilities cs (cap_permission candidate) (cap_objectType candidate) (cap_objectId candidate)
      then True
      else if cap_permission candidate = ''use'' \<and> cap_objectType candidate = ''toolgroup''
              \<and> cap_objectId candidate \<noteq> ''*''
      then (case resolveToolGroup (cap_objectId candidate) of
              None \<Rightarrow> False
            | Some members \<Rightarrow>
                members \<noteq> [] \<and> list_all (\<lambda>toolName. canWithCapabilities cs ''use'' ''tool'' toolName) members)
      else False)"

definition isToolOrToolGroup :: "string \<Rightarrow> bool" where
  "isToolOrToolGroup objectType \<longleftrightarrow> objectType = ''tool'' \<or> objectType = ''toolgroup''"

definition capabilityOverlaps :: "capability \<Rightarrow> capability \<Rightarrow> bool" where
  "capabilityOverlaps left right \<longleftrightarrow>
     (if capabilitySetAllows [left] right then True
      else if capabilitySetAllows [right] left then True
      else if cap_permission left \<noteq> cap_permission right then False
      else if cap_objectType left = cap_objectType right
              \<and> (cap_objectId left = ''*'' \<or> cap_objectId right = ''*'') then True
      else if cap_permission left = ''use'' \<and> isToolOrToolGroup (cap_objectType left)
              \<and> isToolOrToolGroup (cap_objectType right)
      then cap_objectId left = ''*'' \<or> cap_objectId right = ''*''
      else False)"

definition capabilitySetDenies :: "capability list \<Rightarrow> capability \<Rightarrow> bool" where
  "capabilitySetDenies cs candidate = list_ex (\<lambda>c. capabilityOverlaps c candidate) cs"

section \<open>Effective capabilities\<close>

record effective_input =
  ei_agentCapabilities :: "capability list"
  ei_actorCapabilities :: "capability list"
  ei_surfaceCapabilities :: "capability list option"
  ei_turnCapabilities :: "capability list option"
  ei_actorOverrideCapabilities :: "capability list option"
  ei_surfaceOverrideCapabilities :: "capability list option"

text \<open>The body of the \<open>filter\<close> callback: whether a candidate survives every branch.\<close>

definition surfaceAllows ::
  "capability list option \<Rightarrow> capability list \<Rightarrow> capability list \<Rightarrow> capability \<Rightarrow> bool" where
  "surfaceAllows surfaceCaps surfaceOverrideCaps actorCaps candidate =
     (case surfaceCaps of
        None \<Rightarrow> True
      | Some sc \<Rightarrow>
          let constraintCaps = filter isConstraintExpandedCapability sc in
          if capabilitySetAllows surfaceOverrideCaps candidate then True
          else if constraintCaps \<noteq> [] then capabilitySetAllows constraintCaps candidate
          else if capabilitySetAllows sc candidate then True
          else capabilitySetAllows actorCaps candidate)"

definition denyBranches :: "effective_input \<Rightarrow> capability list list" where
  "denyBranches inp =
     [denyCapabilities (ei_agentCapabilities inp), denyCapabilities (ei_actorCapabilities inp),
      denyCapabilities (nullish (ei_surfaceCapabilities inp) []),
      denyCapabilities (nullish (ei_turnCapabilities inp) [])]"

definition candidateAllowed :: "effective_input \<Rightarrow> capability \<Rightarrow> bool" where
  "candidateAllowed inp candidate =
     (let agentCaps = regularCapabilities (ei_agentCapabilities inp);
          actorCaps = regularCapabilities (ei_actorCapabilities inp);
          surfaceCaps = map_option regularCapabilities (ei_surfaceCapabilities inp);
          turnCaps = map_option regularCapabilities (ei_turnCapabilities inp);
          actorOverrideCaps = regularCapabilities (nullish (ei_actorOverrideCapabilities inp) []);
          surfaceOverrideCaps = regularCapabilities (nullish (ei_surfaceOverrideCapabilities inp) [])
      in if list_ex (\<lambda>ds. capabilitySetDenies ds candidate) (denyBranches inp) then False
         else if \<not> capabilitySetAllows agentCaps candidate then False
         else if \<not> capabilitySetAllows actorCaps candidate
                 \<and> \<not> capabilitySetAllows actorOverrideCaps candidate then False
         else if \<not> surfaceAllows surfaceCaps surfaceOverrideCaps actorCaps candidate then False
         else (case turnCaps of None \<Rightarrow> True | Some tc \<Rightarrow> capabilitySetAllows tc candidate))"

definition effectiveCandidates :: "effective_input \<Rightarrow> capability list" where
  "effectiveCandidates inp =
     dedupeContextCapabilities
       (regularCapabilities (ei_agentCapabilities inp)
        @ regularCapabilities (ei_actorCapabilities inp)
        @ (case ei_surfaceCapabilities inp of None \<Rightarrow> [] | Some sc \<Rightarrow> regularCapabilities sc)
        @ (case ei_turnCapabilities inp of None \<Rightarrow> [] | Some tc \<Rightarrow> regularCapabilities tc)
        @ regularCapabilities (nullish (ei_actorOverrideCapabilities inp) [])
        @ regularCapabilities (nullish (ei_surfaceOverrideCapabilities inp) []))"

definition buildEffectiveCapabilities :: "effective_input \<Rightarrow> capability list" where
  "buildEffectiveCapabilities inp =
     dedupeContextCapabilities
       (map (\<lambda>c. \<lparr>cap_permission = cap_permission c, cap_objectType = cap_objectType c,
                  cap_objectId = cap_objectId c, cap_source = Some ''effective''\<rparr>)
         (filter (candidateAllowed inp) (effectiveCandidates inp)))"

section \<open>Materialization\<close>

record delegation_input =
  di_agentPrincipal :: authority_principal
  di_actorPrincipal :: "authority_principal option"
  di_surfacePrincipal :: "authority_principal option"
  di_agentCapabilities :: "capability list option"
  di_actorCapabilities :: "capability list option"
  di_surfaceCapabilities :: "capability list option"
  di_agentDelegationOverrides :: "capability list option"
  di_surfaceDelegationOverrides :: "capability list option"
  di_agentCapabilityAdditions :: "capability list option"
  di_turnCapabilities :: "capability list option"
  di_includeSurfaceConstraint :: "bool option"
  di_allowDelegationOverrides :: "bool option"

record delegation_result =
  dr_agentCapabilities :: "capability list"
  dr_actorCapabilities :: "capability list"
  dr_surfaceCapabilities :: "capability list"
  dr_turnCapabilities :: "capability list"
  dr_actorOverrideCapabilities :: "capability list"
  dr_surfaceOverrideCapabilities :: "capability list"
  dr_effectiveCapabilities :: "capability list"

definition materializeDelegatedAuthority :: "delegation_input \<Rightarrow> delegation_result" where
  "materializeDelegatedAuthority inp =
     (let actorType = map_option ap_subjectType (di_actorPrincipal inp);
          agentCaps = dedupeContextCapabilities
            (nullish (di_agentCapabilities inp) [] @ nullish (di_agentCapabilityAdditions inp) []);
          actorCaps = nullish (di_actorCapabilities inp) [];
          surfaceCaps = nullish (di_surfaceCapabilities inp) [];
          allowOverrides = nullish (di_allowDelegationOverrides inp) (actorType = Some ''contact'');
          agentOverrides = (if allowOverrides then nullish (di_agentDelegationOverrides inp) [] else []);
          surfaceOverrides =
            (if allowOverrides \<and> di_surfacePrincipal inp \<noteq> None
             then nullish (di_surfaceDelegationOverrides inp) [] else []);
          actorOverrideCaps = agentOverrides @ surfaceOverrides;
          includeSurface = nullish (di_includeSurfaceConstraint inp)
            (di_surfacePrincipal inp \<noteq> None \<or> actorType \<noteq> Some ''automation'');
          turnCaps = nullish (di_turnCapabilities inp) []
      in \<lparr>dr_agentCapabilities = agentCaps, dr_actorCapabilities = actorCaps,
          dr_surfaceCapabilities = surfaceCaps, dr_turnCapabilities = turnCaps,
          dr_actorOverrideCapabilities = actorOverrideCaps,
          dr_surfaceOverrideCapabilities = surfaceOverrides,
          dr_effectiveCapabilities = buildEffectiveCapabilities
            \<lparr>ei_agentCapabilities = agentCaps, ei_actorCapabilities = actorCaps,
             ei_surfaceCapabilities = (if includeSurface then Some surfaceCaps else None),
             ei_turnCapabilities = (if hasAnyCapability (Some turnCaps) then Some turnCaps else None),
             ei_actorOverrideCapabilities = Some actorOverrideCaps,
             ei_surfaceOverrideCapabilities = Some surfaceOverrides\<rparr>\<rparr>)"

section \<open>Keys\<close>

text \<open>
  The key of a capability determines its grant when permission and object type have no
  colon, which is what the textual form \<open>permission:type:id\<close> of a capability provides.
\<close>

definition colon_free :: "capability \<Rightarrow> bool" where
  "colon_free c \<longleftrightarrow> CHR '':'' \<notin> set (cap_permission c) \<and> CHR '':'' \<notin> set (cap_objectType c)"

lemma capabilityKey_inject:
  assumes "colon_free c" "colon_free d" "capabilityKey c = capabilityKey d"
  shows "same_grant c d"
proof -
  have "cap_permission c = cap_permission d
    \<and> cap_objectType c @ CHR '':'' # cap_objectId c = cap_objectType d @ CHR '':'' # cap_objectId d"
    using assms by (intro sep_inject [of "CHR '':''"]) (simp_all add: capabilityKey_def colon_free_def)
  moreover from this have "cap_objectType c = cap_objectType d \<and> cap_objectId c = cap_objectId d"
    using assms(1,2) by (intro sep_inject [of "CHR '':''"]) (simp_all add: colon_free_def)
  ultimately show ?thesis by simp
qed

lemma dedupe_same_grant:
  assumes "c \<in> set cs" "\<forall>d \<in> set cs. colon_free d"
  obtains d where "d \<in> set (dedupeContextCapabilities cs)" "same_grant c d"
proof -
  have "capabilityKey c \<in> capabilityKey ` set (dedupeContextCapabilities cs)"
    using assms(1) by (simp add: dedupeContextCapabilities_def dedup_by_keys)
  then obtain d where d: "d \<in> set (dedupeContextCapabilities cs)" "capabilityKey c = capabilityKey d"
    by auto
  then have "d \<in> set cs" using dedup_by_subset [of capabilityKey cs] by (auto simp: dedupeContextCapabilities_def)
  with assms d show ?thesis using that capabilityKey_inject by metis
qed

lemma dedupe_subset: "set (dedupeContextCapabilities cs) \<subseteq> set cs"
  by (simp add: dedupeContextCapabilities_def dedup_by_subset)

lemma isDenyCapability_iff:
  "isDenyCapability c \<longleftrightarrow> (\<exists>p. p \<noteq> [] \<and> cap_permission c = ''deny_'' @ p)"
  by (auto simp: isDenyCapability_def DENY_RELATION_PREFIX_def prefix_def)

lemma normalizeDeny_colon_free: "colon_free c \<Longrightarrow> d \<in> set (normalizeDenyCapability c) \<Longrightarrow> colon_free d"
  by (auto simp: normalizeDenyCapability_def colon_free_def dest: in_set_dropD split: if_splits)

lemma denyCapabilities_has:
  assumes "d \<in> set bs" "\<forall>c \<in> set bs. colon_free c" "cap_permission d = ''deny_'' @ p" "p \<noteq> []"
  obtains d' where "d' \<in> set (denyCapabilities bs)"
    "same_grant (mk_cap p (cap_objectType d) (cap_objectId d)) d'"
proof -
  let ?ns = "concat (map normalizeDenyCapability bs)"
  have "isDenyCapability d" using assms by (auto simp: isDenyCapability_iff)
  then obtain n where n: "n \<in> set ?ns" "same_grant (mk_cap p (cap_objectType d) (cap_objectId d)) n"
    using assms by (force simp: normalizeDenyCapability_def DENY_RELATION_PREFIX_def)
  have "\<forall>c \<in> set ?ns. colon_free c" using assms(2) normalizeDeny_colon_free by auto
  with n(1) obtain d' where "d' \<in> set (dedupeContextCapabilities ?ns)" "same_grant n d'"
    by (rule dedupe_same_grant)
  with n show ?thesis using that by (simp add: denyCapabilities_def)
qed

section \<open>Allowing, overlapping and the grant of a capability\<close>

lemma capabilitySetAllows_same_grant:
  "same_grant c d \<Longrightarrow> capabilitySetAllows cs c = capabilitySetAllows cs d"
  by (simp add: capabilitySetAllows_def)

lemma capabilitySetAllows_single_same:
  "same_grant c d \<Longrightarrow> capabilitySetAllows [c] e = capabilitySetAllows [d] e"
  by (simp add: capabilitySetAllows_def capCovers_same_grant [of c d] cong: list.pred_cong option.case_cong)

lemma capabilityOverlaps_same_grant:
  "same_grant c c' \<Longrightarrow> same_grant d d' \<Longrightarrow> capabilityOverlaps c d = capabilityOverlaps c' d'"
  using capabilitySetAllows_same_grant [of d d' "[c]"] capabilitySetAllows_same_grant [of c c' "[d]"]
    capabilitySetAllows_single_same [of c c' d'] capabilitySetAllows_single_same [of d d' c']
  by (auto simp: capabilityOverlaps_def)

lemma candidateAllowed_same_grant:
  "same_grant c d \<Longrightarrow> candidateAllowed inp c = candidateAllowed inp d"
  using capabilitySetAllows_same_grant [of c d] capabilityOverlaps_same_grant [of _ _ c d]
  by (simp add: candidateAllowed_def surfaceAllows_def capabilitySetDenies_def Let_def
      cong: option.case_cong)

lemma effective_elem:
  assumes "e \<in> set (buildEffectiveCapabilities inp)"
  obtains c where "c \<in> set (effectiveCandidates inp)" "candidateAllowed inp c" "same_grant c e"
  using assms dedupe_subset unfolding buildEffectiveCapabilities_def by fastforce

lemma effective_allowed: "e \<in> set (buildEffectiveCapabilities inp) \<Longrightarrow> candidateAllowed inp e"
  by (metis effective_elem candidateAllowed_same_grant)

lemma capCovers_admin: "isAdminCap c \<Longrightarrow> capCovers c p t i"
  by (simp add: capCovers_def)

lemma capCovers_allows:
  "capCovers c (cap_permission e) (cap_objectType e) (cap_objectId e) \<Longrightarrow> capabilitySetAllows [c] e"
  by (simp add: capabilitySetAllows_def)

section \<open>A deny wins\<close>

text \<open>
  A denied capability and a granted one that cover the same request overlap; for tools,
  which a group can also grant, the deny has to name the requested tool.
\<close>

lemma overlap_of_common:
  assumes d: "capCovers d q t i" and e: "capCovers e q t i"
    and tool: "q = ''use'' \<and> t = ''tool'' \<longrightarrow> isAdminCap d \<or> same_grant d (mk_cap q t i)"
  shows "capabilityOverlaps d e"
proof -
  have exact: ?thesis if "same_grant d (mk_cap q t i)"
  proof -
    from that e have "capabilitySetAllows [e] d" by (intro capCovers_allows) simp
    then show ?thesis by (simp add: capabilityOverlaps_def)
  qed
  consider "isAdminCap d" | "isAdminCap e" | "same_grant d (mk_cap q t i)"
    | "cap_permission d = q" "cap_objectType d = t" "objectIdMatches (cap_objectId d) i"
      "cap_permission e = q" "cap_objectType e = t" "objectIdMatches (cap_objectId e) i"
    using d e tool by (auto simp: capCovers_def)
  then show ?thesis
  proof cases
    case 1
    then show ?thesis by (simp add: capabilityOverlaps_def capCovers_allows capCovers_admin)
  next
    case 2
    then show ?thesis by (simp add: capabilityOverlaps_def capCovers_allows capCovers_admin)
  next
    case 3
    then show ?thesis by (rule exact)
  next
    case 4
    have left: "objectIdMatches (cap_objectId d) (cap_objectId e) \<Longrightarrow> capabilitySetAllows [d] e"
      using 4 by (intro capCovers_allows) (simp add: capCovers_def)
    have right: "objectIdMatches (cap_objectId e) (cap_objectId d) \<Longrightarrow> capabilitySetAllows [e] d"
      using 4 by (intro capCovers_allows) (simp add: capCovers_def)
    from objectIdMatches_common [OF 4(3,6)] left right 4 show ?thesis
      by (auto simp: capabilityOverlaps_def)
  qed
qed

definition authorityBranches :: "effective_input \<Rightarrow> capability list list" where
  "authorityBranches inp =
     [ei_agentCapabilities inp, ei_actorCapabilities inp,
      nullish (ei_surfaceCapabilities inp) [], nullish (ei_turnCapabilities inp) []]"

lemma denyBranches_eq: "denyBranches inp = map denyCapabilities (authorityBranches inp)"
  by (simp add: denyBranches_def authorityBranches_def)

lemma effective_not_denied:
  assumes "e \<in> set (buildEffectiveCapabilities inp)" "bs \<in> set (authorityBranches inp)"
    "d \<in> set (denyCapabilities bs)"
  shows "\<not> capabilityOverlaps d e"
  using effective_allowed [OF assms(1)] assms(2,3)
  by (auto simp: candidateAllowed_def Let_def denyBranches_eq capabilitySetDenies_def list_ex_iff
      split: if_splits)

text \<open>C28: A deny in any branch of the authority of a turn (agent, actor, surface or turn) wins over
  every grant: no request the deny covers is granted by the effective capabilities. Two conditions
  bound this. The grants of the branch are free of colons, because the removal of duplicates joins
  their parts by colons; and for the use of a tool the deny has to name exactly that tool, because a
  deny on a pattern of tools does not reach a tool group (see
  \<open>deny_pattern_bypassed_by_toolgroup\<close>).\<close>

theorem deny_wins:
  assumes "bs \<in> set (authorityBranches inp)" and "\<forall>c \<in> set bs. colon_free c"
    and "d \<in> set bs" and "cap_permission d = ''deny_'' @ p" and "p \<noteq> []"
    and "capCovers (mk_cap p (cap_objectType d) (cap_objectId d)) q t i"
    and "q = ''use'' \<and> t = ''tool'' \<longrightarrow> p = q \<and> cap_objectType d = t \<and> cap_objectId d = i"
  shows "\<not> canWithCapabilities (buildEffectiveCapabilities inp) q t i"
proof
  let ?n = "mk_cap p (cap_objectType d) (cap_objectId d)"
  assume "canWithCapabilities (buildEffectiveCapabilities inp) q t i"
  then obtain e where e: "e \<in> set (buildEffectiveCapabilities inp)" "capCovers e q t i"
    by (auto simp: canWithCapabilities_iff)
  obtain d' where d': "d' \<in> set (denyCapabilities bs)" "same_grant ?n d'"
    using assms(3,2,4,5) by (rule denyCapabilities_has)
  have "capabilityOverlaps ?n e"
    by (rule overlap_of_common [OF assms(6) e(2)]) (use assms(7) in auto)
  then have "capabilityOverlaps d' e"
    using capabilityOverlaps_same_grant [OF d'(2), of e e] by simp
  with effective_not_denied [OF e(1) assms(1) d'(1)] show False by simp
qed

theorem deny_wins_witness:
  "\<not> canWithCapabilities
      (buildEffectiveCapabilities
        \<lparr>ei_agentCapabilities = [mk_cap ''use'' ''tool'' ''*'', mk_cap ''deny_use'' ''tool'' ''Bash''],
         ei_actorCapabilities = [mk_cap ''use'' ''toolgroup'' ''execute'', mk_cap ''use'' ''tool'' ''Read''],
         ei_surfaceCapabilities = None, ei_turnCapabilities = None,
         ei_actorOverrideCapabilities = None, ei_surfaceOverrideCapabilities = None\<rparr>)
      ''use'' ''tool'' ''Bash''"
  by (rule deny_wins [where bs = "[mk_cap ''use'' ''tool'' ''*'', mk_cap ''deny_use'' ''tool'' ''Bash'']"
        and d = "mk_cap ''deny_use'' ''tool'' ''Bash''" and p = "''use''"])
    (simp_all add: authorityBranches_def colon_free_def capCovers_def)

section \<open>Bounded by every branch\<close>

text \<open>
  The grants of a branch are well formed when their ids are plain and a wildcard over tool
  groups comes with the wildcard over tools; the bootstrap grants of an agent are. A
  candidate such a branch allows covers no request the branch does not allow.
\<close>

definition wf_grants :: "capability list \<Rightarrow> bool" where
  "wf_grants cs \<longleftrightarrow>
     (\<forall>c \<in> set cs. plain_id (cap_objectId c))
     \<and> ((\<exists>c \<in> set cs. cap_permission c = ''use'' \<and> cap_objectType c = ''toolgroup''
            \<and> CHR ''*'' \<in> set (cap_objectId c))
        \<longrightarrow> (\<exists>c \<in> set cs. same_grant c (mk_cap ''use'' ''tool'' ''*'')))"

lemma capCovers_compose:
  assumes c: "c \<in> set cs" and wf: "wf_grants cs"
    and ce: "capCovers c (cap_permission e) (cap_objectType e) (cap_objectId e)" and e: "capCovers e p t i"
  shows "canWithCapabilities cs p t i"
proof -
  have plain: "plain_id (cap_objectId c)" using wf c by (simp add: wf_grants_def)
  have via: "canWithCapabilities cs p t i" if "capCovers c p t i"
    using that c by (auto simp: canWithCapabilities_iff)
  consider (adm) "isAdminCap c" | (adme) "isAdminCap e"
    | (dir) "cap_permission e = p" "cap_objectType e = t" "objectIdMatches (cap_objectId e) i"
    | (grp) ms where "p = ''use''" "t = ''tool''" "i \<noteq> ''*''" "cap_permission e = ''use''"
        "cap_objectType e = ''toolgroup''" "resolveToolGroup (cap_objectId e) = Some ms" "i \<in> set ms"
    using e by (auto simp: capCovers_def)
  then show ?thesis
  proof cases
    case adm
    then show ?thesis by (intro via capCovers_admin)
  next
    case adme
    then have "isAdminCap c"
      using ce by (auto simp: capCovers_def isAdminCap_def objectIdMatches_star_request)
    then show ?thesis by (intro via capCovers_admin)
  next
    case dir
    show ?thesis
    proof (cases "cap_permission c = p \<and> cap_objectType c = t \<and> objectIdMatches (cap_objectId c) (cap_objectId e)")
      case True
      then have "objectIdMatches (cap_objectId c) i" using plain dir(3) objectIdMatches_trans by blast
      with True show ?thesis by (intro via) (simp add: capCovers_def)
    next
      case False
      with ce dir consider "isAdminCap c"
        | ms where "p = ''use''" "t = ''tool''" "cap_permission c = ''use''" "cap_objectType c = ''toolgroup''"
          "resolveToolGroup (cap_objectId c) = Some ms" "cap_objectId e \<in> set ms"
        by (auto simp: capCovers_def)
      then show ?thesis
      proof cases
        case 1
        then show ?thesis by (intro via capCovers_admin)
      next
        case 2
        then have "CHR ''*'' \<notin> set (cap_objectId e)" using resolveToolGroup_shape(3) by blast
        with dir(3) have "i = cap_objectId e" "i \<noteq> ''*''" by (auto simp: objectIdMatches_concrete)
        with 2 show ?thesis by (intro via) (auto simp: capCovers_def)
      qed
    qed
  next
    case (grp ms)
    from ce grp consider "isAdminCap c"
      | "cap_permission c = ''use''" "cap_objectType c = ''toolgroup''" "objectIdMatches (cap_objectId c) (cap_objectId e)"
      by (auto simp: capCovers_def)
    then show ?thesis
    proof cases
      case 1
      then show ?thesis by (intro via capCovers_admin)
    next
      case 2
      show ?thesis
      proof (cases "CHR ''*'' \<in> set (cap_objectId c)")
        case True
        with 2 c wf obtain d where "d \<in> set cs" "same_grant d (mk_cap ''use'' ''tool'' ''*'')"
          by (auto simp: wf_grants_def)
        then have "capCovers d p t i" using grp by (simp add: capCovers_def objectIdMatches_star_grant)
        with \<open>d \<in> set cs\<close> show ?thesis by (auto simp: canWithCapabilities_iff)
      next
        case False
        with 2 have "cap_objectId c = cap_objectId e" by (simp add: objectIdMatches_concrete)
        with 2 grp show ?thesis by (intro via) (auto simp: capCovers_def)
      qed
    qed
  qed
qed

lemma capabilitySetAllows_cases:
  assumes "capabilitySetAllows cs e"
  obtains (cov) c where "c \<in> set cs" "capCovers c (cap_permission e) (cap_objectType e) (cap_objectId e)"
  | (grp) ms where "cap_permission e = ''use''" "cap_objectType e = ''toolgroup''"
      "resolveToolGroup (cap_objectId e) = Some ms" "\<forall>m \<in> set ms. canWithCapabilities cs ''use'' ''tool'' m"
  using assms by (auto simp: capabilitySetAllows_def canWithCapabilities_iff list_all_iff
      split: if_splits option.splits)

lemma capabilitySetAllows_compose:
  assumes wf: "wf_grants cs" and allows: "capabilitySetAllows cs e" and e: "capCovers e p t i"
  shows "capabilitySetAllows cs (mk_cap p t i)"
  using allows
proof (cases rule: capabilitySetAllows_cases)
  case (cov c)
  then have "canWithCapabilities cs p t i" using wf e by (intro capCovers_compose)
  then show ?thesis by (simp add: capabilitySetAllows_def)
next
  case (grp ms)
  have star: "CHR ''*'' \<notin> set (cap_objectId e)" using grp resolveToolGroup_shape by blast
  consider "p = ''use''" "t = ''toolgroup''" "i = cap_objectId e" | "p = ''use''" "t = ''tool''" "i \<in> set ms"
    using e grp star by (auto simp: capCovers_def isAdminCap_def objectIdMatches_concrete)
  then show ?thesis
  proof cases
    case 1
    with allows show ?thesis using capabilitySetAllows_same_grant [of e "mk_cap p t i" cs] grp by simp
  next
    case 2
    with grp show ?thesis by (simp add: capabilitySetAllows_def)
  qed
qed

text \<open>The regular grants each branch contributes.\<close>

abbreviation agentGrants :: "effective_input \<Rightarrow> capability list" where
  "agentGrants inp \<equiv> regularCapabilities (ei_agentCapabilities inp)"

abbreviation actorGrants :: "effective_input \<Rightarrow> capability list" where
  "actorGrants inp \<equiv> regularCapabilities (ei_actorCapabilities inp)"

abbreviation actorOverrideGrants :: "effective_input \<Rightarrow> capability list" where
  "actorOverrideGrants inp \<equiv> regularCapabilities (nullish (ei_actorOverrideCapabilities inp) [])"

lemma candidateAllowedD:
  assumes "candidateAllowed inp c"
  shows "capabilitySetAllows (agentGrants inp) c"
    "capabilitySetAllows (actorGrants inp) c \<or> capabilitySetAllows (actorOverrideGrants inp) c"
    "ei_turnCapabilities inp = Some tc \<Longrightarrow> capabilitySetAllows (regularCapabilities tc) c"
  using assms by (auto simp: candidateAllowed_def Let_def split: if_splits)

text \<open>C29: When the regular grants of the branches are well formed (plain ids, and a wildcard over tool
  groups only beside the wildcard over tools), the effective capabilities of a turn never exceed the executing agent, nor the actor
  or the actor's delegation overrides, nor, where the turn brings capabilities of its own, those:
  every request they cover is allowed by each of these. Without well-formedness they can exceed the
  agent (see \<open>double_star_exceeds_agent\<close>).\<close>

theorem effective_bounded_by_branches:
  assumes "canWithCapabilities (buildEffectiveCapabilities inp) p t i"
    and "wf_grants (agentGrants inp)" and "wf_grants (actorGrants inp)" and "wf_grants (actorOverrideGrants inp)"
    and "\<forall>tc. ei_turnCapabilities inp = Some tc \<longrightarrow> wf_grants (regularCapabilities tc)"
  shows "capabilitySetAllows (agentGrants inp) (mk_cap p t i)
     \<and> (capabilitySetAllows (actorGrants inp) (mk_cap p t i)
        \<or> capabilitySetAllows (actorOverrideGrants inp) (mk_cap p t i))
     \<and> (\<forall>tc. ei_turnCapabilities inp = Some tc \<longrightarrow> capabilitySetAllows (regularCapabilities tc) (mk_cap p t i))"
proof -
  obtain e where e: "e \<in> set (buildEffectiveCapabilities inp)" "capCovers e p t i"
    using assms(1) by (auto simp: canWithCapabilities_iff)
  note allowed = candidateAllowedD [OF effective_allowed [OF e(1)]]
  show ?thesis
    using allowed capabilitySetAllows_compose [OF _ _ e(2)] assms(2-5) by blast
qed

definition sample_effective_input :: effective_input where
  "sample_effective_input =
     \<lparr>ei_agentCapabilities = [mk_cap ''use'' ''tool'' ''*'', mk_cap ''use'' ''toolgroup'' ''*''],
      ei_actorCapabilities = [mk_cap ''use'' ''toolgroup'' ''read-only''],
      ei_surfaceCapabilities = Some [],
      ei_turnCapabilities = Some [mk_cap ''use'' ''tool'' ''*''],
      ei_actorOverrideCapabilities = None, ei_surfaceOverrideCapabilities = None\<rparr>"

theorem effective_bounded_by_branches_witness:
  "capabilitySetAllows (agentGrants sample_effective_input) (mk_cap ''use'' ''tool'' ''Read'')
     \<and> (capabilitySetAllows (actorGrants sample_effective_input) (mk_cap ''use'' ''tool'' ''Read'')
        \<or> capabilitySetAllows (actorOverrideGrants sample_effective_input) (mk_cap ''use'' ''tool'' ''Read''))
     \<and> capabilitySetAllows (regularCapabilities [mk_cap ''use'' ''tool'' ''*'']) (mk_cap ''use'' ''tool'' ''Read'')"
proof -
  have 1: "canWithCapabilities (buildEffectiveCapabilities sample_effective_input) ''use'' ''tool'' ''Read''"
    by code_simp
  have 2: "wf_grants (agentGrants sample_effective_input)" "wf_grants (actorGrants sample_effective_input)"
    "wf_grants (actorOverrideGrants sample_effective_input)"
    "wf_grants (regularCapabilities [mk_cap ''use'' ''tool'' ''*''])"
    by code_simp+
  have 3: "ei_turnCapabilities sample_effective_input = Some [mk_cap ''use'' ''tool'' ''*'']"
    by (simp add: sample_effective_input_def)
  with 2(4) have "\<forall>tc. ei_turnCapabilities sample_effective_input = Some tc \<longrightarrow> wf_grants (regularCapabilities tc)"
    by simp
  from effective_bounded_by_branches [OF 1 2(1,2,3) this] 3 show ?thesis by blast
qed

section \<open>Where the bounds fail\<close>

text \<open>
  The hypotheses above are needed. Matching of patterns does not compose when a pattern
  ends in two stars, and a deny that names a pattern of tools does not reach the tools a
  granted tool group contains.
\<close>

text \<open>a deny on a pattern of tools is bypassed by a tool group: with \<open>deny_use tool:B*\<close> on the
  agent and the group \<open>execute\<close> granted to agent and actor, the effective capabilities still cover
  the use of \<open>Bash\<close>, which the deny covers.\<close>

theorem deny_pattern_bypassed_by_toolgroup:
  "canWithCapabilities
     (buildEffectiveCapabilities
        \<lparr>ei_agentCapabilities = [mk_cap ''use'' ''toolgroup'' ''execute'', mk_cap ''deny_use'' ''tool'' ''B*''],
         ei_actorCapabilities = [mk_cap ''use'' ''toolgroup'' ''execute''],
         ei_surfaceCapabilities = None, ei_turnCapabilities = None,
         ei_actorOverrideCapabilities = None, ei_surfaceOverrideCapabilities = None\<rparr>)
     ''use'' ''tool'' ''Bash''
   \<and> capCovers (mk_cap ''use'' ''tool'' ''B*'') ''use'' ''tool'' ''Bash''"
  unfolding canWithCapabilities_single [symmetric] by code_simp

text \<open>a pattern with two trailing stars lets the effective capabilities exceed the agent: an agent
  granted \<open>session:a**\<close> and an actor granted \<open>session:a*\<close> yield an effective grant that covers
  \<open>session:ab\<close>, which the agent's own grant does not cover.\<close>

theorem double_star_exceeds_agent:
  "canWithCapabilities
     (buildEffectiveCapabilities
        \<lparr>ei_agentCapabilities = [mk_cap ''access'' ''session'' ''a**''],
         ei_actorCapabilities = [mk_cap ''access'' ''session'' ''a*''],
         ei_surfaceCapabilities = None, ei_turnCapabilities = None,
         ei_actorOverrideCapabilities = None, ei_surfaceOverrideCapabilities = None\<rparr>)
     ''access'' ''session'' ''ab''
   \<and> \<not> canWithCapabilities [mk_cap ''access'' ''session'' ''a**''] ''access'' ''session'' ''ab''"
  by code_simp

end
