(* ===== verification/Providers.thy ===== *)
theory Providers
  imports Delegation
begin

text \<open>
  The vocabulary of the permission provider runtime (\<open>provider-types.ts\<close>) and the
  providers that only materialize grants (\<open>runtime-bootstrap-provider.ts\<close>,
  \<open>agent-default-capabilities-provider.ts\<close>, \<open>agent-identity-permissions-provider.ts\<close>,
  \<open>contact-policy-permissions-provider.ts\<close>), all under \<open>src/src/permissions\<close>. What
  the providers read from the database is the record \<open>permission_db\<close>: the defaults of
  an agent, the policy of a contact and the definition of a tag.
\<close>

section \<open>Requests, decisions and providers\<close>

datatype decision_value = Allow | Deny | NeedsApproval | NotApplicable

record perm_subject =
  sub_type :: string
  sub_id :: string

datatype access_kind = AccessRead | AccessMutate
datatype access_risk = RiskLow | RiskMedium | RiskHigh | RiskDestructive

record command_access =
  ca_kind :: access_kind
  ca_resource :: string
  ca_action :: string
  ca_risk :: access_risk
  ca_requiresContext :: "string list option"
  ca_resourceId :: "string option"
  ca_requireConcreteResource :: "bool option"
  ca_resourceIdPattern :: "string option"
  ca_input :: "string list option"
  ca_redactions :: "string list option"
  ca_localOperator :: "bool option"
  ca_requiresConfirmation :: "bool option"
  ca_notes :: "string option"

datatype operation_source = SrcCli | SrcTool | SrcGateway

text \<open>The only kind of operation is the CLI command.\<close>

record cli_operation =
  op_source :: operation_source
  op_group :: string
  op_command :: string
  op_fullName :: string
  op_access :: command_access
  op_input :: "(string \<times> json) list option"

record capability_options =
  co_includeRoles :: "bool option"
  co_includeConstraints :: "bool option"
  co_executorAgentId :: "string option"
  co_executorCapabilities :: "capability list option"
  co_compartmentType :: "string option"
  co_compartmentId :: "string option"
  co_authorityModel :: "string option"

record perm_request =
  rq_requestId :: "string option"
  rq_localOperator :: "bool option"
  rq_subject :: "perm_subject option"
  rq_context :: "capability_context option"
  rq_capabilities :: "capability list option"
  rq_operation :: "cli_operation option"
  rq_permission :: string
  rq_objectType :: string
  rq_objectId :: string

record perm_decision =
  pd_decision :: decision_value
  pd_allowed :: bool
  pd_providerId :: string
  pd_providerVersion :: string
  pd_reasonCode :: string
  pd_permission :: string
  pd_objectType :: string
  pd_objectId :: string
  pd_requestId :: "string option"
  pd_durationMs :: "int option"
  pd_subject :: "perm_subject option"
  pd_contextId :: "string option"
  pd_evidence :: "json list option"

text \<open>\<open>authorize\<close> may throw: \<open>Inl\<close> is the message of the error.\<close>

record perm_provider =
  pv_id :: string
  pv_version :: string
  pv_required :: bool
  pv_supports :: "perm_request \<Rightarrow> bool"
  pv_authorize :: "perm_request \<Rightarrow> string + perm_decision"
  pv_materialize :: "(perm_subject \<Rightarrow> capability_options option \<Rightarrow> capability list) option"

section \<open>What the providers read\<close>

record contact_policy =
  cp_status :: string
  cp_optOut :: bool
  cp_tags :: "string list"

record tag_definition =
  td_slug :: string
  td_kind :: string
  td_source :: string
  td_metadata :: "json option"

text \<open>
  \<open>db_agents\<close> gives the defaults of an existing agent (\<open>dbGetAgent\<close>), \<open>db_contacts\<close> the
  policy of a resolvable contact (\<open>getContactDetails\<close>), \<open>db_tags\<close> the definition of a tag
  (\<open>dbGetTagDefinition\<close>).
\<close>

record permission_db =
  db_agents :: "string \<Rightarrow> (string \<times> json) list option option"
  db_contacts :: "string \<Rightarrow> contact_policy option"
  db_tags :: "string \<Rightarrow> tag_definition option"

text \<open>The decision of a provider that only materializes, in its four copies.\<close>

definition notApplicableDecision :: "string \<Rightarrow> string \<Rightarrow> string \<Rightarrow> perm_request \<Rightarrow> perm_decision" where
  "notApplicableDecision pid ver reason rq =
     \<lparr>pd_decision = NotApplicable, pd_allowed = False, pd_providerId = pid, pd_providerVersion = ver,
      pd_reasonCode = reason, pd_permission = rq_permission rq, pd_objectType = rq_objectType rq,
      pd_objectId = rq_objectId rq, pd_requestId = None, pd_durationMs = None,
      pd_subject = rq_subject rq, pd_contextId = None, pd_evidence = None\<rparr>"

text \<open>De-duplication by the joined string with the source.\<close>

definition sourcedKey :: "capability \<Rightarrow> string" where
  "sourcedKey c = cap_permission c @ '':'' @ cap_objectType c @ '':'' @ cap_objectId c
     @ '':'' @ nullish (cap_source c) []"

definition dedupeCapabilities :: "capability list \<Rightarrow> capability list" where
  "dedupeCapabilities cs = dedup_by sourcedKey cs"

section \<open>The runtime bootstrap\<close>

definition TRUSTED_BOOTSTRAP_SUBJECT_TYPES :: "string list" where
  "TRUSTED_BOOTSTRAP_SUBJECT_TYPES = [''agent'', ''automation'']"

definition BASELINE_COMMAND_GROUPS :: "string list" where
  "BASELINE_COMMAND_GROUPS = [''sessions'', ''tasks'', ''specs'', ''skills'', ''self'', ''doctor'']"

definition SAFE_EXECUTABLES :: "string list" where
  "SAFE_EXECUTABLES =
     [''bun'', ''cat'', ''date'', ''find'', ''git'', ''head'', ''ls'', ''nl'', ''pwd'', ''ravi'', ''rg'',
      ''sed'', ''sort'', ''tail'', ''uniq'', ''wc'', ''xargs'']"

definition isTrustedBootstrapSubject :: "string \<Rightarrow> string \<Rightarrow> bool" where
  "isTrustedBootstrapSubject subjectType subjectId =
     (let normalizedId = to_lower (trim subjectId)
      in subjectType \<in> set TRUSTED_BOOTSTRAP_SUBJECT_TYPES \<and> normalizedId \<noteq> [] \<and> normalizedId \<noteq> ''unknown'')"

abbreviation grant_from :: "string \<Rightarrow> string \<Rightarrow> string \<Rightarrow> string \<Rightarrow> capability" where
  "grant_from src p t i \<equiv> \<lparr>cap_permission = p, cap_objectType = t, cap_objectId = i, cap_source = Some src\<rparr>"

definition bootstrapCapabilitiesFor :: "string \<Rightarrow> capability list" where
  "bootstrapCapabilitiesFor subjectType =
     (let source = ''runtime-bootstrap:'' @ subjectType
      in [grant_from source ''use'' ''tool'' ''*'', grant_from source ''use'' ''toolgroup'' ''*'',
          grant_from source ''read'' ''context'' ''codex-bash-hook'']
         @ map (grant_from source ''execute'' ''group'') BASELINE_COMMAND_GROUPS
         @ map (grant_from source ''execute'' ''executable'') SAFE_EXECUTABLES
         @ [grant_from source ''read_own_contacts'' ''system'' ''*''])"

definition materializeBootstrap :: "perm_subject \<Rightarrow> capability list" where
  "materializeBootstrap subject =
     (if \<not> isTrustedBootstrapSubject (sub_type subject) (sub_id subject) then []
      else bootstrapCapabilitiesFor (sub_type subject))"

definition runtimeBootstrapProvider :: perm_provider where
  "runtimeBootstrapProvider =
     \<lparr>pv_id = ''runtime-bootstrap'', pv_version = ''bootstrap/v1'', pv_required = True,
      pv_supports = (\<lambda>_. False),
      pv_authorize = (\<lambda>rq. Inr (notApplicableDecision ''runtime-bootstrap'' ''bootstrap/v1''
                                  ''runtime_bootstrap_materializer_only'' rq)),
      pv_materialize = Some (\<lambda>subject _. materializeBootstrap subject)\<rparr>"

section \<open>Capabilities written by hand\<close>

text \<open>A capability as the text \<open>permission:type:id\<close> or as an object (the same code in two providers).\<close>

definition normalizeCapabilityObject :: "json option \<Rightarrow> json option \<Rightarrow> json option \<Rightarrow> capability option" where
  "normalizeCapabilityObject vp vt vi =
     (case (cleanString vp, cleanString vt, cleanString vi) of
        (Some p, Some t, Some i) \<Rightarrow> Some (mk_cap p t i)
      | _ \<Rightarrow> None)"

definition normalizeCapabilityInput :: "json \<Rightarrow> capability option" where
  "normalizeCapabilityInput value =
     (case value of
        JStr s \<Rightarrow>
          (let parts = split_on (CHR '':'') s in
           case parts of
             p # t # o1 # os \<Rightarrow>
               normalizeCapabilityObject (Some (JStr p)) (Some (JStr t)) (Some (JStr (join '':'' (o1 # os))))
           | _ \<Rightarrow> None)
      | JObj kvs \<Rightarrow>
          normalizeCapabilityObject (map_of kvs ''permission'') (map_of kvs ''objectType'') (map_of kvs ''objectId'')
      | _ \<Rightarrow> None)"

text \<open>The object the code stores for a capability without source.\<close>

definition capability_json :: "capability \<Rightarrow> json" where
  "capability_json c =
     JObj [(''permission'', JStr (cap_permission c)), (''objectType'', JStr (cap_objectType c)),
           (''objectId'', JStr (cap_objectId c))]"

section \<open>The defaults of an agent\<close>

definition AGENT_RUNTIME_PERMISSIONS_DEFAULTS_KEY :: string where
  "AGENT_RUNTIME_PERMISSIONS_DEFAULTS_KEY = ''runtimePermissions''"

definition AGENT_RUNTIME_PERMISSION_PROFILES :: "string list" where
  "AGENT_RUNTIME_PERMISSION_PROFILES = [''bootstrap'', ''full-access'']"

record runtime_permissions =
  rp_profile :: "string option"
  rp_capabilities :: "json list option"

definition normalizeAgentRuntimePermissionProfile :: "json option \<Rightarrow> string option" where
  "normalizeAgentRuntimePermissionProfile value =
     (case value of
        Some (JStr s) \<Rightarrow>
          (let normalized = to_lower (trim s) in
           if normalized = ''none'' \<or> normalized = ''clear'' \<or> normalized = ''off'' then Some ''none''
           else if normalized \<in> set AGENT_RUNTIME_PERMISSION_PROFILES then Some normalized else None)
      | _ \<Rightarrow> None)"

definition compactRuntimePermissionsConfig :: "runtime_permissions \<Rightarrow> (string \<times> json) list" where
  "compactRuntimePermissionsConfig config =
     (if truthy (rp_profile config) then [(''profile'', JStr (nullish (rp_profile config) []))] else [])
     @ (case rp_capabilities config of
          None \<Rightarrow> []
        | Some cs \<Rightarrow> if cs = [] then [] else [(''capabilities'', JArr cs)])"

definition buildAgentRuntimePermissionsDefaults ::
  "(string \<times> json) list option \<Rightarrow> runtime_permissions option \<Rightarrow> (string \<times> json) list option" where
  "buildAgentRuntimePermissionsDefaults defaults config =
     (let next = nullish defaults [];
          next' = (case config of
             Some c \<Rightarrow> obj_set AGENT_RUNTIME_PERMISSIONS_DEFAULTS_KEY (JObj (compactRuntimePermissionsConfig c)) next
           | None \<Rightarrow> obj_del AGENT_RUNTIME_PERMISSIONS_DEFAULTS_KEY next)
      in if next' = [] then None else Some next')"

definition normalizedCapabilities :: "json list \<Rightarrow> capability list" where
  "normalizedCapabilities values = concat (map (\<lambda>v. case normalizeCapabilityInput v of None \<Rightarrow> [] | Some c \<Rightarrow> [c]) values)"

definition normalizeAgentRuntimePermissionsConfig :: "json option \<Rightarrow> runtime_permissions option" where
  "normalizeAgentRuntimePermissionsConfig value =
     (case value of
        Some (JStr s) \<Rightarrow>
          (case normalizeAgentRuntimePermissionProfile value of
             Some p \<Rightarrow> if p \<noteq> ''none'' then Some \<lparr>rp_profile = Some p, rp_capabilities = None\<rparr> else None
           | None \<Rightarrow> None)
      | Some (JObj kvs) \<Rightarrow>
          (let profile = (case normalizeAgentRuntimePermissionProfile (map_of kvs ''profile'') of
                 Some p \<Rightarrow> if p \<noteq> ''none'' then Some p else None | None \<Rightarrow> None);
               capabilities = (case map_of kvs ''capabilities'' of
                 Some (JArr vs) \<Rightarrow>
                   (let cs = map capability_json (normalizedCapabilities vs)
                    in if cs = [] then None else Some cs)
               | _ \<Rightarrow> None)
           in if profile = None \<and> capabilities = None then None
              else Some \<lparr>rp_profile = profile, rp_capabilities = capabilities\<rparr>)
      | _ \<Rightarrow> None)"

definition getAgentRuntimePermissionsConfigFromDefaults ::
  "(string \<times> json) list option \<Rightarrow> runtime_permissions option" where
  "getAgentRuntimePermissionsConfigFromDefaults defaults =
     (case defaults of
        None \<Rightarrow> None
      | Some d \<Rightarrow> normalizeAgentRuntimePermissionsConfig (map_of d AGENT_RUNTIME_PERMISSIONS_DEFAULTS_KEY))"

definition readAgentRuntimePermissionsConfig :: "permission_db \<Rightarrow> string \<Rightarrow> runtime_permissions option" where
  "readAgentRuntimePermissionsConfig db agentId =
     (case db_agents db agentId of
        None \<Rightarrow> None
      | Some defaults \<Rightarrow> getAgentRuntimePermissionsConfigFromDefaults defaults)"

definition profileCapabilities :: "string option \<Rightarrow> string \<Rightarrow> capability list" where
  "profileCapabilities profile source =
     (if profile \<noteq> Some ''full-access'' then [] else [grant_from source ''admin'' ''system'' ''*''])"

definition explicitCapabilities :: "json list option \<Rightarrow> string \<Rightarrow> capability list" where
  "explicitCapabilities values source =
     map (\<lambda>c. c\<lparr>cap_source := Some source\<rparr>) (normalizedCapabilities (nullish values []))"

definition materializeAgentDefaultCapabilities ::
  "permission_db \<Rightarrow> string \<Rightarrow> string option \<Rightarrow> capability list" where
  "materializeAgentDefaultCapabilities db agentId sourceOption =
     (case readAgentRuntimePermissionsConfig db agentId of
        None \<Rightarrow> []
      | Some config \<Rightarrow>
          (let source = nullish sourceOption (''agent-default-capabilities:agent:'' @ agentId)
           in dedupeCapabilities
                (profileCapabilities (rp_profile config) source
                 @ explicitCapabilities (rp_capabilities config) source)))"

definition materializeAgentDefaults ::
  "permission_db \<Rightarrow> perm_subject \<Rightarrow> capability_options option \<Rightarrow> capability list" where
  "materializeAgentDefaults db subject options =
     (if sub_type subject = ''agent'' then
        materializeAgentDefaultCapabilities db (sub_id subject)
          (Some (''agent-default-capabilities:agent:'' @ sub_id subject))
      else
        let executorAgentId = map_option trim (Option.bind options co_executorAgentId) in
        if sub_type subject = ''automation'' \<and> truthy executorAgentId then
          let ex = nullish executorAgentId [] in
          materializeAgentDefaultCapabilities db ex
            (Some (''agent-default-capabilities:automation:'' @ sub_id subject @ '':agent:'' @ ex))
        else [])"

definition agentDefaultCapabilitiesProvider :: "permission_db \<Rightarrow> perm_provider" where
  "agentDefaultCapabilitiesProvider db =
     \<lparr>pv_id = ''agent-default-capabilities'', pv_version = ''agent-defaults/v1'', pv_required = True,
      pv_supports = (\<lambda>_. False),
      pv_authorize = (\<lambda>rq. Inr (notApplicableDecision ''agent-default-capabilities'' ''agent-defaults/v1''
                                  ''agent_default_capabilities_materializer_only'' rq)),
      pv_materialize = Some (materializeAgentDefaults db)\<rparr>"

text \<open>\<open>dbUpdateAgent\<close> with the one field \<open>defaults\<close>, and the two operations on it.\<close>

definition setAgentDefaults :: "string \<Rightarrow> (string \<times> json) list option \<Rightarrow> permission_db \<Rightarrow> permission_db" where
  "setAgentDefaults agentId defaults db = db\<lparr>db_agents := (db_agents db)(agentId := Some defaults)\<rparr>"

definition existingCapabilities :: "runtime_permissions option \<Rightarrow> capability list" where
  "existingCapabilities current =
     map (\<lambda>c. mk_cap (cap_permission c) (cap_objectType c) (cap_objectId c))
       (explicitCapabilities (Option.bind current rp_capabilities) ''existing'')"

definition ensureAgentRuntimeCapability ::
  "string \<Rightarrow> string \<Rightarrow> string \<Rightarrow> string \<Rightarrow> permission_db \<Rightarrow> bool \<times> permission_db" where
  "ensureAgentRuntimeCapability agentId permission objectType objectId db =
     (case db_agents db agentId of
        None \<Rightarrow> (False, db)
      | Some defaults \<Rightarrow>
          (case normalizeCapabilityInput (capability_json (mk_cap permission objectType objectId)) of
             None \<Rightarrow> (False, db)
           | Some cap \<Rightarrow>
               (let current = getAgentRuntimePermissionsConfigFromDefaults defaults;
                    existing = existingCapabilities current
                in if canWithCapabilities existing (cap_permission cap) (cap_objectType cap) (cap_objectId cap)
                   then (False, db)
                   else (True, setAgentDefaults agentId
                     (buildAgentRuntimePermissionsDefaults defaults
                        (Some \<lparr>rp_profile = Option.bind current rp_profile,
                               rp_capabilities = Some (map capability_json (existing @ [cap]))\<rparr>)) db))))"

definition ensureAgentCanViewAgent :: "string option \<Rightarrow> string \<Rightarrow> permission_db \<Rightarrow> bool \<times> permission_db" where
  "ensureAgentCanViewAgent agentId targetAgentId db =
     (let owner = map_option trim agentId; target = trim targetAgentId in
      if \<not> truthy owner \<or> target = [] then (False, db)
      else ensureAgentRuntimeCapability (nullish owner []) ''view'' ''agent'' target db)"

definition ensureAgentCanViewAllAgents :: "string option \<Rightarrow> permission_db \<Rightarrow> bool \<times> permission_db" where
  "ensureAgentCanViewAllAgents agentId db =
     (let owner = map_option trim agentId in
      if \<not> truthy owner then (False, db)
      else ensureAgentRuntimeCapability (nullish owner []) ''view'' ''agent'' ''*'' db)"

section \<open>The identity of an agent in a compartment\<close>

definition AGENT_IDENTITY_SUBJECT_TYPE :: string where
  "AGENT_IDENTITY_SUBJECT_TYPE = ''agent_identity''"

definition AGENT_IDENTITY_AUTHORITY_RESOLVER :: string where
  "AGENT_IDENTITY_AUTHORITY_RESOLVER = ''agent-identity-v1''"

record identity_compartment =
  ic_type :: string
  ic_id :: string

definition isAgentIdentityCompartmentType :: "string option \<Rightarrow> bool" where
  "isAgentIdentityCompartmentType value \<longleftrightarrow>
     value = Some ''workspace'' \<or> value = Some ''chat'' \<or> value = Some ''dm'' \<or> value = Some ''automation''"

definition buildAgentIdentitySubjectId :: "string \<Rightarrow> identity_compartment \<Rightarrow> string" where
  "buildAgentIdentitySubjectId agentId compartment =
     agentId @ '':'' @ ic_type compartment @ '':'' @ ic_id compartment"

definition cleanText :: "string option \<Rightarrow> string option" where
  "cleanText v = cleanString (map_option JStr v)"

definition parseAgentIdentitySubjectId :: "string \<Rightarrow> (string \<times> identity_compartment) option" where
  "parseAgentIdentitySubjectId value =
     (let parts = split_on (CHR '':'') value in
      case parts of
        a # t # i # is \<Rightarrow>
          (let agentId = cleanText (Some a); compartmentType = cleanText (Some t);
               compartmentId = cleanText (Some (join '':'' (i # is)))
           in if agentId = None \<or> \<not> isAgentIdentityCompartmentType compartmentType \<or> compartmentId = None
              then None
              else Some (nullish agentId [],
                         \<lparr>ic_type = nullish compartmentType [], ic_id = nullish compartmentId []\<rparr>))
      | _ \<Rightarrow> None)"

text \<open>This copy of the de-duplication leaves the source out of the key.\<close>

definition dedupeIdentityCapabilities :: "capability list \<Rightarrow> capability list" where
  "dedupeIdentityCapabilities cs = dedup_by capabilityKey cs"

definition materializeExecutorAgentCapabilities :: "permission_db \<Rightarrow> string \<Rightarrow> capability list" where
  "materializeExecutorAgentCapabilities db agentId =
     dedupeIdentityCapabilities
       (materializeBootstrap \<lparr>sub_type = ''agent'', sub_id = agentId\<rparr>
        @ materializeAgentDefaultCapabilities db agentId None)"

definition resolveCompartment ::
  "perm_subject \<Rightarrow> identity_compartment option \<Rightarrow> capability_options option \<Rightarrow> identity_compartment" where
  "resolveCompartment subject parsed options =
     (let optionType = cleanText (Option.bind options co_compartmentType);
          optionId = cleanText (Option.bind options co_compartmentId)
      in if isAgentIdentityCompartmentType optionType \<and> optionId \<noteq> None
         then \<lparr>ic_type = nullish optionType [], ic_id = nullish optionId []\<rparr>
         else (case parsed of
                 Some c \<Rightarrow> c
               | None \<Rightarrow> \<lparr>ic_type = ''workspace'', ic_id = sub_id subject\<rparr>))"

definition materializeAgentIdentity ::
  "permission_db \<Rightarrow> perm_subject \<Rightarrow> capability_options option \<Rightarrow> capability list" where
  "materializeAgentIdentity db subject options =
     (if sub_type subject \<noteq> AGENT_IDENTITY_SUBJECT_TYPE then []
      else
        let parsed = parseAgentIdentitySubjectId (sub_id subject) in
        case orElse (cleanText (Option.bind options co_executorAgentId)) (map_option fst parsed) of
          None \<Rightarrow> []
        | Some executorAgentId \<Rightarrow>
            if parsed \<noteq> None \<and> map_option fst parsed \<noteq> Some executorAgentId then []
            else
              let executorCapabilities =
                    (case Option.bind options co_executorCapabilities of
                       Some (c # cs) \<Rightarrow> c # cs
                     | _ \<Rightarrow> materializeExecutorAgentCapabilities db executorAgentId);
                  compartment = resolveCompartment subject (map_option snd parsed) options;
                  sourcePrefix = ''agent-identity:'' @ executorAgentId @ '':'' @ ic_type compartment
                    @ '':'' @ ic_id compartment
              in dedupeIdentityCapabilities
                   (map (\<lambda>c. grant_from (sourcePrefix @ '':executor'')
                              (cap_permission c) (cap_objectType c) (cap_objectId c)) executorCapabilities))"

definition agentIdentityPermissionsProvider :: "permission_db \<Rightarrow> perm_provider" where
  "agentIdentityPermissionsProvider db =
     \<lparr>pv_id = ''agent-identity-permissions'', pv_version = ''agent-identity/v1'', pv_required = True,
      pv_supports = (\<lambda>_. False),
      pv_authorize = (\<lambda>rq. Inr (notApplicableDecision ''agent-identity-permissions'' ''agent-identity/v1''
                                  ''agent_identity_materializer_only'' rq)),
      pv_materialize = Some (materializeAgentIdentity db)\<rparr>"

section \<open>The policy of a contact\<close>

definition ADMIN_CONTACT_TAGS :: "string list" where
  "ADMIN_CONTACT_TAGS = [''permission-admin'', ''permission-owner'', ''permission-superadmin'']"

definition PERMISSION_TAG_PREFIX :: string where "PERMISSION_TAG_PREFIX = ''permission-''"
definition PERMISSION_TAG_SOURCE :: string where "PERMISSION_TAG_SOURCE = ''permissions''"

definition normalizeTag :: "string \<Rightarrow> string option" where
  "normalizeTag value =
     (let normalized = strip_edges (CHR ''-'') (squash is_lower_alnum (CHR ''-'') (to_lower (trim value)))
      in if normalized = [] then None else Some normalized)"

definition hasAdminTag :: "string list \<Rightarrow> bool" where
  "hasAdminTag tags = list_ex (\<lambda>tag. tag \<in> set tags) ADMIN_CONTACT_TAGS"

definition isPermissionTagDefinition :: "tag_definition \<Rightarrow> bool" where
  "isPermissionTagDefinition d \<longleftrightarrow> td_kind d = ''system'' \<and> td_source d = PERMISSION_TAG_SOURCE"

definition readPermissionTagCapabilities :: "tag_definition \<Rightarrow> capability list" where
  "readPermissionTagCapabilities d =
     (case td_metadata d of
        Some (JObj m) \<Rightarrow>
          (let permissions = (case map_of m ''permissions'' of Some (JObj p) \<Rightarrow> p | _ \<Rightarrow> m);
               values = (case map_of permissions ''capabilities'' of
                  Some (JArr vs) \<Rightarrow> vs
                | _ \<Rightarrow> (case map_of m ''permissionCapabilities'' of Some (JArr vs) \<Rightarrow> vs | _ \<Rightarrow> []))
           in normalizedCapabilities values)
      | _ \<Rightarrow> [])"

definition materializeConfiguredPermissionTagCapabilities ::
  "permission_db \<Rightarrow> string \<Rightarrow> string \<Rightarrow> capability list" where
  "materializeConfiguredPermissionTagCapabilities db contactId tag =
     (if \<not> prefix PERMISSION_TAG_PREFIX tag then []
      else case db_tags db tag of
             None \<Rightarrow> []
           | Some d \<Rightarrow>
               if \<not> isPermissionTagDefinition d then []
               else map (\<lambda>c. c\<lparr>cap_source := Some (''contact-policy:contact:'' @ contactId @ '':tag:'' @ td_slug d)\<rparr>)
                      (readPermissionTagCapabilities d))"

definition materializeContactPolicyCapabilities :: "permission_db \<Rightarrow> string \<Rightarrow> capability list" where
  "materializeContactPolicyCapabilities db contactId =
     (case db_contacts db contactId of
        None \<Rightarrow> []
      | Some policy \<Rightarrow>
          if cp_status policy \<noteq> ''allowed'' \<or> cp_optOut policy then []
          else
            let tags = dedup_by id (concat (map (\<lambda>t. case normalizeTag t of None \<Rightarrow> [] | Some n \<Rightarrow> [n]) (cp_tags policy)))
            in dedupeCapabilities
                 ((if hasAdminTag tags
                   then [grant_from (''contact-policy:contact:'' @ contactId @ '':admin-tag'') ''admin'' ''system'' ''*'']
                   else [])
                  @ concat (map (materializeConfiguredPermissionTagCapabilities db contactId) tags)))"

definition contactPolicyPermissionsProvider :: "permission_db \<Rightarrow> perm_provider" where
  "contactPolicyPermissionsProvider db =
     \<lparr>pv_id = ''contact-policy-permissions'', pv_version = ''contact-tags/v1'', pv_required = True,
      pv_supports = (\<lambda>_. False),
      pv_authorize = (\<lambda>rq. Inr (notApplicableDecision ''contact-policy-permissions'' ''contact-tags/v1''
                                  ''contact_policy_permissions_materializer_only'' rq)),
      pv_materialize = Some (\<lambda>subject _. if sub_type subject \<noteq> ''contact'' then []
                                          else materializeContactPolicyCapabilities db (sub_id subject))\<rparr>"

section \<open>Lemmas\<close>

lemma cleanText_Some [simp]: "cleanText (Some s) = (if trim s = [] then None else Some (trim s))"
  by (simp add: cleanText_def cleanString_def)

lemma dedupeCapabilities_subset: "set (dedupeCapabilities cs) \<subseteq> set cs"
  by (simp add: dedupeCapabilities_def dedup_by_subset)

lemma normalizeCapabilityInput_Some:
  "normalizeCapabilityInput v = Some c \<Longrightarrow>
     cap_permission c \<noteq> [] \<and> cap_objectType c \<noteq> [] \<and> cap_objectId c \<noteq> []
     \<and> trim (cap_permission c) = cap_permission c \<and> trim (cap_objectType c) = cap_objectType c
     \<and> trim (cap_objectId c) = cap_objectId c \<and> cap_source c = None"
  by (auto simp: normalizeCapabilityInput_def normalizeCapabilityObject_def Let_def dest!: cleanString_Some
      split: json.splits option.splits list.splits)

text \<open>What is stored for a normalized capability reads back as the same capability.\<close>

lemma normalizeCapabilityInput_json:
  assumes "normalizeCapabilityInput v = Some c"
  shows "normalizeCapabilityInput (capability_json c) = Some c"
  using normalizeCapabilityInput_Some [OF assms]
  by (cases c) (auto simp: normalizeCapabilityInput_def capability_json_def normalizeCapabilityObject_def cleanString_def)

lemma normalizedCapabilities_append [simp]:
  "normalizedCapabilities (vs @ ws) = normalizedCapabilities vs @ normalizedCapabilities ws"
  by (simp add: normalizedCapabilities_def)

lemma normalizedCapabilities_elem:
  "c \<in> set (normalizedCapabilities vs) \<Longrightarrow> \<exists>v \<in> set vs. normalizeCapabilityInput v = Some c"
  by (auto simp: normalizedCapabilities_def split: option.splits)

lemma normalizedCapabilities_json:
  "(\<And>c. c \<in> set cs \<Longrightarrow> normalizeCapabilityInput (capability_json c) = Some c) \<Longrightarrow>
     normalizedCapabilities (map capability_json cs) = cs"
  by (induction cs) (simp_all add: normalizedCapabilities_def)

lemma normalizedCapabilities_idem:
  "normalizedCapabilities (map capability_json (normalizedCapabilities vs)) = normalizedCapabilities vs"
  by (rule normalizedCapabilities_json) (auto dest!: normalizedCapabilities_elem intro: normalizeCapabilityInput_json)

section \<open>Properties of the providers\<close>

lemma canWithCapabilities_Cons:
  "canWithCapabilities (c # cs) p t i \<longleftrightarrow> capCovers c p t i \<or> canWithCapabilities cs p t i"
  by (simp add: canWithCapabilities_iff)

lemma execute_covers_map:
  assumes "\<forall>g \<in> set xs. CHR ''*'' \<notin> set g"
  shows "canWithCapabilities (map (grant_from src ''execute'' k) xs) ''execute'' t i \<longleftrightarrow> t = k \<and> i \<in> set xs"
proof -
  have "objectIdMatches g i \<longleftrightarrow> g = i" if "g \<in> set xs" for g using that assms by (simp add: objectIdMatches_concrete)
  then show ?thesis by (auto simp: canWithCapabilities_iff capCovers_def isAdminCap_def)
qed

lemma bootstrap_covers:
  "canWithCapabilities (bootstrapCapabilitiesFor s) ''execute'' t i \<longleftrightarrow>
     t = ''group'' \<and> i \<in> set BASELINE_COMMAND_GROUPS \<or> t = ''executable'' \<and> i \<in> set SAFE_EXECUTABLES"
proof -
  have "\<forall>g \<in> set BASELINE_COMMAND_GROUPS. CHR ''*'' \<notin> set g" "\<forall>g \<in> set SAFE_EXECUTABLES. CHR ''*'' \<notin> set g"
    by (simp_all add: BASELINE_COMMAND_GROUPS_def SAFE_EXECUTABLES_def)
  then show ?thesis
    by (simp add: bootstrapCapabilitiesFor_def Let_def canWithCapabilities_Cons execute_covers_map)
      (simp add: capCovers_def isAdminCap_def)
qed

text \<open>the bootstrap grants are least-privilege: they let a subject execute exactly the baseline command
  groups and the safe executables, only when the subject is a trusted one, and they never grant
  administration of the system.\<close>

theorem bootstrap_least_privilege:
  "(canWithCapabilities (materializeBootstrap s) ''execute'' ''group'' g
      \<longleftrightarrow> isTrustedBootstrapSubject (sub_type s) (sub_id s) \<and> g \<in> set BASELINE_COMMAND_GROUPS)
   \<and> (canWithCapabilities (materializeBootstrap s) ''execute'' ''executable'' x
      \<longleftrightarrow> isTrustedBootstrapSubject (sub_type s) (sub_id s) \<and> x \<in> set SAFE_EXECUTABLES)
   \<and> \<not> canWithCapabilities (materializeBootstrap s) ''admin'' ''system'' ''*''"
proof -
  have "\<not> canWithCapabilities (bootstrapCapabilitiesFor t) ''admin'' ''system'' ''*''" for t
    by (auto simp: canWithCapabilities_iff capCovers_def isAdminCap_def bootstrapCapabilitiesFor_def Let_def)
  then show ?thesis by (simp add: materializeBootstrap_def bootstrap_covers)
qed

lemma dedupeIdentity_eq: "dedupeIdentityCapabilities = dedupeContextCapabilities"
  by (rule ext) (simp add: dedupeIdentityCapabilities_def dedupeContextCapabilities_def)

lemma identity_grants_executor:
  assumes "c \<in> set (materializeAgentIdentity db s opts)" "Option.bind opts co_executorCapabilities = Some (e # es)"
  shows "\<exists>d \<in> set (e # es). same_grant c d"
proof -
  from assms obtain src where "c \<in> set (dedupeIdentityCapabilities
      (map (\<lambda>c. grant_from src (cap_permission c) (cap_objectType c) (cap_objectId c)) (e # es)))"
    by (auto simp: materializeAgentIdentity_def Let_def split: if_splits option.splits)
  then have "c \<in> set (map (\<lambda>c. grant_from src (cap_permission c) (cap_objectType c) (cap_objectId c)) (e # es))"
    using dedupe_subset unfolding dedupeIdentity_eq by blast
  then show ?thesis by auto
qed

lemma identity_of_executor:
  assumes "materializeAgentIdentity db s opts \<noteq> []"
  shows "sub_type s = AGENT_IDENTITY_SUBJECT_TYPE
     \<and> (\<forall>a c. parseAgentIdentitySubjectId (sub_id s) = Some (a, c)
          \<longrightarrow> orElse (cleanText (Option.bind opts co_executorAgentId)) (Some a) = Some a)"
  using assms by (auto simp: materializeAgentIdentity_def Let_def split: if_splits option.splits)

text \<open>the subject id of an agent identity reads back as the agent and the compartment it was built
  from, a compartment id that contains colons included.\<close>

theorem identity_roundtrip:
  assumes "a \<noteq> []" "trim a = a" "CHR '':'' \<notin> set a"
    "isAgentIdentityCompartmentType (Some (ic_type c))" "ic_id c \<noteq> []" "trim (ic_id c) = ic_id c"
  shows "parseAgentIdentitySubjectId (buildAgentIdentitySubjectId a c) = Some (a, c)"
proof -
  have t: "CHR '':'' \<notin> set (ic_type c)" "ic_type c \<noteq> []" "trim (ic_type c) = ic_type c"
    using assms(4) by (auto simp: isAgentIdentityCompartmentType_def js_simps)
  have "split_on (CHR '':'') (buildAgentIdentitySubjectId a c)
      = a # ic_type c # split_on (CHR '':'') (ic_id c)"
    using assms(3) t(1) by (simp add: buildAgentIdentitySubjectId_def split_on_append)
  moreover obtain i os where "split_on (CHR '':'') (ic_id c) = i # os"
    using split_on_ne [of "CHR '':''" "ic_id c"] by (cases "split_on (CHR '':'') (ic_id c)") auto
  moreover from this have "join '':'' (i # os) = ic_id c" by (metis join_split_on)
  ultimately show ?thesis using assms t by (simp add: parseAgentIdentitySubjectId_def)
qed

theorem identity_roundtrip_witness:
  "parseAgentIdentitySubjectId (buildAgentIdentitySubjectId ''main'' \<lparr>ic_type = ''chat'', ic_id = ''whatsapp:group:1''\<rparr>)
     = Some (''main'', \<lparr>ic_type = ''chat'', ic_id = ''whatsapp:group:1''\<rparr>)"
  by (rule identity_roundtrip) (simp_all add: isAgentIdentityCompartmentType_def js_simps)

text \<open>a contact gets capabilities only from an allowed policy that has not opted out, and each one is
  the administration grant of an admin tag or a capability listed by a permission tag definition.\<close>

theorem contact_capabilities_from_policy:
  assumes "c \<in> set (materializeContactPolicyCapabilities db contactId)"
  shows "\<exists>p. db_contacts db contactId = Some p \<and> cp_status p = ''allowed'' \<and> \<not> cp_optOut p
     \<and> (same_grant c (mk_cap ''admin'' ''system'' ''*'')
          \<and> (\<exists>t \<in> set (cp_tags p). normalizeTag t \<in> Some ` set ADMIN_CONTACT_TAGS)
        \<or> (\<exists>t \<in> set (cp_tags p). \<exists>tag d. normalizeTag t = Some tag \<and> prefix PERMISSION_TAG_PREFIX tag
             \<and> db_tags db tag = Some d \<and> isPermissionTagDefinition d
             \<and> (\<exists>e \<in> set (readPermissionTagCapabilities d). same_grant c e)))"
proof -
  have "db_contacts db contactId \<noteq> None"
    using assms by (cases "db_contacts db contactId") (simp_all add: materializeContactPolicyCapabilities_def)
  then obtain p where p: "db_contacts db contactId = Some p" by blast
  moreover from this have "cp_status p = ''allowed''" "\<not> cp_optOut p"
    using assms by (auto simp: materializeContactPolicyCapabilities_def split: if_splits)
  ultimately have p: "db_contacts db contactId = Some p" "cp_status p = ''allowed''" "\<not> cp_optOut p" by auto
  define ts where
    "ts = dedup_by id (concat (map (\<lambda>t. case normalizeTag t of None \<Rightarrow> [] | Some n \<Rightarrow> [n]) (cp_tags p)))"
  have ts: "tag \<in> set ts \<Longrightarrow> \<exists>t \<in> set (cp_tags p). normalizeTag t = Some tag" for tag
    using dedup_by_subset [of id] unfolding ts_def by (fastforce split: option.splits)
  define adm where "adm = (if hasAdminTag ts
      then [grant_from (''contact-policy:contact:'' @ contactId @ '':admin-tag'') ''admin'' ''system'' ''*''] else [])"
  have "c \<in> set (dedupeCapabilities
      (adm @ concat (map (materializeConfiguredPermissionTagCapabilities db contactId) ts)))"
    using assms p unfolding materializeContactPolicyCapabilities_def adm_def ts_def by (simp add: Let_def)
  then have "c \<in> set (adm @ concat (map (materializeConfiguredPermissionTagCapabilities db contactId) ts))"
    by (rule subsetD [OF dedupeCapabilities_subset])
  then consider (adm) "c \<in> set adm"
    | (tag) tag where "tag \<in> set ts" "c \<in> set (materializeConfiguredPermissionTagCapabilities db contactId tag)"
    by auto
  then show ?thesis
  proof cases
    case adm
    then have "hasAdminTag ts" and g: "same_grant c (mk_cap ''admin'' ''system'' ''*'')"
      by (simp_all add: adm_def split: if_splits)
    then obtain tag where tag: "tag \<in> set ADMIN_CONTACT_TAGS" "tag \<in> set ts"
      by (auto simp: hasAdminTag_def list_ex_iff)
    obtain t where "t \<in> set (cp_tags p)" "normalizeTag t = Some tag" using ts [OF tag(2)] by blast
    then have "\<exists>t \<in> set (cp_tags p). normalizeTag t \<in> Some ` set ADMIN_CONTACT_TAGS" using tag(1) by auto
    with p g show ?thesis by (intro exI [of _ p] conjI disjI1) simp_all
  next
    case tag
    then obtain d e where d: "prefix PERMISSION_TAG_PREFIX tag" "db_tags db tag = Some d"
      "isPermissionTagDefinition d" "e \<in> set (readPermissionTagCapabilities d)" "same_grant c e"
      by (auto simp: materializeConfiguredPermissionTagCapabilities_def split: option.splits if_splits)
    obtain t where t: "t \<in> set (cp_tags p)" "normalizeTag t = Some tag" using ts [OF tag(1)] by blast
    show ?thesis
      by (intro exI [of _ p] conjI disjI2 bexI [OF _ t(1)] exI [of _ tag] exI [of _ d] bexI [OF _ d(4)])
        (use p t d in simp_all)
  qed
qed

definition sample_permission_db :: permission_db where
  "sample_permission_db =
     \<lparr>db_agents = (\<lambda>a. if a = ''main'' then Some None else None),
      db_contacts = (\<lambda>c. if c = ''c1''
         then Some \<lparr>cp_status = ''allowed'', cp_optOut = False, cp_tags = ['' Permission Ops '']\<rparr> else None),
      db_tags = (\<lambda>t. if t = ''permission-ops''
         then Some \<lparr>td_slug = ''permission-ops'', td_kind = ''system'', td_source = ''permissions'',
                    td_metadata = Some (JObj [(''capabilities'', JArr [JStr ''execute:group:tasks''])])\<rparr> else None)\<rparr>"

theorem contact_capabilities_from_policy_witness:
  "\<exists>c p. c \<in> set (materializeContactPolicyCapabilities sample_permission_db ''c1'')
     \<and> db_contacts sample_permission_db ''c1'' = Some p \<and> cp_status p = ''allowed''"
proof -
  let ?c = "grant_from ''contact-policy:contact:c1:tag:permission-ops'' ''execute'' ''group'' ''tasks''"
  have "?c \<in> set (materializeContactPolicyCapabilities sample_permission_db ''c1'')" by code_simp
  from this contact_capabilities_from_policy [OF this] show ?thesis by blast
qed

section \<open>Granting a capability to an agent\<close>

lemma existingCapabilities_eq:
  "existingCapabilities current = normalizedCapabilities (nullish (Option.bind current rp_capabilities) [])"
proof -
  have "mk_cap (cap_permission c) (cap_objectType c) (cap_objectId c) = c" if "cap_source c = None" for c
    using that by (cases c) simp
  then have "map (\<lambda>c. mk_cap (cap_permission c) (cap_objectType c) (cap_objectId c)) cs = cs"
    if "\<forall>c \<in> set cs. cap_source c = None" for cs
    using that by (induction cs) simp_all
  moreover have "\<forall>c \<in> set (normalizedCapabilities vs). cap_source c = None" for vs
    by (auto dest!: normalizedCapabilities_elem dest: normalizeCapabilityInput_Some)
  ultimately show ?thesis by (simp add: existingCapabilities_def explicitCapabilities_def comp_def)
qed

text \<open>What the code stores for a normalized configuration is the configuration it reads.\<close>

definition wf_runtime_permissions :: "runtime_permissions \<Rightarrow> bool" where
  "wf_runtime_permissions c \<longleftrightarrow>
     (case rp_profile c of None \<Rightarrow> True | Some p \<Rightarrow> p \<in> set AGENT_RUNTIME_PERMISSION_PROFILES)
     \<and> (case rp_capabilities c of None \<Rightarrow> True
        | Some vs \<Rightarrow> vs \<noteq> [] \<and> map capability_json (normalizedCapabilities vs) = vs)
     \<and> (rp_profile c \<noteq> None \<or> rp_capabilities c \<noteq> None)"

lemma profile_normal:
  "p \<in> set AGENT_RUNTIME_PERMISSION_PROFILES \<Longrightarrow>
     normalizeAgentRuntimePermissionProfile (Some (JStr p)) = Some p \<and> p \<noteq> [] \<and> p \<noteq> ''none''"
  by (auto simp: AGENT_RUNTIME_PERMISSION_PROFILES_def normalizeAgentRuntimePermissionProfile_def js_simps)

lemma config_roundtrip:
  assumes "wf_runtime_permissions c"
  shows "getAgentRuntimePermissionsConfigFromDefaults (buildAgentRuntimePermissionsDefaults d (Some c)) = Some c"
proof -
  have "getAgentRuntimePermissionsConfigFromDefaults (buildAgentRuntimePermissionsDefaults d (Some c))
      = normalizeAgentRuntimePermissionsConfig (Some (JObj (compactRuntimePermissionsConfig c)))"
    by (simp add: getAgentRuntimePermissionsConfigFromDefaults_def buildAgentRuntimePermissionsDefaults_def Let_def)
  also have "\<dots> = Some c"
    using assms profile_normal [of "the (rp_profile c)"]
    by (cases c; cases "rp_profile c"; cases "rp_capabilities c")
      (auto simp: normalizeAgentRuntimePermissionsConfig_def compactRuntimePermissionsConfig_def
        wf_runtime_permissions_def normalizeAgentRuntimePermissionProfile_def)
  finally show ?thesis .
qed

text \<open>writing a normalized permission configuration into the defaults of an agent and reading it back
  gives the same configuration, and every other default is untouched.\<close>

theorem agent_permissions_roundtrip:
  assumes "wf_runtime_permissions c"
  shows "getAgentRuntimePermissionsConfigFromDefaults (buildAgentRuntimePermissionsDefaults d (Some c)) = Some c
     \<and> (k \<noteq> AGENT_RUNTIME_PERMISSIONS_DEFAULTS_KEY
        \<longrightarrow> map_of (nullish (buildAgentRuntimePermissionsDefaults d (Some c)) []) k = map_of (nullish d []) k)"
proof
  show "k \<noteq> AGENT_RUNTIME_PERMISSIONS_DEFAULTS_KEY
      \<longrightarrow> map_of (nullish (buildAgentRuntimePermissionsDefaults d (Some c)) []) k = map_of (nullish d []) k"
    by (simp add: buildAgentRuntimePermissionsDefaults_def Let_def)
qed (rule config_roundtrip [OF assms])

theorem agent_permissions_roundtrip_witness:
  "getAgentRuntimePermissionsConfigFromDefaults
     (buildAgentRuntimePermissionsDefaults (Some [(''theme'', JStr ''dark'')])
        (Some \<lparr>rp_profile = Some ''full-access'',
               rp_capabilities = Some [capability_json (mk_cap ''view'' ''agent'' ''*'')]\<rparr>))
     = Some \<lparr>rp_profile = Some ''full-access'',
             rp_capabilities = Some [capability_json (mk_cap ''view'' ''agent'' ''*'')]\<rparr>"
  by (rule agent_permissions_roundtrip [THEN conjunct1]) code_simp

lemma normalizedConfig_wf:
  "normalizeAgentRuntimePermissionsConfig v = Some c \<Longrightarrow> wf_runtime_permissions c"
  by (auto simp: normalizeAgentRuntimePermissionsConfig_def normalizeAgentRuntimePermissionProfile_def
      wf_runtime_permissions_def Let_def normalizedCapabilities_idem
      split: option.splits json.splits if_splits)

lemma ensure_changed:
  assumes "db_agents db a = Some defaults" "normalizeCapabilityInput (capability_json (mk_cap p t i)) = Some cap"
    and "\<not> canWithCapabilities (existingCapabilities (getAgentRuntimePermissionsConfigFromDefaults defaults))
           (cap_permission cap) (cap_objectType cap) (cap_objectId cap)"
    and "ensureAgentRuntimeCapability a p t i db = (changed, db')"
  shows "existingCapabilities (readAgentRuntimePermissionsConfig db' a)
       = existingCapabilities (getAgentRuntimePermissionsConfigFromDefaults defaults) @ [cap]"
proof -
  let ?cur = "getAgentRuntimePermissionsConfigFromDefaults defaults"
  let ?caps = "existingCapabilities ?cur @ [cap]"
  let ?next = "\<lparr>rp_profile = Option.bind ?cur rp_profile, rp_capabilities = Some (map capability_json ?caps)\<rparr>"
  have db': "db' = setAgentDefaults a (buildAgentRuntimePermissionsDefaults defaults (Some ?next)) db"
    using assms by (simp add: ensureAgentRuntimeCapability_def Let_def)
  have norm: "normalizedCapabilities (map capability_json ?caps) = ?caps"
  proof (rule normalizedCapabilities_json)
    fix c assume "c \<in> set ?caps"
    then show "normalizeCapabilityInput (capability_json c) = Some c"
      using assms(2) by (auto simp: existingCapabilities_eq dest!: normalizedCapabilities_elem intro: normalizeCapabilityInput_json)
  qed
  have "?cur = None \<or> (\<exists>c. ?cur = Some c \<and> wf_runtime_permissions c)"
    by (cases ?cur) (auto simp: getAgentRuntimePermissionsConfigFromDefaults_def dest: normalizedConfig_wf
        split: option.splits)
  then have "wf_runtime_permissions ?next"
    using norm by (auto simp: wf_runtime_permissions_def simp del: normalizedCapabilities_append map_append)
  then have "readAgentRuntimePermissionsConfig db' a = Some ?next"
    by (simp add: readAgentRuntimePermissionsConfig_def db' setAgentDefaults_def config_roundtrip)
  then show ?thesis using norm by (simp add: existingCapabilities_eq [of "Some ?next"] del: map_append)
qed

lemma ensure_frame:
  "ensureAgentRuntimeCapability a p t i db = (changed, db') \<Longrightarrow> b \<noteq> a \<Longrightarrow> db_agents db' b = db_agents db b"
  by (auto simp: ensureAgentRuntimeCapability_def setAgentDefaults_def Let_def split: option.splits if_splits)

lemma ensure_agent_exists:
  "ensureAgentRuntimeCapability a p t i db = (changed, db') \<Longrightarrow> db_agents db a = Some d \<Longrightarrow> \<exists>d'. db_agents db' a = Some d'"
  by (auto simp: ensureAgentRuntimeCapability_def setAgentDefaults_def Let_def split: option.splits if_splits)

text \<open>ensuring a capability of an existing agent leaves its stored capabilities allowing it, keeps every
  capability the agent had, leaves every other agent alone, and doing it again changes nothing.\<close>

theorem ensure_capability_granted:
  assumes "db_agents db a = Some defaults"
    and "normalizeCapabilityInput (capability_json (mk_cap p t i)) = Some cap"
    and "ensureAgentRuntimeCapability a p t i db = (changed, db')"
  shows "canWithCapabilities (existingCapabilities (readAgentRuntimePermissionsConfig db' a))
           (cap_permission cap) (cap_objectType cap) (cap_objectId cap)
     \<and> set (existingCapabilities (readAgentRuntimePermissionsConfig db a))
         \<subseteq> set (existingCapabilities (readAgentRuntimePermissionsConfig db' a))
     \<and> (\<forall>b. b = a \<or> db_agents db' b = db_agents db b)
     \<and> ensureAgentRuntimeCapability a p t i db' = (False, db')"
proof -
  let ?old = "existingCapabilities (getAgentRuntimePermissionsConfigFromDefaults defaults)"
  let ?new = "existingCapabilities (readAgentRuntimePermissionsConfig db' a)"
  have old: "existingCapabilities (readAgentRuntimePermissionsConfig db a) = ?old"
    using assms(1) by (simp add: readAgentRuntimePermissionsConfig_def)
  have new: "canWithCapabilities ?new (cap_permission cap) (cap_objectType cap) (cap_objectId cap) \<and> set ?old \<subseteq> set ?new"
  proof (cases "canWithCapabilities ?old (cap_permission cap) (cap_objectType cap) (cap_objectId cap)")
    case True
    then have "db' = db" using assms by (simp add: ensureAgentRuntimeCapability_def)
    with True old show ?thesis by simp
  next
    case False
    then have "?new = ?old @ [cap]" by (rule ensure_changed [OF assms(1,2) _ assms(3)])
    then show ?thesis by (auto simp: capCovers_def)
  qed
  obtain d' where d': "db_agents db' a = Some d'" using ensure_agent_exists [OF assms(3,1)] by blast
  have "ensureAgentRuntimeCapability a p t i db' = (False, db')"
    using new assms(2) d' by (simp add: ensureAgentRuntimeCapability_def readAgentRuntimePermissionsConfig_def)
  with new old ensure_frame [OF assms(3)] show ?thesis by auto
qed

theorem ensure_capability_granted_witness:
  "canWithCapabilities (existingCapabilities (readAgentRuntimePermissionsConfig
       (snd (ensureAgentRuntimeCapability ''main'' ''view'' ''agent'' ''dev'' sample_permission_db)) ''main''))
     ''view'' ''agent'' ''dev''"
proof -
  have 1: "db_agents sample_permission_db ''main'' = Some None" by (simp add: sample_permission_db_def)
  have 2: "normalizeCapabilityInput (capability_json (mk_cap ''view'' ''agent'' ''dev'')) = Some (mk_cap ''view'' ''agent'' ''dev'')"
    by code_simp
  show ?thesis using ensure_capability_granted [OF 1 2 surjective_pairing] by simp
qed

end
