(* ===== verification/PermissionRuntime.thy ===== *)
theory PermissionRuntime
  imports Providers
begin

text \<open>
  The permission provider runtime (\<open>src/src/permissions/provider-runtime.ts\<close>), its two
  deciding providers (\<open>operator-control-provider.ts\<close>, \<open>context-capabilities-provider.ts\<close>) and
  the default chains (\<open>provider-registry.ts\<close>). The clock and the random request id are
  arguments: \<open>el\<close> is the elapsed time the decision reports, \<open>uuid\<close> the fresh request id.
  The contract of a provider is the locale \<open>permission_provider\<close>, that of a provider that
  only materializes the locale \<open>materializer\<close>; both are interpreted on the real ones.
\<close>

section \<open>The deciding providers\<close>

definition contextIdFrom :: "capability_context option \<Rightarrow> string option" where
  "contextIdFrom context =
     (case context of
        None \<Rightarrow> None
      | Some c \<Rightarrow> (case cc_contextId c of None \<Rightarrow> None | Some s \<Rightarrow> if s = [] then None else Some s))"

definition OPERATOR_CONTROL_PROVIDER_ID :: string where
  "OPERATOR_CONTROL_PROVIDER_ID = ''operator-control''"

definition operatorControlProvider :: perm_provider where
  "operatorControlProvider =
     \<lparr>pv_id = OPERATOR_CONTROL_PROVIDER_ID, pv_version = ''operator-control/local-v1'', pv_required = True,
      pv_supports = (\<lambda>rq. rq_localOperator rq = Some True \<and> rq_context rq = None \<and> rq_subject rq = None
                          \<and> rq_capabilities rq = None),
      pv_authorize = (\<lambda>rq. Inr
        \<lparr>pd_decision = Allow, pd_allowed = True, pd_providerId = OPERATOR_CONTROL_PROVIDER_ID,
         pd_providerVersion = ''operator-control/local-v1'',
         pd_reasonCode = ''operator_control_local_allow'', pd_permission = rq_permission rq,
         pd_objectType = rq_objectType rq, pd_objectId = rq_objectId rq, pd_requestId = None,
         pd_durationMs = None, pd_subject = None, pd_contextId = None,
         pd_evidence = Some [JObj [(''kind'', JStr ''operator-control''), (''mode'', JStr ''local'')]]\<rparr>),
      pv_materialize = None\<rparr>"

definition requestCapabilities :: "perm_request \<Rightarrow> capability list" where
  "requestCapabilities rq = nullish (orElse (map_option cc_capabilities (rq_context rq)) (rq_capabilities rq)) []"

definition requiresExactResource :: "perm_request \<Rightarrow> bool" where
  "requiresExactResource rq =
     (case rq_operation rq of
        None \<Rightarrow> False
      | Some operation \<Rightarrow> ca_requireConcreteResource (op_access operation) = Some True)"

definition authorizeContextCapabilities :: "perm_request \<Rightarrow> perm_decision" where
  "authorizeContextCapabilities rq =
     (let capabilities = requestCapabilities rq;
          allowed =
            (if requiresExactResource rq
             then list_ex (\<lambda>c. cap_permission c = rq_permission rq \<and> cap_objectType c = rq_objectType rq
                               \<and> cap_objectId c = rq_objectId rq) capabilities
             else canWithCapabilities capabilities (rq_permission rq) (rq_objectType rq) (rq_objectId rq))
      in \<lparr>pd_decision = (if allowed then Allow else Deny), pd_allowed = allowed,
          pd_providerId = ''context-capabilities'', pd_providerVersion = ''snapshot/v1'',
          pd_reasonCode =
            (if allowed
             then (if requiresExactResource rq then ''context_capabilities_exact_resource_allow''
                   else ''context_capabilities_allow'')
             else (if requiresExactResource rq then ''context_capabilities_exact_resource_deny''
                   else ''context_capabilities_deny'')),
          pd_permission = rq_permission rq, pd_objectType = rq_objectType rq, pd_objectId = rq_objectId rq,
          pd_requestId = None, pd_durationMs = None, pd_subject = rq_subject rq,
          pd_contextId = contextIdFrom (rq_context rq), pd_evidence = None\<rparr>)"

definition contextCapabilitiesProvider :: perm_provider where
  "contextCapabilitiesProvider =
     \<lparr>pv_id = ''context-capabilities'', pv_version = ''snapshot/v1'', pv_required = True,
      pv_supports = (\<lambda>rq. rq_context rq \<noteq> None \<or> rq_capabilities rq \<noteq> None),
      pv_authorize = (\<lambda>rq. Inr (authorizeContextCapabilities rq)),
      pv_materialize = None\<rparr>"

definition getConfiguredPermissionProviders :: "perm_provider list" where
  "getConfiguredPermissionProviders = [operatorControlProvider, contextCapabilitiesProvider]"

definition getConfiguredCapabilityMaterializers :: "permission_db \<Rightarrow> perm_provider list" where
  "getConfiguredCapabilityMaterializers db =
     [runtimeBootstrapProvider, agentDefaultCapabilitiesProvider db,
      agentIdentityPermissionsProvider db, contactPolicyPermissionsProvider db]"

section \<open>The chain\<close>

definition elapsedMs :: "int \<Rightarrow> int \<Rightarrow> int" where
  "elapsedMs now startedAt = max 0 (now - startedAt)"

definition denyDecision ::
  "perm_request \<Rightarrow> string \<Rightarrow> string \<Rightarrow> string \<Rightarrow> string option \<Rightarrow> int option \<Rightarrow> perm_decision" where
  "denyDecision rq providerId providerVersion reasonCode reason duration =
     \<lparr>pd_decision = Deny, pd_allowed = False, pd_providerId = providerId,
      pd_providerVersion = providerVersion, pd_reasonCode = reasonCode,
      pd_permission = rq_permission rq, pd_objectType = rq_objectType rq, pd_objectId = rq_objectId rq,
      pd_requestId = rq_requestId rq, pd_durationMs = duration, pd_subject = rq_subject rq,
      pd_contextId = contextIdFrom (rq_context rq),
      pd_evidence = (if truthy reason
                     then Some [JObj [(''kind'', JStr ''error''), (''message'', JStr (nullish reason []))]]
                     else None)\<rparr>"

definition normalizeDecision :: "perm_request \<Rightarrow> perm_decision \<Rightarrow> int \<Rightarrow> perm_decision" where
  "normalizeDecision rq d el =
     d\<lparr>pd_allowed := (pd_decision d = Allow),
       pd_permission := strOr (pd_permission d) (rq_permission rq),
       pd_objectType := strOr (pd_objectType d) (rq_objectType rq),
       pd_objectId := strOr (pd_objectId d) (rq_objectId rq),
       pd_requestId := orElse (pd_requestId d) (rq_requestId rq),
       pd_durationMs := Some el\<rparr>"

definition authorizeProvider :: "perm_provider \<Rightarrow> perm_request \<Rightarrow> perm_decision" where
  "authorizeProvider p rq =
     (case pv_authorize p rq of
        Inr d \<Rightarrow> d
      | Inl err \<Rightarrow> denyDecision rq (pv_id p) (pv_version p) ''provider_error'' (Some err) None)"

fun chainDecision :: "perm_request \<Rightarrow> int \<Rightarrow> perm_decision option \<Rightarrow> perm_provider list \<Rightarrow> perm_decision" where
  "chainDecision rq el allowDecision [] =
     (case allowDecision of
        Some d \<Rightarrow> d
      | None \<Rightarrow> denyDecision rq ''provider-runtime'' ''runtime'' ''no_provider_allowed'' None (Some el))"
| "chainDecision rq el allowDecision (p # ps) =
     (let decision = authorizeProvider p rq in
      if pd_decision decision = Deny \<or> pd_decision decision = NeedsApproval
      then normalizeDecision rq decision el
      else if pd_decision decision = Allow
      then chainDecision rq el (Some (normalizeDecision rq decision el)) ps
      else if pv_required p \<and> pd_decision decision = NotApplicable
      then denyDecision rq (pv_id p) (pv_version p) ''required_provider_not_applicable'' None (Some el)
      else chainDecision rq el allowDecision ps)"

definition evaluateProviderChain :: "perm_request \<Rightarrow> perm_provider list \<Rightarrow> int \<Rightarrow> perm_decision" where
  "evaluateProviderChain rq providers el =
     (let applicable = filter (\<lambda>p. pv_supports p rq) providers in
      if applicable = []
      then denyDecision rq ''provider-runtime'' ''runtime'' ''no_permission_provider_configured'' None (Some el)
      else chainDecision rq el None applicable)"

definition withRequestId :: "string \<Rightarrow> perm_request \<Rightarrow> perm_request" where
  "withRequestId uuid rq = (if truthy (rq_requestId rq) then rq else rq\<lparr>rq_requestId := Some uuid\<rparr>)"

definition authorizePermission ::
  "string \<Rightarrow> int \<Rightarrow> perm_provider list option \<Rightarrow> perm_request \<Rightarrow> perm_decision" where
  "authorizePermission uuid el providers rq =
     evaluateProviderChain (withRequestId uuid rq) (nullish providers getConfiguredPermissionProviders) el"

section \<open>The callers of the chain\<close>

text \<open>A request with the optional fields absent.\<close>

definition base_request :: "string \<Rightarrow> string \<Rightarrow> string \<Rightarrow> perm_request" where
  "base_request permission objectType objectId =
     \<lparr>rq_requestId = None, rq_localOperator = None, rq_subject = None, rq_context = None,
      rq_capabilities = None, rq_operation = None, rq_permission = permission,
      rq_objectType = objectType, rq_objectId = objectId\<rparr>"

definition allowedByDefault :: "perm_request \<Rightarrow> bool" where
  "allowedByDefault rq = pd_allowed (authorizePermission [] 0 None rq)"

definition can :: "string \<Rightarrow> string \<Rightarrow> string \<Rightarrow> string \<Rightarrow> string \<Rightarrow> bool" where
  "can subjectType subjectId permission objectType objectId =
     allowedByDefault ((base_request permission objectType objectId)
       \<lparr>rq_subject := Some \<lparr>sub_type = subjectType, sub_id = subjectId\<rparr>\<rparr>)"

text \<open>What \<open>getContext\<close> (\<open>src/src/cli/context.ts\<close>) returns, as far as authorization reads it.\<close>

record tool_context =
  tc_contextId :: "string option"
  tc_context :: "capability_context option"
  tc_sessionKey :: "string option"
  tc_sessionName :: "string option"
  tc_agentId :: "string option"

definition getScopedContext :: "tool_context option \<Rightarrow> string \<Rightarrow> capability_context option" where
  "getScopedContext tool agentId =
     (case tool of
        None \<Rightarrow> None
      | Some ctx \<Rightarrow>
          (case tc_context ctx of
             None \<Rightarrow> None
           | Some c \<Rightarrow> if truthy (tc_agentId ctx) \<and> tc_agentId ctx \<noteq> Some agentId then None else Some c))"

definition agentCan :: "tool_context option \<Rightarrow> string option \<Rightarrow> string \<Rightarrow> string \<Rightarrow> string \<Rightarrow> bool" where
  "agentCan tool agentId permission objectType objectId =
     (if \<not> truthy agentId then False
      else
        let aid = nullish agentId [] in
        case getScopedContext tool aid of
          Some scoped \<Rightarrow>
            allowedByDefault ((base_request permission objectType objectId)
              \<lparr>rq_context := Some (scoped\<lparr>cc_agentId := orElse (cc_agentId scoped) (Some aid)\<rparr>)\<rparr>)
        | None \<Rightarrow>
            allowedByDefault ((base_request permission objectType objectId)
              \<lparr>rq_subject := Some \<lparr>sub_type = ''agent'', sub_id = aid\<rparr>\<rparr>))"

definition localOperatorCan :: "string \<Rightarrow> string \<Rightarrow> string \<Rightarrow> bool" where
  "localOperatorCan permission objectType objectId =
     allowedByDefault ((base_request permission objectType objectId)\<lparr>rq_localOperator := Some True\<rparr>)"

definition canWithCapabilityContext :: "capability_context \<Rightarrow> string \<Rightarrow> string \<Rightarrow> string \<Rightarrow> bool" where
  "canWithCapabilityContext context permission objectType objectId =
     allowedByDefault ((base_request permission objectType objectId)\<lparr>rq_context := Some context\<rparr>)"

definition canWithCapabilities_runtime :: "capability list \<Rightarrow> string \<Rightarrow> string \<Rightarrow> string \<Rightarrow> bool" where
  "canWithCapabilities_runtime capabilities permission objectType objectId =
     allowedByDefault ((base_request permission objectType objectId)\<lparr>rq_capabilities := Some capabilities\<rparr>)"

definition isSuperadmin :: "string \<Rightarrow> string \<Rightarrow> bool" where
  "isSuperadmin subjectType subjectId = can subjectType subjectId ''admin'' ''system'' ''*''"

definition isAgentSuperadmin :: "string option \<Rightarrow> bool" where
  "isAgentSuperadmin agentId \<longleftrightarrow> truthy agentId \<and> isSuperadmin ''agent'' (nullish agentId [])"

definition providerCapabilities ::
  "perm_subject \<Rightarrow> capability_options \<Rightarrow> perm_provider \<Rightarrow> capability list" where
  "providerCapabilities subject options p =
     (case pv_materialize p of None \<Rightarrow> [] | Some m \<Rightarrow> m subject (Some options))"

definition materializeFromProviders ::
  "perm_subject \<Rightarrow> capability_options \<Rightarrow> perm_provider list \<Rightarrow> capability list" where
  "materializeFromProviders subject options providers =
     dedupeCapabilities (concat (map (providerCapabilities subject options) providers))"

definition materializeSubjectCapabilities ::
  "permission_db \<Rightarrow> string \<Rightarrow> string \<Rightarrow> capability_options \<Rightarrow> capability list" where
  "materializeSubjectCapabilities db subjectType subjectId options =
     materializeFromProviders \<lparr>sub_type = subjectType, sub_id = subjectId\<rparr> options
       (getConfiguredCapabilityMaterializers db)"

section \<open>The contract of a provider\<close>

text \<open>
  What the runtime relies on: a provider that supports a request returns a decision about
  that request, whose flag agrees with its value. A materializer supports nothing and
  declines what it is asked.
\<close>

locale permission_provider =
  fixes pv :: perm_provider
  assumes returns: "pv_supports pv rq \<Longrightarrow> \<exists>d. pv_authorize pv rq = Inr d"
    and flag: "pv_authorize pv rq = Inr d \<Longrightarrow> pd_allowed d \<longleftrightarrow> pd_decision d = Allow"
    and echoes: "pv_authorize pv rq = Inr d \<Longrightarrow>
      pd_permission d = rq_permission rq \<and> pd_objectType d = rq_objectType rq \<and> pd_objectId d = rq_objectId rq"
begin

lemma decision_eq: "pv_supports pv rq \<Longrightarrow> pv_authorize pv rq = Inr (authorizeProvider pv rq)"
  using returns [of rq] by (auto simp: authorizeProvider_def)

lemma decision_flag: "pd_allowed (authorizeProvider pv rq) \<longleftrightarrow> pd_decision (authorizeProvider pv rq) = Allow"
  using flag by (auto simp: authorizeProvider_def denyDecision_def split: sum.split)

lemma decision_echoes:
  "pd_permission (authorizeProvider pv rq) = rq_permission rq
   \<and> pd_objectType (authorizeProvider pv rq) = rq_objectType rq
   \<and> pd_objectId (authorizeProvider pv rq) = rq_objectId rq"
  using echoes by (auto simp: authorizeProvider_def denyDecision_def split: sum.split)

lemma normalize_decision:
  "normalizeDecision rq (authorizeProvider pv rq) el =
     (authorizeProvider pv rq)\<lparr>pd_requestId := orElse (pd_requestId (authorizeProvider pv rq)) (rq_requestId rq),
                               pd_durationMs := Some el\<rparr>"
  using decision_flag [of rq] decision_echoes [of rq]
  by (cases "authorizeProvider pv rq") (auto simp: normalizeDecision_def strOr_def)

end

locale materializer =
  fixes pv :: perm_provider
  assumes silent: "\<not> pv_supports pv rq"
    and declines: "\<exists>d. pv_authorize pv rq = Inr d \<and> pd_decision d = NotApplicable \<and> \<not> pd_allowed d
      \<and> pd_permission d = rq_permission rq \<and> pd_objectType d = rq_objectType rq \<and> pd_objectId d = rq_objectId rq"
begin

lemma chain_skips: "evaluateProviderChain rq (ps @ pv # qs) el = evaluateProviderChain rq (ps @ qs) el"
  by (simp add: evaluateProviderChain_def silent)

end

sublocale materializer \<subseteq> permission_provider
proof
  fix rq d
  show "pv_supports pv rq \<Longrightarrow> \<exists>d. pv_authorize pv rq = Inr d" by (simp add: silent)
  show "pv_authorize pv rq = Inr d \<Longrightarrow> pd_allowed d \<longleftrightarrow> pd_decision d = Allow" using declines [of rq] by auto
  show "pv_authorize pv rq = Inr d \<Longrightarrow>
      pd_permission d = rq_permission rq \<and> pd_objectType d = rq_objectType rq \<and> pd_objectId d = rq_objectId rq"
    using declines [of rq] by auto
qed

interpretation oper: permission_provider operatorControlProvider
  by unfold_locales (auto simp: operatorControlProvider_def)

interpretation ctxcap: permission_provider contextCapabilitiesProvider
  by unfold_locales (auto simp: contextCapabilitiesProvider_def authorizeContextCapabilities_def Let_def split: if_splits)

interpretation boot: materializer runtimeBootstrapProvider
  by unfold_locales (simp_all add: runtimeBootstrapProvider_def notApplicableDecision_def)

interpretation agdef: materializer "agentDefaultCapabilitiesProvider db"
  by unfold_locales (simp_all add: agentDefaultCapabilitiesProvider_def notApplicableDecision_def)

interpretation agid: materializer "agentIdentityPermissionsProvider db"
  by unfold_locales (simp_all add: agentIdentityPermissionsProvider_def notApplicableDecision_def)

interpretation cpol: materializer "contactPolicyPermissionsProvider db"
  by unfold_locales (simp_all add: contactPolicyPermissionsProvider_def notApplicableDecision_def)

section \<open>What the chain decides\<close>

definition verdict :: "perm_request \<Rightarrow> perm_provider \<Rightarrow> decision_value" where
  "verdict rq p = pd_decision (authorizeProvider p rq)"

text \<open>A provider lets the chain go on when it allows, or when it is optional and not applicable.\<close>

definition passes :: "perm_request \<Rightarrow> perm_provider \<Rightarrow> bool" where
  "passes rq p \<longleftrightarrow> verdict rq p = Allow \<or> \<not> pv_required p \<and> verdict rq p = NotApplicable"

lemma denyDecision_not_allowed [simp]: "\<not> pd_allowed (denyDecision rq i v c r n)"
  by (simp add: denyDecision_def)

lemma normalize_allowed [simp]: "pd_allowed (normalizeDecision rq d el) \<longleftrightarrow> pd_decision d = Allow"
  by (simp add: normalizeDecision_def)

lemma chainDecision_allowed:
  "(\<forall>d. a = Some d \<longrightarrow> pd_allowed d) \<Longrightarrow>
   pd_allowed (chainDecision rq el a ps) \<longleftrightarrow>
     (a \<noteq> None \<or> (\<exists>p \<in> set ps. verdict rq p = Allow)) \<and> (\<forall>p \<in> set ps. passes rq p)"
proof (induction rq el a ps rule: chainDecision.induct)
  case (1 rq el a)
  then show ?case by (auto split: option.split)
next
  case (2 rq el a p ps)
  show ?case
  proof (cases "verdict rq p")
    case Allow
    then show ?thesis using 2(1) [OF refl] by (simp add: verdict_def passes_def Let_def)
  next
    case NotApplicable
    then show ?thesis using 2(2) [OF refl] 2(3) by (auto simp: verdict_def passes_def Let_def)
  qed (auto simp: verdict_def passes_def Let_def)
qed

lemma evaluate_allowed:
  "pd_allowed (evaluateProviderChain rq ps el) \<longleftrightarrow>
     (\<exists>p \<in> set ps. pv_supports p rq \<and> verdict rq p = Allow)
     \<and> (\<forall>p \<in> set ps. pv_supports p rq \<longrightarrow> passes rq p)"
  by (auto simp: evaluateProviderChain_def Let_def chainDecision_allowed filter_empty_conv)

text \<open>C31: the chain allows a request exactly when some applicable provider allows it and every applicable
  provider lets it pass; a provider that throws, denies, asks for approval or, being required, does not
  apply, stops it, in whatever order the providers stand.\<close>

theorem chain_allows_iff:
  "pd_allowed (authorizePermission uuid el (Some ps) rq) \<longleftrightarrow>
     (\<exists>p \<in> set ps. pv_supports p (withRequestId uuid rq) \<and> verdict (withRequestId uuid rq) p = Allow)
     \<and> (\<forall>p \<in> set ps. pv_supports p (withRequestId uuid rq) \<longrightarrow> passes (withRequestId uuid rq) p)"
  by (simp add: authorizePermission_def evaluate_allowed)

theorem chain_allows_iff_witness:
  "\<not> pd_allowed (authorizePermission ''r1'' 5
       (Some [contextCapabilitiesProvider,
              contextCapabilitiesProvider\<lparr>pv_authorize := (\<lambda>_. Inl ''boom'')\<rparr>])
       ((base_request ''use'' ''tool'' ''Bash'')\<lparr>rq_capabilities := Some [mk_cap ''use'' ''tool'' ''*'']\<rparr>))"
  unfolding chain_allows_iff
  by (simp add: contextCapabilitiesProvider_def withRequestId_def base_request_def passes_def verdict_def
      authorizeProvider_def denyDecision_def)

section \<open>The default chain\<close>

lemma withRequestId_simps [simp]:
  "rq_localOperator (withRequestId u rq) = rq_localOperator rq" "rq_subject (withRequestId u rq) = rq_subject rq"
  "rq_context (withRequestId u rq) = rq_context rq" "rq_capabilities (withRequestId u rq) = rq_capabilities rq"
  "rq_operation (withRequestId u rq) = rq_operation rq" "rq_permission (withRequestId u rq) = rq_permission rq"
  "rq_objectType (withRequestId u rq) = rq_objectType rq" "rq_objectId (withRequestId u rq) = rq_objectId rq"
  by (simp_all add: withRequestId_def)

text \<open>What the snapshot of a request allows: a covering grant, or, for a concrete resource, the very grant.\<close>

definition snapshotAllows :: "perm_request \<Rightarrow> bool" where
  "snapshotAllows rq \<longleftrightarrow>
     (if requiresExactResource rq
      then \<exists>c \<in> set (requestCapabilities rq). same_grant c (mk_cap (rq_permission rq) (rq_objectType rq) (rq_objectId rq))
      else \<exists>c \<in> set (requestCapabilities rq). capCovers c (rq_permission rq) (rq_objectType rq) (rq_objectId rq))"

lemma verdict_operator [simp]: "verdict rq operatorControlProvider = Allow"
  by (simp add: verdict_def authorizeProvider_def operatorControlProvider_def)

lemma verdict_context: "verdict rq contextCapabilitiesProvider = (if snapshotAllows rq then Allow else Deny)"
  by (auto simp: verdict_def authorizeProvider_def contextCapabilitiesProvider_def authorizeContextCapabilities_def
      snapshotAllows_def Let_def list_ex_iff canWithCapabilities_iff)

lemma snapshotAllows_request_id [simp]: "snapshotAllows (withRequestId u rq) = snapshotAllows rq"
  by (simp add: snapshotAllows_def requestCapabilities_def requiresExactResource_def)

lemma default_allows:
  "pd_allowed (authorizePermission uuid el None rq) \<longleftrightarrow>
     (rq_localOperator rq = Some True \<and> rq_context rq = None \<and> rq_subject rq = None \<and> rq_capabilities rq = None)
     \<or> ((rq_context rq \<noteq> None \<or> rq_capabilities rq \<noteq> None) \<and> snapshotAllows rq)"
proof -
  have o: "pv_supports operatorControlProvider r \<longleftrightarrow>
      rq_localOperator r = Some True \<and> rq_context r = None \<and> rq_subject r = None \<and> rq_capabilities r = None" for r
    by (simp add: operatorControlProvider_def)
  have c: "pv_supports contextCapabilitiesProvider r \<longleftrightarrow> rq_context r \<noteq> None \<or> rq_capabilities r \<noteq> None" for r
    by (simp add: contextCapabilitiesProvider_def)
  show ?thesis
    by (auto simp: authorizePermission_def evaluate_allowed getConfiguredPermissionProviders_def o c
        verdict_context passes_def)
qed

text \<open>the default chain is fail-closed: it allows a request only for an explicit local operator with no
  subject, context or capabilities, or when the request carries a capability snapshot that allows it;
  where the operation demands a concrete resource, only the very grant counts, and a wildcard or the
  system administration grant does not.\<close>

theorem default_chain_fail_closed:
  "pd_allowed (authorizePermission uuid el None rq) \<longleftrightarrow>
     (rq_localOperator rq = Some True \<and> rq_context rq = None \<and> rq_subject rq = None \<and> rq_capabilities rq = None)
     \<or> (\<not> (rq_context rq = None \<and> rq_capabilities rq = None)
        \<and> (if requiresExactResource rq
           then \<exists>c \<in> set (requestCapabilities rq).
                  same_grant c (mk_cap (rq_permission rq) (rq_objectType rq) (rq_objectId rq))
           else \<exists>c \<in> set (requestCapabilities rq).
                  capCovers c (rq_permission rq) (rq_objectType rq) (rq_objectId rq)))"
  unfolding default_allows snapshotAllows_def by auto

lemma base_request_simps [simp]:
  "rq_localOperator (base_request p t i) = None" "rq_subject (base_request p t i) = None"
  "rq_context (base_request p t i) = None" "rq_capabilities (base_request p t i) = None"
  "rq_operation (base_request p t i) = None" "rq_permission (base_request p t i) = p"
  "rq_objectType (base_request p t i) = t" "rq_objectId (base_request p t i) = i"
  by (simp_all add: base_request_def)

lemma localOperatorCan [simp]: "localOperatorCan p t i"
  by (simp add: localOperatorCan_def allowedByDefault_def default_allows)

lemma canWithCapabilityContext_eq [simp]:
  "canWithCapabilityContext ctx p t i = canWithCapabilities (cc_capabilities ctx) p t i"
  by (simp add: canWithCapabilityContext_def allowedByDefault_def default_allows snapshotAllows_def
      requiresExactResource_def requestCapabilities_def canWithCapabilities_iff)

lemma canWithCapabilities_runtime_eq [simp]: "canWithCapabilities_runtime cs p t i = canWithCapabilities cs p t i"
  by (simp add: canWithCapabilities_runtime_def allowedByDefault_def default_allows snapshotAllows_def
      requiresExactResource_def requestCapabilities_def canWithCapabilities_iff)

lemma can_False [simp]: "\<not> can st si p t i"
  by (simp add: can_def allowedByDefault_def default_allows)

text \<open>an agent is allowed only through the capability snapshot of a context that is in scope for that
  very agent: without one every check fails, that of a superadmin included.\<close>

theorem agentCan_iff:
  "(agentCan tool agentId p t i \<longleftrightarrow>
      (\<exists>ctx c. truthy agentId \<and> tool = Some ctx \<and> tc_context ctx = Some c
         \<and> (truthy (tc_agentId ctx) \<longrightarrow> tc_agentId ctx = agentId)
         \<and> canWithCapabilities (cc_capabilities c) p t i))
   \<and> \<not> isAgentSuperadmin agentId"
proof
  have ctx: "allowedByDefault ((base_request p t i)\<lparr>rq_context := Some c\<rparr>)
      = canWithCapabilities (cc_capabilities c) p t i" for c
    by (rule canWithCapabilityContext_eq [unfolded canWithCapabilityContext_def])
  have sub: "\<not> allowedByDefault ((base_request p t i)\<lparr>rq_subject := Some \<lparr>sub_type = s, sub_id = a\<rparr>\<rparr>)" for s a
    by (rule can_False [unfolded can_def])
  show "agentCan tool agentId p t i \<longleftrightarrow>
      (\<exists>ctx c. truthy agentId \<and> tool = Some ctx \<and> tc_context ctx = Some c
         \<and> (truthy (tc_agentId ctx) \<longrightarrow> tc_agentId ctx = agentId)
         \<and> canWithCapabilities (cc_capabilities c) p t i)"
    by (cases agentId) (auto simp: agentCan_def getScopedContext_def Let_def ctx sub split: option.splits)
qed (simp add: isAgentSuperadmin_def isSuperadmin_def)

theorem agentCan_iff_witness:
  "agentCan (Some \<lparr>tc_contextId = None,
       tc_context = Some \<lparr>cc_contextId = Some ''ctx'', cc_agentId = None, cc_kind = None,
         cc_sessionKey = None, cc_sessionName = None,
         cc_capabilities = [mk_cap ''use'' ''tool'' ''*''], cc_metadata = None\<rparr>,
       tc_sessionKey = None, tc_sessionName = None, tc_agentId = Some ''main''\<rparr>)
     (Some ''main'') ''use'' ''tool'' ''Bash''"
  unfolding agentCan_iff [THEN conjunct1] by (simp add: capCovers_def objectIdMatches_star_grant)

section \<open>What the default materializers give\<close>

lemma materialize_boot: "providerCapabilities s opts runtimeBootstrapProvider = materializeBootstrap s"
  by (simp add: providerCapabilities_def runtimeBootstrapProvider_def)

lemma materialize_agdef: "providerCapabilities s opts (agentDefaultCapabilitiesProvider db) = materializeAgentDefaults db s (Some opts)"
  by (simp add: providerCapabilities_def agentDefaultCapabilitiesProvider_def)

lemma materialize_agid: "providerCapabilities s opts (agentIdentityPermissionsProvider db) = materializeAgentIdentity db s (Some opts)"
  by (simp add: providerCapabilities_def agentIdentityPermissionsProvider_def)

lemma materialize_cpol: "providerCapabilities s opts (contactPolicyPermissionsProvider db)
    = (if sub_type s = ''contact'' then materializeContactPolicyCapabilities db (sub_id s) else [])"
  by (simp add: providerCapabilities_def contactPolicyPermissionsProvider_def)

lemmas materialize_simps = materialize_boot materialize_agdef materialize_agid materialize_cpol

lemma dedupeCapabilities_Nil [simp]: "dedupeCapabilities [] = []"
  by (simp add: dedupeCapabilities_def)

lemma identity_other: "sub_type s \<noteq> ''agent_identity'' \<Longrightarrow> materializeAgentIdentity db s opts = []"
  by (simp add: materializeAgentIdentity_def AGENT_IDENTITY_SUBJECT_TYPE_def)

lemma materializeSubject_eq:
  "materializeSubjectCapabilities db st si opts =
     (let s = \<lparr>sub_type = st, sub_id = si\<rparr> in
      dedupeCapabilities
        (if st = ''agent'' \<or> st = ''automation''
         then materializeBootstrap s @ materializeAgentDefaults db s (Some opts)
         else if st = ''agent_identity'' then materializeAgentIdentity db s (Some opts)
         else if st = ''contact'' then materializeContactPolicyCapabilities db si
         else []))"
  by (simp add: materializeSubjectCapabilities_def materializeFromProviders_def materialize_simps
      getConfiguredCapabilityMaterializers_def Let_def materializeBootstrap_def isTrustedBootstrapSubject_def
      TRUSTED_BOOTSTRAP_SUBJECT_TYPES_def materializeAgentDefaults_def identity_other)

text \<open>a subject of any kind other than agent, automation, agent identity and contact is given no
  capability at all, and an unknown contact none either.\<close>

theorem unknown_subject_gets_nothing:
  assumes "st \<notin> {''agent'', ''automation'', ''agent_identity'', ''contact''} \<or> st = ''contact'' \<and> db_contacts db si = None"
  shows "materializeSubjectCapabilities db st si opts = []"
  using assms by (auto simp: materializeSubject_eq materializeContactPolicyCapabilities_def)

theorem unknown_subject_gets_nothing_witness:
  "materializeSubjectCapabilities sample_permission_db ''chat'' ''chat-1''
     \<lparr>co_includeRoles = None, co_includeConstraints = None, co_executorAgentId = Some ''main'',
      co_executorCapabilities = None, co_compartmentType = None, co_compartmentId = None,
      co_authorityModel = None\<rparr> = []"
  by (rule unknown_subject_gets_nothing) simp

end
