(* ===== verification/SessionTypes.thy ===== *)
theory SessionTypes
  imports Prelude
begin

text \<open>
  The records of the router (\<open>src/src/router/types.ts\<close>): the session entry, which is the row
  of the session store that the router, the scope checks and the runtime share, the
  routing rules and the router configuration. Fields keep the order of the source; a
  union of string literals is a string, and an object used as a dictionary is an
  association list. Of an agent the routing reads the id, the working directory and the
  DM scope.
\<close>

record session_entry =
  se_sessionKey :: string
  se_name :: "string option"
  se_runtimeProvider :: "string option"
  se_runtimeProviderOverride :: "string option"
  se_runtimeSessionParams :: "(string \<times> json) list option"
  se_runtimeSessionDisplayId :: "string option"
  se_providerSessionId :: "string option"
  se_sdkSessionId :: "string option"
  se_sessionFile :: "string option"
  se_updatedAt :: int
  se_createdAt :: int
  se_agentId :: string
  se_agentCwd :: string
  se_systemSent :: "bool option"
  se_abortedLastRun :: "bool option"
  se_compactionCount :: "int option"
  se_chatType :: "string option"
  se_channel :: "string option"
  se_accountId :: "string option"
  se_groupId :: "string option"
  se_subject :: "string option"
  se_displayName :: "string option"
  se_lastChannel :: "string option"
  se_lastTo :: "string option"
  se_lastAccountId :: "string option"
  se_lastThreadId :: "string option"
  se_lastContext :: "string option"
  se_thinkingLevel :: "string option"
  se_modelOverride :: "string option"
  se_effortOverride :: "string option"
  se_ttsAuto :: "string option"
  se_queueMode :: "string option"
  se_queueDebounceMs :: "int option"
  se_queueCap :: "int option"
  se_inputTokens :: "int option"
  se_outputTokens :: "int option"
  se_totalTokens :: "int option"
  se_contextTokens :: "int option"
  se_lastHeartbeatText :: "string option"
  se_lastHeartbeatSentAt :: "int option"
  se_ephemeral :: "bool option"
  se_expiresAt :: "int option"

record route_config =
  rc_pattern :: string
  rc_accountId :: string
  rc_agent :: string
  rc_dmScope :: "string option"
  rc_session :: "string option"
  rc_priority :: "int option"
  rc_policy :: "string option"
  rc_channel :: "string option"

record agent_config =
  ag_id :: string
  ag_cwd :: string
  ag_dmScope :: "string option"

record router_config =
  rt_agents :: "(string \<times> agent_config) list"
  rt_routes :: "route_config list"
  rt_defaultAgent :: string
  rt_defaultDmScope :: string
  rt_accountAgents :: "(string \<times> string) list"

record matched_route =
  mr_agentId :: string
  mr_agent :: agent_config
  mr_dmScope :: string
  mr_sessionKey :: string
  mr_route :: "route_config option"

record resolved_route =
  rr_agent :: agent_config
  rr_dmScope :: string
  rr_sessionKey :: string
  rr_sessionName :: string
  rr_createdSession :: "bool option"
  rr_route :: "route_config option"

end
