(* ===== verification/Scope.thy ===== *)
theory Scope
  imports PermissionRuntime SessionTypes
begin

text \<open>
  Scope isolation (\<open>src/src/permissions/scope.ts\<close>): which sessions, contacts, agents and
  resources the current context may reach, and the check of a command's scope. The tool
  context (\<open>getContext\<close>) and the process environment are arguments. The audit record a
  denial emits is part of the result; its diagnosis text is not modelled.
\<close>

section \<open>The scope context\<close>

record scope_context =
  sc_contextId :: "string option"
  sc_context :: "capability_context option"
  sc_agentId :: "string option"
  sc_sessionKey :: "string option"
  sc_sessionName :: "string option"

record scope_env =
  env_agentId :: "string option"
  env_sessionKey :: "string option"
  env_sessionName :: "string option"

definition getScopeContext :: "tool_context option \<Rightarrow> scope_env \<Rightarrow> scope_context" where
  "getScopeContext tool env =
     (case tool of
        None \<Rightarrow> \<lparr>sc_contextId = None, sc_context = None, sc_agentId = env_agentId env,
                sc_sessionKey = env_sessionKey env, sc_sessionName = env_sessionName env\<rparr>
      | Some ctx \<Rightarrow>
          \<lparr>sc_contextId = tc_contextId ctx, sc_context = tc_context ctx,
           sc_agentId = orElse (tc_agentId ctx) (Option.bind (tc_context ctx) cc_agentId),
           sc_sessionKey = orElse (tc_sessionKey ctx) (Option.bind (tc_context ctx) cc_sessionKey),
           sc_sessionName = orElse (tc_sessionName ctx) (Option.bind (tc_context ctx) cc_sessionName)\<rparr>)"

section \<open>Core checks\<close>

definition scopeCan :: "tool_context option \<Rightarrow> scope_context \<Rightarrow> string \<Rightarrow> string \<Rightarrow> string \<Rightarrow> bool" where
  "scopeCan tool ctx permission objectType objectId =
     (case sc_context ctx of
        Some c \<Rightarrow>
          canWithCapabilityContext (c\<lparr>cc_agentId := orElse (cc_agentId c) (sc_agentId ctx)\<rparr>)
            permission objectType objectId
      | None \<Rightarrow>
          if \<not> truthy (sc_agentId ctx) then localOperatorCan permission objectType objectId
          else agentCan tool (sc_agentId ctx) permission objectType objectId)"

definition isScopeEnforced :: "tool_context option \<Rightarrow> scope_context \<Rightarrow> bool" where
  "isScopeEnforced tool ctx =
     (if \<not> truthy (sc_agentId ctx) then \<not> localOperatorCan ''admin'' ''system'' ''*''
      else \<not> scopeCan tool ctx ''admin'' ''system'' ''*'')"

section \<open>Sessions\<close>

definition isOwnSession :: "scope_context \<Rightarrow> string \<Rightarrow> bool" where
  "isOwnSession ctx target \<longleftrightarrow>
     truthy (sc_sessionName ctx) \<and> sc_sessionName ctx = Some target
     \<or> truthy (sc_sessionKey ctx) \<and> sc_sessionKey ctx = Some target"

definition canAccessSession :: "tool_context option \<Rightarrow> scope_context \<Rightarrow> string \<Rightarrow> bool" where
  "canAccessSession tool ctx target =
     (if \<not> truthy (sc_agentId ctx) then localOperatorCan ''access'' ''session'' target
      else if isOwnSession ctx target then True
      else scopeCan tool ctx ''access'' ''session'' target)"

definition filterAccessibleSessions ::
  "tool_context option \<Rightarrow> scope_context \<Rightarrow> session_entry list \<Rightarrow> session_entry list" where
  "filterAccessibleSessions tool ctx sessions =
     (if \<not> truthy (sc_agentId ctx) then sessions
      else filter (\<lambda>s. canAccessSession tool ctx (nullish (se_name s) (se_sessionKey s))) sessions)"

definition canModifySession :: "tool_context option \<Rightarrow> scope_context \<Rightarrow> string \<Rightarrow> bool" where
  "canModifySession tool ctx target =
     (if \<not> truthy (sc_agentId ctx) then localOperatorCan ''modify'' ''session'' target
      else if isOwnSession ctx target then True
      else scopeCan tool ctx ''modify'' ''session'' target)"

section \<open>Contacts, agents and resources\<close>

record scope_contact =
  scon_tags :: "string list"
  scon_id :: string

definition canAccessContact ::
  "tool_context option \<Rightarrow> scope_context \<Rightarrow> scope_contact \<Rightarrow> string list option \<Rightarrow> bool" where
  "canAccessContact tool ctx contact contactSessionAgents =
     (if \<not> truthy (sc_agentId ctx) then localOperatorCan ''access'' ''contact'' (scon_id contact)
      else if scopeCan tool ctx ''write_contacts'' ''system'' ''*'' then True
      else if scopeCan tool ctx ''read_own_contacts'' ''system'' ''*''
              \<and> list_ex (\<lambda>a. Some a = sc_agentId ctx) (nullish contactSessionAgents []) then True
      else if list_ex (\<lambda>tag. scopeCan tool ctx ''read_tagged_contacts'' ''system'' tag) (scon_tags contact)
      then True
      else scopeCan tool ctx ''read_contact'' ''contact'' (scon_id contact))"

definition canViewAgent :: "tool_context option \<Rightarrow> scope_context \<Rightarrow> string \<Rightarrow> bool" where
  "canViewAgent tool ctx targetAgentId =
     (if \<not> truthy (sc_agentId ctx) then localOperatorCan ''access'' ''agent'' targetAgentId
      else if sc_agentId ctx = Some targetAgentId then True
      else scopeCan tool ctx ''view'' ''agent'' targetAgentId)"

definition filterVisibleAgents :: "tool_context option \<Rightarrow> scope_context \<Rightarrow> string list \<Rightarrow> string list" where
  "filterVisibleAgents tool ctx agents =
     (if \<not> truthy (sc_agentId ctx) then agents else filter (canViewAgent tool ctx) agents)"

definition canWriteContacts :: "tool_context option \<Rightarrow> scope_context \<Rightarrow> bool" where
  "canWriteContacts tool ctx = scopeCan tool ctx ''write_contacts'' ''system'' ''*''"

definition canAccessResource :: "tool_context option \<Rightarrow> scope_context \<Rightarrow> string option \<Rightarrow> bool" where
  "canAccessResource tool ctx resourceAgentId =
     (if \<not> truthy (sc_agentId ctx) then localOperatorCan ''access'' ''agent'' (nullish resourceAgentId ''*'')
      else if scopeCan tool ctx ''admin'' ''system'' ''*'' then True
      else if \<not> truthy resourceAgentId then False
      else sc_agentId ctx = resourceAgentId)"

section \<open>The scope of a command\<close>

datatype scope_type = ScopeSuperadmin | ScopeAdmin | ScopeWriteContacts | ScopeResource | ScopeOpen

text \<open>The denial that is recorded and emitted for audit.\<close>

record scope_denial =
  sd_relation :: string
  sd_objectType :: string
  sd_objectId :: string
  sd_denied :: string
  sd_reason :: string
  sd_command :: "string option"

record scope_result =
  sr_allowed :: bool
  sr_errorMessage :: string
  sr_denial :: "scope_denial option"

definition scopeAllowed :: scope_result where
  "scopeAllowed = \<lparr>sr_allowed = True, sr_errorMessage = [], sr_denial = None\<rparr>"

definition scopeDenied ::
  "scope_context \<Rightarrow> string \<Rightarrow> string \<Rightarrow> string \<Rightarrow> string \<Rightarrow> string \<Rightarrow> string option \<Rightarrow> scope_result" where
  "scopeDenied ctx relation objectType objectId denied requires command =
     (let reason = ''Permission denied: agent:'' @ nullish (sc_agentId ctx) ''undefined'' @ '' requires '' @ requires
      in \<lparr>sr_allowed = False, sr_errorMessage = reason,
          sr_denial = Some \<lparr>sd_relation = relation, sd_objectType = objectType, sd_objectId = objectId,
                            sd_denied = denied, sd_reason = reason, sd_command = command\<rparr>\<rparr>)"

definition scopeCommand :: "string option \<Rightarrow> string option \<Rightarrow> string option" where
  "scopeCommand groupName commandName =
     (if truthy groupName
      then Some (nullish groupName [] @ (if truthy commandName then '' '' @ nullish commandName [] else []))
      else None)"

text \<open>The check that \<open>open\<close> and \<open>admin\<close> commands share: the whole group, or the one command in it.\<close>

definition groupScopeCheck ::
  "tool_context option \<Rightarrow> scope_context \<Rightarrow> string option \<Rightarrow> string option \<Rightarrow> scope_result" where
  "groupScopeCheck tool ctx groupName commandName =
     (let specific = truthy commandName \<and> truthy groupName;
          commandId = nullish groupName [] @ ''_'' @ nullish commandName [];
          objectId = (if specific then commandId else nullish groupName ''*'')
      in if scopeCan tool ctx ''execute'' ''group'' (nullish groupName ''*'') then scopeAllowed
         else if specific \<and> scopeCan tool ctx ''execute'' ''group'' commandId then scopeAllowed
         else scopeDenied ctx ''execute'' ''group'' objectId (''group:'' @ objectId)
                (''execute on group:'' @ objectId) (scopeCommand groupName commandName))"

definition enforceScopeCheck ::
  "tool_context option \<Rightarrow> scope_env \<Rightarrow> scope_type \<Rightarrow> string option \<Rightarrow> string option \<Rightarrow> scope_result" where
  "enforceScopeCheck tool env scope groupName commandName =
     (let ctx = getScopeContext tool env in
      case scope of
        ScopeResource \<Rightarrow> scopeAllowed
      | ScopeOpen \<Rightarrow>
          if \<not> truthy (sc_agentId ctx)
          then (if localOperatorCan ''execute'' ''group'' (nullish groupName ''*'') then scopeAllowed
                else \<lparr>sr_allowed = False,
                      sr_errorMessage = ''Permission denied: local operator cannot execute group:''
                        @ nullish groupName ''*'',
                      sr_denial = None\<rparr>)
          else groupScopeCheck tool ctx groupName commandName
      | ScopeSuperadmin \<Rightarrow>
          if scopeCan tool ctx ''admin'' ''system'' ''*'' then scopeAllowed
          else scopeDenied ctx ''admin'' ''system'' ''*'' ''system:*'' ''admin on system:*''
                 (scopeCommand groupName commandName)
      | ScopeAdmin \<Rightarrow> groupScopeCheck tool ctx groupName commandName
      | ScopeWriteContacts \<Rightarrow>
          if canWriteContacts tool ctx then scopeAllowed
          else scopeDenied ctx ''write_contacts'' ''system'' ''*'' ''write_contacts'' ''write_contacts''
                 (scopeCommand groupName commandName))"

section \<open>Lemmas\<close>

lemma scopeCan_context: "sc_context ctx = Some c \<Longrightarrow> scopeCan tool ctx p t i = canWithCapabilities (cc_capabilities c) p t i"
  by (simp add: scopeCan_def)

lemma scopeCan_operator: "sc_context ctx = None \<Longrightarrow> \<not> truthy (sc_agentId ctx) \<Longrightarrow> scopeCan tool ctx p t i"
  by (simp add: scopeCan_def)

lemma agentCan_snapshot:
  "agentCan tool a p t i \<longleftrightarrow>
     (\<exists>x c. truthy a \<and> tool = Some x \<and> tc_context x = Some c \<and> (truthy (tc_agentId x) \<longrightarrow> tc_agentId x = a)
        \<and> (\<exists>d \<in> set (cc_capabilities c). capCovers d p t i))"
proof -
  have ctx: "allowedByDefault ((base_request p t i)\<lparr>rq_context := Some c\<rparr>)
      = canWithCapabilities (cc_capabilities c) p t i" for c
    by (rule canWithCapabilityContext_eq [unfolded canWithCapabilityContext_def])
  have sub: "\<not> allowedByDefault ((base_request p t i)\<lparr>rq_subject := Some \<lparr>sub_type = s, sub_id = b\<rparr>\<rparr>)" for s b
    by (rule can_False [unfolded can_def])
  show ?thesis
    by (cases a) (auto simp: agentCan_def getScopedContext_def Let_def ctx sub canWithCapabilities_iff
        split: option.splits)
qed

lemma agentCan_no_tool [simp]: "\<not> agentCan None a p t i"
  by (simp add: agentCan_snapshot)

text \<open>Administration of the system covers every check, whatever carries it.\<close>

lemma admin_covers: "capCovers c ''admin'' ''system'' ''*'' \<Longrightarrow> capCovers c p t i"
  by (auto simp: capCovers_def isAdminCap_def objectIdMatches_star_request)

lemma scopeCan_admin: "scopeCan tool ctx ''admin'' ''system'' ''*'' \<Longrightarrow> scopeCan tool ctx p t i"
  by (cases "sc_context ctx")
    (auto simp: scopeCan_def agentCan_snapshot canWithCapabilities_iff dest: admin_covers split: if_splits)

section \<open>Properties of the scope checks\<close>

text \<open>C39: an agent outside any capability snapshot is isolated: it reaches its own session, itself and the
  resources it owns, and no other session, no other agent, no contact and no foreign or unowned resource.\<close>

theorem agent_isolated_without_snapshot:
  assumes "truthy (sc_agentId ctx)" and "sc_context ctx = None"
  shows "(canAccessSession None ctx s \<longleftrightarrow> isOwnSession ctx s)
     \<and> (canModifySession None ctx s \<longleftrightarrow> isOwnSession ctx s)
     \<and> (canViewAgent None ctx a \<longleftrightarrow> sc_agentId ctx = Some a)
     \<and> (canAccessResource None ctx r \<longleftrightarrow> r = sc_agentId ctx)
     \<and> \<not> canWriteContacts None ctx \<and> \<not> canAccessContact None ctx contact owners
     \<and> filterVisibleAgents None ctx agents = filter (\<lambda>x. Some x = sc_agentId ctx) agents"
proof -
  have no: "\<not> scopeCan None ctx p t i" for p t i using assms by (simp add: scopeCan_def)
  have view: "canViewAgent None ctx x \<longleftrightarrow> Some x = sc_agentId ctx" for x
    using assms(1) no by (auto simp: canViewAgent_def)
  then have "filterVisibleAgents None ctx agents = filter (\<lambda>x. Some x = sc_agentId ctx) agents"
    using assms(1) by (auto simp: filterVisibleAgents_def intro: filter_cong)
  then show ?thesis using assms(1) no view
    by (auto simp: canAccessSession_def canModifySession_def canAccessResource_def canWriteContacts_def
        canAccessContact_def list_ex_iff)
qed

definition isolated_context :: scope_context where
  "isolated_context = \<lparr>sc_contextId = None, sc_context = None, sc_agentId = Some ''main'',
     sc_sessionKey = Some ''agent:main:main'', sc_sessionName = Some ''main''\<rparr>"

theorem agent_isolated_without_snapshot_witness:
  "canAccessSession None isolated_context ''main'' \<and> \<not> canAccessSession None isolated_context ''dev''
   \<and> \<not> canViewAgent None isolated_context ''dev'' \<and> filterVisibleAgents None isolated_context [''dev'', ''main''] = [''main'']"
  using agent_isolated_without_snapshot [of isolated_context "''main''" "''dev''" None undefined None "[''dev'', ''main'']"]
    agent_isolated_without_snapshot [of isolated_context "''dev''" "''dev''" None undefined None "[]"]
  by (simp add: isolated_context_def isOwnSession_def)

lemma groupScope_allowed:
  "sr_allowed (groupScopeCheck tool ctx g c) \<longleftrightarrow>
     scopeCan tool ctx ''execute'' ''group'' (nullish g ''*'')
     \<or> (truthy c \<and> truthy g \<and> scopeCan tool ctx ''execute'' ''group'' (nullish g [] @ ''_'' @ nullish c []))"
  by (simp add: groupScopeCheck_def scopeAllowed_def scopeDenied_def Let_def)

lemma groupScope_audit:
  "sr_denial (groupScopeCheck tool ctx g c) = None \<longleftrightarrow> sr_allowed (groupScopeCheck tool ctx g c)"
  by (simp add: groupScopeCheck_def scopeAllowed_def scopeDenied_def Let_def)

text \<open>when scope is not enforced for an agent (it administers the system), every check succeeds: any
  session, contact, agent, resource and command scope.\<close>

theorem unenforced_scope_allows_all:
  assumes "getScopeContext tool env = ctx" and "\<not> isScopeEnforced tool ctx" and "truthy (sc_agentId ctx)"
  shows "canAccessSession tool ctx s \<and> canModifySession tool ctx s \<and> canAccessContact tool ctx contact owners
     \<and> canViewAgent tool ctx a \<and> canAccessResource tool ctx r \<and> canWriteContacts tool ctx
     \<and> sr_allowed (enforceScopeCheck tool env scope g c)"
proof -
  have adm: "scopeCan tool ctx ''admin'' ''system'' ''*''" using assms(2,3) by (simp add: isScopeEnforced_def)
  then have all: "scopeCan tool ctx p t i" for p t i by (rule scopeCan_admin)
  have "sr_allowed (enforceScopeCheck tool env scope g c)"
    using assms(3) all
    by (cases scope)
      (simp_all add: enforceScopeCheck_def assms(1) groupScope_allowed canWriteContacts_def scopeAllowed_def)
  with all show ?thesis
    by (simp add: canAccessSession_def canModifySession_def canAccessContact_def canViewAgent_def
        canAccessResource_def canWriteContacts_def)
qed

definition admin_tool :: tool_context where
  "admin_tool = \<lparr>tc_contextId = Some ''ctx-1'',
     tc_context = Some \<lparr>cc_contextId = Some ''ctx-1'', cc_agentId = Some ''main'', cc_kind = None,
       cc_sessionKey = None, cc_sessionName = None,
       cc_capabilities = [mk_cap ''admin'' ''system'' ''*''], cc_metadata = None\<rparr>,
     tc_sessionKey = None, tc_sessionName = None, tc_agentId = None\<rparr>"

definition empty_env :: scope_env where
  "empty_env = \<lparr>env_agentId = None, env_sessionKey = None, env_sessionName = None\<rparr>"

theorem unenforced_scope_allows_all_witness:
  "sr_allowed (enforceScopeCheck (Some admin_tool) empty_env ScopeAdmin (Some ''agents'') (Some ''list''))"
proof -
  have 1: "\<not> isScopeEnforced (Some admin_tool) (getScopeContext (Some admin_tool) empty_env)"
    by (simp add: isScopeEnforced_def getScopeContext_def admin_tool_def scopeCan_def capCovers_def isAdminCap_def)
  have 2: "truthy (sc_agentId (getScopeContext (Some admin_tool) empty_env))"
    by (simp add: getScopeContext_def admin_tool_def)
  show ?thesis using unenforced_scope_allows_all [OF refl 1 2] by blast
qed

text \<open>the check of a command's scope refuses exactly the callers that lack the grant of its scope type,
  and every refusal is recorded for audit with the reason the caller is shown.\<close>

theorem command_scope_denials:
  "(sr_allowed (enforceScopeCheck tool env scope g c) \<longleftrightarrow>
        (case scope of
           ScopeResource \<Rightarrow> True
         | ScopeSuperadmin \<Rightarrow> scopeCan tool (getScopeContext tool env) ''admin'' ''system'' ''*''
         | ScopeWriteContacts \<Rightarrow> scopeCan tool (getScopeContext tool env) ''write_contacts'' ''system'' ''*''
         | ScopeAdmin \<Rightarrow> scopeCan tool (getScopeContext tool env) ''execute'' ''group'' (nullish g ''*'')
             \<or> (truthy c \<and> truthy g \<and> scopeCan tool (getScopeContext tool env) ''execute'' ''group'' (nullish g [] @ ''_'' @ nullish c []))
         | ScopeOpen \<Rightarrow> sc_agentId (getScopeContext tool env) \<in> {None, Some []} \<or> scopeCan tool (getScopeContext tool env) ''execute'' ''group'' (nullish g ''*'')
             \<or> (truthy c \<and> truthy g \<and> scopeCan tool (getScopeContext tool env) ''execute'' ''group'' (nullish g [] @ ''_'' @ nullish c []))))
     \<and> (case sr_denial (enforceScopeCheck tool env scope g c) of
          None \<Rightarrow> sr_allowed (enforceScopeCheck tool env scope g c)
        | Some d \<Rightarrow> \<not> sr_allowed (enforceScopeCheck tool env scope g c)
            \<and> sd_reason d = sr_errorMessage (enforceScopeCheck tool env scope g c))"
  by (cases scope)
    (auto simp: enforceScopeCheck_def groupScope_allowed canWriteContacts_def Let_def
      groupScopeCheck_def scopeAllowed_def scopeDenied_def truthy_def split: if_splits option.splits)

text \<open>a context without an agent is treated as the local operator by the session, contact and agent
  checks, whatever its own capabilities are: with an empty snapshot it may access any session, while the
  check that consults the snapshot refuses it.\<close>

theorem agentless_context_is_operator:
  assumes "sc_agentId ctx = None" and "sc_context ctx = Some c" and "cc_capabilities c = []"
  shows "canAccessSession tool ctx s \<and> canModifySession tool ctx s \<and> canAccessContact tool ctx contact owners
     \<and> canViewAgent tool ctx a \<and> \<not> isScopeEnforced tool ctx
     \<and> \<not> scopeCan tool ctx ''access'' ''session'' s \<and> \<not> canWriteContacts tool ctx"
  using assms
  by (simp add: canAccessSession_def canModifySession_def canAccessContact_def canViewAgent_def
      isScopeEnforced_def canWriteContacts_def scopeCan_context)

theorem agentless_context_is_operator_witness:
  "canAccessSession None \<lparr>sc_contextId = None,
       sc_context = Some \<lparr>cc_contextId = None, cc_agentId = None, cc_kind = None, cc_sessionKey = None,
         cc_sessionName = None, cc_capabilities = [], cc_metadata = None\<rparr>,
       sc_agentId = None, sc_sessionKey = None, sc_sessionName = None\<rparr> ''agent:main:main''"
  by (rule agentless_context_is_operator [THEN conjunct1], simp, simp, simp)

end
