(* ===== verification/Regex.thy ===== *)
theory Regex
  imports Prelude
begin

text \<open>
  The regular expressions of the language, as far as the sources use them: character sets,
  sequence, alternation, repetition, \<open>^\<close>, \<open>$\<close>, \<open>\b\<close> and capture groups. The matcher is the
  backtracking one of the language: \<open>matches\<close> lists the ways to match at a position in the
  order in which they are tried, a repetition being greedy and giving up an iteration that
  consumes nothing. \<open>exec\<close> tries the positions from left to right. A repetition here never
  holds a capture group, so its reset of captures does not matter.
\<close>

section \<open>Expressions and the matcher\<close>

datatype regex =
    RxEps
  | RxChr "char \<Rightarrow> bool"
  | RxSeq regex regex
  | RxAlt regex regex
  | RxStar regex
  | RxBol
  | RxEol
  | RxWordB
  | RxGroup nat regex

text \<open>A position: the character before it, what is left, and the captures so far, latest first.\<close>

record rx_pos =
  rx_prev :: "char option"
  rx_rest :: string
  rx_caps :: "(nat \<times> string) list"

definition word_char :: "char \<Rightarrow> bool" where
  "word_char c \<longleftrightarrow> is_alnum c \<or> c = CHR ''_''"

definition at_boundary :: "rx_pos \<Rightarrow> bool" where
  "at_boundary s \<longleftrightarrow>
     (case rx_prev s of None \<Rightarrow> False | Some c \<Rightarrow> word_char c)
     \<noteq> (case rx_rest s of [] \<Rightarrow> False | c # _ \<Rightarrow> word_char c)"

definition rx_step :: "char \<Rightarrow> string \<Rightarrow> rx_pos \<Rightarrow> rx_pos" where
  "rx_step c r s = s\<lparr>rx_prev := Some c, rx_rest := r\<rparr>"

definition rx_capture :: "nat \<Rightarrow> rx_pos \<Rightarrow> rx_pos \<Rightarrow> rx_pos" where
  "rx_capture n s t = t\<lparr>rx_caps := (n, take (length (rx_rest s) - length (rx_rest t)) (rx_rest s)) # rx_caps t\<rparr>"

function (sequential) matches :: "regex \<Rightarrow> rx_pos \<Rightarrow> rx_pos list" where
  "matches RxEps s = [s]"
| "matches (RxChr P) s = (case rx_rest s of [] \<Rightarrow> [] | c # r \<Rightarrow> if P c then [rx_step c r s] else [])"
| "matches (RxSeq a b) s = concat (map (matches b) (matches a s))"
| "matches (RxAlt a b) s = matches a s @ matches b s"
| "matches (RxStar a) s =
     concat (map (\<lambda>t. if length (rx_rest t) < length (rx_rest s) then matches (RxStar a) t else []) (matches a s)) @ [s]"
| "matches RxBol s = (if rx_prev s = None then [s] else [])"
| "matches RxEol s = (if rx_rest s = [] then [s] else [])"
| "matches RxWordB s = (if at_boundary s then [s] else [])"
| "matches (RxGroup n a) s = map (rx_capture n s) (matches a s)"
  by pat_completeness auto
termination
  by (relation "measures [\<lambda>(r, s). size r, \<lambda>(r, s). length (rx_rest s)]") auto

declare matches.simps(5) [simp del]

text \<open>\<open>r.exec(s)\<close>: the text before the match and the position after it; \<open>r.test(s)\<close>.\<close>

fun exec_from :: "regex \<Rightarrow> char option \<Rightarrow> string \<Rightarrow> (string \<times> rx_pos) option" where
  "exec_from r p s =
     (case matches r \<lparr>rx_prev = p, rx_rest = s, rx_caps = []\<rparr> of
        t # _ \<Rightarrow> Some ([], t)
      | [] \<Rightarrow> (case s of [] \<Rightarrow> None
               | c # s' \<Rightarrow> map_option (\<lambda>(b, t). (c # b, t)) (exec_from r (Some c) s')))"

declare exec_from.simps [simp del]

definition rx_exec :: "regex \<Rightarrow> string \<Rightarrow> (string \<times> rx_pos) option" where
  "rx_exec r s = exec_from r None s"

definition rx_test :: "regex \<Rightarrow> string \<Rightarrow> bool" where
  "rx_test r s \<longleftrightarrow> rx_exec r s \<noteq> None"

text \<open>\<open>match[n]\<close> and \<open>s.replace(r, "")\<close> for an expression without the flag \<open>g\<close>.\<close>

definition rx_group :: "nat \<Rightarrow> regex \<Rightarrow> string \<Rightarrow> string option" where
  "rx_group n r s = Option.bind (rx_exec r s) (\<lambda>(b, t). map_of (rx_caps t) n)"

definition rx_remove :: "regex \<Rightarrow> string \<Rightarrow> string" where
  "rx_remove r s = (case rx_exec r s of None \<Rightarrow> s | Some (b, t) \<Rightarrow> b @ rx_rest t)"

section \<open>Notation of the literals\<close>

definition rx_char :: "char \<Rightarrow> regex" where "rx_char c = RxChr (\<lambda>d. d = c)"

fun rx_lit :: "string \<Rightarrow> regex" where
  "rx_lit [] = RxEps"
| "rx_lit (c # s) = RxSeq (rx_char c) (rx_lit s)"

fun rx_seq :: "regex list \<Rightarrow> regex" where
  "rx_seq [] = RxEps"
| "rx_seq (r # rs) = RxSeq r (rx_seq rs)"

fun rx_alts :: "regex list \<Rightarrow> regex" where
  "rx_alts [] = RxChr (\<lambda>_. False)"
| "rx_alts (r # rs) = RxAlt r (rx_alts rs)"

definition rx_words :: "string list \<Rightarrow> regex" where "rx_words ws = rx_alts (map rx_lit ws)"
definition rx_plus :: "regex \<Rightarrow> regex" where "rx_plus r = RxSeq r (RxStar r)"
definition rx_opt :: "regex \<Rightarrow> regex" where "rx_opt r = RxAlt r RxEps"
definition rx_space :: regex where "rx_space = RxChr is_space"
definition rx_nonspace :: regex where "rx_nonspace = RxChr (\<lambda>c. \<not> is_space c)"
definition rx_wordchar :: regex where "rx_wordchar = RxChr word_char"

section \<open>What matches\<close>

text \<open>Facts about the set of positions a match can end in; \<open>first_match\<close> is the one it does end in.\<close>

definition first_match :: "regex \<Rightarrow> rx_pos \<Rightarrow> rx_pos \<Rightarrow> bool" where
  "first_match r s t \<longleftrightarrow> (\<exists>ts. matches r s = t # ts)"

definition rx_walk :: "string \<Rightarrow> string \<Rightarrow> rx_pos \<Rightarrow> rx_pos" where
  "rx_walk w v s = s\<lparr>rx_prev := (if w = [] then rx_prev s else Some (last w)), rx_rest := v\<rparr>"

lemma rx_walk_sel [simp]:
  "rx_rest (rx_walk w v s) = v" "rx_caps (rx_walk w v s) = rx_caps s"
  "rx_prev (rx_walk w v s) = (if w = [] then rx_prev s else Some (last w))"
  by (simp_all add: rx_walk_def)

lemma rx_walk_walk [simp]: "rx_walk w' v' (rx_walk w v s) = rx_walk (w @ w') v' s"
  by (simp add: rx_walk_def)

lemma rx_walk_Nil: "rx_rest s = v \<Longrightarrow> rx_walk [] v s = s"
  by (auto simp: rx_walk_def)

lemma rx_step_walk: "rx_step c r s = rx_walk [c] r s"
  by (simp add: rx_step_def rx_walk_def)

lemma match_Chr: "t \<in> set (matches (RxChr P) s) \<longleftrightarrow> (\<exists>c r. rx_rest s = c # r \<and> P c \<and> t = rx_walk [c] r s)"
  by (cases "rx_rest s") (auto simp: rx_step_walk)

lemma first_Seq: "first_match a s u \<Longrightarrow> first_match b u t \<Longrightarrow> first_match (RxSeq a b) s t"
  by (auto simp: first_match_def)

lemma first_ne: "first_match r s t \<Longrightarrow> t \<in> set (matches r s)"
  by (auto simp: first_match_def)

lemma matches_first: "matches r s \<noteq> [] \<longleftrightarrow> (\<exists>t. first_match r s t)"
  by (auto simp: first_match_def neq_Nil_conv)

lemma match_lit: "t \<in> set (matches (rx_lit w) s) \<longleftrightarrow> (\<exists>v. rx_rest s = w @ v \<and> t = rx_walk w v s)"
proof (induction w arbitrary: s)
  case Nil
  show ?case by (auto simp: rx_walk_Nil)
next
  case (Cons c w)
  show ?case
    by (cases "rx_rest s") (auto simp: rx_char_def rx_step_walk Cons)
qed

lemma first_lit: "rx_rest s = w @ v \<Longrightarrow> first_match (rx_lit w) s (rx_walk w v s)"
proof (induction w arbitrary: s)
  case (Cons c w)
  then have "first_match (rx_char c) s (rx_walk [c] (w @ v) s)"
    by (simp add: first_match_def rx_char_def rx_step_walk)
  moreover have "first_match (rx_lit w) (rx_walk [c] (w @ v) s) (rx_walk w v (rx_walk [c] (w @ v) s))"
    by (rule Cons.IH) simp
  ultimately show ?case by (auto intro: first_Seq)
qed (simp add: first_match_def rx_walk_Nil)

text \<open>A repeated character set: any run may be taken, the longest is tried first.\<close>

lemma star_unfold:
  "matches (RxStar (RxChr P)) s =
     (case rx_rest s of [] \<Rightarrow> [s]
      | c # r \<Rightarrow> (if P c then matches (RxStar (RxChr P)) (rx_walk [c] r s) else []) @ [s])"
  by (subst matches.simps) (auto simp: rx_step_walk split: list.split)

lemma walk_Cons:
  assumes "rx_rest s = c # r"
  shows "(\<exists>w v. rx_rest s = w @ v \<and> list_all P w \<and> t = rx_walk w v s) \<longleftrightarrow>
     t = s \<or> P c \<and> (\<exists>w v. r = w @ v \<and> list_all P w \<and> t = rx_walk w v (rx_walk [c] r s))" (is "?L = ?R")
proof
  assume ?L
  then obtain w v where w: "c # r = w @ v" "list_all P w" "t = rx_walk w v s" using assms by auto
  with assms show ?R by (cases w) (auto simp: rx_walk_Nil)
next
  assume ?R
  then show ?L
  proof
    assume "t = s"
    with assms show ?L by (intro exI [of _ "[]"] exI [of _ "c # r"]) (simp add: rx_walk_Nil)
  next
    assume "P c \<and> (\<exists>w v. r = w @ v \<and> list_all P w \<and> t = rx_walk w v (rx_walk [c] r s))"
    then obtain w v where "P c" "r = w @ v" "list_all P w" "t = rx_walk (c # w) v s" by auto
    with assms show ?L by (intro exI [of _ "c # w"] exI [of _ v]) simp
  qed
qed

lemma match_star:
  "t \<in> set (matches (RxStar (RxChr P)) s) \<longleftrightarrow>
     (\<exists>w v. rx_rest s = w @ v \<and> list_all P w \<and> t = rx_walk w v s)"
proof (induction "rx_rest s" arbitrary: s)
  case Nil
  then show ?case by (subst star_unfold) (auto simp: rx_walk_Nil)
next
  case (Cons c r)
  from Cons.hyps(1) [of "rx_walk [c] r s"] show ?case
    unfolding walk_Cons [OF Cons.hyps(2) [symmetric]]
    by (subst star_unfold) (auto simp: Cons.hyps(2) [symmetric])
qed

lemma first_star:
  "rx_rest s = w @ v \<Longrightarrow> list_all P w \<Longrightarrow> v = [] \<or> \<not> P (hd v) \<Longrightarrow>
     first_match (RxStar (RxChr P)) s (rx_walk w v s)"
proof (induction w arbitrary: s)
  case Nil
  then show ?case by (subst first_match_def, subst star_unfold) (auto simp: rx_walk_Nil split: list.split)
next
  case (Cons c w)
  have "first_match (RxStar (RxChr P)) (rx_walk [c] (w @ v) s) (rx_walk w v (rx_walk [c] (w @ v) s))"
    by (rule Cons.IH) (use Cons.prems in auto)
  with Cons.prems show ?case
    by (subst first_match_def, subst star_unfold) (auto simp: first_match_def)
qed

lemma match_plus:
  "t \<in> set (matches (rx_plus (RxChr P)) s) \<longleftrightarrow>
     (\<exists>w v. rx_rest s = w @ v \<and> w \<noteq> [] \<and> list_all P w \<and> t = rx_walk w v s)" (is "?L = ?R")
proof
  assume ?L
  then obtain u where "u \<in> set (matches (RxChr P) s)" "t \<in> set (matches (RxStar (RxChr P)) u)"
    by (auto simp: rx_plus_def simp del: matches.simps(2))
  then obtain c r w v where "rx_rest s = c # r" "P c" "r = w @ v" "list_all P w" "t = rx_walk (c # w) v s"
    by (auto simp: match_Chr match_star simp del: matches.simps(2))
  then show ?R by (intro exI [of _ "c # w"] exI [of _ v]) simp
next
  assume ?R
  then obtain c w v where w: "rx_rest s = c # w @ v" "P c" "list_all P w" "t = rx_walk (c # w) v s"
    by (auto simp: neq_Nil_conv)
  then have "rx_walk [c] (w @ v) s \<in> set (matches (RxChr P) s)" by (simp add: rx_step_walk)
  moreover have "t \<in> set (matches (RxStar (RxChr P)) (rx_walk [c] (w @ v) s))"
    using w by (auto simp: match_star)
  ultimately show ?L by (auto simp: rx_plus_def simp del: matches.simps(2))
qed

lemma first_plus:
  assumes "rx_rest s = w @ v" "w \<noteq> []" "list_all P w" "v = [] \<or> \<not> P (hd v)"
  shows "first_match (rx_plus (RxChr P)) s (rx_walk w v s)"
proof -
  from assms(2) obtain c u where w: "w = c # u" by (cases w) auto
  have "first_match (RxChr P) s (rx_walk [c] (u @ v) s)"
    using assms w by (simp add: first_match_def rx_step_walk)
  moreover have "first_match (RxStar (RxChr P)) (rx_walk [c] (u @ v) s) (rx_walk u v (rx_walk [c] (u @ v) s))"
    by (rule first_star) (use assms w in auto)
  ultimately show ?thesis by (auto simp: w rx_plus_def intro: first_Seq)
qed

text \<open>An expression whose body cannot match here is skipped by a repetition and by an option.\<close>

lemma first_star_skip: "matches r s = [] \<Longrightarrow> first_match (RxStar r) s s"
  by (subst first_match_def, subst matches.simps) simp

lemma first_opt_skip: "matches r s = [] \<Longrightarrow> first_match (rx_opt r) s s"
  by (simp add: first_match_def rx_opt_def)

lemma first_opt: "first_match r s t \<Longrightarrow> first_match (rx_opt r) s t"
  by (auto simp: first_match_def rx_opt_def)

lemma first_group: "first_match r s t \<Longrightarrow> first_match (RxGroup n r) s (rx_capture n s t)"
  by (auto simp: first_match_def)

lemma first_Alt: "first_match a s t \<Longrightarrow> first_match (RxAlt a b) s t"
  by (auto simp: first_match_def)

lemma first_seq: "first_match r s u \<Longrightarrow> first_match (rx_seq rs) u t \<Longrightarrow> first_match (rx_seq (r # rs)) s t"
  by (simp add: first_Seq)

lemma first_seq_Nil: "first_match (rx_seq []) s s"
  by (simp add: first_match_def)

lemma match_seq_Cons: "t \<in> set (matches (rx_seq (r # rs)) s) \<longleftrightarrow> (\<exists>u\<in>set (matches r s). t \<in> set (matches (rx_seq rs) u))"
  by auto

lemma match_alts: "t \<in> set (matches (rx_alts rs) s) \<longleftrightarrow> (\<exists>r\<in>set rs. t \<in> set (matches r s))"
  by (induction rs) (auto split: list.split)

lemma match_words: "t \<in> set (matches (rx_words ws) s) \<longleftrightarrow> (\<exists>w\<in>set ws. \<exists>v. rx_rest s = w @ v \<and> t = rx_walk w v s)"
  by (auto simp: rx_words_def match_alts match_lit)

section \<open>Searching\<close>

definition rx_at :: "string \<Rightarrow> string \<Rightarrow> rx_pos" where
  "rx_at u v = \<lparr>rx_prev = (if u = [] then None else Some (last u)), rx_rest = v, rx_caps = []\<rparr>"

lemma rx_at_sel [simp]: "rx_rest (rx_at u v) = v" "rx_caps (rx_at u v) = []"
  "rx_prev (rx_at u v) = (if u = [] then None else Some (last u))"
  by (simp_all add: rx_at_def)

lemma exec_from_first:
  "first_match r \<lparr>rx_prev = p, rx_rest = s, rx_caps = []\<rparr> t \<Longrightarrow> exec_from r p s = Some ([], t)"
  by (subst exec_from.simps) (auto simp: first_match_def)

lemma exec_first: "first_match r (rx_at [] s) t \<Longrightarrow> rx_exec r s = Some ([], t)"
  by (simp add: rx_exec_def rx_at_def exec_from_first)

lemma exec_from_Cons:
  "exec_from r p (c # s) \<noteq> None \<longleftrightarrow>
     matches r \<lparr>rx_prev = p, rx_rest = c # s, rx_caps = []\<rparr> \<noteq> [] \<or> exec_from r (Some c) s \<noteq> None"
  by (subst exec_from.simps) (auto split: list.split)

lemma exec_from_Nil: "exec_from r p [] \<noteq> None \<longleftrightarrow> matches r \<lparr>rx_prev = p, rx_rest = [], rx_caps = []\<rparr> \<noteq> []"
  by (subst exec_from.simps) (simp split: list.split)

lemma exec_from_iff:
  "exec_from r (if u = [] then None else Some (last u)) s \<noteq> None \<longleftrightarrow>
     (\<exists>v w. s = v @ w \<and> matches r (rx_at (u @ v) w) \<noteq> [])"
proof (induction s arbitrary: u)
  case Nil
  show ?case by (simp add: exec_from_Nil rx_at_def del: not_None_eq)
next
  case (Cons c s)
  have split: "(\<exists>v w. c # s = v @ w \<and> Q v w) \<longleftrightarrow> Q [] (c # s) \<or> (\<exists>v w. s = v @ w \<and> Q (c # v) w)" for Q
    by (auto simp: Cons_eq_append_conv)
  have "exec_from r (Some c) s \<noteq> None \<longleftrightarrow> (\<exists>v w. s = v @ w \<and> matches r (rx_at (u @ c # v) w) \<noteq> [])"
    using Cons [of "u @ [c]"] by simp
  then show ?case
    unfolding split [of "\<lambda>v w. matches r (rx_at (u @ v) w) \<noteq> []"] exec_from_Cons by (simp add: rx_at_def)
qed

lemma test_iff: "rx_test r s \<longleftrightarrow> (\<exists>u v. s = u @ v \<and> matches r (rx_at u v) \<noteq> [])"
  using exec_from_iff [of r "[]" s] by (simp add: rx_test_def rx_exec_def)

lemma test_ex: "rx_test r s \<longleftrightarrow> (\<exists>u v t. s = u @ v \<and> t \<in> set (matches r (rx_at u v)))"
  unfolding test_iff by (metis last_in_set list.set_intros(1) neq_Nil_conv empty_iff empty_set)

lemma test_lit: "rx_test (rx_lit w) s \<longleftrightarrow> sublist w s"
  by (auto simp: test_ex match_lit sublist_def)

lemma remove_first: "first_match r (rx_at [] s) t \<Longrightarrow> rx_remove r s = rx_rest t"
  by (simp add: rx_remove_def exec_first)

lemma remove_none: "\<not> rx_test r s \<Longrightarrow> rx_remove r s = s"
  by (cases "rx_exec r s") (simp_all add: rx_remove_def rx_test_def)

end
