(* ===== verification/ShellParser.thy ===== *)
theory ShellParser
  imports Regex "HOL-Library.While_Combinator"
begin

text \<open>
  The parser of shell commands (\<open>src/src/bash/parser.ts\<close>): the patterns that are refused
  before parsing, the removal of quoted text, the split at operators, and the executables of
  the parts. The operator scan is the loop of the code, over an index into the cleaned
  command; \<open>operator_segments\<close> is the split written by recursion on the text, and
  \<open>splitByOperators_eq\<close> relates the two. \<open>parse_chain\<close> is the main fact on the parser: it
  treats a chain of commands as it treats the commands.

  An object literal indexed by a name of \<open>Object.prototype\<close> yields an inherited value, on
  which the call of \<open>some\<close> throws; the message of that error is the argument \<open>thrown\<close>.
\<close>

section \<open>Patterns refused before parsing\<close>

record pattern_result =
  pat_safe :: bool
  pat_reason :: "string option"
  pat_pattern :: "string option"

definition rx_shells :: regex where
  "rx_shells = rx_words [''bash'', ''sh'', ''zsh'', ''dash'', ''ksh'', ''csh'', ''fish'']"

definition rx_interpreters :: regex where
  "rx_interpreters = rx_words [''python'', ''python3'', ''node'', ''perl'', ''ruby'']"

text \<open>Each entry: the expression, the reason and the source text of the expression.\<close>

definition DANGEROUS_PATTERNS :: "(regex \<times> string \<times> string) list" where
  "DANGEROUS_PATTERNS =
     [(rx_lit ''$('', ''command substitution $(...)  is not allowed'', [CHR 0x5C] @ ''$'' @ [CHR 0x5C] @ ''(''),
      (rx_seq [rx_char CHR 0x60, RxStar (RxChr (\<lambda>c. c \<noteq> CHR 0x60)), rx_char CHR 0x60],
        ''backtick command substitution is not allowed'', [CHR 0x60] @ ''[^'' @ [CHR 0x60] @ '']*'' @ [CHR 0x60]),
      (rx_lit ''<('', ''process substitution <(...) is not allowed'', ''<'' @ [CHR 0x5C] @ ''(''),
      (rx_lit ''>('', ''process substitution >(...) is not allowed'', ''>'' @ [CHR 0x5C] @ ''(''),
      (rx_seq [rx_lit ''<<'', rx_opt (RxChr (\<lambda>c. c \<in> set ''<-''))], ''here documents are not allowed'', ''<<[<-]?''),
      (rx_seq [rx_char CHR ''|'', RxStar rx_space, rx_shells, RxWordB], ''piping to shell is not allowed'',
        [CHR 0x5C] @ ''|'' @ [CHR 0x5C] @ ''s*(bash|sh|zsh|dash|ksh|csh|fish)'' @ [CHR 0x5C] @ ''b''),
      (rx_seq [rx_char CHR ''|'', RxStar rx_space, rx_interpreters, rx_plus rx_space, rx_words [''-c'', ''-e''], RxWordB],
        ''piping to interpreter with inline code is not allowed'',
        [CHR 0x5C] @ ''|'' @ [CHR 0x5C] @ ''s*(python|python3|node|perl|ruby)'' @ [CHR 0x5C] @ ''s+(-c|-e)'' @ [CHR 0x5C] @ ''b''),
      (rx_seq [rx_char CHR ''|'', RxStar rx_space, rx_interpreters, RxStar rx_space, RxEol],
        ''piping to interpreter stdin is not allowed'',
        [CHR 0x5C] @ ''|'' @ [CHR 0x5C] @ ''s*(python|python3|node|perl|ruby)'' @ [CHR 0x5C] @ ''s*$'')]"

definition UNCONDITIONAL_BLOCKS :: "string list" where
  "UNCONDITIONAL_BLOCKS =
     [''bash'', ''sh'', ''zsh'', ''dash'', ''ksh'', ''csh'', ''fish'', ''tcsh'', ''eval'', ''exec'', ''source'', ''.'']"

text \<open>
  A read of \<open>INLINE_CODE_INTERPRETERS\<close>: the flags of an interpreter, or a value inherited
  from \<open>Object.prototype\<close>, which is no array.
\<close>

datatype inline_flags = FlagList "string list" | Inherited

definition inline_table :: "(string \<times> string list) list" where
  "inline_table =
     [(''python'', [''-c'']), (''python3'', [''-c'']), (''node'', [''-e'', ''--eval'']), (''perl'', [''-e'']),
      (''ruby'', [''-e'']), (''php'', [''-r''])]"

definition inherited_names :: "string list" where
  "inherited_names =
     [''constructor'', ''__defineGetter__'', ''__defineSetter__'', ''hasOwnProperty'', ''__lookupGetter__'',
      ''__lookupSetter__'', ''isPrototypeOf'', ''propertyIsEnumerable'', ''toString'', ''valueOf'', ''__proto__'',
      ''toLocaleString'']"

definition INLINE_CODE_INTERPRETERS :: "string \<Rightarrow> inline_flags option" where
  "INLINE_CODE_INTERPRETERS executable =
     (case map_of inline_table executable of
        Some flags \<Rightarrow> Some (FlagList flags)
      | None \<Rightarrow> if executable \<in> set inherited_names then Some Inherited else None)"

fun check_patterns :: "string \<Rightarrow> (regex \<times> string \<times> string) list \<Rightarrow> pattern_result" where
  "check_patterns command [] = \<lparr>pat_safe = True, pat_reason = None, pat_pattern = None\<rparr>"
| "check_patterns command ((pattern, reason, src) # ps) =
     (if rx_test pattern command then \<lparr>pat_safe = False, pat_reason = Some reason, pat_pattern = Some src\<rparr>
      else check_patterns command ps)"

definition checkDangerousPatterns :: "string \<Rightarrow> pattern_result" where
  "checkDangerousPatterns command = check_patterns command DANGEROUS_PATTERNS"

section \<open>Cleaning a command\<close>

definition normalizeCommand :: "string \<Rightarrow> string" where
  "normalizeCommand command = concat (map (\<lambda>c. if c = CHR 0x0A then '' ; '' else [c]) command)"

text \<open>The state of the loop: inside single quotes, inside double quotes, after a backslash.\<close>

type_synonym quote_state = "bool \<times> bool \<times> bool"

fun quote_next :: "quote_state \<Rightarrow> char \<Rightarrow> quote_state" where
  "quote_next (inSingle, inDouble, escape) c =
     (if escape then (inSingle, inDouble, False)
      else if c = CHR 0x5C then (inSingle, inDouble, True)
      else if c = CHR 0x27 \<and> \<not> inDouble then (\<not> inSingle, inDouble, False)
      else if c = CHR 0x22 \<and> \<not> inSingle then (inSingle, \<not> inDouble, False)
      else (inSingle, inDouble, False))"

fun quote_keeps :: "quote_state \<Rightarrow> char \<Rightarrow> bool" where
  "quote_keeps (inSingle, inDouble, escape) c =
     (if escape then False
      else if c = CHR 0x5C then False
      else if c = CHR 0x27 \<and> \<not> inDouble then False
      else if c = CHR 0x22 \<and> \<not> inSingle then False
      else \<not> inSingle \<and> \<not> inDouble)"

fun remove_quoted :: "quote_state \<Rightarrow> string \<Rightarrow> string" where
  "remove_quoted st [] = []"
| "remove_quoted st (c # s) = (if quote_keeps st c then [c] else []) @ remove_quoted (quote_next st c) s"

definition removeQuotedStrings :: "string \<Rightarrow> string" where
  "removeQuotedStrings command = remove_quoted (False, False, False) command"

section \<open>Tokens\<close>

text \<open>\<open>s.split(/\s+/)\<close>.\<close>

function split_spaces :: "string \<Rightarrow> string list" where
  "split_spaces s =
     (case dropWhile (\<lambda>c. \<not> is_space c) s of
        [] \<Rightarrow> [s]
      | c # r \<Rightarrow> takeWhile (\<lambda>c. \<not> is_space c) s # split_spaces (dropWhile is_space r))"
  by pat_completeness auto
termination
proof (relation "measure length")
  fix s c r
  assume "dropWhile (\<lambda>c. \<not> is_space c) s = c # r"
  then have "length (c # r) \<le> length s" by (metis length_dropWhile_le)
  then show "(dropWhile is_space r, s) \<in> measure length"
    using length_dropWhile_le [of is_space r] by simp
qed simp

declare split_spaces.simps [simp del]

definition extractExecutableName :: "string \<Rightarrow> string" where
  "extractExecutableName path = last (split_on CHR ''/'' path)"

definition isEnvAssignment :: "string \<Rightarrow> bool" where
  "isEnvAssignment token = rx_test (rx_seq
     [RxBol, RxChr (\<lambda>c. word_char c \<and> \<not> is_digit c), RxStar rx_wordchar, rx_char CHR ''='']) token"

definition is_redirection :: "string \<Rightarrow> bool" where
  "is_redirection token \<longleftrightarrow>
     rx_test (rx_seq [RxBol, RxStar (RxChr is_digit), RxChr (\<lambda>c. c \<in> set ''<>'')]) token
     \<or> token = ''<'' \<or> token = ''>''"

fun first_executable :: "string list \<Rightarrow> string option" where
  "first_executable [] = None"
| "first_executable (token # tokens) =
     (if isEnvAssignment token then first_executable tokens
      else if is_redirection token then first_executable tokens
      else Some (extractExecutableName token))"

definition parseSimpleCommand :: "string \<Rightarrow> string option" where
  "parseSimpleCommand command =
     (let cleaned = removeQuotedStrings (trim command);
          tokens = filter (\<lambda>t. t \<noteq> []) (split_spaces cleaned)
      in first_executable tokens)"

section \<open>The split at operators\<close>

record split_state =
  sp_commands :: "string list"
  sp_current :: string
  sp_i :: nat

definition push_command :: "split_state \<Rightarrow> string list" where
  "push_command st = (if trim (sp_current st) \<noteq> [] then sp_commands st @ [trim (sp_current st)] else sp_commands st)"

definition char_at :: "string \<Rightarrow> nat \<Rightarrow> char option" where
  "char_at s i = (if i < length s then Some (s ! i) else None)"

text \<open>One round of the loop.\<close>

definition split_step :: "string \<Rightarrow> split_state \<Rightarrow> split_state" where
  "split_step cleaned st =
     (let c = char_at cleaned (sp_i st); next_c = char_at cleaned (sp_i st + 1)
      in if c = Some CHR ''|'' \<and> next_c \<noteq> Some CHR ''|''
         then st\<lparr>sp_commands := push_command st, sp_current := [], sp_i := sp_i st + 1\<rparr>
         else if c = Some CHR ''&'' \<and> next_c = Some CHR ''&'' \<or> c = Some CHR ''|'' \<and> next_c = Some CHR ''|''
         then st\<lparr>sp_commands := push_command st, sp_current := [], sp_i := sp_i st + 2\<rparr>
         else if c = Some CHR '';''
         then st\<lparr>sp_commands := push_command st, sp_current := [], sp_i := sp_i st + 1\<rparr>
         else st\<lparr>sp_current := sp_current st @ [cleaned ! sp_i st], sp_i := sp_i st + 1\<rparr>)"

definition split_init :: split_state where
  "split_init = \<lparr>sp_commands = [], sp_current = [], sp_i = 0\<rparr>"

definition splitByOperators :: "string \<Rightarrow> string list" where
  "splitByOperators command =
     (let cleaned = removeQuotedStrings command
      in push_command (while (\<lambda>st. sp_i st < length cleaned) (split_step cleaned) split_init))"

section \<open>Inline code\<close>

fun find_flag :: "string \<Rightarrow> string \<Rightarrow> inline_flags \<Rightarrow> string list \<Rightarrow> string + bool" where
  "find_flag thrown executable flags [] = Inr False"
| "find_flag thrown executable flags (token # tokens) =
     (case flags of
        Inherited \<Rightarrow> Inl thrown
      | FlagList fs \<Rightarrow>
          if list_ex (\<lambda>flag. token = flag \<or> prefix (flag @ ''='') token) fs then Inr True
          else if token = ''|'' \<or> token = ''&&'' \<or> token = ''||'' \<or> token = '';'' then Inr False
          else find_flag thrown executable flags tokens)"

text \<open>The reason when the command is blocked.\<close>

definition isInlineCodeExecution :: "string \<Rightarrow> string \<Rightarrow> string \<Rightarrow> string + string option" where
  "isInlineCodeExecution thrown executable command =
     (case INLINE_CODE_INTERPRETERS executable of
        None \<Rightarrow> Inr None
      | Some flags \<Rightarrow>
          let tokens = split_spaces command
          in case find_index (\<lambda>t. extractExecutableName t = executable) tokens of
               None \<Rightarrow> Inr None
             | Some execIndex \<Rightarrow>
                 (case find_flag thrown executable flags (drop (execIndex + 1) tokens) of
                    Inl e \<Rightarrow> Inl e
                  | Inr blocked \<Rightarrow>
                      Inr (if blocked then Some (executable @ '' with inline code flag is not allowed'') else None)))"

section \<open>The parser\<close>

record parsed_command =
  pc_executables :: "string list"
  pc_success :: bool
  pc_error :: "string option"

definition without_sudo :: "string \<Rightarrow> string" where
  "without_sudo cmd = rx_remove (rx_seq [RxBol, RxStar rx_space, rx_lit ''sudo'', rx_plus rx_space]) cmd"

text \<open>One part of the command: what it adds to the executables and to the inline reasons.\<close>

definition scan_command :: "string \<Rightarrow> string \<Rightarrow> string + string list \<times> string list" where
  "scan_command thrown cmd =
     (case parseSimpleCommand cmd of
        None \<Rightarrow> Inr ([], [])
      | Some exec \<Rightarrow>
          if exec = [] then Inr ([], [])
          else
            let actual = (if exec = ''sudo''
                          then (case parseSimpleCommand (without_sudo cmd) of
                                  None \<Rightarrow> [] | Some e \<Rightarrow> if e = [] then [] else [e])
                          else [])
            in case isInlineCodeExecution thrown exec cmd of
                 Inl e \<Rightarrow> Inl e
               | Inr inline \<Rightarrow> Inr (exec # actual, case inline of None \<Rightarrow> [] | Some r \<Rightarrow> [r]))"

fun scan_commands :: "string \<Rightarrow> string list \<Rightarrow> string list \<times> string list \<Rightarrow> string + string list \<times> string list" where
  "scan_commands thrown [] (executables, seenInline) = Inr (executables, seenInline)"
| "scan_commands thrown (cmd # cmds) (executables, seenInline) =
     (case scan_command thrown cmd of
        Inl e \<Rightarrow> Inl e
      | Inr (es, rs) \<Rightarrow> scan_commands thrown cmds (executables @ es, seenInline @ rs))"

definition parseBashCommand :: "string \<Rightarrow> string \<Rightarrow> parsed_command" where
  "parseBashCommand thrown command =
     (case scan_commands thrown (splitByOperators (normalizeCommand command)) ([], []) of
        Inl e \<Rightarrow> \<lparr>pc_executables = [], pc_success = False, pc_error = Some e\<rparr>
      | Inr (executables, seenInline) \<Rightarrow>
          if seenInline \<noteq> [] then \<lparr>pc_executables = [], pc_success = False, pc_error = Some (hd seenInline)\<rparr>
          else \<lparr>pc_executables = dedup_by (\<lambda>e. e) executables, pc_success = True, pc_error = None\<rparr>)"

section \<open>The split by recursion on the text\<close>

text \<open>The pieces between the operators, empty ones included.\<close>

function ops_split :: "string \<Rightarrow> string list" where
  "ops_split [] = [[]]"
| "ops_split (c # s) =
     (if c = CHR ''|'' \<and> (s = [] \<or> hd s \<noteq> CHR ''|'') then [] # ops_split s
      else if s \<noteq> [] \<and> c = hd s \<and> (c = CHR ''&'' \<or> c = CHR ''|'') then [] # ops_split (tl s)
      else if c = CHR '';'' then [] # ops_split s
      else (c # hd (ops_split s)) # tl (ops_split s))"
  by pat_completeness auto
termination by (relation "measure length") (auto simp: less_Suc_eq_le)

definition segments :: "string list \<Rightarrow> string list" where
  "segments ps = filter (\<lambda>s. s \<noteq> []) (map trim ps)"

definition operator_segments :: "string \<Rightarrow> string list" where
  "operator_segments command = segments (ops_split (removeQuotedStrings command))"

lemma ops_split_ne [simp]: "ops_split s \<noteq> []"
  by (cases s) auto

lemma segments_simps [simp]: "segments [] = []" "segments (ps @ qs) = segments ps @ segments qs"
  "segments (p # ps) = (if trim p \<noteq> [] then [trim p] else []) @ segments ps"
  by (simp_all add: segments_def)

lemma push_segments: "push_command st = sp_commands st @ segments [sp_current st]"
  by (simp add: push_command_def)

text \<open>What the loop keeps: the parts pushed, the current part and the rest of the text together are all parts.\<close>

definition rest_pieces :: "string \<Rightarrow> string \<Rightarrow> string list" where
  "rest_pieces cur s = (cur @ hd (ops_split s)) # tl (ops_split s)"

definition split_inv :: "string \<Rightarrow> split_state \<Rightarrow> bool" where
  "split_inv cleaned st \<longleftrightarrow> sp_i st \<le> length cleaned
     \<and> sp_commands st @ segments (rest_pieces (sp_current st) (drop (sp_i st) cleaned)) = segments (ops_split cleaned)"

lemma rest_pieces_Nil [simp]: "rest_pieces [] s = ops_split s"
  by (simp add: rest_pieces_def)

lemma char_at_drop: "drop i s = c # r \<Longrightarrow> char_at s i = Some c \<and> s ! i = c \<and> i < length s"
  by (metis char_at_def drop_all linorder_not_le list.distinct(1) nth_via_drop)

lemma char_at_next: "drop i s = c # r \<Longrightarrow> char_at s (i + 1) = (case r of [] \<Rightarrow> None | d # _ \<Rightarrow> Some d)"
proof -
  assume a: "drop i s = c # r"
  then have "drop (i + 1) s = r" by (metis Suc_eq_plus1 drop_Suc list.sel(3) tl_drop)
  then show ?thesis by (cases r) (auto simp: char_at_def dest: char_at_drop)
qed

lemma split_step_eq:
  assumes "drop (sp_i st) cleaned = c # r"
  shows "split_step cleaned st =
     (if c = CHR ''|'' \<and> (r = [] \<or> hd r \<noteq> CHR ''|'') \<or> c = CHR '';''
      then st\<lparr>sp_commands := push_command st, sp_current := [], sp_i := sp_i st + 1\<rparr>
      else if r \<noteq> [] \<and> c = hd r \<and> (c = CHR ''&'' \<or> c = CHR ''|'')
      then st\<lparr>sp_commands := push_command st, sp_current := [], sp_i := sp_i st + 2\<rparr>
      else st\<lparr>sp_current := sp_current st @ [c], sp_i := sp_i st + 1\<rparr>)"
  using char_at_drop [OF assms] char_at_next [OF assms]
  by (cases r) (auto simp: split_step_def Let_def)

lemma ops_split_eq:
  "ops_split (c # s) =
     (if c = CHR ''|'' \<and> (s = [] \<or> hd s \<noteq> CHR ''|'') \<or> c = CHR '';'' then [] # ops_split s
      else if s \<noteq> [] \<and> c = hd s \<and> (c = CHR ''&'' \<or> c = CHR ''|'') then [] # ops_split (tl s)
      else (c # hd (ops_split s)) # tl (ops_split s))"
  by auto

lemma split_step_inv:
  assumes "split_inv cleaned st" "sp_i st < length cleaned"
  shows "split_inv cleaned (split_step cleaned st) \<and> sp_i st < sp_i (split_step cleaned st)"
proof -
  obtain c r where d: "drop (sp_i st) cleaned = c # r" using assms(2) by (metis Cons_nth_drop_Suc)
  then have r: "drop (Suc (sp_i st)) cleaned = r" by (metis drop_Suc list.sel(3) tl_drop)
  then have rr: "drop (Suc (Suc (sp_i st))) cleaned = tl r" by (metis drop_Suc tl_drop)
  have len: "r \<noteq> [] \<Longrightarrow> Suc (Suc (sp_i st)) \<le> length cleaned" using r by (metis drop_all not_less_eq_eq)
  have inv: "sp_commands st @ segments (rest_pieces (sp_current st) (c # r)) = segments (ops_split cleaned)"
    using assms(1) by (simp add: split_inv_def d)
  consider (one) "c = CHR ''|'' \<and> (r = [] \<or> hd r \<noteq> CHR ''|'') \<or> c = CHR '';''"
    | (two) "\<not> (c = CHR ''|'' \<and> (r = [] \<or> hd r \<noteq> CHR ''|'') \<or> c = CHR '';'')" "r \<noteq> [] \<and> c = hd r \<and> (c = CHR ''&'' \<or> c = CHR ''|'')"
    | (char) "\<not> (c = CHR ''|'' \<and> (r = [] \<or> hd r \<noteq> CHR ''|'') \<or> c = CHR '';'')" "\<not> (r \<noteq> [] \<and> c = hd r \<and> (c = CHR ''&'' \<or> c = CHR ''|''))"
    by blast
  then show ?thesis
  proof cases
    case one
    with inv have "push_command st @ segments (ops_split r) = segments (ops_split cleaned)"
      by (simp only: push_segments rest_pieces_def ops_split_eq if_True list.sel append_Nil2 append_assoc) (simp flip: segments_simps(2))
    with one show ?thesis using assms(2) r by (simp only: split_step_eq [OF d] if_True) (simp add: split_inv_def)
  next
    case two
    then have "ops_split (c # r) = [] # ops_split (tl r)" by (auto simp: ops_split_eq simp del: ops_split.simps)
    with inv have "push_command st @ segments (ops_split (tl r)) = segments (ops_split cleaned)"
      by (simp only: push_segments rest_pieces_def list.sel append_Nil2 append_assoc) (simp flip: segments_simps(2))
    moreover have "split_step cleaned st = st\<lparr>sp_commands := push_command st, sp_current := [], sp_i := sp_i st + 2\<rparr>"
      using two by (auto simp: split_step_eq [OF d])
    ultimately show ?thesis using rr len two by (simp add: split_inv_def)
  next
    case char
    with inv have "sp_commands st @ segments (rest_pieces (sp_current st @ [c]) r) = segments (ops_split cleaned)"
      by (simp only: rest_pieces_def ops_split_eq if_False list.sel append_assoc append_Cons append_Nil)
    with char show ?thesis using assms(2) r by (simp only: split_step_eq [OF d] if_False) (simp add: split_inv_def)
  qed
qed

lemma split_loop:
  "\<exists>st. while_option (\<lambda>st. sp_i st < length cleaned) (split_step cleaned) split_init = Some st
     \<and> split_inv cleaned st \<and> \<not> sp_i st < length cleaned"
proof -
  have init: "split_inv cleaned split_init" by (simp add: split_inv_def split_init_def)
  have "\<exists>st. while_option (\<lambda>st. sp_i st < length cleaned) (split_step cleaned) split_init = Some st"
  proof (rule measure_while_option_Some [where P = "split_inv cleaned" and f = "\<lambda>st. length cleaned - sp_i st", OF _ init])
    fix st assume "split_inv cleaned st" "sp_i st < length cleaned"
    from split_step_inv [OF this] show "split_inv cleaned (split_step cleaned st)
        \<and> length cleaned - sp_i (split_step cleaned st) < length cleaned - sp_i st"
      using \<open>sp_i st < length cleaned\<close> by auto
  qed
  then obtain st where st: "while_option (\<lambda>st. sp_i st < length cleaned) (split_step cleaned) split_init = Some st" by blast
  moreover have "split_inv cleaned st"
    using while_option_rule [where P = "split_inv cleaned", OF _ st init] split_step_inv by blast
  ultimately show ?thesis using while_option_stop [OF st] by blast
qed

lemma split_inv_end: "split_inv cleaned st \<Longrightarrow> \<not> sp_i st < length cleaned \<Longrightarrow> push_command st = segments (ops_split cleaned)"
  by (simp add: split_inv_def push_segments rest_pieces_def)

lemma splitByOperators_eq: "splitByOperators command = operator_segments command"
  using split_loop [of "removeQuotedStrings command"] split_inv_end
  by (auto simp: splitByOperators_def operator_segments_def while_def Let_def)

text \<open>C24: The operator scan ends on every command, and the parts it has pushed are those of the split by recursion.\<close>

theorem operator_scan_ends:
  "\<exists>st. while_option (\<lambda>st. sp_i st < length (removeQuotedStrings command)) (split_step (removeQuotedStrings command)) split_init
       = Some st \<and> push_command st = operator_segments command \<and> splitByOperators command = push_command st"
  using split_loop [of "removeQuotedStrings command"] split_inv_end splitByOperators_eq
  by (fastforce simp: operator_segments_def)

section \<open>Chains of commands\<close>

text \<open>A text that ends outside quotes and not after a backslash.\<close>

fun quote_run :: "quote_state \<Rightarrow> string \<Rightarrow> quote_state" where
  "quote_run st [] = st"
| "quote_run st (c # s) = quote_run (quote_next st c) s"

definition quotes_closed :: "string \<Rightarrow> bool" where
  "quotes_closed s \<longleftrightarrow> quote_run (False, False, False) s = (False, False, False)"

lemma remove_append: "remove_quoted st (a @ b) = remove_quoted st a @ remove_quoted (quote_run st a) b"
  by (induction a arbitrary: st) simp_all

lemma quote_run_append [simp]: "quote_run st (a @ b) = quote_run (quote_run st a) b"
  by (induction a arbitrary: st) simp_all

lemma normalize_append: "normalizeCommand (a @ b) = normalizeCommand a @ normalizeCommand b"
  by (simp add: normalizeCommand_def)

lemma quote_run_normalize [simp]: "quote_run st (normalizeCommand s) = quote_run st s"
proof (induction s arbitrary: st)
  case (Cons c s)
  obtain a b e where "st = (a, b, e)" by (cases st) auto
  with Cons show ?case by (simp add: normalizeCommand_def)
qed (simp add: normalizeCommand_def)

text \<open>The operators of a chain, as they stand between two commands.\<close>

definition chain_ops :: "string list" where
  "chain_ops = ['' | '', '' || '', '' && '', '' ; '', [CHR 0x0A]]"

lemma chain_normal:
  "op \<in> set chain_ops \<Longrightarrow> normalizeCommand op \<in> {'' | '', '' || '', '' && '', '' ; ''}"
  by (auto simp: chain_ops_def normalizeCommand_def)

lemma remove_chain:
  assumes "quotes_closed a" "op \<in> set chain_ops"
  shows "removeQuotedStrings (normalizeCommand (a @ op @ b)) =
     removeQuotedStrings (normalizeCommand a) @ normalizeCommand op @ removeQuotedStrings (normalizeCommand b)"
proof -
  have "remove_quoted (False, False, False) (p @ x) = p @ remove_quoted (False, False, False) x"
    if "p = '' | '' \<or> p = '' || '' \<or> p = '' && '' \<or> p = '' ; ''" for p x using that by (elim disjE) simp_all
  with chain_normal [OF assms(2)] have "remove_quoted (False, False, False) (normalizeCommand op @ x)
      = normalizeCommand op @ remove_quoted (False, False, False) x" for x by blast
  with assms(1) show ?thesis
    by (simp add: normalize_append removeQuotedStrings_def remove_append [of _ "normalizeCommand a"] quotes_closed_def)
qed

lemma hd_append_cases: "s \<noteq> [] \<Longrightarrow> hd (s @ b) = hd s" "s \<noteq> [] \<Longrightarrow> tl (s @ b) = tl s @ b"
  by (cases s; simp)+

lemma ops_split_append:
  assumes "b \<noteq> []" "hd b \<noteq> CHR ''|''" "hd b \<noteq> CHR ''&''"
  shows "ops_split (a @ b) = butlast (ops_split a) @ (last (ops_split a) @ hd (ops_split b)) # tl (ops_split b)"
proof (induction a rule: ops_split.induct)
  case (2 c s)
  show ?case
  proof (cases "s = []")
    case True
    obtain d b' where b: "b = d # b'" "d \<noteq> CHR ''|''" "d \<noteq> CHR ''&''" using assms by (cases b) auto
    then have "ops_split (c # b) = (if c = CHR ''|'' \<or> c = CHR '';'' then [] # ops_split b
        else (c # hd (ops_split b)) # tl (ops_split b))" by (simp only: ops_split_eq [of c b]) auto
    with True show ?thesis by simp
  next
    case False
    note h = hd_append_cases [OF False]
    consider (one) "c = CHR ''|'' \<and> hd s \<noteq> CHR ''|''" | (two) "c = hd s \<and> (c = CHR ''&'' \<or> c = CHR ''|'')"
      | (semi) "c = CHR '';''" | (char) "\<not> (c = CHR ''|'' \<and> hd s \<noteq> CHR ''|'')" "\<not> (c = hd s \<and> (c = CHR ''&'' \<or> c = CHR ''|''))" "c \<noteq> CHR '';''"
      by blast
    then show ?thesis
    proof cases
      case one
      with False have e: "ops_split (c # x) = [] # ops_split x" if "x = s \<or> x = s @ b" for x
        using that h by (auto simp: ops_split_eq simp del: ops_split.simps)
      from 2(1) one False have "ops_split (s @ b) = butlast (ops_split s) @ (last (ops_split s) @ hd (ops_split b)) # tl (ops_split b)" by blast
      then show ?thesis by (simp add: e del: ops_split.simps)
    next
      case two
      with False have e: "ops_split (c # s) = [] # ops_split (tl s)" "ops_split (c # s @ b) = [] # ops_split (tl s @ b)"
        using h by (auto simp: ops_split_eq simp del: ops_split.simps)
      from 2(2) two False have "ops_split (tl s @ b) = butlast (ops_split (tl s)) @ (last (ops_split (tl s)) @ hd (ops_split b)) # tl (ops_split b)"
        by auto
      then show ?thesis by (simp add: e del: ops_split.simps)
    next
      case semi
      then have e: "ops_split (c # x) = [] # ops_split x" for x
        by (auto simp: ops_split_eq simp del: ops_split.simps)
      from 2(3) semi False have "ops_split (s @ b) = butlast (ops_split s) @ (last (ops_split s) @ hd (ops_split b)) # tl (ops_split b)" by auto
      then show ?thesis by (simp add: e del: ops_split.simps)
    next
      case char
      with False have e: "ops_split (c # x) = (c # hd (ops_split x)) # tl (ops_split x)" if "x = s \<or> x = s @ b" for x
        using that h by (auto simp: ops_split_eq simp del: ops_split.simps)
      obtain p ps where ps: "ops_split s = p # ps" by (cases "ops_split s") auto
      from 2(4) char False have "ops_split (s @ b) = butlast (ops_split s) @ (last (ops_split s) @ hd (ops_split b)) # tl (ops_split b)" by blast
      then show ?thesis by (cases ps) (simp_all add: e ps del: ops_split.simps)
    qed
  qed
qed simp

lemma trim_append_space [simp]: "is_space c \<Longrightarrow> trim (s @ [c]) = trim s" 
  by (cases "dropWhile is_space s = []") (auto simp: trim_def dropWhile_append dest: set_dropWhileD)

lemma trim_Cons_space [simp]: "is_space c \<Longrightarrow> trim (c # s) = trim s"
  by (simp add: trim_def)

lemma is_space_blank [simp]: "is_space CHR '' ''"
  by (simp add: is_space_def)

lemma ops_split_op:
  assumes "op \<in> {'' | '', '' || '', '' && '', '' ; ''}"
  shows "\<exists>x. hd (ops_split (op @ b)) = '' '' \<and> tl (ops_split (op @ b)) = ('' '' @ x) # tl (ops_split b) \<and> x = hd (ops_split b)"
  using assms by auto

lemma chain_segments:
  assumes "quotes_closed a" "op \<in> set chain_ops"
  shows "splitByOperators (normalizeCommand (a @ op @ b)) =
     splitByOperators (normalizeCommand a) @ splitByOperators (normalizeCommand b)"
proof -
  let ?a = "removeQuotedStrings (normalizeCommand a)" and ?b = "removeQuotedStrings (normalizeCommand b)"
    and ?op = "normalizeCommand op"
  have op: "?op \<in> {'' | '', '' || '', '' && '', '' ; ''}" using chain_normal [OF assms(2)] .
  then have "?op @ ?b \<noteq> []" "hd (?op @ ?b) \<noteq> CHR ''|''" "hd (?op @ ?b) \<noteq> CHR ''&''" by auto
  from ops_split_append [OF this, of ?a] ops_split_op [OF op, of ?b]
  have sp: "ops_split (?a @ ?op @ ?b) = butlast (ops_split ?a) @ (last (ops_split ?a) @ '' '') # ('' '' @ hd (ops_split ?b)) # tl (ops_split ?b)"
    by auto
  have "segments (ops_split ?a) = segments (butlast (ops_split ?a)) @ segments [last (ops_split ?a)]"
    by (metis append_butlast_last_id ops_split_ne segments_simps(2))
  moreover have "segments (ops_split ?b) = segments [hd (ops_split ?b)] @ segments (tl (ops_split ?b))"
    by (metis append_Cons append_Nil list.collapse ops_split_ne segments_simps(2))
  ultimately show ?thesis
    by (simp add: splitByOperators_eq operator_segments_def remove_chain [OF assms] sp)
qed

lemma scan_append:
  "scan_commands thrown (xs @ ys) st = (case scan_commands thrown xs st of Inl e \<Rightarrow> Inl e | Inr st' \<Rightarrow> scan_commands thrown ys st')"
  by (induction thrown xs st rule: scan_commands.induct) (auto split: sum.split)

lemma scan_offset:
  "scan_commands thrown xs (es, rs) =
     (case scan_commands thrown xs ([], []) of Inl e \<Rightarrow> Inl e | Inr (es', rs') \<Rightarrow> Inr (es @ es', rs @ rs'))"
proof (induction xs arbitrary: es rs)
  case (Cons x xs)
  show ?case
  proof (cases "scan_command thrown x")
    case (Inr p)
    obtain x1 x2 where "p = (x1, x2)" by (cases p)
    with Inr show ?thesis
      using Cons [of "es @ x1" "rs @ x2"] Cons [of x1 x2] by (auto split: sum.splits)
  qed simp
qed simp

text \<open>The parser on a list of parts.\<close>

definition parsed_parts :: "string + string list \<times> string list \<Rightarrow> parsed_command" where
  "parsed_parts r =
     (case r of
        Inl e \<Rightarrow> \<lparr>pc_executables = [], pc_success = False, pc_error = Some e\<rparr>
      | Inr (executables, seenInline) \<Rightarrow>
          if seenInline \<noteq> [] then \<lparr>pc_executables = [], pc_success = False, pc_error = Some (hd seenInline)\<rparr>
          else \<lparr>pc_executables = dedup_by (\<lambda>e. e) executables, pc_success = True, pc_error = None\<rparr>)"

definition scan_parts :: "string \<Rightarrow> string \<Rightarrow> string + string list \<times> string list" where
  "scan_parts thrown command = scan_commands thrown (splitByOperators (normalizeCommand command)) ([], [])"

lemma parse_parts: "parseBashCommand thrown command = parsed_parts (scan_parts thrown command)"
  by (simp add: parseBashCommand_def parsed_parts_def scan_parts_def)

lemma scan_chain:
  assumes "quotes_closed a" "op \<in> set chain_ops"
  shows "scan_parts thrown (a @ op @ b) =
     (case scan_parts thrown a of Inl e \<Rightarrow> Inl e
      | Inr (es, rs) \<Rightarrow> (case scan_parts thrown b of Inl e \<Rightarrow> Inl e | Inr (es', rs') \<Rightarrow> Inr (es @ es', rs @ rs')))"
proof (cases "scan_parts thrown a")
  case (Inr p)
  obtain es rs where "p = (es, rs)" by (cases p)
  with Inr show ?thesis
    unfolding scan_parts_def chain_segments [OF assms] scan_append
    by (simp add: scan_offset [of thrown "splitByOperators (normalizeCommand b)" es rs])
qed (simp add: scan_parts_def chain_segments [OF assms] scan_append)

lemma dedup_from_append: "dedup_from seen key (xs @ ys) = dedup_from seen key xs @ dedup_from (seen \<union> key ` set xs) key ys"
  by (induction xs arbitrary: seen) (auto simp: insert_absorb)

lemma dedup_from_again: "T \<subseteq> seen \<Longrightarrow> dedup_from seen key (dedup_from T key xs) = dedup_from seen key xs"
proof (induction xs arbitrary: seen T)
  case (Cons x xs)
  have "T \<subseteq> insert (key x) seen" "insert (key x) T \<subseteq> insert (key x) seen" using Cons.prems by auto
  with Cons show ?case by (cases "key x \<in> T"; cases "key x \<in> seen") (auto simp: insert_absorb)
qed simp

lemma dedup_by_again: "dedup_by key (dedup_by key xs @ dedup_by key ys) = dedup_by key (xs @ ys)"
  using dedup_from_keys [of key "{}" xs]
  by (simp add: dedup_by_def dedup_from_append dedup_from_again)

lemma parse_chain_eq:
  assumes "quotes_closed a" "op \<in> set chain_ops"
  shows "pc_success (parseBashCommand thrown (a @ op @ b)) \<longleftrightarrow>
       pc_success (parseBashCommand thrown a) \<and> pc_success (parseBashCommand thrown b)"
    "pc_success (parseBashCommand thrown (a @ op @ b)) \<Longrightarrow> pc_executables (parseBashCommand thrown (a @ op @ b)) =
       dedup_by (\<lambda>e. e) (pc_executables (parseBashCommand thrown a) @ pc_executables (parseBashCommand thrown b))"
proof -
  note eqs = parse_parts scan_chain [OF assms] parsed_parts_def
  show "pc_success (parseBashCommand thrown (a @ op @ b)) \<longleftrightarrow>
       pc_success (parseBashCommand thrown a) \<and> pc_success (parseBashCommand thrown b)"
    by (cases "scan_parts thrown a"; cases "scan_parts thrown b") (simp_all add: eqs split: prod.split)
  show "pc_executables (parseBashCommand thrown (a @ op @ b)) =
       dedup_by (\<lambda>e. e) (pc_executables (parseBashCommand thrown a) @ pc_executables (parseBashCommand thrown b))"
    if "pc_success (parseBashCommand thrown (a @ op @ b))"
    using that by (cases "scan_parts thrown a"; cases "scan_parts thrown b")
      (simp_all add: eqs dedup_by_again split: prod.splits if_splits)
qed

text \<open>C23: A chain of commands parses exactly when its commands parse, to the executables of both: no command hides behind an
  operator or a newline.\<close>

theorem parse_chain:
  assumes "quotes_closed a" "op \<in> set chain_ops"
  shows "(pc_success (parseBashCommand thrown (a @ op @ b)) \<longleftrightarrow>
       pc_success (parseBashCommand thrown a) \<and> pc_success (parseBashCommand thrown b))
    \<and> (pc_success (parseBashCommand thrown (a @ op @ b)) \<longrightarrow>
         pc_executables (parseBashCommand thrown (a @ op @ b)) =
           dedup_by (\<lambda>e. e) (pc_executables (parseBashCommand thrown a) @ pc_executables (parseBashCommand thrown b)))"
  using parse_chain_eq [OF assms] by blast

theorem parse_chain_witness:
  "pc_executables (parseBashCommand ''error'' (''git add . '' @ [CHR 0x0A] @ ''sudo rm x | git gc'')) = [''git'', ''sudo'', ''rm'']"
proof -
  have "quotes_closed ''git add . ''" "[CHR 0x0A] \<in> set chain_ops" by (simp_all add: quotes_closed_def chain_ops_def)
  from parse_chain [OF this, of "''error''" "''sudo rm x | git gc''"]
  have "pc_success (parseBashCommand ''error'' (''git add . '' @ [CHR 0x0A] @ ''sudo rm x | git gc'')) \<longrightarrow>
     pc_executables (parseBashCommand ''error'' (''git add . '' @ [CHR 0x0A] @ ''sudo rm x | git gc'')) =
     dedup_by (\<lambda>e. e) (pc_executables (parseBashCommand ''error'' ''git add . '') @ pc_executables (parseBashCommand ''error'' ''sudo rm x | git gc''))"
    by blast
  moreover have "pc_success (parseBashCommand ''error'' (''git add . '' @ [CHR 0x0A] @ ''sudo rm x | git gc''))" by code_simp
  moreover have "dedup_by (\<lambda>e. e) (pc_executables (parseBashCommand ''error'' ''git add . '')
      @ pc_executables (parseBashCommand ''error'' ''sudo rm x | git gc'')) = [''git'', ''sudo'', ''rm'']" by code_simp
  ultimately show ?thesis by simp
qed

section \<open>The first word of a command\<close>

text \<open>A plain word: no quote, backslash, blank, operator, slash, assignment or redirection in it.\<close>

definition plain_word :: "string \<Rightarrow> bool" where
  "plain_word w \<longleftrightarrow> w \<noteq> [] \<and> list_all (\<lambda>c. is_lower_alnum c \<or> c \<in> set ''.-_'') w"

lemma plain_char:
  "is_lower_alnum c \<or> c \<in> set ''.-_'' \<Longrightarrow> \<not> is_space c \<and> c \<notin> {CHR 0x27, CHR 0x22, CHR 0x5C, CHR 0x0A, CHR ''|'', CHR ''&'', CHR '';'',
     CHR ''/'', CHR ''='', CHR ''<'', CHR ''>''}"
  by (auto simp: is_lower_alnum_def is_space_def Let_def)

lemma plain_simps:
  assumes "list_all (\<lambda>c. is_lower_alnum c \<or> c \<in> set ''.-_'') w"
  shows "normalizeCommand w = w" "remove_quoted (False, False, False) (w @ s) = w @ remove_quoted (False, False, False) s"
    "ops_split (w @ s) = (w @ hd (ops_split s)) # tl (ops_split s)" "\<forall>c\<in>set w. \<not> is_space c"
    "{CHR ''/'', CHR ''='', CHR ''<'', CHR ''>''} \<inter> set w = {}"
proof -
  have ch: "\<forall>c\<in>set w. \<not> is_space c \<and> c \<notin> {CHR 0x27, CHR 0x22, CHR 0x5C, CHR 0x0A, CHR ''|'', CHR ''&'', CHR '';'', CHR ''/'', CHR ''='', CHR ''<'', CHR ''>''}"
  proof
    fix c assume "c \<in> set w"
    with assms have "is_lower_alnum c \<or> c \<in> set ''.-_''" by (simp add: list_all_iff)
    then show "\<not> is_space c \<and> c \<notin> {CHR 0x27, CHR 0x22, CHR 0x5C, CHR 0x0A, CHR ''|'', CHR ''&'', CHR '';'', CHR ''/'', CHR ''='', CHR ''<'', CHR ''>''}"
      by (rule plain_char)
  qed
  then show "\<forall>c\<in>set w. \<not> is_space c" "{CHR ''/'', CHR ''='', CHR ''<'', CHR ''>''} \<inter> set w = {}" by blast+
  from ch show "normalizeCommand w = w" by (induction w) (simp_all add: normalizeCommand_def)
  from ch show "remove_quoted (False, False, False) (w @ s) = w @ remove_quoted (False, False, False) s" by (induction w) simp_all
  from ch show "ops_split (w @ s) = (w @ hd (ops_split s)) # tl (ops_split s)" by (induction w) (simp_all add: ops_split_eq del: ops_split.simps)
qed

text \<open>Quoted text is gone after one removal, so that the parts of a split are not touched again.\<close>

lemma remove_unquoted: "set s \<inter> {CHR 0x27, CHR 0x22, CHR 0x5C} = {} \<Longrightarrow> removeQuotedStrings s = s"
  unfolding removeQuotedStrings_def by (induction s) auto

lemma remove_clean: "set (remove_quoted st s) \<inter> {CHR 0x27, CHR 0x22, CHR 0x5C} = {}"
proof (induction s arbitrary: st)
  case (Cons c s)
  obtain a b e where "st = (a, b, e)" by (cases st)
  with Cons show ?case by auto
qed simp

lemma ops_split_set: "p \<in> set (ops_split s) \<Longrightarrow> set p \<subseteq> set s"
proof (induction s arbitrary: p rule: ops_split.induct)
  case (2 c s)
  have tl: "x \<in> set (tl s) \<Longrightarrow> x \<in> set s" for x by (cases s) auto
  have hd_tl: "hd (ops_split s) \<in> set (ops_split s)" "q \<in> set (tl (ops_split s)) \<Longrightarrow> q \<in> set (ops_split s)" for q
    by (simp_all add: list.set_sel(2))
  consider (one) "ops_split (c # s) = [] # ops_split s" "c = CHR ''|'' \<and> (s = [] \<or> hd s \<noteq> CHR ''|'')"
    | (two) "ops_split (c # s) = [] # ops_split (tl s)" "\<not> (c = CHR ''|'' \<and> (s = [] \<or> hd s \<noteq> CHR ''|''))"
        "s \<noteq> [] \<and> c = hd s \<and> (c = CHR ''&'' \<or> c = CHR ''|'')"
    | (semi) "ops_split (c # s) = [] # ops_split s" "\<not> (c = CHR ''|'' \<and> (s = [] \<or> hd s \<noteq> CHR ''|''))"
        "\<not> (s \<noteq> [] \<and> c = hd s \<and> (c = CHR ''&'' \<or> c = CHR ''|''))" "c = CHR '';''"
    | (char) "ops_split (c # s) = (c # hd (ops_split s)) # tl (ops_split s)" "\<not> (c = CHR ''|'' \<and> (s = [] \<or> hd s \<noteq> CHR ''|''))"
        "\<not> (s \<noteq> [] \<and> c = hd s \<and> (c = CHR ''&'' \<or> c = CHR ''|''))" "c \<noteq> CHR '';''"
    by (cases "c = CHR ''|'' \<and> (s = [] \<or> hd s \<noteq> CHR ''|'')"; cases "s \<noteq> [] \<and> c = hd s \<and> (c = CHR ''&'' \<or> c = CHR ''|'')") auto
  then show ?case
  proof cases
    case one
    from "2.prems" have "p = [] \<or> p \<in> set (ops_split s)" by (simp only: one(1)) auto
    with 2(1) [OF one(2)] show ?thesis by (auto dest!: subsetD)
  next
    case two
    from "2.prems" have "p = [] \<or> p \<in> set (ops_split (tl s))" by (simp only: two(1)) auto
    with 2(2) [OF two(2,3)] tl show ?thesis by (auto dest!: subsetD)
  next
    case semi
    from "2.prems" have "p = [] \<or> p \<in> set (ops_split s)" by (simp only: semi(1)) auto
    with 2(3) [OF semi(2,3,4)] show ?thesis by (auto dest!: subsetD)
  next
    case char
    have "set q \<subseteq> set s" if "q \<in> set (ops_split s)" for q using 2(4) [OF char(2,3,4)] that by blast
    moreover from "2.prems" have "p = c # hd (ops_split s) \<or> p \<in> set (ops_split s)" using hd_tl(2) by (simp only: char(1)) auto
    ultimately show ?thesis using hd_tl(1) by fastforce
  qed
qed simp

lemma rx_seq_simps: "matches (rx_seq []) s = [s]" "matches (rx_seq (r # rs)) s = concat (map (matches (rx_seq rs)) (matches r s))"
  by simp_all

lemma env_assignment_eq: "isEnvAssignment t \<Longrightarrow> CHR ''='' \<in> set t"
  unfolding isEnvAssignment_def test_ex rx_char_def rx_wordchar_def
  by (auto simp: match_Chr match_star simp del: matches.simps(2))

lemma redirection_eq: "is_redirection t \<Longrightarrow> CHR ''<'' \<in> set t \<or> CHR ''>'' \<in> set t"
  unfolding is_redirection_def test_ex
  by (auto simp: match_Chr match_star simp del: matches.simps(2))

lemma trim_word:
  assumes "w \<noteq> []" "\<forall>c\<in>set w. \<not> is_space c"
  shows "trim (w @ z) = w @ rev (dropWhile is_space (rev z))"
proof -
  have a: "dropWhile is_space (w @ z) = w @ z" using assms by (cases w) auto
  have b: "dropWhile is_space (rev w) = rev w" using assms by (cases "rev w") auto
  show ?thesis
  proof (cases "\<forall>c\<in>set (rev z). is_space c")
    case True
    then have e: "dropWhile is_space (rev z) = []" by (simp only: dropWhile_eq_Nil_conv)
    have "dropWhile is_space (rev z @ rev w) = rev w" using True b by (subst dropWhile_append2) auto
    then show ?thesis unfolding trim_def a rev_append e by simp
  next
    case False
    then obtain c where "c \<in> set (rev z)" "\<not> is_space c" by blast
    then have "dropWhile is_space (rev z @ rev w) = dropWhile is_space (rev z) @ rev w" by (rule dropWhile_append1)
    then show ?thesis unfolding trim_def a rev_append by simp
  qed
qed

lemma split_spaces_word:
  assumes "\<forall>c\<in>set w. \<not> is_space c" "y = [] \<or> is_space (hd y)"
  shows "\<exists>ts. split_spaces (w @ y) = w # ts"
proof (cases y)
  case Nil
  have dw: "dropWhile (\<lambda>c. \<not> is_space c) w = []" using assms(1) by (simp add: dropWhile_eq_Nil_conv)
  show ?thesis by (simp add: Nil split_spaces.simps [of w] dw del: dropWhile_eq_Nil_conv)
next
  case (Cons c r)
  with assms have "dropWhile (\<lambda>c. \<not> is_space c) (w @ y) = c # r" "takeWhile (\<lambda>c. \<not> is_space c) (w @ y) = w"
    by (auto simp: dropWhile_append takeWhile_append2)
  then show ?thesis by (subst split_spaces.simps) simp
qed

lemma simple_word:
  assumes "plain_word w" "z = [] \<or> is_space (hd z)" "set z \<inter> {CHR 0x27, CHR 0x22, CHR 0x5C} = {}"
  shows "first_executable (filter (\<lambda>t. t \<noteq> []) (split_spaces (removeQuotedStrings (w @ z)))) = Some w"
proof -
  have w: "list_all (\<lambda>c. is_lower_alnum c \<or> c \<in> set ''.-_'') w" "w \<noteq> []" using assms(1) by (simp_all add: plain_word_def)
  note p = plain_simps [OF w(1)]
  have rm: "removeQuotedStrings (w @ z) = w @ z"
    using p(2) [of z] remove_unquoted [OF assms(3)] by (simp only: removeQuotedStrings_def)
  obtain ts where ts: "split_spaces (w @ z) = w # ts" using split_spaces_word [OF p(4) assms(2)] by blast
  have "\<not> isEnvAssignment w" "\<not> is_redirection w" using p(5) env_assignment_eq [of w] redirection_eq [of w] by blast+
  moreover have "extractExecutableName w = w" using p(5) by (simp add: extractExecutableName_def)
  ultimately show ?thesis using w(2) by (simp add: rm ts)
qed

lemma trimmed_tail:
  obtains v where "y = rev (dropWhile is_space (rev y)) @ v"
  by (rule that [of "rev (takeWhile is_space (rev y))"]) (simp flip: rev_append)

lemma first_word_exec:
  assumes "plain_word w" "y = [] \<or> is_space (hd y)" "set y \<inter> {CHR 0x27, CHR 0x22, CHR 0x5C} = {}"
  shows "parseSimpleCommand (trim (w @ y)) = Some w"
proof -
  have w: "list_all (\<lambda>c. is_lower_alnum c \<or> c \<in> set ''.-_'') w" "w \<noteq> []" using assms(1) by (simp_all add: plain_word_def)
  note p = plain_simps [OF w(1)]
  obtain z v where z: "z = rev (dropWhile is_space (rev y))" and y: "y = z @ v" using trimmed_tail [of y] by blast
  have "z = [] \<or> is_space (hd z)" using assms(2) y by (cases z) simp_all
  moreover have "set z \<inter> {CHR 0x27, CHR 0x22, CHR 0x5C} = {}"
  proof -
    have "set z \<subseteq> set y" using y by simp
    with assms(3) show ?thesis by blast
  qed
  ultimately have "first_executable (filter (\<lambda>t. t \<noteq> []) (split_spaces (removeQuotedStrings (w @ z)))) = Some w"
    by (rule simple_word [OF assms(1)])
  moreover have "trim (trim (w @ y)) = w @ z" unfolding trim_idem z by (rule trim_word [OF w(2) p(4)])
  ultimately show ?thesis by (simp only: parseSimpleCommand_def Let_def)
qed

text \<open>The executable a command starts with is among those found.\<close>

lemma first_word_found:
  assumes "plain_word w" "s = [] \<or> (\<exists>r. s = CHR '' '' # r)" "pc_success (parseBashCommand thrown (w @ s))"
  shows "w \<in> set (pc_executables (parseBashCommand thrown (w @ s)))"
proof -
  have w: "list_all (\<lambda>c. is_lower_alnum c \<or> c \<in> set ''.-_'') w" "w \<noteq> []" using assms(1) by (simp_all add: plain_word_def)
  note p = plain_simps [OF w(1)]
  define t where "t = remove_quoted (False, False, False) (normalizeCommand s)"
  define y where "y = hd (ops_split t)"
  have t: "t = [] \<or> (\<exists>r. t = CHR '' '' # r)" using assms(2) by (auto simp: t_def normalizeCommand_def)
  then have y: "y = [] \<or> is_space (hd y)" by (auto simp: y_def)
  have "set y \<subseteq> set t" unfolding y_def by (rule ops_split_set) simp
  then have clean: "set y \<inter> {CHR 0x27, CHR 0x22, CHR 0x5C} = {}" using remove_clean [of _ "normalizeCommand s"] unfolding t_def by blast
  have ne: "trim (w @ y) \<noteq> []" using trim_word [OF w(2) p(4), of y] w(2) by simp
  have "splitByOperators (normalizeCommand (w @ s)) = trim (w @ y) # segments (tl (ops_split t))"
    unfolding splitByOperators_eq operator_segments_def removeQuotedStrings_def normalize_append p(1) p(2) t_def [symmetric] p(3)
    using ne by (simp add: y_def)
  then have "scan_parts thrown (w @ s) = scan_commands thrown (trim (w @ y) # segments (tl (ops_split t))) ([], [])"
    by (simp add: scan_parts_def)
  moreover have "(\<exists>e. scan_command thrown (trim (w @ y)) = Inl e)
      \<or> (\<exists>es rs. scan_command thrown (trim (w @ y)) = Inr (w # es, rs))"
    using first_word_exec [OF assms(1) y clean] w(2) by (auto simp: scan_command_def Let_def split: sum.split)
  ultimately have "(\<exists>e. scan_parts thrown (w @ s) = Inl e) \<or> (\<exists>es rs. scan_parts thrown (w @ s) = Inr (w # es, rs))"
    by (auto simp: scan_offset [of thrown _ "_ # _"] split: sum.split)
  then show ?thesis using assms(3) dedup_by_keys [of "\<lambda>e. e"] by (fastforce simp: parse_parts parsed_parts_def split: if_splits)
qed

section \<open>What the patterns refuse\<close>

lemma check_patterns_safe: "pat_safe (check_patterns command ps) \<longleftrightarrow> (\<forall>(r, _)\<in>set ps. \<not> rx_test r command)"
  by (induction ps) (auto split: if_splits)

lemma check_patterns_reason: "\<not> pat_safe (check_patterns command ps) \<Longrightarrow> pat_reason (check_patterns command ps) \<noteq> None"
  by (induction ps) auto

lemma test_seq2: "rx_test (rx_seq rs) s \<longleftrightarrow> (\<exists>u v t. s = u @ v \<and> t \<in> set (matches (rx_seq rs) (rx_at u v)))"
  by (rule test_ex)

text \<open>A substitution, of a command by \<open>$(\<close> or backticks or of a process, and a here document.\<close>

definition has_substitution :: "string \<Rightarrow> bool" where
  "has_substitution s \<longleftrightarrow> sublist ''$('' s \<or> sublist ''<('' s \<or> sublist ''>('' s \<or> sublist ''<<'' s
     \<or> (\<exists>u v w. s = u @ CHR 0x60 # v @ CHR 0x60 # w)"

lemma backtick_test:
  "rx_test (rx_seq [rx_char CHR 0x60, RxStar (RxChr (\<lambda>c. c \<noteq> CHR 0x60)), rx_char CHR 0x60]) (u @ CHR 0x60 # v @ CHR 0x60 # w)"
proof -
  obtain x y where v: "v @ CHR 0x60 # w = x @ CHR 0x60 # y" "CHR 0x60 \<notin> set x"
    using split_list_first [of "CHR 0x60" "v @ CHR 0x60 # w"] by auto
  let ?s = "rx_at u (CHR 0x60 # x @ CHR 0x60 # y)"
  have "first_match (rx_seq [rx_char CHR 0x60, RxStar (RxChr (\<lambda>c. c \<noteq> CHR 0x60)), rx_char CHR 0x60]) ?s
      (rx_walk [CHR 0x60] y (rx_walk x (CHR 0x60 # y) (rx_walk [CHR 0x60] (x @ CHR 0x60 # y) ?s)))"
  proof (intro first_seq)
    show "first_match (rx_char CHR 0x60) ?s (rx_walk [CHR 0x60] (x @ CHR 0x60 # y) ?s)"
      by (simp add: first_match_def rx_char_def rx_step_walk)
    show "first_match (RxStar (RxChr (\<lambda>c. c \<noteq> CHR 0x60))) (rx_walk [CHR 0x60] (x @ CHR 0x60 # y) ?s)
        (rx_walk x (CHR 0x60 # y) (rx_walk [CHR 0x60] (x @ CHR 0x60 # y) ?s))"
      using v(2) by (intro first_star) (auto simp: list_all_iff)
    show "first_match (rx_char CHR 0x60) (rx_walk x (CHR 0x60 # y) (rx_walk [CHR 0x60] (x @ CHR 0x60 # y) ?s))
        (rx_walk [CHR 0x60] y (rx_walk x (CHR 0x60 # y) (rx_walk [CHR 0x60] (x @ CHR 0x60 # y) ?s)))"
      by (simp add: first_match_def rx_char_def rx_step_walk)
  qed (rule first_seq_Nil)
  from first_ne [OF this] show ?thesis unfolding test_ex v(1) by blast
qed

lemma here_document_test:
  assumes "sublist ''<<'' s"
  shows "rx_test (rx_seq [rx_lit ''<<'', rx_opt (RxChr (\<lambda>c. c \<in> set ''<-''))]) s"
proof -
  obtain u v where s: "s = u @ ''<<'' @ v" using assms by (auto simp: sublist_def)
  let ?t = "rx_walk ''<<'' v (rx_at u (''<<'' @ v))"
  have "?t \<in> set (matches (rx_lit ''<<'') (rx_at u (''<<'' @ v)))" unfolding match_lit by (intro exI conjI) simp_all
  moreover have "?t \<in> set (matches (rx_opt (RxChr (\<lambda>c. c \<in> set ''<-''))) ?t)" by (simp add: rx_opt_def)
  ultimately have "?t \<in> set (matches (rx_seq [rx_lit ''<<'', rx_opt (RxChr (\<lambda>c. c \<in> set ''<-''))]) (rx_at u (''<<'' @ v)))"
    unfolding match_seq_Cons by (intro bexI) auto
  then show ?thesis unfolding s test_ex by blast
qed

lemma substitution_unsafe:
  assumes "has_substitution s"
  shows "\<not> pat_safe (checkDangerousPatterns s)"
proof -
  have "\<exists>r\<in>{rx_lit ''$('', rx_lit ''<('', rx_lit ''>('', rx_seq [rx_lit ''<<'', rx_opt (RxChr (\<lambda>c. c \<in> set ''<-''))],
      rx_seq [rx_char CHR 0x60, RxStar (RxChr (\<lambda>c. c \<noteq> CHR 0x60)), rx_char CHR 0x60]}. rx_test r s"
    using assms here_document_test backtick_test unfolding has_substitution_def test_lit bex_simps by blast
  then show ?thesis unfolding checkDangerousPatterns_def check_patterns_safe DANGEROUS_PATTERNS_def
    by (simp del: rx_seq.simps rx_lit.simps) blast
qed

end
