(* ===== verification/ShellPolicy.thy ===== *)
theory ShellPolicy
  imports Scope ShellParser
begin

text \<open>
  The permission hooks of the shell and of the built-in tools (\<open>src/src/bash/hook.ts\<close>): a
  command is checked for an override of the environment, for its executables and for the
  session it addresses, in this order. The tool context and the process environment are
  arguments as in the scope checks, the database is the record of the providers, and
  \<open>thrown\<close> is the message of the error the parser may catch. A hook returns the reason of a
  denial, if any, and the audit calls it makes; the provenance attached to an audit event is
  not modelled.
\<close>

section \<open>Commands of the tool itself\<close>

definition rx_quote :: regex where "rx_quote = RxChr (\<lambda>c. c \<in> {CHR 0x22, CHR 0x27})"
definition rx_name :: regex where "rx_name = RxChr (\<lambda>c. word_char c \<or> c = CHR ''-'')"

text \<open>What both expressions start with: an operator or a blank, assignments, a directory, \<open>ravi\<close>.\<close>

definition rx_assignments :: regex where
  "rx_assignments = RxStar (rx_seq [rx_plus rx_nonspace, rx_char CHR ''='', rx_plus rx_nonspace, rx_plus rx_space])"

definition rx_directory :: regex where
  "rx_directory = rx_opt (rx_seq [rx_char CHR ''/'', rx_plus rx_nonspace, rx_char CHR ''/''])"

definition rx_command_start :: regex where
  "rx_command_start = rx_alts [RxBol, rx_space, rx_lit ''&&'', rx_lit ''||'', rx_char CHR '';'']"

definition rx_ravi :: "regex list" where
  "rx_ravi = [rx_command_start, RxStar rx_space, rx_assignments, rx_directory, rx_lit ''ravi'', rx_plus rx_space]"

definition rx_tool :: regex where
  "rx_tool = rx_seq (rx_ravi @ [RxGroup 1 (rx_plus rx_name), rx_plus rx_space, RxGroup 2 (rx_plus rx_name)])"

definition rx_target :: regex where
  "rx_target = rx_seq (rx_ravi @
     [rx_plus rx_name, rx_plus rx_space, rx_plus rx_name, rx_plus rx_space,
      RxStar (rx_seq [rx_char CHR ''-'', rx_plus rx_wordchar, rx_plus rx_space, rx_plus rx_nonspace, rx_plus rx_space]),
      rx_opt rx_quote, RxGroup 1 (rx_plus (RxChr (\<lambda>c. c \<notin> {CHR 0x22, CHR 0x27} \<and> \<not> is_space c)))])"

definition extractRaviToolName :: "string \<Rightarrow> string option" where
  "extractRaviToolName command =
     (case rx_exec rx_tool command of
        Some (b, t) \<Rightarrow> Some (nullish (map_of (rx_caps t) 1) ''undefined'' @ ''_'' @ nullish (map_of (rx_caps t) 2) ''undefined'')
      | None \<Rightarrow> None)"

definition extractRaviTarget :: "string \<Rightarrow> string option" where
  "extractRaviTarget command = rx_group 1 rx_target command"

definition rx_override :: regex where
  "rx_override = rx_seq [RxWordB, rx_lit ''RAVI_'', rx_plus rx_wordchar, RxStar rx_space, rx_char CHR ''='']"

text \<open>The reason when the command overrides the environment.\<close>

definition checkEnvSpoofing :: "string \<Rightarrow> string option" where
  "checkEnvSpoofing command =
     (if rx_test rx_override command then Some ''Cannot override RAVI environment variables'' else None)"

definition SESSION_TARGET_COMMANDS :: "string list" where
  "SESSION_TARGET_COMMANDS =
     [''sessions_send'', ''sessions_ask'', ''sessions_answer'', ''sessions_execute'', ''sessions_inform'', ''sessions_read'',
      ''sessions_info'', ''sessions_reset'', ''sessions_delete'', ''sessions_rename'', ''sessions_set-display'',
      ''sessions_set-model'', ''sessions_set-thinking'', ''sessions_set-ttl'', ''sessions_extend'', ''sessions_keep'']"

section \<open>Capabilities of the context\<close>

record bash_context =
  bx_contextId :: "string option"
  bx_context :: "capability_context option"
  bx_agentId :: "string option"
  bx_kind :: "string option"
  bx_sessionKey :: "string option"
  bx_sessionName :: "string option"
  bx_capabilities :: "capability list option"
  bx_metadata :: "(string \<times> json) list option"

definition no_options :: capability_options where
  "no_options = \<lparr>co_includeRoles = None, co_includeConstraints = None, co_executorAgentId = None,
     co_executorCapabilities = None, co_compartmentType = None, co_compartmentId = None, co_authorityModel = None\<rparr>"

text \<open>The context with a capability list, as a capability context.\<close>

definition bash_capability_context :: "bash_context \<Rightarrow> capability list \<Rightarrow> capability_context" where
  "bash_capability_context ctx capabilities =
     \<lparr>cc_contextId = bx_contextId ctx, cc_agentId = bx_agentId ctx, cc_kind = bx_kind ctx, cc_sessionKey = bx_sessionKey ctx,
      cc_sessionName = bx_sessionName ctx, cc_capabilities = capabilities, cc_metadata = bx_metadata ctx\<rparr>"

definition bashMetadata :: "bash_context \<Rightarrow> string \<Rightarrow> json option" where
  "bashMetadata ctx k = (case bx_metadata ctx of None \<Rightarrow> None | Some m \<Rightarrow> map_of m k)"

definition isDelegatedBashContext :: "bash_context \<Rightarrow> bool" where
  "isDelegatedBashContext ctx \<longleftrightarrow>
     (if bx_kind ctx = Some ''turn-runtime'' \<or> bx_kind ctx = Some ''invocation-runtime'' then True
      else bashMetadata ctx ''authorityMode'' = Some (JStr ''delegated'')
         \<or> bashMetadata ctx ''authorityMode'' = Some (JStr ''agent-identity''))"

definition canWithMaterializedAgentCapabilities ::
  "permission_db \<Rightarrow> bash_context \<Rightarrow> string \<Rightarrow> string \<Rightarrow> string \<Rightarrow> bool" where
  "canWithMaterializedAgentCapabilities db ctx permission objectType objectId =
     (if \<not> truthy (bx_agentId ctx) then False
      else canWithCapabilities_runtime
             (materializeSubjectCapabilities db ''agent'' (nullish (bx_agentId ctx) []) no_options)
             permission objectType objectId)"

definition isMaterializedAgentSuperadmin :: "permission_db \<Rightarrow> bash_context \<Rightarrow> bool" where
  "isMaterializedAgentSuperadmin db ctx =
     (if \<not> truthy (bx_agentId ctx) then False
      else canWithCapabilities_runtime
             (materializeSubjectCapabilities db ''agent'' (nullish (bx_agentId ctx) []) no_options)
             ''admin'' ''system'' ''*'')"

definition canWithBashContext :: "permission_db \<Rightarrow> bash_context \<Rightarrow> string \<Rightarrow> string \<Rightarrow> string \<Rightarrow> bool" where
  "canWithBashContext db ctx permission objectType objectId =
     (case bx_capabilities ctx of
        Some capabilities \<Rightarrow>
          if canWithCapabilityContext (bash_capability_context ctx capabilities) permission objectType objectId then True
          else if \<not> isDelegatedBashContext ctx \<and> bx_kind ctx = Some ''agent-runtime'' \<and> truthy (bx_agentId ctx)
          then canWithMaterializedAgentCapabilities db ctx permission objectType objectId
          else if \<not> isDelegatedBashContext ctx \<and> isMaterializedAgentSuperadmin db ctx
          then canWithMaterializedAgentCapabilities db ctx permission objectType objectId
          else False
      | None \<Rightarrow>
          if truthy (bx_agentId ctx) then canWithMaterializedAgentCapabilities db ctx permission objectType objectId
          else False)"

definition isSuperadminContext :: "permission_db \<Rightarrow> bash_context \<Rightarrow> bool" where
  "isSuperadminContext db ctx = canWithBashContext db ctx ''admin'' ''system'' ''*''"

section \<open>The three checks\<close>

record denied_capability =
  dn_relation :: string
  dn_objectType :: string
  dn_objectId :: string

record check_result =
  ck_allowed :: bool
  ck_reason :: "string option"
  ck_denied :: "denied_capability list option"

definition check_ok :: check_result where
  "check_ok = \<lparr>ck_allowed = True, ck_reason = None, ck_denied = None\<rparr>"

definition check_refused :: "string option \<Rightarrow> denied_capability list option \<Rightarrow> check_result" where
  "check_refused reason denied = \<lparr>ck_allowed = False, ck_reason = reason, ck_denied = denied\<rparr>"

definition BUILTIN_EXECUTABLES :: "string list" where
  "BUILTIN_EXECUTABLES = [''ravi'']"

fun blocked_executables :: "permission_db \<Rightarrow> bash_context \<Rightarrow> string list \<Rightarrow> string list" where
  "blocked_executables db ctx [] = []"
| "blocked_executables db ctx (exec # execs) =
     (if exec \<in> set UNCONDITIONAL_BLOCKS then exec # blocked_executables db ctx execs
      else if exec \<in> set BUILTIN_EXECUTABLES then blocked_executables db ctx execs
      else if \<not> canWithBashContext db ctx ''execute'' ''executable'' exec then exec # blocked_executables db ctx execs
      else blocked_executables db ctx execs)"

definition checkExecutablePermissionsForContext ::
  "permission_db \<Rightarrow> string \<Rightarrow> string \<Rightarrow> bash_context \<Rightarrow> check_result" where
  "checkExecutablePermissionsForContext db thrown command ctx =
     (if canWithBashContext db ctx ''execute'' ''executable'' ''*'' then check_ok
      else
        let patternCheck = checkDangerousPatterns command
        in if \<not> pat_safe patternCheck then check_refused (pat_reason patternCheck) None
           else
             let parsed = parseBashCommand thrown command
             in if \<not> pc_success parsed
                then check_refused (Some (if truthy (pc_error parsed) then nullish (pc_error parsed) []
                                          else ''Failed to parse command'')) None
                else
                  let blocked = blocked_executables db ctx (pc_executables parsed)
                  in if blocked \<noteq> []
                     then check_refused
                            (Some (''Permission denied: agent:'' @ nullish (bx_agentId ctx) ''unknown'' @ '' cannot execute: ''
                               @ join '', '' blocked))
                            (Some (map (\<lambda>e. \<lparr>dn_relation = ''execute'', dn_objectType = ''executable'', dn_objectId = e\<rparr>) blocked))
                     else check_ok)"

definition canAccessSessionWithBashContext :: "permission_db \<Rightarrow> bash_context \<Rightarrow> string \<Rightarrow> bool" where
  "canAccessSessionWithBashContext db ctx targetNameOrKey =
     (if \<not> truthy (bx_agentId ctx) \<and> bx_capabilities ctx = None then True
      else if truthy (bx_sessionName ctx) \<and> bx_sessionName ctx = Some targetNameOrKey then True
      else if truthy (bx_sessionKey ctx) \<and> bx_sessionKey ctx = Some targetNameOrKey then True
      else canWithBashContext db ctx ''access'' ''session'' targetNameOrKey)"

definition checkScopePermissionForContext ::
  "permission_db \<Rightarrow> string \<Rightarrow> string option \<Rightarrow> bash_context \<Rightarrow> check_result" where
  "checkScopePermissionForContext db command toolName ctx =
     (if \<not> truthy toolName then check_ok
      else if nullish toolName [] \<in> set SESSION_TARGET_COMMANDS
      then (let target = extractRaviTarget command
            in if truthy target \<and> \<not> canAccessSessionWithBashContext db ctx (nullish target [])
               then check_refused
                      (Some (''Permission denied: agent:'' @ nullish (bx_agentId ctx) ''unknown'' @ '' cannot access session:''
                         @ nullish target []))
                      (Some [\<lparr>dn_relation = ''access'', dn_objectType = ''session'', dn_objectId = nullish target []\<rparr>])
               else check_ok)
      else check_ok)"

section \<open>The decision\<close>

datatype denial_type = EnvSpoofing | ExecutableDenied | SessionScope

record bash_decision =
  bd_allowed :: bool
  bd_reason :: "string option"
  bd_denialType :: "denial_type option"
  bd_toolName :: "string option"
  bd_denied :: "denied_capability list option"

definition evaluateBashPermission :: "permission_db \<Rightarrow> string \<Rightarrow> string \<Rightarrow> bash_context \<Rightarrow> bash_decision" where
  "evaluateBashPermission db thrown command ctx =
     (let isSuperadmin = isSuperadminContext db ctx;
          spoofResult = (if isSuperadmin then None else checkEnvSpoofing command)
      in if spoofResult \<noteq> None
         then \<lparr>bd_allowed = False, bd_reason = spoofResult, bd_denialType = Some EnvSpoofing, bd_toolName = None, bd_denied = None\<rparr>
         else
           let execResult = checkExecutablePermissionsForContext db thrown command ctx
           in if \<not> ck_allowed execResult
              then \<lparr>bd_allowed = False, bd_reason = ck_reason execResult, bd_denialType = Some ExecutableDenied,
                    bd_toolName = None, bd_denied = ck_denied execResult\<rparr>
              else
                let toolName = extractRaviToolName command;
                    scopeResult = checkScopePermissionForContext db command toolName ctx
                in if \<not> ck_allowed scopeResult
                   then \<lparr>bd_allowed = False, bd_reason = ck_reason scopeResult, bd_denialType = Some SessionScope,
                         bd_toolName = toolName, bd_denied = ck_denied scopeResult\<rparr>
                   else \<lparr>bd_allowed = True, bd_reason = None, bd_denialType = None, bd_toolName = toolName, bd_denied = None\<rparr>)"

section \<open>Denials\<close>

record audit_event =
  au_type :: string
  au_agentId :: string
  au_denied :: string
  au_reason :: string
  au_commandChars :: "nat option"

record denial_input =
  di_subjectType :: string
  di_subjectId :: string
  di_agentId :: string
  di_sessionKey :: "string option"
  di_sessionName :: "string option"
  di_contextId :: "string option"
  di_relation :: string
  di_objectType :: string
  di_objectId :: string
  di_reason :: "string option"
  di_command :: "string option"

text \<open>The calls of \<open>emitPermissionDeniedAudit\<close> and \<open>recordAndEmitPermissionDenial\<close>.\<close>

datatype shell_effect = EmitAudit audit_event | RecordAndEmit denial_input audit_event

definition buildBashDeniedAuditEvent :: "string \<Rightarrow> bash_decision \<Rightarrow> string option \<Rightarrow> audit_event option" where
  "buildBashDeniedAuditEvent command decision agentId =
     (if bd_allowed decision \<or> bd_denialType decision = None then None
      else
        let resolvedAgentId = nullish agentId ''unknown''
        in case bd_denialType decision of
             None \<Rightarrow> None
           | Some EnvSpoofing \<Rightarrow>
               Some \<lparr>au_type = ''env_spoofing'', au_agentId = resolvedAgentId, au_denied = ''RAVI_* override'',
                     au_reason = nullish (bd_reason decision) ''Cannot override RAVI environment variables'',
                     au_commandChars = Some (length command)\<rparr>
           | Some ExecutableDenied \<Rightarrow>
               Some \<lparr>au_type = ''executable'', au_agentId = resolvedAgentId, au_denied = hd (split_spaces command),
                     au_reason = nullish (bd_reason decision) ''Bash command denied by Ravi'',
                     au_commandChars = Some (length command)\<rparr>
           | Some SessionScope \<Rightarrow>
               Some \<lparr>au_type = ''session_scope'', au_agentId = resolvedAgentId,
                     au_denied = nullish (extractRaviTarget command) ''unknown'',
                     au_reason = nullish (bd_reason decision) ''Bash command denied by Ravi'',
                     au_commandChars = Some (length command)\<rparr>)"

definition emitBashDeniedAudit :: "string \<Rightarrow> bash_decision \<Rightarrow> string option \<Rightarrow> shell_effect list" where
  "emitBashDeniedAudit command decision agentId =
     (case buildBashDeniedAuditEvent command decision agentId of None \<Rightarrow> [] | Some event \<Rightarrow> [EmitAudit event])"

definition redacted :: "string \<Rightarrow> string" where
  "redacted command = ''[REDACTED:content length='' @ show_nat (length command) @ '']''"

definition denial_of ::
  "string \<Rightarrow> bash_decision \<Rightarrow> bash_context \<Rightarrow> string \<Rightarrow> denied_capability \<Rightarrow> denial_input" where
  "denial_of command decision ctx subjectId denied =
     \<lparr>di_subjectType = ''agent'', di_subjectId = subjectId, di_agentId = subjectId, di_sessionKey = bx_sessionKey ctx,
      di_sessionName = bx_sessionName ctx,
      di_contextId = orElse (bx_contextId ctx) (Option.bind (bx_context ctx) cc_contextId),
      di_relation = dn_relation denied, di_objectType = dn_objectType denied, di_objectId = dn_objectId denied,
      di_reason = bd_reason decision, di_command = Some (redacted command)\<rparr>"

definition recordAndEmitBashPermissionDenial ::
  "string \<Rightarrow> bash_decision \<Rightarrow> bash_context \<Rightarrow> string option \<Rightarrow> shell_effect list" where
  "recordAndEmitBashPermissionDenial command decision ctx agentId =
     (if bd_allowed decision then []
      else if bd_denialType decision = Some EnvSpoofing then emitBashDeniedAudit command decision agentId
      else
        let subjectId = orElse agentId (bx_agentId ctx)
        in if \<not> truthy subjectId then emitBashDeniedAudit command decision agentId
           else case buildBashDeniedAuditEvent command decision agentId of
                  None \<Rightarrow> []
                | Some audit \<Rightarrow>
                    let denied = nullish (bd_denied decision) []
                    in map (\<lambda>d. RecordAndEmit (denial_of command decision ctx (nullish subjectId []) d) audit) denied
                       @ (if denied = [] then [EmitAudit audit] else []))"

section \<open>The hooks\<close>

definition hook_context :: "tool_context option \<Rightarrow> scope_env \<Rightarrow> string option \<Rightarrow> bash_context" where
  "hook_context tool env agentId =
     (let scopeCtx = getScopeContext tool env
      in \<lparr>bx_contextId = sc_contextId scopeCtx, bx_context = sc_context scopeCtx, bx_agentId = agentId,
          bx_kind = Option.bind (sc_context scopeCtx) cc_kind, bx_sessionKey = sc_sessionKey scopeCtx,
          bx_sessionName = sc_sessionName scopeCtx, bx_capabilities = map_option cc_capabilities (sc_context scopeCtx),
          bx_metadata = Option.bind (sc_context scopeCtx) cc_metadata\<rparr>)"

text \<open>The result: the reason of a denial, or \<open>None\<close> for the empty answer that lets the call pass.\<close>

definition bashPermissionHook ::
  "permission_db \<Rightarrow> string \<Rightarrow> tool_context option \<Rightarrow> scope_env \<Rightarrow> string option \<Rightarrow> string option
     \<Rightarrow> string option \<times> shell_effect list" where
  "bashPermissionHook db thrown tool env agentId command_input =
     (if \<not> truthy command_input then (None, [])
      else
        let command = nullish command_input [];
            bashContext = hook_context tool env agentId;
            decision = evaluateBashPermission db thrown command bashContext
        in if \<not> bd_allowed decision \<and> bd_denialType decision = Some EnvSpoofing
           then (bd_reason decision, recordAndEmitBashPermissionDenial command decision bashContext agentId)
           else if \<not> bd_allowed decision \<and> bd_denialType decision = Some ExecutableDenied
           then (bd_reason decision, recordAndEmitBashPermissionDenial command decision bashContext agentId)
           else if \<not> bd_allowed decision \<and> bd_denialType decision = Some SessionScope
           then (bd_reason decision, recordAndEmitBashPermissionDenial command decision bashContext agentId)
           else (None, []))"

definition toolPermissionHook ::
  "permission_db \<Rightarrow> tool_context option \<Rightarrow> scope_env \<Rightarrow> string option \<Rightarrow> string option \<Rightarrow> string option \<times> shell_effect list" where
  "toolPermissionHook db tool env agentId tool_name =
     (if \<not> truthy tool_name then (None, [])
      else
        let toolName = nullish tool_name []
        in if toolName \<notin> set SDK_TOOLS then (None, [])
           else if \<not> truthy agentId
           then (let reason = ''Permission denied: missing agent identity cannot use tool:'' @ toolName
                 in (Some reason, [EmitAudit \<lparr>au_type = ''tool'', au_agentId = ''unknown'', au_denied = ''tool:'' @ toolName,
                                              au_reason = reason, au_commandChars = None\<rparr>]))
           else
             let aid = nullish agentId [];
                 scopeCtx = getScopeContext tool env;
                 bashContext = hook_context tool env agentId
             in if \<not> canWithBashContext db bashContext ''use'' ''tool'' toolName
                then (let reason = ''Permission denied: agent:'' @ aid @ '' cannot use tool:'' @ toolName
                      in (Some reason,
                          [RecordAndEmit
                             \<lparr>di_subjectType = ''agent'', di_subjectId = aid, di_agentId = aid,
                              di_sessionKey = sc_sessionKey scopeCtx, di_sessionName = sc_sessionName scopeCtx,
                              di_contextId = sc_contextId scopeCtx, di_relation = ''use'', di_objectType = ''tool'',
                              di_objectId = toolName, di_reason = Some reason, di_command = None\<rparr>
                             \<lparr>au_type = ''tool'', au_agentId = aid, au_denied = ''tool:'' @ toolName, au_reason = reason,
                              au_commandChars = None\<rparr>]))
                else (None, []))"

section \<open>What the context allows\<close>

text \<open>The capabilities that count: those of the context, and those of the agent unless it acts under delegation.\<close>

definition bash_grants :: "permission_db \<Rightarrow> bash_context \<Rightarrow> capability list" where
  "bash_grants db ctx =
     (let own = (if truthy (bx_agentId ctx) then materializeSubjectCapabilities db ''agent'' (nullish (bx_agentId ctx) []) no_options
                 else [])
      in case bx_capabilities ctx of
           None \<Rightarrow> own
         | Some capabilities \<Rightarrow>
             capabilities @ (if \<not> isDelegatedBashContext ctx
                                \<and> (bx_kind ctx = Some ''agent-runtime'' \<or> canWithCapabilities own ''admin'' ''system'' ''*'')
                             then own else []))"

lemma canWithBash_iff: "canWithBashContext db ctx p t i \<longleftrightarrow> canWithCapabilities (bash_grants db ctx) p t i"
  by (cases "truthy (bx_agentId ctx)")
    (auto simp: canWithBashContext_def canWithMaterializedAgentCapabilities_def isMaterializedAgentSuperadmin_def
      bash_grants_def bash_capability_context_def Let_def split: option.split)

lemma superadmin_can: "isSuperadminContext db ctx \<Longrightarrow> canWithBashContext db ctx p t i"
  by (auto simp: isSuperadminContext_def canWithBash_iff canWithCapabilities_iff dest: admin_covers)

lemma blocked_Nil:
  "blocked_executables db ctx es = [] \<longleftrightarrow>
     (\<forall>e\<in>set es. e \<notin> set UNCONDITIONAL_BLOCKS \<and> (e = ''ravi'' \<or> canWithBashContext db ctx ''execute'' ''executable'' e))"
proof (induction es)
  case (Cons e es)
  have "set BUILTIN_EXECUTABLES = {''ravi''}" by (simp add: BUILTIN_EXECUTABLES_def)
  with Cons show ?case by auto
qed simp

lemma executables_ok:
  "ck_allowed (checkExecutablePermissionsForContext db thrown command ctx) \<longleftrightarrow>
     canWithBashContext db ctx ''execute'' ''executable'' ''*''
     \<or> pat_safe (checkDangerousPatterns command) \<and> pc_success (parseBashCommand thrown command)
       \<and> blocked_executables db ctx (pc_executables (parseBashCommand thrown command)) = []"
  by (simp add: checkExecutablePermissionsForContext_def Let_def check_ok_def check_refused_def)

lemma scope_ok:
  "ck_allowed (checkScopePermissionForContext db command (extractRaviToolName command) ctx) \<longleftrightarrow>
     (\<forall>tool target. extractRaviToolName command = Some tool \<and> tool \<in> set SESSION_TARGET_COMMANDS
        \<and> extractRaviTarget command = Some target \<and> target \<noteq> [] \<longrightarrow> canAccessSessionWithBashContext db ctx target)"
proof -
  have "[] \<notin> set SESSION_TARGET_COMMANDS" by (simp add: SESSION_TARGET_COMMANDS_def)
  then show ?thesis
    by (cases "extractRaviToolName command"; cases "extractRaviTarget command")
      (auto simp: checkScopePermissionForContext_def Let_def check_ok_def check_refused_def)
qed

lemma override_iff: "checkEnvSpoofing command = None \<longleftrightarrow> \<not> rx_test rx_override command"
  by (simp add: checkEnvSpoofing_def)

lemma bash_evaluate_allowed:
  "bd_allowed (evaluateBashPermission db thrown command ctx) \<longleftrightarrow>
     (isSuperadminContext db ctx \<or> checkEnvSpoofing command = None)
     \<and> ck_allowed (checkExecutablePermissionsForContext db thrown command ctx)
     \<and> ck_allowed (checkScopePermissionForContext db command (extractRaviToolName command) ctx)"
  by (auto simp: evaluateBashPermission_def Let_def)

text \<open>C21: A command is allowed exactly when it overrides no variable of the tool, or a superadministrator runs it; it contains no
  dangerous pattern, parses, and starts only executables that are never blocked and that the context may run, or the context may run
  everything; and the session it addresses is one the context may reach.\<close>

theorem bash_allowed_iff:
  "bd_allowed (evaluateBashPermission db thrown command ctx) \<longleftrightarrow>
     (canWithCapabilities (bash_grants db ctx) ''admin'' ''system'' ''*'' \<or> \<not> rx_test rx_override command)
     \<and> (canWithCapabilities (bash_grants db ctx) ''execute'' ''executable'' ''*''
        \<or> pat_safe (checkDangerousPatterns command) \<and> pc_success (parseBashCommand thrown command)
          \<and> (\<forall>e\<in>set (pc_executables (parseBashCommand thrown command)). e \<notin> set UNCONDITIONAL_BLOCKS
               \<and> (e = ''ravi'' \<or> canWithCapabilities (bash_grants db ctx) ''execute'' ''executable'' e)))
     \<and> (\<forall>tool target. extractRaviToolName command = Some tool \<and> tool \<in> set SESSION_TARGET_COMMANDS
          \<and> extractRaviTarget command = Some target \<and> target \<noteq> [] \<longrightarrow> canAccessSessionWithBashContext db ctx target)"
  unfolding bash_evaluate_allowed executables_ok scope_ok blocked_Nil override_iff isSuperadminContext_def canWithBash_iff ..

definition no_permissions :: permission_db where
  "no_permissions = \<lparr>db_agents = (\<lambda>_. None), db_contacts = (\<lambda>_. None), db_tags = (\<lambda>_. None)\<rparr>"

text \<open>A turn of the agent \<open>main\<close> in its session \<open>main\<close> that may run the given executables.\<close>

definition turn_context :: "string list \<Rightarrow> bash_context" where
  "turn_context execs =
     \<lparr>bx_contextId = Some ''ctx'', bx_context = None, bx_agentId = Some ''main'', bx_kind = Some ''turn-runtime'',
      bx_sessionKey = Some ''agent:main:main'', bx_sessionName = Some ''main'',
      bx_capabilities = Some (map (mk_cap ''execute'' ''executable'') execs), bx_metadata = None\<rparr>"

theorem bash_allowed_iff_witness:
  "bd_allowed (evaluateBashPermission no_permissions ''error'' ''git add . && ls'' (turn_context [''git'', ''ls'']))
   \<and> \<not> bd_allowed (evaluateBashPermission no_permissions ''error'' ''git add . && rm x'' (turn_context [''git'', ''ls'']))"
proof -
  have g: "bash_grants no_permissions (turn_context es) = map (mk_cap ''execute'' ''executable'') es" for es
    by (simp add: bash_grants_def turn_context_def isDelegatedBashContext_def)
  have "canWithCapabilities (map (mk_cap ''execute'' ''executable'') [''git'', ''ls'']) ''execute'' ''executable'' ''ls''"
    "canWithCapabilities (map (mk_cap ''execute'' ''executable'') [''git'', ''ls'']) ''execute'' ''executable'' ''git''"
    "\<not> canWithCapabilities (map (mk_cap ''execute'' ''executable'') [''git'', ''ls'']) ''execute'' ''executable'' ''rm''"
    "\<not> canWithCapabilities (map (mk_cap ''execute'' ''executable'') [''git'', ''ls'']) ''execute'' ''executable'' ''*''"
    "\<not> rx_test rx_override ''git add . && ls''" "pat_safe (checkDangerousPatterns ''git add . && ls'')"
    "pc_success (parseBashCommand ''error'' ''git add . && ls'')"
    "pc_executables (parseBashCommand ''error'' ''git add . && ls'') = [''git'', ''ls'']"
    "pc_executables (parseBashCommand ''error'' ''git add . && rm x'') = [''git'', ''rm'']"
    "extractRaviToolName ''git add . && ls'' = None" "''git'' \<notin> set UNCONDITIONAL_BLOCKS \<and> ''ls'' \<notin> set UNCONDITIONAL_BLOCKS"
    by code_simp+
  then show ?thesis unfolding bash_allowed_iff g by simp
qed

section \<open>What is refused\<close>






text \<open>A command substitution, a process substitution or a here document anywhere in a command, quoted or not, is refused
  unless the context may run everything.\<close>

theorem substitution_refused:
  assumes "has_substitution command" "\<not> canWithCapabilities (bash_grants db ctx) ''execute'' ''executable'' ''*''"
  shows "\<not> bd_allowed (evaluateBashPermission db thrown command ctx)"
  using assms substitution_unsafe [OF assms(1)] unfolding bash_evaluate_allowed executables_ok canWithBash_iff by blast

theorem substitution_refused_witness:
  "\<not> bd_allowed (evaluateBashPermission no_permissions ''error'' ''ls $(rm x)'' (turn_context [''ls'']))"
proof -
  have "sublist ''$('' ''ls $(rm x)''" unfolding sublist_def by (rule exI [of _ "''ls ''"], rule exI [of _ "''rm x)''"]) simp
  then have "has_substitution ''ls $(rm x)''" by (simp add: has_substitution_def)
  moreover have "\<not> canWithCapabilities (bash_grants no_permissions (turn_context [''ls''])) ''execute'' ''executable'' ''*''" by code_simp
  ultimately show ?thesis by (rule substitution_refused)
qed

lemma override_found:
  assumes "u = [] \<or> \<not> word_char (last u)" "w \<noteq> []" "list_all word_char w" "list_all is_space b"
  shows "rx_test rx_override (u @ ''RAVI_'' @ w @ b @ CHR ''='' # v)"
proof -
  let ?s = "rx_at u (''RAVI_'' @ w @ b @ CHR ''='' # v)"
  have "word_char CHR ''R''" by (simp add: word_char_def is_alnum_def)
  then have 1: "?s \<in> set (matches RxWordB ?s)" using assms(1) by (auto simp: at_boundary_def)
  have 2: "rx_walk ''RAVI_'' (w @ b @ CHR ''='' # v) ?s \<in> set (matches (rx_lit ''RAVI_'') ?s)"
    unfolding match_lit by (intro exI conjI) simp_all
  let ?s2 = "rx_walk ''RAVI_'' (w @ b @ CHR ''='' # v) ?s"
  have 3: "rx_walk w (b @ CHR ''='' # v) ?s2 \<in> set (matches (rx_plus rx_wordchar) ?s2)"
    unfolding rx_wordchar_def match_plus by (rule exI [of _ w], rule exI [of _ "b @ CHR ''='' # v"]) (simp add: assms)
  let ?s3 = "rx_walk w (b @ CHR ''='' # v) ?s2"
  have 4: "rx_walk b (CHR ''='' # v) ?s3 \<in> set (matches (RxStar rx_space) ?s3)"
    unfolding rx_space_def match_star by (rule exI [of _ b], rule exI [of _ "CHR ''='' # v"]) (simp add: assms)
  let ?s4 = "rx_walk b (CHR ''='' # v) ?s3"
  have 5: "rx_walk ''='' v ?s4 \<in> set (matches (rx_char CHR ''='') ?s4)"
    by (simp add: rx_char_def rx_step_walk)
  have "rx_walk ''='' v ?s4 \<in> set (matches (rx_seq []) (rx_walk ''='' v ?s4))" by simp
  then have "rx_walk ''='' v ?s4 \<in> set (matches rx_override ?s)"
    unfolding rx_override_def match_seq_Cons using 1 2 3 4 5 by blast
  then show ?thesis unfolding test_ex by blast
qed

text \<open>C25: An assignment to a variable of the tool, at a word boundary anywhere in the command and with blanks before the sign or
  not, is refused as an override of the environment for everybody but superadministrators.\<close>

theorem override_refused:
  assumes "u = [] \<or> \<not> word_char (last u)" "w \<noteq> []" "list_all word_char w" "list_all is_space b"
    and "\<not> canWithCapabilities (bash_grants db ctx) ''admin'' ''system'' ''*''"
  shows "bd_denialType (evaluateBashPermission db thrown (u @ ''RAVI_'' @ w @ b @ CHR ''='' # v) ctx) = Some EnvSpoofing
     \<and> \<not> bd_allowed (evaluateBashPermission db thrown (u @ ''RAVI_'' @ w @ b @ CHR ''='' # v) ctx)"
proof -
  have "\<not> isSuperadminContext db ctx" using assms(5) by (simp add: isSuperadminContext_def canWithBash_iff)
  moreover have "checkEnvSpoofing (u @ ''RAVI_'' @ w @ b @ CHR ''='' # v) \<noteq> None"
    using override_found [OF assms(1-4)] by (simp only: override_iff simp_thms)
  ultimately show ?thesis by (simp only: evaluateBashPermission_def Let_def if_True if_False bash_decision.simps simp_thms)
qed

theorem override_refused_witness:
  "\<not> bd_allowed (evaluateBashPermission no_permissions ''error'' (''export '' @ ''RAVI_'' @ ''AGENT_ID'' @ '''' @ CHR ''='' # ''root'')
     (turn_context [''*'']))"
proof -
  have "\<not> word_char (last ''export '')" "list_all word_char ''AGENT_ID''"
    "\<not> canWithCapabilities (bash_grants no_permissions (turn_context [''*''])) ''admin'' ''system'' ''*''" by code_simp+
  then show ?thesis using override_refused [of "''export ''" "''AGENT_ID''" "''''"] by fastforce
qed
section \<open>Sessions a command addresses\<close>

text \<open>The first way an expression matches a text, wherever that text stands.\<close>

definition goes :: "regex \<Rightarrow> string \<Rightarrow> (nat \<times> string) list \<Rightarrow> string \<Rightarrow> (nat \<times> string) list \<Rightarrow> bool" where
  "goes r x c v d \<longleftrightarrow>
     (\<forall>s. rx_rest s = x \<and> rx_caps s = c \<longrightarrow> (\<exists>t. first_match r s t \<and> rx_rest t = v \<and> rx_caps t = d))"

lemma goes_Nil: "goes (rx_seq []) x c x c"
  by (auto simp: goes_def first_match_def)

lemma goes_seq: "goes r x c y d \<Longrightarrow> goes (rx_seq rs) y d z e \<Longrightarrow> goes (rx_seq (r # rs)) x c z e"
  unfolding goes_def using first_seq by blast

lemma goes_lit: "goes (rx_lit w) (w @ v) c v c"
  unfolding goes_def using first_lit rx_walk_sel by blast

lemma goes_plus: "w \<noteq> [] \<Longrightarrow> list_all P w \<Longrightarrow> v = [] \<or> \<not> P (hd v) \<Longrightarrow> goes (rx_plus (RxChr P)) (w @ v) c v c"
  unfolding goes_def using first_plus rx_walk_sel by blast

lemma goes_star_none: "x = [] \<or> \<not> P (hd x) \<Longrightarrow> goes (RxStar (RxChr P)) x c x c"
  unfolding goes_def using first_star [of _ "[]" x P] by fastforce

lemma goes_stay: "(\<And>s. rx_rest s = x \<Longrightarrow> first_match r s s) \<Longrightarrow> goes r x c x c"
  unfolding goes_def by blast

lemma goes_skip:
  assumes "\<And>s. rx_rest s = x \<Longrightarrow> matches r s = []"
  shows "goes (RxStar r) x c x c" "goes (rx_opt r) x c x c"
  by (rule goes_stay, rule first_star_skip, rule assms, assumption)
    (rule goes_stay, rule first_opt_skip, rule assms, assumption)

lemma goes_group: "goes r (w @ v) c v d \<Longrightarrow> goes (RxGroup n r) (w @ v) c v ((n, w) # d)"
  unfolding goes_def
proof (intro allI impI)
  fix s :: rx_pos
  assume r: "\<forall>s. rx_rest s = w @ v \<and> rx_caps s = c \<longrightarrow> (\<exists>t. first_match r s t \<and> rx_rest t = v \<and> rx_caps t = d)"
    and s: "rx_rest s = w @ v \<and> rx_caps s = c"
  then obtain t where t: "first_match r s t" "rx_rest t = v" "rx_caps t = d" by blast
  with s have "rx_rest (rx_capture n s t) = v \<and> rx_caps (rx_capture n s t) = (n, w) # d" by (simp add: rx_capture_def)
  with first_group [OF t(1)] show "\<exists>t. first_match (RxGroup n r) s t \<and> rx_rest t = v \<and> rx_caps t = (n, w) # d" by blast
qed

lemma no_assignment:
  assumes "rx_rest s = w @ CHR '' '' # r" "CHR ''='' \<notin> set w"
  shows "matches (rx_seq [rx_plus rx_nonspace, rx_char CHR ''='', rx_plus rx_nonspace, rx_plus rx_space]) s = []"
proof -
  have "False" if "t \<in> set (matches (rx_seq [rx_plus rx_nonspace, rx_char CHR ''='', rx_plus rx_nonspace, rx_plus rx_space]) s)" for t
  proof -
    from that obtain y u where y: "y \<in> set (matches (rx_plus rx_nonspace) s)" "u \<in> set (matches (rx_char CHR ''='') y)"
      unfolding match_seq_Cons by blast
    then obtain x v where x: "w @ CHR '' '' # r = x @ CHR ''='' # v" "list_all (\<lambda>c. \<not> is_space c) x"
      using assms(1) by (auto simp: rx_nonspace_def rx_char_def match_plus match_Chr simp del: matches.simps(2))
    have "CHR '' '' \<notin> set x" using x(2) by (auto simp: list_all_iff)
    with x(1) obtain z where "w = x @ CHR ''='' # z" 
      by (auto simp: append_eq_append_conv2 Cons_eq_append_conv append_eq_Cons_conv)
    with assms(2) show False by simp
  qed
  then show ?thesis by (metis last_in_set)
qed

lemma no_start: "rx_rest s = d # r \<Longrightarrow> d \<noteq> c \<Longrightarrow> matches (rx_seq (rx_char c # rs)) s = []"
  by (simp add: rx_char_def)

text \<open>Both expressions on a command that starts with \<open>ravi\<close> and a name.\<close>

lemma rx_ravi_goes:
  assumes "y \<noteq> []" "\<not> is_space (hd y)" "goes (rx_seq rs) y [] z e"
  shows "\<exists>t. first_match (rx_seq (rx_ravi @ rs)) (rx_at [] (''ravi '' @ y)) t \<and> rx_caps t = e"
proof -
  let ?x = "''ravi '' @ y" 
  have x: "?x = ''ravi'' @ CHR '' '' # y" by simp
  have start: "first_match rx_command_start (rx_at [] ?x) (rx_at [] ?x)"
    unfolding rx_command_start_def rx_alts.simps by (rule first_Alt) (simp add: first_match_def)
  have "goes (RxStar rx_space) ?x [] ?x []"
    unfolding rx_space_def by (rule goes_star_none) (simp add: is_space_def)
  moreover have "goes rx_assignments ?x [] ?x []"
    unfolding rx_assignments_def by (rule goes_skip, rule no_assignment [of _ "''ravi''"]) simp_all
  moreover have "goes rx_directory ?x [] ?x []"
    unfolding rx_directory_def by (rule goes_skip, rule no_start [of _ "CHR ''r''" "''avi '' @ y"]) simp_all
  moreover have "goes (rx_lit ''ravi'') ?x [] (CHR '' '' # y) []" unfolding x by (rule goes_lit)
  moreover have "goes (rx_plus rx_space) (CHR '' '' # y) [] y []"
    using goes_plus [of "'' ''" is_space y "[]"] assms(2) by (simp add: rx_space_def)
  ultimately have rest: "goes (rx_seq (RxStar rx_space # rx_assignments # rx_directory # rx_lit ''ravi'' # rx_plus rx_space # rs)) ?x [] z e"
    using assms(3) by - (rule goes_seq, assumption)+
  have "rx_rest (rx_at [] ?x) = ?x \<and> rx_caps (rx_at [] ?x) = []" by simp
  with rest obtain t where "first_match (rx_seq (RxStar rx_space # rx_assignments # rx_directory # rx_lit ''ravi'' # rx_plus rx_space # rs))
      (rx_at [] ?x) t" "rx_caps t = e" unfolding goes_def by blast
  with first_seq [OF start] show ?thesis unfolding rx_ravi_def append_Cons append_Nil by blast
qed

definition name_char :: "char \<Rightarrow> bool" where "name_char c \<longleftrightarrow> word_char c \<or> c = CHR ''-''"

lemma name_char_not: "name_char c \<Longrightarrow> \<not> is_space c \<and> c \<noteq> CHR ''=''"
  by (auto simp: name_char_def word_char_def is_alnum_def is_space_def Let_def)

definition plain_name :: "string \<Rightarrow> bool" where "plain_name w \<longleftrightarrow> w \<noteq> [] \<and> list_all name_char w"

lemma goes_name: "plain_name w \<Longrightarrow> v = [] \<or> \<not> name_char (hd v) \<Longrightarrow> goes (rx_plus rx_name) (w @ v) c v c"
  unfolding rx_name_def plain_name_def name_char_def by (rule goes_plus) auto

lemma goes_blank: "v \<noteq> [] \<Longrightarrow> \<not> is_space (hd v) \<Longrightarrow> goes (rx_plus rx_space) (CHR '' '' # v) c v c"
  using goes_plus [of "'' ''" is_space v c] by (simp add: rx_space_def)

lemma plain_name_hd: "plain_name w \<Longrightarrow> w @ v \<noteq> [] \<and> \<not> is_space (hd (w @ v))"
  using name_char_not by (cases w) (auto simp: plain_name_def)

lemma blank_no_name [simp]: "\<not> name_char CHR '' ''"
  by (simp add: name_char_def word_char_def is_alnum_def)

lemma tool_name_of:
  assumes "plain_name g" "plain_name verb" "s = [] \<or> \<not> name_char (hd s)"
  shows "extractRaviToolName (''ravi '' @ g @ '' '' @ verb @ s) = Some (g @ ''_'' @ verb)"
proof -
  let ?y = "g @ CHR '' '' # verb @ s"
  have "goes (RxGroup 1 (rx_plus rx_name)) ?y [] (CHR '' '' # verb @ s) [(1, g)]"
    by (rule goes_group, rule goes_name [OF assms(1)]) simp
  moreover have "goes (rx_plus rx_space) (CHR '' '' # verb @ s) [(1, g)] (verb @ s) [(1, g)]"
    using plain_name_hd [OF assms(2)] by (intro goes_blank) auto
  moreover have "goes (RxGroup 2 (rx_plus rx_name)) (verb @ s) [(1, g)] s [(2, verb), (1, g)]"
    by (rule goes_group, rule goes_name [OF assms(2,3)])
  ultimately have "goes (rx_seq [RxGroup 1 (rx_plus rx_name), rx_plus rx_space, RxGroup 2 (rx_plus rx_name)]) ?y [] s [(2, verb), (1, g)]"
    by - ((rule goes_seq, assumption)+, rule goes_Nil)
  then obtain t where "first_match rx_tool (rx_at [] (''ravi '' @ ?y)) t" "rx_caps t = [(2, verb), (1, g)]"
    using rx_ravi_goes [of ?y] plain_name_hd [OF assms(1)] unfolding rx_tool_def by blast
  then show ?thesis using exec_first [of rx_tool "''ravi '' @ ?y" t] by (simp add: extractRaviToolName_def)
qed

definition target_char :: "char \<Rightarrow> bool" where
  "target_char c \<longleftrightarrow> c \<notin> {CHR 0x22, CHR 0x27} \<and> \<not> is_space c"

lemma target_of:
  assumes "plain_name g" "plain_name verb" "w \<noteq> []" "list_all target_char w" "hd w \<noteq> CHR ''-''"
    "s = [] \<or> \<not> target_char (hd s)"
  shows "extractRaviTarget (''ravi '' @ g @ '' '' @ verb @ '' '' @ w @ s) = Some w"
proof -
  let ?z = "w @ s" let ?y = "g @ CHR '' '' # verb @ CHR '' '' # ?z"
  obtain c x where w: "w = c # x" using assms(3) by (cases w) auto
  then have c: "c \<noteq> CHR ''-''" "c \<notin> {CHR 0x22, CHR 0x27}" "\<not> is_space c" using assms(4,5) by (simp_all add: target_char_def)
  have "goes (rx_plus rx_name) ?y [] (CHR '' '' # verb @ CHR '' '' # ?z) []" by (rule goes_name [OF assms(1)]) simp
  moreover have "goes (rx_plus rx_space) (CHR '' '' # verb @ CHR '' '' # ?z) [] (verb @ CHR '' '' # ?z) []"
    using plain_name_hd [OF assms(2)] by (intro goes_blank) auto
  moreover have "goes (rx_plus rx_name) (verb @ CHR '' '' # ?z) [] (CHR '' '' # ?z) []" by (rule goes_name [OF assms(2)]) simp
  moreover have "goes (rx_plus rx_space) (CHR '' '' # ?z) [] ?z []" using c(3) by (intro goes_blank) (simp_all add: w)
  moreover have "goes (RxStar (rx_seq [rx_char CHR ''-'', rx_plus rx_wordchar, rx_plus rx_space, rx_plus rx_nonspace, rx_plus rx_space])) ?z [] ?z []"
    using c(1) by (intro goes_skip no_start [of _ c "x @ s"]) (simp_all add: w)
  moreover have "goes (rx_opt rx_quote) ?z [] ?z []" using c(2) by (intro goes_skip) (simp add: w rx_quote_def)
  moreover have "goes (RxGroup 1 (rx_plus (RxChr (\<lambda>c. c \<notin> {CHR 0x22, CHR 0x27} \<and> \<not> is_space c)))) ?z [] s [(1, w)]"
    using assms(3,4,6) unfolding target_char_def by (intro goes_group goes_plus)
  ultimately have "goes (rx_seq [rx_plus rx_name, rx_plus rx_space, rx_plus rx_name, rx_plus rx_space,
      RxStar (rx_seq [rx_char CHR ''-'', rx_plus rx_wordchar, rx_plus rx_space, rx_plus rx_nonspace, rx_plus rx_space]),
      rx_opt rx_quote, RxGroup 1 (rx_plus (RxChr (\<lambda>c. c \<notin> {CHR 0x22, CHR 0x27} \<and> \<not> is_space c)))]) ?y [] s [(1, w)]"
    by - ((rule goes_seq, assumption)+, rule goes_Nil)
  then obtain t where "first_match rx_target (rx_at [] (''ravi '' @ ?y)) t" "rx_caps t = [(1, w)]"
    using rx_ravi_goes [of ?y] plain_name_hd [OF assms(1)] unfolding rx_target_def by blast
  then show ?thesis using exec_first [of rx_target "''ravi '' @ ?y" t] by (simp add: extractRaviTarget_def rx_group_def)
qed

lemma session_verbs: "''sessions_'' @ verb \<in> set SESSION_TARGET_COMMANDS \<Longrightarrow> plain_name verb"
proof -
  have "list_all (\<lambda>c. plain_name (drop 9 c)) SESSION_TARGET_COMMANDS" by code_simp
  then show "''sessions_'' @ verb \<in> set SESSION_TARGET_COMMANDS \<Longrightarrow> plain_name verb" by (force simp: list_all_iff)
qed

text \<open>A command line that begins with \<open>ravi sessions\<close>, a verb that addresses a session and the name of a session that is
  not the agent's own is refused when the context has no access to that session. Only the first command of a line is looked
  at (see \<open>second_target_unseen\<close>).\<close>

theorem session_target_fenced:
  assumes "''sessions_'' @ verb \<in> set SESSION_TARGET_COMMANDS" "w \<noteq> []" "list_all target_char w" "hd w \<noteq> CHR ''-''"
    "s = [] \<or> \<not> target_char (hd s)" "truthy (bx_agentId ctx)" "bx_sessionName ctx \<noteq> Some w" "bx_sessionKey ctx \<noteq> Some w"
    and "\<not> canWithCapabilities (bash_grants db ctx) ''access'' ''session'' w"
  shows "\<not> bd_allowed (evaluateBashPermission db thrown (''ravi sessions '' @ verb @ '' '' @ w @ s) ctx)"
proof -
  have "plain_name ''sessions''" by code_simp
  note names = this session_verbs [OF assms(1)]
  have "extractRaviToolName (''ravi sessions '' @ verb @ '' '' @ w @ s) = Some (''sessions_'' @ verb)"
    using tool_name_of [OF names, of "'' '' @ w @ s"] by simp
  moreover have "extractRaviTarget (''ravi sessions '' @ verb @ '' '' @ w @ s) = Some w"
    using target_of [OF names assms(2-5)] by simp
  moreover have "\<not> canAccessSessionWithBashContext db ctx w"
    using assms(6-9) by (auto simp: canAccessSessionWithBashContext_def canWithBash_iff)
  ultimately show ?thesis using assms(1,2) unfolding bash_evaluate_allowed scope_ok by blast
qed

theorem session_target_fenced_witness:
  "\<not> bd_allowed (evaluateBashPermission no_permissions ''error'' (''ravi sessions '' @ ''read'' @ '' '' @ ''dev'' @ '' -n 5'') (turn_context [''*'']))"
proof -
  have "''sessions_'' @ ''read'' \<in> set SESSION_TARGET_COMMANDS" "list_all target_char ''dev''" "\<not> target_char CHR '' ''"
    "\<not> canWithCapabilities (bash_grants no_permissions (turn_context [''*''])) ''access'' ''session'' ''dev''" by code_simp+
  then show ?thesis
    by (intro session_target_fenced) (simp_all add: turn_context_def)
qed

section \<open>The hooks\<close>

lemma evaluate_denied:
  assumes "\<not> bd_allowed (evaluateBashPermission db thrown command ctx)"
  shows "bd_reason (evaluateBashPermission db thrown command ctx) \<noteq> None"
    "bd_denialType (evaluateBashPermission db thrown command ctx) \<noteq> None"
    "bd_denialType (evaluateBashPermission db thrown command ctx) = Some EnvSpoofing \<Longrightarrow>
       bd_denied (evaluateBashPermission db thrown command ctx) = None"
proof -
  have "ck_reason (checkExecutablePermissionsForContext db thrown command ctx) \<noteq> None"
    if "\<not> ck_allowed (checkExecutablePermissionsForContext db thrown command ctx)"
    using that check_patterns_reason [of command DANGEROUS_PATTERNS]
    by (simp add: checkExecutablePermissionsForContext_def checkDangerousPatterns_def Let_def check_ok_def check_refused_def
        split: if_splits)
  moreover have "ck_reason (checkScopePermissionForContext db command t ctx) \<noteq> None"
    if "\<not> ck_allowed (checkScopePermissionForContext db command t ctx)" for t
    using that by (simp add: checkScopePermissionForContext_def Let_def check_ok_def check_refused_def split: if_splits)
  ultimately show "bd_reason (evaluateBashPermission db thrown command ctx) \<noteq> None"
    using assms by (simp add: evaluateBashPermission_def Let_def split: if_splits)
  show "bd_denialType (evaluateBashPermission db thrown command ctx) \<noteq> None"
    "bd_denialType (evaluateBashPermission db thrown command ctx) = Some EnvSpoofing \<Longrightarrow>
       bd_denied (evaluateBashPermission db thrown command ctx) = None"
    using assms by (simp_all add: evaluateBashPermission_def Let_def split: if_splits)
qed

text \<open>The capabilities whose denial is recorded, with the subject and the command recorded for them.\<close>

fun recorded_denial :: "shell_effect \<Rightarrow> (string \<times> denied_capability \<times> string option) list" where
  "recorded_denial (EmitAudit a) = []"
| "recorded_denial (RecordAndEmit d a) =
     [(di_subjectId d, \<lparr>dn_relation = di_relation d, dn_objectType = di_objectType d, dn_objectId = di_objectId d\<rparr>, di_command d)]"

definition recorded_denials :: "shell_effect list \<Rightarrow> (string \<times> denied_capability \<times> string option) list" where
  "recorded_denials es = concat (map recorded_denial es)"

lemma recorded_append: "recorded_denials (es @ fs) = recorded_denials es @ recorded_denials fs"
  by (simp add: recorded_denials_def)

lemma recorded_map:
  "recorded_denials (map (\<lambda>d. RecordAndEmit (denial_of command dec ctx a d) e) ds) = map (\<lambda>d. (a, d, Some (redacted command))) ds"
  by (induction ds) (simp_all add: recorded_denials_def denial_of_def)

lemma record_denial_effects:
  assumes "\<not> bd_allowed d" "bd_denialType d \<noteq> None" "bd_denialType d = Some EnvSpoofing \<Longrightarrow> bd_denied d = None"
    "truthy agentId"
  shows "recordAndEmitBashPermissionDenial command d ctx agentId \<noteq> []"
    "recorded_denials (recordAndEmitBashPermissionDenial command d ctx agentId) =
       map (\<lambda>c. (nullish agentId [], c, Some (redacted command))) (nullish (bd_denied d) [])"
proof -
  obtain a where a: "agentId = Some a" "a \<noteq> []" using assms(4) by (cases agentId) auto
  have "buildBashDeniedAuditEvent command d agentId \<noteq> None"
    using assms(1,2) by (auto simp: buildBashDeniedAuditEvent_def Let_def split: denial_type.split)
  then obtain e where e: "buildBashDeniedAuditEvent command d agentId = Some e" by blast
  show "recordAndEmitBashPermissionDenial command d ctx agentId \<noteq> []"
    using assms(1) a e by (simp add: recordAndEmitBashPermissionDenial_def emitBashDeniedAudit_def Let_def)
  show "recorded_denials (recordAndEmitBashPermissionDenial command d ctx agentId) =
       map (\<lambda>c. (nullish agentId [], c, Some (redacted command))) (nullish (bd_denied d) [])"
    using assms(1,3) a e
    by (cases "bd_denialType d = Some EnvSpoofing")
      (simp_all add: recordAndEmitBashPermissionDenial_def emitBashDeniedAudit_def recorded_append recorded_map Let_def,
       simp_all add: recorded_denials_def)
qed

lemma hook_result:
  assumes "command \<noteq> []"
  shows "bashPermissionHook db thrown tool env agentId (Some command) =
     (let d = evaluateBashPermission db thrown command (hook_context tool env agentId)
      in if bd_allowed d then (None, [])
         else (bd_reason d, recordAndEmitBashPermissionDenial command d (hook_context tool env agentId) agentId))"
proof -
  have "bd_denialType d = Some EnvSpoofing \<or> bd_denialType d = Some ExecutableDenied \<or> bd_denialType d = Some SessionScope"
    if "bd_denialType d \<noteq> None" for d :: bash_decision
    using that by (metis denial_type.exhaust option.exhaust)
  with assms evaluate_denied(2) [of db thrown command "hook_context tool env agentId"] show ?thesis
    by (auto simp: bashPermissionHook_def Let_def)
qed

text \<open>For a known agent the shell hook denies exactly the commands the evaluation does not allow, leaves effects only for
  a denial, and records each missing capability once for the agent; the command field of the record holds only the length of
  the command.\<close>

theorem bash_hook_traced:
  assumes "command \<noteq> []" "truthy agentId"
  shows "(fst (bashPermissionHook db thrown tool env agentId (Some command)) = None \<longleftrightarrow>
        bd_allowed (evaluateBashPermission db thrown command (hook_context tool env agentId)))
    \<and> (snd (bashPermissionHook db thrown tool env agentId (Some command)) = [] \<longleftrightarrow>
        bd_allowed (evaluateBashPermission db thrown command (hook_context tool env agentId)))
    \<and> recorded_denials (snd (bashPermissionHook db thrown tool env agentId (Some command))) =
        (if bd_allowed (evaluateBashPermission db thrown command (hook_context tool env agentId)) then []
         else map (\<lambda>c. (nullish agentId [], c, Some (''[REDACTED:content length='' @ show_nat (length command) @ '']'')))
           (nullish (bd_denied (evaluateBashPermission db thrown command (hook_context tool env agentId))) []))"
proof (cases "bd_allowed (evaluateBashPermission db thrown command (hook_context tool env agentId))")
  case True
  then show ?thesis by (simp add: hook_result [OF assms(1)] recorded_denials_def)
next
  case False
  note d = evaluate_denied [OF False]
  from record_denial_effects [OF False d(2,3) assms(2), of command "hook_context tool env agentId"] d(1) False show ?thesis
    by (simp add: hook_result [OF assms(1)] Let_def redacted_def)
qed

definition no_scope_env :: scope_env where
  "no_scope_env = \<lparr>env_agentId = None, env_sessionKey = None, env_sessionName = None\<rparr>"

theorem bash_hook_traced_witness:
  "recorded_denials (snd (bashPermissionHook no_permissions ''error'' None no_scope_env (Some ''main'') (Some ''rm x''))) =
     [(''main'', \<lparr>dn_relation = ''execute'', dn_objectType = ''executable'', dn_objectId = ''rm''\<rparr>, Some ''[REDACTED:content length=4]'')]"
proof -
  define d where "d = evaluateBashPermission no_permissions ''error'' ''rm x'' (hook_context None no_scope_env (Some ''main''))"
  have "bd_denied d = Some [\<lparr>dn_relation = ''execute'', dn_objectType = ''executable'', dn_objectId = ''rm''\<rparr>]"
    unfolding d_def by code_simp
  moreover have "\<not> bd_allowed d" unfolding d_def by code_simp
  moreover have "''[REDACTED:content length='' @ show_nat (length ''rm x'') @ '']'' = ''[REDACTED:content length=4]''" by code_simp
  ultimately show ?thesis
    using bash_hook_traced [of "''rm x''" "Some ''main''" no_permissions "''error''" None no_scope_env, folded d_def]
    by (simp only: if_False list.distinct truthy_simps nullish_simps list.map simp_thms)
qed

text \<open>The tool hook denies a call exactly when the tool is a built-in one and the agent is unknown or may not use it; every
  refusal is emitted for audit, and nothing else is.\<close>

theorem tool_hook_iff:
  "(fst (toolPermissionHook db tool env agentId (Some name)) \<noteq> None \<longleftrightarrow>
      name \<noteq> [] \<and> name \<in> set SDK_TOOLS
      \<and> \<not> (truthy agentId \<and> canWithCapabilities (bash_grants db (hook_context tool env agentId)) ''use'' ''tool'' name))
   \<and> (snd (toolPermissionHook db tool env agentId (Some name)) \<noteq> [] \<longleftrightarrow>
      fst (toolPermissionHook db tool env agentId (Some name)) \<noteq> None)"
  by (simp add: toolPermissionHook_def Let_def canWithBash_iff)

theorem tool_hook_iff_witness:
  "fst (toolPermissionHook no_permissions None no_scope_env None (Some ''Bash'')) \<noteq> None"
proof -
  have "''Bash'' \<in> set SDK_TOOLS" by code_simp
  then show ?thesis using tool_hook_iff [of no_permissions None no_scope_env None "''Bash''"] by simp
qed

section \<open>Commands the parser misreads\<close>

text \<open>
  What a shell would run and the parser does not see: the command after a single ampersand, an executable in quotes, an
  inline-code flag in quotes, the command under \<open>sudo\<close> given with its path, and the second command of the tool in a chain.
\<close>

lemma single_ampersand_unseen:
  "bd_allowed (evaluateBashPermission no_permissions ''error'' ''ls & rm x'' (turn_context [''ls'']))"
  by code_simp

lemma quoted_executable_unseen:
  "bd_allowed (evaluateBashPermission no_permissions ''error'' (CHR 0x22 # ''bash'' @ CHR 0x22 # '' ls'') (turn_context [''ls'']))"
  by code_simp

lemma quoted_flag_unseen:
  "bd_allowed (evaluateBashPermission no_permissions ''error'' (''python3 '' @ CHR 0x22 # ''-c'' @ CHR 0x22 # '' x'') (turn_context [''python3'']))"
  by code_simp

lemma sudo_path_unseen:
  "bd_allowed (evaluateBashPermission no_permissions ''error'' ''/usr/bin/sudo rm x'' (turn_context [''sudo'']))"
  by code_simp

lemma second_target_unseen:
  "bd_allowed (evaluateBashPermission no_permissions ''error'' ''ravi agents list; ravi sessions read dev'' (turn_context []))
   \<and> \<not> bd_allowed (evaluateBashPermission no_permissions ''error'' ''ravi sessions read dev'' (turn_context []))"
  by code_simp

lemma everything_unblocks_shells:
  "bd_allowed (evaluateBashPermission no_permissions ''error'' ''bash x.sh'' (turn_context [''*'']))"
  by code_simp

end
