(* ===== verification/TaskStore.thy ===== *)
theory TaskStore
  imports Prelude "HOL-Library.List_Lexorder"
begin

text \<open>
  The store of tasks (\<open>src/src/tasks/task-db.ts\<close>) with the checkpoint arithmetic
  (\<open>checkpoint.ts\<close>), the progress contract (\<open>progress-contract.ts\<close>) and the normalization of
  runtime options (\<open>runtime-options.ts\<close>, \<open>runtime/effort.ts\<close>). A table is a list of rows in
  the order of insertion; the clock, read again for the event an operation appends, and fresh
  identifiers are arguments. The operations run outside a transaction, so the result of one
  that throws carries the writes it has made. JSON columns are values, numbers are integers,
  and the arrow in the message of a resumption, no code unit below 256, is written \<open>->\<close>.
\<close>

section \<open>Runtime options\<close>

record runtime_options =
  ro_model :: "string option"
  ro_effort :: "string option"
  ro_thinking :: "string option"

definition RUNTIME_EFFORT_LEVELS :: "string list" where
  "RUNTIME_EFFORT_LEVELS = [''none'', ''minimal'', ''low'', ''medium'', ''high'', ''xhigh'', ''max'', ''ultra'']"

definition TASK_RUNTIME_THINKING_LEVELS :: "string list" where
  "TASK_RUNTIME_THINKING_LEVELS = [''off'', ''normal'', ''verbose'']"

definition normalizeRuntimeString :: "string option \<Rightarrow> string option" where
  "normalizeRuntimeString value =
     (case value of None \<Rightarrow> None | Some s \<Rightarrow> if to_lower (trim s) = [] then None else Some (to_lower (trim s)))"

definition parseRuntimeEffort :: "string option \<Rightarrow> string + string option" where
  "parseRuntimeEffort value =
     (case normalizeRuntimeString value of
        None \<Rightarrow> Inr None
      | Some normalized \<Rightarrow>
          if normalized \<in> set RUNTIME_EFFORT_LEVELS then Inr (Some normalized)
          else Inl (''Invalid runtime effort: '' @ nullish value [] @ ''. Use '' @ join ''|'' RUNTIME_EFFORT_LEVELS @ ''.''))"

definition normalizeTaskRuntimeString :: "string option \<Rightarrow> string option" where
  "normalizeTaskRuntimeString value =
     (case value of None \<Rightarrow> None | Some s \<Rightarrow> if trim s = [] then None else Some (trim s))"

definition normalizeTaskRuntimeThinking :: "string option \<Rightarrow> string + string option" where
  "normalizeTaskRuntimeThinking value =
     (case map_option to_lower (normalizeTaskRuntimeString value) of
        None \<Rightarrow> Inr None
      | Some normalized \<Rightarrow>
          if normalized \<notin> set TASK_RUNTIME_THINKING_LEVELS
          then Inl (''Invalid runtime thinking: '' @ nullish value [] @ ''. Use '' @ join ''|'' TASK_RUNTIME_THINKING_LEVELS @ ''.'')
          else Inr (Some normalized))"

definition normalizeTaskRuntimeOptions :: "runtime_options option \<Rightarrow> string + runtime_options option" where
  "normalizeTaskRuntimeOptions input =
     (case input of
        None \<Rightarrow> Inr None
      | Some o' \<Rightarrow>
          let model = normalizeTaskRuntimeString (ro_model o')
          in case parseRuntimeEffort (ro_effort o') of
               Inl e \<Rightarrow> Inl e
             | Inr effort \<Rightarrow>
                 (case normalizeTaskRuntimeThinking (ro_thinking o') of
                    Inl e \<Rightarrow> Inl e
                  | Inr thinking \<Rightarrow>
                      if model = None \<and> effort = None \<and> thinking = None then Inr None
                      else Inr (Some \<lparr>ro_model = model, ro_effort = effort, ro_thinking = thinking\<rparr>)))"

definition serializeTaskRuntimeOptions :: "runtime_options option \<Rightarrow> string + runtime_options option" where
  "serializeTaskRuntimeOptions options = normalizeTaskRuntimeOptions options"

definition parseTaskRuntimeOptions :: "runtime_options option \<Rightarrow> runtime_options option" where
  "parseTaskRuntimeOptions raw = (case normalizeTaskRuntimeOptions raw of Inl e \<Rightarrow> None | Inr v \<Rightarrow> v)"

section \<open>Progress messages\<close>

definition is_letter :: "char \<Rightarrow> bool" where
  "is_letter c = (let n = (of_char c :: nat)
     in 65 \<le> n \<and> n \<le> 90 \<or> 97 \<le> n \<and> n \<le> 122 \<or> 192 \<le> n \<and> n \<le> 214 \<or> 216 \<le> n \<and> n \<le> 246 \<or> 248 \<le> n \<and> n \<le> 255)"

definition TASK_PROGRESS_MESSAGE_PLACEHOLDERS :: "string list" where
  "TASK_PROGRESS_MESSAGE_PLACEHOLDERS =
     [''wip'', ''progress'', ''update'', ''updating'', ''working'', ''todo'', ''tbd'', ''na'', ''n/a'', ''ok'']"

definition normalizeTaskProgressMessage :: "string \<Rightarrow> string option" where
  "normalizeTaskProgressMessage value =
     (let normalized = trim (squash (\<lambda>c. \<not> is_space c) CHR '' '' value);
          contentLength = length (filter (\<lambda>c. is_letter c \<or> is_digit c) normalized);
          letterCount = length (filter is_letter normalized)
      in if normalized = [] then None
         else if contentLength < 5 \<or> letterCount < 3 then None
         else if to_lower normalized \<in> set TASK_PROGRESS_MESSAGE_PLACEHOLDERS then None
         else Some normalized)"

definition requireTaskProgressMessage :: "string \<Rightarrow> string \<Rightarrow> string + string" where
  "requireTaskProgressMessage value errorMessage =
     (case normalizeTaskProgressMessage value of None \<Rightarrow> Inl errorMessage | Some normalized \<Rightarrow> Inr normalized)"

section \<open>Checkpoints\<close>

definition DEFAULT_TASK_CHECKPOINT_INTERVAL_MS :: int where
  "DEFAULT_TASK_CHECKPOINT_INTERVAL_MS = 5 * 60 * 1000"

definition resolveTaskCheckpointIntervalMs :: "int option \<Rightarrow> int" where
  "resolveTaskCheckpointIntervalMs intervalMs =
     (case intervalMs of
        Some n \<Rightarrow> if n > 0 then max 1000 n else DEFAULT_TASK_CHECKPOINT_INTERVAL_MS
      | None \<Rightarrow> DEFAULT_TASK_CHECKPOINT_INTERVAL_MS)"

definition computeTaskCheckpointDueAt :: "int \<Rightarrow> int option \<Rightarrow> int" where
  "computeTaskCheckpointDueAt fromTs intervalMs = fromTs + resolveTaskCheckpointIntervalMs intervalMs"

text \<open>The number of missed checkpoints and the next time one is due.\<close>

definition calculateTaskCheckpointMiss :: "int \<Rightarrow> int \<Rightarrow> int \<Rightarrow> int \<times> int" where
  "calculateTaskCheckpointMiss dueAt intervalMs now =
     (let effectiveIntervalMs = resolveTaskCheckpointIntervalMs (Some intervalMs)
      in if dueAt > now then (0, dueAt)
         else let missedCount = (now - dueAt) div effectiveIntervalMs + 1
              in (missedCount, dueAt + missedCount * effectiveIntervalMs))"

section \<open>The tables\<close>

datatype task_status = TaskOpen | TaskDispatched | TaskInProgress | TaskBlocked | TaskDone | TaskFailed
datatype task_priority = PriorityLow | PriorityNormal | PriorityHigh | PriorityUrgent
datatype asg_status = AsgAssigned | AsgAccepted | AsgBlocked | AsgDone | AsgFailed | AsgSuperseded
datatype report_event = ReportBlocked | ReportDone | ReportFailed
datatype worktree_mode = WorktreeInherit | WorktreePath

datatype task_event_type =
    EvCreated | EvDispatched | EvLaunchPlanned | EvReady | EvDependencyAdded | EvDependencyRemoved
  | EvDependencySatisfied | EvProgress | EvCheckpointMissed | EvComment | EvUpdated | EvArchived
  | EvUnarchived | EvBlocked | EvResumed | EvDone | EvFailed | EvChildBlocked | EvChildDone | EvChildFailed

record task_worktree =
  wt_mode :: worktree_mode
  wt_path :: "string option"
  wt_branch :: "string option"

text \<open>The three columns of a worktree: mode, path and branch.\<close>

type_synonym worktree_columns = "worktree_mode option \<times> string option \<times> string option"

record task_record =
  tsk_id :: string
  tsk_title :: string
  tsk_instructions :: string
  tsk_status :: task_status
  tsk_priority :: task_priority
  tsk_progress :: int
  tsk_profileId :: "string option"
  tsk_profileVersion :: "string option"
  tsk_profileSource :: "string option"
  tsk_profileSnapshot :: "json option"
  tsk_profileState :: "json option"
  tsk_profileInput :: "json option"
  tsk_runtimeOverride :: "runtime_options option"
  tsk_checkpointIntervalMs :: "int option"
  tsk_reportTo :: "string option"
  tsk_reportEvents :: "report_event list"
  tsk_parentTaskId :: "string option"
  tsk_taskDir :: "string option"
  tsk_createdBy :: "string option"
  tsk_createdByAgentId :: "string option"
  tsk_createdBySession :: "string option"
  tsk_assigneeAgentId :: "string option"
  tsk_assigneeSession :: "string option"
  tsk_worktree :: worktree_columns
  tsk_summary :: "string option"
  tsk_blockerReason :: "string option"
  tsk_archivedAt :: "int option"
  tsk_archivedBy :: "string option"
  tsk_archiveReason :: "string option"
  tsk_createdAt :: int
  tsk_updatedAt :: int
  tsk_dispatchedAt :: "int option"
  tsk_startedAt :: "int option"
  tsk_completedAt :: "int option"

record task_assignment =
  as_id :: string
  as_taskId :: string
  as_agentId :: string
  as_session :: string
  as_assignedBy :: "string option"
  as_assignedByAgentId :: "string option"
  as_assignedBySession :: "string option"
  as_worktree :: worktree_columns
  as_runtimeOverride :: "runtime_options option"
  as_checkpointIntervalMs :: "int option"
  as_reportTo :: "string option"
  as_reportEvents :: "report_event list"
  as_lastReportAt :: "int option"
  as_dueAt :: "int option"
  as_overdueCount :: int
  as_status :: asg_status
  as_assignedAt :: int
  as_acceptedAt :: "int option"
  as_completedAt :: "int option"

record task_event =
  tv_id :: nat
  tv_taskId :: string
  tv_type :: task_event_type
  tv_actor :: "string option"
  tv_agentId :: "string option"
  tv_session :: "string option"
  tv_message :: "string option"
  tv_progress :: "int option"
  tv_relatedTaskId :: "string option"
  tv_createdAt :: int

record task_comment =
  tc_id :: string
  tc_taskId :: string
  tc_author :: "string option"
  tc_authorAgentId :: "string option"
  tc_authorSession :: "string option"
  tc_body :: string
  tc_createdAt :: int

record task_dependency =
  dp_taskId :: string
  dp_dependsOn :: string
  dp_createdAt :: int
  dp_satisfiedAt :: "int option"
  dp_satisfiedBy :: "nat option"

record launch_plan =
  pl_taskId :: string
  pl_agentId :: string
  pl_session :: string
  pl_assignedBy :: "string option"
  pl_assignedByAgentId :: "string option"
  pl_assignedBySession :: "string option"
  pl_worktree :: worktree_columns
  pl_runtimeOverride :: "runtime_options option"
  pl_checkpointIntervalMs :: "int option"
  pl_reportTo :: "string option"
  pl_reportEvents :: "report_event list"
  pl_createdAt :: int
  pl_updatedAt :: int

text \<open>The database; \<open>td_eventSeq\<close> is the largest event number ever given.\<close>

record task_db =
  td_tasks :: "task_record list"
  td_assignments :: "task_assignment list"
  td_events :: "task_event list"
  td_comments :: "task_comment list"
  td_dependencies :: "task_dependency list"
  td_plans :: "launch_plan list"
  td_eventSeq :: nat

definition empty_task_db :: task_db where
  "empty_task_db = \<lparr>td_tasks = [], td_assignments = [], td_events = [], td_comments = [], td_dependencies = [],
     td_plans = [], td_eventSeq = 0\<rparr>"

text \<open>The outcome of an operation: a thrown message or a value, and the database it leaves.\<close>

type_synonym 'a task_result = "(string + 'a) \<times> task_db"

definition tbind :: "'a task_result \<Rightarrow> ('a \<Rightarrow> task_db \<Rightarrow> 'b task_result) \<Rightarrow> 'b task_result" where
  "tbind r f = (case r of (Inl e, db) \<Rightarrow> (Inl e, db) | (Inr x, db) \<Rightarrow> f x db)"

section \<open>Rows and columns\<close>

definition normalizeTaskReportToSessionName :: "string option \<Rightarrow> string option" where
  "normalizeTaskReportToSessionName sessionName =
     (case sessionName of None \<Rightarrow> None | Some s \<Rightarrow> if trim s = [] then None else Some (trim s))"

definition DEFAULT_TASK_REPORT_EVENTS :: "report_event list" where
  "DEFAULT_TASK_REPORT_EVENTS = [ReportBlocked, ReportDone, ReportFailed]"

definition normalizeTaskReportEvents :: "report_event list option \<Rightarrow> report_event list" where
  "normalizeTaskReportEvents events =
     (let normalized = dedup_by (\<lambda>e. e) (nullish events [])
      in if normalized \<noteq> [] then normalized else DEFAULT_TASK_REPORT_EVENTS)"

definition worktreeToColumns :: "task_worktree option \<Rightarrow> worktree_columns" where
  "worktreeToColumns worktree =
     (map_option wt_mode worktree, Option.bind worktree wt_path, Option.bind worktree wt_branch)"

definition text_value :: "string option \<Rightarrow> string option" where
  "text_value v = (if v = Some [] then None else v)"

definition time_value :: "int option \<Rightarrow> int option" where
  "time_value v = (if v = Some 0 then None else v)"

definition rowToWorktree :: "worktree_columns \<Rightarrow> worktree_columns" where
  "rowToWorktree cols =
     (case cols of (None, path, branch) \<Rightarrow> (None, None, None)
      | (Some mode, path, branch) \<Rightarrow> (Some mode, text_value path, text_value branch))"

text \<open>A row as it is read: an empty text and a zero time count as absent.\<close>

definition rowToTask :: "task_record \<Rightarrow> task_record" where
  "rowToTask row = row
     \<lparr>tsk_profileId := text_value (tsk_profileId row), tsk_profileVersion := text_value (tsk_profileVersion row),
      tsk_profileSource := text_value (tsk_profileSource row),
      tsk_runtimeOverride := parseTaskRuntimeOptions (tsk_runtimeOverride row),
      tsk_reportTo := text_value (tsk_reportTo row), tsk_reportEvents := normalizeTaskReportEvents (Some (tsk_reportEvents row)),
      tsk_parentTaskId := text_value (tsk_parentTaskId row), tsk_taskDir := text_value (tsk_taskDir row),
      tsk_createdBy := text_value (tsk_createdBy row), tsk_createdByAgentId := text_value (tsk_createdByAgentId row),
      tsk_createdBySession := text_value (tsk_createdBySession row),
      tsk_assigneeAgentId := text_value (tsk_assigneeAgentId row), tsk_assigneeSession := text_value (tsk_assigneeSession row),
      tsk_worktree := rowToWorktree (tsk_worktree row), tsk_summary := text_value (tsk_summary row),
      tsk_blockerReason := text_value (tsk_blockerReason row), tsk_archivedAt := time_value (tsk_archivedAt row),
      tsk_archivedBy := text_value (tsk_archivedBy row), tsk_archiveReason := text_value (tsk_archiveReason row),
      tsk_dispatchedAt := time_value (tsk_dispatchedAt row), tsk_startedAt := time_value (tsk_startedAt row),
      tsk_completedAt := time_value (tsk_completedAt row)\<rparr>"

definition rowToAssignment :: "task_assignment \<Rightarrow> task_assignment" where
  "rowToAssignment row = row
     \<lparr>as_assignedBy := text_value (as_assignedBy row), as_assignedByAgentId := text_value (as_assignedByAgentId row),
      as_assignedBySession := text_value (as_assignedBySession row), as_worktree := rowToWorktree (as_worktree row),
      as_runtimeOverride := parseTaskRuntimeOptions (as_runtimeOverride row), as_reportTo := text_value (as_reportTo row),
      as_reportEvents := normalizeTaskReportEvents (Some (as_reportEvents row)),
      as_lastReportAt := time_value (as_lastReportAt row), as_dueAt := time_value (as_dueAt row),
      as_acceptedAt := time_value (as_acceptedAt row), as_completedAt := time_value (as_completedAt row)\<rparr>"

definition rowToEvent :: "task_event \<Rightarrow> task_event" where
  "rowToEvent row = row
     \<lparr>tv_actor := text_value (tv_actor row), tv_agentId := text_value (tv_agentId row), tv_session := text_value (tv_session row),
      tv_message := text_value (tv_message row), tv_relatedTaskId := text_value (tv_relatedTaskId row)\<rparr>"

definition rowToComment :: "task_comment \<Rightarrow> task_comment" where
  "rowToComment row = row
     \<lparr>tc_author := text_value (tc_author row), tc_authorAgentId := text_value (tc_authorAgentId row),
      tc_authorSession := text_value (tc_authorSession row)\<rparr>"

definition rowToTaskLaunchPlan :: "launch_plan \<Rightarrow> launch_plan" where
  "rowToTaskLaunchPlan row = row
     \<lparr>pl_assignedBy := text_value (pl_assignedBy row), pl_assignedByAgentId := text_value (pl_assignedByAgentId row),
      pl_assignedBySession := text_value (pl_assignedBySession row), pl_worktree := rowToWorktree (pl_worktree row),
      pl_runtimeOverride := parseTaskRuntimeOptions (pl_runtimeOverride row), pl_reportTo := text_value (pl_reportTo row),
      pl_reportEvents := normalizeTaskReportEvents (Some (pl_reportEvents row))\<rparr>"

section \<open>Reads\<close>

definition task_row_of :: "task_db \<Rightarrow> string \<Rightarrow> task_record option" where
  "task_row_of db tid = find (\<lambda>t. tsk_id t = tid) (td_tasks db)"

definition dbGetTask :: "task_db \<Rightarrow> string \<Rightarrow> task_record option" where
  "dbGetTask db tid = map_option rowToTask (task_row_of db tid)"

definition getTaskOrThrow :: "string \<Rightarrow> task_db \<Rightarrow> task_record task_result" where
  "getTaskOrThrow tid db =
     (case dbGetTask db tid of None \<Rightarrow> (Inl (''Task not found: '' @ tid), db) | Some task \<Rightarrow> (Inr task, db))"

definition getAssignmentRowById :: "task_db \<Rightarrow> string \<Rightarrow> task_assignment option" where
  "getAssignmentRowById db assignmentId = find (\<lambda>a. as_id a = assignmentId) (td_assignments db)"

definition getLatestTaskEvent :: "task_db \<Rightarrow> string \<Rightarrow> task_event_type option \<Rightarrow> task_event option" where
  "getLatestTaskEvent db taskId type =
     map_option rowToEvent (find (\<lambda>e. tv_taskId e = taskId \<and> (type = None \<or> type = Some (tv_type e))) (rev (td_events db)))"

definition asg_active :: "asg_status \<Rightarrow> bool" where
  "asg_active s \<longleftrightarrow> s \<in> {AsgAssigned, AsgAccepted, AsgBlocked}"

definition dbGetActiveAssignment :: "task_db \<Rightarrow> string \<Rightarrow> task_assignment option" where
  "dbGetActiveAssignment db taskId =
     (case sort_key (\<lambda>a. - as_assignedAt a) (filter (\<lambda>a. as_taskId a = taskId \<and> asg_active (as_status a)) (td_assignments db)) of
        [] \<Rightarrow> None | row # _ \<Rightarrow> Some (rowToAssignment row))"

definition dbListTaskDependencies :: "task_db \<Rightarrow> string \<Rightarrow> task_dependency list" where
  "dbListTaskDependencies db taskId =
     sort_key (\<lambda>d. (dp_createdAt d, dp_dependsOn d)) (filter (\<lambda>d. dp_taskId d = taskId) (td_dependencies db))"

definition dbListTaskDependents :: "task_db \<Rightarrow> string \<Rightarrow> task_dependency list" where
  "dbListTaskDependents db dependsOnTaskId =
     sort_key (\<lambda>d. (dp_createdAt d, dp_taskId d)) (filter (\<lambda>d. dp_dependsOn d = dependsOnTaskId) (td_dependencies db))"

definition dbGetTaskLaunchPlan :: "task_db \<Rightarrow> string \<Rightarrow> launch_plan option" where
  "dbGetTaskLaunchPlan db taskId = map_option rowToTaskLaunchPlan (find (\<lambda>p. pl_taskId p = taskId) (td_plans db))"

section \<open>Writes\<close>

text \<open>\<open>UPDATE ... WHERE id = ?\<close> on the tasks and on the active assignments of a task.\<close>

definition update_task :: "string \<Rightarrow> (task_record \<Rightarrow> task_record) \<Rightarrow> task_db \<Rightarrow> task_db" where
  "update_task tid f db = db\<lparr>td_tasks := map (\<lambda>t. if tsk_id t = tid then f t else t) (td_tasks db)\<rparr>"

definition update_active :: "(task_assignment \<Rightarrow> bool) \<Rightarrow> (task_assignment \<Rightarrow> task_assignment) \<Rightarrow> task_db \<Rightarrow> task_db" where
  "update_active p f db =
     db\<lparr>td_assignments := map (\<lambda>a. if p a \<and> asg_active (as_status a) then f a else a) (td_assignments db)\<rparr>"

record event_input =
  ei_actor :: "string option"
  ei_agentId :: "string option"
  ei_session :: "string option"
  ei_message :: "string option"
  ei_progress :: "int option"
  ei_related :: "string option"

definition clamp_progress :: "int \<Rightarrow> int" where
  "clamp_progress p = max 0 (min 100 p)"

definition appendTaskEvent :: "int \<Rightarrow> string \<Rightarrow> task_event_type \<Rightarrow> event_input \<Rightarrow> task_db \<Rightarrow> task_event task_result" where
  "appendTaskEvent now taskId type input db =
     (if task_row_of db taskId = None then (Inl ''FOREIGN KEY constraint failed'', db)
      else
        let row = \<lparr>tv_id = Suc (td_eventSeq db), tv_taskId = taskId, tv_type = type, tv_actor = ei_actor input,
                   tv_agentId = ei_agentId input, tv_session = ei_session input, tv_message = ei_message input,
                   tv_progress = map_option clamp_progress (ei_progress input), tv_relatedTaskId = ei_related input,
                   tv_createdAt = now\<rparr>
        in (Inr (rowToEvent row), db\<lparr>td_events := td_events db @ [row], td_eventSeq := Suc (td_eventSeq db)\<rparr>))"

end
