(* ===== verification/TaskLifecycle.thy ===== *)
theory TaskLifecycle
  imports TaskStore
begin

text \<open>
  The operations of the task store (\<open>src/src/tasks/task-db.ts\<close>): creation, launch plans,
  dependencies, dispatch, progress, block, resume, failure, completion, checkpoints, archive and
  deletion. The queries that only list tasks for display are not modelled.
\<close>

section \<open>Creating tasks\<close>

record create_input =
  ci_title :: string
  ci_instructions :: string
  ci_priority :: "task_priority option"
  ci_profileId :: "string option"
  ci_profileVersion :: "string option"
  ci_profileSource :: "string option"
  ci_profileSnapshot :: "json option"
  ci_profileState :: "json option"
  ci_profileInput :: "json option"
  ci_runtimeOverride :: "runtime_options option"
  ci_checkpointIntervalMs :: "int option"
  ci_reportTo :: "string option"
  ci_reportEvents :: "report_event list option"
  ci_parentTaskId :: "string option"
  ci_createdBy :: "string option"
  ci_createdByAgentId :: "string option"
  ci_createdBySession :: "string option"
  ci_worktree :: "task_worktree option"

definition DEFAULT_TASK_PROFILE_ID :: string where
  "DEFAULT_TASK_PROFILE_ID = ''default''"

definition new_task :: "string \<Rightarrow> int \<Rightarrow> runtime_options option \<Rightarrow> create_input \<Rightarrow> task_record" where
  "new_task tid now runtime input =
     \<lparr>tsk_id = tid, tsk_title = ci_title input, tsk_instructions = ci_instructions input, tsk_status = TaskOpen,
      tsk_priority = nullish (ci_priority input) PriorityNormal, tsk_progress = 0,
      tsk_profileId = Some (nullish (ci_profileId input) DEFAULT_TASK_PROFILE_ID),
      tsk_profileVersion = ci_profileVersion input, tsk_profileSource = ci_profileSource input,
      tsk_profileSnapshot = ci_profileSnapshot input, tsk_profileState = ci_profileState input,
      tsk_profileInput = ci_profileInput input, tsk_runtimeOverride = runtime,
      tsk_checkpointIntervalMs = Some (resolveTaskCheckpointIntervalMs (ci_checkpointIntervalMs input)),
      tsk_reportTo = normalizeTaskReportToSessionName (orElse (ci_reportTo input) (ci_createdBySession input)),
      tsk_reportEvents = normalizeTaskReportEvents (ci_reportEvents input),
      tsk_parentTaskId = ci_parentTaskId input, tsk_taskDir = None, tsk_createdBy = ci_createdBy input,
      tsk_createdByAgentId = ci_createdByAgentId input, tsk_createdBySession = ci_createdBySession input,
      tsk_assigneeAgentId = None, tsk_assigneeSession = None, tsk_worktree = worktreeToColumns (ci_worktree input),
      tsk_summary = None, tsk_blockerReason = None, tsk_archivedAt = None, tsk_archivedBy = None, tsk_archiveReason = None,
      tsk_createdAt = now, tsk_updatedAt = now, tsk_dispatchedAt = None, tsk_startedAt = None, tsk_completedAt = None\<rparr>"

definition dbCreateTask :: "string \<Rightarrow> int \<Rightarrow> int \<Rightarrow> create_input \<Rightarrow> task_db \<Rightarrow> (task_record \<times> task_event) task_result" where
  "dbCreateTask uuid now now' input db =
     (case serializeTaskRuntimeOptions (ci_runtimeOverride input) of
        Inl e \<Rightarrow> (Inl e, db)
      | Inr runtime \<Rightarrow>
          let tid = ''task-'' @ take 8 uuid
          in if task_row_of db tid \<noteq> None then (Inl ''UNIQUE constraint failed: tasks.id'', db)
             else
               tbind (appendTaskEvent now' tid EvCreated
                        \<lparr>ei_actor = ci_createdBy input, ei_agentId = None, ei_session = None,
                         ei_message = Some (ci_title input), ei_progress = Some 0, ei_related = None\<rparr>
                        (db\<lparr>td_tasks := td_tasks db @ [new_task tid now runtime input]\<rparr>)) (\<lambda>event db1.
               tbind (getTaskOrThrow tid db1) (\<lambda>task db2. (Inr (task, event), db2))))"

section \<open>Profiles\<close>

definition dbSetTaskProfileId :: "string \<Rightarrow> string \<Rightarrow> task_db \<Rightarrow> task_record task_result" where
  "dbSetTaskProfileId taskId profileId db =
     getTaskOrThrow taskId (update_task taskId (\<lambda>t. t\<lparr>tsk_profileId := Some profileId\<rparr>) db)"

definition dbSetTaskProfileResolution ::
  "string \<Rightarrow> string \<Rightarrow> string \<Rightarrow> string \<Rightarrow> json \<Rightarrow> task_db \<Rightarrow> task_record task_result" where
  "dbSetTaskProfileResolution taskId profileId version source snapshot db =
     getTaskOrThrow taskId (update_task taskId
       (\<lambda>t. t\<lparr>tsk_profileId := Some profileId, tsk_profileVersion := Some version, tsk_profileSource := Some source,
              tsk_profileSnapshot := Some snapshot\<rparr>) db)"

definition dbSetTaskProfileState :: "string \<Rightarrow> json \<Rightarrow> task_db \<Rightarrow> task_record task_result" where
  "dbSetTaskProfileState taskId profileState db =
     getTaskOrThrow taskId (update_task taskId (\<lambda>t. t\<lparr>tsk_profileState := Some profileState\<rparr>) db)"

section \<open>Launch plans\<close>

record dispatch_input =
  ds_agentId :: string
  ds_session :: string
  ds_assignedBy :: "string option"
  ds_assignedByAgentId :: "string option"
  ds_assignedBySession :: "string option"
  ds_worktree :: "task_worktree option"
  ds_runtimeOverride :: "runtime_options option"
  ds_checkpointIntervalMs :: "int option"
  ds_reportTo :: "string option"
  ds_reportEvents :: "report_event list option"

definition new_plan :: "string \<Rightarrow> int \<Rightarrow> runtime_options option \<Rightarrow> dispatch_input \<Rightarrow> launch_plan" where
  "new_plan taskId now runtime input =
     \<lparr>pl_taskId = taskId, pl_agentId = ds_agentId input, pl_session = ds_session input, pl_assignedBy = ds_assignedBy input,
      pl_assignedByAgentId = ds_assignedByAgentId input, pl_assignedBySession = ds_assignedBySession input,
      pl_worktree = worktreeToColumns (ds_worktree input), pl_runtimeOverride = runtime,
      pl_checkpointIntervalMs = ds_checkpointIntervalMs input,
      pl_reportTo = normalizeTaskReportToSessionName (ds_reportTo input),
      pl_reportEvents = normalizeTaskReportEvents (ds_reportEvents input), pl_createdAt = now, pl_updatedAt = now\<rparr>"

definition dbSetTaskLaunchPlan :: "string \<Rightarrow> int \<Rightarrow> dispatch_input \<Rightarrow> task_db \<Rightarrow> launch_plan option task_result" where
  "dbSetTaskLaunchPlan taskId now input db =
     tbind (getTaskOrThrow taskId db) (\<lambda>_ db.
     (case serializeTaskRuntimeOptions (ds_runtimeOverride input) of
        Inl e \<Rightarrow> (Inl e, db)
      | Inr runtime \<Rightarrow>
          let plan = new_plan taskId now runtime input;
              plans = (case find (\<lambda>p. pl_taskId p = taskId) (td_plans db) of
                         None \<Rightarrow> td_plans db @ [plan]
                       | Some _ \<Rightarrow> map (\<lambda>p. if pl_taskId p = taskId then plan\<lparr>pl_createdAt := pl_createdAt p\<rparr> else p) (td_plans db));
              db' = db\<lparr>td_plans := plans\<rparr>
          in (Inr (dbGetTaskLaunchPlan db' taskId), db')))"

definition dbClearTaskLaunchPlan :: "string \<Rightarrow> task_db \<Rightarrow> bool task_result" where
  "dbClearTaskLaunchPlan taskId db =
     (Inr (list_ex (\<lambda>p. pl_taskId p = taskId) (td_plans db)),
      db\<lparr>td_plans := filter (\<lambda>p. pl_taskId p \<noteq> taskId) (td_plans db)\<rparr>)"

section \<open>Dependencies\<close>

definition resolveSatisfiedDependencySource :: "task_db \<Rightarrow> string \<Rightarrow> int option \<times> nat option" where
  "resolveSatisfiedDependencySource db dependsOnTaskId =
     (case dbGetTask db dependsOnTaskId of
        None \<Rightarrow> (None, None)
      | Some upstreamTask \<Rightarrow>
          if tsk_status upstreamTask \<noteq> TaskDone then (None, None)
          else case getLatestTaskEvent db dependsOnTaskId (Some EvDone) of
                 None \<Rightarrow> (None, None)
               | Some doneEvent \<Rightarrow> (Some (tv_createdAt doneEvent), Some (tv_id doneEvent)))"

definition find_dependency :: "task_db \<Rightarrow> string \<Rightarrow> string \<Rightarrow> task_dependency option" where
  "find_dependency db taskId dependsOnTaskId =
     find (\<lambda>d. dp_taskId d = taskId \<and> dp_dependsOn d = dependsOnTaskId) (td_dependencies db)"

text \<open>The result: the row, and whether it was there before.\<close>

definition dbAddTaskDependency ::
  "int \<Rightarrow> string \<Rightarrow> string \<Rightarrow> task_db \<Rightarrow> (task_dependency \<times> bool) task_result" where
  "dbAddTaskDependency now taskId dependsOnTaskId db =
     tbind (getTaskOrThrow taskId db) (\<lambda>_ db.
     tbind (getTaskOrThrow dependsOnTaskId db) (\<lambda>_ db.
     case find_dependency db taskId dependsOnTaskId of
       Some existing \<Rightarrow> (Inr (existing, True), db)
     | None \<Rightarrow>
         let (at, by) = resolveSatisfiedDependencySource db dependsOnTaskId;
             row = \<lparr>dp_taskId = taskId, dp_dependsOn = dependsOnTaskId, dp_createdAt = now, dp_satisfiedAt = at,
                    dp_satisfiedBy = by\<rparr>
         in (Inr (row, False),
             update_task taskId (\<lambda>t. t\<lparr>tsk_updatedAt := now\<rparr>) (db\<lparr>td_dependencies := td_dependencies db @ [row]\<rparr>))))"

definition dbRemoveTaskDependency ::
  "int \<Rightarrow> string \<Rightarrow> string \<Rightarrow> task_db \<Rightarrow> (task_dependency option \<times> bool) task_result" where
  "dbRemoveTaskDependency now taskId dependsOnTaskId db =
     (case find_dependency db taskId dependsOnTaskId of
        None \<Rightarrow> (Inr (None, True), db)
      | Some existing \<Rightarrow>
          (Inr (Some existing, False),
           update_task taskId (\<lambda>t. t\<lparr>tsk_updatedAt := now\<rparr>)
             (db\<lparr>td_dependencies :=
                   filter (\<lambda>d. \<not> (dp_taskId d = taskId \<and> dp_dependsOn d = dependsOnTaskId)) (td_dependencies db)\<rparr>)))"

definition dbMarkTaskDependenciesSatisfiedByUpstream ::
  "string \<Rightarrow> nat \<Rightarrow> int \<Rightarrow> task_db \<Rightarrow> task_dependency list \<times> task_db" where
  "dbMarkTaskDependenciesSatisfiedByUpstream dependsOnTaskId eventId createdAt db =
     (let pending = (\<lambda>d. dp_dependsOn d = dependsOnTaskId \<and> dp_satisfiedAt d = None);
          mark = (\<lambda>d. d\<lparr>dp_satisfiedAt := Some createdAt, dp_satisfiedBy := Some eventId\<rparr>);
          pendingRows = filter pending (td_dependencies db)
      in if pendingRows = [] then ([], db)
         else (map mark pendingRows,
               db\<lparr>td_dependencies := map (\<lambda>d. if pending d then mark d else d) (td_dependencies db)\<rparr>))"

section \<open>Comments and events\<close>

record comment_input =
  cm_author :: "string option"
  cm_authorAgentId :: "string option"
  cm_authorSession :: "string option"
  cm_body :: string

definition dbAddTaskComment :: "string \<Rightarrow> int \<Rightarrow> string \<Rightarrow> comment_input \<Rightarrow> task_db \<Rightarrow> task_comment task_result" where
  "dbAddTaskComment uuid now taskId input db =
     tbind (getTaskOrThrow taskId db) (\<lambda>_ db.
     let tid = ''cmt-'' @ take 8 uuid;
         row = \<lparr>tc_id = tid, tc_taskId = taskId, tc_author = cm_author input, tc_authorAgentId = cm_authorAgentId input,
                tc_authorSession = cm_authorSession input, tc_body = cm_body input, tc_createdAt = now\<rparr>
     in if list_ex (\<lambda>c. tc_id c = tid) (td_comments db) then (Inl ''UNIQUE constraint failed: task_comments.id'', db)
        else (Inr (rowToComment row),
              update_task taskId (\<lambda>t. t\<lparr>tsk_updatedAt := now\<rparr>) (db\<lparr>td_comments := td_comments db @ [row]\<rparr>)))"

definition dbAppendTaskEvent ::
  "int \<Rightarrow> int \<Rightarrow> string \<Rightarrow> task_event_type \<Rightarrow> event_input \<Rightarrow> bool \<Rightarrow> task_db \<Rightarrow> (task_record \<times> task_event) task_result" where
  "dbAppendTaskEvent now now' taskId type input touchTask db =
     tbind (getTaskOrThrow taskId db) (\<lambda>_ db.
     tbind (appendTaskEvent now' taskId type input
              (if touchTask then update_task taskId (\<lambda>t. t\<lparr>tsk_updatedAt := now\<rparr>) db else db)) (\<lambda>event db.
     tbind (getTaskOrThrow taskId db) (\<lambda>task db. (Inr (task, event), db))))"

section \<open>The lifecycle of a task\<close>

definition buildDispatchEventMessage :: "dispatch_input \<Rightarrow> string" where
  "buildDispatchEventMessage input =
     join '' ''
       [''Dispatched to '' @ ds_agentId input @ ''/'' @ ds_session input @ ''.'', ''Dispatch summary surfaced here:'',
        ''the runtime caller did not provide a profile-specific summary,'',
        ''so treat this as a generic dispatch and sync via ravi tasks report|done|block|fail.'']"

definition new_assignment :: "string \<Rightarrow> string \<Rightarrow> int \<Rightarrow> runtime_options option \<Rightarrow> task_record \<Rightarrow> dispatch_input \<Rightarrow> task_assignment" where
  "new_assignment tid taskId now runtime task input =
     \<lparr>as_id = tid, as_taskId = taskId, as_agentId = ds_agentId input, as_session = ds_session input,
      as_assignedBy = ds_assignedBy input, as_assignedByAgentId = ds_assignedByAgentId input,
      as_assignedBySession = ds_assignedBySession input, as_worktree = worktreeToColumns (ds_worktree input),
      as_runtimeOverride = runtime,
      as_checkpointIntervalMs =
        Some (resolveTaskCheckpointIntervalMs (orElse (ds_checkpointIntervalMs input) (tsk_checkpointIntervalMs task))),
      as_reportTo = normalizeTaskReportToSessionName (orElse (ds_reportTo input) (tsk_reportTo task)),
      as_reportEvents = normalizeTaskReportEvents (orElse (ds_reportEvents input) (Some (tsk_reportEvents task))),
      as_lastReportAt = None, as_dueAt = None, as_overdueCount = 0, as_status = AsgAssigned, as_assignedAt = now,
      as_acceptedAt = None, as_completedAt = None\<rparr>"

definition supersede :: "int \<Rightarrow> task_assignment \<Rightarrow> task_assignment" where
  "supersede now a = a\<lparr>as_status := AsgSuperseded, as_completedAt := orElse (as_completedAt a) (Some now), as_dueAt := None\<rparr>"

definition dbDispatchTask ::
  "string \<Rightarrow> int \<Rightarrow> int \<Rightarrow> string \<Rightarrow> dispatch_input \<Rightarrow> string option \<Rightarrow> task_db
     \<Rightarrow> (task_record \<times> task_assignment option \<times> task_event) task_result" where
  "dbDispatchTask uuid now now' taskId input eventMessage db =
     tbind (getTaskOrThrow taskId db) (\<lambda>task db.
     let db1 = db\<lparr>td_plans := filter (\<lambda>p. pl_taskId p \<noteq> taskId) (td_plans db)\<rparr>;
         db2 = update_active (\<lambda>a. as_taskId a = taskId) (supersede now) db1;
         tid = ''asg-'' @ take 8 uuid
     in case serializeTaskRuntimeOptions (ds_runtimeOverride input) of
          Inl e \<Rightarrow> (Inl e, db2)
        | Inr runtime \<Rightarrow>
            if getAssignmentRowById db2 tid \<noteq> None then (Inl ''UNIQUE constraint failed: task_assignments.id'', db2)
            else
              let db3 = db2\<lparr>td_assignments := td_assignments db2 @ [new_assignment tid taskId now runtime task input]\<rparr>;
                  db4 = update_task taskId
                          (\<lambda>t. t\<lparr>tsk_status := TaskDispatched, tsk_assigneeAgentId := Some (ds_agentId input),
                                 tsk_assigneeSession := Some (ds_session input), tsk_dispatchedAt := Some now,
                                 tsk_updatedAt := now\<rparr>) db3
              in tbind (appendTaskEvent now' taskId EvDispatched
                          \<lparr>ei_actor = ds_assignedBy input, ei_agentId = Some (ds_agentId input),
                           ei_session = Some (ds_session input),
                           ei_message = Some (nullish eventMessage (buildDispatchEventMessage input)),
                           ei_progress = Some 0, ei_related = None\<rparr> db4) (\<lambda>event db5.
                 tbind (getTaskOrThrow taskId db5) (\<lambda>task' db6.
                   (Inr (task', dbGetActiveAssignment db6 taskId, event), db6))))"

record progress_input =
  pg_actor :: "string option"
  pg_agentId :: "string option"
  pg_session :: "string option"
  pg_message :: string
  pg_progress :: "int option"
  pg_resetCheckpoint :: "bool option"

definition accept :: "int \<Rightarrow> task_assignment \<Rightarrow> task_assignment" where
  "accept now a = a
     \<lparr>as_status := (if as_status a \<in> {AsgAssigned, AsgBlocked} then AsgAccepted else as_status a),
      as_acceptedAt := orElse (as_acceptedAt a) (Some now)\<rparr>"

text \<open>The rows an update that may be limited to one session is about.\<close>

definition of_session :: "string \<Rightarrow> string option \<Rightarrow> task_assignment \<Rightarrow> bool" where
  "of_session taskId sessionName a \<longleftrightarrow>
     as_taskId a = taskId \<and> (if truthy sessionName then Some (as_session a) = sessionName else True)"

definition markActiveAssignmentAccepted :: "int \<Rightarrow> string \<Rightarrow> string option \<Rightarrow> task_db \<Rightarrow> task_db" where
  "markActiveAssignmentAccepted now taskId sessionName db = update_active (of_session taskId sessionName) (accept now) db"

definition status_name :: "task_status \<Rightarrow> string" where
  "status_name s =
     (case s of TaskOpen \<Rightarrow> ''open'' | TaskDispatched \<Rightarrow> ''dispatched'' | TaskInProgress \<Rightarrow> ''in_progress''
      | TaskBlocked \<Rightarrow> ''blocked'' | TaskDone \<Rightarrow> ''done'' | TaskFailed \<Rightarrow> ''failed'')"

definition progress_event :: "progress_input \<Rightarrow> string \<Rightarrow> int \<Rightarrow> event_input" where
  "progress_event input message progress =
     \<lparr>ei_actor = pg_actor input, ei_agentId = pg_agentId input, ei_session = pg_session input, ei_message = Some message,
      ei_progress = Some progress, ei_related = None\<rparr>"

definition report_checkpoint :: "int \<Rightarrow> int \<Rightarrow> task_assignment \<Rightarrow> task_assignment" where
  "report_checkpoint now due a = (accept now a)\<lparr>as_lastReportAt := Some now, as_dueAt := Some due, as_overdueCount := 0\<rparr>"

definition dbReportTaskProgress ::
  "int \<Rightarrow> int \<Rightarrow> string \<Rightarrow> progress_input \<Rightarrow> task_db \<Rightarrow> (task_record \<times> task_event) task_result" where
  "dbReportTaskProgress now now' taskId input db =
     tbind (getTaskOrThrow taskId db) (\<lambda>task db.
     case requireTaskProgressMessage (pg_message input) ''Task progress requires a descriptive message.'' of
       Inl e \<Rightarrow> (Inl e, db)
     | Inr message \<Rightarrow>
         if tsk_status task = TaskDone \<or> tsk_status task = TaskFailed
         then tbind (appendTaskEvent now' taskId EvProgress
                       (progress_event input (''Ignored late progress after '' @ status_name (tsk_status task) @ '': '' @ message)
                          (tsk_progress task)) db) (\<lambda>event db. (Inr (task, event), db))
         else
           let resetCheckpoint = nullish (pg_resetCheckpoint input) True;
               progress = (case pg_progress input of Some p \<Rightarrow> clamp_progress p | None \<Rightarrow> tsk_progress task);
               startedAt = nullish (tsk_startedAt task) now;
               db1 = update_task taskId
                       (\<lambda>t. t\<lparr>tsk_status := TaskInProgress, tsk_progress := progress, tsk_blockerReason := None,
                              tsk_startedAt := orElse (tsk_startedAt t) (Some startedAt), tsk_updatedAt := now\<rparr>) db;
               due = computeTaskCheckpointDueAt now (Some (resolveTaskCheckpointIntervalMs
                       (orElse (Option.bind (dbGetActiveAssignment db1 taskId) as_checkpointIntervalMs)
                          (tsk_checkpointIntervalMs task))));
               db2 = (if resetCheckpoint
                      then update_active (of_session taskId (pg_session input)) (report_checkpoint now due) db1
                      else markActiveAssignmentAccepted now taskId (pg_session input) db1)
           in tbind (appendTaskEvent now' taskId EvProgress (progress_event input message progress) db2) (\<lambda>event db3.
              tbind (getTaskOrThrow taskId db3) (\<lambda>task' db4. (Inr (task', event), db4))))"

record terminal_input =
  tm_actor :: "string option"
  tm_agentId :: "string option"
  tm_session :: "string option"
  tm_message :: string
  tm_progress :: "int option"

definition terminal_event :: "terminal_input \<Rightarrow> int \<Rightarrow> event_input" where
  "terminal_event input progress =
     \<lparr>ei_actor = tm_actor input, ei_agentId = tm_agentId input, ei_session = tm_session input,
      ei_message = Some (tm_message input), ei_progress = Some progress, ei_related = None\<rparr>"

text \<open>The result of an operation that may find its work done: the task, the event and \<open>wasNoop\<close>.\<close>

type_synonym noop_result = "task_record \<times> task_event option \<times> bool"

definition getTerminalTaskNoopResult :: "task_db \<Rightarrow> task_record \<Rightarrow> task_event_type option \<Rightarrow> noop_result" where
  "getTerminalTaskNoopResult db task preferredType =
     (let fallbackType = (if tsk_status task = TaskFailed then Some EvFailed
                          else if tsk_status task = TaskDone then Some EvDone else None);
          latest = (\<lambda>t. if t = None then None else getLatestTaskEvent db (tsk_id task) t)
      in (task, orElse (orElse (latest preferredType) (latest fallbackType)) (getLatestTaskEvent db (tsk_id task) None), True))"

definition block_assignment :: "int \<Rightarrow> task_assignment \<Rightarrow> task_assignment" where
  "block_assignment now a =
     a\<lparr>as_status := AsgBlocked, as_acceptedAt := orElse (as_acceptedAt a) (Some now), as_dueAt := None\<rparr>"

definition end_assignment :: "asg_status \<Rightarrow> int \<Rightarrow> task_assignment \<Rightarrow> task_assignment" where
  "end_assignment status now a =
     a\<lparr>as_status := status, as_acceptedAt := orElse (as_acceptedAt a) (Some now),
       as_completedAt := orElse (as_completedAt a) (Some now), as_dueAt := None\<rparr>"

definition finish_event ::
  "int \<Rightarrow> string \<Rightarrow> task_event_type \<Rightarrow> event_input \<Rightarrow> task_db \<Rightarrow> noop_result task_result" where
  "finish_event now' taskId type input db =
     tbind (appendTaskEvent now' taskId type input db) (\<lambda>event db1.
     tbind (getTaskOrThrow taskId db1) (\<lambda>task' db2. (Inr (task', Some event, False), db2)))"

definition dbBlockTask :: "int \<Rightarrow> int \<Rightarrow> string \<Rightarrow> terminal_input \<Rightarrow> task_db \<Rightarrow> noop_result task_result" where
  "dbBlockTask now now' taskId input db =
     tbind (getTaskOrThrow taskId db) (\<lambda>task db.
     if tsk_status task = TaskDone \<or> tsk_status task = TaskFailed then (Inr (getTerminalTaskNoopResult db task None), db)
     else
       let progress = (case tm_progress input of Some p \<Rightarrow> clamp_progress p | None \<Rightarrow> max (tsk_progress task) 1)
       in finish_event now' taskId EvBlocked (terminal_event input progress)
            (update_active (\<lambda>a. as_taskId a = taskId) (block_assignment now)
               (update_task taskId
                  (\<lambda>t. t\<lparr>tsk_status := TaskBlocked, tsk_blockerReason := Some (tm_message input), tsk_progress := progress,
                         tsk_startedAt := orElse (tsk_startedAt t) (Some now), tsk_updatedAt := now\<rparr>) db)))"

definition dbFailTask :: "int \<Rightarrow> int \<Rightarrow> string \<Rightarrow> terminal_input \<Rightarrow> task_db \<Rightarrow> noop_result task_result" where
  "dbFailTask now now' taskId input db =
     tbind (getTaskOrThrow taskId db) (\<lambda>task db.
     if tsk_status task = TaskDone \<or> tsk_status task = TaskFailed then (Inr (getTerminalTaskNoopResult db task None), db)
     else
       finish_event now' taskId EvFailed (terminal_event input 100)
         (update_active (\<lambda>a. as_taskId a = taskId) (end_assignment AsgFailed now)
            (update_task taskId
               (\<lambda>t. t\<lparr>tsk_status := TaskFailed, tsk_summary := Some (tm_message input), tsk_completedAt := Some now,
                      tsk_updatedAt := now\<rparr>) db)))"

definition dbCompleteTask :: "int \<Rightarrow> int \<Rightarrow> string \<Rightarrow> terminal_input \<Rightarrow> task_db \<Rightarrow> noop_result task_result" where
  "dbCompleteTask now now' taskId input db =
     tbind (getTaskOrThrow taskId db) (\<lambda>task db.
     if tsk_status task = TaskDone \<or> tsk_status task = TaskFailed
     then (Inr (getTerminalTaskNoopResult db task (Some EvDone)), db)
     else
       finish_event now' taskId EvDone (terminal_event input 100)
         (update_active (\<lambda>a. as_taskId a = taskId) (end_assignment AsgDone now)
            (update_task taskId
               (\<lambda>t. t\<lparr>tsk_status := TaskDone, tsk_progress := 100, tsk_summary := Some (tm_message input),
                      tsk_blockerReason := None, tsk_completedAt := Some now,
                      tsk_startedAt := orElse (tsk_startedAt t) (Some now), tsk_updatedAt := now\<rparr>) db)))"

datatype resume_reason = CommentSteer | ResumeDispatch | AgentActivity

definition resume_name :: "resume_reason \<Rightarrow> string" where
  "resume_name r =
     (case r of CommentSteer \<Rightarrow> ''comment_steer'' | ResumeDispatch \<Rightarrow> ''dispatch'' | AgentActivity \<Rightarrow> ''agent_activity'')"

definition resume_assignment :: "int \<Rightarrow> int \<Rightarrow> task_assignment \<Rightarrow> task_assignment" where
  "resume_assignment now due a =
     a\<lparr>as_status := (if as_status a = AsgBlocked then AsgAccepted else as_status a),
       as_acceptedAt := orElse (as_acceptedAt a) (Some now),
       as_dueAt := (if as_status a = AsgBlocked then Some due else as_dueAt a),
       as_overdueCount := (if as_status a = AsgBlocked then 0 else as_overdueCount a)\<rparr>"

text \<open>The result: the task, and the event when the task was resumed.\<close>

definition dbAutoResumeBlockedTask ::
  "int \<Rightarrow> int \<Rightarrow> string \<Rightarrow> resume_reason \<Rightarrow> string option \<Rightarrow> string option \<Rightarrow> string option \<Rightarrow> task_db
     \<Rightarrow> (task_record \<times> task_event option) task_result" where
  "dbAutoResumeBlockedTask now now' taskId reason actor agentId sessionName db =
     tbind (getTaskOrThrow taskId db) (\<lambda>task db.
     if tsk_status task \<noteq> TaskBlocked then (Inr (task, None), db)
     else
       let db1 = update_task taskId
                   (\<lambda>t. if tsk_status t = TaskBlocked
                        then t\<lparr>tsk_status := TaskInProgress, tsk_blockerReason := None, tsk_updatedAt := now\<rparr> else t) db;
           due = computeTaskCheckpointDueAt now (Some (resolveTaskCheckpointIntervalMs
                   (orElse (Option.bind (dbGetActiveAssignment db1 taskId) as_checkpointIntervalMs)
                      (tsk_checkpointIntervalMs task))));
           db2 = update_active (\<lambda>a. as_taskId a = taskId) (resume_assignment now due) db1
       in tbind (appendTaskEvent now' taskId EvResumed
                   \<lparr>ei_actor = actor, ei_agentId = agentId, ei_session = sessionName,
                    ei_message = Some (''Auto-resumed: blocked -> in_progress (reason: '' @ resume_name reason @ '')''),
                    ei_progress = Some (tsk_progress task), ei_related = None\<rparr> db2) (\<lambda>event db3.
          tbind (getTaskOrThrow taskId db3) (\<lambda>task' db4. (Inr (task', Some event), db4))))"

section \<open>The task of a session\<close>

definition status_active :: "task_status \<Rightarrow> bool" where
  "status_active s \<longleftrightarrow> s \<in> {TaskDispatched, TaskInProgress, TaskBlocked}"

definition dbHasServingTaskForSession :: "task_db \<Rightarrow> string \<Rightarrow> string option \<Rightarrow> bool" where
  "dbHasServingTaskForSession db sessionName excludeTaskId =
     list_ex (\<lambda>t. tsk_assigneeSession t = Some sessionName \<and> tsk_status t \<in> {TaskDispatched, TaskInProgress}
                 \<and> (truthy excludeTaskId \<longrightarrow> Some (tsk_id t) \<noteq> excludeTaskId)) (td_tasks db)"

definition dbHasActiveAssignedTaskForSession :: "task_db \<Rightarrow> string \<Rightarrow> string option \<Rightarrow> bool" where
  "dbHasActiveAssignedTaskForSession db sessionName taskId =
     (let normalizedTaskId = (case taskId of None \<Rightarrow> None | Some t \<Rightarrow> if trim t \<noteq> [] then Some (trim t) else None)
      in list_ex (\<lambda>t. tsk_assigneeSession t = Some sessionName \<and> status_active (tsk_status t)
                     \<and> (normalizedTaskId \<noteq> None \<longrightarrow> Some (tsk_id t) = normalizedTaskId)) (td_tasks db))"

definition task_binding :: "task_db \<Rightarrow> task_assignment \<Rightarrow> (task_record \<times> task_assignment) list" where
  "task_binding db row =
     (case dbGetTask db (as_taskId row) of
        None \<Rightarrow> []
      | Some task \<Rightarrow> if status_active (tsk_status task) then [(task, rowToAssignment row)] else [])"

definition dbResolveActiveTaskBindingForSession ::
  "task_db \<Rightarrow> string \<Rightarrow> string option \<Rightarrow> (task_record \<times> task_assignment) option" where
  "dbResolveActiveTaskBindingForSession db sessionName taskId =
     (let rows = sort_key (\<lambda>a. - as_assignedAt a)
                   (filter (\<lambda>a. as_session a = sessionName \<and> (truthy taskId \<longrightarrow> Some (as_taskId a) = taskId)
                              \<and> asg_active (as_status a)) (td_assignments db));
          bindings = concat (map (task_binding db) rows);
          first = (case bindings of [] \<Rightarrow> None | b # _ \<Rightarrow> Some b)
      in if (case taskId of None \<Rightarrow> False | Some t \<Rightarrow> trim t \<noteq> []) then first
         else
           let activeTaskIds = dedup_by (\<lambda>t. t) (map (\<lambda>b. tsk_id (fst b)) bindings)
           in if length activeTaskIds \<noteq> 1 then None else first)"

definition accept_checkpoint :: "int \<Rightarrow> int option \<Rightarrow> task_assignment \<Rightarrow> task_assignment" where
  "accept_checkpoint now due a =
     a\<lparr>as_status := (if as_status a \<in> {AsgAssigned, AsgBlocked} then AsgAccepted else as_status a),
       as_acceptedAt := orElse (as_acceptedAt a) (Some now),
       as_dueAt := (if as_status a \<in> {AsgAssigned, AsgBlocked} then due else as_dueAt a),
       as_overdueCount := (if as_status a \<in> {AsgAssigned, AsgBlocked} then 0 else as_overdueCount a)\<rparr>"

text \<open>The result: the task, its assignment, the event and \<open>transitioned\<close>.\<close>

definition dbMarkTaskAcceptedForSession ::
  "int \<Rightarrow> int \<Rightarrow> string \<Rightarrow> string option \<Rightarrow> task_db
     \<Rightarrow> (task_record \<times> task_assignment option \<times> task_event option \<times> bool) option task_result" where
  "dbMarkTaskAcceptedForSession now now' sessionName taskId db =
     (case dbResolveActiveTaskBindingForSession db sessionName taskId of
        None \<Rightarrow> (Inr None, db)
      | Some (task, assignment) \<Rightarrow>
          let tid = tsk_id task;
              continue = (\<lambda>db.
                let transitionedAssignment = as_status assignment \<in> {AsgAssigned, AsgBlocked};
                    due = (if transitionedAssignment
                           then Some (computeTaskCheckpointDueAt now
                                  (orElse (as_checkpointIntervalMs assignment) (tsk_checkpointIntervalMs task)))
                           else as_dueAt assignment);
                    db1 = update_active (\<lambda>a. as_id a = as_id assignment) (accept_checkpoint now due) db;
                    touched = list_ex (\<lambda>t. tsk_id t = tid \<and> status_active (tsk_status t)) (td_tasks db1);
                    db2 = update_task tid
                            (\<lambda>t. if status_active (tsk_status t)
                                 then t\<lparr>tsk_status := (if tsk_status t = TaskDispatched then TaskInProgress else tsk_status t),
                                        tsk_startedAt := (if tsk_status t = TaskDispatched then orElse (tsk_startedAt t) (Some now)
                                                         else tsk_startedAt t),
                                        tsk_updatedAt := now\<rparr>
                                 else t) db1;
                    transitionedTask = (touched \<and> tsk_status task = TaskDispatched)
                in tbind (getTaskOrThrow tid db2) (\<lambda>nextTask db3.
                   if transitionedTask
                   then tbind (appendTaskEvent now' tid EvProgress
                                 \<lparr>ei_actor = Some sessionName, ei_agentId = None, ei_session = Some sessionName,
                                  ei_message = Some ''Worker bootstrap started; awaiting the first progress sync.'',
                                  ei_progress = Some (tsk_progress nextTask), ei_related = None\<rparr> db3) (\<lambda>event db4.
                          (Inr (Some (nextTask, dbGetActiveAssignment db3 tid, Some event, True)), db4))
                   else (Inr (Some (nextTask, dbGetActiveAssignment db3 tid, None, False)), db3)))
          in if tsk_status task = TaskBlocked
             then tbind (dbAutoResumeBlockedTask now now' tid AgentActivity None None (Some sessionName) db) (\<lambda>(task', event) db1.
                    if event \<noteq> None then (Inr (Some (task', dbGetActiveAssignment db1 tid, event, True)), db1)
                    else continue db1)
             else continue db)"

section \<open>Checkpoints of an assignment\<close>

definition dbRegisterTaskCheckpointMiss ::
  "int \<Rightarrow> int \<Rightarrow> string \<Rightarrow> string \<Rightarrow> task_db \<Rightarrow> (task_record \<times> task_assignment \<times> task_event \<times> int) option task_result" where
  "dbRegisterTaskCheckpointMiss now now' taskId assignmentId db =
     tbind (getTaskOrThrow taskId db) (\<lambda>_ db.
     case getAssignmentRowById db assignmentId of
       None \<Rightarrow> (Inr None, db)
     | Some row \<Rightarrow>
         if as_taskId row \<noteq> taskId then (Inr None, db)
         else if as_status row \<notin> {AsgAssigned, AsgAccepted} then (Inr None, db)
         else
           (case time_value (as_dueAt row) of
              None \<Rightarrow> (Inr None, db)
            | Some dueAt \<Rightarrow>
                let interval = resolveTaskCheckpointIntervalMs (as_checkpointIntervalMs row);
                    (missedCount, nextDueAt) = calculateTaskCheckpointMiss dueAt interval now
                in if missedCount \<le> 0 then (Inr None, db)
                   else
                     let count = as_overdueCount row + missedCount;
                         db1 = db\<lparr>td_assignments := map (\<lambda>a.
                                  if as_id a = assignmentId \<and> as_taskId a = taskId \<and> as_status a \<in> {AsgAssigned, AsgAccepted}
                                     \<and> as_dueAt a = Some dueAt
                                  then a\<lparr>as_dueAt := Some nextDueAt, as_overdueCount := count\<rparr> else a) (td_assignments db)\<rparr>
                     in (case getAssignmentRowById db1 assignmentId of
                           None \<Rightarrow> (Inr None, db1)
                         | Some assignmentRow \<Rightarrow>
                             let assignment = rowToAssignment assignmentRow
                             in tbind (getTaskOrThrow taskId db1) (\<lambda>task db2.
                                tbind (appendTaskEvent now' taskId EvCheckpointMissed
                                         \<lparr>ei_actor = Some ''task-checkpoint-runner'', ei_agentId = Some (as_agentId assignment),
                                          ei_session = Some (as_session assignment),
                                          ei_message = Some (''Checkpoint overdue '' @ show_nat (nat (as_overdueCount assignment))
                                            @ ''x; real report still pending.''),
                                          ei_progress = Some (tsk_progress task), ei_related = None\<rparr> db2) (\<lambda>event db3.
                                tbind (getTaskOrThrow taskId db3) (\<lambda>task' db4.
                                  (Inr (Some (task', assignment, event, missedCount)), db4)))))))"

section \<open>Archive, update and delete\<close>

record archive_input =
  ai_actor :: "string option"
  ai_agentId :: "string option"
  ai_session :: "string option"
  ai_reason :: string

definition latest_or :: "task_db \<Rightarrow> string \<Rightarrow> task_event_type \<Rightarrow> task_event option" where
  "latest_or db taskId type = orElse (getLatestTaskEvent db taskId (Some type)) (getLatestTaskEvent db taskId None)"

definition dbArchiveTask :: "int \<Rightarrow> int \<Rightarrow> string \<Rightarrow> archive_input \<Rightarrow> task_db \<Rightarrow> noop_result task_result" where
  "dbArchiveTask now now' taskId input db =
     tbind (getTaskOrThrow taskId db) (\<lambda>task db.
     if tsk_archivedAt task \<noteq> None then (Inr (task, latest_or db taskId EvArchived, True), db)
     else
       let archivedBy = orElse (orElse (ai_actor input) (ai_session input)) (ai_agentId input);
           db1 = update_task taskId
                   (\<lambda>t. t\<lparr>tsk_archivedAt := Some now, tsk_archivedBy := archivedBy, tsk_archiveReason := Some (ai_reason input),
                          tsk_updatedAt := now\<rparr>) db
       in tbind (getTaskOrThrow taskId db1) (\<lambda>archivedTask db2.
          tbind (appendTaskEvent now' taskId EvArchived
                   \<lparr>ei_actor = ai_actor input, ei_agentId = ai_agentId input, ei_session = ai_session input,
                    ei_message = Some (ai_reason input), ei_progress = Some (tsk_progress archivedTask), ei_related = None\<rparr>
                   db2) (\<lambda>event db3. (Inr (archivedTask, Some event, False), db3))))"

definition dbUnarchiveTask :: "int \<Rightarrow> int \<Rightarrow> string \<Rightarrow> event_input \<Rightarrow> task_db \<Rightarrow> noop_result task_result" where
  "dbUnarchiveTask now now' taskId input db =
     tbind (getTaskOrThrow taskId db) (\<lambda>task db.
     if tsk_archivedAt task = None then (Inr (task, latest_or db taskId EvUnarchived, True), db)
     else
       let previousReason = tsk_archiveReason task;
           db1 = update_task taskId
                   (\<lambda>t. t\<lparr>tsk_archivedAt := None, tsk_archivedBy := None, tsk_archiveReason := None, tsk_updatedAt := now\<rparr>) db
       in tbind (getTaskOrThrow taskId db1) (\<lambda>unarchivedTask db2.
          tbind (appendTaskEvent now' taskId EvUnarchived
                   \<lparr>ei_actor = ei_actor input, ei_agentId = ei_agentId input, ei_session = ei_session input,
                    ei_message = Some (case previousReason of Some r \<Rightarrow> ''restored visibility ('' @ r @ '')''
                                       | None \<Rightarrow> ''restored visibility''),
                    ei_progress = Some (tsk_progress unarchivedTask), ei_related = None\<rparr> db2) (\<lambda>event db3.
            (Inr (unarchivedTask, Some event, False), db3))))"

record update_input =
  ui_actor :: "string option"
  ui_agentId :: "string option"
  ui_session :: "string option"
  ui_title :: "string option"
  ui_instructions :: "string option"
  ui_priority :: "task_priority option"
  ui_message :: "string option"

definition dbUpdateTask :: "int \<Rightarrow> int \<Rightarrow> string \<Rightarrow> update_input \<Rightarrow> task_db \<Rightarrow> noop_result task_result" where
  "dbUpdateTask now now' taskId input db =
     tbind (getTaskOrThrow taskId db) (\<lambda>task db.
     let newTitle = (ui_title input \<noteq> None \<and> ui_title input \<noteq> Some (tsk_title task));
         newInstructions = (ui_instructions input \<noteq> None \<and> ui_instructions input \<noteq> Some (tsk_instructions task));
         newPriority = (ui_priority input \<noteq> None \<and> ui_priority input \<noteq> Some (tsk_priority task));
         changedFields = (if newTitle then [''title''] else []) @ (if newInstructions then [''instructions''] else [])
           @ (if newPriority then [''priority''] else [])
     in if changedFields = [] then (Inr (task, latest_or db taskId EvUpdated, True), db)
        else
          let db1 = update_task taskId
                      (\<lambda>t. t\<lparr>tsk_title := (if newTitle then nullish (ui_title input) [] else tsk_title t),
                             tsk_instructions := (if newInstructions then nullish (ui_instructions input) [] else tsk_instructions t),
                             tsk_priority := (if newPriority then nullish (ui_priority input) PriorityNormal else tsk_priority t),
                             tsk_updatedAt := now\<rparr>) db
          in tbind (getTaskOrThrow taskId db1) (\<lambda>updatedTask db2.
             tbind (appendTaskEvent now' taskId EvUpdated
                      \<lparr>ei_actor = ui_actor input, ei_agentId = ui_agentId input, ei_session = ui_session input,
                       ei_message = Some (nullish (ui_message input)
                         (''Updated task fields: '' @ join '', '' changedFields @ ''.'')),
                       ei_progress = Some (tsk_progress updatedTask), ei_related = None\<rparr> db2) (\<lambda>event db3.
               (Inr (updatedTask, Some event, False), db3))))"

text \<open>The foreign keys delete what belongs to a task, and clear references to its events.\<close>

definition dbDeleteTask :: "string \<Rightarrow> task_db \<Rightarrow> bool \<times> task_db" where
  "dbDeleteTask taskId db =
     (let gone = map tv_id (filter (\<lambda>e. tv_taskId e = taskId) (td_events db))
      in (task_row_of db taskId \<noteq> None,
          if task_row_of db taskId = None then db
          else db\<lparr>td_tasks := filter (\<lambda>t. tsk_id t \<noteq> taskId) (td_tasks db),
                  td_assignments := filter (\<lambda>a. as_taskId a \<noteq> taskId) (td_assignments db),
                  td_events := filter (\<lambda>e. tv_taskId e \<noteq> taskId) (td_events db),
                  td_comments := filter (\<lambda>c. tc_taskId c \<noteq> taskId) (td_comments db),
                  td_dependencies :=
                    map (\<lambda>d. if \<exists>e\<in>set gone. dp_satisfiedBy d = Some e then d\<lparr>dp_satisfiedBy := None\<rparr> else d)
                      (filter (\<lambda>d. dp_taskId d \<noteq> taskId \<and> dp_dependsOn d \<noteq> taskId) (td_dependencies db)),
                  td_plans := filter (\<lambda>p. pl_taskId p \<noteq> taskId) (td_plans db)\<rparr>))"

end
