(* ===== verification/TaskGraph.thy ===== *)
theory TaskGraph
  imports TaskLifecycle
begin

text \<open>
  The dependencies of tasks as the service keeps them (\<open>src/src/tasks/service.ts\<close>): the
  readiness of a task, the search for a cycle, adding and removing a dependency, what the
  completion of a task releases, and the guards of a dispatch. When a task becomes ready and has
  a launch plan the code dispatches it next, which prepares a profile and a session first; that
  dispatch is not part of these definitions, which return the plan instead.
\<close>

section \<open>Readiness\<close>

definition deriveTaskReadStatus :: "task_status \<Rightarrow> task_assignment option \<Rightarrow> task_status" where
  "deriveTaskReadStatus status activeAssignment =
     (if status = TaskDispatched
         \<and> (case activeAssignment of None \<Rightarrow> False
            | Some a \<Rightarrow> as_status a = AsgAccepted \<or> as_acceptedAt a \<noteq> None)
      then TaskInProgress else status)"

definition TASK_RECOVERY_MAX_STALE_MS :: int where
  "TASK_RECOVERY_MAX_STALE_MS = 20 * 60 * 1000"

definition isTaskRecoveryFresh :: "task_record \<Rightarrow> task_assignment \<Rightarrow> int \<Rightarrow> bool" where
  "isTaskRecoveryFresh task assignment now \<longleftrightarrow>
     (let freshestActivity = max (max (tsk_updatedAt task) (nullish (as_acceptedAt assignment) 0)) (as_assignedAt assignment)
      in now - freshestActivity \<le> TASK_RECOVERY_MAX_STALE_MS)"

datatype edge_direction = DependencyEdge | DependentEdge

record dependency_edge =
  eg_direction :: edge_direction
  eg_taskId :: string
  eg_relatedTaskId :: string
  eg_title :: string
  eg_status :: task_status
  eg_progress :: int
  eg_assigneeAgentId :: "string option"
  eg_assigneeSession :: "string option"
  eg_satisfied :: bool
  eg_createdAt :: int
  eg_satisfiedAt :: "int option"
  eg_satisfiedBy :: "nat option"

definition buildTaskDependencyEdge :: "task_db \<Rightarrow> edge_direction \<Rightarrow> task_dependency \<Rightarrow> dependency_edge" where
  "buildTaskDependencyEdge db direction dependency =
     (let relatedTaskId = (if direction = DependencyEdge then dp_dependsOn dependency else dp_taskId dependency);
          relatedTask = dbGetTask db relatedTaskId
      in \<lparr>eg_direction = direction, eg_taskId = dp_taskId dependency, eg_relatedTaskId = relatedTaskId,
          eg_title = (case relatedTask of None \<Rightarrow> relatedTaskId | Some t \<Rightarrow> tsk_title t),
          eg_status = (case relatedTask of None \<Rightarrow> TaskOpen
                       | Some t \<Rightarrow> deriveTaskReadStatus (tsk_status t) (dbGetActiveAssignment db relatedTaskId)),
          eg_progress = (case relatedTask of None \<Rightarrow> 0 | Some t \<Rightarrow> tsk_progress t),
          eg_assigneeAgentId = Option.bind relatedTask tsk_assigneeAgentId,
          eg_assigneeSession = Option.bind relatedTask tsk_assigneeSession,
          eg_satisfied = (dp_satisfiedAt dependency \<noteq> None), eg_createdAt = dp_createdAt dependency,
          eg_satisfiedAt = dp_satisfiedAt dependency, eg_satisfiedBy = dp_satisfiedBy dependency\<rparr>)"

datatype readiness_state = Ready | Waiting | Active | Terminal

record task_readiness =
  rd_state :: readiness_state
  rd_label :: string
  rd_canStart :: bool
  rd_dependencyCount :: nat
  rd_satisfiedCount :: nat
  rd_unsatisfiedCount :: nat
  rd_unsatisfiedIds :: "string list"
  rd_hasLaunchPlan :: bool

record dependency_surface =
  sf_dependencies :: "dependency_edge list"
  sf_dependents :: "dependency_edge list"
  sf_launchPlan :: "launch_plan option"
  sf_readiness :: task_readiness

definition readiness_of ::
  "task_status \<Rightarrow> dependency_edge list \<Rightarrow> launch_plan option \<Rightarrow> readiness_state \<times> string \<times> bool" where
  "readiness_of activeStatus dependencies launchPlan =
     (let unsatisfied = filter (\<lambda>e. \<not> eg_satisfied e) dependencies
      in if activeStatus = TaskDone \<or> activeStatus = TaskFailed
         then (Terminal, ''terminal ('' @ status_name activeStatus @ '')'', False)
         else if activeStatus = TaskDispatched \<or> activeStatus = TaskInProgress \<or> activeStatus = TaskBlocked
         then (Active, if activeStatus = TaskBlocked then ''already started; currently blocked'' else ''already started'', False)
         else if length unsatisfied > 0
         then (Waiting, ''waiting on '' @ show_nat (length unsatisfied) @ ''/'' @ show_nat (length dependencies) @ '' dependencies'',
               False)
         else (Ready, if launchPlan \<noteq> None then ''ready; launch plan armed'' else ''ready to start'', True))"

definition getTaskDependencySurface :: "task_db \<Rightarrow> task_record \<Rightarrow> task_assignment option \<Rightarrow> dependency_surface" where
  "getTaskDependencySurface db task activeAssignment =
     (let dependencies = map (buildTaskDependencyEdge db DependencyEdge) (dbListTaskDependencies db (tsk_id task));
          dependents = map (buildTaskDependencyEdge db DependentEdge) (dbListTaskDependents db (tsk_id task));
          launchPlan = dbGetTaskLaunchPlan db (tsk_id task);
          unsatisfied = filter (\<lambda>e. \<not> eg_satisfied e) dependencies;
          activeStatus = deriveTaskReadStatus (tsk_status task) activeAssignment;
          (state, label, canStart) = readiness_of activeStatus dependencies launchPlan
      in \<lparr>sf_dependencies = dependencies, sf_dependents = dependents, sf_launchPlan = launchPlan,
          sf_readiness =
            \<lparr>rd_state = state, rd_label = label, rd_canStart = canStart, rd_dependencyCount = length dependencies,
             rd_satisfiedCount = length (filter eg_satisfied dependencies), rd_unsatisfiedCount = length unsatisfied,
             rd_unsatisfiedIds = map eg_relatedTaskId unsatisfied, rd_hasLaunchPlan = (launchPlan \<noteq> None)\<rparr>\<rparr>)"

definition unsatisfied_count :: "task_db \<Rightarrow> task_record \<Rightarrow> nat" where
  "unsatisfied_count db task = rd_unsatisfiedCount (sf_readiness (getTaskDependencySurface db task None))"

section \<open>The search for a cycle\<close>

text \<open>
  The recursion over the dependencies of a task, whose calls share the set of visited tasks and
  stop at the first success, as one walk over the tasks that are still to be asked.
\<close>

definition upstream_ids :: "task_db \<Rightarrow> string \<Rightarrow> string list" where
  "upstream_ids db taskId = map dp_dependsOn (dbListTaskDependencies db taskId)"

lemma upstream_none: "taskId \<notin> dp_taskId ` set (td_dependencies db) \<Longrightarrow> upstream_ids db taskId = []"
proof -
  assume "taskId \<notin> dp_taskId ` set (td_dependencies db)"
  then have "filter (\<lambda>d. dp_taskId d = taskId) (td_dependencies db) = []" by (auto simp: filter_empty_conv)
  then show ?thesis by (simp add: upstream_ids_def dbListTaskDependencies_def)
qed

function depends_walk :: "task_db \<Rightarrow> string \<Rightarrow> string list \<Rightarrow> string list \<Rightarrow> bool" where
  "depends_walk db targetTaskId [] visited = False"
| "depends_walk db targetTaskId (taskId # taskIds) visited =
     (if taskId = targetTaskId then True
      else if taskId \<in> set visited then depends_walk db targetTaskId taskIds visited
      else depends_walk db targetTaskId (upstream_ids db taskId @ taskIds) (taskId # visited))"
  by pat_completeness auto

text \<open>Each step asks a new task with dependencies, or one task less is left.\<close>

termination depends_walk
proof (relation "measures [\<lambda>(db, _, _, visited). card (dp_taskId ` set (td_dependencies db) - set visited),
    \<lambda>(_, _, taskIds, _). length taskIds]")
  fix db :: task_db and target taskId :: string and taskIds visited :: "string list"
  assume new: "taskId \<notin> set visited"
  let ?U = "dp_taskId ` set (td_dependencies db)"
  show "((db, target, upstream_ids db taskId @ taskIds, taskId # visited), db, target, taskId # taskIds, visited)
      \<in> measures [\<lambda>(db, _, _, visited). card (dp_taskId ` set (td_dependencies db) - set visited), \<lambda>(_, _, taskIds, _). length taskIds]"
  proof (cases "taskId \<in> ?U")
    case True
    with new have "?U - set (taskId # visited) \<subset> ?U - set visited" by auto
    then have "card (?U - set (taskId # visited)) < card (?U - set visited)" by (intro psubset_card_mono) simp_all
    then show ?thesis by simp
  next
    case False
    then have "?U - set (taskId # visited) = ?U - set visited" by auto
    then show ?thesis by (simp add: upstream_none [OF False])
  qed
qed simp_all

definition taskDependsOn :: "task_db \<Rightarrow> string \<Rightarrow> string \<Rightarrow> bool" where
  "taskDependsOn db taskId targetTaskId = depends_walk db targetTaskId [taskId] []"

definition assertTaskDependencyEdge :: "string \<Rightarrow> string \<Rightarrow> task_db \<Rightarrow> unit task_result" where
  "assertTaskDependencyEdge taskId dependsOnTaskId db =
     (if taskId = dependsOnTaskId then (Inl ''A task cannot depend on itself.'', db)
      else if taskDependsOn db dependsOnTaskId taskId
      then (Inl (''Dependency cycle detected: '' @ taskId @ '' cannot depend on '' @ dependsOnTaskId @ ''.''), db)
      else (Inr (), db))"

section \<open>Editing dependencies\<close>

definition isTaskDependencyEditable :: "task_record \<Rightarrow> bool" where
  "isTaskDependencyEditable task \<longleftrightarrow> tsk_status task = TaskOpen"

definition assertTaskDependencyEditable :: "task_record \<Rightarrow> string \<Rightarrow> task_db \<Rightarrow> unit task_result" where
  "assertTaskDependencyEditable task action db =
     (if \<not> isTaskDependencyEditable task
      then (Inl (''Cannot '' @ action @ '' dependencies for task '' @ tsk_id task @ '' while status is ''
              @ status_name (tsk_status task) @ ''. Dependencies gate start; edit them before dispatching work.''), db)
      else (Inr (), db))"

definition formatDependencyMutationMessage :: "string \<Rightarrow> string \<Rightarrow> bool \<Rightarrow> string" where
  "formatDependencyMutationMessage taskId dependsOnTaskId added =
     (if added then ''Dependency added: '' @ taskId @ '' now waits for '' @ dependsOnTaskId @ ''.''
      else ''Dependency removed: '' @ taskId @ '' no longer waits for '' @ dependsOnTaskId @ ''.'')"

definition buildDependencySatisfiedMessage :: "string \<Rightarrow> string \<Rightarrow> string" where
  "buildDependencySatisfiedMessage taskId dependsOnTaskId =
     ''Dependency satisfied: '' @ taskId @ '' no longer waits for '' @ dependsOnTaskId @ ''.''"

definition buildReadyMessage :: "launch_plan option \<Rightarrow> string" where
  "buildReadyMessage launchPlan =
     (case launchPlan of
        Some p \<Rightarrow> ''All dependencies satisfied; auto-dispatching via launch plan to '' @ pl_agentId p @ ''/'' @ pl_session p @ ''.''
      | None \<Rightarrow> ''All dependencies satisfied; task is ready to start.'')"

text \<open>The events of the transition, and the plan the code then dispatches.\<close>

type_synonym related_events = "(task_record \<times> task_event) list"

definition reconcileTaskReadinessTransition ::
  "int \<Rightarrow> int \<Rightarrow> string \<Rightarrow> nat \<Rightarrow> task_db \<Rightarrow> (related_events \<times> launch_plan option) task_result" where
  "reconcileTaskReadinessTransition now now' taskId beforeUnsatisfiedCount db =
     (case dbGetTask db taskId of
        None \<Rightarrow> (Inr ([], None), db)
      | Some task \<Rightarrow>
          let surface = getTaskDependencySurface db task None
          in if tsk_archivedAt task \<noteq> None \<or> tsk_status task \<noteq> TaskOpen \<or> beforeUnsatisfiedCount = 0
                \<or> rd_unsatisfiedCount (sf_readiness surface) > 0
             then (Inr ([], None), db)
             else tbind (dbAppendTaskEvent now now' taskId EvReady
                           \<lparr>ei_actor = Some ''task.dependencies'', ei_agentId = None, ei_session = None,
                            ei_message = Some (buildReadyMessage (sf_launchPlan surface)),
                            ei_progress = Some (tsk_progress task), ei_related = None\<rparr> True db) (\<lambda>readyEvent db1.
                    (Inr ([readyEvent], sf_launchPlan surface), db1)))"

definition dbListTaskEvents :: "task_db \<Rightarrow> string \<Rightarrow> nat \<Rightarrow> task_event list" where
  "dbListTaskEvents db taskId limit =
     map rowToEvent (take limit (sort_key tv_createdAt (filter (\<lambda>e. tv_taskId e = taskId) (td_events db))))"

definition dependency_event :: "string \<Rightarrow> string \<Rightarrow> bool \<Rightarrow> int \<Rightarrow> event_input" where
  "dependency_event taskId dependsOnTaskId added progress =
     \<lparr>ei_actor = Some ''task.dependencies'', ei_agentId = None, ei_session = None,
      ei_message = Some (formatDependencyMutationMessage taskId dependsOnTaskId added), ei_progress = Some progress,
      ei_related = Some dependsOnTaskId\<rparr>"

record dependency_result =
  dr_task :: task_record
  dr_dependency :: "task_dependency option"
  dr_event :: task_event
  dr_readiness :: task_readiness
  dr_related :: related_events
  dr_plan :: "launch_plan option"
  dr_wasNoop :: bool

definition first_event :: "task_db \<Rightarrow> string \<Rightarrow> task_record \<Rightarrow> task_event" where
  "first_event db taskId task =
     (case dbListTaskEvents db taskId 1 of
        e # _ \<Rightarrow> e
      | [] \<Rightarrow> \<lparr>tv_id = 0, tv_taskId = taskId, tv_type = EvCreated, tv_actor = None, tv_agentId = None, tv_session = None,
               tv_message = None, tv_progress = None, tv_relatedTaskId = None, tv_createdAt = tsk_createdAt task\<rparr>)"

text \<open>What adding and removing have in common once the row has changed.\<close>

definition dependency_changed ::
  "int \<Rightarrow> int \<Rightarrow> string \<Rightarrow> string \<Rightarrow> bool \<Rightarrow> task_record \<Rightarrow> nat \<Rightarrow> task_dependency option \<Rightarrow> task_db \<Rightarrow> dependency_result task_result" where
  "dependency_changed now now' taskId dependsOnTaskId added task before dependency db =
     tbind (dbAppendTaskEvent now now' taskId (if added then EvDependencyAdded else EvDependencyRemoved)
              (dependency_event taskId dependsOnTaskId added (tsk_progress task)) True db) (\<lambda>(task', event) db1.
     tbind (reconcileTaskReadinessTransition now now' taskId before db1) (\<lambda>(related, plan) db2.
       (Inr \<lparr>dr_task = task', dr_dependency = dependency, dr_event = event,
             dr_readiness = sf_readiness (getTaskDependencySurface db2 task' None), dr_related = related, dr_plan = plan,
             dr_wasNoop = False\<rparr>, db2)))"

definition dependency_unchanged :: "string \<Rightarrow> task_record \<Rightarrow> task_dependency option \<Rightarrow> task_db \<Rightarrow> dependency_result" where
  "dependency_unchanged taskId task dependency db =
     \<lparr>dr_task = task, dr_dependency = dependency, dr_event = first_event db taskId task,
      dr_readiness = sf_readiness (getTaskDependencySurface db task None), dr_related = [], dr_plan = None, dr_wasNoop = True\<rparr>"

definition addTaskDependency :: "int \<Rightarrow> int \<Rightarrow> string \<Rightarrow> string \<Rightarrow> task_db \<Rightarrow> dependency_result task_result" where
  "addTaskDependency now now' taskId dependsOnTaskId db =
     tbind (getTaskOrThrow taskId db) (\<lambda>task db.
     tbind (assertTaskDependencyEditable task ''add'' db) (\<lambda>_ db.
     if dbGetTask db dependsOnTaskId = None then (Inl (''Dependency task not found: '' @ dependsOnTaskId), db)
     else
       tbind (assertTaskDependencyEdge taskId dependsOnTaskId db) (\<lambda>_ db.
       let before = unsatisfied_count db task
       in tbind (dbAddTaskDependency now taskId dependsOnTaskId db) (\<lambda>(dependency, wasNoop) db1.
          if wasNoop then (Inr (dependency_unchanged taskId task (Some dependency) db1), db1)
          else dependency_changed now now' taskId dependsOnTaskId True task before (Some dependency) db1))))"

definition removeTaskDependency :: "int \<Rightarrow> int \<Rightarrow> string \<Rightarrow> string \<Rightarrow> task_db \<Rightarrow> dependency_result task_result" where
  "removeTaskDependency now now' taskId dependsOnTaskId db =
     tbind (getTaskOrThrow taskId db) (\<lambda>task db.
     tbind (assertTaskDependencyEditable task ''remove'' db) (\<lambda>_ db.
     let before = unsatisfied_count db task
     in tbind (dbRemoveTaskDependency now taskId dependsOnTaskId db) (\<lambda>(dependency, wasNoop) db1.
        if wasNoop then (Inr (dependency_unchanged taskId task dependency db1), db1)
        else dependency_changed now now' taskId dependsOnTaskId False task before dependency db1)))"

section \<open>Dependencies of a new task\<close>

definition normalize_dependency_ids :: "string list option \<Rightarrow> string list" where
  "normalize_dependency_ids dependsOnTaskIds =
     dedup_by (\<lambda>i. i) (filter (\<lambda>i. i \<noteq> []) (map trim (nullish dependsOnTaskIds [])))"

fun require_tasks :: "string list \<Rightarrow> task_db \<Rightarrow> unit task_result" where
  "require_tasks [] db = (Inr (), db)"
| "require_tasks (i # is) db =
     (if dbGetTask db i = None then (Inl (''Dependency task not found: '' @ i), db) else require_tasks is db)"

fun add_created_dependencies ::
  "int \<Rightarrow> int \<Rightarrow> create_input \<Rightarrow> task_record \<Rightarrow> string list \<Rightarrow> related_events \<Rightarrow> task_db
     \<Rightarrow> (task_record \<times> related_events) task_result" where
  "add_created_dependencies now now' input task [] related db = (Inr (task, related), db)"
| "add_created_dependencies now now' input task (i # is) related db =
     tbind (dbAddTaskDependency now (tsk_id task) i db) (\<lambda>_ db1.
     tbind (dbAppendTaskEvent now now' (tsk_id task) EvDependencyAdded
              \<lparr>ei_actor = ci_createdBy input, ei_agentId = ci_createdByAgentId input, ei_session = ci_createdBySession input,
               ei_message = Some (formatDependencyMutationMessage (tsk_id task) i True),
               ei_progress = Some (tsk_progress task), ei_related = Some i\<rparr> True db1) (\<lambda>(task', event) db2.
       add_created_dependencies now now' input task' is (related @ [(task', event)]) db2))"

text \<open>
  Creation of a task: the parent and the dependencies must exist; when adding the dependencies
  throws, the task is deleted again. The profile, whose fields are part of the input, and the
  documents of the task are not modelled.
\<close>

definition createTask ::
  "string \<Rightarrow> int \<Rightarrow> int \<Rightarrow> create_input \<Rightarrow> string list option \<Rightarrow> task_db \<Rightarrow> (task_record \<times> task_event \<times> related_events) task_result" where
  "createTask uuid now now' input dependsOnTaskIds db =
     (if truthy (ci_parentTaskId input) \<and> dbGetTask db (nullish (ci_parentTaskId input) []) = None
      then (Inl (''Parent task not found: '' @ nullish (ci_parentTaskId input) []), db)
      else
        let dependencyIds = normalize_dependency_ids dependsOnTaskIds
        in tbind (require_tasks dependencyIds db) (\<lambda>_ db.
           tbind (dbCreateTask uuid now now' input db) (\<lambda>(task, event) db1.
             case add_created_dependencies now now' input task dependencyIds [] db1 of
               (Inl e, db2) \<Rightarrow> (Inl e, snd (dbDeleteTask (tsk_id task) db2))
             | (Inr (task', related), db2) \<Rightarrow> (Inr (task', event, related), db2))))"

section \<open>Start and completion\<close>

definition assertTaskStartAllowed :: "task_record \<Rightarrow> string \<Rightarrow> task_db \<Rightarrow> unit task_result" where
  "assertTaskStartAllowed task action db =
     (if tsk_archivedAt task \<noteq> None
      then (Inl (''Task '' @ tsk_id task @ '' is archived. Unarchive it before you '' @ action @ ''.''), db)
      else (Inr (), db))"

text \<open>
  The dispatch of a task up to its row: the task must not wait for dependencies, a blocked task is
  resumed first, an archived one refused. The agent, session and work tree of the input are those
  that the preparation of the profile and the session, which is not modelled, settles on.
\<close>

definition dispatch_task_row ::
  "string \<Rightarrow> int \<Rightarrow> int \<Rightarrow> string \<Rightarrow> dispatch_input \<Rightarrow> string option \<Rightarrow> task_db
     \<Rightarrow> (task_record \<times> task_assignment option \<times> task_event) task_result" where
  "dispatch_task_row uuid now now' taskId input eventMessage db =
     tbind (getTaskOrThrow taskId db) (\<lambda>existingTask db.
     let waiting = unsatisfied_count db existingTask
     in if tsk_status existingTask = TaskOpen \<and> waiting > 0
        then (Inl (''Task '' @ taskId @ '' is waiting on '' @ show_nat waiting
                @ '' dependencies. Arm a launch plan instead of dispatching it early.''), db)
        else
          tbind (dbAutoResumeBlockedTask now now' taskId ResumeDispatch (ds_assignedBy input) (ds_assignedByAgentId input)
                   (ds_assignedBySession input) db) (\<lambda>(resumedTask, event) db1.
          tbind (assertTaskStartAllowed (if event \<noteq> None then resumedTask else existingTask) ''dispatch'' db1) (\<lambda>_ db2.
            dbDispatchTask uuid now now' taskId input eventMessage db2)))"

fun release_dependents ::
  "int \<Rightarrow> int \<Rightarrow> string \<Rightarrow> task_event \<Rightarrow> task_dependency list \<Rightarrow> string list \<Rightarrow> related_events \<Rightarrow> launch_plan list \<Rightarrow> task_db
     \<Rightarrow> (related_events \<times> launch_plan list) task_result" where
  "release_dependents now now' upstream event [] seen related plans db = (Inr (related, plans), db)"
| "release_dependents now now' upstream event (d # ds) seen related plans db =
     (case dbGetTask db (dp_taskId d) of
        None \<Rightarrow> release_dependents now now' upstream event ds seen related plans db
      | Some dependentTask \<Rightarrow>
          let before = unsatisfied_count db dependentTask + 1
          in tbind (dbAppendTaskEvent now now' (tsk_id dependentTask) EvDependencySatisfied
                      \<lparr>ei_actor = Some (nullish (tv_actor event) ''task.dependencies''), ei_agentId = tv_agentId event,
                       ei_session = tv_session event,
                       ei_message = Some (buildDependencySatisfiedMessage (tsk_id dependentTask) upstream),
                       ei_progress = Some (tsk_progress dependentTask), ei_related = Some upstream\<rparr> True db) (\<lambda>satisfied db1.
             if tsk_id dependentTask \<in> set seen
             then release_dependents now now' upstream event ds seen (related @ [satisfied]) plans db1
             else tbind (reconcileTaskReadinessTransition now now' (tsk_id dependentTask) before db1) (\<lambda>(evs, plan) db2.
                    release_dependents now now' upstream event ds (tsk_id dependentTask # seen) (related @ satisfied # evs)
                      (case plan of None \<Rightarrow> plans | Some p \<Rightarrow> plans @ [p]) db2)))"

definition buildDependencySatisfiedRelatedEvents ::
  "int \<Rightarrow> int \<Rightarrow> task_record \<Rightarrow> task_event \<Rightarrow> task_db \<Rightarrow> (related_events \<times> launch_plan list) task_result" where
  "buildDependencySatisfiedRelatedEvents now now' task event db =
     (if tsk_status task \<noteq> TaskDone then (Inr ([], []), db)
      else
        let (satisfied, db1) = dbMarkTaskDependenciesSatisfiedByUpstream (tsk_id task) (tv_id event) (tv_createdAt event) db
        in release_dependents now now' (tsk_id task) event satisfied [] [] [] db1)"

text \<open>Completion: the row, then what waits for it.\<close>

definition complete_and_release ::
  "int \<Rightarrow> int \<Rightarrow> string \<Rightarrow> terminal_input \<Rightarrow> task_db \<Rightarrow> (noop_result \<times> related_events \<times> launch_plan list) task_result" where
  "complete_and_release now now' taskId input db =
     tbind (dbCompleteTask now now' taskId input db) (\<lambda>(task, event, wasNoop) db1.
       case event of
         Some e \<Rightarrow>
           if wasNoop then (Inr ((task, event, wasNoop), [], []), db1)
           else tbind (buildDependencySatisfiedRelatedEvents now now' task e db1) (\<lambda>(related, plans) db2.
                  (Inr ((task, event, wasNoop), related, plans), db2))
       | None \<Rightarrow> (Inr ((task, event, wasNoop), [], []), db1))"

end
