(* ===== verification/TaskReach.thy ===== *)
theory TaskReach
  imports TaskGraph
begin

text \<open>
  What the search for a cycle decides: it walks the dependency graph to its end and answers
  reachability, so a dependency that passes the check keeps the graph free of cycles.
\<close>

definition dependency_edges :: "task_db \<Rightarrow> (string \<times> string) set" where
  "dependency_edges db = (\<lambda>d. (dp_taskId d, dp_dependsOn d)) ` set (td_dependencies db)"

lemma set_upstream_ids: "set (upstream_ids db taskId) = {u. (taskId, u) \<in> dependency_edges db}"
  by (auto simp: upstream_ids_def dbListTaskDependencies_def dependency_edges_def image_iff)

lemma walk_sound: "depends_walk db target ids visited \<Longrightarrow> \<exists>i\<in>set ids. (i, target) \<in> (dependency_edges db)\<^sup>*"
proof (induction db target ids visited rule: depends_walk.induct)
  case (1 db target visited)
  then show ?case by simp
next
  case (2 db target taskId taskIds visited)
  consider (found) "taskId = target" | (seen) "taskId \<noteq> target" "taskId \<in> set visited"
    | (asked) "taskId \<noteq> target" "taskId \<notin> set visited" by blast
  then show ?case
  proof cases
    case found
    then show ?thesis by auto
  next
    case seen
    with 2 show ?thesis by auto
  next
    case asked
    with 2 obtain i where "i \<in> set (upstream_ids db taskId @ taskIds)" "(i, target) \<in> (dependency_edges db)\<^sup>*" by auto
    then show ?thesis by (auto simp: set_upstream_ids intro: converse_rtrancl_into_rtrancl)
  qed
qed

text \<open>What was visited leads only to what was visited or is still to be asked.\<close>

lemma walk_complete:
  "\<lbrakk> target \<notin> set visited; \<forall>v u. v \<in> set visited \<longrightarrow> (v, u) \<in> dependency_edges db \<longrightarrow> u \<in> set visited \<union> set ids;
     i \<in> set visited \<union> set ids; (i, target) \<in> (dependency_edges db)\<^sup>* \<rbrakk> \<Longrightarrow> depends_walk db target ids visited"
proof (induction db target ids visited arbitrary: i rule: depends_walk.induct)
  case (1 db target visited)
  from "1.prems"(4,1,2,3) have False by (induction rule: converse_rtrancl_induct) auto
  then show ?case ..
next
  case (2 db target taskId taskIds visited)
  consider (found) "taskId = target" | (seen) "taskId \<noteq> target" "taskId \<in> set visited"
    | (asked) "taskId \<noteq> target" "taskId \<notin> set visited" by blast
  then show ?case
  proof cases
    case found
    then show ?thesis by simp
  next
    case seen
    then have eq: "set visited \<union> set (taskId # taskIds) = set visited \<union> set taskIds" by auto
    have "depends_walk db target taskIds visited"
      by (rule "2.IH"(1) [OF seen "2.prems"(1) _ _ "2.prems"(4)]) (use "2.prems"(2,3) eq in \<open>simp_all only:\<close>)
    with seen show ?thesis by simp
  next
    case asked
    have "depends_walk db target (upstream_ids db taskId @ taskIds) (taskId # visited)"
    proof (rule "2.IH"(2) [OF asked, of i])
      show "target \<notin> set (taskId # visited)" using "2.prems"(1) asked by auto
      show "\<forall>v u. v \<in> set (taskId # visited) \<longrightarrow> (v, u) \<in> dependency_edges db
          \<longrightarrow> u \<in> set (taskId # visited) \<union> set (upstream_ids db taskId @ taskIds)"
        using "2.prems"(2) by (auto simp: set_upstream_ids)
      show "i \<in> set (taskId # visited) \<union> set (upstream_ids db taskId @ taskIds)" using "2.prems"(3) by auto
      show "(i, target) \<in> (dependency_edges db)\<^sup>*" by (rule "2.prems"(4))
    qed
    with asked show ?thesis by simp
  qed
qed

lemma taskDependsOn_iff: "taskDependsOn db taskId target \<longleftrightarrow> (taskId, target) \<in> (dependency_edges db)\<^sup>*"
  using walk_sound [of db target "[taskId]" "[]"] walk_complete [of target "[]" db "[taskId]" taskId]
  by (auto simp: taskDependsOn_def)

lemma edge_allowed:
  assumes "assertTaskDependencyEdge taskId upstream db = (Inr u, db')"
  shows "(upstream, taskId) \<notin> (dependency_edges db)\<^sup>*" "db' = db"
  using assms by (auto simp: assertTaskDependencyEdge_def taskDependsOn_iff split: if_splits)

end
