(* ===== verification/TaskWrites.thy ===== *)
theory TaskWrites
  imports TaskReach
begin

text \<open>
  Every operation of the tasks as a sequence of writes of a few kinds. \<open>task_write L\<close> is the
  specification the operations refine: what a write may change, where \<open>L\<close> holds the tasks that
  may be dispatched or deleted. The invariants are proved over these writes.
\<close>

section \<open>The specification\<close>

definition task_ended :: "task_status \<Rightarrow> bool" where
  "task_ended s \<longleftrightarrow> s = TaskDone \<or> s = TaskFailed"

text \<open>What a task has come to, as opposed to how it is described.\<close>

definition outcome :: "task_record \<Rightarrow> task_status \<times> int \<times> string option \<times> string option \<times> int option \<times> int option" where
  "outcome t = (tsk_status t, tsk_progress t, tsk_summary t, tsk_blockerReason t, tsk_startedAt t, tsk_completedAt t)"

definition task_ok :: "task_record \<Rightarrow> bool" where
  "task_ok t \<longleftrightarrow> 0 \<le> tsk_progress t \<and> tsk_progress t \<le> 100
     \<and> (tsk_status t = TaskDone \<longrightarrow> tsk_progress t = 100)
     \<and> (task_ended (tsk_status t) \<longrightarrow> tsk_completedAt t \<noteq> None \<and> tsk_summary t \<noteq> None)
     \<and> (tsk_status t = TaskBlocked \<longrightarrow> tsk_blockerReason t \<noteq> None \<and> tsk_startedAt t \<noteq> None)"

definition asg_ok :: "task_assignment \<Rightarrow> bool" where
  "asg_ok a \<longleftrightarrow> (as_dueAt a \<noteq> None \<longrightarrow> as_status a = AsgAccepted)
     \<and> (as_acceptedAt a = None \<longrightarrow> as_status a \<in> {AsgAssigned, AsgSuperseded})
     \<and> (\<not> asg_active (as_status a) \<longrightarrow> as_completedAt a \<noteq> None) \<and> 0 \<le> as_overdueCount a"

text \<open>An active assignment belongs to a started task, and is blocked when the task is.\<close>

definition fits :: "task_record \<Rightarrow> task_assignment \<Rightarrow> bool" where
  "fits t a \<longleftrightarrow> status_active (tsk_status t) \<and> (tsk_status t = TaskBlocked \<longrightarrow> as_status a = AsgBlocked)"

definition same_asg :: "task_assignment \<Rightarrow> task_assignment \<Rightarrow> bool" where
  "same_asg a b \<longleftrightarrow> as_id a = as_id b \<and> as_taskId a = as_taskId b"

definition logged :: "int \<Rightarrow> string \<Rightarrow> task_event_type \<Rightarrow> event_input \<Rightarrow> task_db \<Rightarrow> task_db" where
  "logged now tid type input db = snd (appendTaskEvent now tid type input db)"

definition move :: "string \<Rightarrow> (task_record \<Rightarrow> task_record) \<Rightarrow> (task_assignment \<Rightarrow> task_assignment) \<Rightarrow> task_db \<Rightarrow> task_db" where
  "move tid h f db = (update_task tid h db)\<lparr>td_assignments := map f (td_assignments db)\<rparr>"

inductive task_write :: "string set \<Rightarrow> task_db \<Rightarrow> task_db \<Rightarrow> bool" for L where
  w_aside: "task_write L db (db\<lparr>td_comments := comments, td_plans := plans\<rparr>)"
| w_event: "task_write L db (logged now tid type input db)"
| w_touch: "(\<And>t. tsk_id (h t) = tsk_id t \<and> outcome (h t) = outcome t) \<Longrightarrow> task_write L db (update_task tid h db)"
| w_create: "task_row_of db (tsk_id t) = None \<Longrightarrow> tsk_status t = TaskOpen \<Longrightarrow> tsk_progress t = 0
     \<Longrightarrow> task_write L db (db\<lparr>td_tasks := td_tasks db @ [t]\<rparr>)"
| w_move: "task_row_of db tid = Some t \<Longrightarrow> \<not> task_ended (tsk_status t) \<Longrightarrow> (\<And>s. tsk_id (h s) = tsk_id s)
     \<Longrightarrow> (task_ok t \<Longrightarrow> task_ok (h t)) \<Longrightarrow> tsk_status (h t) \<noteq> TaskDone
     \<Longrightarrow> (\<And>a. same_asg (f a) a) \<Longrightarrow> (\<And>a. asg_ok a \<Longrightarrow> asg_ok (f a))
     \<Longrightarrow> (\<And>a. asg_active (as_status (f a)) \<Longrightarrow> asg_active (as_status a))
     \<Longrightarrow> (\<And>a. a \<in> set (td_assignments db) \<Longrightarrow> as_taskId a \<noteq> tid \<Longrightarrow> f a = a)
     \<Longrightarrow> (\<And>a. fits t a \<Longrightarrow> as_taskId a = tid \<Longrightarrow> asg_active (as_status (f a)) \<Longrightarrow> fits (h t) (f a))
     \<Longrightarrow> task_write L db (move tid h f db)"
| w_checkpoint: "(\<And>a. same_asg (f a) a \<and> as_status (f a) = as_status a) \<Longrightarrow> (\<And>a. asg_ok a \<Longrightarrow> asg_ok (f a))
     \<Longrightarrow> task_write L db (db\<lparr>td_assignments := map f (td_assignments db)\<rparr>)"
| w_complete: "dbCompleteTask now now' tid input db = (Inr (task, Some event, False), db1)
     \<Longrightarrow> task_write L db (snd (dbMarkTaskDependenciesSatisfiedByUpstream tid (tv_id event) (tv_createdAt event) db1))"
| w_supersede: "tid \<in> L \<Longrightarrow> task_write L db (update_active (\<lambda>a. as_taskId a = tid) (supersede now) db)"
| w_dispatch: "tid \<in> L \<Longrightarrow> task_row_of db tid \<noteq> None \<Longrightarrow> getAssignmentRowById db aid = None
     \<Longrightarrow> (\<forall>a\<in>set (td_assignments db). as_taskId a = tid \<longrightarrow> \<not> asg_active (as_status a))
     \<Longrightarrow> task_write L db (update_task tid
            (\<lambda>t. t\<lparr>tsk_status := TaskDispatched, tsk_assigneeAgentId := Some (ds_agentId input),
                   tsk_assigneeSession := Some (ds_session input), tsk_dispatchedAt := Some now, tsk_updatedAt := now\<rparr>)
            (db\<lparr>td_assignments := td_assignments db @ [new_assignment aid tid now runtime task input]\<rparr>))"
| w_depend: "task_row_of db tid \<noteq> None \<Longrightarrow> task_row_of db upstream \<noteq> None \<Longrightarrow> find_dependency db tid upstream = None
     \<Longrightarrow> (upstream, tid) \<notin> (dependency_edges db)\<^sup>* \<Longrightarrow> resolveSatisfiedDependencySource db upstream = (at, by)
     \<Longrightarrow> task_write L db (db\<lparr>td_dependencies := td_dependencies db
            @ [\<lparr>dp_taskId = tid, dp_dependsOn = upstream, dp_createdAt = now, dp_satisfiedAt = at, dp_satisfiedBy = by\<rparr>]\<rparr>)"
| w_undepend: "task_write L db (db\<lparr>td_dependencies := filter p (td_dependencies db)\<rparr>)"
| w_delete: "tid \<in> L \<Longrightarrow> task_write L db (snd (dbDeleteTask tid db))"

abbreviation task_writes :: "string set \<Rightarrow> task_db \<Rightarrow> task_db \<Rightarrow> bool" where
  "task_writes L \<equiv> (task_write L)\<^sup>*\<^sup>*"

section \<open>Composing writes\<close>

lemma task_write_mono: "task_write L db db' \<Longrightarrow> L \<subseteq> L' \<Longrightarrow> task_write L' db db'"
  by (induction rule: task_write.induct) (blast intro: task_write.intros)+

lemma one_write: "task_write L db db' \<Longrightarrow> task_writes L db db'"
  by (rule r_into_rtranclp)

lemma then_write: "task_writes L db db1 \<Longrightarrow> task_write L db1 db2 \<Longrightarrow> task_writes L db db2"
  by (rule rtranclp.rtrancl_into_rtrancl)

lemma then_writes: "task_writes L db db1 \<Longrightarrow> task_writes L db1 db2 \<Longrightarrow> task_writes L db db2"
  by (rule rtranclp_trans)

lemma writes_event: "task_writes L db db1 \<Longrightarrow> task_writes L db (logged now tid type input db1)"
  by (blast intro: then_write w_event)

lemma writes_touch:
  "task_writes L db db1 \<Longrightarrow> (\<And>t. tsk_id (h t) = tsk_id t \<and> outcome (h t) = outcome t) \<Longrightarrow> task_writes L db (update_task tid h db1)"
  by (blast intro: then_write w_touch)

lemma writes_comments: "task_writes L db (db\<lparr>td_comments := comments\<rparr>)"
  using w_aside [where L = L and db = db and comments = comments and plans = "td_plans db"] by (auto intro: one_write)

lemma writes_plans: "task_writes L db (db\<lparr>td_plans := plans\<rparr>)"
  using w_aside [where L = L and db = db and comments = "td_comments db" and plans = plans] by (auto intro: one_write)

lemma writes_bind:
  assumes "task_writes L db (snd r)" "\<And>x. fst r = Inr x \<Longrightarrow> task_writes L (snd r) (snd (f x (snd r)))"
  shows "task_writes L db (snd (tbind r f))"
  using assms by (cases r; cases "fst r") (auto simp: tbind_def intro: then_writes)

lemma snd_getTask: "snd (getTaskOrThrow tid db) = db"
  by (simp add: getTaskOrThrow_def split: option.split)

lemma fst_getTask: "fst (getTaskOrThrow tid db) = Inr t \<longleftrightarrow> dbGetTask db tid = Some t"
  by (auto simp: getTaskOrThrow_def split: option.split)

lemma writes_bind_get:
  "(\<And>t. dbGetTask db tid = Some t \<Longrightarrow> task_writes L db (snd (f t db))) \<Longrightarrow> task_writes L db (snd (tbind (getTaskOrThrow tid db) f))"
  by (rule writes_bind) (simp_all add: snd_getTask fst_getTask)

lemma writes_bind_event:
  "(\<And>e. task_writes L (logged now tid type input db) (snd (f e (logged now tid type input db))))
     \<Longrightarrow> task_writes L db (snd (tbind (appendTaskEvent now tid type input db) f))"
  by (rule writes_bind) (use w_event [of L db now tid type input] in \<open>auto simp: logged_def intro: one_write\<close>)

text \<open>A step that only looks at the state before it goes on.\<close>

lemma writes_bind_pure:
  "snd r = db \<Longrightarrow> (\<And>x. fst r = Inr x \<Longrightarrow> task_writes L db (snd (f x db))) \<Longrightarrow> task_writes L db (snd (tbind r f))"
  by (rule writes_bind) simp_all

lemma get_row: "dbGetTask db tid = Some t \<Longrightarrow> \<exists>row. task_row_of db tid = Some row \<and> t = rowToTask row"
  by (auto simp: dbGetTask_def)

lemma row_id: "task_row_of db tid = Some t \<Longrightarrow> tsk_id t = tid"
  by (auto simp: task_row_of_def find_Some_iff)

lemma decoded_status [simp]: "tsk_status (rowToTask t) = tsk_status t" "tsk_progress (rowToTask t) = tsk_progress t"
  "tsk_id (rowToTask t) = tsk_id t"
  by (simp_all add: rowToTask_def)

lemma touch_time: "tsk_id (t\<lparr>tsk_updatedAt := now\<rparr>) = tsk_id t \<and> outcome (t\<lparr>tsk_updatedAt := now\<rparr>) = outcome t"
  by (simp add: outcome_def)

section \<open>Moves of a task and its assignments\<close>

lemma writes_move:
  assumes row: "task_row_of db tid = Some t" "\<not> task_ended (tsk_status t)"
    and h: "\<And>s. tsk_id (h s) = tsk_id s" "task_ok t \<Longrightarrow> task_ok (h t)" "tsk_status (h t) \<noteq> TaskDone"
    and p: "\<And>a. a \<in> set (td_assignments db) \<Longrightarrow> p a \<Longrightarrow> as_taskId a = tid"
    and g: "\<And>a. same_asg (g a) a" "\<And>a. asg_ok a \<Longrightarrow> asg_active (as_status a) \<Longrightarrow> asg_ok (g a)"
    and fit: "\<And>a. fits t a \<Longrightarrow> p a \<Longrightarrow> asg_active (as_status (g a)) \<Longrightarrow> fits (h t) (g a)"
      "\<And>a. fits t a \<Longrightarrow> as_taskId a = tid \<Longrightarrow> \<not> p a \<Longrightarrow> fits (h t) a"
  shows "task_writes L db (update_active p g (update_task tid h db))"
proof -
  let ?f = "\<lambda>a. if p a \<and> asg_active (as_status a) then g a else a"
  have "task_write L db (move tid h ?f db)"
  proof (rule w_move [OF row h])
    show "as_taskId a \<noteq> tid \<Longrightarrow> ?f a = a" if "a \<in> set (td_assignments db)" for a using that p by auto
    show "same_asg (?f a) a" for a using g(1) by (auto simp: same_asg_def)
    show "asg_ok (?f a)" if "asg_ok a" for a using that g(2) by auto
    show "asg_active (as_status a)" if "asg_active (as_status (?f a))" for a using that by (auto split: if_splits)
    show "fits (h t) (?f a)" if "fits t a" "as_taskId a = tid" "asg_active (as_status (?f a))" for a
      using that fit by (auto split: if_splits)
  qed
  moreover have "move tid h ?f db = update_active p g (update_task tid h db)"
    by (simp add: move_def update_active_def update_task_def)
  ultimately show ?thesis by (auto intro: one_write)
qed

lemma active_after_task: "update_active p g (update_task tid h db) = update_task tid h (update_active p g db)"
  by (simp add: update_active_def update_task_def)

lemma writes_finish: "task_writes L db db1 \<Longrightarrow> task_writes L db (snd (finish_event now tid type input db1))"
  unfolding finish_event_def
  by (rule then_writes, assumption) (rule writes_bind_event, rule writes_bind_get, simp)

lemma writes_logged_task:
  "task_writes L db db1 \<Longrightarrow> task_writes L db (snd (tbind (appendTaskEvent now tid type input db1) (\<lambda>e db2.
     tbind (getTaskOrThrow tid db2) (\<lambda>t db3. (Inr (F t e db3), db3)))))"
  by (rule then_writes, assumption) (rule writes_bind_event, rule writes_bind_get, simp)

lemmas task_facts = task_ok_def task_ended_def asg_ok_def same_asg_def fits_def status_active_def asg_active_def
lemmas asg_moves = accept_def report_checkpoint_def block_assignment_def end_assignment_def resume_assignment_def
  accept_checkpoint_def supersede_def

lemma orElse_Some [simp]: "orElse x (Some y) \<noteq> None" "orElse x (Some y) = None \<longleftrightarrow> False"
  by (simp_all add: orElse_def split: option.split)

lemma clamp_bounds: "0 \<le> clamp_progress p" "clamp_progress p \<le> 100"
  by (simp_all add: clamp_progress_def)

lemma status_cases:
  "s \<noteq> TaskDone \<Longrightarrow> s \<noteq> TaskFailed \<Longrightarrow> s = TaskOpen \<or> s = TaskDispatched \<or> s = TaskInProgress \<or> s = TaskBlocked"
  by (cases s) simp_all

lemma progress_writes: "task_writes L db (snd (dbReportTaskProgress now now' tid input db))"
  unfolding dbReportTaskProgress_def
proof (rule writes_bind_get, goal_cases)
  case (1 t)
  then obtain row where row: "task_row_of db tid = Some row" "t = rowToTask row" by (auto dest: get_row)
  show ?case
  proof (cases "requireTaskProgressMessage (pg_message input) ''Task progress requires a descriptive message.''")
    case (Inl e)
    then show ?thesis by simp
  next
    case (Inr message)
    show ?thesis
    proof (cases "tsk_status t = TaskDone \<or> tsk_status t = TaskFailed")
      case True
      with Inr show ?thesis by (simp add: writes_bind_event)
    next
      case False
      let ?progress = "case pg_progress input of Some p \<Rightarrow> clamp_progress p | None \<Rightarrow> tsk_progress t"
      let ?h = "\<lambda>s. s\<lparr>tsk_status := TaskInProgress, tsk_progress := ?progress, tsk_blockerReason := None,
                              tsk_startedAt := orElse (tsk_startedAt s) (Some (nullish (tsk_startedAt t) now)), tsk_updatedAt := now\<rparr>"
      have moved: "task_writes L db (update_active (of_session tid (pg_session input)) g (update_task tid ?h db))"
        if g: "\<And>a. same_asg (g a) a" "\<And>a. asg_ok a \<Longrightarrow> asg_active (as_status a) \<Longrightarrow> asg_ok (g a)" for g
        by (rule writes_move [OF row(1)])
          (use False row(2) g clamp_bounds in \<open>auto simp: task_facts of_session_def split: option.splits\<close>)
      have "task_writes L db (if nullish (pg_resetCheckpoint input) True
          then update_active (of_session tid (pg_session input)) (report_checkpoint now due) (update_task tid ?h db)
          else markActiveAssignmentAccepted now tid (pg_session input) (update_task tid ?h db))" for due
        unfolding markActiveAssignmentAccepted_def
        by (cases "nullish (pg_resetCheckpoint input) True") (auto intro!: moved simp: task_facts asg_moves)
      with Inr False show ?thesis by (simp only: Let_def sum.case if_False) (rule writes_logged_task)
    qed
  qed
qed

lemma block_writes: "task_writes L db (snd (dbBlockTask now now' tid input db))"
  unfolding dbBlockTask_def
proof (rule writes_bind_get, goal_cases)
  case (1 t)
  then obtain row where row: "task_row_of db tid = Some row" "t = rowToTask row" by (auto dest: get_row)
  let ?progress = "case tm_progress input of Some p \<Rightarrow> clamp_progress p | None \<Rightarrow> max (tsk_progress t) 1"
  have "task_writes L db (update_active (\<lambda>a. as_taskId a = tid) (block_assignment now)
          (update_task tid (\<lambda>t. t\<lparr>tsk_status := TaskBlocked, tsk_blockerReason := Some (tm_message input),
             tsk_progress := ?progress, tsk_startedAt := orElse (tsk_startedAt t) (Some now), tsk_updatedAt := now\<rparr>) db))"
    if "\<not> (tsk_status t = TaskDone \<or> tsk_status t = TaskFailed)"
    by (rule writes_move [OF row(1)])
      (use that row(2) clamp_bounds in \<open>auto simp: task_facts asg_moves split: option.splits\<close>)
  then show ?case by (simp add: Let_def writes_finish)
qed

lemma fail_writes: "task_writes L db (snd (dbFailTask now now' tid input db))"
  unfolding dbFailTask_def
proof (rule writes_bind_get, goal_cases)
  case (1 t)
  then obtain row where row: "task_row_of db tid = Some row" "t = rowToTask row" by (auto dest: get_row)
  have "task_writes L db (update_active (\<lambda>a. as_taskId a = tid) (end_assignment AsgFailed now)
          (update_task tid (\<lambda>t. t\<lparr>tsk_status := TaskFailed, tsk_summary := Some (tm_message input),
             tsk_completedAt := Some now, tsk_updatedAt := now\<rparr>) db))"
    if "\<not> (tsk_status t = TaskDone \<or> tsk_status t = TaskFailed)"
    by (rule writes_move [OF row(1)]) (use that row(2) in \<open>auto simp: task_facts asg_moves\<close>)
  then show ?case by (simp add: Let_def writes_finish)
qed

lemma resume_writes: "task_writes L db (snd (dbAutoResumeBlockedTask now now' tid reason actor agentId sessionName db))"
  unfolding dbAutoResumeBlockedTask_def
proof (rule writes_bind_get, goal_cases)
  case (1 t)
  then obtain row where row: "task_row_of db tid = Some row" "t = rowToTask row" by (auto dest: get_row)
  have "task_writes L db (update_active (\<lambda>a. as_taskId a = tid) (resume_assignment now due)
          (update_task tid (\<lambda>t. if tsk_status t = TaskBlocked
             then t\<lparr>tsk_status := TaskInProgress, tsk_blockerReason := None, tsk_updatedAt := now\<rparr> else t) db))"
    if "tsk_status t = TaskBlocked" for due
    by (rule writes_move [OF row(1)]) (use that row(2) in \<open>auto simp: task_facts asg_moves\<close>)
  then show ?case by (simp add: Let_def writes_logged_task)
qed

text \<open>Completion with what it releases: the row and the marked dependencies are one write.\<close>


section \<open>Operations that describe a task\<close>

lemma writes_touch_get:
  "(\<And>t. tsk_id (h t) = tsk_id t \<and> outcome (h t) = outcome t) \<Longrightarrow> task_writes L db (snd (getTaskOrThrow tid (update_task tid h db)))"
  by (simp add: snd_getTask writes_touch)

lemma writes_touch_logged:
  assumes "\<And>t. tsk_id (h t) = tsk_id t \<and> outcome (h t) = outcome t"
  shows "task_writes L db (snd (tbind (getTaskOrThrow tid (update_task tid h db)) (\<lambda>t db2.
      tbind (appendTaskEvent now tid type (input t) db2) (\<lambda>e db3. (Inr (F t e), db3)))))"
  by (rule then_writes [OF writes_touch [OF rtranclp.rtrancl_refl assms]]) (rule writes_bind_get, rule writes_bind_event, simp)

lemma profile_writes:
  "task_writes L db (snd (dbSetTaskProfileId tid profile db))"
  "task_writes L db (snd (dbSetTaskProfileResolution tid profile version source snapshot db))"
  "task_writes L db (snd (dbSetTaskProfileState tid state db))"
  unfolding dbSetTaskProfileId_def dbSetTaskProfileResolution_def dbSetTaskProfileState_def
  by (rule writes_touch_get; simp add: outcome_def)+

lemma plan_writes:
  "task_writes L db (snd (dbSetTaskLaunchPlan tid now input db))"
  "task_writes L db (snd (dbClearTaskLaunchPlan tid db))"
proof -
  show "task_writes L db (snd (dbSetTaskLaunchPlan tid now input db))"
    unfolding dbSetTaskLaunchPlan_def
    by (rule writes_bind_get) (auto simp: Let_def writes_plans split: sum.split)
  show "task_writes L db (snd (dbClearTaskLaunchPlan tid db))" by (simp add: dbClearTaskLaunchPlan_def writes_plans)
qed

lemma comment_writes: "task_writes L db (snd (dbAddTaskComment uuid now tid input db))"
  unfolding dbAddTaskComment_def
  by (rule writes_bind_get) (auto simp: Let_def intro!: writes_touch writes_comments touch_time)

lemma append_writes: "task_writes L db (snd (dbAppendTaskEvent now now' tid type input touch db))"
  unfolding dbAppendTaskEvent_def
proof (rule writes_bind_get, goal_cases)
  case (1 t)
  have "task_writes L db (if touch then update_task tid (\<lambda>t. t\<lparr>tsk_updatedAt := now\<rparr>) db else db)"
    by (simp add: writes_touch touch_time)
  then show ?case by (rule writes_logged_task)
qed

lemma archive_writes: "task_writes L db (snd (dbArchiveTask now now' tid input db))"
  unfolding dbArchiveTask_def
proof (rule writes_bind_get, goal_cases)
  case (1 t)
  show ?case
  proof (cases "tsk_archivedAt t \<noteq> None")
    case False
    then show ?thesis
      by (simp only: if_False not_True_eq_False Let_def) (rule writes_touch_logged, simp add: outcome_def)
  qed simp
qed

lemma unarchive_writes: "task_writes L db (snd (dbUnarchiveTask now now' tid input db))"
  unfolding dbUnarchiveTask_def
proof (rule writes_bind_get, goal_cases)
  case (1 t)
  show ?case
  proof (cases "tsk_archivedAt t = None")
    case False
    then show ?thesis by (simp only: if_False Let_def) (rule writes_touch_logged, simp add: outcome_def)
  qed simp
qed

lemma update_writes: "task_writes L db (snd (dbUpdateTask now now' tid input db))"
  unfolding dbUpdateTask_def Let_def
proof (rule writes_bind_get, goal_cases)
  case (1 t)
  show ?case by (split if_split, rule conjI; intro impI) (simp, rule writes_touch_logged, simp add: outcome_def)
qed

lemma delete_writes: "tid \<in> L \<Longrightarrow> task_writes L db (snd (dbDeleteTask tid db))"
  by (intro one_write w_delete)

section \<open>Dispatch\<close>

lemma row_update:
  "(\<And>t. tsk_id (h t) = tsk_id t) \<Longrightarrow>
     task_row_of (update_task tid h db) x = (if x = tid then map_option h (task_row_of db x) else task_row_of db x)"
proof -
  assume h: "\<And>t. tsk_id (h t) = tsk_id t"
  have "find (\<lambda>t. tsk_id t = x) (map (\<lambda>t. if tsk_id t = tid then h t else t) ts)
      = (if x = tid then map_option h (find (\<lambda>t. tsk_id t = x) ts) else find (\<lambda>t. tsk_id t = x) ts)" for ts
    by (induction ts) (auto simp: h)
  then show ?thesis by (simp add: task_row_of_def update_task_def)
qed

lemma row_active [simp]: "task_row_of (update_active p g db) x = task_row_of db x"
  by (simp add: task_row_of_def update_active_def)

lemma row_aside [simp]:
  "task_row_of (db\<lparr>td_assignments := as\<rparr>) x = task_row_of db x" "task_row_of (db\<lparr>td_plans := ps\<rparr>) x = task_row_of db x"
  "task_row_of (db\<lparr>td_dependencies := ds\<rparr>) x = task_row_of db x" "task_row_of (db\<lparr>td_comments := cs\<rparr>) x = task_row_of db x"
  "task_row_of (db\<lparr>td_events := es, td_eventSeq := n\<rparr>) x = task_row_of db x"
  by (simp_all add: task_row_of_def)

lemma assignments_of_update:
  "td_assignments (update_active p f db) = map (\<lambda>a. if p a \<and> asg_active (as_status a) then f a else a) (td_assignments db)"
  by (simp add: update_active_def)

lemma none_active: "\<forall>a\<in>set (td_assignments (update_active (\<lambda>a. as_taskId a = tid) (supersede now) db)).
    as_taskId a = tid \<longrightarrow> \<not> asg_active (as_status a)"
proof -
  let ?f = "\<lambda>a. if as_taskId a = tid \<and> asg_active (as_status a) then supersede now a else a"
  have "as_taskId (?f a) = tid \<longrightarrow> \<not> asg_active (as_status (?f a))" for a by (simp add: supersede_def asg_active_def)
  then show ?thesis by (simp only: assignments_of_update list.set_map ball_simps)  blast
qed

lemma dispatch_writes: "tid \<in> L \<Longrightarrow> task_writes L db (snd (dbDispatchTask uuid now now' tid input message db))"
  unfolding dbDispatchTask_def Let_def
proof (rule writes_bind_get, goal_cases)
  case (1 t)
  let ?db1 = "db\<lparr>td_plans := filter (\<lambda>p. pl_taskId p \<noteq> tid) (td_plans db)\<rparr>"
  let ?db2 = "update_active (\<lambda>a. as_taskId a = tid) (supersede now) ?db1"
  have two: "task_writes L db ?db2" by (rule then_write [OF writes_plans w_supersede [OF 1(1)]])
  have none: "\<forall>a\<in>set (td_assignments ?db2). as_taskId a = tid \<longrightarrow> \<not> asg_active (as_status a)"
    by (rule none_active)
  have row: "task_row_of ?db2 tid \<noteq> None" using 1(2) by (auto simp: dbGetTask_def)
  show ?case
  proof (cases "serializeTaskRuntimeOptions (ds_runtimeOverride input)")
    case (Inl e)
    with two show ?thesis by simp
  next
    case (Inr runtime)
    show ?thesis
    proof (cases "getAssignmentRowById ?db2 (''asg-'' @ take 8 uuid)")
      case (Some a)
      with Inr two show ?thesis by simp
    next
      case None
      have logged: "task_writes L db (snd (tbind (appendTaskEvent now' tid EvDispatched ev db4) (\<lambda>event db5.
          tbind (getTaskOrThrow tid db5) (\<lambda>task' db6. (Inr (task', dbGetActiveAssignment db6 tid, event), db6)))))"
        if "task_writes L db db4" for ev db4
        by (rule writes_logged_task [OF that])
      show ?thesis unfolding Inr sum.case None
        by (simp only: not_True_eq_False simp_thms if_False) (rule logged [OF then_write [OF two w_dispatch [OF 1(1) row None none]]])
    qed
  qed
qed

lemma dispatch_row_writes:
  assumes "tid \<in> L"
  shows "task_writes L db (snd (dispatch_task_row uuid now now' tid input message db))"
  unfolding dispatch_task_row_def Let_def
proof (rule writes_bind_get, goal_cases)
  case (1 t)
  have "task_writes L db (snd (tbind (dbAutoResumeBlockedTask now now' tid ResumeDispatch (ds_assignedBy input)
      (ds_assignedByAgentId input) (ds_assignedBySession input) db) (\<lambda>(resumedTask, event) db1.
          tbind (assertTaskStartAllowed (if event \<noteq> None then resumedTask else t) ''dispatch'' db1) (\<lambda>_ db2.
            dbDispatchTask uuid now now' tid input message db2))))"
    by (rule writes_bind [OF resume_writes])
      (auto split: prod.split intro!: writes_bind_pure dispatch_writes assms simp: assertTaskStartAllowed_def)
  then show ?case by simp
qed

section \<open>Results\<close>

text \<open>What the writes of a found task return.\<close>

definition new_event :: "int \<Rightarrow> string \<Rightarrow> task_event_type \<Rightarrow> event_input \<Rightarrow> task_db \<Rightarrow> task_event" where
  "new_event now tid type input db =
     \<lparr>tv_id = Suc (td_eventSeq db), tv_taskId = tid, tv_type = type, tv_actor = ei_actor input, tv_agentId = ei_agentId input,
      tv_session = ei_session input, tv_message = ei_message input, tv_progress = map_option clamp_progress (ei_progress input),
      tv_relatedTaskId = ei_related input, tv_createdAt = now\<rparr>"

lemma logged_form:
  "logged now tid type input db = (if task_row_of db tid = None then db
     else db\<lparr>td_events := td_events db @ [new_event now tid type input db], td_eventSeq := Suc (td_eventSeq db)\<rparr>)"
  by (simp add: logged_def appendTaskEvent_def new_event_def Let_def)

lemma logged_rows [simp]: "td_tasks (logged now tid type input db) = td_tasks db"
  "td_assignments (logged now tid type input db) = td_assignments db"
  "td_dependencies (logged now tid type input db) = td_dependencies db" "td_plans (logged now tid type input db) = td_plans db"
  by (simp_all add: logged_form)

lemma logged_row [simp]: "task_row_of (logged now tid type input db) x = task_row_of db x"
  by (simp add: task_row_of_def)

lemma update_task_rows [simp]: "td_assignments (update_task tid h db) = td_assignments db"
  "td_dependencies (update_task tid h db) = td_dependencies db" "td_events (update_task tid h db) = td_events db"
  "td_eventSeq (update_task tid h db) = td_eventSeq db" "td_plans (update_task tid h db) = td_plans db"
  by (simp_all add: update_task_def)

lemma update_active_rows [simp]: "td_tasks (update_active p f db) = td_tasks db"
  "td_dependencies (update_active p f db) = td_dependencies db" "td_events (update_active p f db) = td_events db"
  "td_eventSeq (update_active p f db) = td_eventSeq db" "td_plans (update_active p f db) = td_plans db"
  by (simp_all add: update_active_def)

lemma append_form: "task_row_of db tid \<noteq> None \<Longrightarrow>
    appendTaskEvent now tid type input db = (Inr (rowToEvent (new_event now tid type input db)), logged now tid type input db)"
  by (simp add: logged_def appendTaskEvent_def new_event_def Let_def)

lemma get_form: "task_row_of db tid = Some row \<Longrightarrow> getTaskOrThrow tid db = (Inr (rowToTask row), db)"
  by (simp add: getTaskOrThrow_def dbGetTask_def)

lemma dbAppend_form:
  assumes "task_row_of db tid = Some row"
  shows "dbAppendTaskEvent now now' tid type input True db
    = (let db1 = update_task tid (\<lambda>t. t\<lparr>tsk_updatedAt := now\<rparr>) db
       in (Inr (rowToTask (row\<lparr>tsk_updatedAt := now\<rparr>), rowToEvent (new_event now' tid type input db1)), logged now' tid type input db1))"
proof -
  have "task_row_of (update_task tid (\<lambda>t. t\<lparr>tsk_updatedAt := now\<rparr>) db) tid = Some (row\<lparr>tsk_updatedAt := now\<rparr>)"
    using assms by (simp add: row_update)
  then show ?thesis by (simp add: dbAppendTaskEvent_def get_form [OF assms] get_form append_form tbind_def Let_def)
qed

lemma dbAppend_none: "task_row_of db tid = None \<Longrightarrow> dbAppendTaskEvent now now' tid type input touch db = (Inl (''Task not found: '' @ tid), db)"
  by (simp add: dbAppendTaskEvent_def getTaskOrThrow_def dbGetTask_def tbind_def)

lemma finish_form: "task_row_of db tid = Some row \<Longrightarrow>
    finish_event now tid type input db = (Inr (rowToTask row, Some (rowToEvent (new_event now tid type input db)), False), logged now tid type input db)"
  by (simp add: finish_event_def get_form append_form tbind_def)

definition completed :: "int \<Rightarrow> terminal_input \<Rightarrow> task_record \<Rightarrow> task_record" where
  "completed now input t = t\<lparr>tsk_status := TaskDone, tsk_progress := 100, tsk_summary := Some (tm_message input),
     tsk_blockerReason := None, tsk_completedAt := Some now, tsk_startedAt := orElse (tsk_startedAt t) (Some now), tsk_updatedAt := now\<rparr>"

definition completion :: "int \<Rightarrow> string \<Rightarrow> terminal_input \<Rightarrow> task_db \<Rightarrow> task_db" where
  "completion now tid input db =
     update_active (\<lambda>a. as_taskId a = tid) (end_assignment AsgDone now) (update_task tid (completed now input) db)"

lemma complete_form:
  "dbCompleteTask now now' tid input db =
     (case task_row_of db tid of
        None \<Rightarrow> (Inl (''Task not found: '' @ tid), db)
      | Some row \<Rightarrow>
          if task_ended (tsk_status row) then (Inr (getTerminalTaskNoopResult db (rowToTask row) (Some EvDone)), db)
          else (Inr (rowToTask (completed now input row),
                     Some (rowToEvent (new_event now' tid EvDone (terminal_event input 100) (completion now tid input db))), False),
                logged now' tid EvDone (terminal_event input 100) (completion now tid input db)))"
proof (cases "task_row_of db tid")
  case None
  then show ?thesis by (simp add: dbCompleteTask_def getTaskOrThrow_def dbGetTask_def tbind_def)
next
  case (Some row)
  have "task_row_of (completion now tid input db) tid = Some (completed now input row)"
    by (simp add: completion_def row_update completed_def Some)
  then show ?thesis using Some
    by (simp add: dbCompleteTask_def tbind_def get_form task_ended_def finish_form completion_def [symmetric]
      completed_def [symmetric, abs_def] del: row_active)
qed

section \<open>Dependencies and completion\<close>

lemma snd_edge [simp]: "snd (assertTaskDependencyEdge a b db) = db"
  by (simp add: assertTaskDependencyEdge_def)

lemma snd_editable [simp]: "snd (assertTaskDependencyEditable t action db) = db"
  by (simp add: assertTaskDependencyEditable_def)

lemma reconcile_writes: "task_writes L db (snd (reconcileTaskReadinessTransition now now' tid before db))"
  unfolding reconcileTaskReadinessTransition_def
  by (auto simp: Let_def split: option.split intro!: writes_bind [OF append_writes])

lemma depend_writes:
  assumes "(upstream, tid) \<notin> (dependency_edges db)\<^sup>*"
  shows "task_writes L db (snd (dbAddTaskDependency now tid upstream db))"
  unfolding dbAddTaskDependency_def
proof (rule writes_bind_get, rule writes_bind_get, goal_cases)
  case (1 t u)
  then have rows: "task_row_of db tid \<noteq> None" "task_row_of db upstream \<noteq> None" by (auto simp: dbGetTask_def)
  obtain at "by" where r: "resolveSatisfiedDependencySource db upstream = (at, by)" by fastforce
  show ?case
  proof (cases "find_dependency db tid upstream")
    case None
    from then_write [OF one_write w_touch, OF w_depend [OF rows None assms r], of "\<lambda>t. t\<lparr>tsk_updatedAt := now\<rparr>", OF touch_time]
    show ?thesis by (simp add: None r Let_def)
  qed simp
qed

lemma undepend_writes: "task_writes L db (snd (dbRemoveTaskDependency now tid upstream db))"
  unfolding dbRemoveTaskDependency_def
  by (auto split: option.split simp del: de_Morgan_conj intro: writes_touch [OF one_write [OF w_undepend] touch_time])

lemma changed_writes: "task_writes L db (snd (dependency_changed now now' tid upstream added task before dependency db))"
  unfolding dependency_changed_def
  by (auto split: prod.split intro!: writes_bind [OF append_writes] writes_bind [OF reconcile_writes])

lemma add_dependency_writes: "task_writes L db (snd (addTaskDependency now now' tid upstream db))"
  unfolding addTaskDependency_def
proof (rule writes_bind_get, rule writes_bind_pure [OF snd_editable], goal_cases)
  case (1 t u)
  show ?case
  proof (cases "dbGetTask db upstream = None")
    case False
    have "task_writes L db (snd (dbAddTaskDependency now tid upstream db))"
      if "fst (assertTaskDependencyEdge tid upstream db) = Inr v" for v
      using edge_allowed(1) [of tid upstream db v] that depend_writes by (metis prod.collapse)
    with False show ?thesis
      by (auto simp: Let_def split: prod.split intro!: writes_bind_pure [OF snd_edge] writes_bind changed_writes)
  qed simp
qed

lemma remove_dependency_writes: "task_writes L db (snd (removeTaskDependency now now' tid upstream db))"
  unfolding removeTaskDependency_def
  by (rule writes_bind_get, rule writes_bind_pure [OF snd_editable])
    (auto simp: Let_def split: prod.split intro!: writes_bind [OF undepend_writes] changed_writes)

lemma release_writes: "task_writes L db (snd (release_dependents now now' upstream event ds seen related plans db))"
proof (induction ds arbitrary: seen related plans db)
  case (Cons d ds)
  show ?case
    by (auto simp: Let_def Cons split: option.split prod.split intro!: writes_bind [OF append_writes] writes_bind [OF reconcile_writes])
qed simp

lemma complete_writes: "task_writes L db (snd (complete_and_release now now' tid input db))"
proof (cases "\<exists>row. task_row_of db tid = Some row \<and> \<not> task_ended (tsk_status row)")
  case False
  then have "snd (dbCompleteTask now now' tid input db) = db
      \<and> (\<forall>r. fst (dbCompleteTask now now' tid input db) = Inr r \<longrightarrow> snd (snd r))"
    by (auto simp: complete_form getTerminalTaskNoopResult_def Let_def split: option.split)
  then show ?thesis unfolding complete_and_release_def
    by (auto intro!: writes_bind_pure split: option.split)
next
  case True
  then obtain row where row: "task_row_of db tid = Some row" "\<not> task_ended (tsk_status row)" by blast
  let ?db1 = "logged now' tid EvDone (terminal_event input 100) (completion now tid input db)"
  let ?e = "rowToEvent (new_event now' tid EvDone (terminal_event input 100) (completion now tid input db))"
  let ?t = "rowToTask (completed now input row)"
  have c: "dbCompleteTask now now' tid input db = (Inr (?t, Some ?e, False), ?db1)" using row by (simp add: complete_form)
  obtain satisfied db2 where m: "dbMarkTaskDependenciesSatisfiedByUpstream tid (tv_id ?e) (tv_createdAt ?e) ?db1 = (satisfied, db2)"
    by fastforce
  have t: "tsk_status (completed now input row) = TaskDone" "tsk_id (completed now input row) = tid"
    using row_id [OF row(1)] by (simp_all add: completed_def)
  have "task_writes L db db2" using w_complete [OF c, of L] m by (auto intro: one_write)
  then have "task_writes L db (snd (tbind (release_dependents now now' tid ?e satisfied [] [] [] db2) f))"
    if "\<And>x db. snd (f x db) = db" for f :: "related_events \<times> launch_plan list \<Rightarrow> task_db \<Rightarrow> (noop_result \<times> related_events \<times> launch_plan list) task_result"
    by (rule then_writes) (use that in \<open>auto intro!: writes_bind [OF release_writes]\<close>)
  then show ?thesis
    by (simp add: complete_and_release_def c tbind_def [of "(Inr x, y)" for x y] buildDependencySatisfiedRelatedEvents_def t m)
qed

section \<open>Creation\<close>

definition closed_dependencies :: "task_db \<Rightarrow> bool" where
  "closed_dependencies db \<longleftrightarrow> (\<forall>(a, b)\<in>dependency_edges db. task_row_of db a \<noteq> None \<and> task_row_of db b \<noteq> None)"

lemma row_created: "task_row_of (db\<lparr>td_tasks := td_tasks db @ [t]\<rparr>) x
    = (if task_row_of db x = None \<and> tsk_id t = x then Some t else task_row_of db x)"
proof -
  have "find P (ts @ [t]) = (if find P ts = None \<and> P t then Some t else find P ts)" for P and ts :: "task_record list"
    by (induction ts) auto
  then show ?thesis by (simp add: task_row_of_def)
qed

lemma create_form:
  assumes "dbCreateTask uuid now now' input db = (Inr (task, event), db1)"
  shows "task_row_of db (''task-'' @ take 8 uuid) = None \<and> tsk_id task = ''task-'' @ take 8 uuid
     \<and> td_dependencies db1 = td_dependencies db \<and> task_writes L db db1"
proof -
  let ?tid = "''task-'' @ take 8 uuid"
  obtain runtime where r: "serializeTaskRuntimeOptions (ci_runtimeOverride input) = Inr runtime" and n: "task_row_of db ?tid = None"
    using assms by (auto simp: dbCreateTask_def Let_def split: sum.splits if_splits)
  let ?t = "new_task ?tid now runtime input"
  have t: "tsk_id ?t = ?tid" "tsk_status ?t = TaskOpen" "tsk_progress ?t = 0" by (simp_all add: new_task_def)
  have row: "task_row_of (db\<lparr>td_tasks := td_tasks db @ [?t]\<rparr>) ?tid = Some ?t" using n t(1) by (simp add: row_created)
  have "task_writes L db (logged now' ?tid type ev (db\<lparr>td_tasks := td_tasks db @ [?t]\<rparr>))" for type ev
    by (rule writes_event, rule one_write, rule w_create) (simp_all only: n t)
  then show ?thesis
    using assms n r row t(1) by (auto simp: dbCreateTask_def Let_def append_form get_form tbind_def)
qed

lemma create_fails: "fst (dbCreateTask uuid now now' input db) = Inl e \<Longrightarrow> snd (dbCreateTask uuid now now' input db) = db"
  by (auto simp: dbCreateTask_def Let_def append_form get_form tbind_def row_created new_task_def split: sum.splits if_splits)

lemma no_path_to_source: "(\<And>a. (a, y) \<notin> r) \<Longrightarrow> x \<noteq> y \<Longrightarrow> (x, y) \<notin> r\<^sup>*"
  by (auto elim: rtranclE)

lemma depend_edges:
  "td_dependencies (snd (dbAddTaskDependency now tid upstream db)) = td_dependencies db
     \<or> (\<exists>d. td_dependencies (snd (dbAddTaskDependency now tid upstream db)) = td_dependencies db @ [d]
          \<and> dp_taskId d = tid \<and> dp_dependsOn d = upstream)"
  by (auto simp: dbAddTaskDependency_def tbind_def getTaskOrThrow_def Let_def split: option.split prod.split)

lemma append_edges: "td_dependencies (snd (dbAppendTaskEvent now now' tid type input True db)) = td_dependencies db"
  by (cases "task_row_of db tid") (simp_all add: dbAppend_none dbAppend_form Let_def)

lemma append_id: "fst (dbAppendTaskEvent now now' tid type input True db) = Inr (t, e) \<Longrightarrow> tsk_id t = tid"
  by (cases "task_row_of db tid") (auto simp: dbAppend_none dbAppend_form Let_def dest: row_id)

lemma add_created_writes:
  "\<lbrakk> tsk_id task = tid; tid \<notin> set is; \<And>a. (a, tid) \<notin> dependency_edges db \<rbrakk>
     \<Longrightarrow> task_writes L db (snd (add_created_dependencies now now' input task is related db))"
proof (induction "is" arbitrary: task related db)
  case (Cons i "is")
  let ?db1 = "snd (dbAddTaskDependency now tid i db)"
  have w: "task_writes L db ?db1" by (rule depend_writes) (rule no_path_to_source, use Cons.prems in auto)
  have "dependency_edges ?db1 \<subseteq> insert (tid, i) (dependency_edges db)"
    using depend_edges [of now tid i db] by (auto simp: dependency_edges_def)
  then have e1: "(a, tid) \<notin> dependency_edges ?db1" for a using Cons.prems(2,3) by auto
  show ?case
  proof (simp only: add_created_dependencies.simps Cons.prems(1), rule writes_bind [OF w], rule writes_bind [OF append_writes], clarify,
      rule Cons.IH)
    show "tsk_id t = tid" if "fst (dbAppendTaskEvent now now' tid EvDependencyAdded ev True ?db1) = Inr (t, e)" for t e ev
      by (rule append_id [OF that])
    show "tid \<notin> set is" using Cons.prems(2) by simp
    show "(a, tid) \<notin> dependency_edges (snd (dbAppendTaskEvent now now' tid EvDependencyAdded ev True ?db1))" for a ev
      using e1 by (simp add: dependency_edges_def append_edges)
  qed
qed simp

lemma snd_require [simp]: "snd (require_tasks is db) = db"
  by (induction "is") auto

lemma required_rows: "fst (require_tasks is db) = Inr u \<Longrightarrow> i \<in> set is \<Longrightarrow> task_row_of db i \<noteq> None"
  by (induction "is") (auto simp: dbGetTask_def split: if_splits)

lemma created_writes:
  assumes "closed_dependencies db" "dbCreateTask uuid now now' input db = (Inr (task, event), db1)"
    and "\<And>i. i \<in> set is \<Longrightarrow> task_row_of db i \<noteq> None"
  shows "task_writes {''task-'' @ take 8 uuid} db (snd (case add_created_dependencies now now' input task is [] db1 of
             (Inl e, db2) \<Rightarrow> (Inl e, snd (dbDeleteTask (tsk_id task) db2))
           | (Inr (task', related), db2) \<Rightarrow> (Inr (task', event, related), db2)))"
proof -
  let ?tid = "''task-'' @ take 8 uuid" and ?L = "{''task-'' @ take 8 uuid}"
  note f = create_form [OF assms(2), of ?L]
  have "?tid \<notin> set is" using assms(3) f by blast
  moreover have "(a, ?tid) \<notin> dependency_edges db1" for a
    using assms(1) f by (force simp only: closed_dependencies_def dependency_edges_def)
  ultimately have w: "task_writes ?L db (snd (add_created_dependencies now now' input task is [] db1))"
    using f by (blast intro: then_writes add_created_writes)
  obtain r2 db2 where a: "add_created_dependencies now now' input task is [] db1 = (r2, db2)" by fastforce
  with w have w2: "task_writes ?L db db2" by simp
  have id: "tsk_id task \<in> ?L" using f by simp
  have "task_writes ?L db (snd (dbDeleteTask (tsk_id task) db2))" by (rule then_writes [OF w2 delete_writes [OF id]])
  with w2 show ?thesis unfolding a by (cases r2) (simp_all only: prod.case sum.case snd_conv fst_conv split_def)
qed

lemma create_row_writes: "task_writes L db (snd (dbCreateTask uuid now now' input db))"
proof (cases "fst (dbCreateTask uuid now now' input db)")
  case (Inl e)
  from create_fails [OF this] show ?thesis by simp
next
  case (Inr r)
  then have "dbCreateTask uuid now now' input db = (Inr (fst r, snd r), snd (dbCreateTask uuid now now' input db))"
    by (metis prod.collapse)
  from create_form [OF this] show ?thesis by simp
qed

lemma writes_through:
  assumes "task_writes L db (snd r)" "\<And>x. fst r = Inr x \<Longrightarrow> task_writes L db (snd (f x (snd r)))"
  shows "task_writes L db (snd (tbind r f))"
  using assms by (cases r; cases "fst r") (auto simp: tbind_def)

lemma create_writes:
  assumes "closed_dependencies db"
  shows "task_writes {''task-'' @ take 8 uuid} db (snd (createTask uuid now now' input deps db))"
proof (cases "truthy (ci_parentTaskId input) \<and> dbGetTask db (nullish (ci_parentTaskId input) []) = None")
  case True
  then show ?thesis by (simp add: createTask_def)
next
  case False
  show ?thesis unfolding createTask_def if_not_P [OF False] Let_def
  proof (rule writes_bind_pure [OF snd_require], rule writes_through [OF create_row_writes], clarify, goal_cases)
    case (1 task event)
    have c: "dbCreateTask uuid now now' input db = (Inr (task, event), snd (dbCreateTask uuid now now' input db))"
      by (rule prod_eqI) (simp_all only: 1(2) fst_conv snd_conv)
    have rows: "task_row_of db i \<noteq> None" if "i \<in> set (normalize_dependency_ids deps)" for i by (rule required_rows [OF 1(1) that])
    show ?case by (rule created_writes [OF assms c rows])
  qed
qed

section \<open>The assignment of a session\<close>

lemma binding_found:
  assumes "dbResolveActiveTaskBindingForSession db s taskId = Some (t, a)"
  shows "\<exists>row\<in>set (td_assignments db). a = rowToAssignment row \<and> as_session row = s \<and> asg_active (as_status row)
     \<and> (truthy taskId \<longrightarrow> Some (as_taskId row) = taskId) \<and> dbGetTask db (as_taskId row) = Some t \<and> status_active (tsk_status t)"
proof -
  let ?rows = "sort_key (\<lambda>a. - as_assignedAt a)
      (filter (\<lambda>a. as_session a = s \<and> (truthy taskId \<longrightarrow> Some (as_taskId a) = taskId) \<and> asg_active (as_status a)) (td_assignments db))"
  obtain rest where "concat (map (task_binding db) ?rows) = (t, a) # rest"
    using assms by (auto simp only: dbResolveActiveTaskBindingForSession_def Let_def split: if_splits list.splits option.splits)
  then have "(t, a) \<in> set (concat (map (task_binding db) ?rows))" by simp
  then obtain row where "row \<in> set ?rows" "(t, a) \<in> set (task_binding db row)" by (auto simp only: set_concat set_map)
  then show ?thesis by (auto simp: task_binding_def split: option.splits if_splits)
qed

lemma decoded_assignment [simp]: "as_id (rowToAssignment a) = as_id a" "as_taskId (rowToAssignment a) = as_taskId a"
  "as_status (rowToAssignment a) = as_status a" "as_overdueCount (rowToAssignment a) = as_overdueCount a"
  by (simp_all add: rowToAssignment_def)

lemma same_row: "distinct (map f xs) \<Longrightarrow> x \<in> set xs \<Longrightarrow> y \<in> set xs \<Longrightarrow> f x = f y \<Longrightarrow> x = y"
  by (auto simp: distinct_map inj_on_def)
lemma accept_ok: "asg_ok a \<Longrightarrow> asg_active (as_status a) \<Longrightarrow> asg_ok (accept_checkpoint now due a)"
  by (auto simp: asg_ok_def accept_checkpoint_def asg_active_def)

lemma resumed_event:
  assumes "dbGetTask db tid = Some t" "tsk_status t = TaskBlocked"
    and "fst (dbAutoResumeBlockedTask now now' tid reason actor agentId s db) = Inr (u, e)"
  shows "e \<noteq> None"
proof -
  have bind: "fst (tbind r f) = Inr y \<Longrightarrow> \<exists>x. fst r = Inr x \<and> fst (f x (snd r)) = Inr y" for r :: "'a task_result" and f and y :: 'b
    by (cases r; cases "fst r") (auto simp: tbind_def)
  show ?thesis using assms
    by (auto simp: dbAutoResumeBlockedTask_def getTaskOrThrow_def tbind_def [of "(Inr x, y)" for x y] Let_def dest!: bind split: option.splits)
qed

lemma accepted_writes:
  assumes "distinct (map as_id (td_assignments db))"
  shows "task_writes L db (snd (dbMarkTaskAcceptedForSession now now' s taskId db))"
proof (cases "dbResolveActiveTaskBindingForSession db s taskId")
  case None
  then show ?thesis by (simp add: dbMarkTaskAcceptedForSession_def)
next
  case (Some b)
  then obtain t a where b: "dbResolveActiveTaskBindingForSession db s taskId = Some (t, a)" by (cases b) auto
  from binding_found [OF b] obtain ra where ra: "ra \<in> set (td_assignments db)" "a = rowToAssignment ra"
    "dbGetTask db (as_taskId ra) = Some t" "status_active (tsk_status t)" by auto
  then obtain row where row: "task_row_of db (as_taskId ra) = Some row" "t = rowToTask row" by (auto dest: get_row)
  have tid: "tsk_id t = as_taskId ra" using row row_id by simp
  let ?h = "\<lambda>t. if status_active (tsk_status t)
     then t\<lparr>tsk_status := (if tsk_status t = TaskDispatched then TaskInProgress else tsk_status t),
            tsk_startedAt := (if tsk_status t = TaskDispatched then orElse (tsk_startedAt t) (Some now) else tsk_startedAt t),
            tsk_updatedAt := now\<rparr> else t"
  show ?thesis
  proof (cases "tsk_status t = TaskBlocked")
    case False
    have moved: "task_writes L db (update_task (tsk_id t) ?h (update_active (\<lambda>a'. as_id a' = as_id a) (accept_checkpoint now due) db))" for due
      unfolding active_after_task [symmetric] tid
    proof (rule writes_move [OF row(1)])
      show "as_taskId a' = as_taskId ra" if "a' \<in> set (td_assignments db)" "as_id a' = as_id a" for a'
        using same_row [OF assms that(1) ra(1)] that(2) ra(2) by simp
      show "same_asg (accept_checkpoint now due a') a'" for a' by (simp add: same_asg_def accept_checkpoint_def)
    qed (use False ra(4) row(2) in \<open>auto intro: accept_ok simp: task_ok_def task_ended_def status_active_def fits_def\<close>)
    have tail: "task_writes L db (snd (tbind (getTaskOrThrow tid db2) (\<lambda>u db3. if q then
        tbind (appendTaskEvent now' tid EvProgress (ev u) db3) (\<lambda>e db4. (Inr (F u e db3), db4)) else (Inr (G u db3), db3))))"
      if "task_writes L db db2" for tid ev q F G db2
      by (rule then_writes [OF that], rule writes_bind_get) (simp add: writes_bind_event)
    show ?thesis unfolding dbMarkTaskAcceptedForSession_def b option.case prod.case Let_def if_not_P [OF False]
      by (rule tail, rule moved)
  next
    case True
    have "dbGetTask db (tsk_id t) = Some t" using ra(3) tid by simp
    then have "fst (dbAutoResumeBlockedTask now now' (tsk_id t) AgentActivity None None (Some s) db) = Inr (u, e) \<Longrightarrow> e \<noteq> None" for u e
      using True by (rule resumed_event)
    then show ?thesis unfolding dbMarkTaskAcceptedForSession_def b option.case prod.case Let_def if_P [OF True]
      by (intro writes_bind [OF resume_writes]) (auto simp del: not_None_eq)
  qed
qed

end
