(* ===== verification/TaskHistory.thy ===== *)
theory TaskHistory
  imports TaskWrites
begin

text \<open>
  What holds of the tasks in every state their operations reach: each operation is a step, each
  step a sequence of the writes of \<open>TaskWrites\<close>, and the invariant is proved over those.
\<close>

section \<open>Missed checkpoints\<close>

lemma miss_positive:
  assumes "calculateTaskCheckpointMiss dueAt interval now = (missed, next)" "missed > 0"
  shows "dueAt \<le> now \<and> now < next"
proof -
  let ?i = "resolveTaskCheckpointIntervalMs (Some interval)"
  have i: "?i > 0" by (simp add: resolveTaskCheckpointIntervalMs_def DEFAULT_TASK_CHECKPOINT_INTERVAL_MS_def max_def)
  from assms have due: "dueAt \<le> now" and m: "missed = (now - dueAt) div ?i + 1" "next = dueAt + missed * ?i"
    by (auto simp: calculateTaskCheckpointMiss_def Let_def split: if_splits)
  define q r where "q = (now - dueAt) div ?i" and "r = (now - dueAt) mod ?i"
  have "?i * q + r = now - dueAt" "r < ?i" unfolding q_def r_def using i by (simp_all only: mult_div_mod_eq pos_mod_bound)
  moreover have "next = dueAt + (?i * q + ?i)" using m by (simp add: q_def algebra_simps)
  ultimately have "now < next" by linarith
  with due show ?thesis ..
qed

lemma row_by_id: "getAssignmentRowById db aid = Some a \<Longrightarrow> a \<in> set (td_assignments db) \<and> as_id a = aid"
  by (auto simp: getAssignmentRowById_def find_Some_iff)

lemma miss_writes:
  assumes "\<forall>a\<in>set (td_assignments db). asg_ok a"
  shows "task_writes L db (snd (dbRegisterTaskCheckpointMiss now now' tid aid db))"
  unfolding dbRegisterTaskCheckpointMiss_def
proof (rule writes_bind_get, goal_cases)
  case (1 t)
  show ?case
  proof (cases "getAssignmentRowById db aid")
    case (Some a)
    show ?thesis
    proof (cases "as_taskId a \<noteq> tid \<or> as_status a \<notin> {AsgAssigned, AsgAccepted} \<or> time_value (as_dueAt a) = None")
      case True
      with Some show ?thesis by auto
    next
      case False
      then obtain due where due: "time_value (as_dueAt a) = Some due" by auto
      let ?i = "resolveTaskCheckpointIntervalMs (as_checkpointIntervalMs a)"
      obtain missed "next" where m: "calculateTaskCheckpointMiss due ?i now = (missed, next)" by fastforce
      let ?f = "\<lambda>b. if as_id b = aid \<and> as_taskId b = tid \<and> as_status b \<in> {AsgAssigned, AsgAccepted} \<and> as_dueAt b = Some due
         then b\<lparr>as_dueAt := Some next, as_overdueCount := as_overdueCount a + missed\<rparr> else b"
      have w: "task_writes L db (db\<lparr>td_assignments := map ?f (td_assignments db)\<rparr>)" if pos: "\<not> missed \<le> 0"
      proof (intro one_write w_checkpoint)
        show "same_asg (?f b) b \<and> as_status (?f b) = as_status b" for b by (simp add: same_asg_def)
        have "0 \<le> as_overdueCount a" using assms row_by_id [OF Some] by (auto simp: asg_ok_def)
        then show "asg_ok (?f b)" if "asg_ok b" for b using that pos by (auto simp: asg_ok_def)
      qed
      have tail: "task_writes L db (snd (case getAssignmentRowById db1 aid of None \<Rightarrow> (Inr None, db1)
          | Some r \<Rightarrow> let u = rowToAssignment r in tbind (getTaskOrThrow tid db1) (\<lambda>t db2.
              tbind (appendTaskEvent now' tid EvCheckpointMissed (ev u t) db2) (\<lambda>e db3.
              tbind (getTaskOrThrow tid db3) (\<lambda>t' db4. (Inr (Some (t', u, e, missed)), db4))))))"
        if "task_writes L db db1" for db1 and ev :: "task_assignment \<Rightarrow> task_record \<Rightarrow> event_input"
        by (rule then_writes [OF that])
          (auto simp: Let_def snd_getTask split: option.split intro!: writes_bind_get writes_bind_event)
      from False have cond: "\<not> as_taskId a \<noteq> tid" "\<not> as_status a \<notin> {AsgAssigned, AsgAccepted}" by auto
      show ?thesis
      proof (cases "missed \<le> 0")
        case True
        then show ?thesis unfolding Some option.case if_not_P [OF cond(1)] if_not_P [OF cond(2)] due Let_def m prod.case by simp
      next
        case False
        show ?thesis unfolding Some option.case if_not_P [OF cond(1)] if_not_P [OF cond(2)] due Let_def m prod.case if_not_P [OF False]
          by (rule tail [unfolded Let_def, OF w [OF False]])
      qed
    qed
  qed simp
qed

section \<open>Steps\<close>

text \<open>The label of a step is the set of the tasks it may dispatch, create or delete.\<close>

inductive task_step :: "string set \<Rightarrow> task_db \<Rightarrow> task_db \<Rightarrow> bool" where
  st_create: "task_step {''task-'' @ take 8 uuid} db (snd (createTask uuid now now' input deps db))"
| st_profile: "task_step {} db (snd (dbSetTaskProfileId tid profile db))"
| st_resolution: "task_step {} db (snd (dbSetTaskProfileResolution tid profile version source snapshot db))"
| st_state: "task_step {} db (snd (dbSetTaskProfileState tid state db))"
| st_plan: "task_step {} db (snd (dbSetTaskLaunchPlan tid now dispatch db))"
| st_unplan: "task_step {} db (snd (dbClearTaskLaunchPlan tid db))"
| st_depend: "task_step {} db (snd (addTaskDependency now now' tid upstream db))"
| st_undepend: "task_step {} db (snd (removeTaskDependency now now' tid upstream db))"
| st_comment: "task_step {} db (snd (dbAddTaskComment uuid now tid cm db))"
| st_append: "task_step {} db (snd (dbAppendTaskEvent now now' tid type ev touch db))"
| st_dispatch: "task_step {tid} db (snd (dispatch_task_row uuid now now' tid dispatch message db))"
| st_progress: "task_step {} db (snd (dbReportTaskProgress now now' tid pg db))"
| st_block: "task_step {} db (snd (dbBlockTask now now' tid tm db))"
| st_fail: "task_step {} db (snd (dbFailTask now now' tid tm db))"
| st_complete: "task_step {} db (snd (complete_and_release now now' tid tm db))"
| st_resume: "task_step {} db (snd (dbAutoResumeBlockedTask now now' tid reason actor agentId s db))"
| st_accept: "task_step {} db (snd (dbMarkTaskAcceptedForSession now now' s taskId db))"
| st_miss: "task_step {} db (snd (dbRegisterTaskCheckpointMiss now now' tid aid db))"
| st_archive: "task_step {} db (snd (dbArchiveTask now now' tid ai db))"
| st_unarchive: "task_step {} db (snd (dbUnarchiveTask now now' tid ev db))"
| st_update: "task_step {} db (snd (dbUpdateTask now now' tid ui db))"
| st_delete: "task_step {tid} db (snd (dbDeleteTask tid db))"

inductive task_run :: "string set \<Rightarrow> task_db \<Rightarrow> task_db \<Rightarrow> bool" for L where
  run_stay: "task_run L db db"
| run_step: "task_run L db db1 \<Longrightarrow> task_step S db1 db2 \<Longrightarrow> S \<subseteq> L \<Longrightarrow> task_run L db db2"

definition tasks_reachable :: "task_db \<Rightarrow> bool" where
  "tasks_reachable db \<longleftrightarrow> task_run UNIV empty_task_db db"

lemma step_writes:
  assumes "task_step S db db'" "closed_dependencies db" "distinct (map as_id (td_assignments db))"
    "\<forall>a\<in>set (td_assignments db). asg_ok a"
  shows "task_writes S db db'"
  using assms
  by (cases rule: task_step.cases)
    (simp_all only: create_writes profile_writes plan_writes add_dependency_writes remove_dependency_writes comment_writes
      append_writes dispatch_row_writes progress_writes block_writes fail_writes complete_writes resume_writes accepted_writes
      miss_writes archive_writes unarchive_writes update_writes delete_writes insertI1)

section \<open>The rows of tasks and assignments\<close>

text \<open>At most one assignment of a task is active, and then the task is started.\<close>

definition rows_ok :: "task_db \<Rightarrow> bool" where
  "rows_ok db \<longleftrightarrow> distinct (map tsk_id (td_tasks db)) \<and> (\<forall>x t. task_row_of db x = Some t \<longrightarrow> task_ok t)
     \<and> distinct (map as_id (td_assignments db)) \<and> (\<forall>a\<in>set (td_assignments db). asg_ok a)
     \<and> distinct (map as_taskId (filter (\<lambda>a. asg_active (as_status a)) (td_assignments db)))
     \<and> (\<forall>a\<in>set (td_assignments db). \<exists>t. task_row_of db (as_taskId a) = Some t \<and> (asg_active (as_status a) \<longrightarrow> fits t a))"

lemma distinct_active_map:
  assumes "\<And>a. same_asg (f a) a" "\<And>a. asg_active (as_status (f a)) \<Longrightarrow> asg_active (as_status a)"
  shows "distinct (map as_taskId (filter (\<lambda>a. asg_active (as_status a)) as))
     \<Longrightarrow> distinct (map as_taskId (filter (\<lambda>a. asg_active (as_status a)) (map f as)))"
proof (induction as)
  case (Cons a as)
  have "as_taskId (f a) \<notin> as_taskId ` set (filter (\<lambda>a. asg_active (as_status a)) (map f as))" if act: "asg_active (as_status (f a))"
  proof
    assume "as_taskId (f a) \<in> as_taskId ` set (filter (\<lambda>a. asg_active (as_status a)) (map f as))"
    then obtain b where b: "b \<in> set as" "asg_active (as_status (f b))" "as_taskId (f a) = as_taskId (f b)" by auto
    with assms(1) [of a] assms(1) [of b] have "as_taskId a = as_taskId b" by (simp add: same_asg_def)
    moreover have "as_taskId b \<in> as_taskId ` set (filter (\<lambda>a. asg_active (as_status a)) as)" using b(1) assms(2) [OF b(2)] by auto
    ultimately show False using Cons.prems assms(2) [OF act] by simp
  qed
  with Cons show ?case by (auto split: if_splits)
qed simp

lemma rows_ok_change:
  assumes ok: "rows_ok db" and tasks: "distinct (map tsk_id (td_tasks db'))" "\<And>x t. task_row_of db' x = Some t \<Longrightarrow> task_ok t"
    and asgs: "td_assignments db' = map f (td_assignments db)" "\<And>a. same_asg (f a) a" "\<And>a. asg_ok a \<Longrightarrow> asg_ok (f a)"
      "\<And>a. asg_active (as_status (f a)) \<Longrightarrow> asg_active (as_status a)"
    and fit: "\<And>a t. a \<in> set (td_assignments db) \<Longrightarrow> task_row_of db (as_taskId a) = Some t
      \<Longrightarrow> \<exists>t'. task_row_of db' (as_taskId a) = Some t' \<and> (fits t a \<longrightarrow> asg_active (as_status (f a)) \<longrightarrow> fits t' (f a))"
  shows "rows_ok db'"
proof -
  have same: "as_id (f a) = as_id a" "as_taskId (f a) = as_taskId a" for a using asgs(2) [of a] by (simp_all add: same_asg_def)
  have linked: "\<exists>t. task_row_of db' (as_taskId a) = Some t \<and> (asg_active (as_status (f a)) \<longrightarrow> fits t (f a))" if "a \<in> set (td_assignments db)" for a
  proof -
    have "\<exists>t. task_row_of db (as_taskId a) = Some t \<and> (asg_active (as_status a) \<longrightarrow> fits t a)"
      using ok that by (simp only: rows_ok_def)
    then obtain t where t: "task_row_of db (as_taskId a) = Some t" "asg_active (as_status a) \<longrightarrow> fits t a" by (elim exE conjE)
    from fit [OF that t(1)] obtain t' where t': "task_row_of db' (as_taskId a) = Some t'"
      "fits t a \<longrightarrow> asg_active (as_status (f a)) \<longrightarrow> fits t' (f a)" by (elim exE conjE)
    have "asg_active (as_status (f a)) \<longrightarrow> fits t' (f a)" using t(2) t'(2) asgs(4) [of a] by (intro impI) simp
    with t'(1) show ?thesis by simp
  qed
  have e: "map as_id (map f (td_assignments db)) = map as_id (td_assignments db)" by (simp add: same)
  have ids: "distinct (map as_id (map f (td_assignments db)))" using ok by (simp only: e rows_ok_def)
  have each: "asg_ok (f a)" if "a \<in> set (td_assignments db)" for a using ok that by (intro asgs(3)) (simp only: rows_ok_def)
  have act: "distinct (map as_taskId (filter (\<lambda>a. asg_active (as_status a)) (td_assignments db)))"
    using ok unfolding rows_ok_def by (elim conjE)
  have active: "distinct (map as_taskId (filter (\<lambda>a. asg_active (as_status a)) (map f (td_assignments db))))"
    by (rule distinct_active_map [OF asgs(2,4) act])
  have "\<forall>a\<in>set (map f (td_assignments db)). asg_ok a" using each by simp
  moreover have "\<forall>a\<in>set (map f (td_assignments db)). \<exists>t. task_row_of db' (as_taskId a) = Some t \<and> (asg_active (as_status a) \<longrightarrow> fits t a)"
    using linked by (simp add: same)
  ultimately show ?thesis
    unfolding rows_ok_def asgs(1) by (intro conjI allI impI tasks ids active) assumption+
qed

lemma ids_update: "(\<And>t. tsk_id (h t) = tsk_id t) \<Longrightarrow> map tsk_id (td_tasks (update_task tid h db)) = map tsk_id (td_tasks db)"
  by (simp add: update_task_def)

lemma outcome_eqD: "outcome t = outcome s \<Longrightarrow> tsk_status t = tsk_status s \<and> (task_ok t \<longleftrightarrow> task_ok s) \<and> (fits t a \<longleftrightarrow> fits s a)"
  by (simp add: outcome_def task_ok_def fits_def)

lemma rows_same:
  assumes "rows_ok db" "td_tasks db' = td_tasks db" "td_assignments db' = td_assignments db"
  shows "rows_ok db'"
  using assms by (simp add: rows_ok_def task_row_of_def)

lemma rows_touch:
  assumes ok: "rows_ok db" and h: "\<And>t. tsk_id (h t) = tsk_id t \<and> outcome (h t) = outcome t"
  shows "rows_ok (update_task tid h db)"
proof (rule rows_ok_change [OF ok, of _ "\<lambda>a. a"])
  have row: "task_row_of (update_task tid h db) x = (if x = tid then map_option h (task_row_of db x) else task_row_of db x)" for x
    using h by (simp add: row_update)
  show "distinct (map tsk_id (td_tasks (update_task tid h db)))" using ok h by (simp add: ids_update rows_ok_def)
  show "task_ok t" if "task_row_of (update_task tid h db) x = Some t" for x t
    using that ok outcome_eqD [OF conjunct2 [OF h]] by (auto simp: row rows_ok_def split: if_splits)
  show "\<exists>t'. task_row_of (update_task tid h db) (as_taskId a) = Some t' \<and> (fits t a \<longrightarrow> asg_active (as_status a) \<longrightarrow> fits t' a)"
    if "task_row_of db (as_taskId a) = Some t" for a t
    using that outcome_eqD [OF conjunct2 [OF h]] by (auto simp: row)
qed (simp_all add: same_asg_def)

lemma rows_create:
  assumes ok: "rows_ok db" and t: "task_row_of db (tsk_id t) = None" "tsk_status t = TaskOpen" "tsk_progress t = 0"
  shows "rows_ok (db\<lparr>td_tasks := td_tasks db @ [t]\<rparr>)"
proof (rule rows_ok_change [OF ok, of _ "\<lambda>a. a"])
  have "tsk_id t \<notin> set (map tsk_id (td_tasks db))" using t(1) by (auto simp: task_row_of_def find_None_iff)
  with ok show "distinct (map tsk_id (td_tasks (db\<lparr>td_tasks := td_tasks db @ [t]\<rparr>)))" by (simp add: rows_ok_def)
  have "task_ok t" using t by (simp add: task_ok_def task_ended_def)
  with ok show "task_row_of (db\<lparr>td_tasks := td_tasks db @ [t]\<rparr>) x = Some u \<Longrightarrow> task_ok u" for x u
    by (auto simp: row_created rows_ok_def split: if_splits)
qed (auto simp: same_asg_def row_created)

lemma rows_move:
  assumes ok: "rows_ok db" and row: "task_row_of db tid = Some t" and h: "\<And>s. tsk_id (h s) = tsk_id s" "task_ok t \<Longrightarrow> task_ok (h t)"
    and f: "\<And>a. same_asg (f a) a" "\<And>a. asg_ok a \<Longrightarrow> asg_ok (f a)" "\<And>a. asg_active (as_status (f a)) \<Longrightarrow> asg_active (as_status a)"
      "\<And>a. a \<in> set (td_assignments db) \<Longrightarrow> as_taskId a \<noteq> tid \<Longrightarrow> f a = a"
      "\<And>a. fits t a \<Longrightarrow> as_taskId a = tid \<Longrightarrow> asg_active (as_status (f a)) \<Longrightarrow> fits (h t) (f a)"
  shows "rows_ok (move tid h f db)"
proof (rule rows_ok_change [OF ok, of _ f])
  have r: "task_row_of (move tid h f db) x = (if x = tid then Some (h t) else task_row_of db x)" for x
    using row row_update [of h tid db x, OF h(1)] by (simp add: move_def)
  show "distinct (map tsk_id (td_tasks (move tid h f db)))" using ok ids_update [of h tid db, OF h(1)] by (simp add: move_def rows_ok_def)
  show "task_ok u" if "task_row_of (move tid h f db) x = Some u" for x u
    using that ok row h(2) by (auto simp: r rows_ok_def split: if_splits)
  show "\<exists>t'. task_row_of (move tid h f db) (as_taskId a) = Some t' \<and> (fits s a \<longrightarrow> asg_active (as_status (f a)) \<longrightarrow> fits t' (f a))"
    if "a \<in> set (td_assignments db)" "task_row_of db (as_taskId a) = Some s" for a s
  proof (cases "as_taskId a = tid")
    case True
    with that row f(5) [of a] show ?thesis by (simp add: r)
  next
    case False
    with that f(4) [OF that(1)] show ?thesis by (simp add: r)
  qed
  show "td_assignments (move tid h f db) = map f (td_assignments db)" by (simp add: move_def)
qed (rule f, assumption?)+
lemma rows_supersede: "rows_ok db \<Longrightarrow> rows_ok (update_active (\<lambda>a. as_taskId a = tid) (supersede now) db)"
proof (rule rows_ok_change [where f = "\<lambda>a. if as_taskId a = tid \<and> asg_active (as_status a) then supersede now a else a"])
  let ?f = "\<lambda>a. if as_taskId a = tid \<and> asg_active (as_status a) then supersede now a else a"
  have inactive: "\<not> asg_active (as_status (supersede now a))" for a by (simp add: supersede_def asg_active_def)
  show "asg_active (as_status a)" if "asg_active (as_status (?f a))" for a using that inactive by (auto split: if_splits)
  show "\<exists>t'. task_row_of (update_active (\<lambda>a. as_taskId a = tid) (supersede now) db) (as_taskId a) = Some t'
      \<and> (fits t a \<longrightarrow> asg_active (as_status (?f a)) \<longrightarrow> fits t' (?f a))" if "task_row_of db (as_taskId a) = Some t" for a t
    using that inactive by auto
  show "asg_ok (?f a)" if "asg_ok a" for a using that by (auto simp: asg_ok_def supersede_def asg_active_def)
qed (simp_all add: assignments_of_update rows_ok_def same_asg_def supersede_def)

lemma rows_complete:
  assumes "rows_ok db" "task_row_of db tid = Some t"
  shows "rows_ok (completion now tid input db)"
proof -
  let ?f = "\<lambda>a. if as_taskId a = tid \<and> asg_active (as_status a) then end_assignment AsgDone now a else a"
  have "completion now tid input db = move tid (completed now input) ?f db"
    by (simp add: completion_def move_def update_active_def update_task_def)
  moreover have "rows_ok (move tid (completed now input) ?f db)"
    by (rule rows_move [OF assms])
      (auto simp: completed_def task_ok_def task_ended_def same_asg_def asg_ok_def end_assignment_def asg_active_def split: if_splits)
  ultimately show ?thesis by simp
qed

lemma rows_dispatch:
  assumes ok: "rows_ok db" and row: "task_row_of db tid = Some t" and new: "getAssignmentRowById db aid = None"
    and none: "\<forall>a\<in>set (td_assignments db). as_taskId a = tid \<longrightarrow> \<not> asg_active (as_status a)"
    and h: "\<And>s. tsk_id (h s) = tsk_id s" "task_ok t \<Longrightarrow> task_ok (h t)" "tsk_status (h t) = TaskDispatched"
  shows "rows_ok (update_task tid h (db\<lparr>td_assignments := td_assignments db @ [new_assignment aid tid now runtime task input]\<rparr>))"
    (is "rows_ok ?db'")
proof -
  let ?n = "new_assignment aid tid now runtime task input"
  have n: "as_id ?n = aid" "as_taskId ?n = tid" "asg_ok ?n" "asg_active (as_status ?n)"
    by (simp_all add: new_assignment_def asg_ok_def asg_active_def)
  have m: "rows_ok (move tid h (\<lambda>a. a) db)"
    by (rule rows_move [OF ok row h(1,2)]) (use none in \<open>auto simp: same_asg_def fits_def status_active_def h(3)\<close>)
  have tasks: "td_tasks ?db' = td_tasks (move tid h (\<lambda>a. a) db)" by (simp add: move_def update_task_def)
  have asgs: "td_assignments ?db' = td_assignments db @ [?n]" "td_assignments (move tid h (\<lambda>a. a) db) = td_assignments db"
    by (simp_all add: move_def)
  have rows: "task_row_of ?db' = task_row_of (move tid h (\<lambda>a. a) db)" using tasks by (simp add: task_row_of_def fun_eq_iff)
  have "task_row_of ?db' tid = Some (h t)" using row row_update [of h tid _ tid, OF h(1)] by simp
  moreover have "fits (h t) ?n" by (simp add: fits_def status_active_def h(3))
  moreover have "aid \<notin> as_id ` set (td_assignments db)" using new by (auto simp: getAssignmentRowById_def find_None_iff)
  moreover have "tid \<notin> as_taskId ` set (filter (\<lambda>a. asg_active (as_status a)) (td_assignments db))" using none by auto
  ultimately show ?thesis using m n unfolding rows_ok_def tasks asgs rows by auto
qed

lemma row_deleted: "task_row_of (snd (dbDeleteTask tid db)) x = (if x = tid then None else task_row_of db x)"
proof -
  have "find (\<lambda>t. tsk_id t = x) (filter (\<lambda>t. tsk_id t \<noteq> tid) ts) = (if x = tid then None else find (\<lambda>t. tsk_id t = x) ts)" for ts
    by (induction ts) auto
  then show ?thesis by (auto simp: dbDeleteTask_def Let_def task_row_of_def)
qed

lemma deleted_tables:
  assumes "task_row_of db tid \<noteq> None"
  shows "td_tasks (snd (dbDeleteTask tid db)) = filter (\<lambda>t. tsk_id t \<noteq> tid) (td_tasks db)"
    "td_assignments (snd (dbDeleteTask tid db)) = filter (\<lambda>a. as_taskId a \<noteq> tid) (td_assignments db)"
    "td_events (snd (dbDeleteTask tid db)) = filter (\<lambda>e. tv_taskId e \<noteq> tid) (td_events db)"
    "td_eventSeq (snd (dbDeleteTask tid db)) = td_eventSeq db"
    "td_dependencies (snd (dbDeleteTask tid db)) =
       map (\<lambda>d. if \<exists>e\<in>set (map tv_id (filter (\<lambda>e. tv_taskId e = tid) (td_events db))). dp_satisfiedBy d = Some e then d\<lparr>dp_satisfiedBy := None\<rparr> else d)
         (filter (\<lambda>d. dp_taskId d \<noteq> tid \<and> dp_dependsOn d \<noteq> tid) (td_dependencies db))"
  using assms by (cases "task_row_of db tid"; simp add: dbDeleteTask_def Let_def)+

lemma delete_none: "task_row_of db tid = None \<Longrightarrow> snd (dbDeleteTask tid db) = db"
  by (simp add: dbDeleteTask_def Let_def)

lemma rows_okD:
  assumes "rows_ok db"
  shows "distinct (map tsk_id (td_tasks db))" "\<forall>x t. task_row_of db x = Some t \<longrightarrow> task_ok t"
    "distinct (map as_id (td_assignments db))" "\<forall>a\<in>set (td_assignments db). asg_ok a"
    "distinct (map as_taskId (filter (\<lambda>a. asg_active (as_status a)) (td_assignments db)))"
    "\<forall>a\<in>set (td_assignments db). \<exists>t. task_row_of db (as_taskId a) = Some t \<and> (asg_active (as_status a) \<longrightarrow> fits t a)"
  using assms unfolding rows_ok_def by - ((elim conjE)?, assumption)+

lemma rows_delete: "rows_ok db \<Longrightarrow> rows_ok (snd (dbDeleteTask tid db))"
proof (cases "task_row_of db tid")
  case (Some t)
  assume ok: "rows_ok db"
  note d = rows_okD [OF ok]
  have "distinct (map as_taskId (filter (\<lambda>a. asg_active (as_status a)) (filter (\<lambda>a. as_taskId a \<noteq> tid) (td_assignments db))))"
    using distinct_map_filter [OF d(5), of "\<lambda>a. as_taskId a \<noteq> tid"] by (simp add: conj_commute)
  then show ?thesis using Some d
    by (auto simp: rows_ok_def deleted_tables row_deleted distinct_map_filter split: if_splits)
qed (simp add: delete_none)

lemma complete_done:
  assumes "dbCompleteTask now now' tid input db = (Inr (task, Some event, False), db1)"
  shows "\<exists>row. task_row_of db tid = Some row \<and> \<not> task_ended (tsk_status row)
     \<and> event = rowToEvent (new_event now' tid EvDone (terminal_event input 100) (completion now tid input db))
     \<and> db1 = logged now' tid EvDone (terminal_event input 100) (completion now tid input db)"
  using assms by (auto simp: complete_form getTerminalTaskNoopResult_def Let_def split: option.splits if_splits)

definition pending_on :: "string \<Rightarrow> task_dependency \<Rightarrow> bool" where
  "pending_on tid d \<longleftrightarrow> dp_dependsOn d = tid \<and> dp_satisfiedAt d = None"

lemma mark_tables:
  fixes db tid n at
  defines "db' \<equiv> snd (dbMarkTaskDependenciesSatisfiedByUpstream tid n at db)"
  shows "td_tasks db' = td_tasks db" "td_assignments db' = td_assignments db" "td_events db' = td_events db"
    "td_eventSeq db' = td_eventSeq db"
    "td_dependencies db' = map (\<lambda>d. if pending_on tid d then d\<lparr>dp_satisfiedAt := Some at, dp_satisfiedBy := Some n\<rparr> else d) (td_dependencies db)"
proof -
  have "filter (pending_on tid) ds = [] \<Longrightarrow> map (\<lambda>d. if pending_on tid d then g d else d) ds = ds" for ds and g
    by (induction ds) (auto split: if_splits)
  then show "td_dependencies db' = map (\<lambda>d. if pending_on tid d then d\<lparr>dp_satisfiedAt := Some at, dp_satisfiedBy := Some n\<rparr> else d) (td_dependencies db)"
    by (simp add: db'_def dbMarkTaskDependenciesSatisfiedByUpstream_def Let_def pending_on_def [abs_def])
qed (simp_all add: db'_def dbMarkTaskDependenciesSatisfiedByUpstream_def Let_def)

lemma row_marked [simp]: "task_row_of (snd (dbMarkTaskDependenciesSatisfiedByUpstream tid n at db)) x = task_row_of db x"
  by (simp add: task_row_of_def mark_tables)

lemma row_completion:
  "task_row_of db tid = Some row \<Longrightarrow>
     task_row_of (completion now tid input db) x = (if x = tid then Some (completed now input row) else task_row_of db x)"
  by (auto simp: completion_def row_update completed_def)

lemma rows_checkpoint:
  assumes ok: "rows_ok db" and f: "\<And>a. same_asg (f a) a \<and> as_status (f a) = as_status a" "\<And>a. asg_ok a \<Longrightarrow> asg_ok (f a)"
  shows "rows_ok (db\<lparr>td_assignments := map f (td_assignments db)\<rparr>)"
proof (rule rows_ok_change [OF ok, of _ f])
  show "\<exists>t'. task_row_of (db\<lparr>td_assignments := map f (td_assignments db)\<rparr>) (as_taskId a) = Some t'
      \<and> (fits t a \<longrightarrow> asg_active (as_status (f a)) \<longrightarrow> fits t' (f a))" if "task_row_of db (as_taskId a) = Some t" for a t
    using that f(1) [of a] by (simp add: fits_def)
qed (use rows_okD(1,2) [OF ok] f in simp_all)

lemma write_rows: "task_write L db db' \<Longrightarrow> rows_ok db \<Longrightarrow> rows_ok db'"
proof (induction rule: task_write.induct)
  case (w_checkpoint f db)
  from w_checkpoint(3,1,2) show ?case by (rule rows_checkpoint)
next
  case (w_complete now now' tid input db task event db1)
  then obtain row where row: "task_row_of db tid = Some row"
      "db1 = logged now' tid EvDone (terminal_event input 100) (completion now tid input db)"
    using complete_done by blast
  have "rows_ok db1" by (rule rows_same [OF rows_complete [OF w_complete(2) row(1)]]) (simp_all add: row(2))
  then show ?case by (rule rows_same) (simp_all add: mark_tables)
next
  case (w_dispatch tid db aid input now runtime task)
  then obtain t where "task_row_of db tid = Some t" by blast
  from rows_dispatch [OF w_dispatch(5) this w_dispatch(3,4)] show ?case by (simp add: task_ok_def task_ended_def)
next
  case (w_move db tid t h f)
  show ?case by (rule rows_move [OF w_move(11) w_move(1) w_move(3,4) w_move(6-10)])
next
  case (w_touch h db tid)
  from w_touch(2,1) show ?case by (rule rows_touch)
next
  case (w_create db t)
  from w_create(4,1-3) show ?case by (rule rows_create)
next
  case (w_supersede tid db now)
  from w_supersede(2) show ?case by (rule rows_supersede)
next
  case (w_delete tid db)
  from w_delete(2) show ?case by (rule rows_delete)
qed (erule rows_same; simp)+

section \<open>What a write leaves alone\<close>

text \<open>A task stays, unless it may be deleted; once ended it stays as it ended.\<close>

lemma write_keeps:
  assumes "task_write L db db'" "task_row_of db x = Some t" "x \<notin> L"
  shows "\<exists>t'. task_row_of db' x = Some t' \<and> (task_ended (tsk_status t) \<longrightarrow> outcome t' = outcome t)"
  using assms
proof (induction rule: task_write.induct)
  case (w_touch h db tid)
  then show ?case by (auto simp: row_update)
next
  case (w_create db s)
  then show ?case by (simp add: row_created)
next
  case (w_move db tid s h f)
  have "task_row_of (move tid h f db) x = (if x = tid then map_option h (task_row_of db x) else task_row_of db x)"
    using row_update [of h tid db x, OF w_move(3)] by (simp add: move_def)
  with w_move(1,2,11) show ?case by auto
next
  case (w_complete now now' tid input db task event db1)
  then obtain row where row: "task_row_of db tid = Some row" "\<not> task_ended (tsk_status row)"
      "db1 = logged now' tid EvDone (terminal_event input 100) (completion now tid input db)"
    using complete_done by blast
  with w_complete(2) show ?case by (auto simp: row_completion [OF row(1)])
next
  case (w_dispatch tid db aid input now runtime task)
  then show ?case by (auto simp: row_update)
next
  case (w_delete tid db)
  then show ?case by (auto simp: row_deleted)
qed simp_all

text \<open>The tasks after a write were there before, or are new and open.\<close>

lemma write_done:
  assumes "task_write L db db'" "task_row_of db' x = Some t'" "tsk_status t' = TaskDone"
  shows "(\<exists>t. task_row_of db x = Some t \<and> tsk_status t = TaskDone) \<or> (\<exists>e\<in>set (td_events db'). tv_taskId e = x \<and> tv_type e = EvDone)
    \<and> (\<forall>d\<in>set (td_dependencies db'). dp_dependsOn d = x \<longrightarrow> dp_satisfiedAt d \<noteq> None)"
  using assms
proof (induction rule: task_write.induct)
  case (w_touch h db tid)
  have "tsk_status (h t) = tsk_status t" for t using w_touch(1) [of t] by (simp add: outcome_def)
  with w_touch show ?case by (auto simp: row_update split: if_splits)
next
  case (w_create db s)
  then show ?case by (auto simp: row_created split: if_splits)
next
  case (w_move db tid s h f)
  have "task_row_of (move tid h f db) x = (if x = tid then map_option h (task_row_of db x) else task_row_of db x)"
    using row_update [of h tid db x, OF w_move(3)] by (simp add: move_def)
  with w_move(1,5,11,12) show ?case by (auto split: if_splits)
next
  case (w_complete now now' tid input db task event db1)
  then obtain row where row: "task_row_of db tid = Some row"
      "db1 = logged now' tid EvDone (terminal_event input 100) (completion now tid input db)"
    using complete_done by blast
  show ?case
  proof (cases "x = tid")
    case True
    have "new_event now' tid EvDone (terminal_event input 100) (completion now tid input db) \<in> set (td_events db1)"
      using row by (simp add: row(2) logged_form row_completion [OF row(1)])
    moreover have "\<forall>d\<in>set (td_dependencies (snd (dbMarkTaskDependenciesSatisfiedByUpstream tid n at db1))).
        dp_dependsOn d = tid \<longrightarrow> dp_satisfiedAt d \<noteq> None" for n at
      by (simp only: mark_tables list.set_map ball_simps) (simp add: pending_on_def)
    moreover have "tv_taskId (new_event now' tid EvDone ev db2) = tid" "tv_type (new_event now' tid EvDone ev db2) = EvDone" for ev db2
      by (simp_all add: new_event_def)
    ultimately show ?thesis using True by (simp only: mark_tables) blast
  next
    case False
    with w_complete(2,3) row show ?thesis by (simp add: row_completion [OF row(1)])
  qed
next
  case (w_dispatch tid db aid input now runtime task)
  then show ?case by (auto simp: row_update split: if_splits)
next
  case (w_delete tid db)
  then show ?case by (auto simp: row_deleted split: if_splits)
qed simp_all

section \<open>The log of events\<close>

definition log_ok :: "task_db \<Rightarrow> bool" where
  "log_ok db \<longleftrightarrow> sorted_wrt (<) (map tv_id (td_events db))
     \<and> (\<forall>e\<in>set (td_events db). tv_id e \<le> td_eventSeq db \<and> task_row_of db (tv_taskId e) \<noteq> None)"

lemma log_same:
  assumes "log_ok db" "td_events db' = td_events db" "td_eventSeq db' = td_eventSeq db"
    "\<And>x. task_row_of db x \<noteq> None \<Longrightarrow> task_row_of db' x \<noteq> None"
  shows "log_ok db'"
  using assms by (auto simp: log_ok_def)

lemma log_logged: "log_ok db \<Longrightarrow> log_ok (logged now tid type input db)"
  by (auto simp: log_ok_def logged_form new_event_def sorted_wrt_append intro: le_SucI)

lemma log_delete: "log_ok db \<Longrightarrow> log_ok (snd (dbDeleteTask tid db))"
proof (cases "task_row_of db tid")
  case (Some t)
  assume "log_ok db"
  moreover have "sorted_wrt (<) (map tv_id es) \<Longrightarrow> sorted_wrt (<) (map tv_id (filter P es))" for es P
    by (induction es) auto
  ultimately show ?thesis using Some by (auto simp: log_ok_def deleted_tables row_deleted)
qed (simp add: delete_none)

lemma write_log: "task_write L db db' \<Longrightarrow> log_ok db \<Longrightarrow> log_ok db'"
proof (induction rule: task_write.induct)
  case (w_event db now tid type input)
  then show ?case by (rule log_logged)
next
  case (w_complete now now' tid input db task event db1)
  then obtain row where row: "task_row_of db tid = Some row"
      "db1 = logged now' tid EvDone (terminal_event input 100) (completion now tid input db)"
    using complete_done by blast
  have "log_ok (completion now tid input db)"
  proof (rule log_same [OF w_complete(2)])
    show "task_row_of db y \<noteq> None \<Longrightarrow> task_row_of (completion now tid input db) y \<noteq> None" for y
      by (simp add: row_completion [OF row(1)])
  qed (simp_all add: completion_def)
  then have "log_ok db1" unfolding row(2) by (rule log_logged)
  then show ?case by (rule log_same) (simp_all add: mark_tables)
next
  case (w_delete tid db)
  from w_delete(2) show ?case by (rule log_delete)
next
  case (w_move db tid s h f)
  have "task_row_of (move tid h f db) x = (if x = tid then map_option h (task_row_of db x) else task_row_of db x)" for x
    using row_update [of h tid db x, OF w_move(3)] by (simp add: move_def)
  then show ?case by (intro log_same [OF w_move(11)]) (auto simp: move_def)
qed (erule log_same; auto simp: row_update row_created)+

section \<open>Dependencies\<close>

lemma write_events:
  assumes "task_write L db db'" "e \<in> set (td_events db)" "task_row_of db' (tv_taskId e) \<noteq> None"
  shows "e \<in> set (td_events db')"
  using assms
proof (induction rule: task_write.induct)
  case (w_complete now now' tid input db task event db1)
  then obtain row where "db1 = logged now' tid EvDone (terminal_event input 100) (completion now tid input db)"
    using complete_done by blast
  with w_complete(2) show ?case by (simp add: mark_tables logged_form completion_def)
next
  case (w_delete tid db)
  then show ?case by (cases "task_row_of db tid") (simp_all add: delete_none deleted_tables row_deleted split: if_splits)
next
  case (w_move db tid t h f)
  from w_move(11) show ?case by (simp add: move_def)
qed (simp_all add: logged_form)

text \<open>A satisfied dependency cites the completion of the task it waits for.\<close>

definition cites :: "task_db \<Rightarrow> task_dependency \<Rightarrow> bool" where
  "cites db d \<longleftrightarrow> (\<forall>n. dp_satisfiedBy d = Some n \<longrightarrow> dp_satisfiedAt d \<noteq> None
     \<and> (\<exists>e\<in>set (td_events db). tv_id e = n \<and> tv_taskId e = dp_dependsOn d \<and> tv_type e = EvDone))"

definition deps_ok :: "task_db \<Rightarrow> bool" where
  "deps_ok db \<longleftrightarrow> distinct (map (\<lambda>d. (dp_taskId d, dp_dependsOn d)) (td_dependencies db))
     \<and> closed_dependencies db \<and> acyclic (dependency_edges db) \<and> (\<forall>d\<in>set (td_dependencies db). cites db d)"

definition same_edge :: "task_dependency \<Rightarrow> task_dependency \<Rightarrow> bool" where
  "same_edge c d \<longleftrightarrow> dp_taskId c = dp_taskId d \<and> dp_dependsOn c = dp_dependsOn d"

lemma deps_change:
  assumes ok: "deps_ok db" and deps: "td_dependencies db' = map f (filter p (td_dependencies db))" "\<And>d. same_edge (f d) d"
    and rows: "\<And>d. d \<in> set (td_dependencies db) \<Longrightarrow> p d \<Longrightarrow> task_row_of db (dp_taskId d) \<noteq> None \<Longrightarrow> task_row_of db (dp_dependsOn d) \<noteq> None
       \<Longrightarrow> task_row_of db' (dp_taskId d) \<noteq> None \<and> task_row_of db' (dp_dependsOn d) \<noteq> None"
    and cite: "\<And>d. d \<in> set (td_dependencies db) \<Longrightarrow> p d \<Longrightarrow> cites db d \<Longrightarrow> cites db' (f d)"
  shows "deps_ok db'"
proof -
  have same: "dp_taskId (f d) = dp_taskId d" "dp_dependsOn (f d) = dp_dependsOn d" for d
    using deps(2) [of d] by (simp_all add: same_edge_def)
  have sub: "dependency_edges db' \<subseteq> dependency_edges db" by (auto simp: dependency_edges_def deps(1) same)
  have "map (\<lambda>d. (dp_taskId d, dp_dependsOn d)) (td_dependencies db')
      = map (\<lambda>d. (dp_taskId d, dp_dependsOn d)) (filter p (td_dependencies db))" by (simp add: deps(1) same)
  then have "distinct (map (\<lambda>d. (dp_taskId d, dp_dependsOn d)) (td_dependencies db'))"
    using ok by (simp only: deps_ok_def distinct_map_filter)
  moreover have "acyclic (dependency_edges db')" using ok sub by (auto simp: deps_ok_def intro: acyclic_subset)
  moreover have "closed_dependencies db'"
    using ok rows by (auto simp: closed_dependencies_def dependency_edges_def deps(1) same deps_ok_def)
  moreover have "\<forall>d\<in>set (td_dependencies db'). cites db' d" using ok cite by (auto simp: deps(1) deps_ok_def)
  ultimately show ?thesis by (simp only: deps_ok_def)
qed

lemma deps_same:
  assumes ok: "deps_ok db" and deps: "td_dependencies db' = td_dependencies db"
    and rows: "\<And>x. task_row_of db x \<noteq> None \<Longrightarrow> task_row_of db' x \<noteq> None"
    and events: "set (td_events db) \<subseteq> set (td_events db')"
  shows "deps_ok db'"
proof (rule deps_change [OF ok, of _ "\<lambda>d. d" "\<lambda>d. True"])
  show "td_dependencies db' = map (\<lambda>d. d) (filter (\<lambda>d. True) (td_dependencies db))" by (simp add: deps)
  show "cites db' d" if "cites db d" for d using that events unfolding cites_def by (meson subsetD)
qed (use rows in \<open>auto simp: same_edge_def\<close>)

lemma latest_form: "getLatestTaskEvent db tid (Some type)
    = map_option rowToEvent (find (\<lambda>e. tv_taskId e = tid \<and> tv_type e = type) (rev (td_events db)))"
proof -
  have "(\<lambda>e :: task_event. tv_taskId e = tid \<and> (Some type = None \<or> Some type = Some (tv_type e))) = (\<lambda>e. tv_taskId e = tid \<and> tv_type e = type)"
    by auto
  then show ?thesis by (simp only: getLatestTaskEvent_def)
qed

lemma decoded_event [simp]: "tv_id (rowToEvent e) = tv_id e" "tv_createdAt (rowToEvent e) = tv_createdAt e"
  by (simp_all add: rowToEvent_def)

lemma resolve_form:
  "resolveSatisfiedDependencySource db up =
     (if map_option tsk_status (task_row_of db up) = Some TaskDone
      then (case find (\<lambda>e. tv_taskId e = up \<and> tv_type e = EvDone) (rev (td_events db)) of
              None \<Rightarrow> (None, None) | Some e \<Rightarrow> (Some (tv_createdAt e), Some (tv_id e)))
      else (None, None))"
  unfolding resolveSatisfiedDependencySource_def latest_form dbGetTask_def
  by (cases "task_row_of db up"; cases "find (\<lambda>e. tv_taskId e = up \<and> tv_type e = EvDone) (rev (td_events db))") simp_all

lemma find_found: "find P xs = Some e \<Longrightarrow> e \<in> set xs \<and> P e"
  by (induction xs) (auto split: if_splits)

lemma resolved:
  assumes "resolveSatisfiedDependencySource db up = (at, n)"
  shows "at = None \<longleftrightarrow> n = None"
    "n = Some k \<Longrightarrow> \<exists>e\<in>set (td_events db). tv_id e = k \<and> tv_taskId e = up \<and> tv_type e = EvDone"
    "\<lbrakk> task_row_of db up = Some t; tsk_status t = TaskDone; e \<in> set (td_events db); tv_taskId e = up; tv_type e = EvDone \<rbrakk> \<Longrightarrow> at \<noteq> None"
proof -
  let ?find = "find (\<lambda>e. tv_taskId e = up \<and> tv_type e = EvDone) (rev (td_events db))"
  show "at = None \<longleftrightarrow> n = None" using assms by (auto simp: resolve_form split: if_splits option.splits)
  show "\<exists>e\<in>set (td_events db). tv_id e = k \<and> tv_taskId e = up \<and> tv_type e = EvDone" if k: "n = Some k"
  proof -
    obtain e where "?find = Some e" "n = Some (tv_id e)"
      using assms k by (auto simp: resolve_form split: if_splits option.splits)
    with find_found [OF this(1)] k show ?thesis by auto
  qed
  show "at \<noteq> None" if "task_row_of db up = Some t" "tsk_status t = TaskDone" "e \<in> set (td_events db)" "tv_taskId e = up" "tv_type e = EvDone"
  proof -
    have "?find \<noteq> None" using that(3-5) by (auto simp: find_None_iff)
    then show ?thesis using assms that(1,2) by (auto simp: resolve_form)
  qed
qed
lemma new_event_fields [simp]: "tv_id (new_event now tid type input db) = Suc (td_eventSeq db)"
  "tv_taskId (new_event now tid type input db) = tid" "tv_type (new_event now tid type input db) = type"
  by (simp_all add: new_event_def)

lemma deps_depend:
  assumes ok: "deps_ok db" and rows: "task_row_of db tid \<noteq> None" "task_row_of db up \<noteq> None"
    and new: "find_dependency db tid up = None" "(up, tid) \<notin> (dependency_edges db)\<^sup>*"
    and r: "resolveSatisfiedDependencySource db up = (at, n)"
  shows "deps_ok (db\<lparr>td_dependencies := td_dependencies db
    @ [\<lparr>dp_taskId = tid, dp_dependsOn = up, dp_createdAt = now, dp_satisfiedAt = at, dp_satisfiedBy = n\<rparr>]\<rparr>)" (is "deps_ok ?db'")
proof -
  let ?d = "\<lparr>dp_taskId = tid, dp_dependsOn = up, dp_createdAt = now, dp_satisfiedAt = at, dp_satisfiedBy = n\<rparr>"
  have edges: "dependency_edges ?db' = insert (tid, up) (dependency_edges db)" by (auto simp: dependency_edges_def)
  have "(tid, up) \<notin> (\<lambda>d. (dp_taskId d, dp_dependsOn d)) ` set (td_dependencies db)"
    using new(1) by (auto simp: find_dependency_def find_None_iff)
  with ok have "distinct (map (\<lambda>d. (dp_taskId d, dp_dependsOn d)) (td_dependencies ?db'))" by (simp add: deps_ok_def)
  moreover have "closed_dependencies ?db'" using ok rows unfolding closed_dependencies_def edges deps_ok_def by simp
  moreover have "acyclic (dependency_edges ?db')" using ok new(2) by (simp add: edges deps_ok_def)
  moreover have "cites ?db' ?d" using resolved(1,2) [OF r] by (auto simp: cites_def)
  moreover have "cites ?db' d" if "d \<in> set (td_dependencies db)" for d using ok that by (simp add: deps_ok_def cites_def)
  ultimately show ?thesis by (simp add: deps_ok_def)
qed

lemma deps_delete:
  assumes ok: "deps_ok db" shows "deps_ok (snd (dbDeleteTask tid db))"
proof (cases "task_row_of db tid")
  case (Some t)
  let ?gone = "set (map tv_id (filter (\<lambda>e. tv_taskId e = tid) (td_events db)))"
  let ?f = "\<lambda>d. if \<exists>e\<in>?gone. dp_satisfiedBy d = Some e then d\<lparr>dp_satisfiedBy := None\<rparr> else d"
  have row: "task_row_of db tid \<noteq> None" using Some by simp
  show ?thesis
  proof (rule deps_change [OF ok deleted_tables(5) [OF row]])
    show "cites (snd (dbDeleteTask tid db)) (?f d)" if "dp_taskId d \<noteq> tid \<and> dp_dependsOn d \<noteq> tid" "cites db d" for d
    proof (cases "\<exists>e\<in>?gone. dp_satisfiedBy d = Some e")
      case False
      with that show ?thesis by (auto simp: cites_def deleted_tables [OF row])
    qed (simp add: cites_def)
  qed (auto simp: same_edge_def row_deleted)
qed (simp add: delete_none ok)

lemma deps_mark:
  assumes ok: "deps_ok db" and e: "e \<in> set (td_events db)" "tv_id e = n" "tv_taskId e = tid" "tv_type e = EvDone"
  shows "deps_ok (snd (dbMarkTaskDependenciesSatisfiedByUpstream tid n at db))" (is "deps_ok ?db'")
proof (rule deps_change [OF ok, of _ "\<lambda>d. if pending_on tid d then d\<lparr>dp_satisfiedAt := Some at, dp_satisfiedBy := Some n\<rparr> else d" "\<lambda>d. True"])
  show "cites ?db' (if pending_on tid d then d\<lparr>dp_satisfiedAt := Some at, dp_satisfiedBy := Some n\<rparr> else d)" if "cites db d" for d
    using that e by (auto simp: cites_def mark_tables pending_on_def)
qed (simp_all add: mark_tables same_edge_def)

lemma row_moved: "(\<And>s. tsk_id (h s) = tsk_id s) \<Longrightarrow>
    task_row_of (move tid h f db) x = (if x = tid then map_option h (task_row_of db x) else task_row_of db x)"
  using row_update [of h tid db x] by (simp add: move_def)

lemma write_deps: "task_write L db db' \<Longrightarrow> deps_ok db \<Longrightarrow> deps_ok db'"
proof (induction rule: task_write.induct)
  case (w_depend db tid upstream at "by" now)
  from w_depend(6,1-5) show ?case by (rule deps_depend)
next
  case (w_undepend db p)
  show ?case by (rule deps_change [OF w_undepend, of _ "\<lambda>d. d" p]) (simp_all add: same_edge_def cites_def)
next
  case (w_delete tid db)
  from w_delete(2) show ?case by (rule deps_delete)
next
  case (w_move db tid t h f)
  from w_move(11) show ?case by (rule deps_same) (auto simp: move_def row_moved [OF w_move(3)] row_update w_move(3))
next
  case (w_complete now now' tid input db task event db1)
  then obtain row where row: "task_row_of db tid = Some row"
      "db1 = logged now' tid EvDone (terminal_event input 100) (completion now tid input db)"
      "event = rowToEvent (new_event now' tid EvDone (terminal_event input 100) (completion now tid input db))"
    using complete_done by blast
  let ?e = "new_event now' tid EvDone (terminal_event input 100) (completion now tid input db)"
  have "?e \<in> set (td_events db1)" by (simp add: row(2) logged_form row_completion [OF row(1)])
  moreover have "deps_ok db1"
    by (rule deps_same [OF w_complete(2)]) (simp_all add: row(2) row_completion [OF row(1)], auto simp: logged_form completion_def)
  ultimately show ?case unfolding row(3) by (intro deps_mark [where e = ?e]) simp_all
qed (erule deps_same; auto simp: row_update row_created logged_form)+

section \<open>Nobody waits for what is done\<close>

definition settled :: "task_db \<Rightarrow> bool" where
  "settled db \<longleftrightarrow> (\<forall>x t. task_row_of db x = Some t \<longrightarrow> tsk_status t = TaskDone
     \<longrightarrow> (\<exists>e\<in>set (td_events db). tv_taskId e = x \<and> tv_type e = EvDone)
       \<and> (\<forall>d\<in>set (td_dependencies db). dp_dependsOn d = x \<longrightarrow> dp_satisfiedAt d \<noteq> None))"

lemma write_marks:
  assumes "task_write L db db'" "d' \<in> set (td_dependencies db')"
  shows "(\<exists>d\<in>set (td_dependencies db). same_edge d d' \<and> (dp_satisfiedAt d \<noteq> None \<longrightarrow> dp_satisfiedAt d' \<noteq> None))
     \<or> (\<exists>n. resolveSatisfiedDependencySource db (dp_dependsOn d') = (dp_satisfiedAt d', n))"
proof -
  have same: "?thesis" if "d' \<in> set (td_dependencies db)" using that by (auto simp: same_edge_def)
  show ?thesis using assms same
  proof (induction rule: task_write.induct)
    case (w_complete now now' tid input db task event db1)
    then have "td_dependencies db1 = td_dependencies db" by (auto dest!: complete_done simp: completion_def)
    with w_complete(2) show ?case by (auto simp: mark_tables same_edge_def)
  next
    case (w_delete tid db)
    show ?case
    proof (cases "task_row_of db tid")
      case None
      with w_delete show ?thesis by (simp add: delete_none)
    next
      case (Some t)
      then have row: "task_row_of db tid \<noteq> None" by simp
      from w_delete(2) show ?thesis unfolding deleted_tables [OF row] by (auto simp: same_edge_def)
    qed
  next
    case (w_move db tid t h f)
    from w_move(11,12) show ?case by (simp add: move_def)
  qed (auto simp: same_edge_def)
qed

lemma write_settled:
  assumes w: "task_write L db db'" and ok: "settled db"
  shows "settled db'"
  unfolding settled_def
proof (intro allI impI)
  fix x t' assume t': "task_row_of db' x = Some t'" "tsk_status t' = TaskDone"
  show "(\<exists>e\<in>set (td_events db'). tv_taskId e = x \<and> tv_type e = EvDone)
      \<and> (\<forall>d\<in>set (td_dependencies db'). dp_dependsOn d = x \<longrightarrow> dp_satisfiedAt d \<noteq> None)"
    using write_done [OF w t']
  proof
    assume "\<exists>t. task_row_of db x = Some t \<and> tsk_status t = TaskDone"
    then obtain t where t: "task_row_of db x = Some t" "tsk_status t = TaskDone" by blast
    obtain e where e: "e \<in> set (td_events db)" "tv_taskId e = x" "tv_type e = EvDone" using ok t unfolding settled_def by blast
    have old: "dp_satisfiedAt d \<noteq> None" if "d \<in> set (td_dependencies db)" "dp_dependsOn d = x" for d
      using ok t that unfolding settled_def by blast
    have "e \<in> set (td_events db')" using write_events [OF w e(1)] e(2) t'(1) by simp
    moreover have "dp_satisfiedAt d' \<noteq> None" if d': "d' \<in> set (td_dependencies db')" "dp_dependsOn d' = x" for d'
      using write_marks [OF w d'(1)]
    proof
      assume "\<exists>d\<in>set (td_dependencies db). same_edge d d' \<and> (dp_satisfiedAt d \<noteq> None \<longrightarrow> dp_satisfiedAt d' \<noteq> None)"
      then show ?thesis using old d'(2) by (auto simp: same_edge_def)
    next
      assume "\<exists>n. resolveSatisfiedDependencySource db (dp_dependsOn d') = (dp_satisfiedAt d', n)"
      then obtain n where r: "resolveSatisfiedDependencySource db x = (dp_satisfiedAt d', n)" using d'(2) by auto
      show ?thesis by (rule resolved(3) [OF r t e])
    qed
    ultimately show ?thesis using e(2,3) by blast
  qed blast
qed

section \<open>The invariant\<close>

definition tasks_ok :: "task_db \<Rightarrow> bool" where
  "tasks_ok db \<longleftrightarrow> rows_ok db \<and> log_ok db \<and> deps_ok db \<and> settled db"

lemma writes_ok: "task_writes L db db' \<Longrightarrow> tasks_ok db \<Longrightarrow> tasks_ok db'"
  by (induction rule: rtranclp_induct) (auto simp: tasks_ok_def intro: write_rows write_log write_deps write_settled)

lemma ok_step_writes: "task_step S db db' \<Longrightarrow> tasks_ok db \<Longrightarrow> task_writes S db db'"
  by (erule step_writes) (simp_all add: tasks_ok_def deps_ok_def rows_ok_def)

lemma step_ok: "task_step S db db' \<Longrightarrow> tasks_ok db \<Longrightarrow> tasks_ok db'"
  by (blast intro: writes_ok ok_step_writes)

lemma run_ok: "task_run L db db' \<Longrightarrow> tasks_ok db \<Longrightarrow> tasks_ok db'"
  by (induction rule: task_run.induct) (auto intro: step_ok)

lemma empty_ok: "tasks_ok empty_task_db"
  by (simp add: tasks_ok_def rows_ok_def log_ok_def deps_ok_def settled_def empty_task_db_def task_row_of_def
    closed_dependencies_def dependency_edges_def acyclic_def)

lemma reachable_ok: "tasks_reachable db \<Longrightarrow> tasks_ok db"
  using run_ok empty_ok by (simp add: tasks_reachable_def)

lemma writes_keep:
  "task_writes L db db' \<Longrightarrow> x \<notin> L \<Longrightarrow> task_row_of db x = Some t
     \<Longrightarrow> \<exists>t'. task_row_of db' x = Some t' \<and> (task_ended (tsk_status t) \<longrightarrow> outcome t' = outcome t)"
proof (induction rule: rtranclp_induct)
  case (step db1 db2)
  then obtain t1 where t1: "task_row_of db1 x = Some t1" "task_ended (tsk_status t) \<longrightarrow> outcome t1 = outcome t" by blast
  from write_keeps [OF step.hyps(2) t1(1) step.prems(1)] t1(2) show ?case by (auto simp: outcome_def)
qed simp

lemma run_keeps:
  "task_run L db db' \<Longrightarrow> tasks_ok db \<Longrightarrow> x \<notin> L \<Longrightarrow> task_row_of db x = Some t
     \<Longrightarrow> \<exists>t'. task_row_of db' x = Some t' \<and> (task_ended (tsk_status t) \<longrightarrow> outcome t' = outcome t)"
proof (induction rule: task_run.induct)
  case (run_step db db1 S db2)
  then obtain t1 where t1: "task_row_of db1 x = Some t1" "task_ended (tsk_status t) \<longrightarrow> outcome t1 = outcome t" by blast
  have "tasks_ok db1" by (rule run_ok [OF run_step.hyps(1) run_step.prems(1)])
  then have "task_writes S db1 db2" by (rule ok_step_writes [OF run_step.hyps(2)])
  moreover have "x \<notin> S" using run_step.hyps(3) run_step.prems(2) by blast
  ultimately obtain t2 where t2: "task_row_of db2 x = Some t2" "task_ended (tsk_status t1) \<longrightarrow> outcome t2 = outcome t1"
    using writes_keep t1(1) by blast
  with t1(2) show ?case by (auto simp: outcome_def)
qed simp

end
