(* ===== verification/TaskGuarantees.thy ===== *)
theory TaskGuarantees
  imports TaskHistory
begin

text \<open>
  What the history of the tasks guarantees: consistent rows, outcomes that stay, dependencies
  without cycles that gate the start of a task and release it when their upstream is done, and
  the session that a task is bound to.
\<close>

section \<open>What a completion releases\<close>




definition announced :: "task_event list \<Rightarrow> string set" where
  "announced new = {w. \<exists>e\<in>set new. tv_type e = EvReady \<and> tv_taskId e = w}"

lemma announced_simps [simp]: "announced [] = {}" "announced (xs @ ys) = announced xs \<union> announced ys"
  "announced (e # xs) = (if tv_type e = EvReady then {tv_taskId e} else {}) \<union> announced xs"
  by (auto simp: announced_def)







lemma unsatisfied_zero: "unsatisfied_count db t = length (filter (\<lambda>d. dp_satisfiedAt d = None) (dbListTaskDependencies db (tsk_id t)))"
  by (simp add: unsatisfied_count_def getTaskDependencySurface_def Let_def split_def filter_map o_def buildTaskDependencyEdge_def)

lemma unsatisfied_iff: "unsatisfied_count db t = 0
    \<longleftrightarrow> (\<forall>d\<in>set (td_dependencies db). dp_taskId d = tsk_id t \<longrightarrow> dp_satisfiedAt d \<noteq> None)"
  by (auto simp: unsatisfied_zero filter_empty_conv dbListTaskDependencies_def)



lemma completion_tables [simp]: "td_dependencies (completion now tid input db) = td_dependencies db"
  "td_events (completion now tid input db) = td_events db"
  by (simp_all add: completion_def)


lemma row_member: "rows_ok db \<Longrightarrow> t \<in> set (td_tasks db) \<Longrightarrow> task_row_of db (tsk_id t) = Some t"
proof -
  assume ok: "rows_ok db" and t: "t \<in> set (td_tasks db)"
  then obtain s where s: "task_row_of db (tsk_id t) = Some s" by (cases "task_row_of db (tsk_id t)") (auto simp: task_row_of_def find_None_iff)
  then have "s \<in> set (td_tasks db)" "tsk_id s = tsk_id t" using find_found unfolding task_row_of_def by force+
  with same_row [OF rows_okD(1) [OF ok] _ t] s show ?thesis by simp
qed

lemma one_active:
  assumes "rows_ok db" "a \<in> set (td_assignments db)" "b \<in> set (td_assignments db)" "asg_active (as_status a)" "asg_active (as_status b)"
    "as_taskId a = as_taskId b"
  shows "a = b"
  by (rule same_row [OF rows_okD(5) [OF assms(1)]]) (simp_all add: assms)

lemma active_fits:
  assumes "rows_ok db" "a \<in> set (td_assignments db)" "asg_active (as_status a)"
  shows "\<exists>t. task_row_of db (as_taskId a) = Some t \<and> fits t a"
  using rows_okD(6) [OF assms(1)] assms(2,3) by blast

text \<open>The active assignments of a session, as the code reads them.\<close>

definition session_rows :: "task_db \<Rightarrow> string \<Rightarrow> task_assignment list" where
  "session_rows db s = sort_key (\<lambda>a. - as_assignedAt a) (filter (\<lambda>a. as_session a = s \<and> asg_active (as_status a)) (td_assignments db))"

lemma concat_single: "(\<And>x. x \<in> set xs \<Longrightarrow> f x = [g x]) \<Longrightarrow> concat (map f xs) = map g xs"
  by (induction xs) simp_all

lemma distinct_sorted_map: "distinct (map k (sort_key f xs)) \<longleftrightarrow> distinct (map k xs)"
  by (simp add: distinct_map)

lemma session_bindings:
  assumes ok: "rows_ok db"
  shows "dbResolveActiveTaskBindingForSession db s None
    = (case session_rows db s of [r] \<Rightarrow> map_option (\<lambda>t. (t, rowToAssignment r)) (dbGetTask db (as_taskId r)) | _ \<Rightarrow> None)"
proof -
  let ?rows = "session_rows db s"
  let ?bind = "\<lambda>r. (the (dbGetTask db (as_taskId r)), rowToAssignment r)"
  have row: "r \<in> set (td_assignments db) \<and> asg_active (as_status r)" if "r \<in> set ?rows" for r using that by (auto simp: session_rows_def)
  have bind: "task_binding db r = [?bind r] \<and> tsk_id (fst (?bind r)) = as_taskId r \<and> dbGetTask db (as_taskId r) \<noteq> None"
    if r: "r \<in> set ?rows" for r
  proof -
    obtain t where "task_row_of db (as_taskId r) = Some t" "fits t r" using active_fits [OF ok] row [OF r] by blast
    then show ?thesis by (simp add: task_binding_def dbGetTask_def fits_def row_id)
  qed
  have bindings: "concat (map (task_binding db) ?rows) = map ?bind ?rows" by (rule concat_single) (use bind in blast)
  have ids: "map (\<lambda>b. tsk_id (fst b)) (map ?bind ?rows) = map as_taskId ?rows" using bind by simp
  have "distinct (map as_taskId (filter (\<lambda>a. as_session a = s) (filter (\<lambda>a. asg_active (as_status a)) (td_assignments db))))"
    by (rule distinct_map_filter [OF rows_okD(5) [OF ok]])
  then have "distinct (map as_taskId ?rows)" by (simp add: session_rows_def conj_commute distinct_sorted_map)
  then have d: "dedup_by (\<lambda>t. t) (map as_taskId ?rows) = map as_taskId ?rows" by (intro dedup_by_id) simp
  have r: "dbResolveActiveTaskBindingForSession db s None
      = (let bindings = map ?bind ?rows; first = (case bindings of [] \<Rightarrow> None | b # _ \<Rightarrow> Some b)
         in if length (map as_taskId ?rows) \<noteq> 1 then None else first)"
    unfolding dbResolveActiveTaskBindingForSession_def Let_def truthy_simps option.case if_False
    by (simp only: truthy_simps(1) not_False_eq_True simp_thms session_rows_def [symmetric] bindings ids d)
  show ?thesis
  proof (cases ?rows)
    case Nil
    then show ?thesis unfolding r by simp
  next
    case (Cons x xs)
    then have "dbGetTask db (as_taskId x) \<noteq> None" using bind [of x] by simp
    with Cons show ?thesis unfolding r by (cases xs) auto
  qed
qed

section \<open>A history to look at\<close>

definition demo_task :: create_input where
  "demo_task = \<lparr>ci_title = ''t'', ci_instructions = ''do'', ci_priority = None, ci_profileId = None, ci_profileVersion = None,
     ci_profileSource = None, ci_profileSnapshot = None, ci_profileState = None, ci_profileInput = None, ci_runtimeOverride = None,
     ci_checkpointIntervalMs = None, ci_reportTo = None, ci_reportEvents = None, ci_parentTaskId = None, ci_createdBy = None,
     ci_createdByAgentId = None, ci_createdBySession = None, ci_worktree = None\<rparr>"

definition demo_dispatch :: dispatch_input where
  "demo_dispatch = \<lparr>ds_agentId = ''ag'', ds_session = ''s1'', ds_assignedBy = None, ds_assignedByAgentId = None,
     ds_assignedBySession = None, ds_worktree = None, ds_runtimeOverride = None, ds_checkpointIntervalMs = None,
     ds_reportTo = None, ds_reportEvents = None\<rparr>"

definition demo_end :: terminal_input where
  "demo_end = \<lparr>tm_actor = None, tm_agentId = None, tm_session = None, tm_message = ''ok'', tm_progress = None\<rparr>"

text \<open>Task b waits for task a, which is dispatched and completed.\<close>

definition demo_created :: task_db where
  "demo_created = snd (createTask ''b'' 2 2 demo_task (Some [''task-a'']) (snd (createTask ''a'' 1 1 demo_task None empty_task_db)))"

definition demo_started :: task_db where
  "demo_started = snd (dispatch_task_row ''x'' 3 3 ''task-a'' demo_dispatch None demo_created)"

definition demo_done :: task_db where
  "demo_done = snd (complete_and_release 4 4 ''task-a'' demo_end demo_started)"

lemma demo_tasks_reachable: "tasks_reachable demo_created" "tasks_reachable demo_started" "tasks_reachable demo_done"
proof -
  show c: "tasks_reachable demo_created" unfolding tasks_reachable_def demo_created_def
    by (rule run_step [OF run_step [OF run_stay st_create] st_create]) simp_all
  show s: "tasks_reachable demo_started" using c unfolding tasks_reachable_def demo_started_def
    by (rule run_step [OF _ st_dispatch]) simp
  show "tasks_reachable demo_done" using s unfolding tasks_reachable_def demo_done_def
    by (rule run_step [OF _ st_complete]) simp
qed

lemma demo_values:
  "map (\<lambda>t. (tsk_id t, tsk_status t)) (td_tasks demo_done) = [(''task-a'', TaskDone), (''task-b'', TaskOpen)]"
  "map tv_type (td_events demo_done) = [EvCreated, EvCreated, EvDependencyAdded, EvDispatched, EvDone, EvDependencySatisfied, EvReady]"
  "map (\<lambda>t. (tsk_id t, tsk_status t)) (td_tasks demo_started) = [(''task-a'', TaskDispatched), (''task-b'', TaskOpen)]"
  "map (\<lambda>d. (dp_taskId d, dp_dependsOn d, dp_satisfiedAt d)) (td_dependencies demo_started) = [(''task-b'', ''task-a'', None)]"
  by code_simp+
lemma demo_rows:
  "map (\<lambda>a. (as_id a, as_taskId a, as_session a, as_status a)) (td_assignments demo_started) = [(''asg-x'', ''task-a'', ''s1'', AsgAssigned)]"
  "map_option (\<lambda>t. (tsk_status t, tsk_archivedAt t)) (task_row_of demo_started ''task-b'') = Some (TaskOpen, None)"
  "map_option tsk_status (task_row_of demo_started ''task-a'') = Some TaskDispatched"
  "map_option tsk_status (task_row_of demo_done ''task-a'') = Some TaskDone"
  "dbResolveActiveTaskBindingForSession demo_started ''s1'' None \<noteq> None"
  by code_simp+

lemma demo_late_run: "task_run {''task-b''} demo_done (snd (dbReportTaskProgress 5 5 ''task-a''
    \<lparr>pg_actor = None, pg_agentId = None, pg_session = None, pg_message = ''still going'', pg_progress = Some 10, pg_resetCheckpoint = None\<rparr> demo_done))"
  by (rule run_step [OF run_stay st_progress]) simp

section \<open>Guarantees\<close>

text \<open>C26: In every reachable store the rows agree. Task identifiers are unique, progress is within
  0 and 100, a completed task is at 100, an ended one has a summary and an end time, a blocked one
  a reason. At most one assignment of a task is active, only while the task is dispatched, in
  progress or blocked, and it is blocked when the task is; only an accepted assignment has a
  checkpoint due; the numbers of the events increase.\<close>

theorem tasks_consistent:
  assumes "tasks_reachable db"
  shows "distinct (map tsk_id (td_tasks db)) \<and> sorted_wrt (<) (map tv_id (td_events db))
     \<and> (\<forall>t\<in>set (td_tasks db). 0 \<le> tsk_progress t \<and> tsk_progress t \<le> 100
          \<and> (tsk_status t = TaskDone \<longrightarrow> tsk_progress t = 100)
          \<and> (tsk_status t = TaskDone \<or> tsk_status t = TaskFailed \<longrightarrow> tsk_completedAt t \<noteq> None \<and> tsk_summary t \<noteq> None)
          \<and> (tsk_status t = TaskBlocked \<longrightarrow> tsk_blockerReason t \<noteq> None))
     \<and> (\<forall>a\<in>set (td_assignments db). (as_dueAt a \<noteq> None \<longrightarrow> as_status a = AsgAccepted) \<and> 0 \<le> as_overdueCount a
          \<and> (asg_active (as_status a) \<longrightarrow> (\<exists>t. dbGetTask db (as_taskId a) = Some t \<and> status_active (tsk_status t)
               \<and> (tsk_status t = TaskBlocked \<longrightarrow> as_status a = AsgBlocked))))
     \<and> (\<forall>a\<in>set (td_assignments db). \<forall>b\<in>set (td_assignments db).
          asg_active (as_status a) \<and> asg_active (as_status b) \<and> as_taskId a = as_taskId b \<longrightarrow> a = b)"
proof (intro conjI ballI)
  have rows: "rows_ok db" and log: "log_ok db" using reachable_ok [OF assms] by (simp_all add: tasks_ok_def)
  show "distinct (map tsk_id (td_tasks db))" by (rule rows_okD(1) [OF rows])
  show "sorted_wrt (<) (map tv_id (td_events db))" using log by (simp add: log_ok_def)
  fix t assume "t \<in> set (td_tasks db)"
  then have "task_ok t" using row_member [OF rows] rows_okD(2) [OF rows] by blast
  then show "0 \<le> tsk_progress t" "tsk_progress t \<le> 100" "tsk_status t = TaskDone \<longrightarrow> tsk_progress t = 100"
    "tsk_status t = TaskDone \<or> tsk_status t = TaskFailed \<longrightarrow> tsk_completedAt t \<noteq> None \<and> tsk_summary t \<noteq> None"
    "tsk_status t = TaskBlocked \<longrightarrow> tsk_blockerReason t \<noteq> None"
    by (simp_all add: task_ok_def task_ended_def)
next
  have rows: "rows_ok db" using reachable_ok [OF assms] by (simp add: tasks_ok_def)
  fix a assume a: "a \<in> set (td_assignments db)"
  then have "asg_ok a" using rows_okD(4) [OF rows] by blast
  then show "as_dueAt a \<noteq> None \<longrightarrow> as_status a = AsgAccepted" "0 \<le> as_overdueCount a" by (simp_all add: asg_ok_def)
  show "asg_active (as_status a) \<longrightarrow> (\<exists>t. dbGetTask db (as_taskId a) = Some t \<and> status_active (tsk_status t)
      \<and> (tsk_status t = TaskBlocked \<longrightarrow> as_status a = AsgBlocked))"
    using active_fits [OF rows a] by (auto simp: fits_def dbGetTask_def)
  fix b assume "b \<in> set (td_assignments db)"
  with one_active [OF rows a] show "asg_active (as_status a) \<and> asg_active (as_status b) \<and> as_taskId a = as_taskId b \<longrightarrow> a = b" by blast
qed

theorem tasks_consistent_witness:
  "tasks_reachable demo_done \<and> distinct (map tsk_id (td_tasks demo_done)) \<and> length (td_events demo_done) = 7"
  using tasks_consistent [OF demo_tasks_reachable(3)] demo_tasks_reachable(3) arg_cong [OF demo_values(2), of length] by simp

text \<open>C27: An ended task stays as it ended. Whatever operations follow, if none of them dispatches or
  deletes it or creates a task under its identifier, its status, progress, summary, blocker and times stay the same and none of its
  assignments becomes active, so that late reports, failures and completions change nothing.\<close>

theorem ended_task_frozen:
  assumes "tasks_reachable db" "task_row_of db tid = Some t" "tsk_status t = TaskDone \<or> tsk_status t = TaskFailed"
    and "task_run L db db'" "tid \<notin> L"
  shows "\<exists>t'. task_row_of db' tid = Some t' \<and> outcome t' = outcome t
     \<and> (\<forall>a\<in>set (td_assignments db'). as_taskId a = tid \<longrightarrow> \<not> asg_active (as_status a))"
proof -
  note ok = reachable_ok [OF assms(1)]
  have rows: "rows_ok db'" using run_ok [OF assms(4) ok] by (simp add: tasks_ok_def)
  obtain t' where t': "task_row_of db' tid = Some t'" "outcome t' = outcome t"
    using run_keeps [OF assms(4) ok assms(5,2)] assms(3) by (auto simp: task_ended_def)
  then have "\<not> status_active (tsk_status t')" using assms(3) by (auto simp: outcome_def status_active_def)
  then have "\<not> asg_active (as_status a)" if "a \<in> set (td_assignments db')" "as_taskId a = tid" for a
    using active_fits [OF rows that(1)] that(2) t'(1) by (auto simp: fits_def)
  with t' show ?thesis by blast
qed

theorem ended_task_frozen_witness:
  "\<exists>t. task_row_of (snd (dbReportTaskProgress 5 5 ''task-a''
      \<lparr>pg_actor = None, pg_agentId = None, pg_session = None, pg_message = ''still going'', pg_progress = Some 10, pg_resetCheckpoint = None\<rparr>
      demo_done)) ''task-a'' = Some t \<and> tsk_status t = TaskDone"
proof -
  obtain t where t: "task_row_of demo_done ''task-a'' = Some t" "tsk_status t = TaskDone" using demo_rows(4) by auto
  from ended_task_frozen [OF demo_tasks_reachable(3) t(1) disjI1 [OF t(2)] demo_late_run] t(2) show ?thesis by (auto simp: outcome_def)
qed

text \<open>C30: The dependencies of a reachable store make no cycle and connect tasks that exist; one that
  cites an event cites a completion of the task it waited for; and every dependency on a task that
  is done is satisfied. (A completion is one step here: see \<open>interrupted_completion_never_releases\<close>
  for one that ends between its two halves.)\<close>

theorem dependencies_sound:
  assumes "tasks_reachable db"
  shows "acyclic (dependency_edges db)
     \<and> (\<forall>d\<in>set (td_dependencies db). dbGetTask db (dp_taskId d) \<noteq> None \<and> (\<exists>u. dbGetTask db (dp_dependsOn d) = Some u
          \<and> (tsk_status u = TaskDone \<longrightarrow> dp_satisfiedAt d \<noteq> None)))
     \<and> (\<forall>d\<in>set (td_dependencies db). \<forall>n. dp_satisfiedBy d = Some n
          \<longrightarrow> (\<exists>e\<in>set (td_events db). tv_id e = n \<and> tv_type e = EvDone \<and> tv_taskId e = dp_dependsOn d))"
proof (intro conjI ballI allI impI)
  have deps: "deps_ok db" and settled: "settled db" using reachable_ok [OF assms] by (simp_all add: tasks_ok_def)
  show "acyclic (dependency_edges db)" using deps by (simp add: deps_ok_def)
  fix d assume d: "d \<in> set (td_dependencies db)"
  have edges: "closed_dependencies db" and cites: "cites db d" using deps d by (simp_all add: deps_ok_def)
  from edges d have rows: "task_row_of db (dp_taskId d) \<noteq> None" "task_row_of db (dp_dependsOn d) \<noteq> None"
    by (auto simp: closed_dependencies_def dependency_edges_def)
  then show "dbGetTask db (dp_taskId d) \<noteq> None" by (simp add: dbGetTask_def)
  obtain u where u: "task_row_of db (dp_dependsOn d) = Some u" using rows(2) by blast
  with settled d show "\<exists>u. dbGetTask db (dp_dependsOn d) = Some u \<and> (tsk_status u = TaskDone \<longrightarrow> dp_satisfiedAt d \<noteq> None)"
    by (auto simp: settled_def dbGetTask_def)
  show "\<exists>e\<in>set (td_events db). tv_id e = n \<and> tv_type e = EvDone \<and> tv_taskId e = dp_dependsOn d" if "dp_satisfiedBy d = Some n" for n
    using cites that by (auto simp: cites_def)
qed

theorem dependencies_sound_witness:
  "tasks_reachable demo_started \<and> acyclic (dependency_edges demo_started) \<and> length (td_dependencies demo_started) = 1"
  using dependencies_sound [OF demo_tasks_reachable(2)] demo_tasks_reachable(2) arg_cong [OF demo_values(4), of length] by simp

text \<open>C37: The search for a cycle is exact: in a graph of dependencies without cycles an edge is accepted
  if and only if the graph stays without cycles when it is added. (The search ends on every graph;
  the graph of a reachable store has no cycle.)\<close>

theorem cycle_refused_iff:
  assumes "acyclic (dependency_edges db)"
  shows "fst (assertTaskDependencyEdge taskId upstream db) = Inr () \<longleftrightarrow> acyclic (insert (taskId, upstream) (dependency_edges db))"
  using assms by (auto simp: assertTaskDependencyEdge_def taskDependsOn_iff)

theorem cycle_refused_iff_witness:
  "\<not> acyclic (insert (''task-a'', ''task-b'') (dependency_edges demo_started))
     \<and> acyclic (insert (''task-b'', ''task-a'') (dependency_edges empty_task_db))"
proof
  have "acyclic (dependency_edges demo_started)" using reachable_ok [OF demo_tasks_reachable(2)] by (simp add: tasks_ok_def deps_ok_def)
  moreover have "fst (assertTaskDependencyEdge ''task-a'' ''task-b'' demo_started) \<noteq> Inr ()" by code_simp
  ultimately show "\<not> acyclic (insert (''task-a'', ''task-b'') (dependency_edges demo_started))" using cycle_refused_iff by blast
  have "acyclic (dependency_edges empty_task_db)" using empty_ok by (simp add: tasks_ok_def deps_ok_def)
  moreover have "fst (assertTaskDependencyEdge ''task-b'' ''task-a'' empty_task_db) = Inr ()" by code_simp
  ultimately show "acyclic (insert (''task-b'', ''task-a'') (dependency_edges empty_task_db))" using cycle_refused_iff by blast
qed

text \<open>A task that waits is not started: while an open task has a dependency that is not
  satisfied, every dispatch of it is refused and changes nothing.\<close>

theorem waiting_task_not_started:
  assumes "dbGetTask db tid = Some t" "tsk_status t = TaskOpen"
    and "d \<in> set (td_dependencies db)" "dp_taskId d = tid" "dp_satisfiedAt d = None"
  shows "\<exists>e. dispatch_task_row uuid now now' tid input message db = (Inl e, db)"
proof -
  have "tsk_id t = tid" using assms(1) row_id by (auto simp: dbGetTask_def)
  then have "unsatisfied_count db t \<noteq> 0" using assms(3-5) by (auto simp: unsatisfied_iff)
  with assms(1,2) show ?thesis by (auto simp: dispatch_task_row_def getTaskOrThrow_def tbind_def Let_def)
qed

theorem waiting_task_not_started_witness:
  "\<exists>e. dispatch_task_row ''y'' 9 9 ''task-b'' demo_dispatch None demo_started = (Inl e, demo_started)"
proof -
  obtain r where r: "task_row_of demo_started ''task-b'' = Some r" "tsk_status r = TaskOpen" using demo_rows(2) by auto
  obtain d where d: "td_dependencies demo_started = [d]" "dp_taskId d = ''task-b''" "dp_satisfiedAt d = None"
    using demo_values(4) by auto
  show ?thesis by (rule waiting_task_not_started [of demo_started _ "rowToTask r" d]) (simp_all add: dbGetTask_def r d)
qed



text \<open>C40: Without a task identifier a session is bound to a task exactly when it has a single active
  assignment: then the binding is that assignment and its task, and with none or with several the
  session is bound to nothing.\<close>

theorem session_binding_iff:
  assumes "tasks_reachable db"
  shows "dbResolveActiveTaskBindingForSession db s None = Some (t, a) \<longleftrightarrow>
     (\<exists>r. {b \<in> set (td_assignments db). as_session b = s \<and> asg_active (as_status b)} = {r}
        \<and> a = rowToAssignment r \<and> dbGetTask db (as_taskId r) = Some t)"
proof -
  have rows: "rows_ok db" using reachable_ok [OF assms] by (simp add: tasks_ok_def)
  let ?rows = "session_rows db s"
  have set: "set ?rows = {b \<in> set (td_assignments db). as_session b = s \<and> asg_active (as_status b)}" by (auto simp: session_rows_def)
  have "distinct (td_assignments db)" using rows_okD(3) [OF rows] by (simp add: distinct_map)
  then have "distinct ?rows" by (simp add: session_rows_def)
  then have single: "set ?rows = {r} \<longleftrightarrow> ?rows = [r]" for r
    by (cases ?rows; cases "tl ?rows") auto
  show ?thesis unfolding set [symmetric] single session_bindings [OF rows] by (auto split: list.splits option.splits)
qed

theorem session_binding_iff_witness:
  "\<exists>t a. dbResolveActiveTaskBindingForSession demo_started ''s1'' None = Some (t, a) \<and> as_taskId a = tsk_id t"
proof -
  obtain t a where b: "dbResolveActiveTaskBindingForSession demo_started ''s1'' None = Some (t, a)" using demo_rows(5) by auto
  then show ?thesis using session_binding_iff [OF demo_tasks_reachable(2), of "''s1''" t a] row_id by (auto simp: dbGetTask_def)
qed

section \<open>Where the rows disagree\<close>

text \<open>
  Three things the operations leave behind: a task dispatched again after it was done keeps its
  progress, summary and end time while the event of the dispatch says progress 0; a report from a
  session other than that of the assignment puts a blocked task back in progress and leaves its
  assignment blocked; and a dispatch with an unknown effort has superseded the assignment of the
  task before it is refused.
\<close>

lemma redispatch_keeps_end:
  "map_option (\<lambda>t. (tsk_status t, tsk_progress t, tsk_completedAt t))
     (task_row_of (snd (dispatch_task_row ''y'' 5 5 ''task-a'' demo_dispatch None demo_done)) ''task-a'') = Some (TaskDispatched, 100, Some 4)"
  "map_option tv_progress (find (\<lambda>e. tv_type e = EvDispatched \<and> tv_createdAt e = 5)
     (td_events (snd (dispatch_task_row ''y'' 5 5 ''task-a'' demo_dispatch None demo_done)))) = Some (Some 0)"
  by code_simp+

definition demo_blocked :: task_db where
  "demo_blocked = snd (dbBlockTask 4 4 ''task-a'' demo_end demo_started)"

lemma foreign_report_leaves_blocked:
  defines "db \<equiv> snd (dbReportTaskProgress 5 5 ''task-a'' \<lparr>pg_actor = None, pg_agentId = None, pg_session = Some ''s2'',
       pg_message = ''still going'', pg_progress = Some 10, pg_resetCheckpoint = None\<rparr> demo_blocked)"
  shows "map_option tsk_status (task_row_of db ''task-a'') = Some TaskInProgress" "map as_status (td_assignments db) = [AsgBlocked]"
  unfolding db_def by code_simp+

lemma refused_dispatch_supersedes:
  defines "r \<equiv> dispatch_task_row ''y'' 5 5 ''task-a''
       (demo_dispatch\<lparr>ds_runtimeOverride := Some \<lparr>ro_model = None, ro_effort = Some ''huge'', ro_thinking = None\<rparr>\<rparr>) None demo_started"
  shows "isl (fst r)" "map as_status (td_assignments (snd r)) = [AsgSuperseded]"
    "map_option tsk_status (task_row_of (snd r) ''task-a'') = Some TaskDispatched"
  unfolding r_def by code_simp+

text \<open>
  A completion that ends after its row was written, because the document of the task cannot be
  written, is never made up for: completing the task again changes nothing, and what waits for it
  waits on.
\<close>

lemma interrupted_completion_never_releases:
  defines "db \<equiv> snd (complete_and_release 5 5 ''task-a'' demo_end (snd (dbCompleteTask 4 4 ''task-a'' demo_end demo_started)))"
  shows "map_option tsk_status (task_row_of db ''task-a'') = Some TaskDone"
    "map (\<lambda>d. (dp_taskId d, dp_dependsOn d, dp_satisfiedAt d)) (td_dependencies db) = [(''task-b'', ''task-a'', None)]"
  unfolding db_def by code_simp+

end
