(* ===== verification/SessionName.thy ===== *)
theory SessionName
  imports Prelude
begin

text \<open>
  Session names (\<open>src/src/router/session-name.ts\<close>): the human-readable name of a session is
  a slug of at most 64 characters, made unique by a numeric suffix. The taken names and
  the clock in base 36 are arguments. The locale \<open>name_registry\<close> is the interface through
  which a client claims a name; the session store provides it.
\<close>

section \<open>Slugs and names\<close>

definition slugify :: "string \<Rightarrow> string" where
  "slugify text = take 48 (strip_edges (CHR ''-'') (squash is_lower_alnum (CHR ''-'') (to_lower text)))"

record session_name_opts =
  no_groupName :: "string option"
  no_peerKind :: "string option"
  no_peerId :: "string option"
  no_suffix :: "string option"
  no_isMain :: bool
  no_threadId :: "string option"

text \<open>\<open>threadId.replace(/\./g, "")\<close> behind \<open>-t-\<close>, where there is a thread.\<close>

definition thread_suffix :: "string option \<Rightarrow> string" where
  "thread_suffix threadId =
     (if truthy threadId then ''-t-'' @ filter (\<lambda>c. c \<noteq> CHR ''.'') (nullish threadId []) else [])"

definition stripGroupPrefix :: "string \<Rightarrow> string" where
  "stripGroupPrefix peerId = (if prefix ''group:'' peerId then drop 6 peerId else peerId)"

definition nameContext :: "string \<Rightarrow> session_name_opts \<Rightarrow> string" where
  "nameContext now36 opts =
     (if truthy (no_suffix opts) then slugify (nullish (no_suffix opts) [])
      else if truthy (no_groupName opts) then slugify (nullish (no_groupName opts) [])
      else if no_peerKind opts = Some ''channel'' \<and> truthy (no_peerId opts)
      then ''channel-'' @ to_lower (last_n 8 (filter is_alnum (nullish (no_peerId opts) [])))
      else if no_peerKind opts = Some ''group'' \<and> truthy (no_peerId opts)
      then ''group-'' @ last_n 8 (stripGroupPrefix (nullish (no_peerId opts) []))
      else if no_peerKind opts = Some ''dm'' \<and> truthy (no_peerId opts)
      then ''dm-'' @ last_n 6 (filter is_digit (nullish (no_peerId opts) []))
      else ''session-'' @ now36)"

definition generateSessionName :: "string \<Rightarrow> string \<Rightarrow> session_name_opts \<Rightarrow> string" where
  "generateSessionName now36 agentId opts =
     (let agent = slugify agentId;
          group = slugify (nullish (no_groupName opts) []) @ thread_suffix (no_threadId opts)
      in if truthy (no_groupName opts) \<and> group \<noteq> [] then take 64 group
         else if no_isMain opts then agent
         else take 64 (agent @ ''-'' @ nameContext now36 opts @ thread_suffix (no_threadId opts)))"

text \<open>The candidates \<open>base-2\<close> to \<open>base-99\<close>, cut to 64 characters, in the order of the loop.\<close>

definition nameCandidate :: "string \<Rightarrow> nat \<Rightarrow> string" where
  "nameCandidate baseName i = take 64 (baseName @ ''-'' @ show_nat i)"

definition ensureUniqueName :: "(string \<Rightarrow> bool) \<Rightarrow> string \<Rightarrow> string \<Rightarrow> string" where
  "ensureUniqueName isNameTaken now36 baseName =
     (if \<not> isNameTaken baseName then baseName
      else case find (\<lambda>c. \<not> isNameTaken c) (map (nameCandidate baseName) [2..<100]) of
             Some candidate \<Rightarrow> candidate
           | None \<Rightarrow> take 50 baseName @ ''-'' @ now36)"

section \<open>Canonical names\<close>

text \<open>
  \<open>SESSION_NAME_FORBIDDEN_CHARS\<close> and \<open>normalizeCanonicalSessionName\<close> of
  \<open>src/src/router/sessions.ts\<close>: a name is one token of a NATS subject.
\<close>

definition forbidden_name_char :: "char \<Rightarrow> bool" where
  "forbidden_name_char c \<longleftrightarrow> c = CHR ''.'' \<or> is_space c \<or> c = CHR ''*'' \<or> c = CHR ''>''"

datatype name_error = NameEmpty | NameForbidden string

definition normalizeCanonicalSessionName :: "string \<Rightarrow> name_error + string" where
  "normalizeCanonicalSessionName name =
     (let normalized = trim name in
      if normalized = [] then Inl NameEmpty
      else if list_ex forbidden_name_char normalized then Inl (NameForbidden name)
      else Inr normalized)"

section \<open>Lemmas on names\<close>

lemma slugify_chars: "c \<in> set (slugify s) \<Longrightarrow> is_lower_alnum c \<or> c = CHR ''-''"
  unfolding slugify_def by (drule in_set_takeD) (use set_strip_edges set_squash in fastforce)

lemma length_slugify: "length (slugify s) \<le> 48"
  by (simp add: slugify_def)

lemma forbidden_code: "forbidden_name_char c \<longleftrightarrow>
    (let n = (of_char c :: nat) in n = 46 \<or> n = 42 \<or> n = 62 \<or> 9 \<le> n \<and> n \<le> 13 \<or> n = 32 \<or> n = 160)"
proof -
  have "c = CHR ''.'' \<longleftrightarrow> of_char c = (46 :: nat)" "c = CHR ''*'' \<longleftrightarrow> of_char c = (42 :: nat)"
    "c = CHR ''>'' \<longleftrightarrow> of_char c = (62 :: nat)"
    using of_char_eq_iff [of c "CHR ''.''", where 'a = nat] of_char_eq_iff [of c "CHR ''*''", where 'a = nat]
      of_char_eq_iff [of c "CHR ''>''", where 'a = nat] by simp_all
  then show ?thesis by (auto simp: forbidden_name_char_def is_space_def Let_def)
qed

lemma slug_char_allowed: "is_lower_alnum c \<or> c = CHR ''-'' \<Longrightarrow> \<not> forbidden_name_char c \<and> \<not> is_space c"
  by (auto simp: forbidden_name_char_def js_simps)

lemma canonical_name_accepted:
  "s \<noteq> [] \<Longrightarrow> (\<And>c. c \<in> set s \<Longrightarrow> \<not> forbidden_name_char c) \<Longrightarrow> normalizeCanonicalSessionName s = Inr s"
proof -
  assume *: "s \<noteq> []" "\<And>c. c \<in> set s \<Longrightarrow> \<not> forbidden_name_char c"
  then have "trim s = s" by (intro trim_id) (auto simp: forbidden_name_char_def)
  with * show ?thesis by (auto simp: normalizeCanonicalSessionName_def list_ex_iff)
qed

lemma normalize_accepts:
  "normalizeCanonicalSessionName n = Inr m \<Longrightarrow> m \<noteq> [] \<and> (\<forall>c \<in> set m. \<not> forbidden_name_char c) \<and> trim m = m"
  by (auto simp: normalizeCanonicalSessionName_def Let_def list_ex_iff split: if_splits)

definition tidy :: "string \<Rightarrow> bool" where
  "tidy s \<longleftrightarrow> (\<forall>c \<in> set s. \<not> forbidden_name_char c)"

lemma tidy_simps [simp]: "tidy []" "tidy (s @ t) \<longleftrightarrow> tidy s \<and> tidy t"
  "tidy (c # s) \<longleftrightarrow> \<not> forbidden_name_char c \<and> tidy s"
  by (auto simp: tidy_def)

lemma tidy_subset: "tidy s \<Longrightarrow> set t \<subseteq> set s \<Longrightarrow> tidy t"
  by (auto simp: tidy_def)

lemma tidy_take [simp]: "tidy s \<Longrightarrow> tidy (take n s)"
  by (erule tidy_subset) (rule set_take_subset)

lemma tidy_last_n [simp]: "tidy s \<Longrightarrow> tidy (last_n n s)"
  unfolding last_n_def by (erule tidy_subset) (rule set_drop_subset)

lemma tidy_slugify [simp]: "tidy (slugify s)"
  using slugify_chars slug_char_allowed by (auto simp: tidy_def)

lemma tidy_filter [simp]: "tidy s \<Longrightarrow> tidy (filter P s)"
  by (erule tidy_subset) auto

lemma of_char_lower: "of_char (lower_char c) =
    (let n = (of_char c :: nat) in if 65 \<le> n \<and> n \<le> 90 \<or> 192 \<le> n \<and> n \<le> 222 \<and> n \<noteq> 215 then n + 32 else n)"
  by (simp add: lower_char_def Let_def of_char_of)

lemma tidy_alnum: "\<forall>c \<in> set s. is_alnum c \<Longrightarrow> tidy (to_lower s)"
  unfolding tidy_def to_lower_def forbidden_code is_alnum_def Let_def by (fastforce simp: of_char_lower Let_def)

lemma tidy_digits: "\<forall>c \<in> set s. is_digit c \<Longrightarrow> tidy s"
  unfolding tidy_def forbidden_code is_digit_def Let_def by fastforce

lemma tidy_show_nat [simp]: "tidy (show_nat n)"
proof (induction n rule: show_nat.induct)
  case (1 n)
  have d: "is_digit (char_of (48 + k))" if "k < 10" for k :: nat
    using that by (simp add: is_digit_def of_char_of)
  then have "tidy [char_of (48 + k)]" if "k < 10" for k :: nat using that by (intro tidy_digits) simp
  with 1 show ?case by (subst show_nat.simps) (simp del: tidy_simps(3))
qed

lemma literal_tidy [simp]: "tidy ''channel-''" "tidy ''group-''" "tidy ''dm-''" "tidy ''session-''" "tidy ''-''" "tidy ''-t-''"
  by (simp_all add: forbidden_code)

lemma tidy_thread_suffix: "tidy (nullish t []) \<Longrightarrow> tidy (thread_suffix t)"
  unfolding thread_suffix_def by (simp add: forbidden_code)

lemma tidy_nameContext:
  assumes "tidy now36" "no_peerKind opts = Some ''group'' \<Longrightarrow> tidy (nullish (no_peerId opts) [])"
  shows "tidy (nameContext now36 opts)"
proof -
  let ?p = "nullish (no_peerId opts) []"
  have "set (last_n n xs) \<subseteq> set xs" for n and xs :: string by (simp add: last_n_def set_drop_subset)
  then have "tidy (to_lower (last_n 8 (filter is_alnum ?p)))" "tidy (last_n 6 (filter is_digit ?p))"
    by (intro tidy_alnum tidy_digits; fastforce)+
  moreover have "tidy (last_n 8 (stripGroupPrefix ?p))" if "no_peerKind opts = Some ''group''"
    using assms(2) [OF that] set_drop_subset [of 6 ?p]
    by (intro tidy_last_n, elim tidy_subset) (auto simp: stripGroupPrefix_def)
  ultimately show ?thesis using assms(1)
    unfolding nameContext_def by (simp add: forbidden_code)
qed

lemma tidy_generate:
  assumes "tidy now36" "no_peerKind opts = Some ''group'' \<Longrightarrow> tidy (nullish (no_peerId opts) [])"
    "tidy (nullish (no_threadId opts) [])"
  shows "tidy (generateSessionName now36 agentId opts)"
  using tidy_nameContext [OF assms(1,2)] tidy_thread_suffix [OF assms(3)]
  unfolding generateSessionName_def Let_def by (simp add: forbidden_code)

lemma length_generate: "length (generateSessionName now36 agentId opts) \<le> 64"
  using length_slugify [of agentId] unfolding generateSessionName_def Let_def
  by (simp only: length_take split: if_split) auto

section \<open>Properties of names\<close>

text \<open>a generated session name has at most 64 characters and, when it is not empty and the thread id and
  the group id carry no reserved character, the store accepts it as it is.\<close>

theorem generated_name_accepted:
  assumes "tidy now36" and "no_peerKind opts = Some ''group'' \<Longrightarrow> tidy (nullish (no_peerId opts) [])"
    and "tidy (nullish (no_threadId opts) [])" and "generateSessionName now36 agentId opts \<noteq> []"
  shows "length (generateSessionName now36 agentId opts) \<le> 64
     \<and> normalizeCanonicalSessionName (generateSessionName now36 agentId opts)
         = Inr (generateSessionName now36 agentId opts)"
  using canonical_name_accepted [OF assms(4)] tidy_generate [OF assms(1-3), of agentId] length_generate
  by (auto simp: tidy_def)

definition dm_opts :: session_name_opts where
  "dm_opts = \<lparr>no_groupName = None, no_peerKind = Some ''dm'', no_peerId = Some ''+55 11 99999-1234'',
     no_suffix = None, no_isMain = False, no_threadId = Some ''17.42''\<rparr>"

theorem generated_name_accepted_witness:
  "normalizeCanonicalSessionName (generateSessionName ''lx1'' ''Main Agent'' (dm_opts\<lparr>no_threadId := Some ''42''\<rparr>))
     = Inr ''main-agent-dm-991234-t-42''"
proof -
  have e: "generateSessionName ''lx1'' ''Main Agent'' (dm_opts\<lparr>no_threadId := Some ''42''\<rparr>) = ''main-agent-dm-991234-t-42''"
    by code_simp
  have "tidy ''lx1''" "tidy ''42''" by (simp_all add: forbidden_code)
  then show ?thesis
    using generated_name_accepted [of "''lx1''" "dm_opts\<lparr>no_threadId := Some ''42''\<rparr>" "''Main Agent''"]
    unfolding e by (simp add: dm_opts_def)
qed

text \<open>for a group whose id has a dot near its end, such as a Matrix room address, the generated
  name contains the dot and the store refuses it.\<close>

theorem group_name_with_dot_refused:
  "generateSessionName now36 ''main''
       \<lparr>no_groupName = None, no_peerKind = Some ''group'', no_peerId = Some ''!abc:server.org'',
        no_suffix = None, no_isMain = False, no_threadId = None\<rparr> = ''main-group-rver.org''
   \<and> normalizeCanonicalSessionName ''main-group-rver.org'' = Inl (NameForbidden ''main-group-rver.org'')"
proof
  show "normalizeCanonicalSessionName ''main-group-rver.org'' = Inl (NameForbidden ''main-group-rver.org'')" by code_simp
  have s: "slugify ''main'' = ''main''" by code_simp
  show "generateSessionName now36 ''main''
       \<lparr>no_groupName = None, no_peerKind = Some ''group'', no_peerId = Some ''!abc:server.org'',
        no_suffix = None, no_isMain = False, no_threadId = None\<rparr> = ''main-group-rver.org''"
    by (simp add: generateSessionName_def nameContext_def s thread_suffix_def stripGroupPrefix_def last_n_def
        prefix_def char_of_eq_iff)
qed

lemma nameCandidate_eq_base: "length b \<ge> 64 \<Longrightarrow> nameCandidate b i = take 64 b"
  by (simp add: nameCandidate_def)

lemma ensure_cases:
  obtains (free) "\<not> taken (ensureUniqueName taken now36 b)"
  | (fallback) "ensureUniqueName taken now36 b = take 50 b @ ''-'' @ now36" "taken b" "\<forall>i \<in> {2..<100}. taken (nameCandidate b i)"
proof (cases "\<not> taken b")
  case True
  then show ?thesis using free by (simp add: ensureUniqueName_def)
next
  case False
  show ?thesis
  proof (cases "find (\<lambda>c. \<not> taken c) (map (nameCandidate b) [2..<100])")
    case None
    then have "ensureUniqueName taken now36 b = take 50 b @ ''-'' @ now36" using False unfolding ensureUniqueName_def None by simp
    moreover have "\<forall>i \<in> {2..<100}. taken (nameCandidate b i)" using None unfolding find_None_iff by (simp del: upt_rec_numeral)
    ultimately show ?thesis using False fallback by blast
  next
    case (Some c)
    then have "\<not> taken c" unfolding find_Some_iff by blast
    moreover have "ensureUniqueName taken now36 b = c" using False unfolding ensureUniqueName_def Some by simp
    ultimately show ?thesis using free by simp
  qed
qed

text \<open>the unique name is free, unless the base name and all its numbered variants are taken; then it is
  the cut base with the time stamp.\<close>

theorem ensure_unique_name:
  "\<not> taken (ensureUniqueName taken now36 b)
   \<or> (ensureUniqueName taken now36 b = take 50 b @ ''-'' @ now36 \<and> taken b
      \<and> (\<forall>i \<in> {2..<100}. taken (nameCandidate b i)))"
  by (rule ensure_cases [of taken now36 b]) simp_all

theorem ensure_unique_name_witness:
  "ensureUniqueName (\<lambda>n. n = ''main'') ''lx1'' ''main'' = ''main-2'' \<and> ''main-2'' \<noteq> ''main''"
proof -
  have "ensureUniqueName (\<lambda>n. n = ''main'') ''lx1'' ''main'' = ''main-2''" by code_simp
  moreover have "''main-2'' \<noteq> ''main'' \<or> ''main-2'' = take 50 ''main'' @ ''-'' @ ''lx1''"
    using ensure_unique_name [of "\<lambda>n. n = ''main''" "''lx1''" "''main''"] unfolding calculation by auto
  ultimately show ?thesis by simp
qed

text \<open>A base name of 64 characters or more leaves no room for the number: every variant is the base itself.\<close>

lemma long_name_never_numbered:
  assumes "length b = 64" "taken b"
  shows "ensureUniqueName taken now36 b = take 50 b @ ''-'' @ now36"
proof -
  have "nameCandidate b i = b" for i using assms(1) by (simp add: nameCandidate_eq_base)
  then have "find (\<lambda>c. \<not> taken c) (map (nameCandidate b) [2..<100]) = None" using assms(2)
    unfolding find_None_iff by (simp del: upt_rec_numeral)
  with assms(2) show ?thesis by (simp add: ensureUniqueName_def)
qed

section \<open>Claiming a name\<close>

text \<open>
  What a client of names relies on: claiming a well-formed free name succeeds and takes
  it, and claiming a taken one fails. A generated name made unique can then be claimed.
\<close>

locale name_registry =
  fixes taken :: "'db \<Rightarrow> string \<Rightarrow> bool"
    and claim :: "string \<Rightarrow> 'db \<Rightarrow> 'e + 'db"
    and ok :: "'db \<Rightarrow> bool"
  assumes claim_free: "ok db \<Longrightarrow> \<not> taken db n \<Longrightarrow> normalizeCanonicalSessionName n = Inr n \<Longrightarrow>
      \<exists>db'. claim n db = Inr db' \<and> taken db' n \<and> ok db'"
begin

lemma claim_unique_name:
  assumes "ok db" "tidy b" "b \<noteq> []" "tidy now36" "\<exists>i \<in> {2..<100}. \<not> taken db (nameCandidate b i)"
  shows "\<exists>db'. claim (ensureUniqueName (taken db) now36 b) db = Inr db'
     \<and> taken db' (ensureUniqueName (taken db) now36 b) \<and> ok db'"
proof -
  let ?n = "ensureUniqueName (taken db) now36 b"
  have free: "\<not> taken db ?n" using ensure_cases [of "taken db" now36 b] assms(5) by metis
  have "tidy ?n \<and> ?n \<noteq> []"
  proof (cases "taken db b")
    case True
    then obtain c where c: "find (\<lambda>c. \<not> taken db c) (map (nameCandidate b) [2..<100]) = Some c"
      using assms(5) find_None_iff [of "\<lambda>c. \<not> taken db c" "map (nameCandidate b) [2..<100]"]
      by (metis (no_types, lifting) imageI not_None_eq set_map set_upt)
    then have "c \<in> set (map (nameCandidate b) [2..<100])" unfolding find_Some_iff by (metis nth_mem)
    then obtain i where "c = nameCandidate b i" by (auto simp del: upt_rec_numeral)
    moreover have "?n = c" using True unfolding ensureUniqueName_def c by simp
    ultimately show ?thesis using assms(2,3) by (simp add: nameCandidate_def forbidden_code)
  qed (use assms(2,3) in \<open>simp add: ensureUniqueName_def\<close>)
  then have "normalizeCanonicalSessionName ?n = Inr ?n" by (intro canonical_name_accepted) (auto simp: tidy_def)
  with assms(1) free show ?thesis by (rule claim_free)
qed

end

end
