(* ===== verification/SessionStore.thy ===== *)
theory SessionStore
  imports SessionTypes SessionName
begin

text \<open>
  The session store (\<open>src/src/router/sessions.ts\<close>): sessions keyed by session key, with a
  unique optional name, their provider state, expiry and reply source. A row is kept as
  the entry it reads as; \<open>rowToEntry\<close> recomputes the one derived field. The clock is the
  argument \<open>now\<close>. The unique index on names (\<open>src/src/router/router-db.ts\<close>) makes a write
  of a taken name fail. Where the SQL orders rows by \<open>updated_at\<close>, ties keep the order of
  insertion. The routes that a rename rewrites are part of the state.
\<close>

section \<open>The state\<close>

record route_row =
  rw_config :: route_config
  rw_updatedAt :: int
  rw_deletedAt :: "int option"

record session_store =
  ss_sessions :: "session_entry list"
  ss_routes :: "route_row list"

datatype store_error =
    UniqueNameViolation string
  | SessionNotFound string
  | NameExists string
  | BadName name_error

definition rowToEntry :: "session_entry \<Rightarrow> session_entry" where
  "rowToEntry row = row\<lparr>se_providerSessionId := orElse (se_runtimeSessionDisplayId row) (se_sdkSessionId row)\<rparr>"

definition row_by_key :: "string \<Rightarrow> session_entry list \<Rightarrow> session_entry option" where
  "row_by_key key rows = find (\<lambda>e. se_sessionKey e = key) rows"

definition row_by_name :: "string \<Rightarrow> session_entry list \<Rightarrow> session_entry option" where
  "row_by_name name rows = find (\<lambda>e. se_name e = Some name) rows"

text \<open>\<open>UPDATE sessions SET ... WHERE session_key = ?\<close>, and \<open>ORDER BY updated_at DESC\<close>.\<close>

definition update_key :: "string \<Rightarrow> (session_entry \<Rightarrow> session_entry) \<Rightarrow> session_store \<Rightarrow> session_store" where
  "update_key key f st =
     st\<lparr>ss_sessions := map (\<lambda>e. if se_sessionKey e = key then f e else e) (ss_sessions st)\<rparr>"

definition newest_first :: "session_entry list \<Rightarrow> session_entry list" where
  "newest_first rows = sort_key (\<lambda>e. - se_updatedAt e) rows"

definition first_of :: "'a list \<Rightarrow> 'a option" where
  "first_of xs = (case xs of [] \<Rightarrow> None | x # _ \<Rightarrow> Some x)"

section \<open>Lookups\<close>

definition getSession :: "session_store \<Rightarrow> string \<Rightarrow> session_entry option" where
  "getSession st key = map_option rowToEntry (row_by_key key (ss_sessions st))"

definition getSessionByName :: "session_store \<Rightarrow> string \<Rightarrow> session_entry option" where
  "getSessionByName st name = map_option rowToEntry (row_by_name name (ss_sessions st))"

definition isNameTaken :: "session_store \<Rightarrow> string \<Rightarrow> bool" where
  "isNameTaken st name \<longleftrightarrow> row_by_name name (ss_sessions st) \<noteq> None"

definition getSessionBySdkId :: "session_store \<Rightarrow> string \<Rightarrow> session_entry option" where
  "getSessionBySdkId st sdkSessionId =
     map_option rowToEntry
       (find (\<lambda>e. se_sdkSessionId e = Some sdkSessionId \<or> se_runtimeSessionDisplayId e = Some sdkSessionId)
         (ss_sessions st))"

definition getSessionsByAgent :: "session_store \<Rightarrow> string \<Rightarrow> session_entry list" where
  "getSessionsByAgent st agentId =
     map rowToEntry (newest_first (filter (\<lambda>e. se_agentId e = agentId) (ss_sessions st)))"

definition listSessions :: "session_store \<Rightarrow> session_entry list" where
  "listSessions st = map rowToEntry (newest_first (ss_sessions st))"

definition ascii_lower :: "string \<Rightarrow> string" where
  "ascii_lower s = map (\<lambda>c. let n = (of_char c :: nat) in if 65 \<le> n \<and> n \<le> 90 then char_of (n + 32) else c) s"

definition findSessionByChatId :: "session_store \<Rightarrow> string \<Rightarrow> session_entry option" where
  "findSessionByChatId st chatId =
     map_option rowToEntry (first_of (newest_first
       (filter (\<lambda>e. map_option ascii_lower (se_lastTo e) = Some (ascii_lower chatId) \<and> se_lastChannel e \<noteq> None)
         (ss_sessions st))))"

definition findSessionByAttributes :: "session_store \<Rightarrow> string \<Rightarrow> string \<Rightarrow> string \<Rightarrow> session_entry option" where
  "findSessionByAttributes st agentId channel groupId =
     map_option rowToEntry (first_of (newest_first
       (filter (\<lambda>e. se_agentId e = agentId \<and> se_channel e = Some channel \<and> se_groupId e = Some groupId)
         (ss_sessions st))))"

definition getMainSession :: "session_store \<Rightarrow> string \<Rightarrow> session_entry option" where
  "getMainSession st agentId =
     (let slug = strip_edges (CHR ''-'') (squash is_lower_alnum (CHR ''-'') (to_lower agentId)) in
      case find (\<lambda>e. se_name e = Some slug \<and> se_agentId e = agentId) (ss_sessions st) of
        Some row \<Rightarrow> Some (rowToEntry row)
      | None \<Rightarrow>
          map_option rowToEntry (first_of (newest_first
            (filter (\<lambda>e. se_agentId e = agentId \<and> suffix '':main'' (ascii_lower (se_sessionKey e)))
              (ss_sessions st)))))"

definition resolveSession :: "session_store \<Rightarrow> string \<Rightarrow> session_entry option" where
  "resolveSession st nameOrKey = orElse (getSessionByName st nameOrKey) (getSession st nameOrKey)"

section \<open>Creation\<close>

definition clear_provider :: "session_entry \<Rightarrow> session_entry" where
  "clear_provider e = e\<lparr>se_sdkSessionId := None, se_runtimeProvider := None, se_runtimeSessionParams := None,
     se_runtimeSessionDisplayId := None\<rparr>"

text \<open>\<open>serializeRuntimeSessionParams\<close> and back: an empty object is stored as no object.\<close>

definition stored_params :: "(string \<times> json) list option \<Rightarrow> (string \<times> json) list option" where
  "stored_params params = (case params of None \<Rightarrow> None | Some [] \<Rightarrow> None | Some kvs \<Rightarrow> Some kvs)"

text \<open>The row inserted for a session that has none of the optional fields.\<close>

definition blank_entry :: "string \<Rightarrow> string \<Rightarrow> string \<Rightarrow> int \<Rightarrow> session_entry" where
  "blank_entry key agentId agentCwd now =
     \<lparr>se_sessionKey = key, se_name = None, se_runtimeProvider = None, se_runtimeProviderOverride = None,
      se_runtimeSessionParams = None, se_runtimeSessionDisplayId = None, se_providerSessionId = None,
      se_sdkSessionId = None, se_sessionFile = None, se_updatedAt = now, se_createdAt = now,
      se_agentId = agentId, se_agentCwd = agentCwd, se_systemSent = Some False, se_abortedLastRun = Some False,
      se_compactionCount = Some 0, se_chatType = None, se_channel = None, se_accountId = None,
      se_groupId = None, se_subject = None, se_displayName = None, se_lastChannel = None, se_lastTo = None,
      se_lastAccountId = None, se_lastThreadId = None, se_lastContext = None, se_thinkingLevel = None,
      se_modelOverride = None, se_effortOverride = None, se_ttsAuto = None, se_queueMode = None,
      se_queueDebounceMs = None, se_queueCap = None, se_inputTokens = Some 0, se_outputTokens = Some 0,
      se_totalTokens = Some 0, se_contextTokens = Some 0, se_lastHeartbeatText = None,
      se_lastHeartbeatSentAt = None, se_ephemeral = Some False, se_expiresAt = None\<rparr>"

text \<open>The defaults are a partial entry; an absent default is an absent field.\<close>

definition insert_row :: "string \<Rightarrow> string \<Rightarrow> string \<Rightarrow> session_entry option \<Rightarrow> int \<Rightarrow> session_entry" where
  "insert_row key agentId agentCwd defaults now =
     (case defaults of
        None \<Rightarrow> blank_entry key agentId agentCwd now
      | Some d \<Rightarrow>
          (blank_entry key agentId agentCwd now)
            \<lparr>se_name := se_name d,
             se_sdkSessionId := orElse (se_providerSessionId d) (se_sdkSessionId d),
             se_runtimeProvider := se_runtimeProvider d,
             se_runtimeProviderOverride := se_runtimeProviderOverride d,
             se_runtimeSessionParams := stored_params (se_runtimeSessionParams d),
             se_runtimeSessionDisplayId :=
               orElse (se_runtimeSessionDisplayId d) (orElse (se_providerSessionId d) (se_sdkSessionId d)),
             se_chatType := se_chatType d, se_channel := se_channel d, se_accountId := se_accountId d,
             se_groupId := se_groupId d, se_subject := se_subject d, se_displayName := se_displayName d,
             se_lastChannel := se_lastChannel d, se_lastTo := se_lastTo d,
             se_lastAccountId := se_lastAccountId d, se_lastThreadId := se_lastThreadId d,
             se_modelOverride := se_modelOverride d, se_effortOverride := se_effortOverride d,
             se_thinkingLevel := se_thinkingLevel d, se_queueMode := se_queueMode d,
             se_queueDebounceMs := se_queueDebounceMs d, se_queueCap := se_queueCap d\<rparr>)"

text \<open>The row of a session whose agent moved is returned with its old time stamp, as in the source.\<close>

definition getOrCreateSession ::
  "int \<Rightarrow> string \<Rightarrow> string \<Rightarrow> string \<Rightarrow> session_entry option \<Rightarrow> session_store
     \<Rightarrow> store_error + (session_entry \<times> session_store)" where
  "getOrCreateSession now key agentId agentCwd defaults st =
     (case row_by_key key (ss_sessions st) of
        Some existing \<Rightarrow>
          if se_agentId existing \<noteq> agentId \<or> se_agentCwd existing \<noteq> agentCwd
          then Inr (rowToEntry (clear_provider (existing\<lparr>se_agentId := agentId, se_agentCwd := agentCwd\<rparr>)),
                    update_key key (\<lambda>e. (clear_provider e)\<lparr>se_agentId := agentId, se_agentCwd := agentCwd,
                                          se_updatedAt := now\<rparr>) st)
          else Inr (rowToEntry existing, st)
      | None \<Rightarrow>
          let row = insert_row key agentId agentCwd defaults now in
          if se_name row \<noteq> None \<and> isNameTaken st (nullish (se_name row) [])
          then Inl (UniqueNameViolation (nullish (se_name row) []))
          else Inr (rowToEntry row, st\<lparr>ss_sessions := ss_sessions st @ [row]\<rparr>))"

section \<open>Updates\<close>

definition updateSdkSessionId :: "int \<Rightarrow> string \<Rightarrow> string \<Rightarrow> session_store \<Rightarrow> session_store" where
  "updateSdkSessionId now key sdkSessionId st =
     update_key key (\<lambda>e. e\<lparr>se_sdkSessionId := Some sdkSessionId,
       se_runtimeSessionDisplayId := orElse (se_runtimeSessionDisplayId e) (Some sdkSessionId),
       se_updatedAt := now\<rparr>) st"

definition set_provider_state ::
  "int \<Rightarrow> string \<Rightarrow> string option \<Rightarrow> string option \<Rightarrow> (string \<times> json) list option \<Rightarrow> string option
     \<Rightarrow> session_store \<Rightarrow> session_store" where
  "set_provider_state now key sdkSessionId runtimeProvider params displayId st =
     update_key key (\<lambda>e. e\<lparr>se_sdkSessionId := sdkSessionId, se_runtimeProvider := runtimeProvider,
       se_runtimeSessionParams := stored_params params, se_runtimeSessionDisplayId := displayId,
       se_updatedAt := now\<rparr>) st"

definition updateProviderSession ::
  "int \<Rightarrow> string \<Rightarrow> string option \<Rightarrow> string \<Rightarrow> (string \<times> json) list option \<Rightarrow> string option
     \<Rightarrow> session_store \<Rightarrow> session_store" where
  "updateProviderSession now key runtimeProvider providerSessionId params displayId st =
     set_provider_state now key (Some providerSessionId) runtimeProvider params
       (orElse displayId (Some providerSessionId)) st"

definition updateRuntimeProviderState ::
  "int \<Rightarrow> string \<Rightarrow> string option \<Rightarrow> string option \<Rightarrow> (string \<times> json) list option \<Rightarrow> string option
     \<Rightarrow> session_store \<Rightarrow> session_store" where
  "updateRuntimeProviderState now key runtimeProvider providerSessionId params displayId st =
     (let trimmed = map_option trim providerSessionId in
      if \<not> truthy trimmed \<and> params = None \<and> displayId = None
      then update_key key (\<lambda>e. e\<lparr>se_runtimeProvider := runtimeProvider, se_updatedAt := now\<rparr>) st
      else
        let psid = (if truthy trimmed then trimmed else None) in
        set_provider_state now key psid runtimeProvider params (orElse displayId psid) st)"

definition updateProviderSessionId ::
  "int \<Rightarrow> string \<Rightarrow> string \<Rightarrow> string option \<Rightarrow> session_store \<Rightarrow> session_store" where
  "updateProviderSessionId now key providerSessionId runtimeProvider st =
     (if truthy runtimeProvider
      then updateProviderSession now key runtimeProvider providerSessionId None None st
      else updateSdkSessionId now key providerSessionId st)"

definition updateSessionRuntimeProviderOverride ::
  "int \<Rightarrow> string \<Rightarrow> string option \<Rightarrow> session_store \<Rightarrow> session_store" where
  "updateSessionRuntimeProviderOverride now key runtimeProvider st =
     update_key key (\<lambda>e. e\<lparr>se_runtimeProviderOverride := runtimeProvider, se_updatedAt := now\<rparr>) st"

definition clearProviderSession :: "int \<Rightarrow> string \<Rightarrow> session_store \<Rightarrow> session_store" where
  "clearProviderSession now key st = update_key key (\<lambda>e. (clear_provider e)\<lparr>se_updatedAt := now\<rparr>) st"

text \<open>The token columns are never null.\<close>

definition add_tokens :: "int \<Rightarrow> int option \<Rightarrow> int option" where
  "add_tokens n v = map_option ((+) n) v"

definition updateTokens :: "int \<Rightarrow> string \<Rightarrow> int \<Rightarrow> int \<Rightarrow> int option \<Rightarrow> session_store \<Rightarrow> session_store" where
  "updateTokens now key input output context st =
     update_key key (\<lambda>e. e\<lparr>se_inputTokens := add_tokens input (se_inputTokens e),
       se_outputTokens := add_tokens output (se_outputTokens e),
       se_totalTokens := add_tokens (input + output) (se_totalTokens e),
       se_contextTokens := Some (nullish context 0), se_updatedAt := now\<rparr>) st"

text \<open>Whether a row was changed or deleted is \<open>getDbChanges() > 0\<close>.\<close>

definition has_key :: "session_store \<Rightarrow> string \<Rightarrow> bool" where
  "has_key st key \<longleftrightarrow> row_by_key key (ss_sessions st) \<noteq> None"

definition deleteSession :: "string \<Rightarrow> session_store \<Rightarrow> bool \<times> session_store" where
  "deleteSession key st =
     (has_key st key, st\<lparr>ss_sessions := filter (\<lambda>e. se_sessionKey e \<noteq> key) (ss_sessions st)\<rparr>)"

definition deleteSessionByName :: "string \<Rightarrow> session_store \<Rightarrow> bool \<times> session_store" where
  "deleteSessionByName name st =
     (isNameTaken st name, st\<lparr>ss_sessions := filter (\<lambda>e. se_name e \<noteq> Some name) (ss_sessions st)\<rparr>)"

definition reset_entry :: "int \<Rightarrow> session_entry \<Rightarrow> session_entry" where
  "reset_entry now e =
     (clear_provider e)\<lparr>se_systemSent := Some False, se_abortedLastRun := Some False, se_compactionCount := Some 0,
       se_inputTokens := Some 0, se_outputTokens := Some 0, se_totalTokens := Some 0,
       se_contextTokens := Some 0, se_updatedAt := now\<rparr>"

definition resetSession :: "int \<Rightarrow> string \<Rightarrow> session_store \<Rightarrow> bool \<times> session_store" where
  "resetSession now key st = (has_key st key, update_key key (reset_entry now) st)"

definition updateSessionSource ::
  "int \<Rightarrow> string \<Rightarrow> string option \<Rightarrow> string option \<Rightarrow> string option \<Rightarrow> session_store \<Rightarrow> session_store" where
  "updateSessionSource now key channel accountId chatId st =
     (if \<not> truthy channel \<and> \<not> truthy accountId \<and> \<not> truthy chatId then st
      else update_key key (\<lambda>e. e\<lparr>se_lastChannel := channel, se_lastAccountId := accountId, se_lastTo := chatId,
             se_updatedAt := now\<rparr>) st)"

definition updateSessionThreadId :: "int \<Rightarrow> string \<Rightarrow> string option \<Rightarrow> session_store \<Rightarrow> session_store" where
  "updateSessionThreadId now key threadId st =
     update_key key (\<lambda>e. e\<lparr>se_lastThreadId := threadId, se_updatedAt := now\<rparr>) st"

definition updateSessionDisplayName :: "int \<Rightarrow> string \<Rightarrow> string \<Rightarrow> session_store \<Rightarrow> session_store" where
  "updateSessionDisplayName now key displayName st =
     update_key key (\<lambda>e. e\<lparr>se_displayName := Some displayName, se_updatedAt := now\<rparr>) st"

text \<open>The context is given as the text it is stored as.\<close>

definition updateSessionContext :: "int \<Rightarrow> string \<Rightarrow> string \<Rightarrow> session_store \<Rightarrow> session_store" where
  "updateSessionContext now key contextJson st =
     update_key key (\<lambda>e. e\<lparr>se_lastContext := Some contextJson, se_updatedAt := now\<rparr>) st"

definition updateSessionModelOverride :: "int \<Rightarrow> string \<Rightarrow> string option \<Rightarrow> session_store \<Rightarrow> session_store" where
  "updateSessionModelOverride now key model st =
     update_key key (\<lambda>e. e\<lparr>se_modelOverride := model, se_updatedAt := now\<rparr>) st"

definition updateSessionEffortOverride :: "int \<Rightarrow> string \<Rightarrow> string option \<Rightarrow> session_store \<Rightarrow> session_store" where
  "updateSessionEffortOverride now key effort st =
     update_key key (\<lambda>e. e\<lparr>se_effortOverride := effort, se_updatedAt := now\<rparr>) st"

definition updateSessionThinkingLevel :: "int \<Rightarrow> string \<Rightarrow> string option \<Rightarrow> session_store \<Rightarrow> session_store" where
  "updateSessionThinkingLevel now key level st =
     update_key key (\<lambda>e. e\<lparr>se_thinkingLevel := level, se_updatedAt := now\<rparr>) st"

definition updateSessionHeartbeat :: "int \<Rightarrow> string \<Rightarrow> string \<Rightarrow> session_store \<Rightarrow> session_store" where
  "updateSessionHeartbeat now key t st =
     update_key key (\<lambda>e. e\<lparr>se_lastHeartbeatText := Some t, se_lastHeartbeatSentAt := Some now,
       se_updatedAt := now\<rparr>) st"

section \<open>Names\<close>

text \<open>
  \<open>set_name\<close> is the statement \<open>updateName\<close>: it fails on the unique index when another row
  has the name. A key that is not in the table changes nothing.
\<close>

definition set_name :: "int \<Rightarrow> string \<Rightarrow> string \<Rightarrow> session_store \<Rightarrow> store_error + session_store" where
  "set_name now key name st =
     (if has_key st key \<and> list_ex (\<lambda>e. se_name e = Some name \<and> se_sessionKey e \<noteq> key) (ss_sessions st)
      then Inl (UniqueNameViolation name)
      else Inr (update_key key (\<lambda>e. e\<lparr>se_name := Some name, se_updatedAt := now\<rparr>) st))"

definition updateSessionName :: "int \<Rightarrow> string \<Rightarrow> string \<Rightarrow> session_store \<Rightarrow> store_error + session_store" where
  "updateSessionName now key name st =
     (case normalizeCanonicalSessionName name of
        Inl err \<Rightarrow> Inl (BadName err)
      | Inr normalized \<Rightarrow> set_name now key normalized st)"

definition renames_route :: "string \<Rightarrow> route_row \<Rightarrow> bool" where
  "renames_route oldName r \<longleftrightarrow> rc_session (rw_config r) = Some oldName \<and> rw_deletedAt r = None"

definition dbRenameRouteSessionName :: "int \<Rightarrow> string \<Rightarrow> string \<Rightarrow> session_store \<Rightarrow> nat \<times> session_store" where
  "dbRenameRouteSessionName now oldName newName st =
     (length (filter (renames_route oldName) (ss_routes st)),
      st\<lparr>ss_routes := map (\<lambda>r. if renames_route oldName r
                              then r\<lparr>rw_config := (rw_config r)\<lparr>rc_session := Some newName\<rparr>, rw_updatedAt := now\<rparr>
                              else r) (ss_routes st)\<rparr>)"

record rename_result =
  rn_before :: session_entry
  rn_after :: session_entry
  rn_oldName :: "string option"
  rn_newName :: string
  rn_changed :: bool
  rn_routeReferencesUpdated :: nat

definition renameSessionName ::
  "int \<Rightarrow> string \<Rightarrow> string \<Rightarrow> session_store \<Rightarrow> store_error + (rename_result \<times> session_store)" where
  "renameSessionName now key name st =
     (case getSession st key of
        None \<Rightarrow> Inl (SessionNotFound key)
      | Some before \<Rightarrow>
          (case normalizeCanonicalSessionName name of
             Inl err \<Rightarrow> Inl (BadName err)
           | Inr newName \<Rightarrow>
               (case getSessionByName st newName of
                  Some existing \<Rightarrow>
                    if se_sessionKey existing \<noteq> key then Inl (NameExists newName)
                    else Inr (\<lparr>rn_before = before, rn_after = before, rn_oldName = se_name before,
                               rn_newName = newName, rn_changed = False, rn_routeReferencesUpdated = 0\<rparr>, st)
                | None \<Rightarrow>
                    (case set_name now key newName st of
                       Inl err \<Rightarrow> Inl err
                     | Inr st1 \<Rightarrow>
                         (let (n, st2) = (if truthy (se_name before)
                                then dbRenameRouteSessionName now (nullish (se_name before) []) newName st1
                                else (0, st1))
                          in case getSession st2 key of
                               None \<Rightarrow> Inl (SessionNotFound key)
                             | Some after \<Rightarrow>
                                 Inr (\<lparr>rn_before = before, rn_after = after, rn_oldName = se_name before,
                                       rn_newName = newName, rn_changed = True,
                                       rn_routeReferencesUpdated = n\<rparr>, st2))))))"

section \<open>Ephemeral sessions\<close>

definition setSessionEphemeral :: "int \<Rightarrow> string \<Rightarrow> int \<Rightarrow> session_store \<Rightarrow> session_store" where
  "setSessionEphemeral now key ttlMs st =
     update_key key (\<lambda>e. e\<lparr>se_ephemeral := Some True, se_expiresAt := Some (now + ttlMs), se_updatedAt := now\<rparr>) st"

definition extendSession :: "int \<Rightarrow> string \<Rightarrow> int \<Rightarrow> session_store \<Rightarrow> bool \<times> session_store" where
  "extendSession now nameOrKey ttlMs st =
     (case resolveSession st nameOrKey of
        None \<Rightarrow> (False, st)
      | Some session \<Rightarrow>
          (let newExpiry = max (nullish (se_expiresAt session) now) now + ttlMs
           in (True, update_key (se_sessionKey session)
                 (\<lambda>e. e\<lparr>se_expiresAt := Some newExpiry, se_updatedAt := now\<rparr>) st)))"

definition makeSessionPermanent :: "int \<Rightarrow> string \<Rightarrow> session_store \<Rightarrow> bool \<times> session_store" where
  "makeSessionPermanent now nameOrKey st =
     (case resolveSession st nameOrKey of
        None \<Rightarrow> (False, st)
      | Some session \<Rightarrow>
          (True, update_key (se_sessionKey session)
             (\<lambda>e. e\<lparr>se_ephemeral := Some False, se_expiresAt := None, se_updatedAt := now\<rparr>) st))"

definition expireEphemeralSession :: "int \<Rightarrow> string \<Rightarrow> session_store \<Rightarrow> bool \<times> session_store" where
  "expireEphemeralSession now key st =
     (has_key st key,
      update_key key (\<lambda>e. e\<lparr>se_ephemeral := Some True, se_expiresAt := Some now, se_updatedAt := now\<rparr>) st)"

definition getExpiringSessions :: "int \<Rightarrow> int \<Rightarrow> session_store \<Rightarrow> session_entry list" where
  "getExpiringSessions now withinMs st =
     map rowToEntry (filter (\<lambda>e. se_ephemeral e = Some True \<and>
       (case se_expiresAt e of None \<Rightarrow> False | Some t \<Rightarrow> t \<le> now + withinMs \<and> t > now)) (ss_sessions st))"

definition getExpiredSessions :: "int \<Rightarrow> session_store \<Rightarrow> session_entry list" where
  "getExpiredSessions now st =
     map rowToEntry (filter (\<lambda>e. se_ephemeral e = Some True \<and>
       (case se_expiresAt e of None \<Rightarrow> False | Some t \<Rightarrow> t \<le> now)) (ss_sessions st))"

section \<open>The invariant of the store\<close>

text \<open>Keys are unique and so are the names that are set, as the primary key and the unique index demand.\<close>

definition store_ok :: "session_store \<Rightarrow> bool" where
  "store_ok st \<longleftrightarrow> distinct (map se_sessionKey (ss_sessions st))
     \<and> (\<forall>e \<in> set (ss_sessions st). \<forall>d \<in> set (ss_sessions st).
          se_name e = se_name d \<and> se_name e \<noteq> None \<longrightarrow> se_sessionKey e = se_sessionKey d)"

lemma rowToEntry_simps [simp]:
  "se_sessionKey (rowToEntry e) = se_sessionKey e" "se_name (rowToEntry e) = se_name e"
  "se_agentId (rowToEntry e) = se_agentId e" "se_agentCwd (rowToEntry e) = se_agentCwd e"
  "se_ephemeral (rowToEntry e) = se_ephemeral e" "se_expiresAt (rowToEntry e) = se_expiresAt e"
  "se_sdkSessionId (rowToEntry e) = se_sdkSessionId e" "se_runtimeProvider (rowToEntry e) = se_runtimeProvider e"
  "se_runtimeSessionParams (rowToEntry e) = se_runtimeSessionParams e"
  "se_runtimeSessionDisplayId (rowToEntry e) = se_runtimeSessionDisplayId e"
  "se_providerSessionId (rowToEntry e) = orElse (se_runtimeSessionDisplayId e) (se_sdkSessionId e)"
  by (simp_all add: rowToEntry_def)

lemma rowToEntry_idem [simp]: "rowToEntry (rowToEntry e) = rowToEntry e"
  by (simp add: rowToEntry_def)

lemma find_key_unique:
  "distinct (map se_sessionKey es) \<Longrightarrow> e \<in> set es \<Longrightarrow> find (\<lambda>x. se_sessionKey x = se_sessionKey e) es = Some e"
  by (induction es) (auto simp: image_iff)

lemma row_by_key_Some: "row_by_key k es = Some e \<Longrightarrow> e \<in> set es \<and> se_sessionKey e = k"
  by (auto simp: row_by_key_def find_Some_iff)

lemma row_by_name_Some: "row_by_name n es = Some e \<Longrightarrow> e \<in> set es \<and> se_name e = Some n"
  by (auto simp: row_by_name_def find_Some_iff)

lemma row_by_key_None: "row_by_key k es = None \<longleftrightarrow> k \<notin> se_sessionKey ` set es"
  by (auto simp: row_by_key_def find_None_iff)

lemma row_by_name_None: "row_by_name n es = None \<longleftrightarrow> Some n \<notin> se_name ` set es"
  by (auto simp: row_by_name_def find_None_iff image_iff)

lemma row_by_key_iff:
  "store_ok st \<Longrightarrow> row_by_key k (ss_sessions st) = Some e \<longleftrightarrow> e \<in> set (ss_sessions st) \<and> se_sessionKey e = k"
  using find_key_unique [of "ss_sessions st" e] row_by_key_Some [of k "ss_sessions st" e]
  by (auto simp: store_ok_def row_by_key_def)

lemma ss_sessions_upd: "ss_sessions (st\<lparr>ss_sessions := xs\<rparr>) = xs"
  by simp

lemma set_update_key: "set (ss_sessions (update_key k f st)) = (\<lambda>e. if se_sessionKey e = k then f e else e) ` set (ss_sessions st)"
  by (simp add: update_key_def)

lemma store_ok_key: "store_ok st \<Longrightarrow> e \<in> set (ss_sessions st) \<Longrightarrow> d \<in> set (ss_sessions st) \<Longrightarrow>
    se_sessionKey e = se_sessionKey d \<Longrightarrow> e = d"
  unfolding store_ok_def distinct_map inj_on_def by blast

lemma store_ok_name: "store_ok st \<Longrightarrow> e \<in> set (ss_sessions st) \<Longrightarrow> d \<in> set (ss_sessions st) \<Longrightarrow>
    se_name e = Some n \<Longrightarrow> se_name d = Some n \<Longrightarrow> e = d"
proof (rule store_ok_key)
  assume *: "store_ok st" "e \<in> set (ss_sessions st)" "d \<in> set (ss_sessions st)"
    "se_name e = Some n" "se_name d = Some n"
  from *(1) have "\<forall>e \<in> set (ss_sessions st). \<forall>d \<in> set (ss_sessions st).
          se_name e = se_name d \<and> se_name e \<noteq> None \<longrightarrow> se_sessionKey e = se_sessionKey d"
    unfolding store_ok_def by (rule conjunct2)
  from bspec [OF bspec [OF this *(2)] *(3)] *(4,5) show "se_sessionKey e = se_sessionKey d" by simp
qed

lemma row_by_name_iff:
  assumes "store_ok st"
  shows "row_by_name n (ss_sessions st) = Some e \<longleftrightarrow> e \<in> set (ss_sessions st) \<and> se_name e = Some n"
proof
  assume e: "e \<in> set (ss_sessions st) \<and> se_name e = Some n"
  then have "Some n \<in> se_name ` set (ss_sessions st)" by (metis imageI)
  then obtain d where d: "row_by_name n (ss_sessions st) = Some d"
    using row_by_name_None [of n "ss_sessions st"] by (cases "row_by_name n (ss_sessions st)") simp_all
  then have "d \<in> set (ss_sessions st)" "se_name d = Some n" by (simp_all add: row_by_name_Some)
  then have "d = e" using e store_ok_name [OF assms] by blast
  with d show "row_by_name n (ss_sessions st) = Some e" by simp
qed (rule row_by_name_Some)

lemma update_key_keys [simp]:
  "(\<And>e. se_sessionKey (f e) = se_sessionKey e) \<Longrightarrow>
     map se_sessionKey (ss_sessions (update_key k f st)) = map se_sessionKey (ss_sessions st)"
  by (simp add: update_key_def)

lemma update_key_ok:
  assumes "\<And>e. se_sessionKey (f e) = se_sessionKey e" "\<And>e. se_name (f e) = se_name e" "store_ok st"
  shows "store_ok (update_key k f st)"
proof -
  have "map se_sessionKey (ss_sessions (update_key k f st)) = map se_sessionKey (ss_sessions st)"
    using assms(1) by simp
  moreover have "\<exists>d \<in> set (ss_sessions st). se_name e = se_name d \<and> se_sessionKey e = se_sessionKey d"
    if "e \<in> set (ss_sessions (update_key k f st))" for e
    using that assms(1,2) by (auto simp: update_key_def)
  ultimately show ?thesis using assms(3) unfolding store_ok_def by metis
qed

lemma update_key_routes [simp]: "ss_routes (update_key k f st) = ss_routes st"
  by (simp add: update_key_def)

lemma row_by_key_update:
  "(\<And>e. se_sessionKey (f e) = se_sessionKey e) \<Longrightarrow>
     row_by_key k' (ss_sessions (update_key k f st))
       = map_option (\<lambda>e. if k' = k then f e else e) (row_by_key k' (ss_sessions st))"
proof -
  assume f: "\<And>e. se_sessionKey (f e) = se_sessionKey e"
  have "find (\<lambda>e. se_sessionKey e = k') (map (\<lambda>e. if se_sessionKey e = k then f e else e) es)
      = map_option (\<lambda>e. if k' = k then f e else e) (find (\<lambda>e. se_sessionKey e = k') es)" for es
    using f by (induction es) auto
  then show ?thesis by (simp add: row_by_key_def update_key_def)
qed

lemma store_ok_subset:
  assumes "store_ok st" "ss_sessions st' = filter P (ss_sessions st)"
  shows "store_ok st'"
  using assms by (auto simp: store_ok_def distinct_map_filter)

lemma store_ok_insert:
  assumes ok: "store_ok st" and key: "row_by_key (se_sessionKey row) (ss_sessions st) = None"
    and name: "se_name row = None \<or> \<not> isNameTaken st (nullish (se_name row) [])"
  shows "store_ok (st\<lparr>ss_sessions := ss_sessions st @ [row]\<rparr>)"
proof -
  have new: "se_name d \<noteq> se_name row" if "d \<in> set (ss_sessions st)" "se_name row \<noteq> None" for d
  proof -
    from name that(2) obtain n where n: "se_name row = Some n" "\<not> isNameTaken st n" by auto
    then have "Some n \<notin> se_name ` set (ss_sessions st)" by (simp add: isNameTaken_def row_by_name_None)
    with that n show ?thesis by (metis imageI)
  qed
  have "se_sessionKey row \<notin> se_sessionKey ` set (ss_sessions st)" using key by (simp add: row_by_key_None)
  then have "distinct (map se_sessionKey (ss_sessions st @ [row]))"
    using ok by (simp add: store_ok_def del: in_image_insert_iff)
  moreover have "se_sessionKey e = se_sessionKey d"
    if "e \<in> set (ss_sessions st @ [row])" "d \<in> set (ss_sessions st @ [row])" "se_name e = se_name d" "se_name e \<noteq> None" for e d
  proof -
    consider "e = row \<and> d = row" | "e \<in> set (ss_sessions st) \<and> d = row" | "e = row \<and> d \<in> set (ss_sessions st)"
      | "e \<in> set (ss_sessions st) \<and> d \<in> set (ss_sessions st)"
      using \<open>e \<in> set (ss_sessions st @ [row])\<close> \<open>d \<in> set (ss_sessions st @ [row])\<close> by (simp add: Un_iff) blast
    then show ?thesis
    proof cases
      case 4
      then show ?thesis
        using that(3,4) store_ok_name [OF ok, of e d "the (se_name e)"] by (metis option.collapse)
    qed (use new that(3,4) in metis)+
  qed
  ultimately show ?thesis unfolding store_ok_def ss_sessions_upd by blast
qed

lemma insert_row_key [simp]: "se_sessionKey (insert_row k a c d now) = k"
  by (simp add: insert_row_def blank_entry_def split: option.split)

lemma getOrCreate_ok:
  assumes "getOrCreateSession now k a c d st = Inr (e, st')" "store_ok st"
  shows "store_ok st'"
proof (cases "row_by_key k (ss_sessions st)")
  case None
  then have "st' = st\<lparr>ss_sessions := ss_sessions st @ [insert_row k a c d now]\<rparr>"
    "se_name (insert_row k a c d now) = None \<or> \<not> isNameTaken st (nullish (se_name (insert_row k a c d now)) [])"
    using assms(1) by (simp_all add: getOrCreateSession_def Let_def split: if_splits)
  with assms(2) None show ?thesis by (simp add: store_ok_insert)
next
  case (Some old)
  then have "st' = st \<or> st' = update_key k (\<lambda>e. (clear_provider e)\<lparr>se_agentId := a, se_agentCwd := c, se_updatedAt := now\<rparr>) st"
    using assms(1) by (simp add: getOrCreateSession_def split: if_splits)
  moreover have "store_ok (update_key k (\<lambda>e. (clear_provider e)\<lparr>se_agentId := a, se_agentCwd := c, se_updatedAt := now\<rparr>) st)"
    by (rule update_key_ok [OF _ _ assms(2)]) (simp_all add: clear_provider_def)
  ultimately show ?thesis using assms(2) by metis
qed

lemma set_name_ok:
  assumes "set_name now k n st = Inr st'" "store_ok st"
  shows "store_ok st'"
proof -
  let ?f = "\<lambda>e. e\<lparr>se_name := Some n, se_updatedAt := now\<rparr>"
  have st': "st' = update_key k ?f st"
    and free: "\<forall>e \<in> set (ss_sessions st). has_key st k \<longrightarrow> se_name e = Some n \<longrightarrow> se_sessionKey e = k"
    using assms(1) by (auto simp: set_name_def list_ex_iff split: if_splits)
  have keys: "map se_sessionKey (ss_sessions st') = map se_sessionKey (ss_sessions st)" by (simp add: st')
  show ?thesis unfolding store_ok_def keys
  proof (intro conjI ballI impI)
    show "distinct (map se_sessionKey (ss_sessions st))" using assms(2) by (simp add: store_ok_def)
    fix e d assume ed: "e \<in> set (ss_sessions st')" "d \<in> set (ss_sessions st')" "se_name e = se_name d \<and> se_name e \<noteq> None"
    then obtain e0 where e0: "e0 \<in> set (ss_sessions st)" "e = (if se_sessionKey e0 = k then ?f e0 else e0)"
      unfolding st' set_update_key by blast
    from ed obtain d0 where d0: "d0 \<in> set (ss_sessions st)" "d = (if se_sessionKey d0 = k then ?f d0 else d0)"
      unfolding st' set_update_key by blast
    have keys: "se_sessionKey e = se_sessionKey e0" "se_sessionKey d = se_sessionKey d0"
      using e0(2) d0(2) by simp_all
    have has: "has_key st k" if "se_sessionKey e0 = k \<or> se_sessionKey d0 = k"
      using that e0(1) d0(1) by (auto simp: has_key_def row_by_key_None image_iff)
    consider "se_sessionKey e0 = k" "se_sessionKey d0 = k" | "se_sessionKey e0 = k" "se_sessionKey d0 \<noteq> k"
      | "se_sessionKey e0 \<noteq> k" "se_sessionKey d0 = k" | "se_sessionKey e0 \<noteq> k" "se_sessionKey d0 \<noteq> k" by blast
    then show "se_sessionKey e = se_sessionKey d"
    proof cases
      case 1
      with keys show ?thesis by simp
    next
      case 2
      then have "se_name d0 = Some n" using ed(3) e0(2) d0(2) by simp
      with free d0(1) has 2 show ?thesis by blast
    next
      case 3
      then have "se_name e0 = Some n" using ed(3) e0(2) d0(2) by simp
      with free e0(1) has 3 show ?thesis by blast
    next
      case 4
      then have "e = e0" "d = d0" using e0(2) d0(2) by simp_all
      then have "e0 = d0"
        using ed(3) store_ok_name [OF assms(2) e0(1) d0(1), of "the (se_name e)"] by (metis option.collapse)
      then show ?thesis using \<open>e = e0\<close> \<open>d = d0\<close> by simp
    qed
  qed
qed

lemma store_ok_routes: "store_ok (st\<lparr>ss_routes := rs\<rparr>) = store_ok st"
  by (simp add: store_ok_def)

lemma rename_route_sessions [simp]: "ss_sessions (snd (dbRenameRouteSessionName now o' n st)) = ss_sessions st"
  by (simp add: dbRenameRouteSessionName_def)

lemma rename_route_ok [simp]: "store_ok (snd (dbRenameRouteSessionName now o' n st)) = store_ok st"
  by (simp add: dbRenameRouteSessionName_def store_ok_routes)

lemma rename_cases:
  assumes "renameSessionName now k n st = Inr (r, st')"
  obtains (same) "st' = st" "\<not> rn_changed r"
  | (renamed) new before st1 where "getSession st k = Some before" "normalizeCanonicalSessionName n = Inr new"
      "getSessionByName st new = None" "set_name now k new st = Inr st1" "rn_changed r" "rn_newName r = new"
      "rn_oldName r = se_name before"
      "st' = (if truthy (se_name before) then snd (dbRenameRouteSessionName now (nullish (se_name before) []) new st1) else st1)"
  using assms unfolding renameSessionName_def
  by (force split: option.splits sum.splits if_splits prod.splits)

lemma rename_ok: "renameSessionName now k n st = Inr (r, st') \<Longrightarrow> store_ok st \<Longrightarrow> store_ok st'"
  by (erule rename_cases) (auto dest: set_name_ok)

section \<open>Runs of the store\<close>

text \<open>The operations that change the store, at any arguments; a failed write changes nothing.\<close>

inductive store_step :: "session_store \<Rightarrow> session_store \<Rightarrow> bool" where
  create: "getOrCreateSession now k a c d st = Inr (e, st') \<Longrightarrow> store_step st st'"
| sdk_id: "store_step st (updateSdkSessionId now k s st)"
| provider: "store_step st (updateProviderSession now k p s ps di st)"
| provider_state: "store_step st (updateRuntimeProviderState now k p so ps di st)"
| provider_id: "store_step st (updateProviderSessionId now k s p st)"
| provider_override: "store_step st (updateSessionRuntimeProviderOverride now k p st)"
| clear_provider: "store_step st (clearProviderSession now k st)"
| tokens: "store_step st (updateTokens now k i o' cx st)"
| delete_key: "store_step st (snd (deleteSession k st))"
| delete_name: "store_step st (snd (deleteSessionByName n st))"
| reset: "store_step st (snd (resetSession now k st))"
| source: "store_step st (updateSessionSource now k ch ac cid st)"
| thread: "store_step st (updateSessionThreadId now k t st)"
| display_name: "store_step st (updateSessionDisplayName now k dn st)"
| context_text: "store_step st (updateSessionContext now k cj st)"
| model: "store_step st (updateSessionModelOverride now k m st)"
| effort: "store_step st (updateSessionEffortOverride now k ef st)"
| thinking: "store_step st (updateSessionThinkingLevel now k lv st)"
| heartbeat: "store_step st (updateSessionHeartbeat now k hb st)"
| name: "updateSessionName now k n st = Inr st' \<Longrightarrow> store_step st st'"
| rename: "renameSessionName now k n st = Inr (r, st') \<Longrightarrow> store_step st st'"
| ephemeral: "store_step st (setSessionEphemeral now k ttl st)"
| extend: "store_step st (snd (extendSession now nk ttl st))"
| permanent: "store_step st (snd (makeSessionPermanent now nk st))"
| expire: "store_step st (snd (expireEphemeralSession now k st))"

inductive store_reachable :: "session_store \<Rightarrow> bool" where
  empty: "ss_sessions st = [] \<Longrightarrow> store_reachable st"
| step: "store_reachable st \<Longrightarrow> store_step st st' \<Longrightarrow> store_reachable st'"

inductive_cases store_stepE: "store_step st st'"

lemmas field_updates = updateSdkSessionId_def updateProviderSession_def updateRuntimeProviderState_def
  updateProviderSessionId_def set_provider_state_def updateSessionRuntimeProviderOverride_def
  clearProviderSession_def clear_provider_def updateTokens_def resetSession_def reset_entry_def
  updateSessionSource_def updateSessionThreadId_def updateSessionDisplayName_def updateSessionContext_def
  updateSessionModelOverride_def updateSessionEffortOverride_def updateSessionThinkingLevel_def
  updateSessionHeartbeat_def setSessionEphemeral_def expireEphemeralSession_def

lemma field_update_ok:
  assumes "store_ok st"
  shows "store_ok (updateSdkSessionId now k s st)" "store_ok (updateProviderSession now k p s ps di st)"
    "store_ok (updateSessionRuntimeProviderOverride now k p st)" "store_ok (clearProviderSession now k st)"
    "store_ok (updateTokens now k i o' cx st)" "store_ok (snd (resetSession now k st))"
    "store_ok (updateSessionSource now k ch ac cid st)" "store_ok (updateSessionThreadId now k t st)"
    "store_ok (updateSessionDisplayName now k dn st)" "store_ok (updateSessionContext now k cj st)"
    "store_ok (updateSessionModelOverride now k m st)" "store_ok (updateSessionEffortOverride now k ef st)"
    "store_ok (updateSessionThinkingLevel now k lv st)" "store_ok (updateSessionHeartbeat now k hb st)"
    "store_ok (setSessionEphemeral now k ttl st)" "store_ok (snd (expireEphemeralSession now k st))"
    "store_ok (updateRuntimeProviderState now k p so ps di st)" "store_ok (updateProviderSessionId now k s p st)"
  using assms by (simp_all add: field_updates update_key_ok Let_def)

lemma delete_ok: "store_ok st \<Longrightarrow> store_ok (snd (deleteSession k st))" "store_ok st \<Longrightarrow> store_ok (snd (deleteSessionByName n st))"
  by (erule store_ok_subset, simp add: deleteSession_def deleteSessionByName_def)+

lemma extend_ok: "store_ok st \<Longrightarrow> store_ok (snd (extendSession now nk ttl st))"
  "store_ok st \<Longrightarrow> store_ok (snd (makeSessionPermanent now nk st))"
  by (simp_all add: extendSession_def makeSessionPermanent_def update_key_ok Let_def split: option.split)

lemma update_name_ok: "updateSessionName now k n st = Inr st' \<Longrightarrow> store_ok st \<Longrightarrow> store_ok st'"
  by (auto simp: updateSessionName_def dest: set_name_ok split: sum.splits)

lemma store_step_ok: "store_step st st' \<Longrightarrow> store_ok st \<Longrightarrow> store_ok st'"
proof (induction rule: store_step.induct)
  case create
  then show ?case by (rule getOrCreate_ok)
next
  case name
  then show ?case by (rule update_name_ok)
next
  case rename
  then show ?case by (rule rename_ok)
qed (assumption | rule field_update_ok delete_ok extend_ok)+

lemma store_reachable_invariant: "store_reachable st \<Longrightarrow> store_ok st"
proof (induction rule: store_reachable.induct)
  case (empty st)
  then show ?case by (simp add: store_ok_def)
qed (rule store_step_ok)

lemma getSessionE:
  assumes "getSession st k = Some e" "store_ok st"
  obtains r where "r \<in> set (ss_sessions st)" "se_sessionKey r = k" "rowToEntry r = e"
proof -
  obtain r where "row_by_key k (ss_sessions st) = Some r" "rowToEntry r = e"
    using assms(1) unfolding getSession_def map_option_eq_Some by (elim exE conjE)
  with row_by_key_Some that show ?thesis by metis
qed

lemma getSessionByNameE:
  assumes "getSessionByName st n = Some e" "store_ok st"
  obtains r where "r \<in> set (ss_sessions st)" "se_name r = Some n" "rowToEntry r = e"
proof -
  obtain r where "row_by_name n (ss_sessions st) = Some r" "rowToEntry r = e"
    using assms(1) unfolding getSessionByName_def map_option_eq_Some by (elim exE conjE)
  with row_by_name_Some that show ?thesis by metis
qed

lemma getSession_row: "store_ok st \<Longrightarrow> r \<in> set (ss_sessions st) \<Longrightarrow> getSession st (se_sessionKey r) = Some (rowToEntry r)"
  unfolding getSession_def map_option_eq_Some by (intro exI [of _ r] conjI refl) (simp add: row_by_key_iff)

lemma getSessionByName_row:
  "store_ok st \<Longrightarrow> r \<in> set (ss_sessions st) \<Longrightarrow> se_name r = Some n \<Longrightarrow> getSessionByName st n = Some (rowToEntry r)"
  unfolding getSessionByName_def map_option_eq_Some by (intro exI [of _ r] conjI refl) (simp add: row_by_name_iff)

text \<open>C32: however the store is used, keys and names stay unique: two sessions never share a key or a name,
  and the session found by its name is the session found by its key.\<close>

theorem session_store_unique:
  assumes "store_reachable st"
  shows "distinct (map se_sessionKey (ss_sessions st))
     \<and> (getSessionByName st n = Some e \<longrightarrow> getSession st (se_sessionKey e) = Some e)
     \<and> (getSessionByName st n = Some e \<longrightarrow> getSession st k = Some d \<longrightarrow> se_name d = Some n \<longrightarrow> d = e)"
proof -
  have ok: "store_ok st" using assms by (rule store_reachable_invariant)
  have "d = e" if e: "getSessionByName st n = Some e" and d: "getSession st k = Some d" and n: "se_name d = Some n"
  proof -
    obtain r where r: "r \<in> set (ss_sessions st)" "se_name r = Some n" "rowToEntry r = e"
      using e ok by (rule getSessionByNameE)
    obtain q where q: "q \<in> set (ss_sessions st)" "rowToEntry q = d" using d ok by (rule getSessionE)
    have "se_name q = Some n" using n unfolding q(2) [symmetric] by simp
    then have "q = r" by (rule store_ok_name [OF ok q(1) r(1) _ r(2)])
    show ?thesis unfolding q(2) [symmetric] r(3) [symmetric] \<open>q = r\<close> by (rule refl)
  qed
  moreover have "getSession st (se_sessionKey e) = Some e" if e: "getSessionByName st n = Some e"
  proof -
    obtain r where r: "r \<in> set (ss_sessions st)" "rowToEntry r = e"
      using e ok by (rule getSessionByNameE)
    show ?thesis using getSession_row [OF ok r(1)] unfolding r(2) [symmetric] by simp
  qed
  moreover have "distinct (map se_sessionKey (ss_sessions st))" using ok by (simp add: store_ok_def)
  ultimately show ?thesis by (intro conjI impI)
qed

theorem session_store_unique_witness:
  "\<exists>st e. store_reachable st \<and> getSessionByName st ''main'' = Some e \<and> getSession st (se_sessionKey e) = Some e"
proof -
  define st0 :: session_store where "st0 = \<lparr>ss_sessions = [], ss_routes = []\<rparr>"
  define st1 where "st1 = \<lparr>ss_sessions = [blank_entry ''agent:main:main'' ''main'' ''/w'' 1], ss_routes = []\<rparr>"
  define st2 where "st2 = update_key ''agent:main:main'' (\<lambda>e. e\<lparr>se_name := Some ''main'', se_updatedAt := 2\<rparr>) st1"
  have c: "getOrCreateSession 1 ''agent:main:main'' ''main'' ''/w'' None st0
      = Inr (rowToEntry (blank_entry ''agent:main:main'' ''main'' ''/w'' 1), st1)"
    by (simp add: st0_def st1_def getOrCreateSession_def row_by_key_def insert_row_def blank_entry_def Let_def)
  have n: "normalizeCanonicalSessionName ''main'' = Inr ''main''" by code_simp
  have "updateSessionName 2 ''agent:main:main'' ''main'' st1 = Inr st2"
    unfolding updateSessionName_def n sum.case
    by (simp add: st1_def st2_def set_name_def has_key_def row_by_key_def blank_entry_def)
  then have r: "store_reachable st2"
    by (intro store_reachable.step [OF store_reachable.step [OF store_reachable.empty store_step.create [OF c]] store_step.name])
      (simp_all add: st0_def)
  have "getSessionByName st2 ''main'' \<noteq> None"
    by (simp add: getSessionByName_def row_by_name_def st2_def st1_def update_key_def blank_entry_def)
  then obtain e where e: "getSessionByName st2 ''main'' = Some e" by (cases "getSessionByName st2 ''main''") simp_all
  with session_store_unique [OF r, of "''main''" e] have "getSession st2 (se_sessionKey e) = Some e" by (simp only: simp_thms)
  with r e show ?thesis by (intro exI conjI)
qed

section \<open>Creation, reset and rename\<close>

lemma getSession_update:
  "(\<And>e. se_sessionKey (f e) = se_sessionKey e) \<Longrightarrow> (\<And>e. rowToEntry (f e) = g (rowToEntry e)) \<Longrightarrow>
     getSession (update_key k f st) k' = (if k' = k then map_option g (getSession st k') else getSession st k')"
  by (simp add: getSession_def row_by_key_update map_option.compositionality comp_def option.map_comp)

definition moved_to :: "string \<Rightarrow> string \<Rightarrow> session_entry \<Rightarrow> bool" where
  "moved_to a c e \<longleftrightarrow> se_agentId e \<noteq> a \<or> se_agentCwd e \<noteq> c"

definition provider_cleared :: "session_entry \<Rightarrow> bool" where
  "provider_cleared e \<longleftrightarrow> se_sdkSessionId e = None \<and> se_runtimeProvider e = None
     \<and> se_runtimeSessionParams e = None \<and> se_runtimeSessionDisplayId e = None \<and> se_providerSessionId e = None"

lemma row_by_key_append: "row_by_key k (es @ [r]) =
    (case row_by_key k es of None \<Rightarrow> (if se_sessionKey r = k then Some r else None) | Some e \<Rightarrow> Some e)"
  by (induction es) (simp_all add: row_by_key_def)

lemma insert_row_agent [simp]: "se_agentId (insert_row k a c d now) = a" "se_agentCwd (insert_row k a c d now) = c"
  by (simp_all add: insert_row_def blank_entry_def split: option.split)

text \<open>What creation leaves in the store.\<close>

lemma getOrCreate_row:
  assumes "getOrCreateSession now k a c d st = Inr (e, st')"
  shows "\<exists>row. row_by_key k (ss_sessions st') = Some row \<and> se_agentId row = a \<and> se_agentCwd row = c"
proof (cases "row_by_key k (ss_sessions st)")
  case None
  then have "st' = st\<lparr>ss_sessions := ss_sessions st @ [insert_row k a c d now]\<rparr>"
    using assms by (simp add: getOrCreateSession_def Let_def split: if_splits)
  with None show ?thesis by (intro exI [of _ "insert_row k a c d now"]) (simp add: row_by_key_append)
next
  case (Some old)
  show ?thesis
  proof (cases "moved_to a c old")
    case True
    then have "st' = update_key k (\<lambda>e. (clear_provider e)\<lparr>se_agentId := a, se_agentCwd := c, se_updatedAt := now\<rparr>) st"
      using assms Some by (simp add: getOrCreateSession_def moved_to_def)
    with Some show ?thesis
      by (intro exI [of _ "(clear_provider old)\<lparr>se_agentId := a, se_agentCwd := c, se_updatedAt := now\<rparr>"])
        (simp add: row_by_key_update clear_provider_def)
  next
    case False
    then have "st' = st" "se_agentId old = a" "se_agentCwd old = c"
      using assms Some by (simp_all add: getOrCreateSession_def moved_to_def)
    with Some show ?thesis by (intro exI [of _ old]) simp
  qed
qed

lemma getOrCreate_again:
  assumes "row_by_key k (ss_sessions st) = Some row" "se_agentId row = a" "se_agentCwd row = c"
  shows "getOrCreateSession now k a c d st = Inr (rowToEntry row, st)"
  using assms by (simp add: getOrCreateSession_def)

lemma getOrCreate_entry:
  assumes "getOrCreateSession now k a c d st = Inr (e, st')"
  shows "se_sessionKey e = k" "se_agentId e = a" "se_agentCwd e = c"
    "getSession st k = Some old \<Longrightarrow> moved_to a c old \<Longrightarrow> provider_cleared e"
    "getSession st k = Some old \<Longrightarrow> \<not> moved_to a c old \<Longrightarrow> e = old \<and> st' = st"
proof -
  have "se_sessionKey e = k \<and> se_agentId e = a \<and> se_agentCwd e = c"
  proof (cases "row_by_key k (ss_sessions st)")
    case None
    then have "e = rowToEntry (insert_row k a c d now)"
      using assms by (simp add: getOrCreateSession_def Let_def split: if_splits)
    then show ?thesis by simp
  next
    case (Some old)
    then have "e = rowToEntry (clear_provider (old\<lparr>se_agentId := a, se_agentCwd := c\<rparr>))
        \<or> e = rowToEntry old \<and> se_agentId old = a \<and> se_agentCwd old = c"
      using assms by (simp add: getOrCreateSession_def split: if_splits)
    then show ?thesis using row_by_key_Some [OF Some] by (elim disjE) (simp_all add: clear_provider_def)
  qed
  then show "se_sessionKey e = k" "se_agentId e = a" "se_agentCwd e = c" by simp_all
  show "provider_cleared e" if old: "getSession st k = Some old" "moved_to a c old"
  proof -
    obtain row where r: "row_by_key k (ss_sessions st) = Some row" "rowToEntry row = old"
      using old(1) unfolding getSession_def map_option_eq_Some by (elim exE conjE)
    then have "se_agentId row \<noteq> a \<or> se_agentCwd row \<noteq> c"
      using old(2) unfolding r(2) [symmetric] by (simp add: moved_to_def)
    then have "e = rowToEntry (clear_provider (row\<lparr>se_agentId := a, se_agentCwd := c\<rparr>))"
      using assms r(1) by (simp add: getOrCreateSession_def)
    then show ?thesis by (simp add: provider_cleared_def clear_provider_def)
  qed
  show "e = old \<and> st' = st" if old: "getSession st k = Some old" "\<not> moved_to a c old"
  proof -
    obtain row where r: "row_by_key k (ss_sessions st) = Some row" "rowToEntry row = old"
      using old(1) unfolding getSession_def map_option_eq_Some by (elim exE conjE)
    then have "se_agentId row = a" "se_agentCwd row = c"
      using old(2) unfolding r(2) [symmetric] by (simp_all add: moved_to_def)
    then show ?thesis using assms getOrCreate_again [OF r(1)] r(2) by simp
  qed
qed

text \<open>getting or creating a session returns the session of that key for the agent and directory asked
  for, doing it again changes nothing, and a session that moves to another agent or directory loses the
  provider state of the old one, so no agent ever resumes another agent's provider session.\<close>

theorem get_or_create_session:
  assumes "getOrCreateSession now k a c d st = Inr (e, st')"
  shows "se_sessionKey e = k \<and> se_agentId e = a \<and> se_agentCwd e = c
     \<and> (\<exists>e2. getOrCreateSession now2 k a c d2 st' = Inr (e2, st') \<and> getSession st' k = Some e2)
     \<and> (\<forall>old. getSession st k = Some old \<longrightarrow> se_agentId old \<noteq> a \<or> se_agentCwd old \<noteq> c \<longrightarrow> provider_cleared e)"
proof (intro conjI allI impI)
  obtain row where row: "row_by_key k (ss_sessions st') = Some row" "se_agentId row = a" "se_agentCwd row = c"
    using getOrCreate_row [OF assms] by (elim exE conjE)
  have "getSession st' k = Some (rowToEntry row)" using row(1) by (simp add: getSession_def)
  with getOrCreate_again [OF row, of now2 d2]
  show "\<exists>e2. getOrCreateSession now2 k a c d2 st' = Inr (e2, st') \<and> getSession st' k = Some e2"
    by (intro exI conjI)
  fix old assume "getSession st k = Some old" "se_agentId old \<noteq> a \<or> se_agentCwd old \<noteq> c"
  then show "provider_cleared e" using getOrCreate_entry(4) [OF assms] by (simp add: moved_to_def)
qed (simp_all add: getOrCreate_entry [OF assms])

definition sample_store :: session_store where
  "sample_store = \<lparr>ss_sessions =
       [(blank_entry ''agent:main:main'' ''main'' ''/w'' 1)\<lparr>se_name := Some ''main'', se_sdkSessionId := Some ''sdk-1''\<rparr>],
     ss_routes = [\<lparr>rw_config = \<lparr>rc_pattern = ''*'', rc_accountId = ''acc'', rc_agent = ''main'', rc_dmScope = None,
       rc_session = Some ''main'', rc_priority = None, rc_policy = None, rc_channel = None\<rparr>,
       rw_updatedAt = 1, rw_deletedAt = None\<rparr>]\<rparr>"

lemma sample_row: "row_by_key ''agent:main:main'' (ss_sessions sample_store)
    = Some ((blank_entry ''agent:main:main'' ''main'' ''/w'' 1)\<lparr>se_name := Some ''main'', se_sdkSessionId := Some ''sdk-1''\<rparr>)"
  by (simp add: sample_store_def row_by_key_def blank_entry_def)

lemma sample_store_ok: "store_ok sample_store"
  by (simp add: store_ok_def sample_store_def)

theorem get_or_create_session_witness:
  "\<exists>e st'. getOrCreateSession 5 ''agent:main:main'' ''dev'' ''/w'' None sample_store = Inr (e, st')
     \<and> se_agentId e = ''dev'' \<and> provider_cleared e"
proof -
  obtain e st' where e: "getOrCreateSession 5 ''agent:main:main'' ''dev'' ''/w'' None sample_store = Inr (e, st')"
    using sample_row by (simp add: getOrCreateSession_def blank_entry_def)
  note fact = get_or_create_session [OF e, of 6 None]
  have old: "getSession sample_store ''agent:main:main'' = Some (rowToEntry
      ((blank_entry ''agent:main:main'' ''main'' ''/w'' 1)\<lparr>se_name := Some ''main'', se_sdkSessionId := Some ''sdk-1''\<rparr>))"
    by (simp add: getSession_def sample_row)
  have "se_agentId (rowToEntry ((blank_entry ''agent:main:main'' ''main'' ''/w'' 1)
      \<lparr>se_name := Some ''main'', se_sdkSessionId := Some ''sdk-1''\<rparr>)) \<noteq> ''dev''" by (simp add: blank_entry_def)
  with fact old have "provider_cleared e" by blast
  with e fact show ?thesis by (intro exI conjI) simp_all
qed

lemma set_name_update:
  "set_name now k n st = Inr st' \<Longrightarrow> st' = update_key k (\<lambda>e. e\<lparr>se_name := Some n, se_updatedAt := now\<rparr>) st"
  by (simp add: set_name_def split: if_splits)

lemma renamed_lookup:
  assumes ok: "store_ok st" and row: "row_by_key k (ss_sessions st) = Some row"
    and set: "set_name now k new st = Inr st1" and old: "se_name row = Some old" "old \<noteq> new"
  shows "row_by_name old (ss_sessions st1) = None"
proof -
  have "Some old \<noteq> se_name e" if mem: "e \<in> set (ss_sessions st1)" for e
  proof
    assume name: "Some old = se_name e"
    from mem obtain e0 where e0: "e0 \<in> set (ss_sessions st)"
      "e = (if se_sessionKey e0 = k then e0\<lparr>se_name := Some new, se_updatedAt := now\<rparr> else e0)"
      unfolding set_name_update [OF set] set_update_key by blast
    have ne: "se_sessionKey e0 \<noteq> k" using name e0(2) old(2) by (auto split: if_splits)
    then have "se_name e0 = Some old" using name e0(2) by simp
    then have "e0 = row" using store_ok_name [OF ok e0(1)] row_by_key_Some [OF row] old(1) by blast
    then show False using ne row_by_key_Some [OF row] by simp
  qed
  then show ?thesis unfolding row_by_name_None by (auto simp: image_iff)
qed

lemma rename_route_gone: "n \<noteq> o' \<Longrightarrow> r \<in> set (ss_routes (snd (dbRenameRouteSessionName now o' n st))) \<Longrightarrow> \<not> renames_route o' r"
  by (auto simp: dbRenameRouteSessionName_def renames_route_def)

lemma rename_core:
  assumes ok: "store_ok st" and ren: "renameSessionName now k n st = Inr (r, st')" and ch: "rn_changed r"
  shows "(\<exists>e. getSession st' k = Some e \<and> getSessionByName st' (rn_newName r) = Some e)
     \<and> getSessionByName st (rn_newName r) = None
     \<and> (\<forall>old. rn_oldName r = Some old \<longrightarrow> getSessionByName st' old = None)
     \<and> (\<forall>old. rn_oldName r = Some old \<longrightarrow> old \<noteq> [] \<longrightarrow> (\<forall>w \<in> set (ss_routes st'). \<not> renames_route old w))"
  using ren
proof (cases rule: rename_cases)
  case same
  with ch show ?thesis by simp
next
  case (renamed new before st1)
  have sess: "ss_sessions st' = ss_sessions st1" using renamed by simp
  obtain row where row: "row_by_key k (ss_sessions st) = Some row" "rowToEntry row = before"
    using renamed(1) unfolding getSession_def map_option_eq_Some by (elim exE conjE)
  define row1 where "row1 = row\<lparr>se_name := Some new, se_updatedAt := now\<rparr>"
  have row1: "row_by_key k (ss_sessions st1) = Some row1"
    using row(1) unfolding set_name_update [OF renamed(4)] by (simp add: row_by_key_update row1_def)
  have ok1: "store_ok st1" using renamed(4) ok by (rule set_name_ok)
  have "row_by_name new (ss_sessions st1) = Some row1"
    using row_by_name_iff [OF ok1] row_by_key_Some [OF row1] by (simp add: row1_def)
  then have new: "\<exists>e. getSession st' k = Some e \<and> getSessionByName st' new = Some e"
    using row1 by (intro exI [of _ "rowToEntry row1"]) (simp add: getSession_def getSessionByName_def sess)
  have old: "se_name row = Some old \<and> old \<noteq> new" if "se_name before = Some old" for old
  proof -
    have name: "se_name row = Some old" using that unfolding row(2) [symmetric] by simp
    have "row_by_name old (ss_sessions st) = Some row"
      using row_by_name_iff [OF ok] row_by_key_Some [OF row(1)] name by blast
    then have "getSessionByName st old \<noteq> None" by (simp add: getSessionByName_def)
    with renamed(3) name show ?thesis by auto
  qed
  have gone: "getSessionByName st' old = None" if "se_name before = Some old" for old
    using renamed_lookup [OF ok row(1) renamed(4)] old [OF that] by (simp add: getSessionByName_def sess)
  have routes: "\<forall>w \<in> set (ss_routes st'). \<not> renames_route old w" if "se_name before = Some old" "old \<noteq> []" for old
    using rename_route_gone [of new old _ now st1] old [OF that(1)] that renamed(8) by auto
  show ?thesis unfolding renamed(6,7) using new gone routes renamed(3) by (intro conjI allI impI)
qed

text \<open>a rename that changes the name moves the session and every live route that forces the old name to
  the new name: the new name was free and now finds the session, and the old one finds nothing.\<close>

theorem rename_session_moves_name:
  assumes "store_reachable st" and "renameSessionName now k n st = Inr (r, st')" and "rn_changed r"
  shows "(\<exists>e. getSession st' k = Some e \<and> getSessionByName st' (rn_newName r) = Some e)
     \<and> getSessionByName st (rn_newName r) = None
     \<and> (\<forall>old. rn_oldName r = Some old \<longrightarrow> getSessionByName st' old = None)
     \<and> (\<forall>old. rn_oldName r = Some old \<longrightarrow> old \<noteq> [] \<longrightarrow> (\<forall>w \<in> set (ss_routes st'). \<not> renames_route old w))"
  by (rule rename_core [OF store_reachable_invariant [OF assms(1)] assms(2,3)])

theorem rename_session_moves_name_witness:
  "\<exists>st r st'. renameSessionName 7 ''k'' ''boss'' st = Inr (r, st') \<and> rn_newName r = ''boss''
     \<and> (\<exists>e. getSession st' ''k'' = Some e \<and> getSessionByName st' ''boss'' = Some e)"
proof -
  define st0 :: session_store where "st0 = \<lparr>ss_sessions = [], ss_routes = []\<rparr>"
  define st1 where "st1 = \<lparr>ss_sessions = [blank_entry ''k'' ''main'' ''/w'' 1], ss_routes = []\<rparr>"
  have c: "getOrCreateSession 1 ''k'' ''main'' ''/w'' None st0 = Inr (rowToEntry (blank_entry ''k'' ''main'' ''/w'' 1), st1)"
    by (simp add: st0_def st1_def getOrCreateSession_def row_by_key_def insert_row_def blank_entry_def Let_def)
  have r: "store_reachable st1"
    by (rule store_reachable.step [OF store_reachable.empty store_step.create [OF c]]) (simp add: st0_def)
  have n: "normalizeCanonicalSessionName ''boss'' = Inr ''boss''" by code_simp
  obtain res st2 where ren: "renameSessionName 7 ''k'' ''boss'' st1 = Inr (res, st2)" "rn_changed res" "rn_newName res = ''boss''"
    unfolding renameSessionName_def n sum.case
    by (simp add: st1_def getSession_def getSessionByName_def row_by_key_def row_by_name_def blank_entry_def
        set_name_def has_key_def update_key_def rowToEntry_def Let_def)
  from rename_session_moves_name [OF r ren(1,2)] ren(1,3) show ?thesis by (metis (no_types, lifting))
qed

section \<open>The store as a registry of names\<close>

lemma update_name_claims:
  assumes "store_ok st" "has_key st k" "\<not> isNameTaken st n" "normalizeCanonicalSessionName n = Inr n"
  shows "\<exists>st'. updateSessionName now k n st = Inr st' \<and> isNameTaken st' n \<and> store_ok st' \<and> has_key st' k"
proof -
  let ?f = "\<lambda>e. e\<lparr>se_name := Some n, se_updatedAt := now\<rparr>"
  have "Some n \<notin> se_name ` set (ss_sessions st)" using assms(3) by (simp add: isNameTaken_def row_by_name_None)
  then have free: "\<not> list_ex (\<lambda>e. se_name e = Some n \<and> se_sessionKey e \<noteq> k) (ss_sessions st)"
    unfolding list_ex_iff by (metis imageI)
  then have set: "set_name now k n st = Inr (update_key k ?f st)" by (simp add: set_name_def)
  obtain row where row: "row_by_key k (ss_sessions st) = Some row"
    using assms(2) unfolding has_key_def by (cases "row_by_key k (ss_sessions st)") simp_all
  have row': "row_by_key k (ss_sessions (update_key k ?f st)) = Some (?f row)"
    using row by (simp add: row_by_key_update)
  then have "Some n \<in> se_name ` set (ss_sessions (update_key k ?f st))"
    using row_by_key_Some [OF row'] by (intro image_eqI [of _ _ "?f row"]) simp_all
  then have "isNameTaken (update_key k ?f st) n" by (simp add: isNameTaken_def row_by_name_None)
  moreover have "has_key (update_key k ?f st) k" using row' by (simp add: has_key_def)
  moreover have "updateSessionName now k n st = Inr (update_key k ?f st)"
    unfolding updateSessionName_def assms(4) sum.case by (rule set)
  ultimately show ?thesis using set_name_ok [OF set assms(1)] by (intro exI conjI)
qed

interpretation names: name_registry isNameTaken "\<lambda>n. updateSessionName now k n" "\<lambda>st. store_ok st \<and> has_key st k"
proof
  fix st n assume "store_ok st \<and> has_key st k" "\<not> isNameTaken st n" "normalizeCanonicalSessionName n = Inr n"
  then show "\<exists>st'. updateSessionName now k n st = Inr st' \<and> isNameTaken st' n \<and> store_ok st' \<and> has_key st' k"
    by (intro update_name_claims) simp_all
qed

section \<open>Reset and expiry\<close>

lemma has_key_getSession: "has_key st k \<longleftrightarrow> getSession st k \<noteq> None"
  by (simp add: has_key_def getSession_def)

lemma getSession_update_map:
  assumes "\<And>e. se_sessionKey (f e) = se_sessionKey e" "row_by_key k (ss_sessions st) = Some row"
  shows "getSession (update_key k f st) k = Some (rowToEntry (f row))"
  using assms by (simp add: getSession_def row_by_key_update)

lemma getSession_update_other:
  assumes "\<And>e. se_sessionKey (f e) = se_sessionKey e" "k' \<noteq> k"
  shows "getSession (update_key k f st) k' = getSession st k'"
  using assms by (cases "row_by_key k' (ss_sessions st)") (simp_all add: getSession_def row_by_key_update)

text \<open>resetting a session forgets the conversation (provider state, counters, flags) and keeps its
  identity: key, name, agent, overrides and reply source; no other session is touched, and a reset of an
  unknown key reports that nothing changed.\<close>

theorem reset_session_keeps_identity:
  assumes "getSession st k = Some e" and "resetSession now k st = (changed, st')"
  shows "changed \<and> (\<exists>e2. getSession st' k = Some e2 \<and> provider_cleared e2
       \<and> se_inputTokens e2 = Some 0 \<and> se_outputTokens e2 = Some 0 \<and> se_totalTokens e2 = Some 0
       \<and> se_contextTokens e2 = Some 0 \<and> se_compactionCount e2 = Some 0
       \<and> se_systemSent e2 = Some False \<and> se_abortedLastRun e2 = Some False
       \<and> se_sessionKey e2 = k \<and> se_name e2 = se_name e \<and> se_agentId e2 = se_agentId e
       \<and> se_agentCwd e2 = se_agentCwd e \<and> se_displayName e2 = se_displayName e
       \<and> se_lastChannel e2 = se_lastChannel e \<and> se_lastTo e2 = se_lastTo e
       \<and> se_lastAccountId e2 = se_lastAccountId e \<and> se_modelOverride e2 = se_modelOverride e
       \<and> se_ephemeral e2 = se_ephemeral e \<and> se_expiresAt e2 = se_expiresAt e)
     \<and> (\<forall>j. j = k \<or> getSession st' j = getSession st j)"
proof -
  obtain row where row: "row_by_key k (ss_sessions st) = Some row" "rowToEntry row = e"
    using assms(1) unfolding getSession_def map_option_eq_Some by (elim exE conjE)
  have st': "changed = has_key st k" "st' = update_key k (reset_entry now) st"
    using assms(2) by (simp_all add: resetSession_def)
  have key: "se_sessionKey (reset_entry now x) = se_sessionKey x" for x
    by (simp add: reset_entry_def clear_provider_def)
  have "getSession st' k = Some (rowToEntry (reset_entry now row))"
    unfolding st' by (rule getSession_update_map [OF key row(1)])
  moreover have "getSession st' j = getSession st j" if "j \<noteq> k" for j
    unfolding st' by (rule getSession_update_other [OF key that])
  moreover have "changed" using st' row(1) by (simp add: has_key_def)
  ultimately show ?thesis using row_by_key_Some [OF row(1)] unfolding row(2) [symmetric]
    by (intro conjI exI [of _ "rowToEntry (reset_entry now row)"] allI)
      (simp_all add: reset_entry_def clear_provider_def provider_cleared_def rowToEntry_def, blast)
qed

theorem reset_session_keeps_identity_witness:
  "\<exists>e2. getSession (snd (resetSession 9 ''agent:main:main'' sample_store)) ''agent:main:main'' = Some e2
     \<and> provider_cleared e2 \<and> se_name e2 = Some ''main''"
proof -
  let ?row = "(blank_entry ''agent:main:main'' ''main'' ''/w'' 1)\<lparr>se_name := Some ''main'', se_sdkSessionId := Some ''sdk-1''\<rparr>"
  have e: "getSession sample_store ''agent:main:main'' = Some (rowToEntry ?row)" by (simp add: getSession_def sample_row)
  have "se_name (rowToEntry ?row) = Some ''main''" by simp
  with reset_session_keeps_identity [OF e surjective_pairing] show ?thesis by (metis (no_types, lifting))
qed

definition is_expired :: "int \<Rightarrow> session_store \<Rightarrow> string \<Rightarrow> bool" where
  "is_expired t st k \<longleftrightarrow> k \<in> se_sessionKey ` set (getExpiredSessions t st)"

lemma is_expired_row:
  assumes "store_ok st" "row_by_key k (ss_sessions st) = Some row"
  shows "is_expired t st k \<longleftrightarrow> se_ephemeral row = Some True \<and> (case se_expiresAt row of None \<Rightarrow> False | Some x \<Rightarrow> x \<le> t)"
proof
  assume "is_expired t st k"
  then obtain r where r: "r \<in> set (ss_sessions st)" "se_sessionKey r = k" "se_ephemeral r = Some True"
    "case se_expiresAt r of None \<Rightarrow> False | Some x \<Rightarrow> x \<le> t"
    by (auto simp: is_expired_def getExpiredSessions_def)
  then have "row_by_key k (ss_sessions st) = Some r" using row_by_key_iff [OF assms(1)] by blast
  with assms(2) have "r = row" by simp
  with r show "se_ephemeral row = Some True \<and> (case se_expiresAt row of None \<Rightarrow> False | Some x \<Rightarrow> x \<le> t)" by blast
next
  assume "se_ephemeral row = Some True \<and> (case se_expiresAt row of None \<Rightarrow> False | Some x \<Rightarrow> x \<le> t)"
  with row_by_key_Some [OF assms(2)] show "is_expired t st k"
    unfolding is_expired_def getExpiredSessions_def by (intro image_eqI [of _ _ "rowToEntry row"]) simp_all
qed

lemma update_row:
  "(\<And>e. se_sessionKey (f e) = se_sessionKey e) \<Longrightarrow> row_by_key k (ss_sessions st) = Some row \<Longrightarrow>
     row_by_key k (ss_sessions (update_key k f st)) = Some (f row)"
  by (simp add: row_by_key_update)

text \<open>an ephemeral session expires exactly at its time to live, extending it moves the expiry from the later
  of the old expiry and now, so it never shortens the life of a session, expiring it takes effect at once,
  and a session made permanent never expires.\<close>

theorem ephemeral_expiry:
  assumes "store_reachable st" and "has_key st k" and "\<not> isNameTaken st k"
  shows "(is_expired t (setSessionEphemeral now k ttl st) k \<longleftrightarrow> now + ttl \<le> t)
     \<and> (is_expired t (snd (extendSession now2 k ttl2 (setSessionEphemeral now k ttl st))) k
          \<longleftrightarrow> max (now + ttl) now2 + ttl2 \<le> t)
     \<and> (is_expired t (snd (expireEphemeralSession now k st)) k \<longleftrightarrow> now \<le> t)
     \<and> \<not> is_expired t (snd (makeSessionPermanent now k st)) k"
proof -
  have ok: "store_ok st" using assms(1) by (rule store_reachable_invariant)
  obtain row where row: "row_by_key k (ss_sessions st) = Some row"
    using assms(2) unfolding has_key_def by (cases "row_by_key k (ss_sessions st)") simp_all
  let ?eph = "setSessionEphemeral now k ttl st"
  let ?erow = "row\<lparr>se_ephemeral := Some True, se_expiresAt := Some (now + ttl), se_updatedAt := now\<rparr>"
  have eok: "store_ok ?eph" using ok by (rule field_update_ok)
  have erow: "row_by_key k (ss_sessions ?eph) = Some ?erow"
    unfolding setSessionEphemeral_def by (rule update_row [OF _ row]) simp
  have names: "se_name ` set (ss_sessions ?eph) = se_name ` set (ss_sessions st)"
    unfolding setSessionEphemeral_def set_update_key image_image by (rule image_cong) simp_all
  have no_name: "getSessionByName s k = None" if "s = st \<or> s = ?eph" for s
    using that assms(3) names by (auto simp: getSessionByName_def isNameTaken_def row_by_name_None)
  have res: "resolveSession st k = Some (rowToEntry row)" "resolveSession ?eph k = Some (rowToEntry ?erow)"
    using no_name row erow by (simp_all add: resolveSession_def getSession_def)
  have k: "se_sessionKey row = k" using row_by_key_Some [OF row] by simp
  have ext: "row_by_key k (ss_sessions (snd (extendSession now2 k ttl2 ?eph)))
      = Some (?erow\<lparr>se_expiresAt := Some (max (now + ttl) now2 + ttl2), se_updatedAt := now2\<rparr>)"
    unfolding extendSession_def res option.case Let_def snd_conv using k
    by (simp add: update_row [OF _ erow])
  have perm: "row_by_key k (ss_sessions (snd (makeSessionPermanent now k st)))
      = Some (row\<lparr>se_ephemeral := Some False, se_expiresAt := None, se_updatedAt := now\<rparr>)"
    unfolding makeSessionPermanent_def res option.case snd_conv using k by (simp add: update_row [OF _ row])
  have exp: "row_by_key k (ss_sessions (snd (expireEphemeralSession now k st)))
      = Some (row\<lparr>se_ephemeral := Some True, se_expiresAt := Some now, se_updatedAt := now\<rparr>)"
    unfolding expireEphemeralSession_def snd_conv by (rule update_row [OF _ row]) simp
  have "is_expired t ?eph k \<longleftrightarrow> now + ttl \<le> t" by (simp add: is_expired_row [OF eok erow])
  moreover have "is_expired t (snd (extendSession now2 k ttl2 ?eph)) k \<longleftrightarrow> max (now + ttl) now2 + ttl2 \<le> t"
    by (simp add: is_expired_row [OF extend_ok(1) [OF eok] ext])
  moreover have "is_expired t (snd (expireEphemeralSession now k st)) k \<longleftrightarrow> now \<le> t"
    by (simp add: is_expired_row [OF field_update_ok(16) [OF ok] exp])
  moreover have "\<not> is_expired t (snd (makeSessionPermanent now k st)) k"
    by (simp add: is_expired_row [OF extend_ok(2) [OF ok] perm])
  ultimately show ?thesis by (intro conjI)
qed

theorem ephemeral_expiry_witness:
  "\<exists>st. is_expired 150 (setSessionEphemeral 100 ''k'' 50 st) ''k'' \<and> \<not> is_expired 149 (setSessionEphemeral 100 ''k'' 50 st) ''k''"
proof -
  define st0 :: session_store where "st0 = \<lparr>ss_sessions = [], ss_routes = []\<rparr>"
  define st1 where "st1 = \<lparr>ss_sessions = [blank_entry ''k'' ''main'' ''/w'' 1], ss_routes = []\<rparr>"
  have c: "getOrCreateSession 1 ''k'' ''main'' ''/w'' None st0 = Inr (rowToEntry (blank_entry ''k'' ''main'' ''/w'' 1), st1)"
    by (simp add: st0_def st1_def getOrCreateSession_def row_by_key_def insert_row_def blank_entry_def Let_def)
  have r: "store_reachable st1"
    by (rule store_reachable.step [OF store_reachable.empty store_step.create [OF c]]) (simp add: st0_def)
  have h: "has_key st1 ''k''" "\<not> isNameTaken st1 ''k''"
    by (simp_all add: has_key_def isNameTaken_def st1_def row_by_key_def row_by_name_def blank_entry_def)
  show ?thesis
    using ephemeral_expiry [OF r h, of 150 100 50 0 0] ephemeral_expiry [OF r h, of 149 100 50 0 0] by (intro exI [of _ st1]) simp
qed

end
