(* ===== verification/SessionKey.thy ===== *)
theory SessionKey
  imports Prelude
begin

text \<open>
  Session keys (\<open>src/src/router/session-key.ts\<close>): the hierarchical key of a conversation,
  its parser, and the reply source derived from it. A key is the parts joined by colons;
  the peer id may itself contain colons, which is why the parser joins the rest back.
\<close>

section \<open>Keys\<close>

record session_key_params =
  kp_agentId :: string
  kp_channel :: "string option"
  kp_accountId :: "string option"
  kp_peerKind :: "string option"
  kp_peerId :: "string option"
  kp_dmScope :: "string option"
  kp_threadId :: "string option"

text \<open>\<open>if (x) parts.push(x)\<close>.\<close>

definition push_if :: "string option \<Rightarrow> string list" where
  "push_if v = (if truthy v then [nullish v []] else [])"

definition cleanPeerId :: "string \<Rightarrow> string \<Rightarrow> string" where
  "cleanPeerId peerKind peerId =
     (if prefix (peerKind @ '':'') (to_lower peerId) then drop (length peerKind + 1) peerId else peerId)"

definition sessionKeyParts :: "session_key_params \<Rightarrow> string list" where
  "sessionKeyParts p =
     (let peerKind = nullish (kp_peerKind p) ''dm'';
          dmScope = nullish (kp_dmScope p) ''per-peer'';
          peer = nullish (kp_peerId p) ''unknown''
      in [''agent'', kp_agentId p] @
         (if peerKind = ''dm'' then
            (if dmScope = ''main'' then [''main'']
             else if dmScope = ''per-peer'' then [''dm'', peer]
             else if dmScope = ''per-channel-peer'' then push_if (kp_channel p) @ [''dm'', peer]
             else if dmScope = ''per-account-channel-peer''
             then push_if (kp_channel p) @ push_if (kp_accountId p) @ [''dm'', peer]
             else [])
          else
            push_if (kp_channel p) @ push_if (kp_accountId p) @ [peerKind, cleanPeerId peerKind peer]
            @ (if truthy (kp_threadId p) then [''thread'', nullish (kp_threadId p) []] else [])))"

definition buildSessionKey :: "session_key_params \<Rightarrow> string" where
  "buildSessionKey p = join '':'' (sessionKeyParts p)"

text \<open>\<open>s || undefined\<close>.\<close>

definition ne_opt :: "string \<Rightarrow> string option" where
  "ne_opt s = (if s = [] then None else Some s)"

definition empty_params :: "string \<Rightarrow> session_key_params" where
  "empty_params agentId =
     \<lparr>kp_agentId = agentId, kp_channel = None, kp_accountId = None, kp_peerKind = None, kp_peerId = None,
      kp_dmScope = None, kp_threadId = None\<rparr>"

definition isPeerKind :: "string \<Rightarrow> bool" where
  "isPeerKind k \<longleftrightarrow> k = ''dm'' \<or> k = ''group'' \<or> k = ''channel''"

text \<open>The peer and the thread in the parts that follow the kind, cut at the part \<open>thread\<close>.\<close>

definition parsePeer :: "string list \<Rightarrow> string option \<times> string option" where
  "parsePeer peerIdParts =
     (case find_index ((=) ''thread'') peerIdParts of
        None \<Rightarrow> (ne_opt (join '':'' peerIdParts), None)
      | Some threadIdx \<Rightarrow>
          (ne_opt (join '':'' (take threadIdx peerIdParts)), Some (join '':'' (drop (threadIdx + 1) peerIdParts))))"

definition parseSessionKey :: "string \<Rightarrow> session_key_params option" where
  "parseSessionKey key =
     (let parts = split_on (CHR '':'') key in
      if parts ! 0 \<noteq> ''agent'' \<or> length parts < 3 then None
      else
        let base = empty_params (parts ! 1) in
        if parts ! 2 = ''main'' then Some (base\<lparr>kp_dmScope := Some ''main''\<rparr>)
        else if parts ! 2 = ''dm'' then
          Some (base\<lparr>kp_peerKind := Some ''dm'', kp_peerId := ne_opt (join '':'' (drop 3 parts)),
                     kp_dmScope := Some ''per-peer''\<rparr>)
        else if length parts \<ge> 4 \<and> isPeerKind (parts ! 3) then
          let (peerId, threadId) = parsePeer (drop 4 parts) in
          Some (base\<lparr>kp_channel := Some (parts ! 2), kp_peerKind := Some (parts ! 3), kp_peerId := peerId,
                     kp_threadId := threadId, kp_dmScope := Some ''per-channel-peer''\<rparr>)
        else if length parts \<ge> 6 then
          let (peerId, threadId) = parsePeer (drop 5 parts) in
          Some (base\<lparr>kp_channel := Some (parts ! 2), kp_accountId := Some (parts ! 3),
                     kp_peerKind := Some (parts ! 4), kp_peerId := peerId,
                     kp_threadId := threadId, kp_dmScope := Some ''per-account-channel-peer''\<rparr>)
        else Some base)"

definition getAgentFromKey :: "string \<Rightarrow> string option" where
  "getAgentFromKey key = map_option kp_agentId (parseSessionKey key)"

definition matchSessionKey :: "string \<Rightarrow> string \<Rightarrow> bool" where
  "matchSessionKey key pattern \<longleftrightarrow>
     (if key = pattern then True
      else if suffix '':*'' pattern then prefix (butlast pattern) key
      else False)"

record message_source =
  ms_channel :: string
  ms_accountId :: string
  ms_chatId :: string
  ms_threadId :: "string option"

definition reconstructChatId :: "string \<Rightarrow> string \<Rightarrow> string \<Rightarrow> string" where
  "reconstructChatId channel peerKind peerId =
     (if peerKind = ''group'' \<and> channel \<noteq> ''matrix'' then ''group:'' @ peerId else peerId)"

definition deriveSourceFromSessionKey :: "string \<Rightarrow> message_source option" where
  "deriveSourceFromSessionKey key =
     (case parseSessionKey key of
        None \<Rightarrow> None
      | Some p \<Rightarrow>
          if \<not> truthy (kp_channel p) \<or> \<not> truthy (kp_peerKind p) \<or> \<not> truthy (kp_peerId p) then None
          else Some \<lparr>ms_channel = nullish (kp_channel p) [], ms_accountId = nullish (kp_accountId p) [],
                     ms_chatId = reconstructChatId (nullish (kp_channel p) []) (nullish (kp_peerKind p) [])
                                   (nullish (kp_peerId p) []),
                     ms_threadId = (if truthy (kp_threadId p) then kp_threadId p else None)\<rparr>)"

section \<open>Splitting a key\<close>

lemma split_on_append_any: "split_on c (s @ c # t) = split_on c s @ split_on c t"
proof (induction s)
  case (Cons x s)
  then show ?case by (cases "split_on c s") (auto split: list.splits)
qed simp

lemma split_on_join_concat: "ws \<noteq> [] \<Longrightarrow> split_on c (join [c] ws) = concat (map (split_on c) ws)"
proof (induction ws)
  case (Cons w ws)
  then show ?case by (cases "ws = []") (auto simp: join_Cons split_on_append_any)
qed simp

lemma find_index_append: "(\<forall>x \<in> set xs. \<not> p x) \<Longrightarrow> p y \<Longrightarrow> find_index p (xs @ y # ys) = Some (length xs)"
  by (induction xs) auto

lemma parsePeer_split:
  assumes "''thread'' \<notin> set (split_on (CHR '':'') q)" "q \<noteq> []"
  shows "parsePeer (split_on (CHR '':'') q) = (Some q, None)"
    "parsePeer (split_on (CHR '':'') q @ ''thread'' # split_on (CHR '':'') t) = (Some q, Some t)"
proof -
  have "find_index ((=) ''thread'') (split_on (CHR '':'') q) = None" using assms by (auto simp: find_index_None)
  then show "parsePeer (split_on (CHR '':'') q) = (Some q, None)"
    using assms by (simp add: parsePeer_def ne_opt_def)
  have "find_index ((=) ''thread'') (split_on (CHR '':'') q @ ''thread'' # split_on (CHR '':'') t)
      = Some (length (split_on (CHR '':'') q))"
    using assms by (intro find_index_append) auto
  then show "parsePeer (split_on (CHR '':'') q @ ''thread'' # split_on (CHR '':'') t) = (Some q, Some t)"
    using assms by (simp add: parsePeer_def ne_opt_def)
qed

section \<open>Round trip\<close>

text \<open>
  The parameters a key determines: agent, channel and account without colons and not a
  reserved word, a peer without a part \<open>thread\<close>, and the scope that its form has.
\<close>

definition key_part :: "string \<Rightarrow> bool" where
  "key_part s \<longleftrightarrow> s \<noteq> [] \<and> CHR '':'' \<notin> set s"

definition canonical_params :: "session_key_params \<Rightarrow> bool" where
  "canonical_params p \<longleftrightarrow> key_part (kp_agentId p) \<and>
     (case kp_channel p of
        None \<Rightarrow> kp_accountId p = None \<and> kp_threadId p = None \<and>
          (kp_dmScope p = Some ''main'' \<and> kp_peerKind p = None \<and> kp_peerId p = None
           \<or> kp_dmScope p = Some ''per-peer'' \<and> kp_peerKind p = Some ''dm'' \<and> truthy (kp_peerId p))
      | Some c \<Rightarrow>
          key_part c \<and> c \<notin> {''main'', ''dm''} \<and> truthy (kp_peerId p)
          \<and> ''thread'' \<notin> set (split_on (CHR '':'') (nullish (kp_peerId p) []))
          \<and> (kp_peerKind p = Some ''dm'' \<and> kp_threadId p = None
             \<or> (kp_peerKind p = Some ''group'' \<or> kp_peerKind p = Some ''channel'')
               \<and> cleanPeerId (nullish (kp_peerKind p) []) (nullish (kp_peerId p) []) = nullish (kp_peerId p) []
               \<and> (kp_threadId p = None \<or> truthy (kp_threadId p)))
          \<and> (case kp_accountId p of
               None \<Rightarrow> kp_dmScope p = Some ''per-channel-peer''
             | Some a \<Rightarrow> kp_dmScope p = Some ''per-account-channel-peer'' \<and> key_part a \<and> \<not> isPeerKind a))"

text \<open>The parts of the key of parameters with a channel.\<close>

lemma split_channel_key:
  assumes "canonical_params p" "kp_channel p = Some c" "kp_peerId p = Some q" "kp_peerKind p = Some k"
  shows "split_on (CHR '':'') (buildSessionKey p)
    = [''agent'', kp_agentId p, c] @ (case kp_accountId p of None \<Rightarrow> [] | Some a \<Rightarrow> [a]) @ k # split_on (CHR '':'') q
      @ (case kp_threadId p of None \<Rightarrow> [] | Some t \<Rightarrow> ''thread'' # split_on (CHR '':'') t)"
proof -
  have k: "CHR '':'' \<notin> set k" using assms by (auto simp: canonical_params_def)
  have "sessionKeyParts p = [''agent'', kp_agentId p, c] @ (case kp_accountId p of None \<Rightarrow> [] | Some a \<Rightarrow> [a]) @ [k, q]
      @ (case kp_threadId p of None \<Rightarrow> [] | Some t \<Rightarrow> [''thread'', t])"
    using assms by (auto simp: sessionKeyParts_def canonical_params_def key_part_def push_if_def Let_def
        split: option.splits)
  then have "split_on (CHR '':'') (buildSessionKey p) = concat (map (split_on (CHR '':''))
      ([''agent'', kp_agentId p, c] @ (case kp_accountId p of None \<Rightarrow> [] | Some a \<Rightarrow> [a]) @ [k, q]
       @ (case kp_threadId p of None \<Rightarrow> [] | Some t \<Rightarrow> [''thread'', t])))"
    by (simp add: buildSessionKey_def split_on_join_concat del: map_append concat_append join.simps)
  moreover have "CHR '':'' \<notin> set (kp_agentId p)" "CHR '':'' \<notin> set c" "\<And>a. kp_accountId p = Some a \<Longrightarrow> CHR '':'' \<notin> set a"
    using assms by (auto simp: canonical_params_def key_part_def)
  ultimately show ?thesis using k by (simp split: option.split)
qed

text \<open>The two forms of a key with a channel, read back.\<close>

lemma parse_no_account:
  assumes "split_on (CHR '':'') key = ''agent'' # a # c # k # rest" "c \<noteq> ''main''" "c \<noteq> ''dm''" "isPeerKind k"
    "parsePeer rest = (peer, thread)"
  shows "parseSessionKey key = Some \<lparr>kp_agentId = a, kp_channel = Some c, kp_accountId = None, kp_peerKind = Some k,
    kp_peerId = peer, kp_dmScope = Some ''per-channel-peer'', kp_threadId = thread\<rparr>"
  using assms by (simp add: parseSessionKey_def empty_params_def)

lemma parse_account:
  assumes "split_on (CHR '':'') key = ''agent'' # a # c # acc # k # rest" "rest \<noteq> []" "c \<noteq> ''main''" "c \<noteq> ''dm''"
    "\<not> isPeerKind acc" "parsePeer rest = (peer, thread)"
  shows "parseSessionKey key = Some \<lparr>kp_agentId = a, kp_channel = Some c, kp_accountId = Some acc, kp_peerKind = Some k,
    kp_peerId = peer, kp_dmScope = Some ''per-account-channel-peer'', kp_threadId = thread\<rparr>"
  using assms by (cases rest) (simp_all add: parseSessionKey_def empty_params_def numeral_eq_Suc)

lemma parse_channel_key:
  assumes "canonical_params p" "kp_channel p = Some c" "kp_peerId p = Some q" "kp_peerKind p = Some k"
  shows "parseSessionKey (buildSessionKey p) = Some p"
proof -
  have q: "''thread'' \<notin> set (split_on (CHR '':'') q)" "q \<noteq> []" and c: "c \<noteq> ''main''" "c \<noteq> ''dm''"
    using assms by (simp_all add: canonical_params_def)
  have k: "isPeerKind k" using assms by (auto simp: canonical_params_def isPeerKind_def)
  define rest where "rest = split_on (CHR '':'') q @ (case kp_threadId p of None \<Rightarrow> [] | Some t \<Rightarrow> ''thread'' # split_on (CHR '':'') t)"
  have rest: "parsePeer rest = (kp_peerId p, kp_threadId p)"
    using parsePeer_split [OF q] assms(3) by (simp add: rest_def split: option.split)
  note parts = split_channel_key [OF assms, folded rest_def]
  show ?thesis
  proof (cases "kp_accountId p")
    case None
    then have "split_on (CHR '':'') (buildSessionKey p) = ''agent'' # kp_agentId p # c # k # rest"
      using parts by (simp add: rest_def)
    moreover have "kp_dmScope p = Some ''per-channel-peer''" using assms(1,2) None by (simp add: canonical_params_def)
    ultimately show ?thesis using parse_no_account [OF _ c k rest] assms(2-4) None by simp
  next
    case (Some a)
    then have "split_on (CHR '':'') (buildSessionKey p) = ''agent'' # kp_agentId p # c # a # k # rest"
      using parts by (simp add: rest_def)
    moreover have "kp_dmScope p = Some ''per-account-channel-peer''" "\<not> isPeerKind a"
      using assms(1,2) Some by (simp_all add: canonical_params_def)
    ultimately show ?thesis using parse_account [OF _ _ c _ rest] assms(2-4) Some by (simp add: rest_def)
  qed
qed

lemma parse_main: "CHR '':'' \<notin> set a \<Longrightarrow>
    parseSessionKey (''agent:'' @ a @ '':main'') = Some ((empty_params a)\<lparr>kp_dmScope := Some ''main''\<rparr>)"
  by (simp add: parseSessionKey_def split_on_append)

lemma parse_dm: "CHR '':'' \<notin> set a \<Longrightarrow>
    parseSessionKey (''agent:'' @ a @ '':dm:'' @ q)
      = Some ((empty_params a)\<lparr>kp_peerKind := Some ''dm'', kp_peerId := ne_opt q, kp_dmScope := Some ''per-peer''\<rparr>)"
  by (cases "split_on (CHR '':'') q") (simp_all add: parseSessionKey_def split_on_append, metis join_split_on)

lemma parse_build:
  assumes "canonical_params p"
  shows "parseSessionKey (buildSessionKey p) = Some p"
proof (cases "kp_channel p")
  case (Some c)
  then obtain q k where "kp_peerId p = Some q" "kp_peerKind p = Some k"
    using assms by (auto simp: canonical_params_def elim: truthyE)
  with assms Some show ?thesis by (rule parse_channel_key)
next
  case None
  then have a: "CHR '':'' \<notin> set (kp_agentId p)" using assms by (simp add: canonical_params_def key_part_def)
  have acc: "kp_accountId p = None" "kp_threadId p = None" using assms None by (auto simp: canonical_params_def)
  consider "kp_dmScope p = Some ''main''" "kp_peerKind p = None" "kp_peerId p = None"
    | q where "kp_dmScope p = Some ''per-peer''" "kp_peerKind p = Some ''dm''" "kp_peerId p = Some q" "q \<noteq> []"
    using assms None by (auto simp: canonical_params_def elim!: truthyE)
  then show ?thesis
  proof cases
    case 1
    with None a acc show ?thesis
      by (cases p) (simp add: buildSessionKey_def sessionKeyParts_def parse_main [simplified] empty_params_def)
  next
    case (2 q)
    with None a acc show ?thesis
      by (cases p) (simp add: buildSessionKey_def sessionKeyParts_def parse_dm [simplified] empty_params_def ne_opt_def)
  qed
qed

text \<open>C38: a session key reads back as the parameters it was built from (agent, channel, account, peer kind, a
  peer id with colons, thread and scope), so two conversations with different parameters never share
  a key.\<close>

theorem session_key_roundtrip:
  assumes "canonical_params p"
  shows "parseSessionKey (buildSessionKey p) = Some p
     \<and> getAgentFromKey (buildSessionKey p) = Some (kp_agentId p)
     \<and> (\<forall>r. canonical_params r \<longrightarrow> buildSessionKey r = buildSessionKey p \<longrightarrow> r = p)"
proof (intro conjI allI impI)
  fix r assume "canonical_params r" "buildSessionKey r = buildSessionKey p"
  then show "r = p" using parse_build [OF assms] parse_build [of r] by simp
qed (simp_all add: getAgentFromKey_def parse_build [OF assms])

definition sample_key_params :: session_key_params where
  "sample_key_params = \<lparr>kp_agentId = ''main'', kp_channel = Some ''matrix'', kp_accountId = Some ''acc'',
     kp_peerKind = Some ''group'', kp_peerId = Some ''!room:server'',
     kp_dmScope = Some ''per-account-channel-peer'', kp_threadId = Some ''42''\<rparr>"

theorem session_key_roundtrip_witness:
  "parseSessionKey (buildSessionKey sample_key_params) = Some sample_key_params"
proof (rule session_key_roundtrip [THEN conjunct1])
  show "canonical_params sample_key_params" by code_simp
qed

text \<open>the reply source derived from a session key is the channel, account, chat and thread of the
  conversation; a group outside Matrix gets the prefix back that the key leaves out.\<close>

theorem derived_source_of_key:
  assumes "canonical_params p" "kp_channel p = Some c" "kp_peerId p = Some q" "kp_peerKind p = Some k"
  shows "deriveSourceFromSessionKey (buildSessionKey p) = Some
    \<lparr>ms_channel = c, ms_accountId = nullish (kp_accountId p) [],
     ms_chatId = (if k = ''group'' \<and> c \<noteq> ''matrix'' then ''group:'' @ q else q),
     ms_threadId = kp_threadId p\<rparr>"
proof -
  have "c \<noteq> []" "q \<noteq> []" "k \<noteq> []" "kp_threadId p = None \<or> truthy (kp_threadId p)"
    using assms by (auto simp: canonical_params_def key_part_def)
  then show ?thesis using parse_build [OF assms(1)] assms(2-4)
    by (auto simp: deriveSourceFromSessionKey_def reconstructChatId_def)
qed

theorem derived_source_of_key_witness:
  "deriveSourceFromSessionKey (buildSessionKey sample_key_params) = Some
    \<lparr>ms_channel = ''matrix'', ms_accountId = ''acc'', ms_chatId = ''!room:server'', ms_threadId = Some ''42''\<rparr>"
proof -
  have 1: "canonical_params sample_key_params" by code_simp
  have 2: "kp_channel sample_key_params = Some ''matrix''" "kp_peerId sample_key_params = Some ''!room:server''"
    "kp_peerKind sample_key_params = Some ''group''" by (simp_all add: sample_key_params_def)
  show ?thesis using derived_source_of_key [OF 1 2] by (simp add: sample_key_params_def)
qed

text \<open>Outside the canonical parameters the key loses information: a group without a channel reads back as
  the agent alone, and no reply source is derived from it.\<close>

lemma group_without_channel_lost:
  "parseSessionKey (buildSessionKey \<lparr>kp_agentId = ''main'', kp_channel = None, kp_accountId = None,
     kp_peerKind = Some ''group'', kp_peerId = Some ''123'', kp_dmScope = None, kp_threadId = None\<rparr>)
   = Some (empty_params ''main'')"
  by code_simp

section \<open>Matching\<close>

lemma matchSessionKey_agent:
  "matchSessionKey key (''agent:'' @ a @ '':*'') \<longleftrightarrow> key = ''agent:'' @ a @ '':*'' \<or> prefix (''agent:'' @ a @ '':'') key"
proof -
  have "butlast (''agent:'' @ a @ '':*'') = ''agent:'' @ a @ '':''" by (simp add: butlast_append)
  moreover have "suffix '':*'' (''agent:'' @ a @ '':*'')" by (simp add: suffix_def)
  ultimately show ?thesis by (auto simp: matchSessionKey_def)
qed

end
