(* ===== verification/RouteResolver.thy ===== *)
theory RouteResolver
  imports SessionStore SessionKey
begin

text \<open>
  Routing (\<open>src/src/router/resolver.ts\<close>): which agent, scope and session an inbound message
  goes to. \<open>matchRoute\<close> decides without touching the store, \<open>commitMatchedRoute\<close> then
  finds or creates the session and gives it a name. A thrown error is a left value; the
  store it leaves behind is part of the result, because the source writes before it
  throws. The home directory and the clock are arguments.
\<close>

section \<open>Patterns\<close>

text \<open>
  The regular expression the pattern becomes: a star matches any text without a line
  break, every other character itself.
\<close>

definition is_line_break :: "char \<Rightarrow> bool" where
  "is_line_break c = (let n = (of_char c :: nat) in n = 10 \<or> n = 13)"

fun glob :: "string \<Rightarrow> string \<Rightarrow> bool" where
  "glob [] s = (s = [])"
| "glob (p # ps) [] = (p = CHR ''*'' \<and> glob ps [])"
| "glob (p # ps) (x # xs) =
     (if p = CHR ''*'' then glob ps (x # xs) \<or> (\<not> is_line_break x \<and> glob (p # ps) xs)
      else p = x \<and> glob ps xs)"

definition matchPattern_route :: "string \<Rightarrow> string \<Rightarrow> bool" where
  "matchPattern_route phone pattern =
     (let p = to_lower phone; pat = to_lower pattern in
      if CHR ''*'' \<notin> set pat then p = pat
      else if pat = ''*'' then True
      else glob pat p)"

section \<open>Finding the route\<close>

definition routePriority :: "route_config \<Rightarrow> int" where
  "routePriority r = nullish (rc_priority r) 0"

definition isChannelSpecific :: "string option \<Rightarrow> route_config \<Rightarrow> bool" where
  "isChannelSpecific channel r \<longleftrightarrow> truthy channel \<and> rc_channel r = channel"

definition accountCandidates :: "string option \<Rightarrow> route_config list \<Rightarrow> route_config list" where
  "accountCandidates accountId routes =
     (if truthy accountId then filter (\<lambda>r. Some (rc_accountId r) = accountId) routes else routes)"

definition channelCandidates :: "string option \<Rightarrow> route_config list \<Rightarrow> route_config list" where
  "channelCandidates channel routes =
     (if truthy channel then filter (\<lambda>r. \<not> truthy (rc_channel r) \<or> rc_channel r = channel) routes else routes)"

text \<open>The sort is stable: channel-specific routes first, then the higher priority.\<close>

definition sortRoutes :: "string option \<Rightarrow> route_config list \<Rightarrow> route_config list" where
  "sortRoutes channel routes =
     sort_key (\<lambda>r. (if isChannelSpecific channel r then 0 :: int else 1, - routePriority r)) routes"

definition findRoute ::
  "string \<Rightarrow> route_config list \<Rightarrow> string option \<Rightarrow> string option \<Rightarrow> route_config option" where
  "findRoute phone routes accountId channel =
     find (\<lambda>r. matchPattern_route phone (rc_pattern r))
       (sortRoutes channel (channelCandidates channel (accountCandidates accountId routes)))"

section \<open>Matching a route\<close>

record route_params =
  pa_phone :: string
  pa_channel :: "string option"
  pa_accountId :: "string option"
  pa_isGroup :: bool
  pa_groupId :: "string option"
  pa_threadId :: "string option"
  pa_peerKind :: "string option"

datatype route_error = AgentNotFound string | CommitFailed store_error

text \<open>\<open>groupId.replace(/@.*$/, "")\<close>: everything from the first \<open>@\<close> after which no line break follows.\<close>

fun stripAtSuffix :: "string \<Rightarrow> string" where
  "stripAtSuffix [] = []"
| "stripAtSuffix (x # xs) =
     (if x = CHR ''@'' \<and> (\<forall>c \<in> set xs. \<not> is_line_break c) then [] else x # stripAtSuffix xs)"

definition lookupRoute :: "router_config \<Rightarrow> route_params \<Rightarrow> route_config option" where
  "lookupRoute config p =
     (let byThread = (if truthy (pa_threadId p)
            then findRoute (''thread:'' @ nullish (pa_threadId p) []) (rt_routes config) (pa_accountId p) (pa_channel p)
            else None);
          group = (if truthy (pa_groupId p) then Some (''group:'' @ stripAtSuffix (nullish (pa_groupId p) [])) else None);
          target = (if pa_isGroup p then nullish group (pa_phone p) else pa_phone p)
      in case byThread of
           Some r \<Rightarrow> Some r
         | None \<Rightarrow> findRoute target (rt_routes config) (pa_accountId p) (pa_channel p))"

definition resolveAgentId :: "router_config \<Rightarrow> route_params \<Rightarrow> route_config option \<Rightarrow> string option" where
  "resolveAgentId config p route =
     (let mapped = map_of (rt_accountAgents config) (nullish (pa_accountId p) []) in
      if route \<noteq> None \<and> truthy (map_option rc_agent route) then map_option rc_agent route
      else if truthy (pa_accountId p) \<and> truthy mapped then mapped
      else if \<not> truthy (pa_accountId p) \<or> mapped \<noteq> None then Some (rt_defaultAgent config)
      else None)"

definition matchRoute :: "router_config \<Rightarrow> route_params \<Rightarrow> route_error + matched_route option" where
  "matchRoute config p =
     (let route = lookupRoute config p in
      case resolveAgentId config p route of
        None \<Rightarrow> Inr None
      | Some agentId \<Rightarrow>
          (case map_of (rt_agents config) agentId of
             None \<Rightarrow> Inl (AgentNotFound agentId)
           | Some agent \<Rightarrow>
               (let dmScope = nullish (orElse (Option.bind route rc_dmScope) (ag_dmScope agent)) (rt_defaultDmScope config)
                in Inr (Some
                  \<lparr>mr_agentId = agentId, mr_agent = agent, mr_dmScope = dmScope,
                   mr_sessionKey = buildSessionKey
                     \<lparr>kp_agentId = agentId, kp_channel = pa_channel p, kp_accountId = pa_accountId p,
                      kp_peerKind = Some (nullish (pa_peerKind p) (if pa_isGroup p then ''group'' else ''dm'')),
                      kp_peerId = (if pa_isGroup p then pa_groupId p else Some (pa_phone p)),
                      kp_dmScope = Some dmScope, kp_threadId = pa_threadId p\<rparr>,
                   mr_route = route\<rparr>))))"

section \<open>Committing a route\<close>

definition cleanThreadId :: "string option \<Rightarrow> string option" where
  "cleanThreadId threadId = (if truthy (map_option trim threadId) then map_option trim threadId else None)"

fun contains_sub :: "string \<Rightarrow> string \<Rightarrow> bool" where
  "contains_sub sub [] = (sub = [])"
| "contains_sub sub (x # xs) = (prefix sub (x # xs) \<or> contains_sub sub xs)"

definition buildForcedRouteThreadSessionKey :: "string \<Rightarrow> string \<Rightarrow> string" where
  "buildForcedRouteThreadSessionKey parentSessionKey threadId =
     (if contains_sub '':thread:'' parentSessionKey then parentSessionKey
      else parentSessionKey @ '':thread:'' @ threadId)"

definition resolveCommittedSessionKey ::
  "string \<Rightarrow> string option \<Rightarrow> string option \<Rightarrow> string option \<Rightarrow> string" where
  "resolveCommittedSessionKey matchedSessionKey threadIdParam forcedName forcedParentKey =
     (case cleanThreadId threadIdParam of
        None \<Rightarrow> matchedSessionKey
      | Some threadId \<Rightarrow>
          (let base = orElse forcedParentKey (map_option trim forcedName) in
           if \<not> truthy base then matchedSessionKey
           else buildForcedRouteThreadSessionKey (nullish base []) threadId))"

definition generateThreadForkSessionName :: "string \<Rightarrow> string \<Rightarrow> string" where
  "generateThreadForkSessionName parentSessionName threadId =
     (let parent = strOr (slugify parentSessionName) ''session'';
          suffix = strOr (last_n 16 (filter is_alnum (filter (\<lambda>c. c \<noteq> CHR ''.'') threadId))) ''thread''
      in take 64 (parent @ ''-t-'' @ suffix))"

definition expandHome :: "string \<Rightarrow> string \<Rightarrow> string" where
  "expandHome home path = (if prefix ''~/'' path then home @ drop 1 path else path)"

text \<open>The name of a session that has none, or another than the one the route forces.\<close>

definition freshSessionName ::
  "string \<Rightarrow> matched_route \<Rightarrow> route_params \<Rightarrow> string option \<Rightarrow> string option \<Rightarrow> session_entry \<Rightarrow> string" where
  "freshSessionName now36 matched p threadId forced existing =
     (if truthy threadId \<and> truthy forced
      then generateThreadForkSessionName (nullish forced []) (nullish threadId [])
      else generateSessionName now36 (mr_agentId matched)
        \<lparr>no_groupName = orElse (se_displayName existing) (se_subject existing),
         no_peerKind = Some (nullish (pa_peerKind p) (if pa_isGroup p then ''group'' else ''dm'')),
         no_peerId = (if pa_isGroup p then pa_groupId p else Some (pa_phone p)),
         no_suffix = None, no_isMain = (mr_dmScope matched = ''main''), no_threadId = threadId\<rparr>)"

record commit_clock =
  cl_now :: int
  cl_now36 :: string
  cl_home :: string

text \<open>The result carries the store also when it is an error.\<close>

definition commitMatchedRoute ::
  "commit_clock \<Rightarrow> matched_route \<Rightarrow> route_params \<Rightarrow> session_store
     \<Rightarrow> (route_error + resolved_route) \<times> session_store" where
  "commitMatchedRoute cl matched p st =
     (let threadId = cleanThreadId (pa_threadId p);
          forced = Option.bind (mr_route matched) (\<lambda>r. map_option trim (rc_session r));
          agentCwd = expandHome (cl_home cl) (ag_cwd (mr_agent matched));
          forcedSession = (if truthy forced then getSessionByName st (nullish forced []) else None);
          resolved = \<lambda>key name created.
            \<lparr>rr_agent = mr_agent matched, rr_dmScope = mr_dmScope matched, rr_sessionKey = key,
             rr_sessionName = name, rr_createdSession = created, rr_route = mr_route matched\<rparr>
      in if truthy forced \<and> threadId = None
            \<and> (case forcedSession of None \<Rightarrow> False | Some t \<Rightarrow> se_sessionKey t \<noteq> mr_sessionKey matched)
         then (case forcedSession of
                 Some t \<Rightarrow> (Inr (resolved (se_sessionKey t) (nullish forced []) None), st)
               | None \<Rightarrow> (Inr (resolved (mr_sessionKey matched) (nullish forced []) None), st))
         else
           let key = resolveCommittedSessionKey (mr_sessionKey matched) threadId forced (map_option se_sessionKey forcedSession);
               created = (getSession st key = None);
               defaults = (case threadId of
                  None \<Rightarrow> None
                | Some t \<Rightarrow> Some ((blank_entry key (mr_agentId matched) agentCwd (cl_now cl))\<lparr>se_lastThreadId := Some t\<rparr>))
           in case getOrCreateSession (cl_now cl) key (mr_agentId matched) agentCwd defaults st of
                Inl err \<Rightarrow> (Inl (CommitFailed err), st)
              | Inr (existing, st1) \<Rightarrow>
                  (let assign = \<lambda>name. (case updateSessionName (cl_now cl) key name st1 of
                         Inl err \<Rightarrow> (Inl (CommitFailed err), st1)
                       | Inr st2 \<Rightarrow> (Inr (resolved key name (Some created)), st2))
                   in if truthy forced \<and> threadId = None \<and> se_name existing \<noteq> forced
                      then assign (nullish forced [])
                      else if \<not> truthy (se_name existing)
                      then assign (ensureUniqueName (isNameTaken st1) (cl_now36 cl)
                                     (freshSessionName (cl_now36 cl) matched p threadId forced existing))
                      else (Inr (resolved key (nullish (se_name existing) []) (Some created)), st1)))"

definition resolveRoute ::
  "commit_clock \<Rightarrow> router_config \<Rightarrow> route_params \<Rightarrow> session_store
     \<Rightarrow> (route_error + resolved_route option) \<times> session_store" where
  "resolveRoute cl config p st =
     (case matchRoute config p of
        Inl err \<Rightarrow> (Inl err, st)
      | Inr None \<Rightarrow> (Inr None, st)
      | Inr (Some m) \<Rightarrow>
          (case commitMatchedRoute cl m p st of
             (Inl err, st') \<Rightarrow> (Inl err, st')
           | (Inr r, st') \<Rightarrow> (Inr (Some r), st')))"

section \<open>Patterns\<close>

definition no_breaks :: "string \<Rightarrow> bool" where
  "no_breaks s \<longleftrightarrow> (\<forall>c \<in> set s. \<not> is_line_break c)"

lemma no_breaks_simps [simp]: "no_breaks []" "no_breaks (c # s) \<longleftrightarrow> \<not> is_line_break c \<and> no_breaks s"
  "no_breaks (s @ t) \<longleftrightarrow> no_breaks s \<and> no_breaks t"
  by (auto simp: no_breaks_def)

lemma glob_literal: "CHR ''*'' \<notin> set q \<Longrightarrow> glob q s \<longleftrightarrow> s = q"
  by (induction q s rule: glob.induct) auto

lemma glob_append_literal: "CHR ''*'' \<notin> set q \<Longrightarrow> glob (q @ ps) s \<longleftrightarrow> (\<exists>t. s = q @ t \<and> glob ps t)"
proof (induction q arbitrary: s)
  case (Cons c q)
  then show ?case by (cases s) auto
qed simp

lemma glob_star: "glob (CHR ''*'' # ps) s \<longleftrightarrow> (\<exists>u t. s = u @ t \<and> no_breaks u \<and> glob ps t)"
proof (induction s)
  case Nil
  show ?case by auto
next
  case (Cons x s)
  note IH = Cons.IH
  show ?case
  proof
    assume "glob (CHR ''*'' # ps) (x # s)"
    then consider (here) "glob ps (x # s)" | (on) "\<not> is_line_break x" "glob (CHR ''*'' # ps) s" by auto
    then show "\<exists>u t. x # s = u @ t \<and> no_breaks u \<and> glob ps t"
    proof cases
      case here
      then show ?thesis by (intro exI [of _ "[]"] exI [of _ "x # s"]) simp
    next
      case on
      then obtain u t where "s = u @ t" "no_breaks u" "glob ps t" using IH by blast
      with on(1) show ?thesis by (intro exI [of _ "x # u"] exI [of _ t]) simp
    qed
  next
    assume "\<exists>u t. x # s = u @ t \<and> no_breaks u \<and> glob ps t"
    then obtain u t where u: "x # s = u @ t" "no_breaks u" "glob ps t" by blast
    show "glob (CHR ''*'' # ps) (x # s)"
    proof (cases u)
      case Nil
      have "glob ps (x # s)" using u(1,3) unfolding Nil by (metis append_Nil)
      then show ?thesis by simp
    next
      case (Cons y v)
      with u have "\<exists>u t. s = u @ t \<and> no_breaks u \<and> glob ps t" by (intro exI [of _ v] exI [of _ t]) simp
      then have "glob (CHR ''*'' # ps) s" by (simp only: IH)
      moreover have "\<not> is_line_break x" using u Cons by simp
      ultimately show ?thesis by simp
    qed
  qed
qed

lemma to_lower_star: "CHR ''*'' \<in> set (to_lower s) \<longleftrightarrow> CHR ''*'' \<in> set s"
proof -
  have "lower_char c = CHR ''*'' \<longleftrightarrow> c = CHR ''*''" for c
  proof -
    have l: "of_char (lower_char c) = (let n = (of_char c :: nat) in if 65 \<le> n \<and> n \<le> 90 \<or> 192 \<le> n \<and> n \<le> 222 \<and> n \<noteq> 215 then n + 32 else n)"
      by (simp add: lower_char_def Let_def of_char_of)
    have eq: "d = CHR ''*'' \<longleftrightarrow> of_char d = (42 :: nat)" for d
      using of_char_eq_iff [of d "CHR ''*''", where 'a = nat] by simp
    show ?thesis unfolding eq l by (auto simp: Let_def)
  qed
  then have "CHR ''*'' = lower_char c \<longleftrightarrow> c = CHR ''*''" for c by metis
  then show ?thesis by (auto simp: to_lower_def image_iff)
qed

lemma to_lower_star_Cons [simp]: "to_lower (CHR ''*'' # s) = CHR ''*'' # to_lower s"
  by (simp add: to_lower_def lower_char_def Let_def)

lemma match_glob: "CHR ''*'' \<in> set pat \<Longrightarrow> pat \<noteq> ''*'' \<Longrightarrow> to_lower pat = lpat \<Longrightarrow>
    matchPattern_route s pat \<longleftrightarrow> glob lpat (to_lower s)"
proof -
  assume a: "CHR ''*'' \<in> set pat" "pat \<noteq> ''*''" "to_lower pat = lpat"
  have "length lpat = length pat" using a(3) by auto
  moreover have "pat = ''*''" if "length pat = 1" using that a(1) by (cases pat) auto
  ultimately have "lpat \<noteq> ''*''" using a(2) by auto
  with a to_lower_star [of pat] show ?thesis by (simp add: matchPattern_route_def)
qed

text \<open>the forms of a route pattern mean what they say, up to letter case: a pattern without a star is the
  exact text, a trailing star a prefix, a leading star a suffix, a star on both sides a part, and the
  matched remainder has no line break.\<close>

theorem pattern_forms:
  assumes "CHR ''*'' \<notin> set q" and "q \<noteq> []"
  shows "(matchPattern_route s q \<longleftrightarrow> to_lower s = to_lower q)
     \<and> (matchPattern_route s (q @ ''*'') \<longleftrightarrow> (\<exists>t. to_lower s = to_lower q @ t \<and> no_breaks t))
     \<and> (matchPattern_route s (''*'' @ q) \<longleftrightarrow> (\<exists>t. to_lower s = t @ to_lower q \<and> no_breaks t))
     \<and> (matchPattern_route s (''*'' @ q @ ''*'') \<longleftrightarrow>
          (\<exists>t u. to_lower s = t @ to_lower q @ u \<and> no_breaks t \<and> no_breaks u))
     \<and> matchPattern_route s ''*''"
proof -
  have q: "CHR ''*'' \<notin> set (to_lower q)" "to_lower q \<noteq> []"
    using assms to_lower_star [of q] by (simp_all add: to_lower_def)
  have star: "glob ''*'' t \<longleftrightarrow> no_breaks t" for t by (auto simp: glob_star glob_literal)
  have "matchPattern_route s q \<longleftrightarrow> to_lower s = to_lower q" using q(1) by (simp add: matchPattern_route_def)
  moreover have "matchPattern_route s (q @ ''*'') \<longleftrightarrow> glob (to_lower q @ ''*'') (to_lower s)"
    using assms(2) by (intro match_glob) (auto simp: append_eq_Cons_conv)
  moreover have "matchPattern_route s (''*'' @ q) \<longleftrightarrow> glob (CHR ''*'' # to_lower q) (to_lower s)"
    using assms(2) by (intro match_glob) auto
  moreover have "matchPattern_route s (''*'' @ q @ ''*'') \<longleftrightarrow> glob (CHR ''*'' # to_lower q @ ''*'') (to_lower s)"
    by (intro match_glob) auto
  moreover have "matchPattern_route s ''*''" by (simp add: matchPattern_route_def)
  moreover have "glob (to_lower q @ ''*'') t \<longleftrightarrow> (\<exists>u. t = to_lower q @ u \<and> no_breaks u)" for t
    by (simp only: glob_append_literal [OF q(1)] star)
  moreover have "glob (CHR ''*'' # to_lower q) t \<longleftrightarrow> (\<exists>u. t = u @ to_lower q \<and> no_breaks u)" for t
    by (simp only: glob_star glob_literal [OF q(1)]) blast
  moreover have "glob (CHR ''*'' # to_lower q @ ''*'') t
      \<longleftrightarrow> (\<exists>u v. t = u @ to_lower q @ v \<and> no_breaks u \<and> no_breaks v)" for t
    by (simp only: glob_star [of "to_lower q @ ''*''"] glob_append_literal [OF q(1)] star) blast
  ultimately show ?thesis by simp
qed

theorem pattern_forms_witness: "matchPattern_route ''5511999'' ''5511*'' \<and> \<not> matchPattern_route ''4411'' ''5511*''"
  using pattern_forms [of "''5511''" "''5511999''"] pattern_forms [of "''5511''" "''4411''"]
  by (simp add: to_lower_def lower_char_def no_breaks_def is_line_break_def)

section \<open>Finding the route\<close>

definition eligible :: "string \<Rightarrow> string option \<Rightarrow> string option \<Rightarrow> route_config \<Rightarrow> bool" where
  "eligible phone accountId channel r \<longleftrightarrow>
     (truthy accountId \<longrightarrow> Some (rc_accountId r) = accountId)
     \<and> (truthy channel \<longrightarrow> \<not> truthy (rc_channel r) \<or> rc_channel r = channel)
     \<and> matchPattern_route phone (rc_pattern r)"

text \<open>A route precedes another when it is channel-specific and the other is not, or else has the higher priority.\<close>

definition precedes :: "string option \<Rightarrow> route_config \<Rightarrow> route_config \<Rightarrow> bool" where
  "precedes channel r s \<longleftrightarrow>
     (isChannelSpecific channel r \<and> \<not> isChannelSpecific channel s)
     \<or> (isChannelSpecific channel r = isChannelSpecific channel s \<and> routePriority s \<le> routePriority r)"

lemma find_sorted_first:
  assumes "sorted (map f xs)" "find P xs = Some x" "y \<in> set xs" "P y"
  shows "f x \<le> f y"
  using assms by (induction xs) (auto split: if_splits)

lemma candidates_set:
  "set (sortRoutes ch (channelCandidates ch (accountCandidates acc routes)))
     = {r \<in> set routes. (truthy acc \<longrightarrow> Some (rc_accountId r) = acc) \<and> (truthy ch \<longrightarrow> \<not> truthy (rc_channel r) \<or> rc_channel r = ch)}"
  by (auto simp: sortRoutes_def channelCandidates_def accountCandidates_def)

text \<open>C33: the route found belongs to the account that received the message, applies to its channel and matches
  the sender, and no other eligible route precedes it; when none is eligible, none is found. No message is
  ever routed through another account's rule.\<close>

theorem find_route_best:
  "(case findRoute phone routes acc ch of
      None \<Rightarrow> \<forall>r \<in> set routes. \<not> eligible phone acc ch r
    | Some r \<Rightarrow> r \<in> set routes \<and> eligible phone acc ch r
        \<and> (\<forall>s \<in> set routes. eligible phone acc ch s \<longrightarrow> precedes ch r s))"
proof -
  let ?c = "sortRoutes ch (channelCandidates ch (accountCandidates acc routes))"
  let ?f = "\<lambda>r. (if isChannelSpecific ch r then 0 :: int else 1, - routePriority r)"
  have sorted: "sorted (map ?f ?c)" by (simp add: sortRoutes_def)
  show ?thesis
  proof (cases "findRoute phone routes acc ch")
    case None
    then have "\<forall>r \<in> set ?c. \<not> matchPattern_route phone (rc_pattern r)"
      by (auto simp: findRoute_def find_None_iff)
    then show ?thesis unfolding None candidates_set by (auto simp: eligible_def)
  next
    case (Some r)
    then have f: "find (\<lambda>r. matchPattern_route phone (rc_pattern r)) ?c = Some r" by (simp add: findRoute_def)
    then have r: "r \<in> set ?c" "matchPattern_route phone (rc_pattern r)" by (auto simp: find_Some_iff)
    have "precedes ch r s" if "s \<in> set routes" "eligible phone acc ch s" for s
    proof -
      have "s \<in> set ?c" "matchPattern_route phone (rc_pattern s)" using that by (auto simp: candidates_set eligible_def)
      then have "?f r \<le> ?f s" using find_sorted_first [OF sorted f] by blast
      then show ?thesis by (auto simp: precedes_def less_eq_prod_def split: if_splits)
    qed
    with r show ?thesis unfolding Some by (simp add: candidates_set eligible_def)
  qed
qed

definition sample_route :: "string \<Rightarrow> string \<Rightarrow> string option \<Rightarrow> int \<Rightarrow> route_config" where
  "sample_route pat acc ch prio = \<lparr>rc_pattern = pat, rc_accountId = acc, rc_agent = ''main'', rc_dmScope = None,
     rc_session = None, rc_priority = Some prio, rc_policy = None, rc_channel = ch\<rparr>"

theorem find_route_best_witness:
  "findRoute ''551'' [sample_route ''*'' ''a'' None 9, sample_route ''5*'' ''a'' (Some ''whatsapp'') 1, sample_route ''*'' ''b'' (Some ''whatsapp'') 99]
      (Some ''a'') (Some ''whatsapp'') = Some (sample_route ''5*'' ''a'' (Some ''whatsapp'') 1)
   \<and> precedes (Some ''whatsapp'') (sample_route ''5*'' ''a'' (Some ''whatsapp'') 1) (sample_route ''*'' ''a'' None 9)"
proof
  let ?rs = "[sample_route ''*'' ''a'' None 9, sample_route ''5*'' ''a'' (Some ''whatsapp'') 1, sample_route ''*'' ''b'' (Some ''whatsapp'') 99]"
  show f: "findRoute ''551'' ?rs (Some ''a'') (Some ''whatsapp'') = Some (sample_route ''5*'' ''a'' (Some ''whatsapp'') 1)"
    by code_simp
  have "eligible ''551'' (Some ''a'') (Some ''whatsapp'') (sample_route ''*'' ''a'' None 9)" by code_simp
  then show "precedes (Some ''whatsapp'') (sample_route ''5*'' ''a'' (Some ''whatsapp'') 1) (sample_route ''*'' ''a'' None 9)"
    using find_route_best [where phone = "''551''" and routes = ?rs and acc = "Some ''a''" and ch = "Some ''whatsapp''"]
    unfolding f by simp
qed

text \<open>a message is never handed to the default agent on behalf of an account that has neither a matching
  route nor an agent: it is not routed. A routed message goes to an agent that exists, under a session key
  of that agent.\<close>

theorem match_route_sound:
  "(case matchRoute config p of
      Inl (AgentNotFound a) \<Rightarrow> map_of (rt_agents config) a = None
    | Inl (CommitFailed _) \<Rightarrow> False
    | Inr None \<Rightarrow> truthy (pa_accountId p) \<and> map_of (rt_accountAgents config) (nullish (pa_accountId p) []) = None
    | Inr (Some m) \<Rightarrow> map_of (rt_agents config) (mr_agentId m) = Some (mr_agent m)
        \<and> prefix (''agent:'' @ mr_agentId m) (mr_sessionKey m)
        \<and> (case mr_route m of
             None \<Rightarrow> truthy (pa_accountId p) \<longrightarrow> map_of (rt_accountAgents config) (nullish (pa_accountId p) []) \<noteq> None
           | Some r \<Rightarrow> r \<in> set (rt_routes config) \<and> (truthy (pa_accountId p) \<longrightarrow> Some (rc_accountId r) = pa_accountId p)))"
proof -
  have found: "findRoute ph (rt_routes config) acc ch = Some r \<Longrightarrow>
      r \<in> set (rt_routes config) \<and> (truthy acc \<longrightarrow> Some (rc_accountId r) = acc)" for ph acc ch r
  proof -
    assume "findRoute ph (rt_routes config) acc ch = Some r"
    then have "r \<in> set (sortRoutes ch (channelCandidates ch (accountCandidates acc (rt_routes config))))"
      unfolding findRoute_def find_Some_iff by (metis nth_mem)
    then show ?thesis by (simp add: candidates_set)
  qed
  have route: "lookupRoute config p = Some r \<Longrightarrow>
      r \<in> set (rt_routes config) \<and> (truthy (pa_accountId p) \<longrightarrow> Some (rc_accountId r) = pa_accountId p)" for r
    using found by (auto simp: lookupRoute_def Let_def split: option.splits if_splits)
  have key: "prefix (''agent:'' @ kp_agentId k) (buildSessionKey k)" for k
    by (cases "tl (tl (sessionKeyParts k))") (auto simp: buildSessionKey_def sessionKeyParts_def Let_def)
  show ?thesis
    using route key [of "\<lparr>kp_agentId = _, kp_channel = _, kp_accountId = _, kp_peerKind = _, kp_peerId = _, kp_dmScope = _, kp_threadId = _\<rparr>"]
    by (auto simp: matchRoute_def resolveAgentId_def Let_def split: option.splits if_splits)
qed

section \<open>Committing a route\<close>

lemma updateSessionName_lookup:
  assumes "updateSessionName now k n st = Inr st'" "has_key st k"
  shows "\<exists>e. getSession st' k = Some e \<and> se_name e = Some (trim n) \<and> se_agentId e = se_agentId (the (getSession st k))"
proof -
  obtain m where m: "normalizeCanonicalSessionName n = Inr m" "set_name now k m st = Inr st'"
    using assms(1) by (auto simp: updateSessionName_def split: sum.splits)
  then have mt: "m = trim n" by (simp add: normalizeCanonicalSessionName_def Let_def split: if_splits)
  obtain row where row: "row_by_key k (ss_sessions st) = Some row"
    using assms(2) unfolding has_key_def by (cases "row_by_key k (ss_sessions st)") simp_all
  have "row_by_key k (ss_sessions st') = Some (row\<lparr>se_name := Some m, se_updatedAt := now\<rparr>)"
    unfolding set_name_update [OF m(2)] by (rule update_row [OF _ row]) simp
  then show ?thesis using row mt
    by (intro exI [of _ "rowToEntry (row\<lparr>se_name := Some m, se_updatedAt := now\<rparr>)"]) (simp add: getSession_def)
qed

lemma getOrCreate_name:
  assumes "getOrCreateSession now k a c d st = Inr (e, st')" "row_by_key k (ss_sessions st') = Some row"
  shows "se_name row = se_name e"
proof (cases "row_by_key k (ss_sessions st)")
  case None
  then have "st' = st\<lparr>ss_sessions := ss_sessions st @ [insert_row k a c d now]\<rparr>" "e = rowToEntry (insert_row k a c d now)"
    using assms(1) by (simp_all add: getOrCreateSession_def Let_def split: if_splits)
  moreover from this have "row = insert_row k a c d now" using assms(2) None by (simp add: row_by_key_append)
  ultimately show ?thesis by simp
next
  case (Some old)
  then have "e = rowToEntry (clear_provider (old\<lparr>se_agentId := a, se_agentCwd := c\<rparr>))
        \<and> st' = update_key k (\<lambda>e. (clear_provider e)\<lparr>se_agentId := a, se_agentCwd := c, se_updatedAt := now\<rparr>) st
      \<or> e = rowToEntry old \<and> st' = st"
    using assms(1) by (simp add: getOrCreateSession_def split: if_splits)
  then show ?thesis
  proof (elim disjE conjE)
    assume e: "e = rowToEntry (clear_provider (old\<lparr>se_agentId := a, se_agentCwd := c\<rparr>))"
      and st': "st' = update_key k (\<lambda>e. (clear_provider e)\<lparr>se_agentId := a, se_agentCwd := c, se_updatedAt := now\<rparr>) st"
    have "row_by_key k (ss_sessions st') = Some ((clear_provider old)\<lparr>se_agentId := a, se_agentCwd := c, se_updatedAt := now\<rparr>)"
      unfolding st' by (rule update_row [OF _ Some]) (simp add: clear_provider_def)
    with assms(2) have "row = (clear_provider old)\<lparr>se_agentId := a, se_agentCwd := c, se_updatedAt := now\<rparr>" by simp
    with e show ?thesis by (simp add: clear_provider_def)
  next
    assume "e = rowToEntry old" "st' = st"
    with Some assms(2) show ?thesis by simp
  qed
qed

lemma commit_cases:
  assumes "commitMatchedRoute cl m p st = (Inr r, st')"
  obtains (redirect) t n where "getSessionByName st n = Some t" "rr_sessionKey r = se_sessionKey t" "rr_sessionName r = n" "st' = st"
      "Option.bind (mr_route m) rc_session \<noteq> None"
  | (named) k c d e st1 now where "getOrCreateSession now k (mr_agentId m) c d st = Inr (e, st1)"
      "updateSessionName now k (rr_sessionName r) st1 = Inr st'" "rr_sessionKey r = k"
  | (kept) k c d e now where "getOrCreateSession now k (mr_agentId m) c d st = Inr (e, st')"
      "se_name e = Some (rr_sessionName r)" "rr_sessionKey r = k"
proof -
  define forced where "forced = Option.bind (mr_route m) (\<lambda>r. map_option trim (rc_session r))"
  define fs where "fs = (if truthy forced then getSessionByName st (nullish forced []) else None)"
  define thr where "thr = cleanThreadId (pa_threadId p)"
  show ?thesis
  proof (cases "truthy forced \<and> thr = None \<and> (case fs of None \<Rightarrow> False | Some t \<Rightarrow> se_sessionKey t \<noteq> mr_sessionKey m)")
    case True
    then obtain t where t: "fs = Some t" by (cases fs) auto
    have "getSessionByName st (nullish forced []) = Some t" using t True by (simp add: fs_def)
    moreover have "r = \<lparr>rr_agent = mr_agent m, rr_dmScope = mr_dmScope m, rr_sessionKey = se_sessionKey t,
        rr_sessionName = nullish forced [], rr_createdSession = None, rr_route = mr_route m\<rparr>" "st' = st"
      using assms True t unfolding commitMatchedRoute_def Let_def forced_def [symmetric] fs_def [symmetric] thr_def [symmetric]
      by simp_all
    moreover have "Option.bind (mr_route m) rc_session \<noteq> None"
      using True by (auto simp: forced_def elim!: truthyE split: Option.bind_splits)
    ultimately show ?thesis by (intro redirect) simp_all
  next
    case False
    define k where "k = resolveCommittedSessionKey (mr_sessionKey m) thr forced (map_option se_sessionKey fs)"
    define c where "c = expandHome (cl_home cl) (ag_cwd (mr_agent m))"
    define d where "d = (case thr of None \<Rightarrow> None
        | Some t \<Rightarrow> Some ((blank_entry k (mr_agentId m) c (cl_now cl))\<lparr>se_lastThreadId := Some t\<rparr>))"
    note body = assms [unfolded commitMatchedRoute_def Let_def, folded forced_def, folded fs_def thr_def,
        folded k_def c_def, folded d_def]
    show ?thesis
    proof (cases "getOrCreateSession (cl_now cl) k (mr_agentId m) c d st")
      case (Inl err)
      with body False show ?thesis by simp
    next
      case (Inr es)
      obtain e st1 where es: "es = (e, st1)" by (cases es)
      note goc = Inr [unfolded es]
      show ?thesis
      proof (cases "(truthy forced \<and> thr = None \<and> se_name e \<noteq> forced) \<or> \<not> truthy (se_name e)")
        case True
        then obtain n where "updateSessionName (cl_now cl) k n st1 = Inr st'" "rr_sessionKey r = k" "rr_sessionName r = n"
          using body False goc by (auto split: if_splits sum.splits)
        with goc show ?thesis by (intro named) simp_all
      next
        case F: False
        then have "st1 = st'" "rr_sessionKey r = k" "rr_sessionName r = nullish (se_name e) []"
          using body False goc by (auto split: if_splits)
        moreover have "se_name e = Some (nullish (se_name e) [])" using F by (auto elim: truthyE)
        ultimately show ?thesis using goc by (intro kept) simp_all
      qed
    qed
  qed
qed

text \<open>committing a matched route ends in a session that the store holds under the returned key and finds
  under the returned name, up to white space around it, and keeps keys and names unique; a session it
  did not redirect to belongs to the matched agent.\<close>

theorem commit_route_session:
  assumes "store_reachable st" and "commitMatchedRoute cl m p st = (Inr r, st')"
  shows "store_reachable st' \<and> (\<exists>e. getSession st' (rr_sessionKey r) = Some e
       \<and> map_option trim (se_name e) = Some (trim (rr_sessionName r))
       \<and> (Option.bind (mr_route m) rc_session = None \<longrightarrow> se_agentId e = mr_agentId m))"
  using assms(2)
proof (cases rule: commit_cases)
  case (redirect t n)
  have ok: "store_ok st" using assms(1) by (rule store_reachable_invariant)
  obtain row where row: "row \<in> set (ss_sessions st)" "se_name row = Some n" "rowToEntry row = t"
    using redirect(1) ok by (rule getSessionByNameE)
  have "se_sessionKey row = se_sessionKey t" unfolding row(3) [symmetric] by simp
  with getSession_row [OF ok row(1)] have "getSession st (se_sessionKey t) = Some (rowToEntry row)" by simp
  moreover have "Option.bind (mr_route m) rc_session = None \<longrightarrow> se_agentId (rowToEntry row) = mr_agentId m"
    using redirect(5) by blast
  ultimately show ?thesis using redirect(2,3,4) row(2) assms(1) by (intro conjI exI [of _ "rowToEntry row"]) simp_all
next
  case (named k c d e st1 now)
  obtain row where row: "row_by_key k (ss_sessions st1) = Some row" "se_agentId row = mr_agentId m"
    using getOrCreate_row [OF named(1)] by (elim exE conjE)
  then have k: "has_key st1 k" "se_agentId (the (getSession st1 k)) = mr_agentId m" by (simp_all add: has_key_def getSession_def)
  obtain e2 where "getSession st' k = Some e2" "se_name e2 = Some (trim (rr_sessionName r))" "se_agentId e2 = mr_agentId m"
    using updateSessionName_lookup [OF named(2) k(1)] unfolding k(2) by (elim exE conjE)
  moreover have "store_reachable st'"
    using store_reachable.step [OF store_reachable.step [OF assms(1) store_step.create [OF named(1)]] store_step.name [OF named(2)]] .
  ultimately show ?thesis using named(3) by (intro conjI exI [of _ e2]) simp_all
next
  case (kept k c d e now)
  obtain row where row: "row_by_key k (ss_sessions st') = Some row" "se_agentId row = mr_agentId m" "se_agentCwd row = c"
    using getOrCreate_row [OF kept(1)] by (elim exE conjE)
  have "getSession st' k = Some (rowToEntry row)" using row(1) by (simp add: getSession_def)
  moreover have "se_name row = se_name e"
    by (rule getOrCreate_name [OF kept(1) row(1)])
  moreover have "store_reachable st'" using store_reachable.step [OF assms(1) store_step.create [OF kept(1)]] .
  ultimately show ?thesis using kept(2,3) row(2) by (intro conjI exI [of _ "rowToEntry row"]) simp_all
qed

definition sample_clock :: commit_clock where
  "sample_clock = \<lparr>cl_now = 100, cl_now36 = ''lx1'', cl_home = ''/root''\<rparr>"

definition sample_match :: "string \<Rightarrow> matched_route" where
  "sample_match key = \<lparr>mr_agentId = ''main'', mr_agent = \<lparr>ag_id = ''main'', ag_cwd = ''~/ravi'', ag_dmScope = None\<rparr>,
     mr_dmScope = ''per-peer'', mr_sessionKey = key, mr_route = None\<rparr>"

definition sample_params :: "bool \<Rightarrow> string option \<Rightarrow> route_params" where
  "sample_params isGroup groupId = \<lparr>pa_phone = ''5511999'', pa_channel = Some ''whatsapp'', pa_accountId = Some ''a'',
     pa_isGroup = isGroup, pa_groupId = groupId, pa_threadId = None, pa_peerKind = None\<rparr>"

definition empty_store :: session_store where
  "empty_store = \<lparr>ss_sessions = [], ss_routes = []\<rparr>"

theorem commit_route_session_witness:
  "\<exists>r st' e. commitMatchedRoute sample_clock (sample_match ''agent:main:dm:5511999'') (sample_params False None) empty_store = (Inr r, st')
     \<and> getSession st' (rr_sessionKey r) = Some e \<and> se_agentId e = ''main''"
proof -
  have "case commitMatchedRoute sample_clock (sample_match ''agent:main:dm:5511999'') (sample_params False None) empty_store of
      (Inr r, st') \<Rightarrow> True | _ \<Rightarrow> False" by code_simp
  then obtain r st' where c: "commitMatchedRoute sample_clock (sample_match ''agent:main:dm:5511999'')
      (sample_params False None) empty_store = (Inr r, st')"
    by (auto split: prod.splits sum.splits)
  have "store_reachable empty_store" by (rule store_reachable.empty) (simp add: empty_store_def)
  from commit_route_session [OF this c] obtain e where "getSession st' (rr_sessionKey r) = Some e"
    "se_agentId e = mr_agentId (sample_match ''agent:main:dm:5511999'')" by (auto simp: sample_match_def)
  with c show ?thesis by (intro exI conjI) (simp_all add: sample_match_def)
qed

definition sample_config :: router_config where
  "sample_config = \<lparr>rt_agents = [(''main'', \<lparr>ag_id = ''main'', ag_cwd = ''~/ravi'', ag_dmScope = None\<rparr>)],
     rt_routes = [sample_route ''*'' ''a'' None 0], rt_defaultAgent = ''main'', rt_defaultDmScope = ''per-peer'',
     rt_accountAgents = []\<rparr>"

theorem match_route_sound_witness:
  "(case matchRoute sample_config (sample_params False None) of
      Inr (Some m) \<Rightarrow> prefix ''agent:main'' (mr_sessionKey m) \<and> map_option rc_accountId (mr_route m) = Some ''a''
    | _ \<Rightarrow> False)"
proof -
  have m: "(case matchRoute sample_config (sample_params False None) of
      Inr (Some m) \<Rightarrow> mr_agentId m = ''main'' \<and> mr_route m \<noteq> None | _ \<Rightarrow> False)" by code_simp
  have a: "pa_accountId (sample_params False None) = Some ''a''" by (simp add: sample_params_def)
  show ?thesis using match_route_sound [of sample_config "sample_params False None"] m
    by (auto simp: a split: sum.splits option.splits)
qed

text \<open>when the generated name is refused, the commit fails after it has created the session row: the first
  message of a Matrix room leaves an unnamed row behind and is not routed.\<close>

theorem commit_leaves_orphan_row:
  "case commitMatchedRoute sample_clock (sample_match ''agent:main:matrix:a:group:!abc:server.org'')
      (sample_params True (Some ''!abc:server.org'')) empty_store of
     (Inl (CommitFailed (BadName _)), st') \<Rightarrow>
        map se_sessionKey (ss_sessions st') = [''agent:main:matrix:a:group:!abc:server.org'']
        \<and> map se_name (ss_sessions st') = [None]
   | _ \<Rightarrow> False"
  by code_simp

end
