(* ===== verification/MessageTypes.thy ===== *)
theory MessageTypes
  imports DeliveryBarriers
begin

text \<open>
  The messages of the runtime (\<open>src/src/runtime/message-types.ts\<close>, and the queued user
  message of \<open>types.ts\<close> and \<open>host-session.ts\<close>). The actor metadata is a record that the
  message target and the message context extend, as the interfaces do. A marker that the
  code only tests for truth is a \<open>bool\<close>; the turn origin of a prompt is an unvalidated
  value; the thread hand-off metadata is only tested for presence. The numbers that
  nothing here reads (confidence and edit time) are left out.
\<close>

section \<open>Actors, targets and contexts\<close>

record message_actor =
  ma_canonicalChatId :: "string option"
  ma_actorType :: "string option"
  ma_contactId :: "string option"
  ma_actorAgentId :: "string option"
  ma_automationId :: "string option"
  ma_platformIdentityId :: "string option"
  ma_rawSenderId :: "string option"
  ma_normalizedSenderId :: "string option"
  ma_identityProvenance :: "json option"

record message_context = message_actor +
  mx_channelId :: string
  mx_channelName :: string
  mx_accountId :: string
  mx_instanceId :: "string option"
  mx_chatId :: string
  mx_messageId :: string
  mx_senderId :: string
  mx_senderName :: "string option"
  mx_isGroup :: bool
  mx_groupName :: "string option"
  mx_groupId :: "string option"
  mx_groupMembers :: "string list option"
  mx_isEditedMessage :: "bool option"
  mx_editedMessageId :: "string option"
  mx_editEventId :: "string option"
  mx_botTag :: "string option"

record message_target = message_actor +
  mt_channel :: string
  mt_accountId :: string
  mt_instanceId :: "string option"
  mt_chatId :: string
  mt_threadId :: "string option"
  mt_sourceMessageId :: "string option"
  mt_statusAnchorMessageId :: "string option"
  mt_statusAnchorKind :: "string option"
  mt_suppressPresence :: "bool option"

section \<open>Prompt metadata\<close>

record command_metadata =
  cm_id :: string
  cm_scope :: string
  cm_sourcePath :: string
  cm_originalText :: string
  cm_arguments :: string
  cm_renderedPromptSha256 :: string

record observation_metadata =
  ob_sourceSessionKey :: string
  ob_sourceSessionName :: string
  ob_bindingId :: string
  ob_ruleId :: string
  ob_role :: string
  ob_mode :: string

record restart_metadata =
  rs_restartEpoch :: string
  rs_sessionKey :: "string option"
  rs_pendingOnly :: bool
  rs_runtimeProvider :: "string option"

record backend_metadata =
  bk_ingressRequestId :: string
  bk_correlationId :: string
  bk_channelInstanceId :: string
  bk_agentId :: string
  bk_chatId :: string
  bk_messageId :: string
  bk_sessionId :: string
  bk_turnId :: string
  bk_channelKind :: string
  bk_connectionId :: string
  bk_conversationId :: string

record launch_prompt =
  lp_prompt :: string
  lp_commands :: "command_metadata list option"
  lp_deliveryBarrier :: "delivery_barrier option"
  lp_deliveryBarrierSource :: "delivery_barrier_source option"
  lp_taskBarrierTaskId :: "string option"
  lp_source :: "message_target option"
  lp_context :: "message_context option"
  lp_approvalSource :: "message_target option"
  lp_agentId :: "string option"
  lp_runtimeProviderId :: "string option"
  lp_runtimeModel :: "string option"
  lp_observation :: "observation_metadata option"
  lp_heartbeat :: bool
  lp_cron :: bool
  lp_jobId :: "string option"
  lp_trigger :: bool
  lp_triggerId :: "string option"
  lp_sessionFollowup :: bool
  lp_sessionFollowupCadenceId :: "string option"
  lp_thread :: bool
  lp_resumeStashedMessages :: bool
  lp_daemonRestartResume :: "restart_metadata option"
  lp_sessionSurfaceHint :: bool
  lp_sessionSurfaceHintText :: "string option"
  lp_runtimePrompt :: "string option"
  lp_cliDestination :: bool
  lp_channelBackend :: "backend_metadata option"
  lp_turnOrigin :: "json option"
  lp_deferRuntimeStart :: bool

section \<open>Queued messages\<close>

text \<open>
  A queued user message. \<open>um_ref\<close> is the identity of the object, which the code compares with
  \<open>===\<close> and \<open>Set.has\<close>; a copy that takes the place of its original keeps it.
\<close>

record user_message =
  um_ref :: nat
  um_content :: string
  um_clientMessageId :: "string option"
  um_replay :: "bool option"
  um_terminalReplayAllowed :: "bool option"
  um_deliveryBarrier :: "delivery_barrier option"
  um_deliveryBarrierSource :: "delivery_barrier_source option"
  um_taskBarrierTaskId :: "string option"
  um_commands :: "command_metadata list option"
  um_launchPrompt :: "launch_prompt option"
  um_pendingId :: "string option"
  um_queuedAt :: "int option"

abbreviation um_source :: "user_message \<Rightarrow> message_target option" where
  "um_source m \<equiv> Option.bind (um_launchPrompt m) lp_source"

abbreviation um_barrier :: "user_message \<Rightarrow> delivery_barrier" where
  "um_barrier m \<equiv> nullish (um_deliveryBarrier m) DEFAULT_DELIVERY_BARRIER"

text \<open>Whether the pending id of a message is one of the given ids (\<open>pendingId && ids.has(pendingId)\<close>).\<close>

definition pending_in :: "string set \<Rightarrow> user_message \<Rightarrow> bool" where
  "pending_in ids m = (case um_pendingId m of None \<Rightarrow> False | Some p \<Rightarrow> p \<noteq> [] \<and> p \<in> ids)"

lemma pending_in_empty [simp]: "\<not> pending_in {} m"
  by (simp add: pending_in_def split: option.split)

lemma pending_in_iff: "pending_in ids m \<longleftrightarrow> (\<exists>p. um_pendingId m = Some p \<and> p \<noteq> [] \<and> p \<in> ids)"
  by (simp add: pending_in_def split: option.split)

end
