(* ===== verification/TurnOrigin.thy ===== *)
theory TurnOrigin
  imports MessageTypes
begin

text \<open>
  The origin of a turn (\<open>src/src/runtime/turn-origin.ts\<close>) and its provenance
  (\<open>turn-provenance.ts\<close>): the envelopes a trusted producer builds, the validation of an
  envelope that came over the prompt bus, and the classification of the cause of a turn.
\<close>

section \<open>Envelopes\<close>

definition RUNTIME_TURN_ORIGIN_PROTOCOL :: string where
  "RUNTIME_TURN_ORIGIN_PROTOCOL = ''ravi.runtime.turn-origin''"

definition RUNTIME_TURN_ORIGIN_SCHEMA_VERSION :: int where
  "RUNTIME_TURN_ORIGIN_SCHEMA_VERSION = 1"

definition SESSION_RELAY_ACTIONS :: "string list" where
  "SESSION_RELAY_ACTIONS = [''send'', ''ask'', ''answer'', ''execute'', ''inform'']"

definition CHANNEL_TURN_ACTIONS :: "string list" where
  "CHANNEL_TURN_ACTIONS = [''session.bootstrap'', ''session.return'']"

datatype principal_type = PAgent | PAutomation

record origin_principal =
  op_type :: principal_type
  op_id :: string

record origin_session =
  os_key :: "string option"
  os_name :: "string option"

text \<open>The two kinds of envelope; both carry the protocol and the schema version above.\<close>

datatype turn_origin =
  RelayOrigin (to_action: string) (to_principal: origin_principal) (to_session: "origin_session option")
| ChannelOrigin (to_action: string) (to_principal: origin_principal)

record relay_context =
  rx_agentId :: "string option"
  rx_sessionKey :: "string option"
  rx_sessionName :: "string option"

abbreviation clean_opt :: "string option \<Rightarrow> string option" where
  "clean_opt v \<equiv> cleanString (map_option JStr v)"

definition buildRuntimeCallerPrincipal :: "relay_context \<Rightarrow> origin_principal" where
  "buildRuntimeCallerPrincipal ctx =
     (case clean_opt (rx_agentId ctx) of
        Some agentId \<Rightarrow> \<lparr>op_type = PAgent, op_id = agentId\<rparr>
      | None \<Rightarrow>
          \<lparr>op_type = PAutomation,
           op_id = (case clean_opt (rx_sessionKey ctx) of
                      Some sessionKey \<Rightarrow> ''session:'' @ sessionKey
                    | None \<Rightarrow> ''operator:local'')\<rparr>)"

definition buildSessionRelayTurnOrigin :: "string \<Rightarrow> relay_context \<Rightarrow> turn_origin" where
  "buildSessionRelayTurnOrigin action ctx =
     (let agentId = clean_opt (rx_agentId ctx);
          sessionKey = clean_opt (rx_sessionKey ctx);
          sessionName = clean_opt (rx_sessionName ctx);
          session = (if sessionKey \<noteq> None \<or> sessionName \<noteq> None
                     then Some \<lparr>os_key = sessionKey, os_name = sessionName\<rparr> else None)
      in RelayOrigin action
           (buildRuntimeCallerPrincipal
              \<lparr>rx_agentId = agentId, rx_sessionKey = sessionKey, rx_sessionName = sessionName\<rparr>)
           session)"

section \<open>Validation\<close>

text \<open>An envelope as an untyped value, the way it travels on the prompt bus.\<close>

fun principal_type_name :: "principal_type \<Rightarrow> string" where
  "principal_type_name PAgent = ''agent''"
| "principal_type_name PAutomation = ''automation''"

definition principal_value :: "origin_principal \<Rightarrow> json" where
  "principal_value p =
     JObj [(''type'', JStr (principal_type_name (op_type p))), (''id'', JStr (op_id p))]"

definition opt_field :: "string \<Rightarrow> string option \<Rightarrow> (string \<times> json) list" where
  "opt_field k v = (case v of None \<Rightarrow> [] | Some s \<Rightarrow> [(k, JStr s)])"

definition session_value :: "origin_session \<Rightarrow> json" where
  "session_value s = JObj (opt_field ''key'' (os_key s) @ opt_field ''name'' (os_name s))"

fun origin_value :: "turn_origin \<Rightarrow> json" where
  "origin_value (RelayOrigin a p s) =
     JObj ([(''protocol'', JStr RUNTIME_TURN_ORIGIN_PROTOCOL),
            (''schemaVersion'', JNum RUNTIME_TURN_ORIGIN_SCHEMA_VERSION),
            (''producer'', JStr ''session-relay''), (''action'', JStr a),
            (''principal'', principal_value p)]
           @ (case s of None \<Rightarrow> [] | Some v \<Rightarrow> [(''session'', session_value v)]))"
| "origin_value (ChannelOrigin a p) =
     JObj [(''protocol'', JStr RUNTIME_TURN_ORIGIN_PROTOCOL),
           (''schemaVersion'', JNum RUNTIME_TURN_ORIGIN_SCHEMA_VERSION),
           (''producer'', JStr ''channel''), (''action'', JStr a),
           (''principal'', principal_value p)]"

definition resolvePrincipal :: "json option \<Rightarrow> origin_principal option" where
  "resolvePrincipal value =
     (case value of
        None \<Rightarrow> None
      | Some v \<Rightarrow>
          if \<not> is_record v then None
          else if jget ''type'' v \<noteq> Some (JStr ''agent'') \<and> jget ''type'' v \<noteq> Some (JStr ''automation'')
          then None
          else (case cleanString (jget ''id'' v) of
                  None \<Rightarrow> None
                | Some i \<Rightarrow>
                    Some \<lparr>op_type = (if jget ''type'' v = Some (JStr ''agent'') then PAgent else PAutomation),
                          op_id = i\<rparr>))"

definition resolveOriginSession :: "json option \<Rightarrow> origin_session option" where
  "resolveOriginSession value =
     (case value of
        None \<Rightarrow> None
      | Some v \<Rightarrow>
          if \<not> is_record v then None
          else let key = cleanString (jget ''key'' v); name = cleanString (jget ''name'' v)
               in if key = None \<and> name = None then None
                  else Some \<lparr>os_key = key, os_name = name\<rparr>)"

definition action_of :: "string list \<Rightarrow> json option \<Rightarrow> string option" where
  "action_of actions value =
     (case value of Some (JStr a) \<Rightarrow> if a \<in> set actions then Some a else None | _ \<Rightarrow> None)"

abbreviation isSessionRelayAction :: "json option \<Rightarrow> string option" where
  "isSessionRelayAction \<equiv> action_of SESSION_RELAY_ACTIONS"

abbreviation isChannelTurnAction :: "json option \<Rightarrow> string option" where
  "isChannelTurnAction \<equiv> action_of CHANNEL_TURN_ACTIONS"

definition resolveRuntimeTurnOrigin :: "json option \<Rightarrow> turn_origin option" where
  "resolveRuntimeTurnOrigin value =
     (case value of
        None \<Rightarrow> None
      | Some v \<Rightarrow>
          if \<not> is_record v then None
          else if jget ''protocol'' v \<noteq> Some (JStr RUNTIME_TURN_ORIGIN_PROTOCOL)
               \<or> jget ''schemaVersion'' v \<noteq> Some (JNum RUNTIME_TURN_ORIGIN_SCHEMA_VERSION)
          then None
          else (case resolvePrincipal (jget ''principal'' v) of
                  None \<Rightarrow> None
                | Some p \<Rightarrow>
                    if jget ''producer'' v = Some (JStr ''session-relay'')
                    then map_option (\<lambda>a. RelayOrigin a p (resolveOriginSession (jget ''session'' v)))
                           (isSessionRelayAction (jget ''action'' v))
                    else if jget ''producer'' v = Some (JStr ''channel'')
                    then map_option (\<lambda>a. ChannelOrigin a p) (isChannelTurnAction (jget ''action'' v))
                    else None))"

definition isSessionRelayTurn :: "launch_prompt \<Rightarrow> bool" where
  "isSessionRelayTurn prompt =
     (case resolveRuntimeTurnOrigin (lp_turnOrigin prompt) of
        Some (RelayOrigin _ _ _) \<Rightarrow> True | _ \<Rightarrow> False)"

datatype origin_error = UnsupportedAction string | InvalidPrincipal

definition buildChannelTurnOrigin :: "string \<Rightarrow> json option \<Rightarrow> origin_error + turn_origin" where
  "buildChannelTurnOrigin action caller =
     (if isChannelTurnAction (Some (JStr action)) = None then Inl (UnsupportedAction action)
      else (case resolvePrincipal caller of
              None \<Rightarrow> Inl InvalidPrincipal
            | Some p \<Rightarrow> Inr (ChannelOrigin action p)))"

section \<open>Provenance\<close>

datatype turn_cause = CHuman | CCron | CTrigger | CSessionFollowup | CHeartbeat | CObserver | CTask
  | CRoutine | CDaemonRestart | CAutomation | CAgent | CSystem | CBackground | CUnknown

record turn_provenance =
  tp_origin :: turn_cause
  tp_background :: bool
  tp_automationOriginated :: bool
  tp_automationId :: "string option"
  tp_reason :: string

record provenance_source =
  ps_actorType :: "string option"
  ps_automationId :: "string option"
  ps_identityProvenance :: "json option"
  ps_suppressPresence :: "bool option"

definition AUTOMATION_ORIGINS :: "turn_cause list" where
  "AUTOMATION_ORIGINS =
    [CCron, CTrigger, CSessionFollowup, CHeartbeat, CObserver, CTask, CRoutine, CDaemonRestart,
     CAutomation, CAgent, CSystem, CBackground]"

definition provenance_result :: "turn_cause \<Rightarrow> string \<Rightarrow> string option \<Rightarrow> turn_provenance" where
  "provenance_result origin reason automationId =
     \<lparr>tp_origin = origin,
      tp_background = (origin \<noteq> CHuman \<and> origin \<noteq> CUnknown),
      tp_automationOriginated = (origin \<in> set AUTOMATION_ORIGINS),
      tp_automationId = (if truthy automationId then automationId else None),
      tp_reason = reason\<rparr>"

definition provenanceSource :: "provenance_source \<Rightarrow> string option" where
  "provenanceSource source =
     (case ps_identityProvenance source of
        None \<Rightarrow> None
      | Some p \<Rightarrow> map_option to_lower (cleanString (jget ''source'' p)))"

definition ORIGIN_NAMES :: "(string \<times> turn_cause) list" where
  "ORIGIN_NAMES =
    [(''cron'', CCron), (''trigger'', CTrigger), (''session-followup'', CSessionFollowup),
     (''sessionfollowup'', CSessionFollowup), (''heartbeat'', CHeartbeat), (''observer'', CObserver),
     (''observation'', CObserver), (''task'', CTask), (''routine'', CRoutine),
     (''daemon-restart'', CDaemonRestart), (''automation'', CAutomation), (''background'', CBackground)]"

definition originFromProvenanceSource :: "string option \<Rightarrow> turn_cause option" where
  "originFromProvenanceSource v = Option.bind v (map_of ORIGIN_NAMES)"

definition originFromAutomationId :: "string \<Rightarrow> turn_cause" where
  "originFromAutomationId automationId =
     nullish (originFromProvenanceSource (Some (to_lower (hd (split_on (CHR '':'') automationId))))) CAutomation"

text \<open>The source the classification reads: the explicit source over the prompt's context and source.\<close>

definition effective_source ::
  "launch_prompt option \<Rightarrow> provenance_source option \<Rightarrow> provenance_source" where
  "effective_source prompt source =
     (let pctx = Option.bind prompt lp_context; psrc = Option.bind prompt lp_source in
      \<lparr>ps_actorType = orElse (Option.bind source ps_actorType)
          (orElse (Option.bind pctx ma_actorType) (Option.bind psrc ma_actorType)),
       ps_automationId = orElse (Option.bind source ps_automationId)
          (orElse (Option.bind pctx ma_automationId) (Option.bind psrc ma_automationId)),
       ps_identityProvenance = orElse (Option.bind source ps_identityProvenance)
          (orElse (Option.bind pctx ma_identityProvenance) (Option.bind psrc ma_identityProvenance)),
       ps_suppressPresence = orElse (Option.bind source ps_suppressPresence)
          (Option.bind psrc mt_suppressPresence)\<rparr>)"

text \<open>The two halves of the classification: the markers of the prompt, then the signals of the source.\<close>

fun producer_name :: "turn_origin \<Rightarrow> string" where
  "producer_name (RelayOrigin _ _ _) = ''session-relay''"
| "producer_name (ChannelOrigin _ _) = ''channel''"

definition id_with :: "string \<Rightarrow> string option \<Rightarrow> string option" where
  "id_with p v = (if truthy v then map_option ((@) p) v else None)"

definition prompt_provenance :: "launch_prompt \<Rightarrow> turn_provenance option" where
  "prompt_provenance p =
     (case resolveRuntimeTurnOrigin (lp_turnOrigin p) of
        Some origin \<Rightarrow>
          (let reason = ''prompt._turnOrigin:'' @ producer_name origin @ '':'' @ to_action origin in
           Some (if op_type (to_principal origin) = PAgent then provenance_result CAgent reason None
                 else provenance_result CSystem reason (Some (op_id (to_principal origin)))))
      | None \<Rightarrow>
        (case lp_observation p of
           Some ob \<Rightarrow>
             Some (provenance_result CObserver ''prompt._observation'' (Some (''observer:'' @ ob_bindingId ob)))
         | None \<Rightarrow>
             if lp_cron p
             then Some (provenance_result CCron ''prompt._cron'' (id_with ''cron:'' (lp_jobId p)))
             else if lp_trigger p
             then Some (provenance_result CTrigger ''prompt._trigger'' (id_with ''trigger:'' (lp_triggerId p)))
             else if lp_sessionFollowup p
             then Some (provenance_result CSessionFollowup ''prompt._sessionFollowup''
                          (id_with ''session-followup:'' (lp_sessionFollowupCadenceId p)))
             else if lp_heartbeat p
             then Some (provenance_result CHeartbeat ''prompt._heartbeat'' (Some ''heartbeat''))
             else (case clean_opt (lp_taskBarrierTaskId p) of
                     Some t \<Rightarrow> Some (provenance_result CTask ''prompt.taskBarrierTaskId'' (Some (''task:'' @ t)))
                   | None \<Rightarrow>
                       if lp_daemonRestartResume p \<noteq> None
                       then Some (provenance_result CDaemonRestart ''prompt._daemonRestartResume''
                                    (Some ''daemon-restart''))
                       else None)))"

definition source_provenance :: "provenance_source \<Rightarrow> turn_provenance" where
  "source_provenance source =
     (let automationId = clean_opt (ps_automationId source) in
      if ps_actorType source = Some ''automation'' \<and> automationId \<noteq> None
      then provenance_result (originFromAutomationId (the automationId)) ''source.actorType=automation'' automationId
      else
        (case originFromProvenanceSource (provenanceSource source) of
           Some origin \<Rightarrow>
             provenance_result origin
               (''identityProvenance.source='' @ nullish (provenanceSource source) ''undefined'') automationId
         | None \<Rightarrow>
             if ps_suppressPresence source = Some True
             then provenance_result CBackground ''source.suppressPresence'' automationId
             else if ps_actorType source = Some ''agent''
             then provenance_result CAgent ''source.actorType=agent'' None
             else if ps_actorType source = Some ''system''
             then provenance_result CSystem ''source.actorType=system'' None
             else if ps_actorType source = Some ''contact''
             then provenance_result CHuman ''source.actorType=contact'' None
             else provenance_result CUnknown ''no origin signal'' None))"

definition classifyTurnProvenance ::
  "launch_prompt option \<Rightarrow> provenance_source option \<Rightarrow> turn_provenance" where
  "classifyTurnProvenance prompt source =
     nullish (Option.bind prompt prompt_provenance) (source_provenance (effective_source prompt source))"

definition isBackgroundTurn :: "launch_prompt option \<Rightarrow> provenance_source option \<Rightarrow> bool" where
  "isBackgroundTurn prompt source = tp_background (classifyTurnProvenance prompt source)"

section \<open>Lemmas\<close>

lemma cleanString_JStr_id: "s \<noteq> [] \<Longrightarrow> trim s = s \<Longrightarrow> cleanString (Some (JStr s)) = Some s"
  by (simp add: cleanString_def)

lemma clean_opt_clean [simp]: "clean_opt (clean_opt v) = clean_opt v"
  by (cases v) (simp_all add: cleanString_def)

lemma clean_opt_Some: "clean_opt v = Some s \<Longrightarrow> s \<noteq> [] \<and> trim s = s"
  by (rule cleanString_Some)

text \<open>A principal and a session are canonical when they are what the validation leaves of themselves.\<close>

definition principal_ok :: "origin_principal \<Rightarrow> bool" where
  "principal_ok p \<longleftrightarrow> op_id p \<noteq> [] \<and> trim (op_id p) = op_id p"

definition opt_clean :: "string option \<Rightarrow> bool" where
  "opt_clean v \<longleftrightarrow> (case v of None \<Rightarrow> True | Some s \<Rightarrow> s \<noteq> [] \<and> trim s = s)"

definition session_ok :: "origin_session option \<Rightarrow> bool" where
  "session_ok s \<longleftrightarrow> (case s of None \<Rightarrow> True
     | Some v \<Rightarrow> opt_clean (os_key v) \<and> opt_clean (os_name v) \<and> (os_key v \<noteq> None \<or> os_name v \<noteq> None))"

fun origin_ok :: "turn_origin \<Rightarrow> bool" where
  "origin_ok (RelayOrigin a p s) \<longleftrightarrow> a \<in> set SESSION_RELAY_ACTIONS \<and> principal_ok p \<and> session_ok s"
| "origin_ok (ChannelOrigin a p) \<longleftrightarrow> a \<in> set CHANNEL_TURN_ACTIONS \<and> principal_ok p"

lemma opt_clean_cleanString [simp]: "opt_clean (cleanString v)"
  by (simp add: opt_clean_def cleanString_Some split: option.split)

lemma resolvePrincipal_value: "principal_ok p \<Longrightarrow> resolvePrincipal (Some (principal_value p)) = Some p"
  by (cases p; cases "op_type p")
     (simp_all add: resolvePrincipal_def principal_value_def principal_ok_def cleanString_JStr_id)

lemma resolvePrincipal_ok: "resolvePrincipal v = Some p \<Longrightarrow> principal_ok p"
  by (auto simp: resolvePrincipal_def principal_ok_def split: option.splits if_splits dest: cleanString_Some)

lemma resolveOriginSession_value:
  "session_ok (Some s) \<Longrightarrow> resolveOriginSession (Some (session_value s)) = Some s"
  by (cases s)
     (auto simp: session_ok_def opt_clean_def resolveOriginSession_def session_value_def opt_field_def
        cleanString_def split: option.splits)

lemma resolveOriginSession_ok: "session_ok (resolveOriginSession v)"
  by (auto simp: resolveOriginSession_def session_ok_def Let_def split: option.split)

lemma action_of_Some: "action_of as v = Some a \<longleftrightarrow> v = Some (JStr a) \<and> a \<in> set as"
  by (auto simp: action_of_def split: option.splits json.splits if_splits)

lemma action_of_JStr [simp]: "action_of as (Some (JStr a)) = (if a \<in> set as then Some a else None)"
  by (simp add: action_of_def)

lemma resolve_relay_value:
  "principal_ok p \<Longrightarrow> session_ok s \<Longrightarrow>
     resolveRuntimeTurnOrigin (Some (origin_value (RelayOrigin a p s))) =
       (if a \<in> set SESSION_RELAY_ACTIONS then Some (RelayOrigin a p s) else None)"
  by (cases s) (simp_all add: resolveRuntimeTurnOrigin_def resolvePrincipal_value resolveOriginSession_value,
      simp add: resolveOriginSession_def)

lemma resolve_channel_value:
  "principal_ok p \<Longrightarrow>
     resolveRuntimeTurnOrigin (Some (origin_value (ChannelOrigin a p))) =
       (if a \<in> set CHANNEL_TURN_ACTIONS then Some (ChannelOrigin a p) else None)"
  by (simp add: resolveRuntimeTurnOrigin_def resolvePrincipal_value)

lemma resolve_origin_value: "origin_ok t \<Longrightarrow> resolveRuntimeTurnOrigin (Some (origin_value t)) = Some t"
  by (cases t) (simp_all add: resolve_relay_value resolve_channel_value del: origin_value.simps)

lemma resolve_origin_ok: "resolveRuntimeTurnOrigin v = Some t \<Longrightarrow> origin_ok t"
  by (auto simp: resolveRuntimeTurnOrigin_def action_of_Some resolveOriginSession_ok
        split: option.splits if_splits dest: resolvePrincipal_ok)

lemma caller_principal_ok: "principal_ok (buildRuntimeCallerPrincipal ctx)"
proof -
  have "trim (''session:'' @ s) = ''session:'' @ s" if "trim s = s" "s \<noteq> []" for s
  proof -
    from that have "\<not> is_space (last s)" using trim_ends [of s] by simp
    then have "dropWhile is_space (rev s) = rev s"
      using that by (cases "rev s") (auto simp: last_rev hd_rev dest: arg_cong [of _ _ rev])
    moreover have "\<exists>x \<in> set s. \<not> is_space x"
      using \<open>\<not> is_space (last s)\<close> that(2) last_in_set by blast
    ultimately show ?thesis using that by (simp add: trim_def is_space_def Let_def dropWhile_append)
  qed
  then show ?thesis
    by (auto simp: buildRuntimeCallerPrincipal_def principal_ok_def trim_def is_space_def Let_def
          split: option.splits dest: cleanString_Some)
qed

lemma relay_session_ok: "to_session (buildSessionRelayTurnOrigin a ctx) = s \<Longrightarrow> session_ok s"
  by (auto simp: buildSessionRelayTurnOrigin_def session_ok_def Let_def)

lemma caller_principal_clean:
  "buildRuntimeCallerPrincipal \<lparr>rx_agentId = clean_opt (rx_agentId c), rx_sessionKey = clean_opt (rx_sessionKey c),
     rx_sessionName = n\<rparr> = buildRuntimeCallerPrincipal c"
  by (simp add: buildRuntimeCallerPrincipal_def split: option.split)

section \<open>Properties\<close>

lemma turn_origin_roundtrip_parts:
  assumes "resolveRuntimeTurnOrigin v = Some t"
  shows "resolveRuntimeTurnOrigin (Some (origin_value (buildSessionRelayTurnOrigin a ctx))) =
           (if a \<in> set SESSION_RELAY_ACTIONS then Some (buildSessionRelayTurnOrigin a ctx) else None)"
    and "resolveRuntimeTurnOrigin (Some (origin_value t)) = Some t"
    and "principal_ok (to_principal t)"
proof -
  obtain p s where b: "buildSessionRelayTurnOrigin a ctx = RelayOrigin a p s" "principal_ok p" "session_ok s"
    using relay_session_ok [of a ctx, OF refl] caller_principal_ok
    by (simp add: buildSessionRelayTurnOrigin_def Let_def)
  then show "resolveRuntimeTurnOrigin (Some (origin_value (buildSessionRelayTurnOrigin a ctx))) =
           (if a \<in> set SESSION_RELAY_ACTIONS then Some (buildSessionRelayTurnOrigin a ctx) else None)"
    by (simp add: resolve_relay_value del: origin_value.simps)
  show "resolveRuntimeTurnOrigin (Some (origin_value t)) = Some t"
    by (rule resolve_origin_value) (rule resolve_origin_ok [OF assms])
  show "principal_ok (to_principal t)" using resolve_origin_ok [OF assms] by (cases t) simp_all
qed

text \<open>The envelope the relay producer builds passes the validation on the prompt bus and
  comes back unchanged, exactly when its action is a known one; what the validation accepts is
  canonical, so validating it again changes nothing.\<close>

theorem turn_origin_roundtrip:
  assumes "resolveRuntimeTurnOrigin v = Some t"
  shows "(resolveRuntimeTurnOrigin (Some (origin_value (buildSessionRelayTurnOrigin a ctx))) =
           (if a \<in> set SESSION_RELAY_ACTIONS then Some (buildSessionRelayTurnOrigin a ctx) else None)) \<and>
    (resolveRuntimeTurnOrigin (Some (origin_value t)) = Some t) \<and>
    (principal_ok (to_principal t))"
  using turn_origin_roundtrip_parts [OF assms] by blast

theorem turn_origin_roundtrip_witness:
  "principal_ok (to_principal (ChannelOrigin ''session.return'' \<lparr>op_type = PAgent, op_id = ''main''\<rparr>))"
  by (rule turn_origin_roundtrip [THEN conjunct2, THEN conjunct2, of "Some (origin_value (ChannelOrigin ''session.return'' \<lparr>op_type = PAgent, op_id = ''main''\<rparr>))"])
     code_simp

text \<open>The markers of a prompt decide the cause; only without one does the source count.\<close>

lemma classify_markers:
  "prompt_provenance p = Some t \<Longrightarrow> classifyTurnProvenance (Some p) s = t"
  by (simp add: classifyTurnProvenance_def)

lemma result_flags:
  "tp_background (provenance_result c r i) = (c \<noteq> CHuman \<and> c \<noteq> CUnknown)"
  "tp_automationOriginated (provenance_result c r i) = (c \<noteq> CHuman \<and> c \<noteq> CUnknown)"
  "tp_origin (provenance_result c r i) = c"
  by (cases c; simp add: provenance_result_def AUTOMATION_ORIGINS_def)+

lemma origin_names_not_human: "map_of ORIGIN_NAMES v = Some c \<Longrightarrow> c \<noteq> CHuman \<and> c \<noteq> CUnknown"
  by (auto simp: ORIGIN_NAMES_def split: if_splits)

lemma provenance_names_not_human: "originFromProvenanceSource v = Some c \<Longrightarrow> c \<noteq> CHuman \<and> c \<noteq> CUnknown"
  by (cases v) (auto simp: originFromProvenanceSource_def dest: origin_names_not_human)

lemma prompt_provenance_form:
  "prompt_provenance p = Some t \<Longrightarrow> \<exists>c r i. t = provenance_result c r i \<and> c \<noteq> CHuman \<and> c \<noteq> CUnknown"
  unfolding prompt_provenance_def Let_def by (fastforce split: option.splits if_splits)

lemma source_provenance_form: "\<exists>c r i. source_provenance s = provenance_result c r i"
  unfolding source_provenance_def Let_def by (auto split: option.splits)

lemma automation_origin_not_human: "originFromAutomationId i \<noteq> CHuman" "originFromAutomationId i \<noteq> CUnknown"
  by (auto simp: originFromAutomationId_def originFromProvenanceSource_def nullish_def
        dest: origin_names_not_human split: option.splits)

lemma turn_provenance_sound_parts:
  shows "tp_background (classifyTurnProvenance (Some p) s) = tp_automationOriginated (classifyTurnProvenance (Some p) s)"
    and "prompt_provenance p \<noteq> None \<Longrightarrow> tp_background (classifyTurnProvenance (Some p) s)"
    and "tp_origin (classifyTurnProvenance (Some p) s) = CHuman \<Longrightarrow>
           resolveRuntimeTurnOrigin (lp_turnOrigin p) = None \<and> lp_observation p = None
           \<and> \<not> lp_cron p \<and> \<not> lp_trigger p \<and> \<not> lp_sessionFollowup p \<and> \<not> lp_heartbeat p
           \<and> clean_opt (lp_taskBarrierTaskId p) = None \<and> lp_daemonRestartResume p = None
           \<and> ps_suppressPresence (effective_source (Some p) s) \<noteq> Some True
           \<and> ps_actorType (effective_source (Some p) s) = Some ''contact''"
proof -
  show "tp_background (classifyTurnProvenance (Some p) s) = tp_automationOriginated (classifyTurnProvenance (Some p) s)"
    using prompt_provenance_form [of p] source_provenance_form [of "effective_source (Some p) s"]
    by (cases "prompt_provenance p") (auto simp: classifyTurnProvenance_def result_flags)
  show "tp_background (classifyTurnProvenance (Some p) s)" if "prompt_provenance p \<noteq> None"
    using that prompt_provenance_form [of p] by (auto simp: classify_markers result_flags)
  assume human: "tp_origin (classifyTurnProvenance (Some p) s) = CHuman"
  then have n: "prompt_provenance p = None"
    using prompt_provenance_form [of p]
    by (cases "prompt_provenance p") (auto simp: classifyTurnProvenance_def result_flags)
  then have src: "tp_origin (source_provenance (effective_source (Some p) s)) = CHuman"
    using human by (simp add: classifyTurnProvenance_def)
  have "ps_suppressPresence (effective_source (Some p) s) \<noteq> Some True
        \<and> ps_actorType (effective_source (Some p) s) = Some ''contact''"
    using src automation_origin_not_human
    by (auto simp: source_provenance_def Let_def result_flags
          split: if_splits option.splits dest: provenance_names_not_human)
  then show "resolveRuntimeTurnOrigin (lp_turnOrigin p) = None \<and> lp_observation p = None
           \<and> \<not> lp_cron p \<and> \<not> lp_trigger p \<and> \<not> lp_sessionFollowup p \<and> \<not> lp_heartbeat p
           \<and> clean_opt (lp_taskBarrierTaskId p) = None \<and> lp_daemonRestartResume p = None
           \<and> ps_suppressPresence (effective_source (Some p) s) \<noteq> Some True
           \<and> ps_actorType (effective_source (Some p) s) = Some ''contact''"
    using n by (simp add: prompt_provenance_def Let_def split: option.splits if_splits)
qed

text \<open>A turn is background exactly when it is automation-originated, whatever its envelope; a prompt
  with a trusted marker is never classified as human, even when its reply surface names a contact; and a
  turn counts as human only if no marker is set, nothing suppresses presence and its actor is a contact.\<close>

theorem turn_provenance_sound:
  shows "(tp_background (classifyTurnProvenance (Some p) s) = tp_automationOriginated (classifyTurnProvenance (Some p) s)) \<and>
    (prompt_provenance p \<noteq> None \<longrightarrow> tp_background (classifyTurnProvenance (Some p) s)) \<and>
    (tp_origin (classifyTurnProvenance (Some p) s) = CHuman \<longrightarrow>
           resolveRuntimeTurnOrigin (lp_turnOrigin p) = None \<and> lp_observation p = None
           \<and> \<not> lp_cron p \<and> \<not> lp_trigger p \<and> \<not> lp_sessionFollowup p \<and> \<not> lp_heartbeat p
           \<and> clean_opt (lp_taskBarrierTaskId p) = None \<and> lp_daemonRestartResume p = None
           \<and> ps_suppressPresence (effective_source (Some p) s) \<noteq> Some True
           \<and> ps_actorType (effective_source (Some p) s) = Some ''contact'')"
  using turn_provenance_sound_parts by blast

definition plain_prompt :: "string \<Rightarrow> launch_prompt" where
  "plain_prompt text =
     \<lparr>lp_prompt = text, lp_commands = None, lp_deliveryBarrier = None, lp_deliveryBarrierSource = None,
      lp_taskBarrierTaskId = None, lp_source = None, lp_context = None, lp_approvalSource = None,
      lp_agentId = None, lp_runtimeProviderId = None, lp_runtimeModel = None, lp_observation = None,
      lp_heartbeat = False, lp_cron = False, lp_jobId = None, lp_trigger = False, lp_triggerId = None,
      lp_sessionFollowup = False, lp_sessionFollowupCadenceId = None, lp_thread = False,
      lp_resumeStashedMessages = False, lp_daemonRestartResume = None, lp_sessionSurfaceHint = False,
      lp_sessionSurfaceHintText = None, lp_runtimePrompt = None, lp_cliDestination = False,
      lp_channelBackend = None, lp_turnOrigin = None, lp_deferRuntimeStart = False\<rparr>"

theorem turn_provenance_sound_witness:
  "tp_background (classifyTurnProvenance (Some (plain_prompt ''go''\<lparr>lp_cron := True\<rparr>))
     (Some \<lparr>ps_actorType = Some ''contact'', ps_automationId = None, ps_identityProvenance = None,
            ps_suppressPresence = None\<rparr>))
   \<and> \<not> lp_cron (plain_prompt ''hi'')"
proof
  show "tp_background (classifyTurnProvenance (Some (plain_prompt ''go''\<lparr>lp_cron := True\<rparr>))
     (Some \<lparr>ps_actorType = Some ''contact'', ps_automationId = None, ps_identityProvenance = None,
            ps_suppressPresence = None\<rparr>))"
    by (rule turn_provenance_sound [THEN conjunct2, THEN conjunct1, rule_format]) code_simp
  have "tp_origin (classifyTurnProvenance (Some (plain_prompt ''hi''))
     (Some \<lparr>ps_actorType = Some ''contact'', ps_automationId = None, ps_identityProvenance = None,
            ps_suppressPresence = None\<rparr>)) = CHuman"
    by code_simp
  from turn_provenance_sound [THEN conjunct2, THEN conjunct2, rule_format, OF this] show "\<not> lp_cron (plain_prompt ''hi'')" by blast
qed

end
