(* ===== verification/TurnSurface.thy ===== *)
theory TurnSurface
  imports TurnOrigin
begin

text \<open>
  The reply surface of a turn: the identity of a chat across its spellings
  (\<open>src/src/runtime/session-chat-identity.ts\<close>, the channel aliases of
  \<open>src/src/channels/capabilities.ts\<close>, the instance lookup of \<open>src/src/config-store.ts\<close>),
  the surface key of a turn and the test that two targets are one surface
  (\<open>turn-surface.ts\<close>), and the surface line in front of a prompt
  (\<open>session-surface-hint.ts\<close>). The \<open>.\<close> of a pattern does not match a line terminator.
\<close>

section \<open>Channels and instances\<close>

definition CHANNEL_ALIASES :: "(string \<times> string) list" where
  "CHANNEL_ALIASES =
    [(''whatsapp'', ''whatsapp''), (''whatsapp-baileys'', ''whatsapp''), (''whatsapp baileys'', ''whatsapp''),
     (''matrix'', ''matrix''), (''slack'', ''slack''), (''tui'', ''tui'')]"

definition canonicalChannelId :: "string option \<Rightarrow> string" where
  "canonicalChannelId channel =
     (let normalized = to_lower (trim (nullish channel [])) in
      if normalized = [] then ''unknown''
      else nullish (map_of CHANNEL_ALIASES normalized) normalized)"

text \<open>The part of the router configuration the instance lookup reads; \<open>cs_instances\<close> holds \<open>enabled\<close>.\<close>

record config_store =
  cs_instanceToAccount :: "(string \<times> string) list"
  cs_instances :: "(string \<times> bool option) list"

definition is_hex :: "char \<Rightarrow> bool" where
  "is_hex c = (let n = (of_char c :: nat)
     in 48 \<le> n \<and> n \<le> 57 \<or> 65 \<le> n \<and> n \<le> 70 \<or> 97 \<le> n \<and> n \<le> 102)"

definition UUID_RE :: "string \<Rightarrow> bool" where
  "UUID_RE s = (let parts = split_on (CHR ''-'') s
     in map length parts = [8, 4, 4, 4, 12] \<and> list_all (list_all is_hex) parts)"

definition instance_disabled :: "config_store \<Rightarrow> string \<Rightarrow> bool" where
  "instance_disabled cfg name \<longleftrightarrow> map_of (cs_instances cfg) name = Some (Some False)"

definition resolveInstanceId :: "config_store \<Rightarrow> string \<Rightarrow> string option" where
  "resolveInstanceId cfg accountName =
     (if accountName = [] then None
      else if UUID_RE accountName
      then (case map_of (cs_instanceToAccount cfg) accountName of
              Some mapped \<Rightarrow> if mapped \<noteq> [] \<and> instance_disabled cfg mapped then None else Some accountName
            | None \<Rightarrow> Some accountName)
      else if instance_disabled cfg accountName then None
      else map_option fst (find (\<lambda>(uuid, name). name = accountName) (cs_instanceToAccount cfg)))"

section \<open>Chat identity\<close>

definition runtimeChannelsMatch :: "string option \<Rightarrow> string option \<Rightarrow> bool" where
  "runtimeChannelsMatch left right =
     (let a = canonicalChannelId left; b = canonicalChannelId right in a \<noteq> ''unknown'' \<and> a = b)"

definition no_line_end :: "string \<Rightarrow> bool" where
  "no_line_end s \<longleftrightarrow> list_all (\<lambda>c. of_char c \<noteq> (10::nat) \<and> of_char c \<noteq> (13::nat)) s"

definition ci_prefix :: "string \<Rightarrow> string \<Rightarrow> bool" where
  "ci_prefix p s \<longleftrightarrow> to_lower (take (length p) s) = p"

text \<open>The capture groups of \<open>/^group:(.+)$/i\<close> and \<open>/^(.+)@g\.us$/i\<close>.\<close>

definition group_match :: "string \<Rightarrow> string option" where
  "group_match s =
     (let g = drop 6 s in if ci_prefix ''group:'' s \<and> g \<noteq> [] \<and> no_line_end g then Some g else None)"

definition jid_match :: "string \<Rightarrow> string option" where
  "jid_match s =
     (let j = take (length s - 5) s
      in if to_lower (last_n 5 s) = ''@g.us'' \<and> j \<noteq> [] \<and> no_line_end j then Some j else None)"

definition runtimeChatIdVariants :: "string option \<Rightarrow> string list" where
  "runtimeChatIdVariants chatId =
     (let normalized = trim (nullish chatId []) in
      if normalized = [] then []
      else remdups ([normalized]
             @ (case group_match normalized of None \<Rightarrow> [] | Some g \<Rightarrow> [g, g @ ''@g.us''])
             @ (case jid_match normalized of None \<Rightarrow> [] | Some j \<Rightarrow> [j, ''group:'' @ j])))"

definition runtimeChatIdsOverlap :: "string option \<Rightarrow> string option \<Rightarrow> bool" where
  "runtimeChatIdsOverlap left right =
     (let needles = runtimeChatIdVariants left
      in needles \<noteq> [] \<and> list_ex (\<lambda>i. i \<in> set needles) (runtimeChatIdVariants right))"

record chat_ref =
  cr_id :: string
  cr_channel :: string
  cr_platformChatId :: string
  cr_normalizedChatId :: string

definition chat_thread :: "string \<Rightarrow> string option" where
  "chat_thread platformChatId =
     (case find_index ((=) (CHR ''#'')) platformChatId of
        None \<Rightarrow> None | Some i \<Rightarrow> Some (drop (Suc i) platformChatId))"

definition sourceMatchesChat :: "message_target \<Rightarrow> chat_ref \<Rightarrow> bool" where
  "sourceMatchesChat source chat =
     (if mt_channel source \<noteq> [] \<and> cr_channel chat \<noteq> []
         \<and> \<not> runtimeChannelsMatch (Some (mt_channel source)) (Some (cr_channel chat)) then False
      else
        let chatTokens = [cr_id chat, cr_platformChatId chat, cr_normalizedChatId chat];
            sourceTokens = [ma_canonicalChatId source, Some (mt_chatId source)];
            overlap = list_ex (\<lambda>s. list_ex (\<lambda>c. runtimeChatIdsOverlap s (Some c)) chatTokens) sourceTokens;
            threadId = chat_thread (cr_platformChatId chat)
        in if \<not> overlap then False
           else if truthy (mt_threadId source) \<and> truthy threadId \<and> mt_threadId source \<noteq> threadId then False
           else True)"

section \<open>The surface of a turn\<close>

text \<open>The key is the JSON text of an array in the source; the constructors are the three array shapes.\<close>

datatype surface_key = SurfaceInternal
  | SurfaceCanonical string string
  | SurfaceTransport string string string string string

definition runtimeTurnSurfaceKey :: "message_target option \<Rightarrow> surface_key" where
  "runtimeTurnSurfaceKey source =
     (case source of
        None \<Rightarrow> SurfaceInternal
      | Some s \<Rightarrow>
          if truthy (ma_canonicalChatId s)
          then SurfaceCanonical (the (ma_canonicalChatId s)) (nullish (mt_threadId s) [])
          else SurfaceTransport (mt_channel s) (mt_accountId s) (nullish (mt_instanceId s) [])
                 (mt_chatId s) (nullish (mt_threadId s) []))"

definition target_instance :: "config_store \<Rightarrow> message_target \<Rightarrow> string option" where
  "target_instance cfg t =
     (case mt_instanceId t of
        Some i \<Rightarrow> Some i
      | None \<Rightarrow> if mt_accountId t \<noteq> [] then resolveInstanceId cfg (mt_accountId t) else None)"

definition isSameRuntimeTurnSurface ::
  "config_store \<Rightarrow> message_target option \<Rightarrow> message_target option \<Rightarrow> bool" where
  "isSameRuntimeTurnSurface cfg left right =
     (case (left, right) of
        (Some l, Some r) \<Rightarrow>
          if nullish (mt_threadId l) [] \<noteq> nullish (mt_threadId r) [] then False
          else if truthy (ma_canonicalChatId l) \<and> truthy (ma_canonicalChatId r)
          then ma_canonicalChatId l = ma_canonicalChatId r
          else if \<not> runtimeChannelsMatch (Some (mt_channel l)) (Some (mt_channel r))
               \<or> mt_chatId l = [] \<or> mt_chatId l \<noteq> mt_chatId r
          then False
          else if truthy (mt_instanceId l) \<and> truthy (mt_instanceId r) \<and> mt_instanceId l \<noteq> mt_instanceId r
          then False
          else if mt_accountId l \<noteq> [] \<and> mt_accountId l = mt_accountId r then True
          else truthy (target_instance cfg l) \<and> truthy (target_instance cfg r)
               \<and> target_instance cfg l = target_instance cfg r
      | _ \<Rightarrow> left = None \<and> right = None)"

section \<open>The surface line of a prompt\<close>

definition CLI_SURFACE_HINT :: string where
  "CLI_SURFACE_HINT =
    ''[session surface] This turn came from the CLI. A normal reply returns to the waiting CLI.''"

definition SESSION_RELAY_SURFACE_HINT :: string where
  "SESSION_RELAY_SURFACE_HINT =
    ''[session surface] This turn has no inbound chat. A normal reply stays on this session.''"

definition SOURCELESS_SURFACE_HINT :: string where
  "SOURCELESS_SURFACE_HINT =
    ''[session surface] This turn has no inbound chat. A normal reply uses the session default, if available.''"

definition NEWLINE :: char where
  "NEWLINE = CHR 0x0A"

text \<open>\<open>SESSION_SURFACE_PREFIX\<close>, and the removal of the line it matches with its line end.\<close>

definition SESSION_SURFACE_PREFIX :: "string \<Rightarrow> bool" where
  "SESSION_SURFACE_PREFIX s \<longleftrightarrow> ci_prefix ''[session surface]'' s \<or> ci_prefix ''[session surfaces]'' s"

definition after_line :: "string \<Rightarrow> string" where
  "after_line s = drop 1 (dropWhile (\<lambda>c. c \<noteq> NEWLINE) s)"

definition CURRENT_SESSION_SURFACE_LINE :: "string \<Rightarrow> string option" where
  "CURRENT_SESSION_SURFACE_LINE s =
     (if ci_prefix ''[session surface]'' s then Some (takeWhile (\<lambda>c. c \<noteq> NEWLINE) s) else None)"

lemma length_after_line: "SESSION_SURFACE_PREFIX s \<Longrightarrow> length (after_line s) < length s"
proof -
  assume "SESSION_SURFACE_PREFIX s"
  then have "s \<noteq> []" by (auto simp: SESSION_SURFACE_PREFIX_def ci_prefix_def)
  moreover have "length (dropWhile (\<lambda>c. c \<noteq> NEWLINE) s) \<le> length s" by (rule length_dropWhile_le)
  ultimately show ?thesis by (cases s) (auto simp: after_line_def)
qed

function stripSessionSurfacePrefixes :: "string \<Rightarrow> string" where
  "stripSessionSurfacePrefixes content =
     (if SESSION_SURFACE_PREFIX content then stripSessionSurfacePrefixes (after_line content) else content)"
  by pat_completeness auto
termination
  by (relation "measure length") (simp_all add: length_after_line)

declare stripSessionSurfacePrefixes.simps [simp del]

definition hasInboundChatSource :: "message_target option \<Rightarrow> bool" where
  "hasInboundChatSource source =
     (case source of None \<Rightarrow> False | Some s \<Rightarrow> trim (mt_channel s) \<noteq> [] \<and> trim (mt_chatId s) \<noteq> [])"

definition is_word_char :: "char \<Rightarrow> bool" where
  "is_word_char c \<longleftrightarrow> is_alnum c \<or> c = CHR ''_''"

definition upper_ascii :: "char \<Rightarrow> char" where
  "upper_ascii c = (let n = (of_char c :: nat) in if 97 \<le> n \<and> n \<le> 122 then char_of (n - 32) else c)"

text \<open>\<open>replace(/(^|[-_ ])\w/g, m => m.toUpperCase())\<close>.\<close>

fun capAfterSep :: "string \<Rightarrow> string" where
  "capAfterSep (c # d # s) =
     (if c \<in> set ''-_ '' \<and> is_word_char d then c # upper_ascii d # capAfterSep s else c # capAfterSep (d # s))"
| "capAfterSep s = s"

definition capWords :: "string \<Rightarrow> string" where
  "capWords s = (case s of
       [] \<Rightarrow> []
     | c # t \<Rightarrow> if is_word_char c then upper_ascii c # capAfterSep t else capAfterSep s)"

definition formatChannelName :: "string \<Rightarrow> string" where
  "formatChannelName channel =
     (let normalized = to_lower (trim channel) in
      if prefix ''whatsapp'' normalized then ''WhatsApp''
      else nullish (map_of [(''slack'', ''Slack''), (''telegram'', ''Telegram'')] normalized)
             (capWords normalized))"

definition buildSessionSurfaceHint :: "message_target option \<Rightarrow> bool \<Rightarrow> bool \<Rightarrow> string" where
  "buildSessionSurfaceHint source cliDestination sessionRelay =
     (if hasInboundChatSource source
      then let channel = formatChannelName (mt_channel (the source));
               place = (if truthy (mt_threadId (the source)) then channel @ '' thread'' else channel @ '' chat'')
           in ''[session surface] This turn came from a '' @ place @ ''. A normal reply returns there.''
      else if cliDestination then CLI_SURFACE_HINT
      else if sessionRelay then SESSION_RELAY_SURFACE_HINT
      else SOURCELESS_SURFACE_HINT)"

definition persistSessionSurfaceHintOnUserRow :: "launch_prompt \<Rightarrow> bool" where
  "persistSessionSurfaceHintOnUserRow prompt =
     (if lp_cliDestination prompt then False
      else if isSessionRelayTurn prompt then False
      else hasInboundChatSource (lp_source prompt))"

definition resolveRuntimePromptText :: "launch_prompt \<Rightarrow> string" where
  "resolveRuntimePromptText prompt = nullish (lp_runtimePrompt prompt) (lp_prompt prompt)"

definition resolvePersistedUserText :: "launch_prompt \<Rightarrow> string" where
  "resolvePersistedUserText prompt = lp_prompt prompt"

definition withSessionSurfaceHint :: "launch_prompt \<Rightarrow> launch_prompt" where
  "withSessionSurfaceHint prompt =
     (if lp_sessionSurfaceHint prompt then prompt
      else
        let persistOnUserRow = persistSessionSurfaceHintOnUserRow prompt;
            hintSource = (if persistOnUserRow then lp_source prompt else None);
            hint = buildSessionSurfaceHint hintSource (lp_cliDestination prompt) (isSessionRelayTurn prompt);
            body = (if persistOnUserRow then stripSessionSurfacePrefixes (lp_prompt prompt) else lp_prompt prompt);
            runtimePrompt = hint @ [NEWLINE] @ body
        in prompt\<lparr>lp_prompt := (if persistOnUserRow then runtimePrompt else lp_prompt prompt),
                  lp_runtimePrompt := (if persistOnUserRow then None else Some runtimePrompt),
                  lp_sessionSurfaceHint := True,
                  lp_sessionSurfaceHintText := Some hint\<rparr>)"

definition combineSessionSurfacePromptContents :: "string list \<Rightarrow> string" where
  "combineSessionSurfacePromptContents contents =
     (let hint = Option.bind (find (truthy \<circ> CURRENT_SESSION_SURFACE_LINE) contents) CURRENT_SESSION_SURFACE_LINE;
          body = join [NEWLINE, NEWLINE] (map stripSessionSurfacePrefixes contents)
      in if truthy hint then the hint @ [NEWLINE] @ body else body)"

section \<open>Lemmas\<close>

lemma runtimeChannelsMatch_sym: "runtimeChannelsMatch a b = runtimeChannelsMatch b a"
  unfolding runtimeChannelsMatch_def Let_def by metis

lemma isSameRuntimeTurnSurface_flip:
  assumes "isSameRuntimeTurnSurface cfg (Some l) (Some r)"
  shows "isSameRuntimeTurnSurface cfg (Some r) (Some l)"
proof -
  have c: "runtimeChannelsMatch (Some (mt_channel r)) (Some (mt_channel l)) = runtimeChannelsMatch (Some (mt_channel l)) (Some (mt_channel r))"
    by (rule runtimeChannelsMatch_sym)
  show ?thesis using assms unfolding isSameRuntimeTurnSurface_def option.case prod.case c
    by (simp split: if_splits) (intro conjI impI; simp)+
qed

lemma isSameRuntimeTurnSurface_sym:
  "isSameRuntimeTurnSurface cfg a b = isSameRuntimeTurnSurface cfg b a"
proof (cases a)
  case None
  then show ?thesis by (cases b) (simp_all add: isSameRuntimeTurnSurface_def)
next
  case (Some l)
  then show ?thesis
    by (cases b) (simp add: isSameRuntimeTurnSurface_def, metis isSameRuntimeTurnSurface_flip)
qed

text \<open>A target that names a chat: a canonical chat, or a known channel with a chat and an account.\<close>

definition names_chat :: "message_target \<Rightarrow> bool" where
  "names_chat t \<longleftrightarrow> truthy (ma_canonicalChatId t)
     \<or> canonicalChannelId (Some (mt_channel t)) \<noteq> ''unknown'' \<and> mt_chatId t \<noteq> [] \<and> mt_accountId t \<noteq> []"

lemma nullish_eq_truthy: "nullish a [] = nullish b [] \<Longrightarrow> truthy a \<Longrightarrow> truthy b \<Longrightarrow> a = b"
  by (cases a; cases b) auto

lemma same_key_same_surface:
  assumes "runtimeTurnSurfaceKey (Some l) = runtimeTurnSurfaceKey (Some r)" "names_chat l"
  shows "isSameRuntimeTurnSurface cfg (Some l) (Some r)"
  using assms
  by (auto simp: runtimeTurnSurfaceKey_def isSameRuntimeTurnSurface_def names_chat_def
        runtimeChannelsMatch_def Let_def dest: nullish_eq_truthy split: if_splits elim!: truthyE)

lemma same_surface_cases:
  assumes "isSameRuntimeTurnSurface cfg (Some l) (Some r)"
  shows "nullish (mt_threadId l) [] = nullish (mt_threadId r) []"
    and "truthy (ma_canonicalChatId l) \<and> ma_canonicalChatId l = ma_canonicalChatId r
         \<or> mt_chatId l = mt_chatId r \<and> mt_chatId l \<noteq> []
           \<and> runtimeChannelsMatch (Some (mt_channel l)) (Some (mt_channel r))
           \<and> (mt_accountId l = mt_accountId r \<or> target_instance cfg l = target_instance cfg r)"
  using assms by (auto simp: isSameRuntimeTurnSurface_def split: if_splits)

lemma ci_prefix_append: "length p \<le> length s \<Longrightarrow> ci_prefix p (s @ t) = ci_prefix p s"
  by (simp add: ci_prefix_def)

lemma ci_prefix_self: "to_lower p = p \<Longrightarrow> ci_prefix p (p @ s)"
  by (simp add: ci_prefix_def)

lemma strip_step: "SESSION_SURFACE_PREFIX s \<Longrightarrow> stripSessionSurfacePrefixes s = stripSessionSurfacePrefixes (after_line s)"
  by (subst stripSessionSurfacePrefixes.simps) simp

lemma strip_plain [simp]: "\<not> SESSION_SURFACE_PREFIX s \<Longrightarrow> stripSessionSurfacePrefixes s = s"
  by (subst stripSessionSurfacePrefixes.simps) simp

lemma strip_no_prefix: "\<not> SESSION_SURFACE_PREFIX (stripSessionSurfacePrefixes s)"
proof (induction s rule: stripSessionSurfacePrefixes.induct)
  case (1 s)
  then show ?case by (cases "SESSION_SURFACE_PREFIX s") (simp_all add: strip_step)
qed

lemma strip_suffix: "suffix (stripSessionSurfacePrefixes s) s"
proof (induction s rule: stripSessionSurfacePrefixes.induct)
  case (1 s)
  have "suffix (after_line s) s" unfolding after_line_def
    by (meson suffix_dropWhile suffix_drop suffix_order.trans)
  then show ?case using 1 by (cases "SESSION_SURFACE_PREFIX s") (auto simp: strip_step intro: suffix_order.trans)
qed

text \<open>A surface line: it starts with the marker and has no line end.\<close>

definition surface_line :: "string \<Rightarrow> bool" where
  "surface_line h \<longleftrightarrow> ci_prefix ''[session surface]'' h \<and> NEWLINE \<notin> set h"

lemma surface_line_length: "surface_line h \<Longrightarrow> 17 \<le> length h"
proof -
  assume "surface_line h"
  then have "length (take (length ''[session surface]'') h) = length ''[session surface]''"
    unfolding surface_line_def ci_prefix_def by (metis length_to_lower)
  then have "length ''[session surface]'' \<le> length h" by (simp only: length_take min_def split: if_splits)
  then show ?thesis by simp
qed

lemma surface_line_prefixes:
  assumes "surface_line h"
  shows "ci_prefix ''[session surface]'' (h @ s)" "SESSION_SURFACE_PREFIX (h @ s)"
  using surface_line_length [OF assms] assms
  by (simp_all add: surface_line_def SESSION_SURFACE_PREFIX_def ci_prefix_append)

lemma after_surface_line: "surface_line h \<Longrightarrow> after_line (h @ NEWLINE # s) = s"
proof -
  assume "surface_line h"
  then have "\<And>c. c \<in> set h \<Longrightarrow> c \<noteq> NEWLINE" by (auto simp: surface_line_def)
  then show ?thesis by (simp add: after_line_def dropWhile_append)
qed

lemma current_surface_line: "surface_line h \<Longrightarrow> CURRENT_SESSION_SURFACE_LINE (h @ NEWLINE # s) = Some h"
proof -
  assume h: "surface_line h"
  then have "\<And>c. c \<in> set h \<Longrightarrow> c \<noteq> NEWLINE" by (auto simp: surface_line_def)
  then have "takeWhile (\<lambda>c. c \<noteq> NEWLINE) (h @ NEWLINE # s) = h" by (simp add: takeWhile_append)
  then show ?thesis using surface_line_prefixes(1) [OF h] by (simp add: CURRENT_SESSION_SURFACE_LINE_def)
qed

lemma strip_surface_line:
  "surface_line h \<Longrightarrow> stripSessionSurfacePrefixes (h @ NEWLINE # s) = stripSessionSurfacePrefixes s"
  by (simp add: strip_step surface_line_prefixes after_surface_line)

lemma combine_same_hint:
  assumes h: "surface_line h" and ne: "bodies \<noteq> []"
  shows "combineSessionSurfacePromptContents (map (\<lambda>b. h @ NEWLINE # b) bodies) =
           h @ NEWLINE # join [NEWLINE, NEWLINE] (map stripSessionSurfacePrefixes bodies)"
proof -
  obtain b bs where bodies: "bodies = b # bs" using ne by (cases bodies) auto
  have "h \<noteq> []" using surface_line_length [OF h] by auto
  then show ?thesis
    by (simp add: combineSessionSurfacePromptContents_def Let_def bodies current_surface_line [OF h]
          strip_surface_line [OF h] comp_def)
qed

lemma build_hint_ci: "ci_prefix ''[session surface]'' (buildSessionSurfaceHint src cli relay)"
  by (simp add: buildSessionSurfaceHint_def Let_def ci_prefix_def CLI_SURFACE_HINT_def
        SESSION_RELAY_SURFACE_HINT_def SOURCELESS_SURFACE_HINT_def to_lower_def lower_char_def)

lemma with_hint_text:
  assumes "\<not> lp_sessionSurfaceHint p"
  obtains h where "resolveRuntimePromptText (withSessionSurfaceHint p) =
      h @ NEWLINE # (if persistSessionSurfaceHintOnUserRow p then stripSessionSurfacePrefixes (lp_prompt p)
                     else lp_prompt p)"
    "lp_sessionSurfaceHintText (withSessionSurfaceHint p) = Some h"
    "ci_prefix ''[session surface]'' h"
proof -
  show ?thesis
    by (rule that [of "buildSessionSurfaceHint
          (if persistSessionSurfaceHintOnUserRow p then lp_source p else None) (lp_cliDestination p) (isSessionRelayTurn p)"])
       (use assms build_hint_ci in \<open>simp_all add: withSessionSurfaceHint_def resolveRuntimePromptText_def Let_def\<close>)
qed

section \<open>Properties\<close>

lemma turn_surface_sound_parts:
  shows "isSameRuntimeTurnSurface cfg a b = isSameRuntimeTurnSurface cfg b a"
    and "isSameRuntimeTurnSurface cfg (Some l) (Some r) \<Longrightarrow>
           nullish (mt_threadId l) [] = nullish (mt_threadId r) []
           \<and> (truthy (ma_canonicalChatId l) \<and> ma_canonicalChatId l = ma_canonicalChatId r
              \<or> mt_chatId l = mt_chatId r \<and> mt_chatId l \<noteq> []
                \<and> runtimeChannelsMatch (Some (mt_channel l)) (Some (mt_channel r))
                \<and> (mt_accountId l = mt_accountId r \<or> target_instance cfg l = target_instance cfg r))"
    and "runtimeTurnSurfaceKey (Some l) = runtimeTurnSurfaceKey (Some r) \<Longrightarrow> names_chat l \<Longrightarrow>
           isSameRuntimeTurnSurface cfg (Some l) (Some r)"
    and "\<not> isSameRuntimeTurnSurface cfg None (Some r)"
proof -
  show "isSameRuntimeTurnSurface cfg a b = isSameRuntimeTurnSurface cfg b a"
    by (rule isSameRuntimeTurnSurface_sym)
  show "\<not> isSameRuntimeTurnSurface cfg None (Some r)" by (simp add: isSameRuntimeTurnSurface_def)
qed (blast intro: same_surface_cases(1) dest: same_surface_cases(2), rule same_key_same_surface)

text \<open>Being one reply surface is a symmetric relation on targets. It never joins two threads, two
  canonical chats, or two transport chats on different channels; targets with the same surface key that
  name a chat are one surface; and an internal turn shares its surface with no chat.\<close>

theorem turn_surface_sound:
  shows "(isSameRuntimeTurnSurface cfg a b = isSameRuntimeTurnSurface cfg b a) \<and>
    (isSameRuntimeTurnSurface cfg (Some l) (Some r) \<longrightarrow>
           nullish (mt_threadId l) [] = nullish (mt_threadId r) []
           \<and> (truthy (ma_canonicalChatId l) \<and> ma_canonicalChatId l = ma_canonicalChatId r
              \<or> mt_chatId l = mt_chatId r \<and> mt_chatId l \<noteq> []
                \<and> runtimeChannelsMatch (Some (mt_channel l)) (Some (mt_channel r))
                \<and> (mt_accountId l = mt_accountId r \<or> target_instance cfg l = target_instance cfg r))) \<and>
    (runtimeTurnSurfaceKey (Some l) = runtimeTurnSurfaceKey (Some r) \<longrightarrow> names_chat l \<longrightarrow>
           isSameRuntimeTurnSurface cfg (Some l) (Some r)) \<and>
    (\<not> isSameRuntimeTurnSurface cfg None (Some r))"
  using turn_surface_sound_parts by blast

definition chat_target :: "string \<Rightarrow> string \<Rightarrow> string \<Rightarrow> message_target" where
  "chat_target channel account chat =
     \<lparr>ma_canonicalChatId = None, ma_actorType = None, ma_contactId = None, ma_actorAgentId = None,
      ma_automationId = None, ma_platformIdentityId = None, ma_rawSenderId = None,
      ma_normalizedSenderId = None, ma_identityProvenance = None, mt_channel = channel,
      mt_accountId = account, mt_instanceId = None, mt_chatId = chat, mt_threadId = None,
      mt_sourceMessageId = None, mt_statusAnchorMessageId = None, mt_statusAnchorKind = None,
      mt_suppressPresence = None\<rparr>"

theorem turn_surface_sound_witness:
  "isSameRuntimeTurnSurface \<lparr>cs_instanceToAccount = [], cs_instances = []\<rparr>
     (Some (chat_target ''slack'' ''main'' ''C1'')) (Some (chat_target ''slack'' ''main'' ''C1''))
   \<and> runtimeChannelsMatch (Some ''slack'') (Some ''slack'')"
proof -
  let ?c = "\<lparr>cs_instanceToAccount = [], cs_instances = []\<rparr>"
  let ?t = "chat_target ''slack'' ''main'' ''C1''"
  have n: "names_chat ?t" by code_simp
  have s: "isSameRuntimeTurnSurface ?c (Some ?t) (Some ?t)" by (rule turn_surface_sound [THEN conjunct2, THEN conjunct2, THEN conjunct1, rule_format, OF refl n])
  with turn_surface_sound [THEN conjunct2, THEN conjunct1, rule_format, OF s] show ?thesis by (simp add: chat_target_def)
qed

lemma surface_hint_once_parts:
  shows "withSessionSurfaceHint (withSessionSurfaceHint p) = withSessionSurfaceHint p"
    and "\<not> persistSessionSurfaceHintOnUserRow p \<Longrightarrow>
           resolvePersistedUserText (withSessionSurfaceHint p) = lp_prompt p"
    and "\<not> SESSION_SURFACE_PREFIX (stripSessionSurfacePrefixes s) \<and> suffix (stripSessionSurfacePrefixes s) s"
    and "surface_line h \<Longrightarrow> bodies \<noteq> [] \<Longrightarrow>
           combineSessionSurfacePromptContents (map (\<lambda>b. h @ NEWLINE # b) bodies) =
             h @ NEWLINE # join [NEWLINE, NEWLINE] (map stripSessionSurfacePrefixes bodies)"
proof -
  show "withSessionSurfaceHint (withSessionSurfaceHint p) = withSessionSurfaceHint p"
    by (simp add: withSessionSurfaceHint_def Let_def)
  show "resolvePersistedUserText (withSessionSurfaceHint p) = lp_prompt p"
    if "\<not> persistSessionSurfaceHintOnUserRow p"
    using that by (simp add: withSessionSurfaceHint_def resolvePersistedUserText_def Let_def)
qed (simp_all add: strip_no_prefix strip_suffix combine_same_hint)

text \<open>The surface line of a prompt. Adding it twice changes nothing; a prompt from the command line or
  another session keeps the text its user row stores; the model sees one surface line, then the text; and
  messages of one surface that share a turn keep exactly one surface line, in front of their texts.\<close>

theorem surface_hint_once:
  shows "(withSessionSurfaceHint (withSessionSurfaceHint p) = withSessionSurfaceHint p) \<and>
    (\<not> persistSessionSurfaceHintOnUserRow p \<longrightarrow>
           resolvePersistedUserText (withSessionSurfaceHint p) = lp_prompt p) \<and>
    (\<not> SESSION_SURFACE_PREFIX (stripSessionSurfacePrefixes s) \<and> suffix (stripSessionSurfacePrefixes s) s) \<and>
    (surface_line h \<longrightarrow> bodies \<noteq> [] \<longrightarrow>
           combineSessionSurfacePromptContents (map (\<lambda>b. h @ NEWLINE # b) bodies) =
             h @ NEWLINE # join [NEWLINE, NEWLINE] (map stripSessionSurfacePrefixes bodies))"
  using surface_hint_once_parts by blast

theorem surface_hint_once_witness:
  "combineSessionSurfacePromptContents
     [CLI_SURFACE_HINT @ NEWLINE # ''one'', CLI_SURFACE_HINT @ NEWLINE # ''two''] =
   CLI_SURFACE_HINT @ NEWLINE # ''one'' @ [NEWLINE, NEWLINE] @ ''two''
   \<and> resolvePersistedUserText (withSessionSurfaceHint (plain_prompt ''hi'')) = ''hi''"
proof -
  have h: "surface_line CLI_SURFACE_HINT" by code_simp
  have s: "stripSessionSurfacePrefixes ''one'' = ''one''" "stripSessionSurfacePrefixes ''two'' = ''two''"
    by (rule strip_plain; code_simp)+
  have p: "\<not> persistSessionSurfaceHintOnUserRow (plain_prompt ''hi'')" by code_simp
  show ?thesis
    using surface_hint_once [THEN conjunct2, THEN conjunct2, THEN conjunct2, rule_format, OF h, of "[''one'', ''two'']"]
      surface_hint_once [THEN conjunct2, THEN conjunct1, rule_format, OF p] s
    by (simp add: plain_prompt_def)
qed

end
