(* ===== verification/HostSession.thy ===== *)
theory HostSession
  imports TurnSurface SessionTypes
begin

text \<open>
  The streaming session of the runtime host (\<open>src/src/runtime/host-session.ts\<close>): its state,
  the replay fence of the physical turn, the messages that may be carried into a
  replacement runtime, the stash that carries them, and shutdown. The crash-recovery
  coordinator is the record of what the code asks of it. A function-valued field
  (\<open>pushMessage\<close>, \<open>onTurnComplete\<close>) is present or absent, and calling it sets the signal of the
  promise it resolves; timers are present or absent; the provider's own state is not kept.
\<close>

section \<open>The session\<close>

datatype tool_safety = SafeTool | UnsafeTool

datatype tool_effect_fence = HostWriteAhead | ProviderEventOnly

datatype permission_mode = RaviHost | ProviderNative | Unrestricted

datatype terminal_status = TComplete | TFailed | TInterrupted | TTimeout | TAborted

datatype terminal_event = TurnComplete | TurnFailed | TurnInterrupted

record crash_terminal =
  ct_status :: terminal_status
  ct_startedTool :: bool
  ct_materializedOutput :: bool
  ct_inputMutated :: bool

record turn_attempt =
  at_startedTool :: bool
  at_materializedOutput :: bool
  at_inputMutated :: bool

record crash_recovery =
  cv_acceptingDeliveries :: bool
  cv_activeAttempts :: "(string \<times> turn_attempt) list"

record host_session =
  hs_agentId :: string
  hs_starting :: bool
  hs_aborted :: bool
  hs_pushMessage :: bool
  hs_wakeSignal :: bool
  hs_pendingWake :: bool
  hs_pendingMessages :: "user_message list"
  hs_currentSource :: "message_target option"
  hs_currentReplyTarget :: "message_target option"
  hs_suppressChatEmit :: bool
  hs_toolRunning :: bool
  hs_toolResultDeliveryPending :: bool
  hs_done :: bool
  hs_interrupted :: bool
  hs_internalAbortReason :: "string option"
  hs_turnActive :: bool
  hs_onTurnComplete :: bool
  hs_turnSignal :: bool
  hs_compacting :: bool
  hs_currentToolSafety :: "tool_safety option"
  hs_pendingAbort :: bool
  hs_currentTurnPendingIds :: "string list option"
  hs_currentTurnSuperseded :: bool
  hs_currentTurnToolStarted :: bool
  hs_currentTurnInputMutated :: bool
  hs_toolEffectFence :: "tool_effect_fence option"
  hs_currentTraceTurnId :: "string option"
  hs_currentTraceTurnTerminalRecorded :: bool
  hs_runtimeTerminalSseEmitted :: bool
  hs_currentCrashRecoveryAttemptId :: "string option"
  hs_currentCrashRecoveryTerminal :: "crash_terminal option"
  hs_durableTurnPreparationFailed :: bool
  hs_idleGapRecoveryTimer :: bool
  hs_idleSessionEvictionTimer :: bool

definition resolveRuntimeToolEffectFence :: "string \<Rightarrow> permission_mode \<Rightarrow> tool_effect_fence" where
  "resolveRuntimeToolEffectFence provider permissionMode =
     (if provider = ''codex'' \<or> provider = ''pi'' then ProviderEventOnly
      else if permissionMode = RaviHost then HostWriteAhead else ProviderEventOnly)"

fun runtimeTurnAttemptTerminalEventType :: "terminal_status \<Rightarrow> terminal_event" where
  "runtimeTurnAttemptTerminalEventType TComplete = TurnComplete"
| "runtimeTurnAttemptTerminalEventType TFailed = TurnFailed"
| "runtimeTurnAttemptTerminalEventType TTimeout = TurnFailed"
| "runtimeTurnAttemptTerminalEventType status = TurnInterrupted"

section \<open>The replay fence\<close>

datatype durable_binding = BindNone | BindActive | BindTerminal | BindMissing

record replay_safety =
  sf_replayable :: bool
  sf_startedTool :: bool
  sf_materializedOutput :: bool
  sf_inputMutated :: bool
  sf_durableBinding :: durable_binding

definition getRuntimeTurnReplaySafety :: "host_session \<Rightarrow> crash_recovery option \<Rightarrow> replay_safety" where
  "getRuntimeTurnReplaySafety s crashRecovery =
     (if hs_durableTurnPreparationFailed s
      then \<lparr>sf_replayable = True, sf_startedTool = False, sf_materializedOutput = False,
            sf_inputMutated = False, sf_durableBinding = BindNone\<rparr>
      else
        let terminal = hs_currentCrashRecoveryTerminal s in
        if (case crashRecovery of None \<Rightarrow> False | Some cr \<Rightarrow> \<not> cv_acceptingDeliveries cr)
        then \<lparr>sf_replayable = False,
              sf_startedTool = ((case terminal of None \<Rightarrow> False | Some t \<Rightarrow> ct_startedTool t)
                                \<or> hs_currentTurnToolStarted s),
              sf_materializedOutput = (case terminal of None \<Rightarrow> False | Some t \<Rightarrow> ct_materializedOutput t),
              sf_inputMutated = ((case terminal of None \<Rightarrow> False | Some t \<Rightarrow> ct_inputMutated t)
                                 \<or> hs_currentTurnInputMutated s),
              sf_durableBinding = BindMissing\<rparr>
        else
          case terminal of
            Some t \<Rightarrow>
              (let startedTool = (ct_startedTool t \<or> hs_currentTurnToolStarted s);
                   inputMutated = (ct_inputMutated t \<or> hs_currentTurnInputMutated s)
               in \<lparr>sf_replayable = (ct_status t \<noteq> TComplete \<and> hs_toolEffectFence s = Some HostWriteAhead
                                    \<and> \<not> startedTool \<and> \<not> ct_materializedOutput t \<and> \<not> inputMutated),
                   sf_startedTool = startedTool, sf_materializedOutput = ct_materializedOutput t,
                   sf_inputMutated = inputMutated, sf_durableBinding = BindTerminal\<rparr>)
          | None \<Rightarrow>
              if truthy (hs_currentCrashRecoveryAttemptId s)
              then
                (case Option.bind crashRecovery
                        (\<lambda>cr. map_of (cv_activeAttempts cr) (the (hs_currentCrashRecoveryAttemptId s))) of
                   None \<Rightarrow>
                     \<lparr>sf_replayable = False, sf_startedTool = hs_currentTurnToolStarted s,
                      sf_materializedOutput = False, sf_inputMutated = hs_currentTurnInputMutated s,
                      sf_durableBinding = BindMissing\<rparr>
                 | Some attempt \<Rightarrow>
                     (let startedTool = (at_startedTool attempt \<or> hs_currentTurnToolStarted s);
                          inputMutated = (at_inputMutated attempt \<or> hs_currentTurnInputMutated s)
                      in \<lparr>sf_replayable = (hs_toolEffectFence s = Some HostWriteAhead \<and> \<not> startedTool
                                           \<and> \<not> at_materializedOutput attempt \<and> \<not> inputMutated),
                          sf_startedTool = startedTool, sf_materializedOutput = at_materializedOutput attempt,
                          sf_inputMutated = inputMutated, sf_durableBinding = BindActive\<rparr>))
              else if truthy (hs_currentTraceTurnId s) \<and> \<not> hs_currentTraceTurnTerminalRecorded s
                      \<and> \<not> hs_durableTurnPreparationFailed s
              then \<lparr>sf_replayable = False, sf_startedTool = hs_currentTurnToolStarted s,
                    sf_materializedOutput = False, sf_inputMutated = hs_currentTurnInputMutated s,
                    sf_durableBinding = BindMissing\<rparr>
              else if hs_currentTurnToolStarted s
              then \<lparr>sf_replayable = False, sf_startedTool = True, sf_materializedOutput = False,
                    sf_inputMutated = hs_currentTurnInputMutated s, sf_durableBinding = BindMissing\<rparr>
              else \<lparr>sf_replayable = True, sf_startedTool = False, sf_materializedOutput = False,
                    sf_inputMutated = False, sf_durableBinding = BindNone\<rparr>)"

definition isExplicitLocalRuntimeAbort :: "string option \<Rightarrow> bool" where
  "isExplicitLocalRuntimeAbort reason =
     (case reason of
        None \<Rightarrow> False
      | Some r \<Rightarrow> if r = [] then False
                  else prefix ''explicit_abort'' r \<or> r = ''crash_recovery_ownership_lost''
                       \<or> r = ''deferred_abort'')"

definition isProviderEndedAfterCompletedTools :: "host_session \<Rightarrow> replay_safety \<Rightarrow> bool" where
  "isProviderEndedAfterCompletedTools s safety =
     (if hs_currentTurnSuperseded s \<or> isExplicitLocalRuntimeAbort (hs_internalAbortReason s) then False
      else if sf_startedTool safety \<and> sf_materializedOutput safety then True
      else if truthy (hs_internalAbortReason s) then False
      else if \<not> sf_startedTool safety then False
      else sf_materializedOutput safety \<or> \<not> hs_toolRunning s)"

section \<open>What may be carried over\<close>

abbreviation current_ids :: "host_session \<Rightarrow> string set" where
  "current_ids s \<equiv> set (nullish (hs_currentTurnPendingIds s) [])"

definition getReplayablePendingRuntimeMessages :: "host_session \<Rightarrow> user_message list" where
  "getReplayablePendingRuntimeMessages s =
     (if \<not> hs_currentTurnSuperseded s then hs_pendingMessages s
      else if current_ids s = {} then hs_pendingMessages s
      else filter (\<lambda>m. \<not> pending_in (current_ids s) m) (hs_pendingMessages s))"

definition getPendingRuntimeTurnSuccessors :: "host_session \<Rightarrow> user_message list" where
  "getPendingRuntimeTurnSuccessors s =
     (if current_ids s = {} then []
      else filter (\<lambda>m. case um_pendingId m of None \<Rightarrow> False | Some p \<Rightarrow> p \<notin> current_ids s)
             (hs_pendingMessages s))"

definition getCrashRecoveryReplayablePendingRuntimeMessages ::
  "host_session \<Rightarrow> crash_recovery option \<Rightarrow> user_message list" where
  "getCrashRecoveryReplayablePendingRuntimeMessages s crashRecovery =
     (let safety = getRuntimeTurnReplaySafety s crashRecovery in
      if (case hs_currentCrashRecoveryTerminal s of None \<Rightarrow> False | Some t \<Rightarrow> ct_status t = TComplete)
      then (if nullish (hs_currentTurnPendingIds s) [] \<noteq> [] then getPendingRuntimeTurnSuccessors s
            else hs_pendingMessages s)
      else if sf_replayable safety then getReplayablePendingRuntimeMessages s
      else getPendingRuntimeTurnSuccessors s)"

section \<open>The stash\<close>

type_synonym stash = "string \<Rightarrow> user_message list option"

record stash_options =
  so_crashRecovery :: "crash_recovery option"
  so_reconcileCurrentTurn :: bool

definition cloneRuntimeMessageForStash ::
  "user_message \<Rightarrow> string set option \<Rightarrow> bool \<Rightarrow> user_message" where
  "cloneRuntimeMessageForStash message reconciliationIds terminalReplayAllowed =
     (let reconcile = (case reconciliationIds of None \<Rightarrow> False | Some ids \<Rightarrow> pending_in ids message)
      in if reconcile
         then message\<lparr>um_replay := Some True, um_terminalReplayAllowed := Some terminalReplayAllowed\<rparr>
         else message)"

definition stashPendingRuntimeMessages ::
  "string \<Rightarrow> host_session \<Rightarrow> stash \<Rightarrow> stash_options \<Rightarrow> nat \<times> stash" where
  "stashPendingRuntimeMessages sessionName s stashed options =
     (let safety = getRuntimeTurnReplaySafety s (so_crashRecovery options);
          replayableMessages =
            (if so_reconcileCurrentTurn options then getReplayablePendingRuntimeMessages s
             else getCrashRecoveryReplayablePendingRuntimeMessages s (so_crashRecovery options))
      in if replayableMessages = [] then (0, stashed)
         else
           let reconciliationIds = (if so_reconcileCurrentTurn options then Some (current_ids s) else None)
           in (length replayableMessages,
               stashed(sessionName \<mapsto>
                 map (\<lambda>m. cloneRuntimeMessageForStash m reconciliationIds (sf_replayable safety))
                   replayableMessages)))"

definition current_turn_messages :: "host_session \<Rightarrow> user_message list" where
  "current_turn_messages s = filter (pending_in (current_ids s)) (hs_pendingMessages s)"

definition stashCurrentTurnRuntimeMessages ::
  "string \<Rightarrow> host_session \<Rightarrow> stash \<Rightarrow> stash_options \<Rightarrow> nat \<times> stash" where
  "stashCurrentTurnRuntimeMessages sessionName s stashed options =
     (if current_ids s = {} then (0, stashed)
      else
        let safety = getRuntimeTurnReplaySafety s (so_crashRecovery options);
            kept = (if so_reconcileCurrentTurn options
                    then (if hs_currentTurnSuperseded s then getReplayablePendingRuntimeMessages s
                          else current_turn_messages s)
                    else if sf_replayable safety
                    then (if hs_currentTurnSuperseded s then getReplayablePendingRuntimeMessages s
                          else current_turn_messages s)
                    else getPendingRuntimeTurnSuccessors s);
            messages = map (\<lambda>m. cloneRuntimeMessageForStash m
                              (if so_reconcileCurrentTurn options then Some (current_ids s) else None)
                              (sf_replayable safety)) kept
        in if messages = [] then (0, stashed) else (length messages, stashed(sessionName \<mapsto> messages)))"

section \<open>Shutdown\<close>

text \<open>Calling the waiting generator's resolver clears the sticky wake flag and resolves its promise.\<close>

definition call_pushMessage :: "host_session \<Rightarrow> host_session" where
  "call_pushMessage s = s\<lparr>hs_pendingWake := False, hs_wakeSignal := True\<rparr>"

definition shutdownRuntimeStreamingSession :: "host_session \<Rightarrow> string option \<Rightarrow> host_session" where
  "shutdownRuntimeStreamingSession s reason =
     (let s1 = (if truthy reason then s\<lparr>hs_internalAbortReason := reason\<rparr> else s);
          s2 = s1\<lparr>hs_done := True, hs_starting := False, hs_idleGapRecoveryTimer := False,
                  hs_idleSessionEvictionTimer := False\<rparr>;
          s3 = (if hs_pushMessage s2 then (call_pushMessage s2)\<lparr>hs_pushMessage := False\<rparr> else s2);
          s4 = (if hs_onTurnComplete s3 then s3\<lparr>hs_turnSignal := True, hs_onTurnComplete := False\<rparr> else s3)
      in if \<not> hs_aborted s4 then s4\<lparr>hs_aborted := True\<rparr> else s4)"

definition LEGACY_RUNTIME_PROVIDER_ID :: string where
  "LEGACY_RUNTIME_PROVIDER_ID = ''claude''"

definition resolveStoredRuntimeProvider :: "session_entry \<Rightarrow> string option" where
  "resolveStoredRuntimeProvider e =
     (if truthy (se_runtimeProvider e) then se_runtimeProvider e
      else if truthy (se_providerSessionId e) \<or> truthy (se_sdkSessionId e)
      then Some LEGACY_RUNTIME_PROVIDER_ID
      else None)"

section \<open>Lemmas\<close>

lemma safety_prep_failed:
  "hs_durableTurnPreparationFailed s \<Longrightarrow> sf_replayable (getRuntimeTurnReplaySafety s cr)"
  by (simp add: getRuntimeTurnReplaySafety_def)

text \<open>What a replayable turn guarantees, with the durable evidence named.\<close>

lemma replayable_evidence:
  assumes "sf_replayable (getRuntimeTurnReplaySafety s cr)" "\<not> hs_durableTurnPreparationFailed s"
  shows "\<not> hs_currentTurnToolStarted s"
    and "\<not> sf_startedTool (getRuntimeTurnReplaySafety s cr)"
    and "\<not> sf_materializedOutput (getRuntimeTurnReplaySafety s cr)"
    and "\<not> sf_inputMutated (getRuntimeTurnReplaySafety s cr)"
    and "sf_durableBinding (getRuntimeTurnReplaySafety s cr) \<noteq> BindMissing"
  using assms
  by (auto simp: getRuntimeTurnReplaySafety_def Let_def split: option.splits if_splits)

lemma replayable_terminal:
  assumes "sf_replayable (getRuntimeTurnReplaySafety s cr)" "\<not> hs_durableTurnPreparationFailed s"
    "hs_currentCrashRecoveryTerminal s = Some t"
  shows "ct_status t \<noteq> TComplete \<and> \<not> ct_startedTool t \<and> \<not> ct_materializedOutput t \<and> \<not> ct_inputMutated t
         \<and> \<not> hs_currentTurnInputMutated s \<and> hs_toolEffectFence s = Some HostWriteAhead"
  using assms by (auto simp: getRuntimeTurnReplaySafety_def Let_def split: option.splits if_splits)

lemma replayable_attempt:
  assumes "sf_replayable (getRuntimeTurnReplaySafety s cr)" "\<not> hs_durableTurnPreparationFailed s"
    "hs_currentCrashRecoveryTerminal s = None" "hs_currentCrashRecoveryAttemptId s = Some a" "a \<noteq> []"
  shows "\<exists>c t. cr = Some c \<and> cv_acceptingDeliveries c \<and> map_of (cv_activeAttempts c) a = Some t
         \<and> \<not> at_startedTool t \<and> \<not> at_materializedOutput t \<and> \<not> at_inputMutated t
         \<and> \<not> hs_currentTurnInputMutated s \<and> hs_toolEffectFence s = Some HostWriteAhead"
  using assms by (auto simp: getRuntimeTurnReplaySafety_def Let_def split: option.splits if_splits)

lemma replayable_not_ended:
  assumes "isProviderEndedAfterCompletedTools s (getRuntimeTurnReplaySafety s cr)"
  shows "\<not> sf_replayable (getRuntimeTurnReplaySafety s cr)"
proof
  assume r: "sf_replayable (getRuntimeTurnReplaySafety s cr)"
  from assms have st: "sf_startedTool (getRuntimeTurnReplaySafety s cr)"
    by (auto simp: isProviderEndedAfterCompletedTools_def split: if_splits)
  then have "\<not> hs_durableTurnPreparationFailed s"
    by (auto simp: getRuntimeTurnReplaySafety_def)
  then show False using replayable_evidence(2) [OF r] st by blast
qed

lemma subseq_filter [intro]: "subseq (filter P xs) xs"
  by (rule subseq_filter_left)

lemma successors_subseq: "subseq (getPendingRuntimeTurnSuccessors s) (hs_pendingMessages s)"
  by (auto simp: getPendingRuntimeTurnSuccessors_def)

lemma replayable_subseq: "subseq (getReplayablePendingRuntimeMessages s) (hs_pendingMessages s)"
  by (auto simp: getReplayablePendingRuntimeMessages_def)

lemma carried_subseq: "subseq (getCrashRecoveryReplayablePendingRuntimeMessages s cr) (hs_pendingMessages s)"
  by (simp add: getCrashRecoveryReplayablePendingRuntimeMessages_def Let_def successors_subseq replayable_subseq)

text \<open>A queue is identified when every message in it has a pending id, which is not empty.\<close>

definition identified :: "user_message list \<Rightarrow> bool" where
  "identified ms \<longleftrightarrow> list_all (\<lambda>m. truthy (um_pendingId m)) ms"

lemma identified_pending:
  "identified ms \<Longrightarrow> m \<in> set ms \<Longrightarrow> pending_in ids m \<longleftrightarrow> the (um_pendingId m) \<in> ids"
  by (auto simp: identified_def list_all_iff pending_in_iff elim!: truthyE)

lemma successors_filter:
  assumes "identified (hs_pendingMessages s)" "current_ids s \<noteq> {}"
  shows "getPendingRuntimeTurnSuccessors s = filter (\<lambda>m. \<not> pending_in (current_ids s) m) (hs_pendingMessages s)"
proof -
  have "filter (\<lambda>m. case um_pendingId m of None \<Rightarrow> False | Some p \<Rightarrow> p \<notin> current_ids s) (hs_pendingMessages s) =
        filter (\<lambda>m. \<not> pending_in (current_ids s) m) (hs_pendingMessages s)"
    by (rule filter_cong [OF refl])
       (use assms(1) in \<open>auto simp: identified_def list_all_iff pending_in_iff elim!: truthyE\<close>)
  with assms(2) show ?thesis by (simp add: getPendingRuntimeTurnSuccessors_def)
qed

lemma clone_plain [simp]: "cloneRuntimeMessageForStash m None b = m"
  by (simp add: cloneRuntimeMessageForStash_def)

lemma clone_frame:
  "um_content (cloneRuntimeMessageForStash m ids b) = um_content m"
  "um_pendingId (cloneRuntimeMessageForStash m ids b) = um_pendingId m"
  "um_launchPrompt (cloneRuntimeMessageForStash m ids b) = um_launchPrompt m"
  "um_deliveryBarrier (cloneRuntimeMessageForStash m ids b) = um_deliveryBarrier m"
  "um_clientMessageId (cloneRuntimeMessageForStash m ids b) = um_clientMessageId m"
  by (simp_all add: cloneRuntimeMessageForStash_def Let_def)

lemma call_pushMessage_fields [simp]:
  "hs_pendingMessages (call_pushMessage s) = hs_pendingMessages s"
  "hs_onTurnComplete (call_pushMessage s) = hs_onTurnComplete s"
  "hs_done (call_pushMessage s) = hs_done s" "hs_starting (call_pushMessage s) = hs_starting s"
  "hs_wakeSignal (call_pushMessage s)" "hs_turnSignal (call_pushMessage s) = hs_turnSignal s"
  "hs_aborted (call_pushMessage s) = hs_aborted s"
  "hs_internalAbortReason (call_pushMessage s) = hs_internalAbortReason s"
  by (simp_all add: call_pushMessage_def)

lemma shutdown_fields:
  "hs_done (shutdownRuntimeStreamingSession s r) = True"
  "hs_aborted (shutdownRuntimeStreamingSession s r) = True"
  "hs_starting (shutdownRuntimeStreamingSession s r) = False"
  "hs_pushMessage (shutdownRuntimeStreamingSession s r) = False"
  "hs_onTurnComplete (shutdownRuntimeStreamingSession s r) = False"
  "hs_wakeSignal (shutdownRuntimeStreamingSession s r) = (hs_pushMessage s \<or> hs_wakeSignal s)"
  "hs_turnSignal (shutdownRuntimeStreamingSession s r) = (hs_onTurnComplete s \<or> hs_turnSignal s)"
  "hs_pendingMessages (shutdownRuntimeStreamingSession s r) = hs_pendingMessages s"
  "hs_internalAbortReason (shutdownRuntimeStreamingSession s r) = (if truthy r then r else hs_internalAbortReason s)"
  "hs_idleGapRecoveryTimer (shutdownRuntimeStreamingSession s r) = False"
  "hs_idleSessionEvictionTimer (shutdownRuntimeStreamingSession s r) = False"
  by (cases "hs_pushMessage s"; cases "hs_onTurnComplete s"; cases "hs_aborted s"; cases "truthy r";
      simp add: shutdownRuntimeStreamingSession_def Let_def call_pushMessage_def)+

lemma shutdown_done:
  assumes "hs_done s" "hs_aborted s" "\<not> hs_starting s" "\<not> hs_pushMessage s" "\<not> hs_onTurnComplete s"
    "\<not> hs_idleGapRecoveryTimer s" "\<not> hs_idleSessionEvictionTimer s"
  shows "shutdownRuntimeStreamingSession s None = s"
proof -
  have "s\<lparr>hs_done := True, hs_starting := False, hs_idleGapRecoveryTimer := False,
          hs_idleSessionEvictionTimer := False\<rparr> = s"
    using assms by (cases s) simp
  with assms show ?thesis by (simp add: shutdownRuntimeStreamingSession_def Let_def)
qed

lemma shutdown_twice:
  "shutdownRuntimeStreamingSession (shutdownRuntimeStreamingSession s r) None = shutdownRuntimeStreamingSession s r"
  by (rule shutdown_done) (simp_all only: shutdown_fields simp_thms not_False_eq_True)

section \<open>Properties\<close>

lemma replay_fence_sound_parts:
  assumes "sf_replayable (getRuntimeTurnReplaySafety s cr)" "\<not> hs_durableTurnPreparationFailed s"
  shows "\<not> hs_currentTurnToolStarted s \<and> sf_durableBinding (getRuntimeTurnReplaySafety s cr) \<noteq> BindMissing"
    and "hs_currentCrashRecoveryTerminal s = Some t \<Longrightarrow>
           ct_status t \<noteq> TComplete \<and> \<not> ct_startedTool t \<and> \<not> ct_materializedOutput t \<and> \<not> ct_inputMutated t
           \<and> \<not> hs_currentTurnInputMutated s \<and> hs_toolEffectFence s = Some HostWriteAhead"
    and "hs_currentCrashRecoveryTerminal s = None \<Longrightarrow> hs_currentCrashRecoveryAttemptId s = Some a \<Longrightarrow> a \<noteq> [] \<Longrightarrow>
           \<exists>c r. cr = Some c \<and> cv_acceptingDeliveries c \<and> map_of (cv_activeAttempts c) a = Some r
             \<and> \<not> at_startedTool r \<and> \<not> at_materializedOutput r \<and> \<not> at_inputMutated r
             \<and> \<not> hs_currentTurnInputMutated s \<and> hs_toolEffectFence s = Some HostWriteAhead"
    and "\<not> isProviderEndedAfterCompletedTools s (getRuntimeTurnReplaySafety s cr)"
  using replayable_evidence [OF assms] replayable_terminal [OF assms] replayable_attempt [OF assms]
    replayable_not_ended [of s cr] assms(1)
  by blast+

text \<open>The replay fence of a turn whose durable hand-off did not fail. It is replayable only if no tool of it
  is known to have started and its durable record is not missing; where a terminal or an attempt is recorded, that
  record must moreover show no output and no input change, and come from a provider whose tools are fenced before
  they run. A turn the provider ended after its tools completed is never replayable.\<close>

theorem replay_fence_sound:
  assumes "sf_replayable (getRuntimeTurnReplaySafety s cr)" "\<not> hs_durableTurnPreparationFailed s"
  shows "(\<not> hs_currentTurnToolStarted s \<and> sf_durableBinding (getRuntimeTurnReplaySafety s cr) \<noteq> BindMissing) \<and>
    (hs_currentCrashRecoveryTerminal s = Some t \<longrightarrow>
           ct_status t \<noteq> TComplete \<and> \<not> ct_startedTool t \<and> \<not> ct_materializedOutput t \<and> \<not> ct_inputMutated t
           \<and> \<not> hs_currentTurnInputMutated s \<and> hs_toolEffectFence s = Some HostWriteAhead) \<and>
    (hs_currentCrashRecoveryTerminal s = None \<longrightarrow> hs_currentCrashRecoveryAttemptId s = Some a \<longrightarrow> a \<noteq> [] \<longrightarrow> (\<exists>c r. cr = Some c \<and> cv_acceptingDeliveries c \<and> map_of (cv_activeAttempts c) a = Some r
             \<and> \<not> at_startedTool r \<and> \<not> at_materializedOutput r \<and> \<not> at_inputMutated r
             \<and> \<not> hs_currentTurnInputMutated s \<and> hs_toolEffectFence s = Some HostWriteAhead)) \<and>
    (\<not> isProviderEndedAfterCompletedTools s (getRuntimeTurnReplaySafety s cr))"
  using replay_fence_sound_parts [OF assms] by blast

definition idle_session :: "user_message list \<Rightarrow> host_session" where
  "idle_session ms =
     \<lparr>hs_agentId = ''main'', hs_starting = False, hs_aborted = False, hs_pushMessage = False,
      hs_wakeSignal = False, hs_pendingWake = False, hs_pendingMessages = ms, hs_currentSource = None,
      hs_currentReplyTarget = None, hs_suppressChatEmit = False, hs_toolRunning = False,
      hs_toolResultDeliveryPending = False, hs_done = False, hs_interrupted = False,
      hs_internalAbortReason = None, hs_turnActive = False, hs_onTurnComplete = False,
      hs_turnSignal = False, hs_compacting = False, hs_currentToolSafety = None, hs_pendingAbort = False,
      hs_currentTurnPendingIds = None, hs_currentTurnSuperseded = False,
      hs_currentTurnToolStarted = False, hs_currentTurnInputMutated = False,
      hs_toolEffectFence = Some HostWriteAhead, hs_currentTraceTurnId = None,
      hs_currentTraceTurnTerminalRecorded = False, hs_runtimeTerminalSseEmitted = False,
      hs_currentCrashRecoveryAttemptId = None, hs_currentCrashRecoveryTerminal = None,
      hs_durableTurnPreparationFailed = False, hs_idleGapRecoveryTimer = False,
      hs_idleSessionEvictionTimer = False\<rparr>"

definition plain_message :: "nat \<Rightarrow> string \<Rightarrow> delivery_barrier option \<Rightarrow> user_message" where
  "plain_message n pid b =
     \<lparr>um_ref = n, um_content = ''hello'', um_clientMessageId = None, um_replay = None,
      um_terminalReplayAllowed = None, um_deliveryBarrier = b, um_deliveryBarrierSource = None,
      um_taskBarrierTaskId = None, um_commands = None, um_launchPrompt = None,
      um_pendingId = Some pid, um_queuedAt = None\<rparr>"

theorem replay_fence_sound_witness:
  "\<not> isProviderEndedAfterCompletedTools
       (idle_session []\<lparr>hs_currentCrashRecoveryAttemptId := Some ''a1''\<rparr>)
       (getRuntimeTurnReplaySafety (idle_session []\<lparr>hs_currentCrashRecoveryAttemptId := Some ''a1''\<rparr>)
          (Some \<lparr>cv_acceptingDeliveries = True, cv_activeAttempts = [(''a1'', \<lparr>at_startedTool = False,
             at_materializedOutput = False, at_inputMutated = False\<rparr>)]\<rparr>))"
  by (rule replay_fence_sound [THEN conjunct2, THEN conjunct2, THEN conjunct2]) code_simp+

lemma carry_over_excludes_consumed_turn_parts:
  assumes "identified (hs_pendingMessages s)" "current_ids s \<noteq> {}"
    "\<not> sf_replayable (getRuntimeTurnReplaySafety s cr)"
  shows "getCrashRecoveryReplayablePendingRuntimeMessages s cr =
           filter (\<lambda>m. \<not> pending_in (current_ids s) m) (hs_pendingMessages s)"
    and "snd (stashPendingRuntimeMessages n s st \<lparr>so_crashRecovery = cr, so_reconcileCurrentTurn = False\<rparr>) n =
           (case filter (\<lambda>m. \<not> pending_in (current_ids s) m) (hs_pendingMessages s) of
              [] \<Rightarrow> st n | ms \<Rightarrow> Some ms)"
    and "sf_replayable (getRuntimeTurnReplaySafety s' cr) \<Longrightarrow> \<not> hs_currentTurnSuperseded s' \<Longrightarrow>
         hs_currentCrashRecoveryTerminal s' = None \<Longrightarrow>
           getCrashRecoveryReplayablePendingRuntimeMessages s' cr = hs_pendingMessages s'"
proof -
  have ne: "nullish (hs_currentTurnPendingIds s) [] \<noteq> []" using assms(2) by auto
  show c: "getCrashRecoveryReplayablePendingRuntimeMessages s cr =
           filter (\<lambda>m. \<not> pending_in (current_ids s) m) (hs_pendingMessages s)"
    using assms(3) ne
    by (simp add: getCrashRecoveryReplayablePendingRuntimeMessages_def Let_def
          successors_filter [OF assms(1,2)])
  show "snd (stashPendingRuntimeMessages n s st \<lparr>so_crashRecovery = cr, so_reconcileCurrentTurn = False\<rparr>) n =
           (case filter (\<lambda>m. \<not> pending_in (current_ids s) m) (hs_pendingMessages s) of
              [] \<Rightarrow> st n | ms \<Rightarrow> Some ms)"
    unfolding stashPendingRuntimeMessages_def Let_def
    by (simp add: c split: list.split)
qed (simp add: getCrashRecoveryReplayablePendingRuntimeMessages_def getReplayablePendingRuntimeMessages_def)

text \<open>What is carried into a replacement runtime keeps the order of the queue. When the physical turn
  is not replayable its own messages are left out and, if every queued message has an id, exactly the other
  messages are carried; a replayable turn that was not superseded carries the whole queue; and the stash
  holds those messages as they were.\<close>

theorem carry_over_excludes_consumed_turn:
  assumes "identified (hs_pendingMessages s)" "current_ids s \<noteq> {}"
    "\<not> sf_replayable (getRuntimeTurnReplaySafety s cr)"
  shows "(getCrashRecoveryReplayablePendingRuntimeMessages s cr =
           filter (\<lambda>m. \<not> pending_in (current_ids s) m) (hs_pendingMessages s)) \<and>
    (snd (stashPendingRuntimeMessages n s st \<lparr>so_crashRecovery = cr, so_reconcileCurrentTurn = False\<rparr>) n =
           (case filter (\<lambda>m. \<not> pending_in (current_ids s) m) (hs_pendingMessages s) of
              [] \<Rightarrow> st n | ms \<Rightarrow> Some ms)) \<and>
    (sf_replayable (getRuntimeTurnReplaySafety s' cr) \<longrightarrow> \<not> hs_currentTurnSuperseded s' \<longrightarrow>
         hs_currentCrashRecoveryTerminal s' = None \<longrightarrow>
           getCrashRecoveryReplayablePendingRuntimeMessages s' cr = hs_pendingMessages s')"
  using carry_over_excludes_consumed_turn_parts [OF assms] by blast

theorem carry_over_excludes_consumed_turn_witness:
  "getCrashRecoveryReplayablePendingRuntimeMessages
     (idle_session [plain_message 0 ''p0'' None, plain_message 1 ''p1'' None]
        \<lparr>hs_currentTurnPendingIds := Some [''p0''], hs_currentTurnToolStarted := True\<rparr>) None =
   [plain_message 1 ''p1'' None]"
  by (subst carry_over_excludes_consumed_turn [THEN conjunct1]) code_simp+

text \<open>Reconciling stash. An ambiguous turn that was not superseded keeps the whole queue, in order: the
  messages of the turn are marked as a replay, with the fence's verdict on whether a failed terminal may be
  retried, and the others are unchanged.\<close>

theorem reconcile_stash_keeps_queue:
  assumes "\<not> hs_currentTurnSuperseded s" "hs_pendingMessages s \<noteq> []"
  shows "stashPendingRuntimeMessages n s st \<lparr>so_crashRecovery = cr, so_reconcileCurrentTurn = True\<rparr> =
     (length (hs_pendingMessages s),
      st(n \<mapsto> map (\<lambda>m. if pending_in (current_ids s) m
                     then m\<lparr>um_replay := Some True,
                            um_terminalReplayAllowed := Some (sf_replayable (getRuntimeTurnReplaySafety s cr))\<rparr>
                     else m) (hs_pendingMessages s)))"
  using assms
  by (simp add: stashPendingRuntimeMessages_def getReplayablePendingRuntimeMessages_def
        cloneRuntimeMessageForStash_def Let_def)

theorem reconcile_stash_keeps_queue_witness:
  "fst (stashPendingRuntimeMessages ''s'' (idle_session [plain_message 0 ''p0'' None]) Map.empty
     \<lparr>so_crashRecovery = None, so_reconcileCurrentTurn = True\<rparr>) = 1"
  by (subst reconcile_stash_keeps_queue) (simp_all add: idle_session_def)

text \<open>A queue that waits between turns is not carried over while the crash-recovery coordinator
  refuses deliveries: with no current turn the fence is closed, there are no successors of a turn, and the
  stash stays as it was although the queue held a message.\<close>

theorem idle_queue_dropped_when_not_accepting:
  "stashPendingRuntimeMessages ''s'' (idle_session [plain_message 0 ''p0'' (Some AfterTask)]) Map.empty
     \<lparr>so_crashRecovery = Some \<lparr>cv_acceptingDeliveries = False, cv_activeAttempts = []\<rparr>,
      so_reconcileCurrentTurn = False\<rparr> = (0, Map.empty)"
  by (simp add: stashPendingRuntimeMessages_def getCrashRecoveryReplayablePendingRuntimeMessages_def
        getRuntimeTurnReplaySafety_def getPendingRuntimeTurnSuccessors_def idle_session_def Let_def)

lemma shutdown_releases_waiters_parts:
  shows "hs_done (shutdownRuntimeStreamingSession s r) \<and> hs_aborted (shutdownRuntimeStreamingSession s r)
         \<and> \<not> hs_starting (shutdownRuntimeStreamingSession s r)"
    and "\<not> hs_pushMessage (shutdownRuntimeStreamingSession s r) \<and> \<not> hs_onTurnComplete (shutdownRuntimeStreamingSession s r)"
    and "hs_wakeSignal (shutdownRuntimeStreamingSession s r) = (hs_pushMessage s \<or> hs_wakeSignal s)"
    and "hs_turnSignal (shutdownRuntimeStreamingSession s r) = (hs_onTurnComplete s \<or> hs_turnSignal s)"
    and "hs_pendingMessages (shutdownRuntimeStreamingSession s r) = hs_pendingMessages s"
    and "hs_internalAbortReason (shutdownRuntimeStreamingSession s r) = (if truthy r then r else hs_internalAbortReason s)"
    and "shutdownRuntimeStreamingSession (shutdownRuntimeStreamingSession s r) None = shutdownRuntimeStreamingSession s r"
  using shutdown_twice
  by (simp_all only: shutdown_fields truthy_simps not_True_eq_False not_False_eq_True simp_thms)

text \<open>Shutdown ends the session and releases whoever waits on it: afterwards it is done and aborted, no
  generator waits, both of the generator's promises that were pending are resolved, and the queue is as it
  was; shutting down again without a reason changes nothing.\<close>

theorem shutdown_releases_waiters:
  shows "(hs_done (shutdownRuntimeStreamingSession s r) \<and> hs_aborted (shutdownRuntimeStreamingSession s r)
         \<and> \<not> hs_starting (shutdownRuntimeStreamingSession s r)) \<and>
    (\<not> hs_pushMessage (shutdownRuntimeStreamingSession s r) \<and> \<not> hs_onTurnComplete (shutdownRuntimeStreamingSession s r)) \<and>
    (hs_wakeSignal (shutdownRuntimeStreamingSession s r) = (hs_pushMessage s \<or> hs_wakeSignal s)) \<and>
    (hs_turnSignal (shutdownRuntimeStreamingSession s r) = (hs_onTurnComplete s \<or> hs_turnSignal s)) \<and>
    (hs_pendingMessages (shutdownRuntimeStreamingSession s r) = hs_pendingMessages s) \<and>
    (hs_internalAbortReason (shutdownRuntimeStreamingSession s r) = (if truthy r then r else hs_internalAbortReason s)) \<and>
    (shutdownRuntimeStreamingSession (shutdownRuntimeStreamingSession s r) None = shutdownRuntimeStreamingSession s r)"
  using shutdown_releases_waiters_parts by blast

end
