(* ===== verification/TurnEnd.thy ===== *)
theory TurnEnd
  imports HostSession
begin

text \<open>
  The end of a provider turn in the event loop of the host
  (\<open>src/src/runtime/host-event-loop.ts\<close>): the terminal state of the physical turn is latched once
  (\<open>terminalizeCurrentCrashRecoveryAttempt\<close>, \<open>recordTerminalTraceOnce\<close>), then the events
  \<open>turn.complete\<close> and \<open>turn.interrupted\<close> reset the per-turn state of the session and signal the
  generator. The crash-recovery coordinator is read through its accepting flag, its active
  attempts, its ownership failure and whether the ledger accepts a terminal state. Where the
  loop throws, the result is the error. The response, the traces, the usage and the live state
  that the handlers publish are not part of the session state modelled here.
\<close>

record crash_coordinator = crash_recovery +
  cc_ownershipFailure :: bool
  cc_ledgerAccepts :: "string \<Rightarrow> terminal_status \<Rightarrow> bool"

definition crash_view :: "crash_coordinator option \<Rightarrow> crash_recovery option" where
  "crash_view cr = map_option crash_recovery.truncate cr"

datatype turn_end_error =
    AttemptBindingMissing
  | CoordinatorMissing string
  | TerminalizeRefused string
  | AttemptStillRunning string

definition latch_terminal ::
  "terminal_status \<Rightarrow> turn_attempt option \<Rightarrow> host_session \<Rightarrow> crash_terminal option \<times> host_session" where
  "latch_terminal status attempt s =
     (let terminal = \<lparr>ct_status = status,
            ct_startedTool = ((case attempt of None \<Rightarrow> False | Some a \<Rightarrow> at_startedTool a)
                              \<or> hs_currentTurnToolStarted s),
            ct_materializedOutput = (case attempt of None \<Rightarrow> False | Some a \<Rightarrow> at_materializedOutput a),
            ct_inputMutated = ((case attempt of None \<Rightarrow> False | Some a \<Rightarrow> at_inputMutated a)
                               \<or> hs_currentTurnInputMutated s)\<rparr>
      in (Some terminal, s\<lparr>hs_currentCrashRecoveryTerminal := Some terminal\<rparr>))"

definition terminalizeCurrentCrashRecoveryAttempt ::
  "crash_coordinator option \<Rightarrow> terminal_status \<Rightarrow> host_session
   \<Rightarrow> turn_end_error + crash_terminal option \<times> host_session" where
  "terminalizeCurrentCrashRecoveryAttempt cr status s =
     (case hs_currentCrashRecoveryTerminal s of
        Some t \<Rightarrow> Inr (Some t, s)
      | None \<Rightarrow>
          if truthy (hs_currentCrashRecoveryAttemptId s)
          then
            (let attemptId = the (hs_currentCrashRecoveryAttemptId s) in
             case cr of
               None \<Rightarrow> Inl (CoordinatorMissing attemptId)
             | Some c \<Rightarrow>
                 (case map_of (cv_activeAttempts c) attemptId of
                    None \<Rightarrow> Inl (TerminalizeRefused attemptId)
                  | Some attempt \<Rightarrow>
                      if cc_ledgerAccepts c attemptId status
                      then Inr (latch_terminal status (Some attempt) (s\<lparr>hs_currentCrashRecoveryAttemptId := None\<rparr>))
                      else Inl (TerminalizeRefused attemptId)))
          else
            (case cr of
               None \<Rightarrow> Inr (latch_terminal status None s)
             | Some c \<Rightarrow>
                 if cc_ownershipFailure c then Inr (None, s)
                 else if truthy (hs_currentTraceTurnId s) then Inl AttemptBindingMissing
                 else Inr (latch_terminal status None s)))"

definition recordTerminalTraceOnce ::
  "crash_coordinator option \<Rightarrow> terminal_status \<Rightarrow> host_session \<Rightarrow> turn_end_error + host_session" where
  "recordTerminalTraceOnce cr status s =
     (case terminalizeCurrentCrashRecoveryAttempt cr status s of
        Inl e \<Rightarrow> Inl e
      | Inr (None, s1) \<Rightarrow> Inr s1
      | Inr (Some t, s1) \<Rightarrow>
          if \<not> truthy (hs_currentTraceTurnId s1) \<or> hs_currentTraceTurnTerminalRecorded s1 then Inr s1
          else Inr (s1\<lparr>hs_currentTraceTurnTerminalRecorded := True\<rparr>))"

definition clearTraceTurnState :: "host_session \<Rightarrow> turn_end_error + host_session" where
  "clearTraceTurnState s =
     (if truthy (hs_currentCrashRecoveryAttemptId s)
      then Inl (AttemptStillRunning (the (hs_currentCrashRecoveryAttemptId s)))
      else Inr (s\<lparr>hs_currentTraceTurnId := None, hs_currentTraceTurnTerminalRecorded := False\<rparr>))"

definition clearActiveToolState :: "host_session \<Rightarrow> host_session" where
  "clearActiveToolState s =
     s\<lparr>hs_toolRunning := False, hs_toolResultDeliveryPending := False, hs_currentToolSafety := None\<rparr>"

definition signalTurnComplete :: "host_session \<Rightarrow> host_session" where
  "signalTurnComplete s =
     (if hs_onTurnComplete s then s\<lparr>hs_turnSignal := True, hs_onTurnComplete := False\<rparr> else s)"

text \<open>The resets that both handlers make, up to the clearing of the trace state.\<close>

definition end_turn_state :: "host_session \<Rightarrow> turn_end_error + host_session" where
  "end_turn_state s =
     clearTraceTurnState
       ((clearActiveToolState s)\<lparr>hs_compacting := False, hs_currentTurnToolStarted := False,
          hs_currentTurnInputMutated := False, hs_turnActive := False\<rparr>)"

definition turn_complete_event ::
  "crash_coordinator option \<Rightarrow> bool \<Rightarrow> host_session \<Rightarrow> turn_end_error + host_session" where
  "turn_complete_event cr promptTooLong s =
     (case recordTerminalTraceOnce cr TComplete s of
        Inl e \<Rightarrow> Inl e
      | Inr s1 \<Rightarrow>
          let s2 = (if promptTooLong
                    then s1\<lparr>hs_internalAbortReason := Some ''prompt_too_long_reset'', hs_aborted := True\<rparr>
                    else s1)
          in map_sum id signalTurnComplete (end_turn_state (s2\<lparr>hs_pendingAbort := False\<rparr>)))"

definition turn_interrupted_event ::
  "crash_coordinator option \<Rightarrow> host_session \<Rightarrow> turn_end_error + host_session" where
  "turn_interrupted_event cr s =
     (let safety = getRuntimeTurnReplaySafety s (crash_view cr) in
      case recordTerminalTraceOnce cr TInterrupted s of
        Inl e \<Rightarrow> Inl e
      | Inr s1 \<Rightarrow>
          let carried = getCrashRecoveryReplayablePendingRuntimeMessages s1 (crash_view cr);
              s2 = (if isProviderEndedAfterCompletedTools s1 safety
                    then s1\<lparr>hs_interrupted := False, hs_pendingMessages := carried\<rparr>
                    else if \<not> sf_replayable safety
                    then s1\<lparr>hs_interrupted := True, hs_pendingMessages := carried\<rparr>
                    else s1\<lparr>hs_interrupted := True\<rparr>)
          in map_sum id signalTurnComplete (end_turn_state s2))"

section \<open>What the handlers keep\<close>

lemma latch_fields [simp]:
  "hs_pendingMessages (snd (latch_terminal st a s)) = hs_pendingMessages s"
  "hs_currentTurnPendingIds (snd (latch_terminal st a s)) = hs_currentTurnPendingIds s"
  "hs_currentTurnSuperseded (snd (latch_terminal st a s)) = hs_currentTurnSuperseded s"
  "hs_interrupted (snd (latch_terminal st a s)) = hs_interrupted s"
  by (simp_all add: latch_terminal_def Let_def)

lemma terminalize_fields:
  assumes "terminalizeCurrentCrashRecoveryAttempt cr st s = Inr (t, s1)"
  shows "hs_pendingMessages s1 = hs_pendingMessages s"
    "hs_currentTurnPendingIds s1 = hs_currentTurnPendingIds s"
    "hs_currentTurnSuperseded s1 = hs_currentTurnSuperseded s"
    "hs_interrupted s1 = hs_interrupted s"
proof -
  have "\<exists>a s0. s1 = s \<or> s1 = snd (latch_terminal st a s0) \<and> (s0 = s \<or> s0 = s\<lparr>hs_currentCrashRecoveryAttemptId := None\<rparr>)"
    using assms unfolding terminalizeCurrentCrashRecoveryAttempt_def Let_def
    by (auto split: option.splits if_splits) (metis snd_conv)+
  then show "hs_pendingMessages s1 = hs_pendingMessages s"
    "hs_currentTurnPendingIds s1 = hs_currentTurnPendingIds s"
    "hs_currentTurnSuperseded s1 = hs_currentTurnSuperseded s"
    "hs_interrupted s1 = hs_interrupted s" by auto
qed

lemma record_terminal_fields:
  assumes "recordTerminalTraceOnce cr st s = Inr s1"
  shows "hs_pendingMessages s1 = hs_pendingMessages s"
    "hs_currentTurnPendingIds s1 = hs_currentTurnPendingIds s"
    "hs_currentTurnSuperseded s1 = hs_currentTurnSuperseded s"
    "hs_interrupted s1 = hs_interrupted s"
proof -
  obtain t s0 where t: "terminalizeCurrentCrashRecoveryAttempt cr st s = Inr (t, s0)"
    and s1: "s1 = s0 \<or> s1 = s0\<lparr>hs_currentTraceTurnTerminalRecorded := True\<rparr>"
    using assms by (auto simp: recordTerminalTraceOnce_def split: sum.splits option.splits if_splits)
  show "hs_pendingMessages s1 = hs_pendingMessages s"
    "hs_currentTurnPendingIds s1 = hs_currentTurnPendingIds s"
    "hs_currentTurnSuperseded s1 = hs_currentTurnSuperseded s"
    "hs_interrupted s1 = hs_interrupted s"
    using s1 terminalize_fields [OF t] by auto
qed

lemma end_turn_fields:
  assumes "end_turn_state s = Inr s1"
  shows "hs_pendingMessages s1 = hs_pendingMessages s"
    "hs_currentTurnPendingIds s1 = hs_currentTurnPendingIds s"
    "hs_currentTurnSuperseded s1 = hs_currentTurnSuperseded s"
    "hs_interrupted s1 = hs_interrupted s"
    "hs_onTurnComplete s1 = hs_onTurnComplete s"
    "\<not> hs_turnActive s1" "hs_currentTraceTurnId s1 = None" "\<not> hs_toolRunning s1"
  using assms by (auto simp: end_turn_state_def clearTraceTurnState_def clearActiveToolState_def split: if_splits)

lemma signal_fields [simp]:
  "hs_pendingMessages (signalTurnComplete s) = hs_pendingMessages s"
  "hs_currentTurnPendingIds (signalTurnComplete s) = hs_currentTurnPendingIds s"
  "hs_currentTurnSuperseded (signalTurnComplete s) = hs_currentTurnSuperseded s"
  "hs_interrupted (signalTurnComplete s) = hs_interrupted s"
  by (simp_all add: signalTurnComplete_def)

lemma map_sum_Inr: "map_sum id f x = Inr y \<longleftrightarrow> (\<exists>z. x = Inr z \<and> y = f z)"
  by (cases x) auto

lemma turn_complete_fields:
  assumes "turn_complete_event cr l s = Inr s'"
  shows "hs_pendingMessages s' = hs_pendingMessages s"
    "hs_currentTurnPendingIds s' = hs_currentTurnPendingIds s"
    "hs_currentTurnSuperseded s' = hs_currentTurnSuperseded s"
proof -
  obtain s1 s2 s3 where r: "recordTerminalTraceOnce cr TComplete s = Inr s1"
    and s2: "s2 = (if l then s1\<lparr>hs_internalAbortReason := Some ''prompt_too_long_reset'', hs_aborted := True\<rparr> else s1)"
    and e: "end_turn_state (s2\<lparr>hs_pendingAbort := False\<rparr>) = Inr s3" and s': "s' = signalTurnComplete s3"
    using assms by (auto simp: turn_complete_event_def Let_def map_sum_Inr split: sum.splits)
  show "hs_pendingMessages s' = hs_pendingMessages s"
    "hs_currentTurnPendingIds s' = hs_currentTurnPendingIds s"
    "hs_currentTurnSuperseded s' = hs_currentTurnSuperseded s"
    using record_terminal_fields [OF r] end_turn_fields [OF e] by (simp_all add: s' s2)
qed

lemma turn_interrupted_cases:
  assumes "turn_interrupted_event cr s = Inr s'"
  obtains s1 where "recordTerminalTraceOnce cr TInterrupted s = Inr s1"
    "hs_currentTurnPendingIds s' = hs_currentTurnPendingIds s1"
    "hs_currentTurnSuperseded s' = hs_currentTurnSuperseded s1"
    "hs_pendingMessages s' =
       (if isProviderEndedAfterCompletedTools s1 (getRuntimeTurnReplaySafety s (crash_view cr))
           \<or> \<not> sf_replayable (getRuntimeTurnReplaySafety s (crash_view cr))
        then getCrashRecoveryReplayablePendingRuntimeMessages s1 (crash_view cr)
        else hs_pendingMessages s1)"
    "hs_interrupted s' \<longleftrightarrow>
       \<not> isProviderEndedAfterCompletedTools s1 (getRuntimeTurnReplaySafety s (crash_view cr))"
proof -
  let ?g = "getRuntimeTurnReplaySafety s (crash_view cr)"
  obtain s1 s3 where r: "recordTerminalTraceOnce cr TInterrupted s = Inr s1"
    and e: "end_turn_state (if isProviderEndedAfterCompletedTools s1 ?g
              then s1\<lparr>hs_interrupted := False,
                      hs_pendingMessages := getCrashRecoveryReplayablePendingRuntimeMessages s1 (crash_view cr)\<rparr>
              else if \<not> sf_replayable ?g
              then s1\<lparr>hs_interrupted := True,
                      hs_pendingMessages := getCrashRecoveryReplayablePendingRuntimeMessages s1 (crash_view cr)\<rparr>
              else s1\<lparr>hs_interrupted := True\<rparr>) = Inr s3"
    and s': "s' = signalTurnComplete s3"
    using assms by (auto simp: turn_interrupted_event_def Let_def map_sum_Inr split: sum.splits)
  show thesis
    by (rule that [OF r]) (use end_turn_fields [OF e] in \<open>simp_all add: s' split: if_splits\<close>)
qed

section \<open>The fence across the latch\<close>

lemma latch_terminal_eq:
  "hs_currentCrashRecoveryTerminal (snd (latch_terminal st a s)) = Some \<lparr>ct_status = st,
     ct_startedTool = ((case a of None \<Rightarrow> False | Some a \<Rightarrow> at_startedTool a) \<or> hs_currentTurnToolStarted s),
     ct_materializedOutput = (case a of None \<Rightarrow> False | Some a \<Rightarrow> at_materializedOutput a),
     ct_inputMutated = ((case a of None \<Rightarrow> False | Some a \<Rightarrow> at_inputMutated a) \<or> hs_currentTurnInputMutated s)\<rparr>"
  "fst (latch_terminal st a s) = hs_currentCrashRecoveryTerminal (snd (latch_terminal st a s))"
  "hs_durableTurnPreparationFailed (snd (latch_terminal st a s)) = hs_durableTurnPreparationFailed s"
  "hs_currentTurnToolStarted (snd (latch_terminal st a s)) = hs_currentTurnToolStarted s"
  "hs_currentTurnInputMutated (snd (latch_terminal st a s)) = hs_currentTurnInputMutated s"
  "hs_toolEffectFence (snd (latch_terminal st a s)) = hs_toolEffectFence s"
  by (simp_all add: latch_terminal_def Let_def)

lemma safety_recorded [simp]:
  assumes "hs_currentCrashRecoveryTerminal s = Some t"
  shows "getRuntimeTurnReplaySafety (s\<lparr>hs_currentTraceTurnTerminalRecorded := r\<rparr>) cr = getRuntimeTurnReplaySafety s cr"
  using assms by (simp add: getRuntimeTurnReplaySafety_def Let_def)

lemma terminalized_not_replayable:
  assumes "terminalizeCurrentCrashRecoveryAttempt (Some c) st s = Inr (t, s1)"
    and "\<not> sf_replayable (getRuntimeTurnReplaySafety s (crash_view (Some c)))"
  shows "\<not> sf_replayable (getRuntimeTurnReplaySafety s1 (crash_view (Some c)))"
proof (cases "hs_currentCrashRecoveryTerminal s")
  case (Some u)
  then show ?thesis using assms by (simp add: terminalizeCurrentCrashRecoveryAttempt_def)
next
  case None
  note [simp] = None crash_view_def crash_recovery.defs
  have prep: "\<not> hs_durableTurnPreparationFailed s"
    using assms(2) by (auto simp: getRuntimeTurnReplaySafety_def)
  have view: "cv_acceptingDeliveries (crash_recovery.truncate c) = cv_acceptingDeliveries c"
    "cv_activeAttempts (crash_recovery.truncate c) = cv_activeAttempts c"
    by (simp_all add: crash_recovery.defs)
  show ?thesis
  proof (cases "cv_acceptingDeliveries c")
    case False
    have "hs_durableTurnPreparationFailed s1 = hs_durableTurnPreparationFailed s"
      using assms(1) unfolding terminalizeCurrentCrashRecoveryAttempt_def
      by (auto simp: latch_terminal_def Let_def split: if_splits option.splits)
    then show ?thesis using False prep by (simp add: getRuntimeTurnReplaySafety_def Let_def)
  next
    case True
    show ?thesis
    proof (cases "truthy (hs_currentCrashRecoveryAttemptId s)")
      case act: True
      then obtain a where a: "map_of (cv_activeAttempts c) (the (hs_currentCrashRecoveryAttemptId s)) = Some a"
        and s1: "s1 = snd (latch_terminal st (Some a) (s\<lparr>hs_currentCrashRecoveryAttemptId := None\<rparr>))"
        using assms(1) by (auto simp: terminalizeCurrentCrashRecoveryAttempt_def Let_def split: option.splits if_splits)
      have "hs_toolEffectFence s \<noteq> Some HostWriteAhead \<or> at_startedTool a \<or> hs_currentTurnToolStarted s
            \<or> at_materializedOutput a \<or> at_inputMutated a \<or> hs_currentTurnInputMutated s"
        using assms(2) prep True act a by (auto simp: getRuntimeTurnReplaySafety_def view Let_def)
      then show ?thesis
        using True prep by (auto simp: getRuntimeTurnReplaySafety_def view s1 latch_terminal_eq Let_def)
    next
      case noact: False
      then have alt: "(cc_ownershipFailure c \<and> s1 = s) \<or> (\<not> truthy (hs_currentTraceTurnId s) \<and> s1 = snd (latch_terminal st None s))"
        using assms(1) by (auto simp: terminalizeCurrentCrashRecoveryAttempt_def split: if_splits)
      then show ?thesis
      proof
        assume "cc_ownershipFailure c \<and> s1 = s"
        then show ?thesis using assms(2) by simp
      next
        assume l: "\<not> truthy (hs_currentTraceTurnId s) \<and> s1 = snd (latch_terminal st None s)"
        then have "hs_currentTurnToolStarted s"
          using assms(2) prep True noact by (auto simp: getRuntimeTurnReplaySafety_def view Let_def split: if_splits)
        then show ?thesis using True prep l by (simp add: getRuntimeTurnReplaySafety_def view latch_terminal_eq Let_def)
      qed
    qed
  qed
qed

lemma terminalized_some:
  "terminalizeCurrentCrashRecoveryAttempt cr st s = Inr (Some t, s1) \<Longrightarrow> hs_currentCrashRecoveryTerminal s1 = Some t"
  by (auto simp: terminalizeCurrentCrashRecoveryAttempt_def latch_terminal_def Let_def split: option.splits if_splits)

lemma recorded_not_replayable:
  assumes "recordTerminalTraceOnce (Some c) st s = Inr s1"
    and "\<not> sf_replayable (getRuntimeTurnReplaySafety s (crash_view (Some c)))"
  shows "\<not> sf_replayable (getRuntimeTurnReplaySafety s1 (crash_view (Some c)))"
proof -
  obtain t s0 where t: "terminalizeCurrentCrashRecoveryAttempt (Some c) st s = Inr (t, s0)"
    and s1: "s1 = s0 \<or> (\<exists>u. t = Some u) \<and> s1 = s0\<lparr>hs_currentTraceTurnTerminalRecorded := True\<rparr>"
    using assms(1) by (auto simp: recordTerminalTraceOnce_def split: sum.splits option.splits if_splits)
  have n: "\<not> sf_replayable (getRuntimeTurnReplaySafety s0 (crash_view (Some c)))"
    by (rule terminalized_not_replayable [OF t assms(2)])
  from s1 show ?thesis
  proof
    assume "(\<exists>u. t = Some u) \<and> s1 = s0\<lparr>hs_currentTraceTurnTerminalRecorded := True\<rparr>"
    then show ?thesis using n t terminalized_some by auto
  qed (use n in simp)
qed

section \<open>Properties\<close>

lemma unsafe_interrupt_discarded_parts:
  assumes "turn_interrupted_event (Some c) s = Inr s'"
    and "\<not> sf_replayable (getRuntimeTurnReplaySafety s (crash_view (Some c)))"
    and "current_ids s \<noteq> {}"
  shows "hs_pendingMessages s' =
           filter (\<lambda>m. case um_pendingId m of None \<Rightarrow> False | Some p \<Rightarrow> p \<notin> current_ids s) (hs_pendingMessages s)"
    and "recordTerminalTraceOnce (Some c) TInterrupted s = Inr s1 \<Longrightarrow>
         hs_currentCrashRecoveryTerminal s1 = Some t \<Longrightarrow>
         terminalizeCurrentCrashRecoveryAttempt (Some c) status s1 = Inr (Some t, s1)"
proof -
  obtain s1 where r: "recordTerminalTraceOnce (Some c) TInterrupted s = Inr s1"
    and q: "hs_pendingMessages s' = getCrashRecoveryReplayablePendingRuntimeMessages s1 (crash_view (Some c))"
    by (rule turn_interrupted_cases [OF assms(1)]) (use assms(2) in auto)
  note f = record_terminal_fields [OF r] recorded_not_replayable [OF r assms(2)]
  have "nullish (hs_currentTurnPendingIds s1) [] \<noteq> []" using assms(3) f(2) by auto
  then show "hs_pendingMessages s' =
           filter (\<lambda>m. case um_pendingId m of None \<Rightarrow> False | Some p \<Rightarrow> p \<notin> current_ids s) (hs_pendingMessages s)"
    using f assms(3)
    by (auto simp: q getCrashRecoveryReplayablePendingRuntimeMessages_def getPendingRuntimeTurnSuccessors_def Let_def
        split: option.splits)
  show "terminalizeCurrentCrashRecoveryAttempt (Some c) status s1 = Inr (Some t, s1)"
    if "hs_currentCrashRecoveryTerminal s1 = Some t" for s1
    using that by (simp add: terminalizeCurrentCrashRecoveryAttempt_def)
qed

text \<open>C34: With a crash-recovery coordinator, an interrupted turn that must not be replayed never returns to the
  queue: when the replay fence refuses a turn with messages (a tool started, output or input changed, or its durable
  state is lost) and the interrupt returns, the messages of the turn are taken out, whatever the terminal state
  that is latched on the way, and exactly the queued successors stay, in order. The terminal state is latched once: a later terminal
  event cannot change it. (Without a coordinator the messages stay: see \<open>unowned_interrupt_kept\<close>.)\<close>

theorem unsafe_interrupt_discarded:
  assumes "turn_interrupted_event (Some c) s = Inr s'"
    and "\<not> sf_replayable (getRuntimeTurnReplaySafety s (crash_view (Some c)))"
    and "current_ids s \<noteq> {}"
  shows "(hs_pendingMessages s' =
           filter (\<lambda>m. case um_pendingId m of None \<Rightarrow> False | Some p \<Rightarrow> p \<notin> current_ids s) (hs_pendingMessages s)) \<and>
    (recordTerminalTraceOnce (Some c) TInterrupted s = Inr s1 \<longrightarrow>
         hs_currentCrashRecoveryTerminal s1 = Some t \<longrightarrow>
         terminalizeCurrentCrashRecoveryAttempt (Some c) status s1 = Inr (Some t, s1))"
  using unsafe_interrupt_discarded_parts [OF assms] by blast

definition interrupted_session :: host_session where
  "interrupted_session = (idle_session [plain_message 0 ''p0'' None, plain_message 1 ''p1'' None])
     \<lparr>hs_turnActive := True, hs_onTurnComplete := True, hs_currentTurnPendingIds := Some [''p0''],
      hs_currentTraceTurnId := Some ''turn-1'', hs_currentCrashRecoveryAttemptId := Some ''a'',
      hs_toolEffectFence := Some HostWriteAhead\<rparr>"

definition interrupted_coordinator :: crash_coordinator where
  "interrupted_coordinator = \<lparr>cv_acceptingDeliveries = True,
     cv_activeAttempts = [(''a'', \<lparr>at_startedTool = True, at_materializedOutput = False, at_inputMutated = False\<rparr>)],
     cc_ownershipFailure = False, cc_ledgerAccepts = (\<lambda>_ _. True)\<rparr>"

theorem unsafe_interrupt_discarded_witness:
  "hs_pendingMessages (projr (turn_interrupted_event (Some interrupted_coordinator) interrupted_session))
   = [plain_message 1 ''p1'' None]"
proof -
  let ?e = "turn_interrupted_event (Some interrupted_coordinator) interrupted_session"
  have e: "?e = Inr (projr ?e)" by code_simp
  have "\<not> sf_replayable (getRuntimeTurnReplaySafety interrupted_session (crash_view (Some interrupted_coordinator)))"
    "current_ids interrupted_session \<noteq> {}" by code_simp+
  from unsafe_interrupt_discarded [OF e this, THEN conjunct1] show ?thesis by simp code_simp
qed

text \<open>Without a coordinator the fence does not survive the latch: the turn counts as not replayable while its
  trace runs, but the terminal state latched by the interrupt itself makes it replayable again, so its
  messages stay in the queue.\<close>

lemma unowned_interrupt_kept:
  defines "s \<equiv> interrupted_session\<lparr>hs_currentCrashRecoveryAttemptId := None\<rparr>"
  shows "\<not> sf_replayable (getRuntimeTurnReplaySafety s (crash_view None))"
    and "hs_pendingMessages (projr (turn_interrupted_event None s)) = hs_pendingMessages s"
  unfolding s_def by code_simp+

end
