(* ===== verification/DeliveryQueue.thy ===== *)
theory DeliveryQueue
  imports TurnEnd "HOL-Library.Multiset"
begin

text \<open>
  The delivery queue of a streaming session (\<open>src/src/runtime/delivery-queue.ts\<close>, with the
  append of \<open>session-dispatcher.ts\<close> and the task query of \<open>tasks/task-db.ts\<close>): which queued
  messages a barrier lets out, which of them share the next turn, when an arriving message may
  interrupt, the preparation of its successor, and the message generator, one function per stretch
  of code between two suspension points. The task table and the instance configuration are
  arguments, as are the random part of a client message id and the result of the callbacks that
  record the start of a turn.
\<close>

section \<open>Active tasks\<close>

record task_row =
  tk_id :: string
  tk_assignee :: "string option"
  tk_status :: string

definition dbHasActiveTaskForSession :: "task_row list \<Rightarrow> string \<Rightarrow> string option \<Rightarrow> bool" where
  "dbHasActiveTaskForSession db sessionName excludeTaskId =
     list_ex (\<lambda>t. tk_assignee t = Some sessionName
                 \<and> tk_status t \<in> set [''dispatched'', ''in_progress'', ''blocked'']
                 \<and> (truthy excludeTaskId \<longrightarrow> tk_id t \<noteq> the excludeTaskId)) db"

section \<open>Queueing\<close>

definition getRuntimePromptDeliveryBarrier :: "launch_prompt \<Rightarrow> delivery_barrier" where
  "getRuntimePromptDeliveryBarrier prompt = nullish (lp_deliveryBarrier prompt) DEFAULT_DELIVERY_BARRIER"

definition createQueuedRuntimeUserMessage :: "nat \<Rightarrow> string \<Rightarrow> int \<Rightarrow> launch_prompt \<Rightarrow> user_message" where
  "createQueuedRuntimeUserMessage ref pendingId now prompt =
     \<lparr>um_ref = ref, um_content = resolveRuntimePromptText prompt, um_clientMessageId = None,
      um_replay = None, um_terminalReplayAllowed = None,
      um_deliveryBarrier = Some (getRuntimePromptDeliveryBarrier prompt),
      um_deliveryBarrierSource = lp_deliveryBarrierSource prompt,
      um_taskBarrierTaskId = lp_taskBarrierTaskId prompt, um_commands = lp_commands prompt,
      um_launchPrompt = Some prompt, um_pendingId = Some pendingId, um_queuedAt = Some now\<rparr>"

text \<open>The ids already seen are a \<open>Set\<close> in the source.\<close>

fun append_unseen :: "string set \<Rightarrow> user_message list \<Rightarrow> user_message list \<Rightarrow> user_message list" where
  "append_unseen seen queued [] = queued"
| "append_unseen seen queued (m # ms) =
     (if pending_in seen m then append_unseen seen queued ms
      else append_unseen (if truthy (um_pendingId m) then insert (the (um_pendingId m)) seen else seen)
             (queued @ [m]) ms)"

definition appendUniqueRuntimeMessages :: "user_message list \<Rightarrow> user_message list \<Rightarrow> user_message list" where
  "appendUniqueRuntimeMessages queued messages =
     append_unseen {p. Some p \<in> set (map um_pendingId queued) \<and> p \<noteq> []} queued messages"

definition hasIsolatedRuntimeTurnEnvelope :: "launch_prompt option \<Rightarrow> bool" where
  "hasIsolatedRuntimeTurnEnvelope prompt =
     (case prompt of None \<Rightarrow> False | Some p \<Rightarrow> lp_channelBackend p \<noteq> None \<or> lp_turnOrigin p \<noteq> None)"

section \<open>Release\<close>

definition isGeneratingText :: "host_session \<Rightarrow> bool" where
  "isGeneratingText s \<longleftrightarrow> \<not> hs_done s \<and> hs_turnActive s \<and> \<not> hs_compacting s \<and> \<not> hs_toolRunning s"

definition canReleaseRuntimeDeliveryBarrier :: "host_session \<Rightarrow> delivery_barrier \<Rightarrow> bool \<Rightarrow> bool" where
  "canReleaseRuntimeDeliveryBarrier s barrier hasActiveTask =
     (if hs_toolResultDeliveryPending s then False
      else case barrier of
        ImmediateInterrupt \<Rightarrow>
          if hs_starting s \<or> hs_compacting s then False
          else if hs_toolRunning s \<and> hs_currentToolSafety s = Some UnsafeTool then False
          else True
      | AfterTool \<Rightarrow> \<not> hs_starting s \<and> \<not> hs_compacting s \<and> \<not> hs_toolRunning s
      | AfterResponse \<Rightarrow>
          \<not> hs_starting s \<and> \<not> hs_compacting s \<and> \<not> hs_toolRunning s \<and> \<not> isGeneratingText s
      | AfterTask \<Rightarrow>
          \<not> hasActiveTask \<and> \<not> hs_starting s \<and> \<not> hs_compacting s \<and> \<not> hs_toolRunning s
          \<and> \<not> isGeneratingText s)"

definition releasable :: "task_row list \<Rightarrow> string \<Rightarrow> host_session \<Rightarrow> user_message \<Rightarrow> bool" where
  "releasable db sessionName s m =
     canReleaseRuntimeDeliveryBarrier s (um_barrier m)
       (dbHasActiveTaskForSession db sessionName (um_taskBarrierTaskId m))"

text \<open>The three cuts that bound a turn: one isolated envelope, one replay attempt, one surface.\<close>

definition envelope_bounded :: "user_message list \<Rightarrow> user_message list" where
  "envelope_bounded deliverable =
     (case find_index (\<lambda>m. hasIsolatedRuntimeTurnEnvelope (um_launchPrompt m)) deliverable of
        Some 0 \<Rightarrow> take 1 deliverable
      | Some i \<Rightarrow> take i deliverable
      | None \<Rightarrow> deliverable)"

definition replay_bounded :: "user_message list \<Rightarrow> user_message list" where
  "replay_bounded ms =
     (let firstIsReplay = um_replay (hd ms) = Some True in
      if \<not> firstIsReplay then cut_at (\<lambda>m. um_replay m = Some True) ms
      else
        let firstReplayId = um_clientMessageId (hd ms) in
        cut_at (\<lambda>m. um_replay m \<noteq> Some True
                    \<or> firstReplayId \<noteq> None \<and> um_clientMessageId m \<noteq> firstReplayId) ms)"

definition surface_bounded :: "user_message list \<Rightarrow> user_message list" where
  "surface_bounded ms =
     (let firstSurface = runtimeTurnSurfaceKey (um_source (hd ms)) in
      take 1 ms @ cut_at (\<lambda>m. runtimeTurnSurfaceKey (um_source m) \<noteq> firstSurface) (drop 1 ms))"

definition getDeliverableRuntimeMessages ::
  "task_row list \<Rightarrow> string \<Rightarrow> host_session \<Rightarrow> user_message list" where
  "getDeliverableRuntimeMessages db sessionName s =
     (if hs_pendingMessages s = [] then []
      else
        let envelopeBounded = envelope_bounded (filter (releasable db sessionName s) (hs_pendingMessages s))
        in if length envelopeBounded \<le> 1 then envelopeBounded
           else surface_bounded (replay_bounded envelopeBounded))"

definition hasDeliverableRuntimeMessages :: "task_row list \<Rightarrow> string \<Rightarrow> host_session \<Rightarrow> bool" where
  "hasDeliverableRuntimeMessages db sessionName s \<longleftrightarrow>
     length (getDeliverableRuntimeMessages db sessionName s) > 0"

section \<open>Interrupts\<close>

definition shouldInterruptRuntimeForIncoming ::
  "task_row list \<Rightarrow> string \<Rightarrow> host_session \<Rightarrow> delivery_barrier \<Rightarrow> string option \<Rightarrow> bool \<times> string" where
  "shouldInterruptRuntimeForIncoming db sessionName s barrier taskBarrierTaskId =
     (if hs_pushMessage s then (False, ''waiting'')
      else if hs_starting s then (False, ''starting'')
      else if hs_compacting s then (False, ''compacting'')
      else if \<not> hs_turnActive s then (False, ''idle_gap'')
      else if barrier = AfterTask \<and> dbHasActiveTaskForSession db sessionName taskBarrierTaskId
      then (False, ''active_task'')
      else if hs_toolResultDeliveryPending s then (False, ''tool_result_delivery'')
      else if hs_toolRunning s
      then (if barrier \<noteq> ImmediateInterrupt then (False, ''tool'')
            else if hs_currentToolSafety s = Some UnsafeTool then (False, ''unsafe_tool'')
            else (True, ''safe_tool''))
      else if barrier = AfterResponse \<or> barrier = AfterTask then (False, ''response'')
      else (True, ''response''))"

definition steeringActorIdentity :: "('a) message_actor_scheme \<Rightarrow> string list" where
  "steeringActorIdentity a =
     [nullish (ma_actorType a) [], nullish (ma_contactId a) [], nullish (ma_actorAgentId a) [],
      nullish (ma_automationId a) [], nullish (ma_platformIdentityId a) [],
      nullish (ma_normalizedSenderId a) [], nullish (ma_rawSenderId a) []]"

text \<open>The compatibility key is the JSON text of an object in the source; here the object.\<close>

record steering_key =
  sk_barrier :: delivery_barrier
  sk_agentId :: string
  sk_runtimeProviderId :: string
  sk_runtimeModel :: string
  sk_backend :: "string list"
  sk_source :: "string list"
  sk_suppressPresence :: bool
  sk_sourceActor :: "string list"
  sk_context :: "string list"
  sk_isGroup :: bool
  sk_contextActor :: "string list"
  sk_principal :: string
  sk_approvalSource :: "(string list \<times> string list) option"

definition steering_blocked :: "user_message \<Rightarrow> launch_prompt \<Rightarrow> message_context \<Rightarrow> bool" where
  "steering_blocked m p context \<longleftrightarrow>
     lp_turnOrigin p \<noteq> None \<or> um_replay m = Some True \<or> truthy (um_clientMessageId m)
     \<or> length (nullish (um_commands m) []) > 0 \<or> length (nullish (lp_commands p) []) > 0
     \<or> mx_isEditedMessage context = Some True \<or> truthy (mx_editedMessageId context)
     \<or> truthy (mx_editEventId context)
     \<or> um_barrier m \<noteq> AfterTool \<and> um_barrier m \<noteq> ImmediateInterrupt
     \<or> truthy (um_taskBarrierTaskId m) \<or> lp_observation p \<noteq> None \<or> lp_heartbeat p \<or> lp_cron p
     \<or> lp_trigger p \<or> lp_sessionFollowup p \<or> lp_thread p \<or> lp_resumeStashedMessages p
     \<or> lp_daemonRestartResume p \<noteq> None"

definition steering_principal :: "message_target \<Rightarrow> message_context \<Rightarrow> string" where
  "steering_principal source context =
     foldr strOr
       [nullish (ma_contactId source) [], nullish (ma_contactId context) [],
        nullish (ma_platformIdentityId source) [], nullish (ma_platformIdentityId context) [],
        nullish (ma_normalizedSenderId source) [], nullish (ma_normalizedSenderId context) [],
        nullish (ma_rawSenderId source) [], nullish (ma_rawSenderId context) []]
       (mx_senderId context)"

definition channelSteeringCompatibilityKey :: "user_message \<Rightarrow> steering_key option" where
  "channelSteeringCompatibilityKey m =
     (case um_launchPrompt m of
        None \<Rightarrow> None
      | Some p \<Rightarrow>
          (case (lp_channelBackend p, lp_source p, lp_context p) of
             (Some backend, Some source, Some context) \<Rightarrow>
               if steering_blocked m p context then None
               else
                 let sourceType = nullish (ma_actorType source) [];
                     contextType = nullish (ma_actorType context) [];
                     actorType = strOr (strOr sourceType contextType) ''unknown'';
                     principal = steering_principal source context
                 in if sourceType \<noteq> [] \<and> contextType \<noteq> [] \<and> sourceType \<noteq> contextType then None
                    else if actorType \<noteq> ''contact'' \<and> actorType \<noteq> ''unknown'' then None
                    else if principal = [] then None
                    else Some
                      \<lparr>sk_barrier = um_barrier m,
                       sk_agentId = nullish (lp_agentId p) (bk_agentId backend),
                       sk_runtimeProviderId = nullish (lp_runtimeProviderId p) [],
                       sk_runtimeModel = nullish (lp_runtimeModel p) [],
                       sk_backend = [bk_channelInstanceId backend, bk_agentId backend, bk_chatId backend,
                         bk_sessionId backend, bk_channelKind backend, bk_connectionId backend,
                         bk_conversationId backend],
                       sk_source = [mt_channel source, mt_accountId source, nullish (mt_instanceId source) [],
                         mt_chatId source, nullish (mt_threadId source) [],
                         nullish (ma_canonicalChatId source) [], nullish (mt_statusAnchorKind source) []],
                       sk_suppressPresence = nullish (mt_suppressPresence source) False,
                       sk_sourceActor = steeringActorIdentity source,
                       sk_context = [mx_channelId context, mx_accountId context,
                         nullish (mx_instanceId context) [], mx_chatId context,
                         nullish (ma_canonicalChatId context) [], mx_senderId context,
                         nullish (mx_groupId context) []],
                       sk_isGroup = mx_isGroup context,
                       sk_contextActor = steeringActorIdentity context,
                       sk_principal = principal,
                       sk_approvalSource = map_option (\<lambda>a.
                         ([mt_channel a, mt_accountId a, nullish (mt_instanceId a) [], mt_chatId a,
                           nullish (mt_threadId a) []], steeringActorIdentity a)) (lp_approvalSource p)\<rparr>
           | _ \<Rightarrow> None))"

definition mergeRuntimeSteeringCohort :: "user_message list \<Rightarrow> user_message \<Rightarrow> user_message" where
  "mergeRuntimeSteeringCohort cohort interrupting =
     (if length cohort \<le> 1 then interrupting
      else
        let content = join [NEWLINE, NEWLINE] (map um_content cohort)
        in interrupting\<lparr>um_content := content,
             um_launchPrompt := map_option (\<lambda>p. p\<lparr>lp_prompt := content\<rparr>) (um_launchPrompt interrupting)\<rparr>)"

text \<open>The source of the active turn: the session's, else that of a message of the turn, else the reply target.\<close>

definition active_source :: "host_session \<Rightarrow> message_target option" where
  "active_source s =
     orElse (hs_currentSource s)
       (orElse (Option.bind (find (pending_in (current_ids s)) (hs_pendingMessages s)) um_source)
          (if hs_suppressChatEmit s then None else hs_currentReplyTarget s))"

definition eligible_successors ::
  "config_store \<Rightarrow> task_row list \<Rightarrow> string \<Rightarrow> host_session \<Rightarrow> user_message list" where
  "eligible_successors cfg db sessionName s =
     (let successors = filter (\<lambda>m. \<not> pending_in (current_ids s) m) (hs_pendingMessages s);
          sameSurface = cut_at (\<lambda>m. \<not> isSameRuntimeTurnSurface cfg (active_source s) (um_source m)) successors
      in filter (\<lambda>m. fst (shouldInterruptRuntimeForIncoming db sessionName s (um_barrier m)
                            (um_taskBarrierTaskId m))) sameSurface)"

definition steering_cohort :: "user_message list \<Rightarrow> user_message list" where
  "steering_cohort eligible =
     (case channelSteeringCompatibilityKey (hd eligible) of
        None \<Rightarrow> [hd eligible]
      | Some key \<Rightarrow>
          hd eligible # cut_at (\<lambda>m. channelSteeringCompatibilityKey m \<noteq> Some key) (tl eligible))"

definition prepareRuntimeInterruptSuccessor ::
  "config_store \<Rightarrow> task_row list \<Rightarrow> string \<Rightarrow> host_session \<Rightarrow>
     ((user_message \<times> user_message list) option) \<times> host_session" where
  "prepareRuntimeInterruptSuccessor cfg db sessionName s =
     (if current_ids s = {} then (None, s)
      else
        let eligible = eligible_successors cfg db sessionName s in
        if eligible = [] then (None, s)
        else
          let cohort = steering_cohort eligible;
              interrupting = last cohort
          in if \<not> truthy (um_pendingId interrupting) then (None, s)
             else
               let merged = mergeRuntimeSteeringCohort cohort interrupting;
                   cohortSet = set (map um_ref cohort);
                   active = filter (pending_in (current_ids s)) (hs_pendingMessages s);
                   remaining = filter (\<lambda>m. um_ref m \<notin> cohortSet \<and> \<not> pending_in (current_ids s) m)
                                 (hs_pendingMessages s)
               in (Some (merged, filter (\<lambda>m. um_ref m \<noteq> um_ref interrupting) cohort),
                   s\<lparr>hs_pendingMessages := active @ merged # remaining\<rparr>))"

section \<open>Waking\<close>

type_synonym sessions = "string \<Rightarrow> host_session option"

definition wakeRuntimeSessionIfDeliverable :: "task_row list \<Rightarrow> string \<Rightarrow> sessions \<Rightarrow> sessions" where
  "wakeRuntimeSessionIfDeliverable db sessionName streaming =
     (case streaming sessionName of
        None \<Rightarrow> streaming
      | Some s \<Rightarrow>
          if \<not> hs_pushMessage s then streaming(sessionName \<mapsto> s\<lparr>hs_pendingWake := True\<rparr>)
          else if \<not> hasDeliverableRuntimeMessages db sessionName s then streaming
          else streaming(sessionName \<mapsto>
                 call_pushMessage (s\<lparr>hs_pushMessage := False, hs_pendingWake := False\<rparr>)))"

section \<open>The message generator\<close>

text \<open>Before the loop: stashed messages go to the front of the queue.\<close>

definition reinject_stashed :: "string \<Rightarrow> stash \<Rightarrow> host_session \<Rightarrow> host_session \<times> stash" where
  "reinject_stashed sessionName stashed s =
     (case stashed sessionName of
        None \<Rightarrow> (s, stashed)
      | Some ms \<Rightarrow>
          if ms = [] then (s, stashed)
          else (s\<lparr>hs_pendingMessages := ms @ hs_pendingMessages s\<rparr>, stashed(sessionName := None)))"

text \<open>Where the generator stands between two of its steps.\<close>

record turn_start =
  ts_turnId :: string
  ts_crashRecoveryAttemptId :: "string option"

record yielded_prompt =
  yp_content :: string
  yp_clientMessageId :: string
  yp_replay :: bool
  yp_terminalReplayAllowed :: bool

datatype gen_phase = AtLoop | Waiting | Preparing "string list" yielded_prompt | InTurn "string list"
  | Ended | Failed

definition gen_poll_empty :: "host_session \<Rightarrow> host_session \<times> gen_phase" where
  "gen_poll_empty s =
     (if hs_pendingWake s then (s\<lparr>hs_pendingWake := False\<rparr>, AtLoop)
      else (s\<lparr>hs_pushMessage := True, hs_wakeSignal := False\<rparr>, Waiting))"

definition gen_resume :: "host_session \<Rightarrow> host_session \<times> gen_phase" where
  "gen_resume s =
     (if hs_pendingMessages s = [] \<and> hs_done s then (s\<lparr>hs_wakeSignal := False\<rparr>, Ended)
      else (s\<lparr>hs_wakeSignal := False\<rparr>, AtLoop))"

definition yielded_ids :: "user_message list \<Rightarrow> string list" where
  "yielded_ids deliverable = remdups (map the (filter truthy (map um_pendingId deliverable)))"

definition is_replay_turn :: "user_message list \<Rightarrow> bool" where
  "is_replay_turn deliverable =
     list_all (\<lambda>m. um_replay m = Some True \<and> truthy (um_clientMessageId m)) deliverable"

definition turn_client_id :: "string \<Rightarrow> user_message list \<Rightarrow> string" where
  "turn_client_id uuid deliverable =
     (if is_replay_turn deliverable
      then nullish (um_clientMessageId (hd deliverable)) (''ravi:'' @ uuid)
      else ''ravi:'' @ uuid)"

definition stamp_messages :: "nat set \<Rightarrow> string \<Rightarrow> user_message list \<Rightarrow> user_message list" where
  "stamp_messages refs clientMessageId =
     map (\<lambda>m. if um_ref m \<in> refs then m\<lparr>um_clientMessageId := Some clientMessageId\<rparr> else m)"

definition begin_turn_state :: "string \<Rightarrow> user_message list \<Rightarrow> host_session \<Rightarrow> host_session" where
  "begin_turn_state uuid deliverable s =
     s\<lparr>hs_currentCrashRecoveryTerminal := None,
       hs_pendingMessages := stamp_messages (set (map um_ref deliverable)) (turn_client_id uuid deliverable)
                               (hs_pendingMessages s),
       hs_currentTurnPendingIds := Some (yielded_ids deliverable),
       hs_currentTurnSuperseded := False,
       hs_onTurnComplete := True, hs_turnSignal := False,
       hs_turnActive := True,
       hs_currentTurnToolStarted := False, hs_currentTurnInputMutated := False,
       hs_durableTurnPreparationFailed := False,
       hs_idleSessionEvictionTimer := False, hs_idleGapRecoveryTimer := False,
       hs_currentTraceTurnTerminalRecorded := False, hs_runtimeTerminalSseEmitted := False\<rparr>"

text \<open>The callbacks threw: the preparation of the turn is undone and the error ends the generator.\<close>

definition preparation_failed :: "host_session \<Rightarrow> host_session" where
  "preparation_failed s =
     s\<lparr>hs_durableTurnPreparationFailed := True, hs_turnActive := False,
       hs_currentTurnPendingIds := None, hs_currentTurnSuperseded := False,
       hs_currentTurnToolStarted := False, hs_currentTurnInputMutated := False,
       hs_currentTraceTurnId := None, hs_currentTraceTurnTerminalRecorded := False,
       hs_currentCrashRecoveryAttemptId := None, hs_onTurnComplete := False\<rparr>"

definition trace_started :: "turn_start option \<Rightarrow> host_session \<Rightarrow> host_session" where
  "trace_started trace s =
     (case trace of
        None \<Rightarrow> s
      | Some t \<Rightarrow> s\<lparr>hs_currentTraceTurnId := Some (ts_turnId t),
                     hs_currentCrashRecoveryAttemptId := ts_crashRecoveryAttemptId t\<rparr>)"

definition gen_begin_turn :: "string \<Rightarrow> user_message list \<Rightarrow> host_session \<Rightarrow> host_session \<times> gen_phase" where
  "gen_begin_turn uuid deliverable s =
     (begin_turn_state uuid deliverable s,
      Preparing (yielded_ids deliverable)
        \<lparr>yp_content = combineSessionSurfacePromptContents (map um_content deliverable),
         yp_clientMessageId = turn_client_id uuid deliverable,
         yp_replay = is_replay_turn deliverable,
         yp_terminalReplayAllowed = list_all (\<lambda>m. um_terminalReplayAllowed m \<noteq> Some False) deliverable\<rparr>)"

text \<open>The callbacks are awaited: the turn is handed over in a later step, whatever happened in between.\<close>

definition gen_prepared ::
  "string list \<Rightarrow> yielded_prompt \<Rightarrow> unit + turn_start option \<Rightarrow> host_session \<Rightarrow>
     host_session \<times> gen_phase \<times> yielded_prompt option" where
  "gen_prepared ids prompt prep s =
     (case prep of
        Inl _ \<Rightarrow> (preparation_failed s, Failed, None)
      | Inr trace \<Rightarrow> (trace_started trace s, InTurn ids, Some prompt))"

definition gen_finish_turn :: "string list \<Rightarrow> host_session \<Rightarrow> host_session" where
  "gen_finish_turn yielded s =
     (let s1 = (if hs_interrupted s \<and> hs_currentTurnSuperseded s
                then s\<lparr>hs_pendingMessages := getReplayablePendingRuntimeMessages s, hs_interrupted := False\<rparr>
                else if hs_interrupted s then s\<lparr>hs_interrupted := False\<rparr>
                else s\<lparr>hs_pendingMessages :=
                         filter (\<lambda>m. \<not> pending_in (set yielded) m) (hs_pendingMessages s)\<rparr>)
      in s1\<lparr>hs_currentTurnPendingIds := None, hs_currentTurnSuperseded := False, hs_turnSignal := False\<rparr>)"

text \<open>One step of the generator from the head of its loop.\<close>

definition gen_loop :: "task_row list \<Rightarrow> string \<Rightarrow> string \<Rightarrow> host_session \<Rightarrow> host_session \<times> gen_phase" where
  "gen_loop db sessionName uuid s =
     (if hs_done s then (s, Ended)
      else
        let deliverable = getDeliverableRuntimeMessages db sessionName s in
        if deliverable = [] then gen_poll_empty s else gen_begin_turn uuid deliverable s)"

section \<open>Lemmas on release\<close>

lemma releasable_mono:
  assumes "DELIVERY_BARRIER_PRIORITY b \<le> DELIVERY_BARRIER_PRIORITY b'" "canReleaseRuntimeDeliveryBarrier s b' a"
  shows "canReleaseRuntimeDeliveryBarrier s b a"
  using assms by (cases b; cases b') (auto simp: canReleaseRuntimeDeliveryBarrier_def split: if_splits)

lemma interrupt_allowed:
  assumes "fst (shouldInterruptRuntimeForIncoming db n s b t)"
  shows "hs_turnActive s" "\<not> hs_starting s" "\<not> hs_compacting s" "\<not> hs_pushMessage s"
    "\<not> hs_toolResultDeliveryPending s" "b = ImmediateInterrupt \<or> b = AfterTool"
    "hs_toolRunning s \<Longrightarrow> b = ImmediateInterrupt \<and> hs_currentToolSafety s \<noteq> Some UnsafeTool"
  using assms by (cases b; auto simp: shouldInterruptRuntimeForIncoming_def split: if_splits)+

lemma interrupt_can_release:
  assumes "fst (shouldInterruptRuntimeForIncoming db n s b t)"
  shows "canReleaseRuntimeDeliveryBarrier s b a"
  using interrupt_allowed [OF assms] by (auto simp: canReleaseRuntimeDeliveryBarrier_def)

lemma subseq_takeWhile: "subseq (takeWhile P xs) xs"
  by (metis prefix_imp_subseq takeWhile_is_prefix)

lemma subseq_take: "subseq (take n xs) xs"
  by (metis prefix_imp_subseq take_is_prefix)

lemma cut_at_subseq: "subseq (cut_at p xs) xs"
  by (simp add: cut_at_takeWhile subseq_takeWhile)

lemma cut_at_none: "m \<in> set (cut_at p xs) \<Longrightarrow> \<not> p m"
  by (auto simp: cut_at_takeWhile dest: set_takeWhileD)

lemma cut_at_keeps_hd: "xs \<noteq> [] \<Longrightarrow> \<not> p (hd xs) \<Longrightarrow> cut_at p xs \<noteq> [] \<and> hd (cut_at p xs) = hd xs"
  by (cases xs) (auto simp: cut_at_takeWhile)

lemma envelope_bounded_subseq: "subseq (envelope_bounded ms) ms"
  by (auto simp: envelope_bounded_def subseq_take split: option.split nat.split)

lemma envelope_bounded_hd: "ms \<noteq> [] \<Longrightarrow> envelope_bounded ms \<noteq> [] \<and> hd (envelope_bounded ms) = hd ms"
  by (cases ms) (auto simp: envelope_bounded_def split: option.split nat.split)

lemma envelope_bounded_isolated:
  assumes "2 \<le> length (envelope_bounded ms)" "m \<in> set (envelope_bounded ms)"
  shows "\<not> hasIsolatedRuntimeTurnEnvelope (um_launchPrompt m)"
proof (cases "find_index (\<lambda>m. hasIsolatedRuntimeTurnEnvelope (um_launchPrompt m)) ms")
  case None
  then have "envelope_bounded ms = ms" by (simp add: envelope_bounded_def)
  then show ?thesis using assms(2) None by (simp add: find_index_None)
next
  case (Some i)
  then show ?thesis using assms find_index_Some [OF Some]
    by (cases i) (auto simp: envelope_bounded_def)
qed

lemma replay_bounded_subseq: "subseq (replay_bounded ms) ms"
  by (simp add: replay_bounded_def Let_def cut_at_subseq)

lemma replay_bounded_hd: "ms \<noteq> [] \<Longrightarrow> replay_bounded ms \<noteq> [] \<and> hd (replay_bounded ms) = hd ms"
  unfolding replay_bounded_def Let_def by (auto intro: cut_at_keeps_hd simp: cut_at_keeps_hd)

lemma surface_bounded_subseq: "subseq (surface_bounded ms) ms"
proof -
  have "subseq (take 1 ms @ cut_at p (drop 1 ms)) (take 1 ms @ drop 1 ms)" for p
    by (rule list_emb_append_mono) (auto simp: cut_at_subseq)
  then show ?thesis by (simp add: surface_bounded_def Let_def)
qed

lemma surface_bounded_hd: "ms \<noteq> [] \<Longrightarrow> surface_bounded ms \<noteq> [] \<and> hd (surface_bounded ms) = hd ms"
  by (cases ms) (simp_all add: surface_bounded_def Let_def)

lemma surface_bounded_one:
  "m \<in> set (surface_bounded ms) \<Longrightarrow>
     runtimeTurnSurfaceKey (um_source m) = runtimeTurnSurfaceKey (um_source (hd ms))"
  by (cases ms) (auto simp: surface_bounded_def Let_def dest: cut_at_none)

lemma deliverable_subseq_filter:
  "subseq (getDeliverableRuntimeMessages db n s) (filter (releasable db n s) (hs_pendingMessages s))"
  unfolding getDeliverableRuntimeMessages_def Let_def
  by (auto intro: envelope_bounded_subseq
        subseq_order.trans [OF surface_bounded_subseq
          subseq_order.trans [OF replay_bounded_subseq envelope_bounded_subseq]])

lemma deliverable_nonempty:
  "getDeliverableRuntimeMessages db n s \<noteq> [] \<longleftrightarrow> (\<exists>m \<in> set (hs_pendingMessages s). releasable db n s m)"
proof -
  define f where "f = filter (releasable db n s) (hs_pendingMessages s)"
  have e: "envelope_bounded f = [] \<longleftrightarrow> f = []"
    using envelope_bounded_hd [of f] by (cases "f = []") (simp_all add: envelope_bounded_def)
  have "surface_bounded (replay_bounded g) \<noteq> []" if "g \<noteq> []" for g
    using replay_bounded_hd [OF that] surface_bounded_hd [of "replay_bounded g"] by blast
  then have "getDeliverableRuntimeMessages db n s \<noteq> [] \<longleftrightarrow> f \<noteq> []"
    unfolding getDeliverableRuntimeMessages_def Let_def f_def [symmetric]
    using e by (cases "hs_pendingMessages s = []"; cases "f = []") (simp_all add: f_def)
  then show ?thesis by (simp add: f_def filter_empty_conv)
qed

lemma subseq_set: "subseq xs ys \<Longrightarrow> set xs \<subseteq> set ys"
  by (induction rule: list_emb.induct) auto

lemma deliverable_set:
  assumes "m \<in> set (getDeliverableRuntimeMessages db n s)"
  shows "m \<in> set (hs_pendingMessages s) \<and> releasable db n s m"
proof -
  have "m \<in> set (filter (releasable db n s) (hs_pendingMessages s))"
    using subseq_set [OF deliverable_subseq_filter] assms by (rule subsetD)
  then show ?thesis by simp
qed

lemma deliverable_subseq: "subseq (getDeliverableRuntimeMessages db n s) (hs_pendingMessages s)"
  by (rule subseq_order.trans [OF deliverable_subseq_filter subseq_filter_left])

lemma deliverable_shape:
  "length (getDeliverableRuntimeMessages db n s) \<le> 1 \<or>
   (\<exists>ms. 2 \<le> length (envelope_bounded ms) \<and>
     getDeliverableRuntimeMessages db n s = surface_bounded (replay_bounded (envelope_bounded ms)))"
proof (cases "hs_pendingMessages s = []
    \<or> length (envelope_bounded (filter (releasable db n s) (hs_pendingMessages s))) \<le> 1")
  case True
  then show ?thesis by (auto simp: getDeliverableRuntimeMessages_def Let_def)
next
  case False
  then have "2 \<le> length (envelope_bounded (filter (releasable db n s) (hs_pendingMessages s)))" by simp
  moreover have "getDeliverableRuntimeMessages db n s =
      surface_bounded (replay_bounded (envelope_bounded (filter (releasable db n s) (hs_pendingMessages s))))"
    using False by (simp add: getDeliverableRuntimeMessages_def Let_def)
  ultimately show ?thesis by blast
qed

lemma deliverable_isolated:
  assumes "m \<in> set (getDeliverableRuntimeMessages db n s)" "hasIsolatedRuntimeTurnEnvelope (um_launchPrompt m)"
  shows "getDeliverableRuntimeMessages db n s = [m]"
proof -
  consider "length (getDeliverableRuntimeMessages db n s) \<le> 1"
    | ms where "2 \<le> length (envelope_bounded ms)"
        "getDeliverableRuntimeMessages db n s = surface_bounded (replay_bounded (envelope_bounded ms))"
    using deliverable_shape [of db n s] by blast
  then show ?thesis
  proof cases
    case 1
    then show ?thesis using assms(1) by (cases "getDeliverableRuntimeMessages db n s") auto
  next
    case 2
    have "m \<in> set (envelope_bounded ms)"
      using assms(1) subseq_set [OF surface_bounded_subseq] subseq_set [OF replay_bounded_subseq]
      by (auto simp: 2(2))
    then show ?thesis using envelope_bounded_isolated [OF 2(1)] assms(2) by blast
  qed
qed

lemma deliverable_one_surface:
  assumes "m \<in> set (getDeliverableRuntimeMessages db n s)" "m' \<in> set (getDeliverableRuntimeMessages db n s)"
  shows "runtimeTurnSurfaceKey (um_source m) = runtimeTurnSurfaceKey (um_source m')"
proof -
  consider "length (getDeliverableRuntimeMessages db n s) \<le> 1"
    | ms where "getDeliverableRuntimeMessages db n s = surface_bounded ms"
    using deliverable_shape [of db n s] by blast
  then show ?thesis
  proof cases
    case 1
    then show ?thesis using assms by (cases "getDeliverableRuntimeMessages db n s") auto
  next
    case 2
    then show ?thesis using assms surface_bounded_one by metis
  qed
qed

lemma replay_bounded_uniform:
  assumes "m \<in> set (replay_bounded ms)"
  shows "um_replay m = Some True \<longleftrightarrow> um_replay (hd ms) = Some True"
    and "um_replay m = Some True \<Longrightarrow> um_clientMessageId (hd ms) \<noteq> None \<Longrightarrow>
           um_clientMessageId m = um_clientMessageId (hd ms)"
  using assms by (auto simp: replay_bounded_def Let_def split: if_splits dest: cut_at_none)

lemma deliverable_replay:
  assumes "m \<in> set (getDeliverableRuntimeMessages db n s)"
  shows "um_replay m = um_replay (hd (getDeliverableRuntimeMessages db n s))
         \<or> um_replay m \<noteq> Some True \<and> um_replay (hd (getDeliverableRuntimeMessages db n s)) \<noteq> Some True"
    and "um_replay m = Some True \<Longrightarrow>
           um_clientMessageId (hd (getDeliverableRuntimeMessages db n s)) \<noteq> None \<Longrightarrow>
           um_clientMessageId m = um_clientMessageId (hd (getDeliverableRuntimeMessages db n s))"
proof -
  consider "getDeliverableRuntimeMessages db n s = [m]"
    | ms where "ms \<noteq> []" "getDeliverableRuntimeMessages db n s = surface_bounded (replay_bounded ms)"
  proof -
    have "length (getDeliverableRuntimeMessages db n s) \<le> 1 \<Longrightarrow> getDeliverableRuntimeMessages db n s = [m]"
      using assms by (cases "getDeliverableRuntimeMessages db n s") auto
    moreover have "2 \<le> length (envelope_bounded ms) \<Longrightarrow> envelope_bounded ms \<noteq> []" for ms by auto
    ultimately show ?thesis using deliverable_shape [of db n s] that by blast
  qed
  note shape = this
  show "um_replay m = um_replay (hd (getDeliverableRuntimeMessages db n s))
         \<or> um_replay m \<noteq> Some True \<and> um_replay (hd (getDeliverableRuntimeMessages db n s)) \<noteq> Some True"
    using shape
  proof cases
    case 2
    have h: "hd (surface_bounded (replay_bounded ms)) = hd ms"
      using surface_bounded_hd [of "replay_bounded ms"] replay_bounded_hd [OF 2(1)] by simp
    have "m \<in> set (replay_bounded ms)" using assms subseq_set [OF surface_bounded_subseq] by (auto simp: 2(2))
    then show ?thesis using replay_bounded_uniform(1) h by (metis 2(2))
  qed simp
  show "um_clientMessageId m = um_clientMessageId (hd (getDeliverableRuntimeMessages db n s))"
    if r: "um_replay m = Some True" "um_clientMessageId (hd (getDeliverableRuntimeMessages db n s)) \<noteq> None"
    using shape
  proof cases
    case 2
    have h: "hd (surface_bounded (replay_bounded ms)) = hd ms"
      using surface_bounded_hd [of "replay_bounded ms"] replay_bounded_hd [OF 2(1)] by simp
    have "m \<in> set (replay_bounded ms)" using assms subseq_set [OF surface_bounded_subseq] by (auto simp: 2(2))
    then show ?thesis using replay_bounded_uniform(2) r h by (metis 2(2))
  qed simp
qed

section \<open>Lemmas on the successor of an interrupted turn\<close>

text \<open>A well-formed queue: every message has an id, and ids and objects are not repeated.\<close>

definition queue_ok :: "user_message list \<Rightarrow> bool" where
  "queue_ok ms \<longleftrightarrow> identified ms \<and> distinct (map um_pendingId ms) \<and> distinct (map um_ref ms)"

lemma queue_ok_Nil [simp]: "queue_ok []"
  by (simp add: queue_ok_def identified_def)

lemma queue_ok_filter: "queue_ok ms \<Longrightarrow> queue_ok (filter P ms)"
  by (auto simp: queue_ok_def identified_def list_all_iff distinct_map inj_on_def)

lemma queue_ok_pending: "queue_ok ms \<Longrightarrow> m \<in> set ms \<Longrightarrow> pending_in ids m \<longleftrightarrow> the (um_pendingId m) \<in> ids"
  by (auto simp: queue_ok_def identified_pending)

lemma queue_ok_inj: "queue_ok ms \<Longrightarrow> m \<in> set ms \<Longrightarrow> m' \<in> set ms \<Longrightarrow> um_ref m = um_ref m' \<Longrightarrow> m = m'"
  by (auto simp: queue_ok_def distinct_map inj_on_def)

lemma queue_ok_inj_id:
  "queue_ok ms \<Longrightarrow> m \<in> set ms \<Longrightarrow> m' \<in> set ms \<Longrightarrow> um_pendingId m = um_pendingId m' \<Longrightarrow> m = m'"
  by (auto simp: queue_ok_def distinct_map inj_on_def)

lemma merge_fields [simp]:
  "um_ref (mergeRuntimeSteeringCohort c m) = um_ref m"
  "um_pendingId (mergeRuntimeSteeringCohort c m) = um_pendingId m"
  "um_deliveryBarrier (mergeRuntimeSteeringCohort c m) = um_deliveryBarrier m"
  by (simp_all add: mergeRuntimeSteeringCohort_def Let_def)

lemma merge_content:
  "c \<noteq> [] \<Longrightarrow> um_content (mergeRuntimeSteeringCohort c (last c)) = join [NEWLINE, NEWLINE] (map um_content c)"
  by (cases c) (auto simp: mergeRuntimeSteeringCohort_def Let_def)

lemma steering_cohort_shape:
  assumes "ms \<noteq> []"
  shows "steering_cohort ms \<noteq> []" "prefix (steering_cohort ms) ms"
    "\<lbrakk>m \<in> set (steering_cohort ms); m' \<in> set (steering_cohort ms)\<rbrakk> \<Longrightarrow>
       m = m' \<or> channelSteeringCompatibilityKey m \<noteq> None
              \<and> channelSteeringCompatibilityKey m = channelSteeringCompatibilityKey m'"
  using assms
  by (cases ms; auto simp: steering_cohort_def cut_at_takeWhile takeWhile_is_prefix
      dest!: set_takeWhileD split: option.splits)+

lemma eligible_subseq:
  "subseq (eligible_successors cfg db n s) (filter (\<lambda>m. \<not> pending_in (current_ids s) m) (hs_pendingMessages s))"
  unfolding eligible_successors_def Let_def
  by (rule subseq_order.trans [OF subseq_filter_left cut_at_subseq])

lemma eligible_set:
  assumes "m \<in> set (eligible_successors cfg db n s)"
  shows "m \<in> set (hs_pendingMessages s)" "\<not> pending_in (current_ids s) m"
    "isSameRuntimeTurnSurface cfg (active_source s) (um_source m)"
    "fst (shouldInterruptRuntimeForIncoming db n s (um_barrier m) (um_taskBarrierTaskId m))"
proof -
  have "m \<in> set (filter (\<lambda>m. \<not> pending_in (current_ids s) m) (hs_pendingMessages s))"
    using subseq_set [OF eligible_subseq] assms by (rule subsetD)
  then show "m \<in> set (hs_pendingMessages s)" "\<not> pending_in (current_ids s) m" by simp_all
qed (use assms in \<open>auto simp: eligible_successors_def Let_def dest: cut_at_none\<close>)

lemma distinct_subseq: "subseq xs ys \<Longrightarrow> distinct ys \<Longrightarrow> distinct xs"
  by (induction rule: list_emb.induct) (auto dest: subseq_set)

text \<open>The shape of a prepared successor.\<close>

lemma prepare_cases:
  assumes "prepareRuntimeInterruptSuccessor cfg db n s = (Some (m, co), s')" "queue_ok (hs_pendingMessages s)"
  obtains cohort where "cohort \<noteq> []" "co = butlast cohort" "m = mergeRuntimeSteeringCohort cohort (last cohort)"
    "subseq cohort (eligible_successors cfg db n s)" "current_ids s \<noteq> {}"
    "cohort = steering_cohort (eligible_successors cfg db n s)" "eligible_successors cfg db n s \<noteq> []"
    "s' = s\<lparr>hs_pendingMessages := filter (pending_in (current_ids s)) (hs_pendingMessages s) @ m #
             filter (\<lambda>x. x \<notin> set cohort \<and> \<not> pending_in (current_ids s) x) (hs_pendingMessages s)\<rparr>"
proof -
  define el where "el = eligible_successors cfg db n s"
  define cohort where "cohort = steering_cohort el"
  from assms(1) have ids: "current_ids s \<noteq> {}" and ne: "el \<noteq> []"
    by (auto simp: prepareRuntimeInterruptSuccessor_def Let_def el_def split: if_splits)
  note shape = steering_cohort_shape [OF ne, folded cohort_def]
  have sub: "subseq cohort el" using shape(2) by (rule prefix_imp_subseq)
  have in_q: "x \<in> set (hs_pendingMessages s)" if "x \<in> set cohort" for x
    using eligible_set(1) subsetD [OF subseq_set [OF sub] that] by (simp add: el_def)
  have ref: "um_ref x \<in> um_ref ` set cohort \<longleftrightarrow> x \<in> set cohort" if "x \<in> set (hs_pendingMessages s)" for x
    using that in_q queue_ok_inj [OF assms(2)] by blast
  have "subseq cohort (hs_pendingMessages s)"
    by (rule subseq_order.trans [OF sub [unfolded el_def] subseq_order.trans [OF eligible_subseq subseq_filter_left]])
  then have d: "distinct (map um_ref cohort)"
    using assms(2) unfolding queue_ok_def by (metis distinct_subseq subseq_map)
  have c: "cohort = butlast cohort @ [last cohort]" using shape(1) by simp
  have "filter (\<lambda>x. um_ref x \<noteq> um_ref (last cohort)) (butlast cohort @ [last cohort]) = butlast cohort"
    using d by (subst (asm) c) (simp add: filter_id_conv, metis imageI)
  then have co: "filter (\<lambda>x. um_ref x \<noteq> um_ref (last cohort)) cohort = butlast cohort"
    using c by simp
  have fl: "filter (\<lambda>x. um_ref x \<notin> um_ref ` set cohort \<and> \<not> pending_in (current_ids s) x) (hs_pendingMessages s) =
        filter (\<lambda>x. x \<notin> set cohort \<and> \<not> pending_in (current_ids s) x) (hs_pendingMessages s)"
    by (rule filter_cong) (simp_all add: ref)
  show thesis
  proof (rule that [of cohort])
    show "s' = s\<lparr>hs_pendingMessages := filter (pending_in (current_ids s)) (hs_pendingMessages s) @ m #
             filter (\<lambda>x. x \<notin> set cohort \<and> \<not> pending_in (current_ids s) x) (hs_pendingMessages s)\<rparr>"
      using assms(1) ids ne fl
      by (auto simp: prepareRuntimeInterruptSuccessor_def Let_def el_def [symmetric]
            cohort_def [symmetric] split: if_splits)
    show "co = butlast cohort" "m = mergeRuntimeSteeringCohort cohort (last cohort)"
      using assms(1) ids ne co
      by (auto simp: prepareRuntimeInterruptSuccessor_def Let_def el_def [symmetric]
            cohort_def [symmetric] split: if_splits)
  qed (use shape sub ids ne in \<open>simp_all add: cohort_def el_def\<close>)
qed

lemma prepare_None: "prepareRuntimeInterruptSuccessor cfg db n s = (None, s') \<Longrightarrow> s' = s"
  by (auto simp: prepareRuntimeInterruptSuccessor_def Let_def split: if_splits)

lemma filter_mset_three:
  assumes "\<And>x. x \<in> set xs \<Longrightarrow> A x \<Longrightarrow> \<not> C x"
  shows "mset xs = mset (filter A xs) + mset (filter C xs) + mset (filter (\<lambda>x. \<not> C x \<and> \<not> A x) xs)"
  using assms by (induction xs) auto

lemma cohort_mset:
  assumes "subseq c xs" "distinct xs"
  shows "mset (filter (\<lambda>x. x \<in> set c) xs) = mset c"
proof -
  have "distinct (filter (\<lambda>x. x \<in> set c) xs)" "distinct c"
    using assms distinct_subseq by auto
  moreover have "set (filter (\<lambda>x. x \<in> set c) xs) = set c" using subseq_set [OF assms(1)] by auto
  ultimately show ?thesis by (metis set_eq_iff_mset_eq_distinct)
qed

lemma split_three_map:
  assumes "subseq c (filter (\<lambda>x. \<not> A x) xs)" "distinct xs" "c \<noteq> []" "f m = f (last c)"
  shows "mset (map f xs) =
           mset (map f (filter A xs @ m # filter (\<lambda>x. x \<notin> set c \<and> \<not> A x) xs)) + mset (map f (butlast c))"
proof -
  have n: "\<not> A x" if "x \<in> set c" for x using subseq_set [OF assms(1)] that by auto
  have "mset xs = mset (filter A xs) + mset (filter (\<lambda>x. x \<in> set c) xs)
      + mset (filter (\<lambda>x. x \<notin> set c \<and> \<not> A x) xs)"
    by (rule filter_mset_three) (use n in blast)
  also have "mset (filter (\<lambda>x. x \<in> set c) xs) = mset c"
    by (rule cohort_mset [OF subseq_order.trans [OF assms(1) subseq_filter_left] assms(2)])
  finally have q: "mset xs = mset (filter A xs) + mset c + mset (filter (\<lambda>x. x \<notin> set c \<and> \<not> A x) xs)" .
  have "mset c = mset (butlast c @ [last c])" using assms(3) by simp
  then have "mset (map f c) = mset (map f (butlast c)) + {#f m#}" by (simp add: assms(4))
  then show ?thesis using arg_cong [OF q, of "image_mset f"] by simp
qed

text \<open>No queued message is lost: the queue before is the queue after with the coalesced messages.\<close>

lemma prepare_conserves:
  assumes "prepareRuntimeInterruptSuccessor cfg db n s = (Some (m, co), s')" "queue_ok (hs_pendingMessages s)"
  shows "mset (map um_pendingId (hs_pendingMessages s)) =
           mset (map um_pendingId (hs_pendingMessages s')) + mset (map um_pendingId co)"
    and "mset (map um_ref (hs_pendingMessages s)) =
           mset (map um_ref (hs_pendingMessages s')) + mset (map um_ref co)"
proof -
  obtain cohort where c: "cohort \<noteq> []" "co = butlast cohort" "m = mergeRuntimeSteeringCohort cohort (last cohort)"
    "subseq cohort (eligible_successors cfg db n s)"
    "s' = s\<lparr>hs_pendingMessages := filter (pending_in (current_ids s)) (hs_pendingMessages s) @ m #
             filter (\<lambda>x. x \<notin> set cohort \<and> \<not> pending_in (current_ids s) x) (hs_pendingMessages s)\<rparr>"
    by (rule prepare_cases [OF assms])
  have q': "hs_pendingMessages s' = filter (pending_in (current_ids s)) (hs_pendingMessages s) @ m #
             filter (\<lambda>x. x \<notin> set cohort \<and> \<not> pending_in (current_ids s) x) (hs_pendingMessages s)"
    by (simp add: c(5))
  have dq: "distinct (hs_pendingMessages s)" using assms(2) by (simp add: queue_ok_def distinct_map)
  note split = split_three_map [OF subseq_order.trans [OF c(4) eligible_subseq] dq c(1)]
  show "mset (map um_pendingId (hs_pendingMessages s)) =
           mset (map um_pendingId (hs_pendingMessages s')) + mset (map um_pendingId co)"
    unfolding q' c(2) by (rule split) (simp add: c(3))
  show "mset (map um_ref (hs_pendingMessages s)) =
           mset (map um_ref (hs_pendingMessages s')) + mset (map um_ref co)"
    unfolding q' c(2) by (rule split) (simp add: c(3))
qed

lemma mset_split_distinct:
  assumes "mset xs = mset ys + mset zs" "distinct xs"
  shows "distinct ys" "distinct zs" "set ys \<inter> set zs = {}" "set xs = set ys \<union> set zs"
proof -
  have "mset xs = mset (ys @ zs)" using assms(1) by simp
  then have "distinct (ys @ zs)" "set xs = set (ys @ zs)"
    using assms(2) by (metis mset_eq_imp_distinct_iff, metis mset_eq_setD)
  then show "distinct ys" "distinct zs" "set ys \<inter> set zs = {}" "set xs = set ys \<union> set zs" by auto
qed

lemma identified_iff: "identified ms \<longleftrightarrow> (\<forall>p \<in> set (map um_pendingId ms). truthy p)"
  by (simp add: identified_def list_all_iff)

lemma prepare_queue_ok:
  assumes "prepareRuntimeInterruptSuccessor cfg db n s = (Some (m, co), s')" "queue_ok (hs_pendingMessages s)"
  shows "queue_ok (hs_pendingMessages s')"
proof -
  have d: "distinct (map um_pendingId (hs_pendingMessages s))" "distinct (map um_ref (hs_pendingMessages s))"
    "identified (hs_pendingMessages s)" using assms(2) by (simp_all add: queue_ok_def)
  note p = mset_split_distinct [OF prepare_conserves(1) [OF assms] d(1)]
  have "identified (hs_pendingMessages s')"
    using d(3) p(4) unfolding identified_iff by (metis UnI1)
  with p(1) mset_split_distinct(1) [OF prepare_conserves(2) [OF assms] d(2)]
  show ?thesis by (simp only: queue_ok_def simp_thms)
qed

section \<open>A run of the queue\<close>

text \<open>
  The run: the session, the phase of its generator, the ids accepted into the queue, and the
  ids that have left it. A step is one operation of the dispatcher, the event loop or the
  generator; the activity of the provider sets the tool and compaction flags.
\<close>

record queue_run =
  qr_session :: host_session
  qr_phase :: gen_phase
  qr_accepted :: "string set"
  qr_taken :: "string set"

definition queue_ids :: "user_message list \<Rightarrow> string set" where
  "queue_ids ms = the ` um_pendingId ` set ms"

definition run_with :: "queue_run \<Rightarrow> host_session \<Rightarrow> queue_run" where
  "run_with w s = w\<lparr>qr_session := s,
     qr_taken := qr_taken w \<union> (queue_ids (hs_pendingMessages (qr_session w)) - queue_ids (hs_pendingMessages s))\<rparr>"

inductive queue_step :: "config_store \<Rightarrow> string \<Rightarrow> queue_run \<Rightarrow> queue_run \<Rightarrow> bool" for cfg name where
  Enqueue: "um_pendingId m = Some p \<Longrightarrow> p \<noteq> [] \<Longrightarrow> p \<notin> qr_accepted w \<Longrightarrow>
    um_ref m \<notin> um_ref ` set (hs_pendingMessages (qr_session w)) \<Longrightarrow>
    queue_step cfg name w
      (w\<lparr>qr_session := (qr_session w)\<lparr>hs_pendingMessages :=
           appendUniqueRuntimeMessages (hs_pendingMessages (qr_session w)) [m]\<rparr>,
         qr_accepted := insert p (qr_accepted w)\<rparr>)"
| Activity: "queue_step cfg name w
    (run_with w ((qr_session w)\<lparr>hs_starting := a, hs_compacting := b, hs_toolRunning := c,
       hs_toolResultDeliveryPending := d, hs_currentToolSafety := e, hs_currentTurnToolStarted := f\<rparr>))"
| Wake: "wakeRuntimeSessionIfDeliverable db name [name \<mapsto> qr_session w] name = Some s \<Longrightarrow>
    queue_step cfg name w (run_with w s)"
| Preempt: "prepareRuntimeInterruptSuccessor cfg db name (qr_session w) = (Some (m, co), s) \<Longrightarrow>
    queue_step cfg name w (run_with w (s\<lparr>hs_currentTurnSuperseded := True, hs_interrupted := True\<rparr>))"
| Complete: "qr_phase w = InTurn ids \<Longrightarrow> hs_onTurnComplete (qr_session w) \<Longrightarrow>
    turn_complete_event cr l (qr_session w) = Inr s \<Longrightarrow> queue_step cfg name w (run_with w s)"
| Interrupted: "qr_phase w = InTurn ids \<Longrightarrow> hs_onTurnComplete (qr_session w) \<Longrightarrow>
    turn_interrupted_event cr (qr_session w) = Inr s \<Longrightarrow> queue_step cfg name w (run_with w s)"
| Loop: "qr_phase w = AtLoop \<Longrightarrow> gen_loop db name uuid (qr_session w) = (s, ph) \<Longrightarrow>
    queue_step cfg name w ((run_with w s)\<lparr>qr_phase := ph\<rparr>)"
| Prepared: "qr_phase w = Preparing ids y \<Longrightarrow> gen_prepared ids y prep (qr_session w) = (s, ph, out) \<Longrightarrow>
    queue_step cfg name w ((run_with w s)\<lparr>qr_phase := ph\<rparr>)"
| Resume: "qr_phase w = Waiting \<Longrightarrow> hs_wakeSignal (qr_session w) \<Longrightarrow> gen_resume (qr_session w) = (s, ph) \<Longrightarrow>
    queue_step cfg name w ((run_with w s)\<lparr>qr_phase := ph\<rparr>)"
| Finish: "qr_phase w = InTurn ids \<Longrightarrow> hs_turnSignal (qr_session w) \<Longrightarrow>
    queue_step cfg name w ((run_with w (gen_finish_turn ids (qr_session w)))\<lparr>qr_phase := AtLoop\<rparr>)"

inductive queue_reachable :: "config_store \<Rightarrow> string \<Rightarrow> queue_run \<Rightarrow> bool" for cfg name where
  start: "queue_reachable cfg name \<lparr>qr_session = idle_session [], qr_phase = AtLoop, qr_accepted = {}, qr_taken = {}\<rparr>"
| step: "queue_reachable cfg name w \<Longrightarrow> queue_step cfg name w w' \<Longrightarrow> queue_reachable cfg name w'"

section \<open>The invariant of a run\<close>

definition phase_ids :: "gen_phase \<Rightarrow> string list option" where
  "phase_ids ph = (case ph of InTurn ids \<Rightarrow> Some ids | Preparing ids _ \<Rightarrow> Some ids | _ \<Rightarrow> None)"

definition run_ok :: "queue_run \<Rightarrow> bool" where
  "run_ok w \<longleftrightarrow>
     queue_ok (hs_pendingMessages (qr_session w))
     \<and> hs_currentTurnPendingIds (qr_session w) = phase_ids (qr_phase w)
     \<and> phase_ids (qr_phase w) \<noteq> Some []
     \<and> (hs_currentTurnSuperseded (qr_session w) \<longrightarrow> phase_ids (qr_phase w) \<noteq> None)
     \<and> qr_accepted w = queue_ids (hs_pendingMessages (qr_session w)) \<union> qr_taken w
     \<and> queue_ids (hs_pendingMessages (qr_session w)) \<inter> qr_taken w = {}"

lemma queue_ids_simps [simp]:
  "queue_ids [] = {}" "queue_ids (m # ms) = insert (the (um_pendingId m)) (queue_ids ms)"
  "queue_ids (ms @ ms') = queue_ids ms \<union> queue_ids ms'"
  by (auto simp: queue_ids_def)

lemma queue_ids_filter: "queue_ids (filter P ms) \<subseteq> queue_ids ms"
  by (auto simp: queue_ids_def)

lemma queue_ids_cong: "map um_pendingId ms = map um_pendingId ms' \<Longrightarrow> queue_ids ms = queue_ids ms'"
  unfolding queue_ids_def by (metis list.set_map)

text \<open>A step that only takes messages out of the queue keeps the account.\<close>

lemma run_with_ok:
  assumes "run_ok w" "queue_ok (hs_pendingMessages s)"
    "queue_ids (hs_pendingMessages s) \<subseteq> queue_ids (hs_pendingMessages (qr_session w))"
    "hs_currentTurnPendingIds s = phase_ids ph" "phase_ids ph \<noteq> Some []"
    "hs_currentTurnSuperseded s \<Longrightarrow> phase_ids ph \<noteq> None"
  shows "run_ok ((run_with w s)\<lparr>qr_phase := ph\<rparr>)"
proof -
  have "qr_accepted w = queue_ids (hs_pendingMessages s) \<union> (qr_taken w
          \<union> (queue_ids (hs_pendingMessages (qr_session w)) - queue_ids (hs_pendingMessages s)))"
    using assms(1,3) unfolding run_ok_def by blast
  moreover have "queue_ids (hs_pendingMessages s) \<inter> (qr_taken w
          \<union> (queue_ids (hs_pendingMessages (qr_session w)) - queue_ids (hs_pendingMessages s))) = {}"
    using assms(1,3) unfolding run_ok_def by blast
  ultimately show ?thesis using assms(2,4-6) by (simp add: run_ok_def run_with_def)
qed

lemma run_with_phase: "(run_with w s)\<lparr>qr_phase := qr_phase w\<rparr> = run_with w s"
  by (simp add: run_with_def)

lemma run_with_same:
  assumes "run_ok w" "queue_ok (hs_pendingMessages s)"
    "queue_ids (hs_pendingMessages s) \<subseteq> queue_ids (hs_pendingMessages (qr_session w))"
    "hs_currentTurnPendingIds s = hs_currentTurnPendingIds (qr_session w)"
    "hs_currentTurnSuperseded s \<Longrightarrow> hs_currentTurnPendingIds (qr_session w) \<noteq> None"
  shows "run_ok (run_with w s)"
  using run_with_ok [OF assms(1-3), of "qr_phase w"] assms(1,4,5)
  by (simp add: run_with_phase run_ok_def)

lemma stamp_maps [simp]:
  "map um_pendingId (stamp_messages refs c ms) = map um_pendingId ms"
  "map um_ref (stamp_messages refs c ms) = map um_ref ms"
  "map um_content (stamp_messages refs c ms) = map um_content ms"
  by (simp_all add: stamp_messages_def comp_def if_distrib [of um_pendingId] if_distrib [of um_ref]
      if_distrib [of um_content] cong: if_cong)

lemma queue_ok_cong:
  "map um_pendingId ms = map um_pendingId ms' \<Longrightarrow> map um_ref ms = map um_ref ms' \<Longrightarrow> queue_ok ms = queue_ok ms'"
  by (simp add: queue_ok_def identified_iff del: set_map list.set_map)

lemma yielded_ids_set: "set (yielded_ids d) = {p. Some p \<in> um_pendingId ` set d \<and> p \<noteq> []}"
proof -
  have "x \<in> the ` {v \<in> V. truthy v} \<longleftrightarrow> Some x \<in> V \<and> x \<noteq> []" for x :: string and V
    by (auto elim!: truthyE intro!: image_eqI [of _ _ "Some x"])
  moreover have "set (yielded_ids d) = the ` {v \<in> um_pendingId ` set d. truthy v}"
    by (auto simp: yielded_ids_def)
  ultimately show ?thesis by (simp add: set_eq_iff)
qed

lemma yielded_nonempty: "queue_ok ms \<Longrightarrow> set d \<subseteq> set ms \<Longrightarrow> d \<noteq> [] \<Longrightarrow> yielded_ids d \<noteq> []"
proof -
  assume ok: "queue_ok ms" and sub: "set d \<subseteq> set ms" and ne: "d \<noteq> []"
  then have "hd d \<in> set ms" by auto
  then have "truthy (um_pendingId (hd d))" using ok by (simp add: queue_ok_def identified_def list_all_iff)
  then obtain p where "um_pendingId (hd d) = Some p" "p \<noteq> []" by (rule truthyE)
  then have "p \<in> set (yielded_ids d)" using hd_in_set [OF ne] by (auto simp: yielded_ids_set image_iff intro!: bexI [of _ "hd d"])
  then show "yielded_ids d \<noteq> []" by auto
qed

lemma is_filter:
  "\<exists>P. getReplayablePendingRuntimeMessages s = filter P (hs_pendingMessages s)"
  "\<exists>P. getPendingRuntimeTurnSuccessors s = filter P (hs_pendingMessages s)"
  "\<exists>P. getCrashRecoveryReplayablePendingRuntimeMessages s cr = filter P (hs_pendingMessages s)"
proof -
  have t: "\<exists>P. hs_pendingMessages s = filter P (hs_pendingMessages s)" by (rule exI [of _ "\<lambda>_. True"]) simp
  have f: "\<exists>P. filter R (hs_pendingMessages s) = filter P (hs_pendingMessages s)" for R by (rule exI [of _ R]) simp
  have n: "\<exists>P. [] = filter P (hs_pendingMessages s)" by (rule exI [of _ "\<lambda>_. False"]) simp
  show b: "\<exists>P. getPendingRuntimeTurnSuccessors s = filter P (hs_pendingMessages s)"
    unfolding getPendingRuntimeTurnSuccessors_def using n f by (simp split: if_split)
  show a: "\<exists>P. getReplayablePendingRuntimeMessages s = filter P (hs_pendingMessages s)"
    using t f unfolding getReplayablePendingRuntimeMessages_def by (simp split: if_split)
  show "\<exists>P. getCrashRecoveryReplayablePendingRuntimeMessages s cr = filter P (hs_pendingMessages s)"
    using a b t unfolding getCrashRecoveryReplayablePendingRuntimeMessages_def Let_def by (simp split: if_split)
qed

lemma carried_queue:
  assumes "queue_ok (hs_pendingMessages s)"
  shows "queue_ok (getCrashRecoveryReplayablePendingRuntimeMessages s cr)"
    "queue_ids (getCrashRecoveryReplayablePendingRuntimeMessages s cr) \<subseteq> queue_ids (hs_pendingMessages s)"
    "queue_ok (getReplayablePendingRuntimeMessages s)"
    "queue_ids (getReplayablePendingRuntimeMessages s) \<subseteq> queue_ids (hs_pendingMessages s)"
proof -
  obtain P Q where "getCrashRecoveryReplayablePendingRuntimeMessages s cr = filter P (hs_pendingMessages s)"
    "getReplayablePendingRuntimeMessages s = filter Q (hs_pendingMessages s)"
    using is_filter by blast
  then show "queue_ok (getCrashRecoveryReplayablePendingRuntimeMessages s cr)"
    "queue_ids (getCrashRecoveryReplayablePendingRuntimeMessages s cr) \<subseteq> queue_ids (hs_pendingMessages s)"
    "queue_ok (getReplayablePendingRuntimeMessages s)"
    "queue_ids (getReplayablePendingRuntimeMessages s) \<subseteq> queue_ids (hs_pendingMessages s)"
    using assms queue_ok_filter queue_ids_filter by simp_all
qed

lemma not_in_queue_ids: "p \<notin> queue_ids q \<Longrightarrow> Some p \<notin> um_pendingId ` set q"
proof
  assume "p \<notin> queue_ids q" "Some p \<in> um_pendingId ` set q"
  then have "the (Some p) \<in> queue_ids q" unfolding queue_ids_def by (intro imageI)
  with \<open>p \<notin> queue_ids q\<close> show False by simp
qed

lemma append_one_new:
  assumes "queue_ok q" "um_pendingId m = Some p" "p \<noteq> []" "p \<notin> queue_ids q"
  shows "appendUniqueRuntimeMessages q [m] = q @ [m]"
proof -
  have "Some p \<notin> set (map um_pendingId q)" using not_in_queue_ids [OF assms(4)] by simp
  then show ?thesis using assms(2) by (simp add: appendUniqueRuntimeMessages_def pending_in_def)
qed

lemma queue_ok_snoc:
  assumes "queue_ok q" "um_pendingId m = Some p" "p \<noteq> []" "p \<notin> queue_ids q" "um_ref m \<notin> um_ref ` set q"
  shows "queue_ok (q @ [m])"
proof -
  have "Some p \<notin> um_pendingId ` set q" by (rule not_in_queue_ids [OF assms(4)])
  then show ?thesis using assms by (simp add: queue_ok_def identified_def)
qed

lemma queue_step_enqueue:
  assumes "run_ok w" "um_pendingId m = Some p" "p \<noteq> []" "p \<notin> qr_accepted w"
    "um_ref m \<notin> um_ref ` set (hs_pendingMessages (qr_session w))"
  shows "run_ok (w\<lparr>qr_session := (qr_session w)\<lparr>hs_pendingMessages :=
           appendUniqueRuntimeMessages (hs_pendingMessages (qr_session w)) [m]\<rparr>,
         qr_accepted := insert p (qr_accepted w)\<rparr>)"
proof -
  let ?q = "hs_pendingMessages (qr_session w)"
  have ok: "queue_ok ?q" and acc: "qr_accepted w = queue_ids ?q \<union> qr_taken w"
    using assms(1) by (auto simp: run_ok_def)
  have p: "p \<notin> queue_ids ?q" "p \<notin> qr_taken w" using assms(4) by (auto simp: acc)
  have "queue_ok (?q @ [m])" by (rule queue_ok_snoc [OF ok assms(2,3) p(1) assms(5)])
  then show ?thesis
    using assms(1,2) p by (auto simp: run_ok_def append_one_new [OF ok assms(2,3) p(1)])
qed

lemma wake_session:
  assumes "wakeRuntimeSessionIfDeliverable db name [name \<mapsto> s] name = Some s'"
  shows "hs_pendingMessages s' = hs_pendingMessages s" "hs_currentTurnPendingIds s' = hs_currentTurnPendingIds s"
    "hs_currentTurnSuperseded s' = hs_currentTurnSuperseded s"
  using assms by (auto simp: wakeRuntimeSessionIfDeliverable_def call_pushMessage_def split: if_splits)

lemma queue_ids_mset:
  "mset (map um_pendingId q) = mset (map um_pendingId q') + mset (map um_pendingId z) \<Longrightarrow> queue_ids q' \<subseteq> queue_ids q"
proof -
  assume "mset (map um_pendingId q) = mset (map um_pendingId q') + mset (map um_pendingId z)"
  then have "set (map um_pendingId q) = set (map um_pendingId q' @ map um_pendingId z)"
    by (metis mset_append mset_eq_setD)
  then have "um_pendingId ` set q' \<subseteq> um_pendingId ` set q" by auto
  then show ?thesis unfolding queue_ids_def by (rule image_mono)
qed

text \<open>After an interrupt the queue is as before, or what may be carried over from the latched state.\<close>

lemma turn_interrupted_fields:
  assumes "turn_interrupted_event cr s = Inr s'"
  obtains s1 where "hs_pendingMessages s1 = hs_pendingMessages s"
    "hs_currentTurnPendingIds s1 = hs_currentTurnPendingIds s"
    "hs_currentTurnPendingIds s' = hs_currentTurnPendingIds s"
    "hs_currentTurnSuperseded s' = hs_currentTurnSuperseded s"
    "hs_pendingMessages s' = hs_pendingMessages s
     \<or> hs_pendingMessages s' = getCrashRecoveryReplayablePendingRuntimeMessages s1 (crash_view cr)"
proof -
  obtain s1 where "recordTerminalTraceOnce cr TInterrupted s = Inr s1"
    "hs_currentTurnPendingIds s' = hs_currentTurnPendingIds s1"
    "hs_currentTurnSuperseded s' = hs_currentTurnSuperseded s1"
    "hs_pendingMessages s' = hs_pendingMessages s1
     \<or> hs_pendingMessages s' = getCrashRecoveryReplayablePendingRuntimeMessages s1 (crash_view cr)"
    by (rule turn_interrupted_cases [OF assms]) (metis (full_types))
  with record_terminal_fields [OF this(1)] show thesis by (intro that [of s1]) auto
qed

lemma begin_turn_fields:
  assumes "gen_begin_turn uuid d s = (s', ph)"
  shows "map um_pendingId (hs_pendingMessages s') = map um_pendingId (hs_pendingMessages s)"
    "map um_ref (hs_pendingMessages s') = map um_ref (hs_pendingMessages s)"
    "hs_currentTurnPendingIds s' = phase_ids ph" "\<not> hs_currentTurnSuperseded s'"
    "phase_ids ph = Some (yielded_ids d)"
  using assms by (auto simp: gen_begin_turn_def begin_turn_state_def phase_ids_def)

lemma prepared_fields:
  assumes "gen_prepared ids y prep s = (s', ph, out)"
  shows "hs_pendingMessages s' = hs_pendingMessages s"
    "ph = InTurn ids \<and> hs_currentTurnPendingIds s' = hs_currentTurnPendingIds s
     \<or> ph = Failed \<and> hs_currentTurnPendingIds s' = None \<and> \<not> hs_currentTurnSuperseded s'"
  using assms
  by (auto simp: gen_prepared_def preparation_failed_def trace_started_def split: sum.splits option.splits)

lemma poll_fields:
  assumes "gen_poll_empty s = (s', ph)"
  shows "hs_pendingMessages s' = hs_pendingMessages s" "hs_currentTurnPendingIds s' = hs_currentTurnPendingIds s"
    "hs_currentTurnSuperseded s' = hs_currentTurnSuperseded s" "phase_ids ph = None" "ph = AtLoop \<or> ph = Waiting"
  using assms by (auto simp: gen_poll_empty_def phase_ids_def split: if_splits)

lemma resume_fields:
  assumes "gen_resume s = (s', ph)"
  shows "hs_pendingMessages s' = hs_pendingMessages s" "hs_currentTurnPendingIds s' = hs_currentTurnPendingIds s"
    "hs_currentTurnSuperseded s' = hs_currentTurnSuperseded s" "phase_ids ph = None" "ph = AtLoop \<or> ph = Ended"
  using assms by (auto simp: gen_resume_def phase_ids_def split: if_splits)

lemma run_with_idle:
  assumes "run_ok w" "hs_pendingMessages s = hs_pendingMessages (qr_session w)"
    "hs_currentTurnPendingIds s = hs_currentTurnPendingIds (qr_session w)"
    "hs_currentTurnSuperseded s = hs_currentTurnSuperseded (qr_session w)"
  shows "run_ok (run_with w s)"
  by (rule run_with_same) (use assms in \<open>auto simp: run_ok_def\<close>)

lemma loop_ok:
  assumes "run_ok w" "qr_phase w = AtLoop" "gen_loop db name uuid (qr_session w) = (s, ph)"
  shows "run_ok ((run_with w s)\<lparr>qr_phase := ph\<rparr>)"
proof -
  let ?s = "qr_session w"
  let ?d = "getDeliverableRuntimeMessages db name ?s"
  have ok: "queue_ok (hs_pendingMessages ?s)" "hs_currentTurnPendingIds ?s = None" "\<not> hs_currentTurnSuperseded ?s"
    using assms(1,2) by (auto simp: run_ok_def phase_ids_def)
  consider "hs_done ?s" "s = ?s" "ph = Ended"
    | "?d = []" "gen_poll_empty ?s = (s, ph)"
    | "?d \<noteq> []" "gen_begin_turn uuid ?d ?s = (s, ph)"
    using assms(3) by (auto simp: gen_loop_def Let_def split: if_splits)
  then show ?thesis
  proof cases
    case 1
    show ?thesis by (rule run_with_ok [OF assms(1)]) (use 1 ok in \<open>simp_all add: phase_ids_def\<close>)
  next
    case 2
    note f = poll_fields [OF 2(2)]
    show ?thesis by (rule run_with_ok [OF assms(1)]) (use f ok in auto)
  next
    case 3
    note f = begin_turn_fields [OF 3(2)]
    have "yielded_ids ?d \<noteq> []"
      by (rule yielded_nonempty [OF ok(1) subseq_set [OF deliverable_subseq] 3(1)])
    then show ?thesis
      by (intro run_with_ok [OF assms(1)])
         (use f ok queue_ids_cong [OF f(1)] queue_ok_cong [OF f(1,2)] in auto)
  qed
qed

lemma prepared_ok:
  assumes "run_ok w" "qr_phase w = Preparing ids y" "gen_prepared ids y prep (qr_session w) = (s, ph, out)"
  shows "run_ok ((run_with w s)\<lparr>qr_phase := ph\<rparr>)"
proof -
  note f = prepared_fields [OF assms(3)]
  show ?thesis
    by (rule run_with_ok [OF assms(1)])
       (use f assms(1,2) in \<open>auto simp: run_ok_def phase_ids_def\<close>)
qed

lemma finish_fields:
  "hs_currentTurnPendingIds (gen_finish_turn ids s) = None"
  "\<not> hs_currentTurnSuperseded (gen_finish_turn ids s)"
  "\<not> hs_turnSignal (gen_finish_turn ids s)"
  by (simp_all add: gen_finish_turn_def Let_def)

lemma finish_queue:
  "hs_pendingMessages (gen_finish_turn ids s) =
     (if hs_interrupted s \<and> hs_currentTurnSuperseded s then getReplayablePendingRuntimeMessages s
      else if hs_interrupted s then hs_pendingMessages s
      else filter (\<lambda>m. \<not> pending_in (set ids) m) (hs_pendingMessages s))"
  by (simp add: gen_finish_turn_def Let_def)

lemma finish_ok:
  assumes "run_ok w" "qr_phase w = InTurn ids"
  shows "run_ok ((run_with w (gen_finish_turn ids (qr_session w)))\<lparr>qr_phase := AtLoop\<rparr>)"
proof -
  have ok: "queue_ok (hs_pendingMessages (qr_session w))" using assms(1) by (simp add: run_ok_def)
  show ?thesis
    by (rule run_with_ok [OF assms(1)])
       (simp_all add: finish_fields finish_queue phase_ids_def carried_queue(3,4) [OF ok] queue_ok_filter [OF ok]
          queue_ids_filter ok)
qed

lemma queue_step_ok: "queue_step cfg name w w' \<Longrightarrow> run_ok w \<Longrightarrow> run_ok w'"
proof (induction rule: queue_step.induct)
  case (Enqueue m p w)
  then show ?case using queue_step_enqueue by blast
next
  case (Activity w a b c d e f)
  then show ?case by (intro run_with_idle) simp_all
next
  case (Wake db w s)
  then show ?case by (intro run_with_idle wake_session)
next
  case (Preempt db w m co s)
  have ok: "queue_ok (hs_pendingMessages (qr_session w))" using Preempt.prems by (simp add: run_ok_def)
  obtain cohort where "current_ids (qr_session w) \<noteq> {}"
    "hs_currentTurnPendingIds s = hs_currentTurnPendingIds (qr_session w)"
    by (rule prepare_cases [OF Preempt.hyps ok]) auto
  then have ids: "hs_currentTurnPendingIds (qr_session w) \<noteq> None"
    "hs_currentTurnPendingIds s = hs_currentTurnPendingIds (qr_session w)"
    by (cases "hs_currentTurnPendingIds (qr_session w)"; simp)+
  show ?case
    by (rule run_with_same [OF Preempt.prems])
       (use ids prepare_queue_ok [OF Preempt.hyps ok] queue_ids_mset [OF prepare_conserves(1) [OF Preempt.hyps ok]] in simp_all)
next
  case (Complete w ids cr l s)
  then show ?case by (intro run_with_idle turn_complete_fields [OF Complete.hyps(3)])
next
  case (Interrupted w ids cr s)
  have ok: "queue_ok (hs_pendingMessages (qr_session w))" using Interrupted.prems by (simp add: run_ok_def)
  obtain s1 where s1: "hs_pendingMessages s1 = hs_pendingMessages (qr_session w)"
    "hs_currentTurnPendingIds s = hs_currentTurnPendingIds (qr_session w)"
    "hs_currentTurnSuperseded s = hs_currentTurnSuperseded (qr_session w)"
    "hs_pendingMessages s = hs_pendingMessages (qr_session w)
     \<or> hs_pendingMessages s = getCrashRecoveryReplayablePendingRuntimeMessages s1 (crash_view cr)"
    by (rule turn_interrupted_fields [OF Interrupted.hyps(3)])
  have ok1: "queue_ok (hs_pendingMessages s1)" using ok s1(1) by simp
  show ?case
    by (rule run_with_same [OF Interrupted.prems])
       (use s1 carried_queue(1,2) [OF ok1, of "crash_view cr"] ok Interrupted.prems in \<open>auto simp: run_ok_def\<close>)
next
  case (Loop w db uuid s ph)
  then show ?case by (intro loop_ok)
next
  case (Prepared w ids y prep s ph out)
  then show ?case by (intro prepared_ok)
next
  case (Resume w s ph)
  note f = resume_fields [OF Resume.hyps(3)]
  show ?case
    by (rule run_with_ok [OF Resume.prems])
       (use f Resume.prems Resume.hyps(1) in \<open>auto simp: run_ok_def phase_ids_def\<close>)
next
  case (Finish w ids)
  then show ?case by (intro finish_ok)
qed

lemma queue_reachable_ok: "queue_reachable cfg name w \<Longrightarrow> run_ok w"
proof (induction rule: queue_reachable.induct)
  case start
  show ?case by (simp add: run_ok_def idle_session_def phase_ids_def)
next
  case (step w w')
  then show ?case using queue_step_ok by blast
qed

section \<open>What leaves the queue\<close>

lemma sublist_join: "w \<in> set ws \<Longrightarrow> sublist w (join sep ws)"
proof (induction ws)
  case (Cons v vs)
  show ?case
  proof (cases "vs = []")
    case False
    then have j: "join sep (v # vs) = v @ sep @ join sep vs" by (rule join_Cons)
    show ?thesis
    proof (cases "w = v")
      case True
      then show ?thesis unfolding j by simp
    next
      case False
      then have "sublist w (join sep vs)" using Cons by simp
      then show ?thesis unfolding j sublist_append by blast
    qed
  qed (use Cons.prems in simp)
qed simp

lemma dropped_is_current:
  assumes ok: "queue_ok (hs_pendingMessages s)" and ids: "current_ids s \<noteq> {}"
    and m: "m \<in> set (hs_pendingMessages s)"
  shows "m \<notin> set (getReplayablePendingRuntimeMessages s) \<Longrightarrow> pending_in (current_ids s) m"
    and "m \<notin> set (getCrashRecoveryReplayablePendingRuntimeMessages s cr) \<Longrightarrow> pending_in (current_ids s) m"
proof -
  have i: "identified (hs_pendingMessages s)" using ok by (simp add: queue_ok_def)
  have ne: "nullish (hs_currentTurnPendingIds s) [] \<noteq> []" using ids by auto
  show r: "m \<notin> set (getReplayablePendingRuntimeMessages s) \<Longrightarrow> pending_in (current_ids s) m"
    using m by (auto simp: getReplayablePendingRuntimeMessages_def split: if_splits)
  have "m \<notin> set (getPendingRuntimeTurnSuccessors s) \<Longrightarrow> pending_in (current_ids s) m"
    using m by (simp add: successors_filter [OF i ids])
  then show "m \<notin> set (getCrashRecoveryReplayablePendingRuntimeMessages s cr) \<Longrightarrow> pending_in (current_ids s) m"
    using r ne by (simp add: getCrashRecoveryReplayablePendingRuntimeMessages_def Let_def split: if_splits)
qed

lemma taken_new:
  "p \<in> qr_taken (run_with w s) \<Longrightarrow> p \<notin> qr_taken w \<Longrightarrow>
     \<exists>m \<in> set (hs_pendingMessages (qr_session w)). um_pendingId m \<notin> um_pendingId ` set (hs_pendingMessages s)
       \<and> the (um_pendingId m) = p"
  by (auto simp: run_with_def queue_ids_def)

lemma run_with_qr_taken [simp]: "qr_taken (w\<lparr>qr_phase := ph\<rparr>) = qr_taken w"
  "qr_session (run_with w s) = s"
  by (simp_all add: run_with_def)

lemma no_change_no_taken:
  assumes "map um_pendingId (hs_pendingMessages s) = map um_pendingId (hs_pendingMessages (qr_session w))"
  shows "qr_taken (run_with w s) = qr_taken w"
  by (simp add: run_with_def queue_ids_cong [OF assms])

definition in_turn :: "queue_run \<Rightarrow> string \<Rightarrow> bool" where
  "in_turn w p \<longleftrightarrow> (case qr_phase w of InTurn ids \<Rightarrow> p \<in> set ids | _ \<Rightarrow> False)"

definition merged_into_queue :: "queue_run \<Rightarrow> string \<Rightarrow> queue_run \<Rightarrow> bool" where
  "merged_into_queue w p w' \<longleftrightarrow>
     (\<exists>m \<in> set (hs_pendingMessages (qr_session w)). um_pendingId m = Some p
        \<and> (\<exists>m' \<in> set (hs_pendingMessages (qr_session w')). sublist (um_content m) (um_content m')))"

lemma run_ok_ids: "run_ok w \<Longrightarrow> qr_phase w = InTurn ids \<Longrightarrow> current_ids (qr_session w) = set ids \<and> set ids \<noteq> {}"
  by (auto simp: run_ok_def phase_ids_def)

lemma pending_in_turn:
  assumes "run_ok w" "qr_phase w = InTurn ids" "m \<in> set (hs_pendingMessages (qr_session w))"
    "pending_in (set ids) m" "the (um_pendingId m) = p"
  shows "in_turn w p"
  using assms by (auto simp: in_turn_def pending_in_iff)

lemma preempt_taken:
  assumes "prepareRuntimeInterruptSuccessor cfg db name (qr_session w) = (Some (m, co), s)" "run_ok w"
    "hs_pendingMessages s2 = hs_pendingMessages s" "p \<in> qr_taken (run_with w s2)" "p \<notin> qr_taken w"
  shows "merged_into_queue w p (run_with w s2)"
proof -
  have ok: "queue_ok (hs_pendingMessages (qr_session w))" using assms(2) by (simp add: run_ok_def)
  obtain cohort where c: "cohort \<noteq> []" "co = butlast cohort" "m = mergeRuntimeSteeringCohort cohort (last cohort)"
    "subseq cohort (eligible_successors cfg db name (qr_session w))"
    "s = (qr_session w)\<lparr>hs_pendingMessages :=
        filter (pending_in (current_ids (qr_session w))) (hs_pendingMessages (qr_session w)) @ m #
        filter (\<lambda>x. x \<notin> set cohort \<and> \<not> pending_in (current_ids (qr_session w)) x) (hs_pendingMessages (qr_session w))\<rparr>"
    by (rule prepare_cases [OF assms(1) ok])
  obtain x where x: "x \<in> set (hs_pendingMessages (qr_session w))"
    "um_pendingId x \<notin> um_pendingId ` set (hs_pendingMessages s)" "the (um_pendingId x) = p"
    using taken_new [OF assms(4,5)] assms(3) by auto
  have "x \<in> set cohort" using x(1,2) by (auto simp: c(5))
  then have "sublist (um_content x) (um_content m)"
    unfolding c(3) merge_content [OF c(1)] by (intro sublist_join) simp
  moreover have "m \<in> set (hs_pendingMessages s2)" by (simp add: assms(3) c(5))
  moreover have "um_pendingId x = Some p"
    using x(1,3) ok by (auto simp: queue_ok_def identified_def list_all_iff elim!: truthyE)
  ultimately show ?thesis using x(1) unfolding merged_into_queue_def by auto
qed

lemma queue_step_takes:
  assumes "queue_step cfg name w w'" "run_ok w" "p \<in> qr_taken w'" "p \<notin> qr_taken w"
  shows "in_turn w p \<or> merged_into_queue w p w'"
  using assms
proof (induction rule: queue_step.induct)
  case (Preempt db w m co s)
  then show ?case using preempt_taken [OF Preempt.hyps Preempt.prems(1)] by simp
next
  case (Interrupted w ids cr s)
  have ok: "queue_ok (hs_pendingMessages (qr_session w))" using Interrupted.prems by (simp add: run_ok_def)
  obtain s1 where s1: "hs_pendingMessages s1 = hs_pendingMessages (qr_session w)"
    "hs_currentTurnPendingIds s1 = hs_currentTurnPendingIds (qr_session w)"
    "hs_pendingMessages s = hs_pendingMessages (qr_session w)
     \<or> hs_pendingMessages s = getCrashRecoveryReplayablePendingRuntimeMessages s1 (crash_view cr)"
    by (rule turn_interrupted_fields [OF Interrupted.hyps(3)])
  have ok1: "queue_ok (hs_pendingMessages s1)" using ok s1(1) by simp
  note ids = run_ok_ids [OF Interrupted.prems(1) Interrupted.hyps(1)]
  then have ne: "current_ids (qr_session w) \<noteq> {}" by simp
  obtain m where m: "m \<in> set (hs_pendingMessages (qr_session w))"
    "um_pendingId m \<notin> um_pendingId ` set (hs_pendingMessages s)"
    "the (um_pendingId m) = p"
    using taken_new [OF Interrupted.prems(2,3)] by auto
  then have "m \<notin> set (hs_pendingMessages s)" by auto
  then have "pending_in (current_ids (qr_session w)) m"
    using s1 dropped_is_current(2) [OF ok1, of m "crash_view cr"] ne m(1) by auto
  then show ?case using pending_in_turn [OF Interrupted.prems(1) Interrupted.hyps(1) m(1) _ m(3)] ids by simp
next
  case (Finish w ids)
  have ok: "queue_ok (hs_pendingMessages (qr_session w))" using Finish.prems by (simp add: run_ok_def)
  note ids = run_ok_ids [OF Finish.prems(1) Finish.hyps(1)]
  then have ne: "current_ids (qr_session w) \<noteq> {}" by simp
  obtain m where m: "m \<in> set (hs_pendingMessages (qr_session w))"
    "um_pendingId m \<notin> um_pendingId ` set (hs_pendingMessages (gen_finish_turn ids (qr_session w)))"
    "the (um_pendingId m) = p"
    using taken_new [of p w "gen_finish_turn ids (qr_session w)"] Finish.prems(2,3) by auto
  then have "m \<notin> set (hs_pendingMessages (gen_finish_turn ids (qr_session w)))" by auto
  then have "pending_in (set ids) m"
    using dropped_is_current(1) [OF ok ne m(1)] m(1) ids by (auto simp: finish_queue split: if_splits)
  then show ?case using pending_in_turn [OF Finish.prems(1) Finish.hyps(1) m(1) _ m(3)] by simp
next
  case (Loop w db uuid s ph)
  have "map um_pendingId (hs_pendingMessages s) = map um_pendingId (hs_pendingMessages (qr_session w))"
    using Loop.hyps(2) begin_turn_fields(1) poll_fields(1)
    by (auto simp: gen_loop_def Let_def split: if_splits)
  then show ?case using Loop.prems no_change_no_taken by simp
next
  case (Prepared w ids y prep s ph out)
  then show ?case using no_change_no_taken [of s w] prepared_fields(1) [OF Prepared.hyps(2)] by simp
next
  case (Resume w s ph)
  then show ?case using no_change_no_taken [of s w] resume_fields(1) [OF Resume.hyps(3)] by simp
next
  case (Complete w ids cr l s)
  then show ?case using no_change_no_taken [of s w] turn_complete_fields(1) [OF Complete.hyps(3)] by simp
next
  case (Wake db w s)
  then show ?case using no_change_no_taken [of s w] wake_session(1) [OF Wake.hyps] by simp
next
  case (Activity w a b c d e f)
  then show ?case by (simp add: run_with_def)
qed (simp)

section \<open>Properties\<close>

lemma deliverable_turn_parts:
  shows "subseq (getDeliverableRuntimeMessages db n s) (hs_pendingMessages s)"
    and "m \<in> set (getDeliverableRuntimeMessages db n s) \<Longrightarrow> releasable db n s m"
    and "m \<in> set (getDeliverableRuntimeMessages db n s) \<Longrightarrow>
           hasIsolatedRuntimeTurnEnvelope (um_launchPrompt m) \<Longrightarrow> getDeliverableRuntimeMessages db n s = [m]"
    and "m \<in> set (getDeliverableRuntimeMessages db n s) \<Longrightarrow> m' \<in> set (getDeliverableRuntimeMessages db n s) \<Longrightarrow>
           runtimeTurnSurfaceKey (um_source m) = runtimeTurnSurfaceKey (um_source m')
           \<and> (um_replay m = Some True \<longleftrightarrow> um_replay m' = Some True)"
    and "m \<in> set (getDeliverableRuntimeMessages db n s) \<Longrightarrow> um_replay m = Some True \<Longrightarrow>
           um_clientMessageId (hd (getDeliverableRuntimeMessages db n s)) \<noteq> None \<Longrightarrow>
           um_clientMessageId m = um_clientMessageId (hd (getDeliverableRuntimeMessages db n s))"
    and "hasDeliverableRuntimeMessages db n s \<longleftrightarrow> (\<exists>m \<in> set (hs_pendingMessages s). releasable db n s m)"
proof -
  show "hasDeliverableRuntimeMessages db n s \<longleftrightarrow> (\<exists>m \<in> set (hs_pendingMessages s). releasable db n s m)"
    unfolding hasDeliverableRuntimeMessages_def length_greater_0_conv by (rule deliverable_nonempty)
  assume m: "m \<in> set (getDeliverableRuntimeMessages db n s)"
  then show "releasable db n s m" using deliverable_set by blast
  assume m': "m' \<in> set (getDeliverableRuntimeMessages db n s)"
  have "um_replay m = Some True \<longleftrightarrow> um_replay m' = Some True"
    using deliverable_replay(1) [OF m] deliverable_replay(1) [OF m'] by metis
  then show "runtimeTurnSurfaceKey (um_source m) = runtimeTurnSurfaceKey (um_source m')
           \<and> (um_replay m = Some True \<longleftrightarrow> um_replay m' = Some True)"
    using deliverable_one_surface [OF m m'] by blast
qed (rule deliverable_subseq deliverable_isolated deliverable_replay(2); assumption)+

text \<open>C36: The messages of a turn. They come from the queue in its order and the barrier of each lets it out;
  a message with an isolated envelope is alone in its turn; all of them share one reply surface; replayed and
  new messages are never mixed, and replayed ones belong to one delivery attempt; and a turn can start
  exactly when some queued message may be released.\<close>

theorem deliverable_turn:
  shows "(subseq (getDeliverableRuntimeMessages db n s) (hs_pendingMessages s)) \<and>
    (m \<in> set (getDeliverableRuntimeMessages db n s) \<longrightarrow> releasable db n s m) \<and>
    (m \<in> set (getDeliverableRuntimeMessages db n s) \<longrightarrow>
           hasIsolatedRuntimeTurnEnvelope (um_launchPrompt m) \<longrightarrow> getDeliverableRuntimeMessages db n s = [m]) \<and>
    (m \<in> set (getDeliverableRuntimeMessages db n s) \<longrightarrow> m' \<in> set (getDeliverableRuntimeMessages db n s) \<longrightarrow>
           runtimeTurnSurfaceKey (um_source m) = runtimeTurnSurfaceKey (um_source m')
           \<and> (um_replay m = Some True \<longleftrightarrow> um_replay m' = Some True)) \<and>
    (m \<in> set (getDeliverableRuntimeMessages db n s) \<longrightarrow> um_replay m = Some True \<longrightarrow>
           um_clientMessageId (hd (getDeliverableRuntimeMessages db n s)) \<noteq> None \<longrightarrow>
           um_clientMessageId m = um_clientMessageId (hd (getDeliverableRuntimeMessages db n s))) \<and>
    (hasDeliverableRuntimeMessages db n s \<longleftrightarrow> (\<exists>m \<in> set (hs_pendingMessages s). releasable db n s m))"
  by (intro conjI impI deliverable_turn_parts(1-3,5,6); (rule deliverable_turn_parts(4) [THEN conjunct1] deliverable_turn_parts(4) [THEN conjunct2])?; assumption)

theorem deliverable_turn_witness:
  "releasable [] ''s'' (idle_session [plain_message 0 ''p0'' (Some AfterTool)]) (plain_message 0 ''p0'' (Some AfterTool))"
  by (rule deliverable_turn [THEN conjunct2, THEN conjunct1, rule_format]) code_simp

lemma barrier_discipline_parts:
  shows "DELIVERY_BARRIER_PRIORITY b \<le> DELIVERY_BARRIER_PRIORITY b' \<Longrightarrow>
           canReleaseRuntimeDeliveryBarrier s b' a \<Longrightarrow> canReleaseRuntimeDeliveryBarrier s b a"
    and "fst (shouldInterruptRuntimeForIncoming db n s b t) \<Longrightarrow>
           hs_turnActive s \<and> \<not> hs_starting s \<and> \<not> hs_compacting s \<and> \<not> hs_toolResultDeliveryPending s
           \<and> (hs_toolRunning s \<longrightarrow> b = ImmediateInterrupt \<and> hs_currentToolSafety s \<noteq> Some UnsafeTool)
           \<and> canReleaseRuntimeDeliveryBarrier s b a"
proof -
  show "canReleaseRuntimeDeliveryBarrier s b a"
    if "DELIVERY_BARRIER_PRIORITY b \<le> DELIVERY_BARRIER_PRIORITY b'" "canReleaseRuntimeDeliveryBarrier s b' a"
    using that by (rule releasable_mono)
  assume i: "fst (shouldInterruptRuntimeForIncoming db n s b t)"
  show "hs_turnActive s \<and> \<not> hs_starting s \<and> \<not> hs_compacting s \<and> \<not> hs_toolResultDeliveryPending s
           \<and> (hs_toolRunning s \<longrightarrow> b = ImmediateInterrupt \<and> hs_currentToolSafety s \<noteq> Some UnsafeTool)
           \<and> canReleaseRuntimeDeliveryBarrier s b a"
    using interrupt_allowed [OF i] interrupt_can_release [OF i] by blast
qed

text \<open>The barriers are ordered by urgency: whenever a less urgent barrier lets a message out, every more
  urgent one does; and an arriving message interrupts only an active turn, with no start-up, compaction or
  tool-result delivery going on, never during an unsafe tool, and only when its own barrier would release it.\<close>

theorem barrier_discipline:
  shows "(DELIVERY_BARRIER_PRIORITY b \<le> DELIVERY_BARRIER_PRIORITY b' \<longrightarrow>
           canReleaseRuntimeDeliveryBarrier s b' a \<longrightarrow> canReleaseRuntimeDeliveryBarrier s b a) \<and>
    (fst (shouldInterruptRuntimeForIncoming db n s b t) \<longrightarrow>
           hs_turnActive s \<and> \<not> hs_starting s \<and> \<not> hs_compacting s \<and> \<not> hs_toolResultDeliveryPending s
           \<and> (hs_toolRunning s \<longrightarrow> b = ImmediateInterrupt \<and> hs_currentToolSafety s \<noteq> Some UnsafeTool)
           \<and> canReleaseRuntimeDeliveryBarrier s b a)"
  using barrier_discipline_parts by blast

theorem barrier_discipline_witness:
  "canReleaseRuntimeDeliveryBarrier (idle_session []) AfterTool False
   \<and> canReleaseRuntimeDeliveryBarrier (idle_session []\<lparr>hs_turnActive := True\<rparr>) AfterTool True"
proof
  show "canReleaseRuntimeDeliveryBarrier (idle_session []) AfterTool False"
    by (rule barrier_discipline [THEN conjunct1, rule_format, of AfterTool AfterResponse]) code_simp+
  have "fst (shouldInterruptRuntimeForIncoming [] ''s'' (idle_session []\<lparr>hs_turnActive := True\<rparr>) AfterTool None)"
    by code_simp
  from barrier_discipline [THEN conjunct2, rule_format, OF this]
  show "canReleaseRuntimeDeliveryBarrier (idle_session []\<lparr>hs_turnActive := True\<rparr>) AfterTool True" by blast
qed

lemma interrupt_successor_parts:
  assumes "prepareRuntimeInterruptSuccessor cfg db n s = (Some (m, co), s')" "queue_ok (hs_pendingMessages s)"
  shows "mset (map um_pendingId (hs_pendingMessages s)) =
           mset (map um_pendingId (hs_pendingMessages s')) + mset (map um_pendingId co)"
    and "queue_ok (hs_pendingMessages s') \<and> s'\<lparr>hs_pendingMessages := hs_pendingMessages s\<rparr> = s"
    and "\<exists>last rest. um_content m = join [NEWLINE, NEWLINE] (map um_content (co @ [last]))
           \<and> hs_pendingMessages s' = filter (pending_in (current_ids s)) (hs_pendingMessages s) @ m # rest
           \<and> (\<forall>x \<in> set (co @ [last]). x \<in> set (hs_pendingMessages s) \<and> \<not> pending_in (current_ids s) x
                \<and> isSameRuntimeTurnSurface cfg (active_source s) (um_source x)
                \<and> fst (shouldInterruptRuntimeForIncoming db n s (um_barrier x) (um_taskBarrierTaskId x)))
           \<and> (\<forall>x \<in> set (co @ [last]). \<forall>y \<in> set (co @ [last]). x \<noteq> y \<longrightarrow>
                channelSteeringCompatibilityKey x \<noteq> None
                \<and> channelSteeringCompatibilityKey x = channelSteeringCompatibilityKey y)"
proof -
  show "mset (map um_pendingId (hs_pendingMessages s)) =
           mset (map um_pendingId (hs_pendingMessages s')) + mset (map um_pendingId co)"
    by (rule prepare_conserves [OF assms])
  obtain cohort where c: "cohort \<noteq> []" "co = butlast cohort" "m = mergeRuntimeSteeringCohort cohort (last cohort)"
    "subseq cohort (eligible_successors cfg db n s)" "cohort = steering_cohort (eligible_successors cfg db n s)"
    "eligible_successors cfg db n s \<noteq> []"
    "s' = s\<lparr>hs_pendingMessages := filter (pending_in (current_ids s)) (hs_pendingMessages s) @ m #
             filter (\<lambda>x. x \<notin> set cohort \<and> \<not> pending_in (current_ids s) x) (hs_pendingMessages s)\<rparr>"
    by (rule prepare_cases [OF assms])
  show "queue_ok (hs_pendingMessages s') \<and> s'\<lparr>hs_pendingMessages := hs_pendingMessages s\<rparr> = s"
    using prepare_queue_ok [OF assms] by (simp add: c(7))
  have co: "co @ [last cohort] = cohort" using c(1,2) by simp
  have el: "x \<in> set (eligible_successors cfg db n s)" if "x \<in> set cohort" for x
    using subseq_set [OF c(4)] that by blast
  show "\<exists>last rest. um_content m = join [NEWLINE, NEWLINE] (map um_content (co @ [last]))
           \<and> hs_pendingMessages s' = filter (pending_in (current_ids s)) (hs_pendingMessages s) @ m # rest
           \<and> (\<forall>x \<in> set (co @ [last]). x \<in> set (hs_pendingMessages s) \<and> \<not> pending_in (current_ids s) x
                \<and> isSameRuntimeTurnSurface cfg (active_source s) (um_source x)
                \<and> fst (shouldInterruptRuntimeForIncoming db n s (um_barrier x) (um_taskBarrierTaskId x)))
           \<and> (\<forall>x \<in> set (co @ [last]). \<forall>y \<in> set (co @ [last]). x \<noteq> y \<longrightarrow>
                channelSteeringCompatibilityKey x \<noteq> None
                \<and> channelSteeringCompatibilityKey x = channelSteeringCompatibilityKey y)"
  proof (intro exI conjI ballI impI)
    show "um_content m = join [NEWLINE, NEWLINE] (map um_content (co @ [last cohort]))"
      unfolding co c(3) by (rule merge_content [OF c(1)])
    show "hs_pendingMessages s' = filter (pending_in (current_ids s)) (hs_pendingMessages s) @ m #
      filter (\<lambda>x. x \<notin> set cohort \<and> \<not> pending_in (current_ids s) x) (hs_pendingMessages s)" by (simp add: c(7))
  next
    fix x assume "x \<in> set (co @ [last cohort])"
    then have x: "x \<in> set (eligible_successors cfg db n s)" unfolding co by (rule el)
    show "x \<in> set (hs_pendingMessages s)" "\<not> pending_in (current_ids s) x"
      "isSameRuntimeTurnSurface cfg (active_source s) (um_source x)"
      "fst (shouldInterruptRuntimeForIncoming db n s (um_barrier x) (um_taskBarrierTaskId x))"
      by (rule eligible_set [OF x])+
  next
    fix x y assume "x \<in> set (co @ [last cohort])" "y \<in> set (co @ [last cohort])" "x \<noteq> y"
    then show "channelSteeringCompatibilityKey x \<noteq> None"
      "channelSteeringCompatibilityKey x = channelSteeringCompatibilityKey y"
      using steering_cohort_shape(3) [OF c(6)] unfolding co c(5) [symmetric] by blast+
  qed
qed

text \<open>The successor of an interrupted turn. The queue before is the queue after together with the
  coalesced messages, by id; the messages of the active turn stay in front, unchanged; the successor's text
  is the texts of the coalesced messages and of the interrupting one, in order; every one of them is on the
  surface of the active turn, was allowed to interrupt and, when there are several, has the same compatibility
  key; and nothing but the queue changes.\<close>

theorem interrupt_successor:
  assumes "prepareRuntimeInterruptSuccessor cfg db n s = (Some (m, co), s')" "queue_ok (hs_pendingMessages s)"
  shows "(mset (map um_pendingId (hs_pendingMessages s)) =
           mset (map um_pendingId (hs_pendingMessages s')) + mset (map um_pendingId co)) \<and>
    (queue_ok (hs_pendingMessages s') \<and> s'\<lparr>hs_pendingMessages := hs_pendingMessages s\<rparr> = s) \<and>
    (\<exists>last rest. um_content m = join [NEWLINE, NEWLINE] (map um_content (co @ [last]))
           \<and> hs_pendingMessages s' = filter (pending_in (current_ids s)) (hs_pendingMessages s) @ m # rest
           \<and> (\<forall>x \<in> set (co @ [last]). x \<in> set (hs_pendingMessages s) \<and> \<not> pending_in (current_ids s) x
                \<and> isSameRuntimeTurnSurface cfg (active_source s) (um_source x)
                \<and> fst (shouldInterruptRuntimeForIncoming db n s (um_barrier x) (um_taskBarrierTaskId x)))
           \<and> (\<forall>x \<in> set (co @ [last]). \<forall>y \<in> set (co @ [last]). x \<noteq> y \<longrightarrow>
                channelSteeringCompatibilityKey x \<noteq> None
                \<and> channelSteeringCompatibilityKey x = channelSteeringCompatibilityKey y))"
  using interrupt_successor_parts [OF assms] by blast

definition busy_session :: host_session where
  "busy_session = idle_session [plain_message 0 ''p0'' None, plain_message 1 ''p1'' None]
     \<lparr>hs_turnActive := True, hs_currentTurnPendingIds := Some [''p0'']\<rparr>"

theorem interrupt_successor_witness:
  "queue_ok (hs_pendingMessages (snd (prepareRuntimeInterruptSuccessor \<lparr>cs_instanceToAccount = [], cs_instances = []\<rparr>
     [] ''s'' busy_session)))"
proof -
  have p: "prepareRuntimeInterruptSuccessor \<lparr>cs_instanceToAccount = [], cs_instances = []\<rparr> [] ''s'' busy_session =
    (Some (plain_message 1 ''p1'' None, []),
     snd (prepareRuntimeInterruptSuccessor \<lparr>cs_instanceToAccount = [], cs_instances = []\<rparr> [] ''s'' busy_session))"
    by code_simp
  have "queue_ok (hs_pendingMessages busy_session)" by code_simp
  from interrupt_successor [OF p this, THEN conjunct2, THEN conjunct1] show ?thesis by blast
qed

lemma turn_start_keeps_queue_parts:
  assumes "gen_begin_turn uuid d s = (s1, Preparing ids y)" "gen_prepared ids y prep s2 = (s3, ph, out)"
  shows "map um_pendingId (hs_pendingMessages s1) = map um_pendingId (hs_pendingMessages s)
         \<and> map um_content (hs_pendingMessages s1) = map um_content (hs_pendingMessages s)
         \<and> hs_pendingMessages s3 = hs_pendingMessages s2"
    and "ids = yielded_ids d \<and> hs_turnActive s1 \<and> hs_currentTurnPendingIds s1 = Some ids
         \<and> yp_content y = combineSessionSurfacePromptContents (map um_content d)"
    and "m \<in> set (hs_pendingMessages s1) \<Longrightarrow> um_ref m \<in> um_ref ` set d \<Longrightarrow>
           um_clientMessageId m = Some (yp_clientMessageId y)"
    and "prep = Inr tr \<Longrightarrow> ph = InTurn ids \<and> out = Some y"
    and "prep = Inl e \<Longrightarrow> ph = Failed \<and> out = None \<and> \<not> hs_turnActive s3 \<and> hs_currentTurnPendingIds s3 = None
           \<and> sf_replayable (getRuntimeTurnReplaySafety s3 cr)"
proof -
  show "map um_pendingId (hs_pendingMessages s1) = map um_pendingId (hs_pendingMessages s)
         \<and> map um_content (hs_pendingMessages s1) = map um_content (hs_pendingMessages s)
         \<and> hs_pendingMessages s3 = hs_pendingMessages s2"
    using begin_turn_fields(1) [OF assms(1)] prepared_fields(1) [OF assms(2)] assms(1)
    by (auto simp: gen_begin_turn_def begin_turn_state_def)
  have stamped: "um_clientMessageId x = Some c" if "x \<in> set (stamp_messages refs c q)" "um_ref x \<in> refs" for x refs c q
    using that by (auto simp: stamp_messages_def split: if_splits)
  show "ids = yielded_ids d \<and> hs_turnActive s1 \<and> hs_currentTurnPendingIds s1 = Some ids
         \<and> yp_content y = combineSessionSurfacePromptContents (map um_content d)"
    using assms(1) by (auto simp: gen_begin_turn_def begin_turn_state_def)
  show "um_clientMessageId m = Some (yp_clientMessageId y)"
    if "m \<in> set (hs_pendingMessages s1)" "um_ref m \<in> um_ref ` set d"
    using assms(1) that by (auto simp: gen_begin_turn_def begin_turn_state_def intro: stamped)
  show "ph = InTurn ids \<and> out = Some y" if "prep = Inr tr"
    using assms(2) that by (auto simp: gen_prepared_def)
  show "ph = Failed \<and> out = None \<and> \<not> hs_turnActive s3 \<and> hs_currentTurnPendingIds s3 = None
           \<and> sf_replayable (getRuntimeTurnReplaySafety s3 cr)" if "prep = Inl e"
  proof -
    have "s3 = preparation_failed s2" "ph = Failed" "out = None"
      using assms(2) that by (auto simp: gen_prepared_def)
    moreover have "sf_replayable (getRuntimeTurnReplaySafety (preparation_failed t) cr)" for t
      by (rule safety_prep_failed) (simp add: preparation_failed_def)
    ultimately show ?thesis by (simp add: preparation_failed_def)
  qed
qed

text \<open>Starting a turn never loses a message: the ids, the objects and the texts of the queue are as
  before, and the hand-over that follows leaves the queue alone whether the durable preparation succeeds or
  fails. The provider gets exactly the deliverable messages, under one delivery id that every one of them
  carries; after a failed preparation no turn is active or current and the fence treats the messages as
  never delivered.\<close>

theorem turn_start_keeps_queue:
  assumes "gen_begin_turn uuid d s = (s1, Preparing ids y)" "gen_prepared ids y prep s2 = (s3, ph, out)"
  shows "(map um_pendingId (hs_pendingMessages s1) = map um_pendingId (hs_pendingMessages s)
         \<and> map um_content (hs_pendingMessages s1) = map um_content (hs_pendingMessages s)
         \<and> hs_pendingMessages s3 = hs_pendingMessages s2) \<and>
    (ids = yielded_ids d \<and> hs_turnActive s1 \<and> hs_currentTurnPendingIds s1 = Some ids
         \<and> yp_content y = combineSessionSurfacePromptContents (map um_content d)) \<and>
    (m \<in> set (hs_pendingMessages s1) \<longrightarrow> um_ref m \<in> um_ref ` set d \<longrightarrow>
           um_clientMessageId m = Some (yp_clientMessageId y)) \<and>
    (prep = Inr tr \<longrightarrow> ph = InTurn ids \<and> out = Some y) \<and>
    (prep = Inl e \<longrightarrow> ph = Failed \<and> out = None \<and> \<not> hs_turnActive s3 \<and> hs_currentTurnPendingIds s3 = None
           \<and> sf_replayable (getRuntimeTurnReplaySafety s3 cr))"
  using turn_start_keeps_queue_parts [OF assms] by blast

theorem turn_start_keeps_queue_witness:
  "\<not> hs_turnActive (preparation_failed (begin_turn_state ''u'' [plain_message 0 ''p0'' None]
       (idle_session [plain_message 0 ''p0'' None])))"
proof -
  let ?d = "[plain_message 0 ''p0'' None]"
  obtain s1 ids y where b: "gen_begin_turn ''u'' ?d (idle_session ?d) = (s1, Preparing ids y)"
    and s1: "s1 = begin_turn_state ''u'' ?d (idle_session ?d)"
    by (simp add: gen_begin_turn_def)
  have p: "gen_prepared ids y (Inl ()) s1 = (preparation_failed s1, Failed, None)" by (simp add: gen_prepared_def)
  show ?thesis using turn_start_keeps_queue [OF b p, THEN conjunct2, THEN conjunct2, THEN conjunct2, THEN conjunct2, rule_format, OF refl] by (simp add: s1)
qed

lemma queue_run_conserves_parts:
  assumes "queue_reachable cfg name w"
  shows "qr_accepted w = queue_ids (hs_pendingMessages (qr_session w)) \<union> qr_taken w"
    and "queue_ids (hs_pendingMessages (qr_session w)) \<inter> qr_taken w = {}"
    and "distinct (map um_pendingId (hs_pendingMessages (qr_session w)))"
    and "hs_currentTurnPendingIds (qr_session w) = phase_ids (qr_phase w)"
  using queue_reachable_ok [OF assms] by (simp_all add: run_ok_def queue_ok_def)

text \<open>C1: No prompt is lost or delivered from nowhere. In every state a run of the queue can reach, by any
  interleaving of arrivals, provider activity, wake-ups, interrupts for a successor, ends of turns and steps of
  the generator, the accepted ids are those still queued and those that have left, no id is both or queued
  twice, and a turn is current exactly while the generator is in one.\<close>

theorem queue_run_conserves:
  assumes "queue_reachable cfg name w"
  shows "(qr_accepted w = queue_ids (hs_pendingMessages (qr_session w)) \<union> qr_taken w) \<and>
    (queue_ids (hs_pendingMessages (qr_session w)) \<inter> qr_taken w = {}) \<and>
    (distinct (map um_pendingId (hs_pendingMessages (qr_session w)))) \<and>
    (hs_currentTurnPendingIds (qr_session w) = phase_ids (qr_phase w))"
  using queue_run_conserves_parts [OF assms] by blast

definition demo_accept :: queue_run where
  "demo_accept = \<lparr>qr_session = idle_session [plain_message 0 ''p0'' None], qr_phase = AtLoop,
     qr_accepted = {''p0''}, qr_taken = {}\<rparr>"

definition demo_preparing :: queue_run where
  "demo_preparing = (run_with demo_accept (fst (gen_loop [] ''s'' ''u'' (qr_session demo_accept))))
     \<lparr>qr_phase := snd (gen_loop [] ''s'' ''u'' (qr_session demo_accept))\<rparr>"

definition demo_turn :: queue_run where
  "demo_turn = demo_preparing\<lparr>qr_phase := InTurn [''p0'']\<rparr>"

definition demo_end :: queue_run where
  "demo_end = run_with demo_turn (projr (turn_complete_event None False (qr_session demo_turn)))"

definition demo_done :: queue_run where
  "demo_done = (run_with demo_end (gen_finish_turn [''p0''] (qr_session demo_end)))\<lparr>qr_phase := AtLoop\<rparr>"

lemma demo_run:
  "queue_reachable cfg ''s'' demo_end" "queue_step cfg ''s'' demo_end demo_done"
proof -
  have "queue_step cfg ''s'' \<lparr>qr_session = idle_session [], qr_phase = AtLoop, qr_accepted = {}, qr_taken = {}\<rparr> demo_accept"
    using queue_step.Enqueue [where m = "plain_message 0 ''p0'' None" and p = "''p0''"
      and w = "\<lparr>qr_session = idle_session [], qr_phase = AtLoop, qr_accepted = {}, qr_taken = {}\<rparr>" and name = "''s''"]
    by (simp add: demo_accept_def plain_message_def idle_session_def appendUniqueRuntimeMessages_def pending_in_def)
  then have 1: "queue_reachable cfg ''s'' demo_accept" by (rule queue_reachable.step [OF queue_reachable.start])
  have "queue_step cfg ''s'' demo_accept demo_preparing"
    unfolding demo_preparing_def
    by (intro queue_step.Loop [where db = "[]" and uuid = "''u''"]) (simp_all add: demo_accept_def)
  then have 2: "queue_reachable cfg ''s'' demo_preparing" by (rule queue_reachable.step [OF 1])
  obtain y where y: "qr_phase demo_preparing = Preparing [''p0''] y"
  proof -
    have "(case qr_phase demo_preparing of Preparing ids _ \<Rightarrow> ids = [''p0''] | _ \<Rightarrow> False)" by code_simp
    then show thesis using that by (cases "qr_phase demo_preparing") auto
  qed
  have "(run_with demo_preparing (qr_session demo_preparing))\<lparr>qr_phase := InTurn [''p0'']\<rparr> = demo_turn"
    by (simp add: demo_turn_def run_with_def)
  with queue_step.Prepared [OF y, of "Inr None" "qr_session demo_preparing" "InTurn [''p0'']" "Some y"]
  have "queue_step cfg ''s'' demo_preparing demo_turn" by (simp add: gen_prepared_def trace_started_def)
  then have 3: "queue_reachable cfg ''s'' demo_turn" by (rule queue_reachable.step [OF 2])
  have "queue_step cfg ''s'' demo_turn demo_end"
    unfolding demo_end_def by (rule queue_step.Complete [where ids = "[''p0'']" and cr = None and l = False]) code_simp+
  then show "queue_reachable cfg ''s'' demo_end" by (rule queue_reachable.step [OF 3])
  show "queue_step cfg ''s'' demo_end demo_done"
    unfolding demo_done_def by (rule queue_step.Finish) code_simp+
qed

theorem queue_run_conserves_witness:
  "qr_accepted demo_end = queue_ids (hs_pendingMessages (qr_session demo_end)) \<union> qr_taken demo_end"
  by (rule queue_run_conserves [OF demo_run(1) [of "\<lparr>cs_instanceToAccount = [], cs_instances = []\<rparr>"], THEN conjunct1])

text \<open>C2: A prompt leaves the queue in two ways only: it was handed to the provider in the turn that is
  current, or its text is part of a queued message that it was merged into.\<close>

theorem queue_leaves_only_by_turn_or_merge:
  assumes "queue_reachable cfg name w" "queue_step cfg name w w'" "p \<in> qr_taken w'" "p \<notin> qr_taken w"
  shows "(\<exists>ids. qr_phase w = InTurn ids \<and> p \<in> set ids) \<or> merged_into_queue w p w'"
  using queue_step_takes [OF assms(2) queue_reachable_ok [OF assms(1)] assms(3,4)]
  by (auto simp: in_turn_def split: gen_phase.splits)

theorem queue_leaves_only_by_turn_or_merge_witness:
  "(\<exists>ids. qr_phase demo_end = InTurn ids \<and> ''p0'' \<in> set ids) \<or> merged_into_queue demo_end ''p0'' demo_done"
  by (rule queue_leaves_only_by_turn_or_merge
        [OF demo_run [of "\<lparr>cs_instanceToAccount = [], cs_instances = []\<rparr>"]]) code_simp+

end
