(* ===== verification/LedgerBase.thy ===== *)
theory LedgerBase
  imports Prelude "HOL-Library.List_Lexorder"
begin

text \<open>
  What the tables of the crash-recovery ledger share (\<open>src/src/runtime/crash-recovery-store.ts\<close>): the
  errors an operation may throw, the validation of texts, timestamps and limits, JSON columns in
  canonical key order, and tables as lists of rows under a key. An operation is a chain of checks
  that either throws or goes on; \<open>throw_if\<close>, \<open>found\<close> and the \<open>with_\<close> functions are the links of
  the chain, and their rewriting rules invert it.
\<close>

section \<open>Errors and checks\<close>

text \<open>A plain error, the three error classes of the ledger, and a constraint of the database that fails.\<close>

datatype ledger_error =
    LedgerInvalid string
  | LedgerConflict string
  | LedgerNotFound string
  | LedgerCorrupt string
  | LedgerConstraint string

definition throw_if :: "bool \<Rightarrow> 'e \<Rightarrow> 'e + 'a \<Rightarrow> 'e + 'a" where
  "throw_if c e k = (if c then Inl e else k)"

definition found :: "'b option \<Rightarrow> 'e \<Rightarrow> ('b \<Rightarrow> 'e + 'a) \<Rightarrow> 'e + 'a" where
  "found v e k = (case v of None \<Rightarrow> Inl e | Some x \<Rightarrow> k x)"

definition bindE :: "'e + 'b \<Rightarrow> ('b \<Rightarrow> 'e + 'a) \<Rightarrow> 'e + 'a" where
  "bindE v k = (case v of Inl e \<Rightarrow> Inl e | Inr x \<Rightarrow> k x)"

definition requiredText :: "string \<Rightarrow> string \<Rightarrow> ledger_error + string" where
  "requiredText value label =
     (let normalized = trim value
      in if normalized = [] then Inl (LedgerInvalid (label @ '' is required'')) else Inr normalized)"

definition optionalText :: "string option \<Rightarrow> string option" where
  "optionalText value =
     (case value of None \<Rightarrow> None
      | Some v \<Rightarrow> let normalized = trim v in if normalized = [] then None else Some normalized)"

text \<open>A timestamp is a non-negative safe integer of the language, at most \<open>2 ^ 53 - 1\<close>.\<close>

definition MAX_SAFE_INTEGER :: int where
  "MAX_SAFE_INTEGER = 9007199254740991"

definition assertTimestamp :: "int \<Rightarrow> string \<Rightarrow> ledger_error + int" where
  "assertTimestamp value label =
     (if \<bar>value\<bar> > MAX_SAFE_INTEGER \<or> value < 0
      then Inl (LedgerInvalid (label @ '' must be a non-negative Unix millisecond timestamp'')) else Inr value)"

definition assertPositiveInteger :: "int \<Rightarrow> string \<Rightarrow> ledger_error + int" where
  "assertPositiveInteger value label =
     (if \<bar>value\<bar> > MAX_SAFE_INTEGER \<or> value \<le> 0
      then Inl (LedgerInvalid (label @ '' must be a positive integer'')) else Inr value)"

definition assertLimit :: "int option \<Rightarrow> ledger_error + int" where
  "assertLimit value =
     (let limit = nullish value 100
      in if \<bar>limit\<bar> > MAX_SAFE_INTEGER \<or> limit < 1 \<or> limit > 1000
         then Inl (LedgerInvalid ''limit must be an integer between 1 and 1000'') else Inr limit)"

lemma throw_if_Inr [simp]: "throw_if c e k = Inr x \<longleftrightarrow> \<not> c \<and> k = Inr x"
  by (simp add: throw_if_def)

lemma found_Inr [simp]: "found v e k = Inr x \<longleftrightarrow> (\<exists>y. v = Some y \<and> k y = Inr x)"
  by (cases v) (simp_all add: found_def)

lemma bindE_Inr [simp]: "bindE v k = Inr x \<longleftrightarrow> (\<exists>y. v = Inr y \<and> k y = Inr x)"
  by (cases v) (simp_all add: bindE_def)

lemma found_Some [simp]: "found (Some y) e k = k y"
  by (simp add: found_def)

lemma bindE_val [simp]: "bindE (Inr y) k = k y"
  by (simp add: bindE_def)

lemma throw_if_False [simp]: "throw_if False e k = k"
  by (simp add: throw_if_def)

lemma throw_if_Inl: "throw_if c e k = Inl e' \<longleftrightarrow> (if c then e = e' else k = Inl e')"
  by (simp add: throw_if_def)

lemma found_Inl: "found v e k = Inl e' \<longleftrightarrow> (v = None \<and> e = e') \<or> (\<exists>y. v = Some y \<and> k y = Inl e')"
  by (cases v) (auto simp: found_def)

lemma bindE_Inl: "bindE v k = Inl e' \<longleftrightarrow> v = Inl e' \<or> (\<exists>y. v = Inr y \<and> k y = Inl e')"
  by (cases v) (auto simp: bindE_def)

text \<open>How a chain of checks that throws is inverted.\<close>

lemmas chain_Inl = throw_if_Inl found_Inl bindE_Inl

lemma requiredText_Inr [simp]: "requiredText v l = Inr x \<longleftrightarrow> x = trim v \<and> trim v \<noteq> []"
  by (auto simp: requiredText_def Let_def)

lemma assertTimestamp_Inr [simp]: "assertTimestamp v l = Inr x \<longleftrightarrow> x = v \<and> 0 \<le> v \<and> v \<le> MAX_SAFE_INTEGER"
  by (auto simp: assertTimestamp_def)

lemma assertPositiveInteger_Inr [simp]:
  "assertPositiveInteger v l = Inr x \<longleftrightarrow> x = v \<and> 0 < v \<and> v \<le> MAX_SAFE_INTEGER"
  by (auto simp: assertPositiveInteger_def)

lemma requiredText_Inl: "requiredText v l = Inl e \<Longrightarrow> \<exists>m. e = LedgerInvalid m"
  by (auto simp: requiredText_def Let_def split: if_splits)

lemma assertTimestamp_Inl: "assertTimestamp v l = Inl e \<Longrightarrow> \<exists>m. e = LedgerInvalid m"
  by (auto simp: assertTimestamp_def split: if_splits)

lemma assertPositiveInteger_Inl: "assertPositiveInteger v l = Inl e \<Longrightarrow> \<exists>m. e = LedgerInvalid m"
  by (auto simp: assertPositiveInteger_def split: if_splits)

lemma optionalText_None [simp]: "optionalText None = None"
  by (simp add: optionalText_def)

lemma optionalText_id: "trim s = s \<Longrightarrow> s \<noteq> [] \<Longrightarrow> optionalText (Some s) = Some s"
  by (simp add: optionalText_def)

section \<open>JSON columns\<close>

text \<open>The text of a JSON column has its keys in order, so it is the value with its keys in order.\<close>

fun sortJson :: "json \<Rightarrow> json" where
  "sortJson (JArr vs) = JArr (map sortJson vs)"
| "sortJson (JObj kvs) = JObj (sort_key fst (map (\<lambda>(k, v). (k, sortJson v)) kvs))"
| "sortJson v = v"

definition stringifyRequiredJson :: "json option \<Rightarrow> string \<Rightarrow> ledger_error + json" where
  "stringifyRequiredJson value label =
     (case value of
        None \<Rightarrow> Inl (LedgerInvalid (label @ '' is required''))
      | Some v \<Rightarrow> if v = JNull then Inl (LedgerInvalid (label @ '' is required'')) else Inr (sortJson v))"

definition stringifyOptionalJson :: "json option \<Rightarrow> json option" where
  "stringifyOptionalJson value =
     (case value of None \<Rightarrow> None | Some v \<Rightarrow> if v = JNull then None else Some (sortJson v))"

lemma sortJson_idem [simp]: "sortJson (sortJson v) = sortJson v"
proof (induction v rule: sortJson.induct)
  case (2 kvs)
  let ?s = "sort_key fst (map (\<lambda>(k, v). (k, sortJson v)) kvs)"
  have e: "map (\<lambda>(k, v). (k, sortJson v)) ?s = ?s"
    by (rule map_idI) (use 2 in \<open>auto simp: set_sort\<close>)
  have "sort_key fst ?s = ?s" by (rule sort_key_id_if_sorted) simp
  with e show ?case by simp
qed simp_all

lemma stringifyOptionalJson_sorted: "stringifyOptionalJson (stringifyOptionalJson v) = stringifyOptionalJson v"
  by (cases v) (auto simp: stringifyOptionalJson_def split: if_splits elim: sortJson.elims)

section \<open>Tables\<close>

text \<open>A table is a list of rows; \<open>row_of key k\<close> is the row with primary key \<open>k\<close>.\<close>

definition row_of :: "('r \<Rightarrow> 'k) \<Rightarrow> 'k \<Rightarrow> 'r list \<Rightarrow> 'r option" where
  "row_of key k rows = find (\<lambda>r. key r = k) rows"

definition put_row :: "('r \<Rightarrow> 'k) \<Rightarrow> 'r \<Rightarrow> 'r list \<Rightarrow> 'r list" where
  "put_row key row rows = map (\<lambda>r. if key r = key row then row else r) rows"

lemma row_of_key: "row_of key k rows = Some r \<Longrightarrow> key r = k \<and> r \<in> set rows"
  by (auto simp: row_of_def find_Some_iff)

lemma row_of_None: "row_of key k rows = None \<longleftrightarrow> k \<notin> key ` set rows"
  by (auto simp: row_of_def find_None_iff)

lemma row_of_Nil [simp]: "row_of key k [] = None"
  by (simp add: row_of_def)

lemma row_of_append:
  "row_of key k (rows @ [r]) = (case row_of key k rows of Some x \<Rightarrow> Some x | None \<Rightarrow> if key r = k then Some r else None)"
  by (induction rows) (auto simp: row_of_def)

lemma row_of_put:
  "row_of key k (put_row key r rows) =
     (if key r = k then (case row_of key k rows of None \<Rightarrow> None | Some _ \<Rightarrow> Some r) else row_of key k rows)"
  by (induction rows) (auto simp: row_of_def put_row_def)

lemma row_of_distinct: "distinct (map key rows) \<Longrightarrow> r \<in> set rows \<Longrightarrow> row_of key (key r) rows = Some r"
  by (induction rows) (force simp: row_of_def)+

lemma put_row_keys [simp]: "map key (put_row key r rows) = map key rows"
  by (auto simp: put_row_def)

lemma put_row_set: "set (put_row key r rows) \<subseteq> insert r (set rows)"
  by (auto simp: put_row_def)

lemma put_row_in: "x \<in> set (put_row key r rows) \<Longrightarrow> x = r \<or> (x \<in> set rows \<and> key x \<noteq> key r)"
  by (auto simp: put_row_def split: if_splits)

lemma put_row_kept: "x \<in> set rows \<Longrightarrow> key x \<noteq> key r \<Longrightarrow> x \<in> set (put_row key r rows)"
  by (force simp: put_row_def)

lemma put_row_new: "key r \<in> key ` set rows \<Longrightarrow> r \<in> set (put_row key r rows)"
  by (force simp: put_row_def)

lemma put_row_id: "distinct (map key rows) \<Longrightarrow> r \<in> set rows \<Longrightarrow> put_row key r rows = rows"
  by (auto simp: put_row_def distinct_map dest: inj_onD intro!: map_idI)

end
