(* ===== verification/CrashLedger.thy ===== *)
theory CrashLedger
  imports LedgerBase TurnEnd
begin

text \<open>
  The crash-recovery ledger (\<open>src/src/runtime/crash-recovery-store.ts\<close>): the table of boot epochs, one
  row per run of the host, and the table of turn attempts, one row per physical turn handed to a
  provider. The rows carry heartbeats and leases; an operation validates its input, reads the row,
  checks the transition and writes, in one transaction, so the row it read is the row it writes
  and a thrown error leaves the tables as they were. The \<open>CHECK\<close> constraints of the two tables
  (\<open>src/src/router/router-db.ts\<close>) are \<open>boot_check\<close> and \<open>attempt_check\<close>: a write that violates one throws.
  The clock and fresh identifiers are arguments, used where the caller leaves the value out.
\<close>

section \<open>Rows\<close>

datatype boot_status = BootActive | BootGracefulStopped | BootAbandoned

record boot_epoch =
  be_bootEpoch :: string
  be_instanceId :: string
  be_pid :: int
  be_status :: boot_status
  be_startedAt :: int
  be_lastHeartbeatAt :: int
  be_leaseExpiresAt :: int
  be_gracefulStoppedAt :: "int option"
  be_abandonedAt :: "int option"
  be_stopReason :: "string option"
  be_metadata :: "json option"
  be_createdAt :: int
  be_updatedAt :: int

record boot_input =
  bi_bootEpoch :: "string option"
  bi_instanceId :: string
  bi_pid :: int
  bi_startedAt :: "int option"
  bi_lastHeartbeatAt :: "int option"
  bi_leaseExpiresAt :: int
  bi_metadata :: "json option"

text \<open>An attempt is running or has ended with its terminal status.\<close>

datatype attempt_status = Running | Ended terminal_status

record attempt_row =
  ta_attemptId :: string
  ta_turnId :: string
  ta_recoveredFromAttemptId :: "string option"
  ta_runId :: string
  ta_sessionKey :: string
  ta_sessionName :: "string option"
  ta_agentId :: string
  ta_provider :: string
  ta_model :: string
  ta_bootEpoch :: string
  ta_status :: attempt_status
  ta_startedAt :: int
  ta_leaseExpiresAt :: int
  ta_lastHeartbeatAt :: int
  ta_completedAt :: "int option"
  ta_requestBlobSha256 :: "string option"
  ta_userPromptSha256 :: "string option"
  ta_systemPromptSha256 :: "string option"
  ta_checkpoint :: "json option"
  ta_originKind :: turn_cause
  ta_source :: "json option"
  ta_turnProvenance :: "json option"
  ta_taskBarrierTaskId :: "string option"
  ta_deliveryBarrier :: delivery_barrier
  ta_pendingIds :: "string list"
  ta_startedTool :: bool
  ta_materializedOutput :: bool
  ta_recoveryClaimId :: "string option"
  ta_recoveryStatus :: "string option"
  ta_recoveryReason :: "string option"
  ta_recoveryRunId :: "string option"
  ta_recoveredAt :: "int option"
  ta_metadata :: "json option"
  ta_createdAt :: int
  ta_updatedAt :: int

record attempt_input =
  ai_attemptId :: "string option"
  ai_turnId :: string
  ai_recoveredFromAttemptId :: "string option"
  ai_runId :: string
  ai_sessionKey :: string
  ai_sessionName :: "string option"
  ai_agentId :: string
  ai_provider :: string
  ai_model :: string
  ai_bootEpoch :: string
  ai_startedAt :: "int option"
  ai_lastHeartbeatAt :: "int option"
  ai_leaseExpiresAt :: int
  ai_requestBlobSha256 :: "string option"
  ai_userPromptSha256 :: "string option"
  ai_systemPromptSha256 :: "string option"
  ai_checkpoint :: "json option"
  ai_originKind :: turn_cause
  ai_source :: "json option"
  ai_turnProvenance :: "json option"
  ai_taskBarrierTaskId :: "string option"
  ai_deliveryBarrier :: delivery_barrier
  ai_pendingIds :: "string list"
  ai_metadata :: "json option"

record ledger =
  ld_boots :: "boot_epoch list"
  ld_attempts :: "attempt_row list"

abbreviation getBootEpochRow :: "('a) ledger_scheme \<Rightarrow> string \<Rightarrow> boot_epoch option" where
  "getBootEpochRow ld k \<equiv> row_of be_bootEpoch k (ld_boots ld)"

abbreviation getTurnAttemptRow :: "('a) ledger_scheme \<Rightarrow> string \<Rightarrow> attempt_row option" where
  "getTurnAttemptRow ld k \<equiv> row_of ta_attemptId k (ld_attempts ld)"

definition boot_check :: "boot_epoch \<Rightarrow> bool" where
  "boot_check b \<longleftrightarrow> be_pid b > 0
     \<and> (be_status b = BootActive \<and> be_gracefulStoppedAt b = None \<and> be_abandonedAt b = None
        \<or> be_status b = BootGracefulStopped \<and> be_gracefulStoppedAt b \<noteq> None \<and> be_abandonedAt b = None
        \<or> be_status b = BootAbandoned \<and> be_abandonedAt b \<noteq> None \<and> be_gracefulStoppedAt b = None)
     \<and> be_lastHeartbeatAt b \<ge> be_startedAt b
     \<and> be_leaseExpiresAt b > be_lastHeartbeatAt b
     \<and> (case be_gracefulStoppedAt b of None \<Rightarrow> True | Some t \<Rightarrow> t \<ge> be_lastHeartbeatAt b)
     \<and> (case be_abandonedAt b of None \<Rightarrow> True | Some t \<Rightarrow> t \<ge> be_leaseExpiresAt b)
     \<and> be_updatedAt b \<ge> be_createdAt b"

definition attempt_check :: "attempt_row \<Rightarrow> bool" where
  "attempt_check a \<longleftrightarrow> (ta_status a = Running \<longleftrightarrow> ta_completedAt a = None)
     \<and> ta_lastHeartbeatAt a \<ge> ta_startedAt a
     \<and> ta_leaseExpiresAt a > ta_lastHeartbeatAt a
     \<and> (case ta_completedAt a of None \<Rightarrow> True | Some t \<Rightarrow> t \<ge> ta_lastHeartbeatAt a)
     \<and> (ta_requestBlobSha256 a \<noteq> None \<or> ta_checkpoint a \<noteq> None)
     \<and> ta_updatedAt a \<ge> ta_createdAt a"

text \<open>Inserting and updating one row; the constraints of the table are checked first.\<close>

definition insert_boot :: "boot_epoch \<Rightarrow> ('a) ledger_scheme \<Rightarrow> ledger_error + boot_epoch \<times> ('a) ledger_scheme" where
  "insert_boot b ld =
     throw_if (\<not> boot_check b) (LedgerConstraint ''runtime_boot_epochs'')
       (Inr (b, ld\<lparr>ld_boots := ld_boots ld @ [b]\<rparr>))"

definition update_boot :: "boot_epoch \<Rightarrow> ('a) ledger_scheme \<Rightarrow> ledger_error + boot_epoch \<times> ('a) ledger_scheme" where
  "update_boot b ld =
     throw_if (\<not> boot_check b) (LedgerConstraint ''runtime_boot_epochs'')
       (Inr (b, ld\<lparr>ld_boots := put_row be_bootEpoch b (ld_boots ld)\<rparr>))"

definition insert_attempt :: "attempt_row \<Rightarrow> ('a) ledger_scheme \<Rightarrow> ledger_error + attempt_row \<times> ('a) ledger_scheme" where
  "insert_attempt a ld =
     throw_if (\<not> attempt_check a) (LedgerConstraint ''runtime_turn_attempts'')
       (Inr (a, ld\<lparr>ld_attempts := ld_attempts ld @ [a]\<rparr>))"

definition update_attempt :: "attempt_row \<Rightarrow> ('a) ledger_scheme \<Rightarrow> ledger_error + attempt_row \<times> ('a) ledger_scheme" where
  "update_attempt a ld =
     throw_if (\<not> attempt_check a) (LedgerConstraint ''runtime_turn_attempts'')
       (Inr (a, ld\<lparr>ld_attempts := put_row ta_attemptId a (ld_attempts ld)\<rparr>))"

section \<open>Boot epochs\<close>

definition same_boot_data :: "boot_epoch \<Rightarrow> boot_epoch \<Rightarrow> bool" where
  "same_boot_data existing new \<longleftrightarrow>
     be_instanceId existing = be_instanceId new \<and> be_pid existing = be_pid new
     \<and> be_startedAt existing = be_startedAt new \<and> be_lastHeartbeatAt existing = be_lastHeartbeatAt new
     \<and> be_leaseExpiresAt existing = be_leaseExpiresAt new \<and> be_metadata existing = be_metadata new"

definition createRuntimeBootEpoch ::
  "string \<Rightarrow> int \<Rightarrow> boot_input \<Rightarrow> ('a) ledger_scheme \<Rightarrow> ledger_error + boot_epoch \<times> ('a) ledger_scheme" where
  "createRuntimeBootEpoch uuid now inp ld =
     bindE (requiredText (nullish (bi_bootEpoch inp) (''boot_'' @ uuid)) ''bootEpoch'') (\<lambda>bootEpoch.
     bindE (requiredText (bi_instanceId inp) ''instanceId'') (\<lambda>instanceId.
     bindE (assertPositiveInteger (bi_pid inp) ''pid'') (\<lambda>pid.
     bindE (assertTimestamp (nullish (bi_startedAt inp) now) ''startedAt'') (\<lambda>startedAt.
     bindE (assertTimestamp (nullish (bi_lastHeartbeatAt inp) startedAt) ''lastHeartbeatAt'') (\<lambda>lastHeartbeatAt.
     bindE (assertTimestamp (bi_leaseExpiresAt inp) ''leaseExpiresAt'') (\<lambda>leaseExpiresAt.
     throw_if (lastHeartbeatAt < startedAt) (LedgerInvalid ''lastHeartbeatAt cannot precede startedAt'') (
     throw_if (leaseExpiresAt \<le> lastHeartbeatAt) (LedgerInvalid ''leaseExpiresAt must be after lastHeartbeatAt'') (
     let row = \<lparr>be_bootEpoch = bootEpoch, be_instanceId = instanceId, be_pid = pid, be_status = BootActive,
                be_startedAt = startedAt, be_lastHeartbeatAt = lastHeartbeatAt,
                be_leaseExpiresAt = leaseExpiresAt, be_gracefulStoppedAt = None, be_abandonedAt = None,
                be_stopReason = None, be_metadata = stringifyOptionalJson (bi_metadata inp),
                be_createdAt = startedAt, be_updatedAt = startedAt\<rparr>
     in case getBootEpochRow ld bootEpoch of
          Some existing \<Rightarrow>
            throw_if (\<not> same_boot_data existing row)
              (LedgerConflict ''Boot epoch already exists with different identity'') (Inr (existing, ld))
        | None \<Rightarrow> insert_boot row ld))))))))"

definition heartbeatRuntimeBootEpoch ::
  "int \<Rightarrow> string \<Rightarrow> int option \<Rightarrow> int \<Rightarrow> ('a) ledger_scheme \<Rightarrow> ledger_error + boot_epoch \<times> ('a) ledger_scheme" where
  "heartbeatRuntimeBootEpoch now bootEpochIn heartbeatIn leaseIn ld =
     bindE (requiredText bootEpochIn ''bootEpoch'') (\<lambda>bootEpoch.
     bindE (assertTimestamp (nullish heartbeatIn now) ''heartbeatAt'') (\<lambda>heartbeatAt.
     bindE (assertTimestamp leaseIn ''leaseExpiresAt'') (\<lambda>leaseExpiresAt.
     throw_if (leaseExpiresAt \<le> heartbeatAt) (LedgerInvalid ''leaseExpiresAt must be after heartbeatAt'') (
     found (getBootEpochRow ld bootEpoch) (LedgerNotFound ''Boot epoch not found'') (\<lambda>current.
     throw_if (be_status current \<noteq> BootActive) (LedgerConflict ''Cannot heartbeat terminal boot epoch'') (
     throw_if (heartbeatAt < be_lastHeartbeatAt current \<or> heartbeatAt < be_updatedAt current
               \<or> leaseExpiresAt < be_leaseExpiresAt current)
       (LedgerConflict ''Cannot move boot epoch heartbeat or lease backwards'') (
     if heartbeatAt = be_lastHeartbeatAt current \<and> leaseExpiresAt = be_leaseExpiresAt current
     then Inr (current, ld)
     else update_boot (current\<lparr>be_lastHeartbeatAt := heartbeatAt, be_leaseExpiresAt := leaseExpiresAt,
                               be_updatedAt := heartbeatAt\<rparr>) ld)))))))"

text \<open>The fence of an abandonment: the heartbeat and lease the sweeper observed.\<close>

definition terminalizeRuntimeBootEpoch ::
  "int \<Rightarrow> string \<Rightarrow> boot_status \<Rightarrow> int option \<Rightarrow> string option option \<Rightarrow> int option \<Rightarrow> int option
   \<Rightarrow> ('a) ledger_scheme \<Rightarrow> ledger_error + boot_epoch \<times> ('a) ledger_scheme" where
  "terminalizeRuntimeBootEpoch now bootEpochIn status terminalIn reasonIn expectedHeartbeat expectedLease ld =
     bindE (requiredText bootEpochIn ''bootEpoch'') (\<lambda>bootEpoch.
     bindE (assertTimestamp (nullish terminalIn now) ''terminalAt'') (\<lambda>terminalAt.
     let reason = optionalText (nullish reasonIn None) in
     found (getBootEpochRow ld bootEpoch) (LedgerNotFound ''Boot epoch not found'') (\<lambda>current.
     if be_status current = status
     then
       throw_if (terminalIn \<noteq> None
                 \<and> Some terminalAt \<noteq> (if status = BootGracefulStopped then be_gracefulStoppedAt current
                                        else be_abandonedAt current))
         (LedgerConflict ''Boot epoch already has a different terminal time'') (
       throw_if (reasonIn \<noteq> None \<and> reason \<noteq> be_stopReason current)
         (LedgerConflict ''Boot epoch already has a different stop reason'') (
       Inr (current, ld)))
     else
       throw_if (be_status current \<noteq> BootActive) (LedgerConflict ''Cannot transition boot epoch'') (
       throw_if (terminalAt < be_lastHeartbeatAt current \<or> terminalAt < be_updatedAt current)
         (LedgerConflict ''terminalAt cannot precede the latest boot observation'') (
       bindE (if status = BootAbandoned
              then
                throw_if (expectedHeartbeat = None \<or> expectedLease = None)
                  (LedgerInvalid ''Abandoning a boot requires the observed heartbeat and lease fence'') (
                bindE (assertTimestamp (the expectedHeartbeat) ''expectedLastHeartbeatAt'') (\<lambda>eh.
                bindE (assertTimestamp (the expectedLease) ''expectedLeaseExpiresAt'') (\<lambda>el.
                throw_if (be_lastHeartbeatAt current \<noteq> eh \<or> be_leaseExpiresAt current \<noteq> el)
                  (LedgerConflict ''Boot epoch changed after it was observed'') (
                throw_if (terminalAt < el) (LedgerConflict ''Boot epoch cannot be abandoned before lease expiry'')
                  (Inr ())))))
              else Inr ()) (\<lambda>_.
       update_boot (current\<lparr>be_status := status,
            be_gracefulStoppedAt := (if status = BootGracefulStopped then Some terminalAt else None),
            be_abandonedAt := (if status = BootAbandoned then Some terminalAt else None),
            be_stopReason := reason, be_updatedAt := terminalAt\<rparr>) ld))))))"

definition markRuntimeBootEpochGracefulStopped ::
  "int \<Rightarrow> string \<Rightarrow> int option \<Rightarrow> string option option \<Rightarrow> ('a) ledger_scheme
   \<Rightarrow> ledger_error + boot_epoch \<times> ('a) ledger_scheme" where
  "markRuntimeBootEpochGracefulStopped now bootEpoch stoppedAt reason ld =
     terminalizeRuntimeBootEpoch now bootEpoch BootGracefulStopped stoppedAt reason None None ld"

definition markRuntimeBootEpochAbandoned ::
  "int \<Rightarrow> string \<Rightarrow> int option \<Rightarrow> string option option \<Rightarrow> int \<Rightarrow> int \<Rightarrow> ('a) ledger_scheme
   \<Rightarrow> ledger_error + boot_epoch \<times> ('a) ledger_scheme" where
  "markRuntimeBootEpochAbandoned now bootEpoch abandonedAt reason expectedHeartbeat expectedLease ld =
     terminalizeRuntimeBootEpoch now bootEpoch BootAbandoned abandonedAt reason
       (Some expectedHeartbeat) (Some expectedLease) ld"

section \<open>Turn attempts\<close>

text \<open>The immutable columns of an attempt, which a repeated creation must repeat.\<close>

definition same_attempt_data :: "attempt_row \<Rightarrow> attempt_row \<Rightarrow> bool" where
  "same_attempt_data existing new \<longleftrightarrow>
     ta_turnId existing = ta_turnId new \<and> ta_recoveredFromAttemptId existing = ta_recoveredFromAttemptId new
     \<and> ta_runId existing = ta_runId new \<and> ta_sessionKey existing = ta_sessionKey new
     \<and> ta_sessionName existing = ta_sessionName new \<and> ta_agentId existing = ta_agentId new
     \<and> ta_provider existing = ta_provider new \<and> ta_model existing = ta_model new
     \<and> ta_bootEpoch existing = ta_bootEpoch new \<and> ta_startedAt existing = ta_startedAt new
     \<and> ta_leaseExpiresAt existing = ta_leaseExpiresAt new \<and> ta_lastHeartbeatAt existing = ta_lastHeartbeatAt new
     \<and> ta_requestBlobSha256 existing = ta_requestBlobSha256 new
     \<and> ta_userPromptSha256 existing = ta_userPromptSha256 new
     \<and> ta_systemPromptSha256 existing = ta_systemPromptSha256 new
     \<and> ta_checkpoint existing = ta_checkpoint new \<and> ta_originKind existing = ta_originKind new
     \<and> ta_source existing = ta_source new \<and> ta_turnProvenance existing = ta_turnProvenance new
     \<and> ta_taskBarrierTaskId existing = ta_taskBarrierTaskId new
     \<and> ta_deliveryBarrier existing = ta_deliveryBarrier new \<and> ta_pendingIds existing = ta_pendingIds new
     \<and> ta_metadata existing = ta_metadata new"

text \<open>The checks of the owning boot, and of the attempt that this one recovers.\<close>

definition owner_checks :: "attempt_row \<Rightarrow> ('a) ledger_scheme \<Rightarrow> ledger_error + unit" where
  "owner_checks row ld =
     found (getBootEpochRow ld (ta_bootEpoch row)) (LedgerNotFound ''Owning boot epoch not found'') (\<lambda>boot.
     throw_if (be_status boot \<noteq> BootActive) (LedgerConflict ''Cannot create attempt for terminal boot epoch'') (
     throw_if (ta_startedAt row < be_startedAt boot \<or> be_leaseExpiresAt boot \<le> ta_startedAt row)
       (LedgerConflict ''Cannot create attempt outside the live lease'') (
     throw_if (ta_leaseExpiresAt row > be_leaseExpiresAt boot)
       (LedgerConflict ''Attempt lease cannot outlive its owning boot lease'') (
     case ta_recoveredFromAttemptId row of
       None \<Rightarrow> Inr ()
     | Some prev \<Rightarrow>
         found (getTurnAttemptRow ld prev) (LedgerNotFound ''Recovered-from attempt not found'') (\<lambda>previous.
         throw_if (ta_status previous = Running) (LedgerConflict ''Recovered-from attempt is still running'') (
         throw_if (ta_turnId previous \<noteq> ta_turnId row)
           (LedgerConflict ''Recovered attempt must retain the same logical turnId'') (Inr ())))))))"

definition createRuntimeTurnAttempt ::
  "string \<Rightarrow> int \<Rightarrow> attempt_input \<Rightarrow> ('a) ledger_scheme \<Rightarrow> ledger_error + attempt_row \<times> ('a) ledger_scheme" where
  "createRuntimeTurnAttempt uuid now inp ld =
     bindE (requiredText (nullish (ai_attemptId inp) (''attempt_'' @ uuid)) ''attemptId'') (\<lambda>attemptId.
     bindE (requiredText (ai_turnId inp) ''turnId'') (\<lambda>turnId.
     bindE (requiredText (ai_runId inp) ''runId'') (\<lambda>runId.
     bindE (requiredText (ai_sessionKey inp) ''sessionKey'') (\<lambda>sessionKey.
     bindE (requiredText (ai_agentId inp) ''agentId'') (\<lambda>agentId.
     bindE (requiredText (ai_provider inp) ''provider'') (\<lambda>provider.
     bindE (requiredText (ai_model inp) ''model'') (\<lambda>model.
     bindE (requiredText (ai_bootEpoch inp) ''bootEpoch'') (\<lambda>bootEpoch.
     bindE (assertTimestamp (nullish (ai_startedAt inp) now) ''startedAt'') (\<lambda>startedAt.
     bindE (assertTimestamp (nullish (ai_lastHeartbeatAt inp) startedAt) ''lastHeartbeatAt'') (\<lambda>lastHeartbeatAt.
     bindE (assertTimestamp (ai_leaseExpiresAt inp) ''leaseExpiresAt'') (\<lambda>leaseExpiresAt.
     throw_if (lastHeartbeatAt < startedAt) (LedgerInvalid ''lastHeartbeatAt cannot precede startedAt'') (
     throw_if (leaseExpiresAt \<le> lastHeartbeatAt) (LedgerInvalid ''leaseExpiresAt must be after lastHeartbeatAt'') (
     let row = \<lparr>ta_attemptId = attemptId, ta_turnId = turnId,
           ta_recoveredFromAttemptId = optionalText (ai_recoveredFromAttemptId inp), ta_runId = runId,
           ta_sessionKey = sessionKey, ta_sessionName = optionalText (ai_sessionName inp), ta_agentId = agentId,
           ta_provider = provider, ta_model = model, ta_bootEpoch = bootEpoch, ta_status = Running,
           ta_startedAt = startedAt, ta_leaseExpiresAt = leaseExpiresAt, ta_lastHeartbeatAt = lastHeartbeatAt,
           ta_completedAt = None, ta_requestBlobSha256 = optionalText (ai_requestBlobSha256 inp),
           ta_userPromptSha256 = optionalText (ai_userPromptSha256 inp),
           ta_systemPromptSha256 = optionalText (ai_systemPromptSha256 inp),
           ta_checkpoint = stringifyOptionalJson (ai_checkpoint inp), ta_originKind = ai_originKind inp,
           ta_source = stringifyOptionalJson (ai_source inp),
           ta_turnProvenance = stringifyOptionalJson (ai_turnProvenance inp),
           ta_taskBarrierTaskId = optionalText (ai_taskBarrierTaskId inp),
           ta_deliveryBarrier = ai_deliveryBarrier inp, ta_pendingIds = ai_pendingIds inp,
           ta_startedTool = False, ta_materializedOutput = False, ta_recoveryClaimId = None,
           ta_recoveryStatus = None, ta_recoveryReason = None, ta_recoveryRunId = None, ta_recoveredAt = None,
           ta_metadata = stringifyOptionalJson (ai_metadata inp), ta_createdAt = startedAt,
           ta_updatedAt = startedAt\<rparr>
     in throw_if (ta_requestBlobSha256 row = None \<and> ta_checkpoint row = None)
          (LedgerInvalid ''Turn attempt requires a durable request blob hash or provider checkpoint'') (
        case getTurnAttemptRow ld attemptId of
          Some existing \<Rightarrow>
            throw_if (\<not> same_attempt_data existing row)
              (LedgerConflict ''Attempt already exists with different immutable data'') (Inr (existing, ld))
        | None \<Rightarrow> bindE (owner_checks row ld) (\<lambda>_. insert_attempt row ld)))))))))))))))"

definition heartbeatRuntimeTurnAttempt ::
  "int \<Rightarrow> string \<Rightarrow> string \<Rightarrow> int option \<Rightarrow> int \<Rightarrow> ('a) ledger_scheme
   \<Rightarrow> ledger_error + attempt_row \<times> ('a) ledger_scheme" where
  "heartbeatRuntimeTurnAttempt now attemptIdIn bootEpochIn heartbeatIn leaseIn ld =
     bindE (requiredText attemptIdIn ''attemptId'') (\<lambda>attemptId.
     bindE (requiredText bootEpochIn ''bootEpoch'') (\<lambda>bootEpoch.
     bindE (assertTimestamp (nullish heartbeatIn now) ''heartbeatAt'') (\<lambda>heartbeatAt.
     bindE (assertTimestamp leaseIn ''leaseExpiresAt'') (\<lambda>leaseExpiresAt.
     throw_if (leaseExpiresAt \<le> heartbeatAt) (LedgerInvalid ''leaseExpiresAt must be after heartbeatAt'') (
     found (getTurnAttemptRow ld attemptId) (LedgerNotFound ''Attempt not found'') (\<lambda>current.
     throw_if (ta_bootEpoch current \<noteq> bootEpoch)
       (LedgerConflict ''Attempt is owned by a different boot epoch'') (
     throw_if (ta_status current \<noteq> Running) (LedgerConflict ''Cannot heartbeat terminal attempt'') (
     throw_if (ta_recoveryClaimId current \<noteq> None)
       (LedgerConflict ''Cannot heartbeat recovery-claimed attempt'') (
     found (getBootEpochRow ld bootEpoch) (LedgerConflict ''Cannot heartbeat attempt owned by inactive boot'') (\<lambda>boot.
     throw_if (be_status boot \<noteq> BootActive \<or> be_leaseExpiresAt boot \<le> heartbeatAt)
       (LedgerConflict ''Cannot heartbeat attempt owned by inactive boot'') (
     throw_if (leaseExpiresAt > be_leaseExpiresAt boot)
       (LedgerConflict ''Attempt lease cannot outlive its owning boot lease'') (
     throw_if (heartbeatAt < ta_lastHeartbeatAt current \<or> heartbeatAt < ta_updatedAt current
               \<or> leaseExpiresAt < ta_leaseExpiresAt current)
       (LedgerConflict ''Cannot move attempt heartbeat or lease backwards'') (
     if heartbeatAt = ta_lastHeartbeatAt current \<and> leaseExpiresAt = ta_leaseExpiresAt current
     then Inr (current, ld)
     else update_attempt (current\<lparr>ta_lastHeartbeatAt := heartbeatAt, ta_leaseExpiresAt := leaseExpiresAt,
                                  ta_updatedAt := heartbeatAt\<rparr>) ld)))))))))))))"

definition INPUT_MUTATED_KEY :: string where
  "INPUT_MUTATED_KEY = ''inputMutated''"

text \<open>The metadata column as an object, as \<open>parseOptionalRecord(...) ?? {}\<close> reads it.\<close>

definition metadata_object :: "json option \<Rightarrow> ledger_error + (string \<times> json) list" where
  "metadata_object m =
     (case m of
        None \<Rightarrow> Inr []
      | Some (JObj kvs) \<Rightarrow> Inr kvs
      | Some _ \<Rightarrow> Inl (LedgerCorrupt ''runtime_turn_attempts.metadata_json must be a JSON object''))"

definition hasRuntimeTurnAttemptInputMutation :: "attempt_row \<Rightarrow> bool" where
  "hasRuntimeTurnAttemptInputMutation a =
     (case ta_metadata a of None \<Rightarrow> False | Some m \<Rightarrow> jget INPUT_MUTATED_KEY m = Some (JBool True))"

record safety_input =
  si_attemptId :: string
  si_startedTool :: bool
  si_materializedOutput :: bool
  si_inputMutated :: bool
  si_markedAt :: "int option"

definition markRuntimeTurnAttemptSafety ::
  "int \<Rightarrow> safety_input \<Rightarrow> ('a) ledger_scheme \<Rightarrow> ledger_error + attempt_row \<times> ('a) ledger_scheme" where
  "markRuntimeTurnAttemptSafety now inp ld =
     throw_if (\<not> si_startedTool inp \<and> \<not> si_materializedOutput inp \<and> \<not> si_inputMutated inp)
       (LedgerInvalid ''At least one monotonic safety marker must be set'') (
     bindE (requiredText (si_attemptId inp) ''attemptId'') (\<lambda>attemptId.
     bindE (assertTimestamp (nullish (si_markedAt inp) now) ''markedAt'') (\<lambda>markedAt.
     found (getTurnAttemptRow ld attemptId) (LedgerNotFound ''Attempt not found'') (\<lambda>current.
     throw_if (ta_status current \<noteq> Running)
       (LedgerConflict ''Cannot change safety markers on terminal attempt'') (
     throw_if (ta_recoveryClaimId current \<noteq> None)
       (LedgerConflict ''Cannot change safety markers on recovery-claimed attempt'') (
     throw_if (markedAt < ta_updatedAt current)
       (LedgerConflict ''Cannot move attempt safety timestamp backwards'') (
     bindE (metadata_object (ta_metadata current)) (\<lambda>kvs.
     update_attempt (current\<lparr>ta_startedTool := ta_startedTool current \<or> si_startedTool inp,
          ta_materializedOutput := ta_materializedOutput current \<or> si_materializedOutput inp,
          ta_metadata := (if si_inputMutated inp
                          then stringifyOptionalJson (Some (JObj (obj_set INPUT_MUTATED_KEY (JBool True) kvs)))
                          else ta_metadata current),
          ta_updatedAt := max (ta_updatedAt current) markedAt\<rparr>) ld))))))))"

definition obj_merge :: "(string \<times> json) list \<Rightarrow> (string \<times> json) list \<Rightarrow> (string \<times> json) list" where
  "obj_merge kvs new = fold (\<lambda>(k, v) acc. obj_set k v acc) new kvs"

record terminal_input =
  ti_attemptId :: string
  ti_status :: terminal_status
  ti_completedAt :: "int option"
  ti_metadata :: "(string \<times> json) list option"

definition terminalizeRuntimeTurnAttempt ::
  "int \<Rightarrow> terminal_input \<Rightarrow> ('a) ledger_scheme \<Rightarrow> ledger_error + attempt_row \<times> ('a) ledger_scheme" where
  "terminalizeRuntimeTurnAttempt now inp ld =
     bindE (requiredText (ti_attemptId inp) ''attemptId'') (\<lambda>attemptId.
     bindE (assertTimestamp (nullish (ti_completedAt inp) now) ''completedAt'') (\<lambda>completedAt.
     found (getTurnAttemptRow ld attemptId) (LedgerNotFound ''Attempt not found'') (\<lambda>current.
     if ta_status current = Ended (ti_status inp)
     then
       throw_if (ti_completedAt inp \<noteq> None \<and> Some completedAt \<noteq> ta_completedAt current)
         (LedgerConflict ''Attempt already has a different completion time'') (
       bindE (case ti_metadata inp of
                None \<Rightarrow> Inr ()
              | Some new \<Rightarrow>
                  bindE (metadata_object (ta_metadata current)) (\<lambda>kvs.
                  throw_if (stringifyOptionalJson (Some (JObj (obj_merge kvs new))) \<noteq> ta_metadata current)
                    (LedgerConflict ''Attempt already has different terminal metadata'') (Inr ()))) (\<lambda>_.
       Inr (current, ld)))
     else
       throw_if (ta_status current \<noteq> Running) (LedgerConflict ''Cannot transition attempt'') (
       throw_if (ta_recoveryClaimId current \<noteq> None)
         (LedgerConflict ''Cannot terminalize recovery-claimed attempt'') (
       throw_if (completedAt < ta_lastHeartbeatAt current \<or> completedAt < ta_updatedAt current)
         (LedgerConflict ''completedAt cannot precede the latest attempt observation'') (
       bindE (metadata_object (ta_metadata current)) (\<lambda>kvs.
       update_attempt (current\<lparr>ta_status := Ended (ti_status inp), ta_completedAt := Some completedAt,
            ta_metadata := stringifyOptionalJson (Some (JObj (obj_merge kvs (nullish (ti_metadata inp) [])))),
            ta_updatedAt := completedAt\<rparr>) ld)))))))"

section \<open>What one operation does to a row\<close>

text \<open>How a row of a boot and a row of an attempt may change from one write to the next.\<close>

definition boot_le :: "boot_epoch \<Rightarrow> boot_epoch \<Rightarrow> bool" where
  "boot_le b b' \<longleftrightarrow> be_bootEpoch b' = be_bootEpoch b \<and> be_instanceId b' = be_instanceId b
     \<and> be_pid b' = be_pid b \<and> be_startedAt b' = be_startedAt b \<and> be_createdAt b' = be_createdAt b
     \<and> be_lastHeartbeatAt b \<le> be_lastHeartbeatAt b' \<and> be_leaseExpiresAt b \<le> be_leaseExpiresAt b'
     \<and> be_updatedAt b \<le> be_updatedAt b' \<and> (be_status b = BootActive \<or> b' = b)"

definition attempt_le :: "attempt_row \<Rightarrow> attempt_row \<Rightarrow> bool" where
  "attempt_le a a' \<longleftrightarrow> ta_attemptId a' = ta_attemptId a \<and> ta_turnId a' = ta_turnId a
     \<and> ta_bootEpoch a' = ta_bootEpoch a \<and> ta_sessionKey a' = ta_sessionKey a \<and> ta_agentId a' = ta_agentId a
     \<and> ta_recoveredFromAttemptId a' = ta_recoveredFromAttemptId a \<and> ta_pendingIds a' = ta_pendingIds a
     \<and> ta_startedAt a' = ta_startedAt a \<and> ta_lastHeartbeatAt a \<le> ta_lastHeartbeatAt a'
     \<and> ta_leaseExpiresAt a \<le> ta_leaseExpiresAt a' \<and> ta_updatedAt a \<le> ta_updatedAt a'
     \<and> (ta_startedTool a \<longrightarrow> ta_startedTool a') \<and> (ta_materializedOutput a \<longrightarrow> ta_materializedOutput a')
     \<and> (hasRuntimeTurnAttemptInputMutation a \<longrightarrow> hasRuntimeTurnAttemptInputMutation a' \<or> ta_status a' \<noteq> Running)
     \<and> (ta_status a = Running \<or> a' = a)"

lemma boot_le_refl [simp]: "boot_le b b"
  by (simp add: boot_le_def)

lemma boot_le_trans: "boot_le a b \<Longrightarrow> boot_le b c \<Longrightarrow> boot_le a c"
  by (auto simp: boot_le_def)

lemma attempt_le_refl [simp]: "attempt_le a a"
  by (simp add: attempt_le_def)

lemma attempt_le_trans: "attempt_le a b \<Longrightarrow> attempt_le b c \<Longrightarrow> attempt_le a c"
  by (auto simp: attempt_le_def)

text \<open>
  An operation on a table returns a row and either leaves the table alone, because the row is in
  it, or appends the row under a new key, or replaces the row of its key.
\<close>

definition table_effect ::
  "('r \<Rightarrow> 'k) \<Rightarrow> ('r \<Rightarrow> bool) \<Rightarrow> ('r \<Rightarrow> 'r \<Rightarrow> bool) \<Rightarrow> 'r \<Rightarrow> 'r list \<Rightarrow> 'r list \<Rightarrow> bool" where
  "table_effect key fresh le row rows rows' \<longleftrightarrow>
     rows' = rows \<and> row_of key (key row) rows = Some row
     \<or> rows' = rows @ [row] \<and> row_of key (key row) rows = None \<and> fresh row
     \<or> (\<exists>c. row_of key (key row) rows = Some c \<and> le c row \<and> rows' = put_row key row rows)"

lemma table_effect_distinct: "table_effect key fresh le row rows rows' \<Longrightarrow> distinct (map key rows) \<Longrightarrow> distinct (map key rows')"
  by (auto simp: table_effect_def row_of_None)

lemma table_effect_row: "table_effect key fresh le row rows rows' \<Longrightarrow> row_of key (key row) rows' = Some row"
  by (auto simp: table_effect_def row_of_append row_of_put)

text \<open>A row that was there is still there, changed at most as the write allows.\<close>

lemma table_effect_grows:
  assumes "table_effect key fresh le row rows rows'" "row_of key k rows = Some r" "\<And>x. le x x"
  shows "\<exists>r'. row_of key k rows' = Some r' \<and> le r r'"
  using assms by (auto simp: table_effect_def row_of_append row_of_put dest: row_of_key)

lemma table_effect_old:
  assumes "table_effect key fresh le row rows rows'" "x \<in> set rows'"
  shows "x \<in> set rows \<or> x = row \<and> (row_of key (key row) rows = None \<and> fresh row
           \<or> (\<exists>c. row_of key (key row) rows = Some c \<and> le c row))"
  using assms by (auto simp: table_effect_def dest: put_row_in)

definition boot_effect :: "boot_epoch \<Rightarrow> ('a) ledger_scheme \<Rightarrow> ('a) ledger_scheme \<Rightarrow> bool" where
  "boot_effect b ld ld' \<longleftrightarrow>
     table_effect be_bootEpoch (\<lambda>b. boot_check b \<and> be_status b = BootActive)
       (\<lambda>c c'. boot_le c c' \<and> (c' = c \<or> boot_check c')) b (ld_boots ld) (ld_boots ld')
     \<and> ld' = ld\<lparr>ld_boots := ld_boots ld'\<rparr>"

lemma insert_boot_Inr [simp]:
  "insert_boot b ld = Inr (b', ld') \<longleftrightarrow> boot_check b \<and> b' = b \<and> ld' = ld\<lparr>ld_boots := ld_boots ld @ [b]\<rparr>"
  by (auto simp: insert_boot_def)

lemma update_boot_Inr [simp]:
  "update_boot b ld = Inr (b', ld') \<longleftrightarrow> boot_check b \<and> b' = b \<and> ld' = ld\<lparr>ld_boots := put_row be_bootEpoch b (ld_boots ld)\<rparr>"
  by (auto simp: update_boot_def)

lemma boot_effect_same: "getBootEpochRow ld k = Some b \<Longrightarrow> boot_effect b ld ld"
  using row_of_key [of be_bootEpoch k "ld_boots ld" b] by (simp add: boot_effect_def table_effect_def)

lemma boot_effect_new:
  "getBootEpochRow ld (be_bootEpoch b) = None \<Longrightarrow> boot_check b \<Longrightarrow> be_status b = BootActive
   \<Longrightarrow> boot_effect b ld (ld\<lparr>ld_boots := ld_boots ld @ [b]\<rparr>)"
  by (simp add: boot_effect_def table_effect_def)

lemma boot_effect_put:
  assumes "getBootEpochRow ld k = Some c" "boot_le c b" "boot_check b"
  shows "boot_effect b ld (ld\<lparr>ld_boots := put_row be_bootEpoch b (ld_boots ld)\<rparr>)"
proof -
  have "be_bootEpoch b = k" using assms row_of_key [of be_bootEpoch k "ld_boots ld" c] by (simp add: boot_le_def)
  with assms show ?thesis by (auto simp: boot_effect_def table_effect_def)
qed

lemma create_boot_effect:
  assumes "createRuntimeBootEpoch uuid now inp ld = Inr (b, ld')" shows "boot_effect b ld ld'"
  using assms unfolding createRuntimeBootEpoch_def Let_def
  by (simp split: option.splits) (elim conjE, simp add: boot_effect_new, use boot_effect_same in blast)

lemma heartbeat_boot_effect:
  assumes "heartbeatRuntimeBootEpoch now k hb lease ld = Inr (b, ld')" shows "boot_effect b ld ld'"
proof -
  from assms obtain c where c: "getBootEpochRow ld (trim k) = Some c"
      and s: "be_status c = BootActive" "be_lastHeartbeatAt c \<le> nullish hb now" "be_updatedAt c \<le> nullish hb now"
        "be_leaseExpiresAt c \<le> lease"
      and r: "(if nullish hb now = be_lastHeartbeatAt c \<and> lease = be_leaseExpiresAt c then Inr (c, ld)
         else update_boot (c\<lparr>be_lastHeartbeatAt := nullish hb now, be_leaseExpiresAt := lease,
                               be_updatedAt := nullish hb now\<rparr>) ld) = Inr (b, ld')"
    by (auto simp: heartbeatRuntimeBootEpoch_def)
  show ?thesis
  proof (cases "nullish hb now = be_lastHeartbeatAt c \<and> lease = be_leaseExpiresAt c")
    case True
    with r c show ?thesis by (auto intro: boot_effect_same)
  next
    case False
    with r s show ?thesis by (auto simp: boot_le_def intro!: boot_effect_put [OF c])
  qed
qed

lemma terminalize_boot_effect:
  assumes "terminalizeRuntimeBootEpoch now k status t reason eh el ld = Inr (b, ld')" shows "boot_effect b ld ld'"
proof -
  from assms obtain c where c: "getBootEpochRow ld (trim k) = Some c"
    by (simp add: terminalizeRuntimeBootEpoch_def Let_def) blast
  show ?thesis
  proof (cases "be_status c = status")
    case True
    with assms c have "b = c \<and> ld' = ld" by (simp add: terminalizeRuntimeBootEpoch_def Let_def)
    with c show ?thesis by (simp add: boot_effect_same)
  next
    case False
    with assms c obtain g a rs where "be_status c = BootActive" "be_updatedAt c \<le> nullish t now"
      "update_boot (c\<lparr>be_status := status, be_gracefulStoppedAt := g, be_abandonedAt := a, be_stopReason := rs,
             be_updatedAt := nullish t now\<rparr>) ld = Inr (b, ld')"
      by (simp del: update_boot_Inr add: terminalizeRuntimeBootEpoch_def Let_def) force
    then show ?thesis by (auto simp: boot_le_def intro!: boot_effect_put [OF c])
  qed
qed

lemmas boot_effects = create_boot_effect heartbeat_boot_effect terminalize_boot_effect

definition attempt_effect :: "attempt_row \<Rightarrow> ('a) ledger_scheme \<Rightarrow> ('a) ledger_scheme \<Rightarrow> bool" where
  "attempt_effect a ld ld' \<longleftrightarrow>
     table_effect ta_attemptId (\<lambda>a. attempt_check a \<and> owner_checks a ld = Inr () \<and> ta_status a = Running)
       (\<lambda>c c'. attempt_le c c' \<and> (c' = c \<or> attempt_check c'
            \<and> (ta_leaseExpiresAt c' = ta_leaseExpiresAt c \<and> ta_lastHeartbeatAt c' = ta_lastHeartbeatAt c
                \<or> (\<exists>b. getBootEpochRow ld (ta_bootEpoch c) = Some b \<and> be_status b = BootActive
                     \<and> ta_leaseExpiresAt c' \<le> be_leaseExpiresAt b))))
       a (ld_attempts ld) (ld_attempts ld')
     \<and> ld' = ld\<lparr>ld_attempts := ld_attempts ld'\<rparr>"

lemma map_of_all: "k \<in> fst ` set kvs \<Longrightarrow> (\<And>x. (k, x) \<in> set kvs \<Longrightarrow> x = v) \<Longrightarrow> map_of kvs k = Some v"
  by (induction kvs) auto

lemma marked_input_mutated:
  "jget k (sortJson (JObj (obj_set k (JBool True) kvs))) = Some (JBool True)"
proof -
  let ?o = "map (\<lambda>(k, v). (k, sortJson v)) (obj_set k (JBool True) kvs)"
  have "(k, JBool True) \<in> set (obj_set k (JBool True) kvs)" using obj_set_get map_of_SomeD by fast
  then have "k \<in> fst ` set ?o" by force
  moreover have "x = JBool True" if "(k, x) \<in> set ?o" for x using that by (force simp: obj_set_def split: if_splits)
  ultimately have "map_of (sort_key fst ?o) k = Some (JBool True)" by (intro map_of_all) auto
  then show ?thesis by simp
qed

lemma insert_attempt_Inr [simp]:
  "insert_attempt a ld = Inr (a', ld') \<longleftrightarrow> attempt_check a \<and> a' = a \<and> ld' = ld\<lparr>ld_attempts := ld_attempts ld @ [a]\<rparr>"
  by (auto simp: insert_attempt_def)

lemma update_attempt_Inr [simp]:
  "update_attempt a ld = Inr (a', ld') \<longleftrightarrow> attempt_check a \<and> a' = a
     \<and> ld' = ld\<lparr>ld_attempts := put_row ta_attemptId a (ld_attempts ld)\<rparr>"
  by (auto simp: update_attempt_def)

lemma attempt_effect_same: "getTurnAttemptRow ld k = Some a \<Longrightarrow> attempt_effect a ld ld"
  using row_of_key [of ta_attemptId k "ld_attempts ld" a] by (simp add: attempt_effect_def table_effect_def)

lemma attempt_effect_new:
  "getTurnAttemptRow ld (ta_attemptId a) = None \<Longrightarrow> attempt_check a \<Longrightarrow> owner_checks a ld = Inr () \<Longrightarrow> ta_status a = Running
   \<Longrightarrow> attempt_effect a ld (ld\<lparr>ld_attempts := ld_attempts ld @ [a]\<rparr>)"
  by (simp add: attempt_effect_def table_effect_def)

lemma attempt_effect_put:
  assumes "getTurnAttemptRow ld k = Some c" "attempt_le c a" "attempt_check a"
    "ta_leaseExpiresAt a = ta_leaseExpiresAt c \<and> ta_lastHeartbeatAt a = ta_lastHeartbeatAt c
     \<or> (\<exists>b. getBootEpochRow ld (ta_bootEpoch c) = Some b \<and> be_status b = BootActive
          \<and> ta_leaseExpiresAt a \<le> be_leaseExpiresAt b)"
  shows "attempt_effect a ld (ld\<lparr>ld_attempts := put_row ta_attemptId a (ld_attempts ld)\<rparr>)"
proof -
  have "ta_attemptId a = k" using assms row_of_key [of ta_attemptId k "ld_attempts ld" c] by (simp add: attempt_le_def)
  with assms show ?thesis by (auto simp: attempt_effect_def table_effect_def split: option.split)
qed

lemma create_attempt_effect:
  assumes "createRuntimeTurnAttempt uuid now inp ld = Inr (a, ld')" shows "attempt_effect a ld ld'"
  using assms unfolding createRuntimeTurnAttempt_def Let_def
  by (simp split: option.splits) (elim conjE, simp add: attempt_effect_new, use attempt_effect_same in blast)

lemma heartbeat_attempt_effect:
  assumes "heartbeatRuntimeTurnAttempt now k e hb lease ld = Inr (a, ld')" shows "attempt_effect a ld ld'"
proof -
  from assms obtain c b where c: "getTurnAttemptRow ld (trim k) = Some c"
      and b: "getBootEpochRow ld (ta_bootEpoch c) = Some b" "lease \<le> be_leaseExpiresAt b" "be_status b = BootActive"
      and s: "ta_status c = Running" "ta_lastHeartbeatAt c \<le> nullish hb now" "ta_updatedAt c \<le> nullish hb now"
        "ta_leaseExpiresAt c \<le> lease"
      and r: "(if nullish hb now = ta_lastHeartbeatAt c \<and> lease = ta_leaseExpiresAt c then Inr (c, ld)
         else update_attempt (c\<lparr>ta_lastHeartbeatAt := nullish hb now, ta_leaseExpiresAt := lease,
                               ta_updatedAt := nullish hb now\<rparr>) ld) = Inr (a, ld')"
    by (auto simp: heartbeatRuntimeTurnAttempt_def)
  show ?thesis
  proof (cases "nullish hb now = ta_lastHeartbeatAt c \<and> lease = ta_leaseExpiresAt c")
    case True
    with r c show ?thesis by (auto intro: attempt_effect_same)
  next
    case False
    with r s b show ?thesis by (auto simp: attempt_le_def hasRuntimeTurnAttemptInputMutation_def intro!: attempt_effect_put [OF c])
  qed
qed

lemma safety_attempt_effect:
  assumes "markRuntimeTurnAttemptSafety now inp ld = Inr (a, ld')" shows "attempt_effect a ld ld'"
proof -
  from assms obtain c kvs where c: "getTurnAttemptRow ld (trim (si_attemptId inp)) = Some c" "ta_status c = Running"
      and u: "update_attempt (c\<lparr>ta_startedTool := ta_startedTool c \<or> si_startedTool inp,
          ta_materializedOutput := ta_materializedOutput c \<or> si_materializedOutput inp,
          ta_metadata := (if si_inputMutated inp
                          then stringifyOptionalJson (Some (JObj (obj_set INPUT_MUTATED_KEY (JBool True) kvs)))
                          else ta_metadata c),
          ta_updatedAt := max (ta_updatedAt c) (nullish (si_markedAt inp) now)\<rparr>) ld = Inr (a, ld')"
    by (simp del: update_attempt_Inr add: markRuntimeTurnAttemptSafety_def) blast
  then have "attempt_le c a"
    by (auto simp: attempt_le_def hasRuntimeTurnAttemptInputMutation_def stringifyOptionalJson_def
          marked_input_mutated simp del: sortJson.simps)
  with c u show ?thesis by (auto intro!: attempt_effect_put [OF c(1)])
qed

lemma terminalize_attempt_effect:
  assumes "terminalizeRuntimeTurnAttempt now inp ld = Inr (a, ld')" shows "attempt_effect a ld ld'"
proof -
  from assms obtain c where c: "getTurnAttemptRow ld (trim (ti_attemptId inp)) = Some c"
    by (simp add: terminalizeRuntimeTurnAttempt_def Let_def) blast
  show ?thesis
  proof (cases "ta_status c = Ended (ti_status inp)")
    case True
    with assms c have "a = c \<and> ld' = ld" by (simp add: terminalizeRuntimeTurnAttempt_def Let_def)
    with c show ?thesis by (simp add: attempt_effect_same)
  next
    case False
    with assms c obtain md where "ta_status c = Running" "ta_updatedAt c \<le> nullish (ti_completedAt inp) now"
      "update_attempt (c\<lparr>ta_status := Ended (ti_status inp), ta_completedAt := Some (nullish (ti_completedAt inp) now),
            ta_metadata := md, ta_updatedAt := nullish (ti_completedAt inp) now\<rparr>) ld = Inr (a, ld')"
      by (simp del: update_attempt_Inr add: terminalizeRuntimeTurnAttempt_def Let_def) force
    then show ?thesis by (auto simp: attempt_le_def intro!: attempt_effect_put [OF c])
  qed
qed

lemmas attempt_effects = create_attempt_effect heartbeat_attempt_effect safety_attempt_effect terminalize_attempt_effect

end
