(* ===== verification/LedgerHistory.thy ===== *)
theory LedgerHistory
  imports CrashLedger
begin

text \<open>
  The crash-recovery ledger over time: the operations of \<open>CrashLedger\<close> as steps of one machine, in any
  order and by any process, its invariant \<open>ledger_ok\<close>, and the properties of every reachable ledger:
  attempts are tied to live leases, dead boots are fenced, rows only move forwards, the constraints
  of the tables never fire, and writes can be repeated.
\<close>

section \<open>The ledger as a state machine\<close>

text \<open>One successful operation, whoever issues it and in whatever order.\<close>

inductive ledger_step :: "('a) ledger_scheme \<Rightarrow> ('a) ledger_scheme \<Rightarrow> bool" where
  step_create_boot: "createRuntimeBootEpoch uuid now bi ld = Inr (b, ld') \<Longrightarrow> ledger_step ld ld'"
| step_heartbeat_boot: "heartbeatRuntimeBootEpoch now k hb lease ld = Inr (b, ld') \<Longrightarrow> ledger_step ld ld'"
| step_stop_boot: "markRuntimeBootEpochGracefulStopped now k t reason ld = Inr (b, ld') \<Longrightarrow> ledger_step ld ld'"
| step_abandon_boot: "markRuntimeBootEpochAbandoned now k t reason eh el ld = Inr (b, ld') \<Longrightarrow> ledger_step ld ld'"
| step_create_attempt: "createRuntimeTurnAttempt uuid now ai ld = Inr (a, ld') \<Longrightarrow> ledger_step ld ld'"
| step_heartbeat_attempt: "heartbeatRuntimeTurnAttempt now k e hb lease ld = Inr (a, ld') \<Longrightarrow> ledger_step ld ld'"
| step_mark_safety: "markRuntimeTurnAttemptSafety now si ld = Inr (a, ld') \<Longrightarrow> ledger_step ld ld'"
| step_terminalize: "terminalizeRuntimeTurnAttempt now ti ld = Inr (a, ld') \<Longrightarrow> ledger_step ld ld'"

lemma ledger_step_effect: "ledger_step ld ld' \<Longrightarrow> (\<exists>b. boot_effect b ld ld') \<or> (\<exists>a. attempt_effect a ld ld')"
  by (induction rule: ledger_step.induct)
    (auto simp: markRuntimeBootEpochGracefulStopped_def markRuntimeBootEpochAbandoned_def
          dest: boot_effects attempt_effects)

abbreviation ledger_run :: "('a) ledger_scheme \<Rightarrow> ('a) ledger_scheme \<Rightarrow> bool" where
  "ledger_run \<equiv> ledger_step\<^sup>*\<^sup>*"

text \<open>The rows a ledger holds, and how they are tied: an attempt to its boot, a recovery to its source.\<close>

definition attempt_owned :: "('a) ledger_scheme \<Rightarrow> attempt_row \<Rightarrow> bool" where
  "attempt_owned ld a =
     (case getBootEpochRow ld (ta_bootEpoch a) of
        None \<Rightarrow> False
      | Some b \<Rightarrow> be_startedAt b \<le> ta_startedAt a \<and> ta_leaseExpiresAt a \<le> be_leaseExpiresAt b)"

definition attempt_chained :: "('a) ledger_scheme \<Rightarrow> attempt_row \<Rightarrow> bool" where
  "attempt_chained ld a =
     (case ta_recoveredFromAttemptId a of
        None \<Rightarrow> True
      | Some p \<Rightarrow>
          (case getTurnAttemptRow ld p of
             None \<Rightarrow> False
           | Some q \<Rightarrow> ta_status q \<noteq> Running \<and> ta_turnId q = ta_turnId a))"

definition ledger_ok :: "('a) ledger_scheme \<Rightarrow> bool" where
  "ledger_ok ld \<longleftrightarrow> distinct (map be_bootEpoch (ld_boots ld)) \<and> distinct (map ta_attemptId (ld_attempts ld))
     \<and> (\<forall>b\<in>set (ld_boots ld). boot_check b)
     \<and> (\<forall>a\<in>set (ld_attempts ld). attempt_check a \<and> attempt_owned ld a \<and> attempt_chained ld a)"

lemma owner_checks_owned: "owner_checks a ld = Inr () \<Longrightarrow> attempt_owned ld a \<and> attempt_chained ld a"
  by (auto simp: owner_checks_def attempt_owned_def attempt_chained_def split: option.splits)

lemma boot_effect_attempts: "boot_effect b ld ld' \<Longrightarrow> ld_attempts ld' = ld_attempts ld"
  unfolding boot_effect_def by (metis ledger.ext_inject ledger.surjective ledger.update_convs(1))

lemma attempt_effect_boots: "attempt_effect a ld ld' \<Longrightarrow> ld_boots ld' = ld_boots ld"
  unfolding attempt_effect_def by (metis ledger.ext_inject ledger.surjective ledger.update_convs(2))

lemma boot_effect_grows:
  assumes "boot_effect b ld ld'" "getBootEpochRow ld k = Some c"
  shows "\<exists>c'. getBootEpochRow ld' k = Some c' \<and> boot_le c c'"
  using assms table_effect_grows [of be_bootEpoch _ _ b "ld_boots ld" "ld_boots ld'" k c]
  unfolding boot_effect_def by fastforce

lemma attempt_effect_grows:
  assumes "attempt_effect a ld ld'" "getTurnAttemptRow ld k = Some c"
  shows "\<exists>c'. getTurnAttemptRow ld' k = Some c' \<and> attempt_le c c'"
proof -
  from assms have "table_effect ta_attemptId (\<lambda>a. attempt_check a \<and> owner_checks a ld = Inr () \<and> ta_status a = Running)
       attempt_le a (ld_attempts ld) (ld_attempts ld')"
    by (auto simp: attempt_effect_def table_effect_def)
  from table_effect_grows [OF this assms(2)] show ?thesis by simp
qed

lemma owned_mono:
  assumes "attempt_owned ld a"
    "\<And>c. getBootEpochRow ld (ta_bootEpoch a) = Some c \<Longrightarrow> \<exists>c'. getBootEpochRow ld' (ta_bootEpoch a) = Some c' \<and> boot_le c c'"
  shows "attempt_owned ld' a"
  using assms by (fastforce simp: attempt_owned_def boot_le_def split: option.splits)

lemma chained_mono:
  assumes "attempt_chained ld a"
    "\<And>k c. getTurnAttemptRow ld k = Some c \<Longrightarrow> \<exists>c'. getTurnAttemptRow ld' k = Some c' \<and> attempt_le c c'"
  shows "attempt_chained ld' a"
proof (cases "ta_recoveredFromAttemptId a")
  case None
  then show ?thesis by (simp add: attempt_chained_def)
next
  case (Some p)
  with assms(1) obtain q where "getTurnAttemptRow ld p = Some q" "ta_status q \<noteq> Running" "ta_turnId q = ta_turnId a"
    by (auto simp: attempt_chained_def split: option.splits)
  with assms(2) [of p q] Some show ?thesis by (auto simp: attempt_chained_def attempt_le_def)
qed

lemma boot_effect_ok:
  assumes "boot_effect b ld ld'" "ledger_ok ld" shows "ledger_ok ld'"
proof -
  note e = boot_effect_attempts [OF assms(1)]
  have b: "boot_check x" if "x \<in> set (ld_boots ld')" for x
    using assms that by (auto simp: boot_effect_def ledger_ok_def dest!: table_effect_old dest: row_of_key)
  have a: "attempt_owned ld' x" if "attempt_owned ld x" for x
    using that by (rule owned_mono) (rule boot_effect_grows [OF assms(1)])
  have c: "attempt_chained ld' x \<longleftrightarrow> attempt_chained ld x" for x unfolding attempt_chained_def e by (rule refl)
  have "distinct (map be_bootEpoch (ld_boots ld'))"
    using assms by (auto simp: boot_effect_def ledger_ok_def intro: table_effect_distinct)
  with a b c e assms(2) show ?thesis by (simp add: ledger_ok_def)
qed

lemma attempt_effect_ok:
  assumes "attempt_effect a ld ld'" "ledger_ok ld" shows "ledger_ok ld'"
proof -
  note e = attempt_effect_boots [OF assms(1)] and g = attempt_effect_grows [OF assms(1)]
  have o: "attempt_owned ld' x \<longleftrightarrow> attempt_owned ld x" for x unfolding attempt_owned_def e by (rule refl)
  have row: "attempt_check x \<and> attempt_owned ld x \<and> attempt_chained ld' x" if x: "x \<in> set (ld_attempts ld')" for x
  proof -
    have old: "x \<in> set (ld_attempts ld) \<Longrightarrow> ?thesis"
      using assms(2) g by (auto simp: ledger_ok_def intro: chained_mono)
    from assms(1) x consider "x \<in> set (ld_attempts ld)"
      | "x = a" "attempt_check a" "owner_checks a ld = Inr ()"
      | c where "getTurnAttemptRow ld (ta_attemptId a) = Some c" "x = a" "attempt_le c a" "a = c \<or> attempt_check a"
          "ta_leaseExpiresAt a = ta_leaseExpiresAt c
           \<or> (\<exists>b. getBootEpochRow ld (ta_bootEpoch c) = Some b \<and> ta_leaseExpiresAt a \<le> be_leaseExpiresAt b)"
      by (auto simp: attempt_effect_def dest!: table_effect_old split: option.splits)
    then show ?thesis
    proof cases
      case 1
      then show ?thesis by (rule old)
    next
      case 2
      with owner_checks_owned [of a ld] g show ?thesis by (auto intro: chained_mono)
    next
      case 3
      then have c: "attempt_check c" "attempt_owned ld c" "attempt_chained ld c"
        using assms(2) row_of_key [OF 3(1)] by (auto simp: ledger_ok_def)
      from c 3 have "attempt_owned ld a" by (auto simp: attempt_owned_def attempt_le_def split: option.splits)
      moreover from c 3 have "attempt_chained ld a" by (simp cong: option.case_cong add: attempt_chained_def attempt_le_def)
      ultimately show ?thesis using c 3 g by (auto intro: chained_mono)
    qed
  qed
  have "distinct (map ta_attemptId (ld_attempts ld'))"
    using assms by (auto simp: attempt_effect_def ledger_ok_def intro: table_effect_distinct)
  with row o e assms(2) show ?thesis by (simp add: ledger_ok_def)
qed

lemma ledger_step_ok: "ledger_step ld ld' \<Longrightarrow> ledger_ok ld \<Longrightarrow> ledger_ok ld'"
  by (blast dest: ledger_step_effect intro: boot_effect_ok attempt_effect_ok)

lemma ledger_run_ok: "ledger_run ld ld' \<Longrightarrow> ledger_ok ld \<Longrightarrow> ledger_ok ld'"
  by (induction rule: rtranclp_induct) (auto intro: ledger_step_ok)

lemma ledger_ok_empty: "ld_boots ld = [] \<Longrightarrow> ld_attempts ld = [] \<Longrightarrow> ledger_ok ld"
  by (simp add: ledger_ok_def)

text \<open>Rows are never lost and change only forwards.\<close>

lemma ledger_step_grows:
  assumes "ledger_step ld ld'"
  shows "getBootEpochRow ld k = Some b \<Longrightarrow> \<exists>b'. getBootEpochRow ld' k = Some b' \<and> boot_le b b'"
    and "getTurnAttemptRow ld k = Some a \<Longrightarrow> \<exists>a'. getTurnAttemptRow ld' k = Some a' \<and> attempt_le a a'"
  using ledger_step_effect [OF assms] boot_effect_grows attempt_effect_grows boot_effect_attempts attempt_effect_boots
  by (metis boot_le_refl, metis attempt_le_refl)

lemma ledger_run_grows_boot:
  "ledger_run ld ld' \<Longrightarrow> getBootEpochRow ld k = Some b \<Longrightarrow> \<exists>b'. getBootEpochRow ld' k = Some b' \<and> boot_le b b'"
  by (induction rule: rtranclp_induct) (auto, meson boot_le_trans ledger_step_grows(1))

lemma ledger_run_grows_attempt:
  "ledger_run ld ld' \<Longrightarrow> getTurnAttemptRow ld k = Some a \<Longrightarrow> \<exists>a'. getTurnAttemptRow ld' k = Some a' \<and> attempt_le a a'"
  by (induction rule: rtranclp_induct) (auto, meson attempt_le_trans ledger_step_grows(2))

section \<open>Constraints of the tables\<close>

text \<open>The checks an operation makes imply the constraints of the table it writes.\<close>

definition is_constraint :: "ledger_error + 'b \<Rightarrow> bool" where
  "is_constraint r = (case r of Inl (LedgerConstraint _) \<Rightarrow> True | _ \<Rightarrow> False)"

lemma is_constraint_simps [simp]:
  "\<not> is_constraint (Inr x)" "is_constraint (Inl (LedgerConstraint m))" "\<not> is_constraint (Inl (LedgerInvalid m))"
  "\<not> is_constraint (Inl (LedgerConflict m))" "\<not> is_constraint (Inl (LedgerNotFound m))"
  "\<not> is_constraint (Inl (LedgerCorrupt m))"
  by (simp_all add: is_constraint_def)

lemma is_constraint_throw [simp]: "is_constraint (throw_if c e k) \<longleftrightarrow> (if c then is_constraint (Inl e :: ledger_error + 'b) else is_constraint (k :: ledger_error + 'b))"
  by (simp add: throw_if_def)

lemma is_constraint_found [simp]:
  "is_constraint (found v e k) \<longleftrightarrow> (case v of None \<Rightarrow> is_constraint (Inl e :: ledger_error + 'b) | Some x \<Rightarrow> is_constraint (k x :: ledger_error + 'b))"
  by (cases v) (simp_all add: found_def)

lemma is_constraint_bind:
  "is_constraint (bindE v k) \<longleftrightarrow> is_constraint v \<or> (\<exists>x. v = Inr x \<and> is_constraint (k x))"
  by (cases v) (auto simp: bindE_def is_constraint_def)

lemma is_constraint_leaf [simp]:
  "\<not> is_constraint (requiredText v l)" "\<not> is_constraint (assertTimestamp i l)"
  "\<not> is_constraint (assertPositiveInteger i l)" "\<not> is_constraint (metadata_object m)"
  by (auto simp: requiredText_def assertTimestamp_def assertPositiveInteger_def metadata_object_def Let_def
           split: option.splits json.splits)

lemma is_constraint_write [simp]:
  "is_constraint (insert_boot b ld) \<longleftrightarrow> \<not> boot_check b" "is_constraint (update_boot b ld) \<longleftrightarrow> \<not> boot_check b"
  "is_constraint (insert_attempt a ld) \<longleftrightarrow> \<not> attempt_check a" "is_constraint (update_attempt a ld) \<longleftrightarrow> \<not> attempt_check a"
  by (simp_all add: insert_boot_def update_boot_def insert_attempt_def update_attempt_def)

lemma ledger_ok_boot: "ledger_ok ld \<Longrightarrow> getBootEpochRow ld k = Some b \<Longrightarrow> boot_check b"
  by (auto simp: ledger_ok_def dest: row_of_key)

lemma ledger_ok_attempt: "ledger_ok ld \<Longrightarrow> getTurnAttemptRow ld k = Some a \<Longrightarrow> attempt_check a"
  by (auto simp: ledger_ok_def dest: row_of_key)

lemma create_boot_constraint: "\<not> is_constraint (createRuntimeBootEpoch uuid now inp ld)"
  by (simp add: createRuntimeBootEpoch_def is_constraint_bind Let_def boot_check_def split: option.split)

lemma heartbeat_boot_constraint:
  assumes "ledger_ok ld" shows "\<not> is_constraint (heartbeatRuntimeBootEpoch now k hb lease ld)"
proof -
  have "boot_check (c\<lparr>be_lastHeartbeatAt := h, be_leaseExpiresAt := l, be_updatedAt := h\<rparr>)"
    if "getBootEpochRow ld (trim k) = Some c" "be_status c = BootActive" "be_lastHeartbeatAt c \<le> h" "be_updatedAt c \<le> h" "h < l"
    for c h l
    using ledger_ok_boot [OF assms that(1)] that(2-) by (auto simp: boot_check_def)
  then show ?thesis
    by (simp add: heartbeatRuntimeBootEpoch_def is_constraint_bind split: option.split)
qed

lemma terminalize_boot_constraint:
  assumes "ledger_ok ld" "status = BootGracefulStopped \<or> status = BootAbandoned"
  shows "\<not> is_constraint (terminalizeRuntimeBootEpoch now k status t reason eh el ld)"
  using assms(2)
  by (elim disjE) (auto simp: terminalizeRuntimeBootEpoch_def is_constraint_bind Let_def boot_check_def
        split: option.splits if_splits dest!: ledger_ok_boot [OF assms(1)])

lemma create_attempt_constraint: "\<not> is_constraint (createRuntimeTurnAttempt uuid now inp ld)"
proof -
  have "\<not> is_constraint (owner_checks a ld)" for a
    by (simp add: owner_checks_def split: option.split)
  then show ?thesis
    by (simp add: createRuntimeTurnAttempt_def is_constraint_bind Let_def attempt_check_def split: option.split)
qed

lemma heartbeat_attempt_constraint:
  assumes "ledger_ok ld" shows "\<not> is_constraint (heartbeatRuntimeTurnAttempt now k e hb lease ld)"
proof -
  have "attempt_check (c\<lparr>ta_lastHeartbeatAt := h, ta_leaseExpiresAt := l, ta_updatedAt := h\<rparr>)"
    if "getTurnAttemptRow ld (trim k) = Some c" "ta_status c = Running" "ta_lastHeartbeatAt c \<le> h" "ta_updatedAt c \<le> h" "h < l"
    for c h l
    using ledger_ok_attempt [OF assms that(1)] that(2-) by (auto simp: attempt_check_def)
  then show ?thesis
    by (simp add: heartbeatRuntimeTurnAttempt_def is_constraint_bind split: option.split)
qed

lemma safety_constraint:
  assumes "ledger_ok ld" shows "\<not> is_constraint (markRuntimeTurnAttemptSafety now inp ld)"
  by (auto simp add: markRuntimeTurnAttemptSafety_def is_constraint_bind attempt_check_def
        split: option.splits if_splits dest!: ledger_ok_attempt [OF assms])

lemma terminalize_attempt_constraint:
  assumes "ledger_ok ld" shows "\<not> is_constraint (terminalizeRuntimeTurnAttempt now inp ld)"
proof -
  have "attempt_check (c\<lparr>ta_status := Ended st, ta_completedAt := Some x, ta_metadata := m, ta_updatedAt := x\<rparr>)"
    if "getTurnAttemptRow ld k = Some c" "ta_lastHeartbeatAt c \<le> x" "ta_updatedAt c \<le> x" for c x m st k
    using ledger_ok_attempt [OF assms that(1)] that(2-) by (auto simp: attempt_check_def)
  then show ?thesis
    by (simp add: terminalizeRuntimeTurnAttempt_def is_constraint_bind Let_def split: option.split)
qed

section \<open>Retries\<close>

text \<open>Merging the same properties twice gives the same canonical object.\<close>

lemma obj_set_distinct: "distinct (map fst kvs) \<Longrightarrow> distinct (map fst (obj_set k v kvs))"
  by (auto simp: obj_set_def comp_def if_distrib [of fst] cong: if_cong)

lemma obj_merge_distinct: "distinct (map fst kvs) \<Longrightarrow> distinct (map fst (obj_merge kvs new))"
  unfolding obj_merge_def by (induction new arbitrary: kvs) (auto simp: obj_set_distinct)

lemma obj_merge_other: "k \<notin> fst ` set new \<Longrightarrow> map_of (obj_merge kvs new) k = map_of kvs k"
  unfolding obj_merge_def by (induction new arbitrary: kvs) auto

lemma obj_merge_get: "distinct (map fst new) \<Longrightarrow> (k, v) \<in> set new \<Longrightarrow> map_of (obj_merge kvs new) k = Some v"
proof (induction new arbitrary: kvs)
  case (Cons p new)
  show ?case
  proof (cases "(k, v) = p")
    case True
    with Cons.prems have "k \<notin> fst ` set new" by force
    with obj_merge_other [of k new "obj_set k v kvs"] show ?thesis by (simp add: obj_merge_def flip: True)
  next
    case False
    with Cons have "map_of (obj_merge (obj_set (fst p) (snd p) kvs) new) k = Some v" by auto
    then show ?thesis by (simp add: obj_merge_def case_prod_beta)
  qed
qed simp

abbreviation sort_values :: "(string \<times> json) list \<Rightarrow> (string \<times> json) list" where
  "sort_values \<equiv> map (\<lambda>(k, v). (k, sortJson v))"

lemma sort_values_keys [simp]: "map fst (sort_values kvs) = map fst kvs"
  by (simp add: comp_def case_prod_beta)

lemma sort_values_set:
  assumes "sort_values acc = kvs" "distinct (map fst kvs)" "(k, sortJson v) \<in> set kvs"
  shows "sort_values (obj_set k v acc) = kvs"
proof -
  have keys: "map fst acc = map fst kvs" using assms(1) by (metis sort_values_keys)
  have "k \<in> fst ` set kvs" using assms(3) by force
  with keys have k: "k \<in> set (map fst acc)" by (metis list.set_map)
  have "sortJson w = sortJson v" if "(k, w) \<in> set acc" for w
  proof -
    from that have "(k, sortJson w) \<in> set kvs" using assms(1) by force
    with assms(2,3) show ?thesis by (metis eq_key_imp_eq_value)
  qed
  with k have "sort_values (obj_set k v acc) = sort_values acc" by (auto simp: obj_set_def)
  with assms(1) show ?thesis by simp
qed

lemma sort_values_merge:
  "sort_values acc = kvs \<Longrightarrow> distinct (map fst kvs) \<Longrightarrow> (\<And>k v. (k, v) \<in> set new \<Longrightarrow> (k, sortJson v) \<in> set kvs)
   \<Longrightarrow> sort_values (obj_merge acc new) = kvs"
  unfolding obj_merge_def
proof (induction new arbitrary: acc)
  case (Cons p new)
  obtain k v where p: "p = (k, v)" by force
  have "sort_values (obj_set k v acc) = kvs" using Cons.prems p by (intro sort_values_set) auto
  with Cons.IH [of "obj_set k v acc"] Cons.prems p show ?case by simp
qed simp

lemma merge_twice:
  assumes "distinct (map fst kvs)" "distinct (map fst new)"
    and m: "sortJson (JObj (obj_merge kvs new)) = JObj kvs'"
  shows "sortJson (JObj (obj_merge kvs' new)) = JObj kvs'"
proof -
  let ?m = "obj_merge kvs new"
  from m have k: "kvs' = sort_key fst (sort_values ?m)" by simp
  have d: "distinct (map fst kvs')"
  proof -
    have "distinct (map fst (sort_values ?m))" using obj_merge_distinct [OF assms(1)] by (simp only: sort_values_keys)
    then show ?thesis by (simp only: k distinct_map distinct_sort set_sort)
  qed
  have v: "(x, sortJson y) \<in> set kvs'" if "(x, y) \<in> set new" for x y
  proof -
    from obj_merge_get [OF assms(2) that, of kvs] have "(x, y) \<in> set ?m" by (rule map_of_SomeD)
    then have "(x, sortJson y) \<in> set (sort_values ?m)" by force
    then show ?thesis by (simp only: k set_sort)
  qed
  have "sort_values kvs' = kvs'" by (rule map_idI) (auto simp: k set_sort)
  from sort_values_merge [OF this d v] have "sort_values (obj_merge kvs' new) = kvs'" by simp
  moreover have "sort_key fst kvs' = kvs'" by (simp add: k sort_key_id_if_sorted)
  ultimately show ?thesis by simp
qed

section \<open>Properties of the ledger\<close>

abbreviation empty_ledger :: ledger where
  "empty_ledger \<equiv> \<lparr>ld_boots = [], ld_attempts = []\<rparr>"

lemma ledger_reachable_ok: "ledger_run empty_ledger ld \<Longrightarrow> ledger_ok ld"
  by (erule ledger_run_ok) (simp add: ledger_ok_empty)

lemma retry_create_attempt:
  assumes "createRuntimeTurnAttempt uuid now inp ld = Inr (a, ld')" "ai_attemptId inp \<noteq> None" "ai_startedAt inp \<noteq> None"
  shows "createRuntimeTurnAttempt uuid' now' inp ld' = Inr (a, ld')"
proof -
  obtain k t where kt: "ai_attemptId inp = Some k" "ai_startedAt inp = Some t" using assms by auto
  define same where "same = (\<lambda>r. same_attempt_data r)"
  have refl: "same r r" for r by (simp add: same_def same_attempt_data_def)
  have row: "getTurnAttemptRow ld' (ta_attemptId a) = Some a"
    using create_attempt_effect [OF assms(1)] by (auto simp: attempt_effect_def dest: table_effect_row)
  show ?thesis
  proof (cases "getTurnAttemptRow ld (trim k)")
    case None
    with assms(1) kt have "ta_attemptId a = trim k"
      by (auto simp: createRuntimeTurnAttempt_def Let_def)
    with None assms(1) kt row refl show ?thesis
      by (auto simp: createRuntimeTurnAttempt_def Let_def simp flip: same_def)
  next
    case (Some c)
    with assms(1) kt have "a = c \<and> ld' = ld" by (auto simp: createRuntimeTurnAttempt_def Let_def)
    with Some assms(1) kt show ?thesis by (auto simp: createRuntimeTurnAttempt_def Let_def)
  qed
qed

lemma retry_terminalize:
  assumes "terminalizeRuntimeTurnAttempt now inp ld = Inr (a, ld')" "ti_completedAt inp \<noteq> None"
    and new: "case ti_metadata inp of None \<Rightarrow> True | Some new \<Rightarrow> distinct (map fst new)"
    and old: "\<And>a kvs. a \<in> set (ld_attempts ld) \<Longrightarrow> ta_metadata a = Some (JObj kvs) \<Longrightarrow> distinct (map fst kvs)"
  shows "terminalizeRuntimeTurnAttempt now' inp ld' = Inr (a, ld')"
proof -
  obtain t where t: "ti_completedAt inp = Some t" using assms(2) by auto
  from assms(1) obtain c where c: "getTurnAttemptRow ld (trim (ti_attemptId inp)) = Some c"
    by (simp add: terminalizeRuntimeTurnAttempt_def Let_def) blast
  show ?thesis
  proof (cases "ta_status c = Ended (ti_status inp)")
    case True
    with assms(1) c have "a = c \<and> ld' = ld" by (simp add: terminalizeRuntimeTurnAttempt_def Let_def)
    with assms(1) c t show ?thesis by (simp add: terminalizeRuntimeTurnAttempt_def Let_def)
  next
    case False
    with assms(1) c t obtain kvs where k: "metadata_object (ta_metadata c) = Inr kvs"
      and a: "attempt_check a" "a = c\<lparr>ta_status := Ended (ti_status inp), ta_completedAt := Some t,
            ta_metadata := stringifyOptionalJson (Some (JObj (obj_merge kvs (nullish (ti_metadata inp) [])))),
            ta_updatedAt := t\<rparr>"
      and ld': "ld' = ld\<lparr>ld_attempts := put_row ta_attemptId a (ld_attempts ld)\<rparr>"
      and v: "trim (ti_attemptId inp) \<noteq> []" "0 \<le> t" "t \<le> MAX_SAFE_INTEGER"
      by (auto simp: terminalizeRuntimeTurnAttempt_def Let_def)
    have id: "ta_attemptId a = trim (ti_attemptId inp)" using row_of_key [OF c] a(2) by simp
    have row: "getTurnAttemptRow ld' (trim (ti_attemptId inp)) = Some a" using c id by (simp add: ld' row_of_put)
    obtain m where m: "sortJson (JObj (obj_merge kvs (nullish (ti_metadata inp) []))) = JObj m" by simp
    have d: "distinct (map fst kvs)"
      using k old row_of_key [OF c] by (auto simp: metadata_object_def split: option.splits json.splits)
    have meta: "ta_metadata a = Some (JObj m)" using a(2) m by (simp add: stringifyOptionalJson_def del: sortJson.simps)
    show ?thesis
    proof (cases "ti_metadata inp")
      case None
      with row t v a(2) show ?thesis by (simp add: terminalizeRuntimeTurnAttempt_def Let_def)
    next
      case (Some ms)
      with merge_twice [OF d, of ms m] new m have "sortJson (JObj (obj_merge m ms)) = JObj m" by simp
      with Some row t v a(2) meta show ?thesis
        by (simp add: terminalizeRuntimeTurnAttempt_def Let_def metadata_object_def stringifyOptionalJson_def del: sortJson.simps)
    qed
  qed
qed

lemma retry_heartbeat:
  assumes "heartbeatRuntimeTurnAttempt now k e hb lease ld = Inr (a, ld')" "hb \<noteq> None"
  shows "heartbeatRuntimeTurnAttempt now' k e hb lease ld' = Inr (a, ld')"
proof -
  obtain t where t: "hb = Some t" using assms by auto
  from assms(1) obtain c where c: "getTurnAttemptRow ld (trim k) = Some c"
    by (simp add: heartbeatRuntimeTurnAttempt_def) blast
  have id: "ta_attemptId c = trim k" using row_of_key [OF c] by simp
  show ?thesis
  proof (cases "t = ta_lastHeartbeatAt c \<and> lease = ta_leaseExpiresAt c")
    case True
    with assms(1) c t have "a = c \<and> ld' = ld" by (auto simp: heartbeatRuntimeTurnAttempt_def)
    with assms(1) t show ?thesis by (simp add: heartbeatRuntimeTurnAttempt_def)
  next
    case False
    with assms(1) c t have a: "a = c\<lparr>ta_lastHeartbeatAt := t, ta_leaseExpiresAt := lease, ta_updatedAt := t\<rparr>"
      "ld' = ld\<lparr>ld_attempts := put_row ta_attemptId a (ld_attempts ld)\<rparr>"
      by (auto simp: heartbeatRuntimeTurnAttempt_def)
    have "getTurnAttemptRow ld' (trim k) = Some a" using c id a by (simp add: row_of_put)
    with assms(1) c t a show ?thesis by (auto simp: heartbeatRuntimeTurnAttempt_def)
  qed
qed

lemma dead_boot_step:
  assumes "ledger_step ld ld'" "getBootEpochRow ld k = Some b" "be_status b \<noteq> BootActive"
    "a \<in> set (ld_attempts ld')" "ta_bootEpoch a = k"
  shows "\<exists>a0\<in>set (ld_attempts ld). ta_attemptId a0 = ta_attemptId a \<and> ta_bootEpoch a0 = k
           \<and> ta_leaseExpiresAt a0 = ta_leaseExpiresAt a \<and> ta_lastHeartbeatAt a0 = ta_lastHeartbeatAt a"
proof -
  from ledger_step_effect [OF assms(1)] consider x where "boot_effect x ld ld'" | x where "attempt_effect x ld ld'" by blast
  then show ?thesis
  proof cases
    case 1
    from boot_effect_attempts [OF this] assms show ?thesis by auto
  next
    case 2
    then consider "a \<in> set (ld_attempts ld)" | "owner_checks a ld = Inr ()"
      | c where "getTurnAttemptRow ld (ta_attemptId a) = Some c" "attempt_le c a"
          "a = c \<or> ta_leaseExpiresAt a = ta_leaseExpiresAt c \<and> ta_lastHeartbeatAt a = ta_lastHeartbeatAt c
           \<or> (\<exists>b. getBootEpochRow ld (ta_bootEpoch c) = Some b \<and> be_status b = BootActive)"
      using assms(4) by (auto simp: attempt_effect_def dest!: table_effect_old)
    then show ?thesis
    proof cases
      case 1
      with assms(5) show ?thesis by blast
    next
      case 2
      with assms show ?thesis by (auto simp: owner_checks_def)
    next
      case 3
      then have "ta_bootEpoch c = k" "ta_attemptId c = ta_attemptId a" "c \<in> set (ld_attempts ld)"
        using assms(5) row_of_key [OF 3(1)] by (auto simp: attempt_le_def)
      with 3(3) assms(2,3) show ?thesis by auto
    qed
  qed
qed

lemma dead_boot_frozen:
  assumes "ledger_run ld ld'" "getBootEpochRow ld k = Some b" "be_status b \<noteq> BootActive"
  shows "getBootEpochRow ld' k = Some b"
  using ledger_run_grows_boot [OF assms(1,2)] assms(3) by (auto simp: boot_le_def)

lemma dead_boot_attempts:
  "ledger_run ld ld' \<Longrightarrow> getBootEpochRow ld k = Some b \<Longrightarrow> be_status b \<noteq> BootActive
   \<Longrightarrow> a \<in> set (ld_attempts ld') \<Longrightarrow> ta_bootEpoch a = k
   \<Longrightarrow> \<exists>a0\<in>set (ld_attempts ld). ta_attemptId a0 = ta_attemptId a \<and> ta_bootEpoch a0 = k
           \<and> ta_leaseExpiresAt a0 = ta_leaseExpiresAt a \<and> ta_lastHeartbeatAt a0 = ta_lastHeartbeatAt a"
proof (induction arbitrary: a rule: rtranclp_induct)
  case (step ld1 ld2)
  from dead_boot_step [OF step.hyps(2) dead_boot_frozen [OF step.hyps(1) step.prems(1,2)] step.prems(2-4)]
  obtain a1 where "a1 \<in> set (ld_attempts ld1)" "ta_attemptId a1 = ta_attemptId a" "ta_bootEpoch a1 = k"
    "ta_leaseExpiresAt a1 = ta_leaseExpiresAt a" "ta_lastHeartbeatAt a1 = ta_lastHeartbeatAt a" by blast
  with step.IH [OF step.prems(1,2), of a1] show ?case by metis
qed auto

text \<open>A boot, an attempt in it, a marker on the attempt, its completion and the stop of the boot.\<close>

definition demo_boot :: boot_input where
  "demo_boot = \<lparr>bi_bootEpoch = Some ''b'', bi_instanceId = ''i'', bi_pid = 7, bi_startedAt = Some 10,
     bi_lastHeartbeatAt = None, bi_leaseExpiresAt = 40, bi_metadata = None\<rparr>"

definition demo_attempt :: attempt_input where
  "demo_attempt = \<lparr>ai_attemptId = Some ''a'', ai_turnId = ''t'', ai_recoveredFromAttemptId = None, ai_runId = ''r'',
     ai_sessionKey = ''s'', ai_sessionName = None, ai_agentId = ''g'', ai_provider = ''p'', ai_model = ''m'',
     ai_bootEpoch = ''b'', ai_startedAt = Some 12, ai_lastHeartbeatAt = None, ai_leaseExpiresAt = 40,
     ai_requestBlobSha256 = Some ''h'', ai_userPromptSha256 = None, ai_systemPromptSha256 = None, ai_checkpoint = None,
     ai_originKind = CHuman, ai_source = None, ai_turnProvenance = None, ai_taskBarrierTaskId = None,
     ai_deliveryBarrier = AfterResponse, ai_pendingIds = [''q''], ai_metadata = None\<rparr>"

definition demo_safety :: safety_input where
  "demo_safety = \<lparr>si_attemptId = ''a'', si_startedTool = True, si_materializedOutput = False, si_inputMutated = True,
     si_markedAt = Some 14\<rparr>"

definition demo_terminal :: terminal_input where
  "demo_terminal = \<lparr>ti_attemptId = ''a'', ti_status = TComplete, ti_completedAt = Some 20,
     ti_metadata = Some [(''cost'', JNull)]\<rparr>"

definition result_of :: "'e + 'r \<times> 'l \<Rightarrow> 'l \<Rightarrow> 'l" where
  "result_of r l = (case r of Inl _ \<Rightarrow> l | Inr (_, l') \<Rightarrow> l')"

definition demo_ledger1 :: ledger where
  "demo_ledger1 = result_of (createRuntimeBootEpoch ''u'' 10 demo_boot empty_ledger) empty_ledger"

definition demo_ledger2 :: ledger where
  "demo_ledger2 = result_of (createRuntimeTurnAttempt ''u'' 12 demo_attempt demo_ledger1) demo_ledger1"

definition demo_ledger3 :: ledger where
  "demo_ledger3 = result_of (markRuntimeTurnAttemptSafety 14 demo_safety demo_ledger2) demo_ledger2"

definition demo_ledger4 :: ledger where
  "demo_ledger4 = result_of (terminalizeRuntimeTurnAttempt 20 demo_terminal demo_ledger3) demo_ledger3"

definition demo_ledger5 :: ledger where
  "demo_ledger5 = result_of (markRuntimeBootEpochGracefulStopped 21 ''b'' None None demo_ledger4) demo_ledger4"

lemma demo_ledger_results:
  "\<not> isl (createRuntimeBootEpoch ''u'' 10 demo_boot empty_ledger)"
  "\<not> isl (createRuntimeTurnAttempt ''u'' 12 demo_attempt demo_ledger1)"
  "\<not> isl (markRuntimeTurnAttemptSafety 14 demo_safety demo_ledger2)"
  "\<not> isl (terminalizeRuntimeTurnAttempt 20 demo_terminal demo_ledger3)"
  "\<not> isl (markRuntimeBootEpochGracefulStopped 21 ''b'' None None demo_ledger4)"
  by code_simp+

lemma result_of_step: "\<not> isl r \<Longrightarrow> (\<And>x l'. r = Inr (x, l') \<Longrightarrow> ledger_step l l') \<Longrightarrow> ledger_step l (result_of r l)"
  by (cases r) (auto simp: result_of_def)

lemma demo_step1: "ledger_step empty_ledger demo_ledger1"
  unfolding demo_ledger1_def by (rule result_of_step) (rule demo_ledger_results, erule step_create_boot)

lemma demo_step2: "ledger_step demo_ledger1 demo_ledger2"
  unfolding demo_ledger2_def by (rule result_of_step) (rule demo_ledger_results, erule step_create_attempt)

lemma demo_step3: "ledger_step demo_ledger2 demo_ledger3"
  unfolding demo_ledger3_def by (rule result_of_step) (rule demo_ledger_results, erule step_mark_safety)

lemma demo_step4: "ledger_step demo_ledger3 demo_ledger4"
  unfolding demo_ledger4_def by (rule result_of_step) (rule demo_ledger_results, erule step_terminalize)

lemma demo_step5: "ledger_step demo_ledger4 demo_ledger5"
  unfolding demo_ledger5_def by (rule result_of_step) (rule demo_ledger_results, erule step_stop_boot)

lemma demo_run2: "ledger_run empty_ledger demo_ledger2"
  using demo_step1 demo_step2 by (meson rtranclp.simps)

lemma demo_run5: "ledger_run empty_ledger demo_ledger5"
  using demo_run2 demo_step3 demo_step4 demo_step5 by (meson rtranclp.simps)

text \<open>C3: In every ledger reached from an empty one, boot and attempt ids are unique and each attempt is tied to its boot: it
  started no earlier than the boot, it holds a lease that ends no later than the lease of the boot, and when the boot is
  abandoned that lease has run out by the time of the abandonment. An attempt that recovers another one continues the same
  turn of an attempt that has ended. (The safety marks and the end of an attempt do not read its boot: they can still be
  written after the boot was abandoned, while the lease itself is never renewed again.)\<close>

theorem attempt_ownership:
  assumes "ledger_run empty_ledger ld"
  shows "distinct (map be_bootEpoch (ld_boots ld)) \<and> distinct (map ta_attemptId (ld_attempts ld))
    \<and> (\<forall>a\<in>set (ld_attempts ld).
         (\<exists>b\<in>set (ld_boots ld). be_bootEpoch b = ta_bootEpoch a \<and> be_startedAt b \<le> ta_startedAt a
            \<and> ta_startedAt a \<le> ta_lastHeartbeatAt a \<and> ta_lastHeartbeatAt a < ta_leaseExpiresAt a
            \<and> ta_leaseExpiresAt a \<le> be_leaseExpiresAt b
            \<and> (be_status b = BootAbandoned \<longrightarrow> (\<exists>t. be_abandonedAt b = Some t \<and> ta_leaseExpiresAt a \<le> t)))
         \<and> (\<forall>p. ta_recoveredFromAttemptId a = Some p \<longrightarrow>
              (\<exists>q\<in>set (ld_attempts ld). ta_attemptId q = p \<and> ta_status q \<noteq> Running \<and> ta_turnId q = ta_turnId a)))"
proof -
  have ok: "ledger_ok ld" using assms by (rule ledger_reachable_ok)
  have "\<exists>b\<in>set (ld_boots ld). be_bootEpoch b = ta_bootEpoch a \<and> be_startedAt b \<le> ta_startedAt a
            \<and> ta_startedAt a \<le> ta_lastHeartbeatAt a \<and> ta_lastHeartbeatAt a < ta_leaseExpiresAt a
            \<and> ta_leaseExpiresAt a \<le> be_leaseExpiresAt b
            \<and> (be_status b = BootAbandoned \<longrightarrow> (\<exists>t. be_abandonedAt b = Some t \<and> ta_leaseExpiresAt a \<le> t))"
    if a: "a \<in> set (ld_attempts ld)" for a
  proof -
    from ok a obtain b where b: "getBootEpochRow ld (ta_bootEpoch a) = Some b" "be_startedAt b \<le> ta_startedAt a"
      "ta_leaseExpiresAt a \<le> be_leaseExpiresAt b"
      by (auto simp: ledger_ok_def attempt_owned_def split: option.splits)
    moreover have "attempt_check a" "boot_check b" using ok a ledger_ok_boot [OF ok b(1)] by (auto simp: ledger_ok_def)
    ultimately show ?thesis
      using row_of_key [OF b(1)] by (intro bexI [of _ b]) (auto simp: attempt_check_def boot_check_def)
  qed
  moreover have "\<exists>q\<in>set (ld_attempts ld). ta_attemptId q = p \<and> ta_status q \<noteq> Running \<and> ta_turnId q = ta_turnId a"
    if a: "a \<in> set (ld_attempts ld)" "ta_recoveredFromAttemptId a = Some p" for a p
  proof -
    from ok a(1) have "attempt_chained ld a" by (simp add: ledger_ok_def)
    with a(2) obtain q where "getTurnAttemptRow ld p = Some q" "ta_status q \<noteq> Running" "ta_turnId q = ta_turnId a"
      by (auto simp: attempt_chained_def split: option.splits)
    then show ?thesis using row_of_key by fast
  qed
  ultimately show ?thesis using ok by (simp add: ledger_ok_def)
qed

theorem attempt_ownership_witness:
  "\<exists>b\<in>set (ld_boots demo_ledger5). be_bootEpoch b = ''b'' \<and> be_leaseExpiresAt b \<ge> 40"
proof -
  have "\<exists>a\<in>set (ld_attempts demo_ledger5). ta_bootEpoch a = ''b'' \<and> ta_leaseExpiresAt a = 40" by code_simp
  with attempt_ownership [OF demo_run5] show ?thesis by fastforce
qed

text \<open>C19: Once a boot has stopped or was abandoned, its row never changes again and none of its attempts is created or
  renewed any more, whatever the former owner or anyone else tries.\<close>

theorem dead_boot_fenced:
  assumes "ledger_run ld ld'" "getBootEpochRow ld k = Some b" "be_status b \<noteq> BootActive"
  shows "getBootEpochRow ld' k = Some b
    \<and> (\<forall>a\<in>set (ld_attempts ld'). ta_bootEpoch a = k \<longrightarrow>
         (\<exists>a0\<in>set (ld_attempts ld). ta_attemptId a0 = ta_attemptId a \<and> ta_bootEpoch a0 = k
            \<and> ta_leaseExpiresAt a0 = ta_leaseExpiresAt a \<and> ta_lastHeartbeatAt a0 = ta_lastHeartbeatAt a))"
  using dead_boot_frozen [OF assms] dead_boot_attempts [OF assms] by blast

theorem dead_boot_fenced_witness:
  "getBootEpochRow demo_ledger5 ''b'' = Some (the (getBootEpochRow demo_ledger5 ''b''))"
proof -
  have "getBootEpochRow demo_ledger5 ''b'' = Some (the (getBootEpochRow demo_ledger5 ''b''))
      \<and> be_status (the (getBootEpochRow demo_ledger5 ''b'')) \<noteq> BootActive" by code_simp
  with dead_boot_fenced [of demo_ledger5 demo_ledger5 "''b''"] show ?thesis by blast
qed

text \<open>The ledger only moves forwards: an attempt is never lost, its identity and its queued prompts never change, its
  heartbeat and lease never move back, a safety marker that was set stays set while the attempt runs, and the row of an
  attempt that has ended is never changed again.\<close>

theorem ledger_monotone:
  assumes "ledger_run ld ld'" "getTurnAttemptRow ld k = Some a"
  shows "\<exists>a'. getTurnAttemptRow ld' k = Some a' \<and> ta_turnId a' = ta_turnId a \<and> ta_bootEpoch a' = ta_bootEpoch a
    \<and> ta_sessionKey a' = ta_sessionKey a \<and> ta_pendingIds a' = ta_pendingIds a \<and> ta_startedAt a' = ta_startedAt a
    \<and> ta_lastHeartbeatAt a \<le> ta_lastHeartbeatAt a' \<and> ta_leaseExpiresAt a \<le> ta_leaseExpiresAt a'
    \<and> (ta_startedTool a \<longrightarrow> ta_startedTool a') \<and> (ta_materializedOutput a \<longrightarrow> ta_materializedOutput a')
    \<and> (hasRuntimeTurnAttemptInputMutation a \<and> ta_status a' = Running \<longrightarrow> hasRuntimeTurnAttemptInputMutation a')
    \<and> (ta_status a \<noteq> Running \<longrightarrow> a' = a)"
  using ledger_run_grows_attempt [OF assms] by (auto simp: attempt_le_def)

theorem ledger_monotone_witness:
  "\<exists>a'. getTurnAttemptRow demo_ledger5 ''a'' = Some a' \<and> ta_pendingIds a' = [''q''] \<and> ta_startedTool a'"
proof -
  have e: "getTurnAttemptRow demo_ledger3 ''a'' = Some (the (getTurnAttemptRow demo_ledger3 ''a''))
      \<and> ta_pendingIds (the (getTurnAttemptRow demo_ledger3 ''a'')) = [''q'']
      \<and> ta_startedTool (the (getTurnAttemptRow demo_ledger3 ''a''))" by code_simp
  have "ledger_run demo_ledger3 demo_ledger5" using demo_step4 demo_step5 by (meson rtranclp.simps)
  from ledger_monotone [OF this conjunct1 [OF e]] e show ?thesis by metis
qed

text \<open>C20: The checks an operation on boots or attempts makes before it writes are as strong as the constraints of their two
  tables: in a ledger reached from an empty one, creating, renewing, marking or ending a boot or an attempt never fails in a
  constraint of the database. (The other tables are not covered: a prompt enqueued, or a claim acquired, under an id that is
  taken fails in the primary key.)\<close>

theorem ledger_never_violates_constraints:
  assumes "ledger_run empty_ledger ld"
  shows "createRuntimeBootEpoch uuid now bi ld \<noteq> Inl (LedgerConstraint m)
    \<and> heartbeatRuntimeBootEpoch now k hb lease ld \<noteq> Inl (LedgerConstraint m)
    \<and> markRuntimeBootEpochGracefulStopped now k t reason ld \<noteq> Inl (LedgerConstraint m)
    \<and> markRuntimeBootEpochAbandoned now k t reason eh el ld \<noteq> Inl (LedgerConstraint m)
    \<and> createRuntimeTurnAttempt uuid now ai ld \<noteq> Inl (LedgerConstraint m)
    \<and> heartbeatRuntimeTurnAttempt now k e hb lease ld \<noteq> Inl (LedgerConstraint m)
    \<and> markRuntimeTurnAttemptSafety now si ld \<noteq> Inl (LedgerConstraint m)
    \<and> terminalizeRuntimeTurnAttempt now ti ld \<noteq> Inl (LedgerConstraint m)"
proof -
  have ok: "ledger_ok ld" using assms by (rule ledger_reachable_ok)
  have n: "\<not> is_constraint r \<Longrightarrow> r \<noteq> Inl (LedgerConstraint m)" for r :: "ledger_error + 'b" by auto
  show ?thesis
    unfolding markRuntimeBootEpochGracefulStopped_def markRuntimeBootEpochAbandoned_def
    by (intro conjI n create_boot_constraint heartbeat_boot_constraint [OF ok] terminalize_boot_constraint [OF ok]
          create_attempt_constraint heartbeat_attempt_constraint [OF ok] safety_constraint [OF ok]
          terminalize_attempt_constraint [OF ok]) auto
qed

theorem ledger_never_violates_constraints_witness:
  "heartbeatRuntimeTurnAttempt 15 ''a'' ''b'' None 40 demo_ledger2 \<noteq> Inl (LedgerConstraint ''runtime_turn_attempts'')"
  using ledger_never_violates_constraints [OF demo_run2] by blast

text \<open>A writer that does not learn whether its write arrived may repeat it: creating an attempt, renewing it and ending it
  with the same explicit id and time returns the same row and changes nothing. JSON objects have distinct keys.\<close>

theorem ledger_retries:
  assumes "\<And>a kvs. a \<in> set (ld_attempts ld) \<Longrightarrow> ta_metadata a = Some (JObj kvs) \<Longrightarrow> distinct (map fst kvs)"
    and "case ti_metadata ti of None \<Rightarrow> True | Some new \<Rightarrow> distinct (map fst new)"
    and "ai_attemptId ai \<noteq> None" "ai_startedAt ai \<noteq> None" "ti_completedAt ti \<noteq> None"
  shows "(createRuntimeTurnAttempt uuid now ai ld = Inr (a, ld') \<longrightarrow> createRuntimeTurnAttempt uuid' now' ai ld' = Inr (a, ld'))
    \<and> (heartbeatRuntimeTurnAttempt now k e (Some hb) lease ld = Inr (a, ld') \<longrightarrow>
         heartbeatRuntimeTurnAttempt now' k e (Some hb) lease ld' = Inr (a, ld'))
    \<and> (terminalizeRuntimeTurnAttempt now ti ld = Inr (a, ld') \<longrightarrow>
         terminalizeRuntimeTurnAttempt now' ti ld' = Inr (a, ld'))"
proof (intro conjI impI)
  assume "createRuntimeTurnAttempt uuid now ai ld = Inr (a, ld')"
  then show "createRuntimeTurnAttempt uuid' now' ai ld' = Inr (a, ld')" using assms(3,4) by (rule retry_create_attempt)
next
  assume "heartbeatRuntimeTurnAttempt now k e (Some hb) lease ld = Inr (a, ld')"
  then show "heartbeatRuntimeTurnAttempt now' k e (Some hb) lease ld' = Inr (a, ld')" by (rule retry_heartbeat) simp
next
  assume "terminalizeRuntimeTurnAttempt now ti ld = Inr (a, ld')"
  then show "terminalizeRuntimeTurnAttempt now' ti ld' = Inr (a, ld')"
    using assms(5,2,1) by (rule retry_terminalize)
qed

theorem ledger_retries_witness:
  "terminalizeRuntimeTurnAttempt 99 demo_terminal demo_ledger4 = Inr (the (getTurnAttemptRow demo_ledger4 ''a''), demo_ledger4)"
proof -
  have d: "list_all (\<lambda>a. case ta_metadata a of Some (JObj kvs) \<Rightarrow> distinct (map fst kvs) | _ \<Rightarrow> True) (ld_attempts demo_ledger3)"
    by code_simp
  have o: "distinct (map fst kvs)" if "a \<in> set (ld_attempts demo_ledger3)" "ta_metadata a = Some (JObj kvs)" for a kvs
    using d that by (auto simp: list_all_iff)
  have m: "case ti_metadata demo_terminal of None \<Rightarrow> True | Some new \<Rightarrow> distinct (map fst new)"
    "ai_attemptId demo_attempt \<noteq> None" "ai_startedAt demo_attempt \<noteq> None" "ti_completedAt demo_terminal \<noteq> None"
    by code_simp+
  have t: "terminalizeRuntimeTurnAttempt 20 demo_terminal demo_ledger3 = Inr (the (getTurnAttemptRow demo_ledger4 ''a''), demo_ledger4)"
    by code_simp
  show ?thesis by (rule mp [OF conjunct2 [OF conjunct2 [OF ledger_retries]] t]) (fact o m)+
qed

end
