(* ===== verification/CrashCoordinator.thy ===== *)
theory CrashCoordinator
  imports LedgerHistory
begin

text \<open>
  The owner of the crash-recovery leases of one host process
  (\<open>src/src/runtime/crash-recovery.ts\<close>). The coordinator is a record with the fields of the class; what it
  uses of the outside (the store of the ledger, the clock, the timer) is the record \<open>crash_env\<close> of
  functions on an abstract state, exactly the options its constructor takes, so other processes may
  change the store between any two calls. A method is a function of the coordinator and that state;
  it returns or throws, and what it wrote before a throw stays. The order of reads of the clock,
  calls of the store and checks is the one of the code. The callbacks of lost attempts are recorded
  in \<open>co_notified\<close>.
\<close>

section \<open>Methods that may throw\<close>

type_synonym ('st, 'e, 'a) co_method = "'st \<Rightarrow> ('e + 'a) \<times> 'st"

definition returnC :: "'a \<Rightarrow> ('st, 'e, 'a) co_method" where
  "returnC x st = (Inr x, st)"

definition throwC :: "'e \<Rightarrow> ('st, 'e, 'a) co_method" where
  "throwC e st = (Inl e, st)"

definition bindC :: "('st, 'e, 'b) co_method \<Rightarrow> ('b \<Rightarrow> ('st, 'e, 'a) co_method) \<Rightarrow> ('st, 'e, 'a) co_method" where
  "bindC m k st = (case m st of (Inl e, st') \<Rightarrow> (Inl e, st') | (Inr x, st') \<Rightarrow> k x st')"

definition catchC :: "('st, 'e, 'a) co_method \<Rightarrow> ('e \<Rightarrow> ('st, 'e, 'a) co_method) \<Rightarrow> ('st, 'e, 'a) co_method" where
  "catchC m h st = (case m st of (Inl e, st') \<Rightarrow> h e st' | (Inr x, st') \<Rightarrow> (Inr x, st'))"

definition unlessC :: "bool \<Rightarrow> ('st, 'e, unit) co_method \<Rightarrow> ('st, 'e, unit) co_method" where
  "unlessC c m = (if c then returnC () else m)"

fun eachC :: "('b \<Rightarrow> ('st, 'e, unit) co_method) \<Rightarrow> 'b list \<Rightarrow> ('st, 'e, unit) co_method" where
  "eachC f [] = returnC ()"
| "eachC f (x # xs) = bindC (f x) (\<lambda>_. eachC f xs)"

section \<open>State\<close>

datatype coordinator_state = CoIdle | CoRunning | CoStopping | CoGracefulStopped | CoOwnershipLost

datatype co_error = CoError string | CoOwnershipLostError string | CoStoreError ledger_error

record coordinator =
  co_instanceId :: string
  co_pid :: int
  co_configuredBootEpoch :: "string option"
  co_bootMetadata :: "json option"
  co_leaseMs :: int
  co_heartbeatIntervalMs :: int
  co_state :: coordinator_state
  co_currentBoot :: "boot_epoch option"
  co_heartbeatTimer :: bool
  co_activeAttempts :: "(string \<times> attempt_row) list"
  co_ownershipLostError :: "string option"
  co_notified :: "string list"

text \<open>The clock yields \<open>None\<close> for a value that is not a safe integer; a timer may fail to be set.\<close>

record 's crash_env =
  ce_createBootEpoch :: "boot_input \<Rightarrow> 's \<Rightarrow> (ledger_error + boot_epoch) \<times> 's"
  ce_heartbeatBootEpoch :: "string \<Rightarrow> int \<Rightarrow> int \<Rightarrow> 's \<Rightarrow> (ledger_error + boot_epoch) \<times> 's"
  ce_markBootEpochGracefulStopped :: "string \<Rightarrow> int \<Rightarrow> string option \<Rightarrow> 's \<Rightarrow> (ledger_error + boot_epoch) \<times> 's"
  ce_createTurnAttempt :: "attempt_input \<Rightarrow> 's \<Rightarrow> (ledger_error + attempt_row) \<times> 's"
  ce_heartbeatTurnAttempt :: "string \<Rightarrow> string \<Rightarrow> int \<Rightarrow> int \<Rightarrow> 's \<Rightarrow> (ledger_error + attempt_row) \<times> 's"
  ce_markTurnAttemptSafety :: "safety_input \<Rightarrow> 's \<Rightarrow> (ledger_error + attempt_row) \<times> 's"
  ce_terminalizeTurnAttempt :: "terminal_input \<Rightarrow> 's \<Rightarrow> (ledger_error + attempt_row) \<times> 's"
  ce_now :: "'s \<Rightarrow> int option \<times> 's"
  ce_setInterval :: "'s \<Rightarrow> bool \<times> 's"

type_synonym ('s, 'a) co = "(coordinator \<times> 's, co_error, 'a) co_method"

definition DEFAULT_CRASH_RECOVERY_LEASE_MS :: int where
  "DEFAULT_CRASH_RECOVERY_LEASE_MS = 30000"

definition DEFAULT_CRASH_RECOVERY_HEARTBEAT_INTERVAL_MS :: int where
  "DEFAULT_CRASH_RECOVERY_HEARTBEAT_INTERVAL_MS = 10000"

definition requirePositiveInteger :: "int \<Rightarrow> string \<Rightarrow> co_error + int" where
  "requirePositiveInteger value label =
     (if \<bar>value\<bar> > MAX_SAFE_INTEGER \<or> value \<le> 0 then Inl (CoError (label @ '' must be a positive safe integer''))
      else Inr value)"

definition requireNonEmptyText :: "string \<Rightarrow> string \<Rightarrow> co_error + string" where
  "requireNonEmptyText value label =
     (let normalized = trim value
      in if normalized = [] then Inl (CoError (label @ '' must be a non-empty string'')) else Inr normalized)"

definition newCoordinator ::
  "string \<Rightarrow> int \<Rightarrow> string option \<Rightarrow> json option \<Rightarrow> int option \<Rightarrow> int option \<Rightarrow> co_error + coordinator" where
  "newCoordinator instanceIdIn pidIn bootEpoch metadata leaseIn intervalIn =
     bindE (requireNonEmptyText instanceIdIn ''instanceId'') (\<lambda>instanceId.
     bindE (requirePositiveInteger pidIn ''pid'') (\<lambda>pid.
     bindE (requirePositiveInteger (nullish leaseIn DEFAULT_CRASH_RECOVERY_LEASE_MS) ''leaseMs'') (\<lambda>leaseMs.
     bindE (requirePositiveInteger (nullish intervalIn DEFAULT_CRASH_RECOVERY_HEARTBEAT_INTERVAL_MS)
              ''heartbeatIntervalMs'') (\<lambda>interval.
     throw_if (interval \<ge> leaseMs) (CoError ''heartbeatIntervalMs must be shorter than leaseMs'') (
     Inr \<lparr>co_instanceId = instanceId, co_pid = pid, co_configuredBootEpoch = bootEpoch,
          co_bootMetadata = metadata, co_leaseMs = leaseMs, co_heartbeatIntervalMs = interval,
          co_state = CoIdle, co_currentBoot = None, co_heartbeatTimer = False, co_activeAttempts = [],
          co_ownershipLostError = None, co_notified = []\<rparr>)))))"

section \<open>Failing closed\<close>

definition enterFailClosed :: "string \<Rightarrow> coordinator \<Rightarrow> co_error \<times> coordinator" where
  "enterFailClosed message c =
     (case co_ownershipLostError c of
        Some e \<Rightarrow> if co_state c = CoOwnershipLost then (CoOwnershipLostError e, c)
                  else (CoOwnershipLostError message,
                        c\<lparr>co_state := CoOwnershipLost, co_ownershipLostError := Some message,
                          co_heartbeatTimer := False, co_activeAttempts := [],
                          co_notified := co_notified c @ map fst (co_activeAttempts c)\<rparr>)
      | None \<Rightarrow> (CoOwnershipLostError message,
                 c\<lparr>co_state := CoOwnershipLost, co_ownershipLostError := Some message,
                   co_heartbeatTimer := False, co_activeAttempts := [],
                   co_notified := co_notified c @ map fst (co_activeAttempts c)\<rparr>))"

definition failClosed :: "string \<Rightarrow> ('s, 'a) co" where
  "failClosed message = (\<lambda>(c, s). let (e, c') = enterFailClosed message c in (Inl e, (c', s)))"

definition modifyC :: "(coordinator \<Rightarrow> coordinator) \<Rightarrow> ('s, unit) co" where
  "modifyC f = (\<lambda>(c, s). (Inr (), (f c, s)))"

definition getC :: "('s, coordinator) co" where
  "getC = (\<lambda>(c, s). (Inr c, (c, s)))"

definition callC :: "('s \<Rightarrow> (ledger_error + 'a) \<times> 's) \<Rightarrow> ('s, 'a) co" where
  "callC f = (\<lambda>(c, s). case f s of (Inl e, s') \<Rightarrow> (Inl (CoStoreError e), (c, s')) | (Inr x, s') \<Rightarrow> (Inr x, (c, s')))"

section \<open>Clock and fences\<close>

definition readNow :: "('s) crash_env \<Rightarrow> ('s, int) co" where
  "readNow env = (\<lambda>(c, s). case ce_now env s of
       (None, s') \<Rightarrow> (Inl (CoError ''clock must return a non-negative safe integer''), (c, s'))
     | (Some v, s') \<Rightarrow> if v < 0 then (Inl (CoError ''clock must return a non-negative safe integer''), (c, s'))
                       else (Inr v, (c, s')))"

definition readOwnershipNow :: "('s) crash_env \<Rightarrow> ('s, int) co" where
  "readOwnershipNow env = catchC (readNow env) (\<lambda>_. failClosed ''clock failed'')"

definition readTimestamp :: "int \<Rightarrow> ('s, int) co" where
  "readTimestamp value =
     (if \<bar>value\<bar> > MAX_SAFE_INTEGER \<or> value < 0 then throwC (CoError ''timestamp must be a non-negative safe integer'')
      else returnC value)"

definition requireRunningBoot :: "('s, boot_epoch) co" where
  "requireRunningBoot = bindC getC (\<lambda>c.
     case (co_state c = CoOwnershipLost, co_ownershipLostError c) of
       (True, Some e) \<Rightarrow> throwC (CoOwnershipLostError e)
     | _ \<Rightarrow>
         (case co_currentBoot c of
            Some b \<Rightarrow> if co_state c = CoRunning \<and> be_status b = BootActive then returnC b
                      else throwC (CoError ''cannot operate from this state'')
          | None \<Rightarrow> throwC (CoError ''cannot operate from this state'')))"

definition assertBootLeaseLive :: "boot_epoch \<Rightarrow> int \<Rightarrow> ('s, unit) co" where
  "assertBootLeaseLive boot observedAt =
     (if observedAt < be_lastHeartbeatAt boot then failClosed ''clock moved behind boot ownership''
      else if observedAt \<ge> be_leaseExpiresAt boot then failClosed ''boot lease expired''
      else returnC ())"

definition observeLiveBoot :: "('s) crash_env \<Rightarrow> ('s, boot_epoch \<times> int) co" where
  "observeLiveBoot env =
     bindC requireRunningBoot (\<lambda>boot.
     bindC (readOwnershipNow env) (\<lambda>observedAt.
     bindC (assertBootLeaseLive boot observedAt) (\<lambda>_. returnC (boot, observedAt))))"

definition observeOwnedBoot :: "('s) crash_env \<Rightarrow> boot_epoch \<Rightarrow> ('s, int) co" where
  "observeOwnedBoot env boot =
     bindC getC (\<lambda>c.
     bindC (unlessC (case co_currentBoot c of
                       None \<Rightarrow> False
                     | Some b \<Rightarrow> be_bootEpoch b = be_bootEpoch boot \<and> be_status b = BootActive)
              (failClosed ''boot ownership changed'')) (\<lambda>_.
     bindC (readOwnershipNow env) (\<lambda>observedAt.
     bindC (assertBootLeaseLive boot observedAt) (\<lambda>_. returnC observedAt))))"

definition requireActiveAttempt :: "string \<Rightarrow> ('s, attempt_row) co" where
  "requireActiveAttempt attemptId = bindC getC (\<lambda>c.
     case map_of (co_activeAttempts c) attemptId of
       None \<Rightarrow> throwC (CoError ''attempt is not active in this coordinator'')
     | Some a \<Rightarrow> returnC a)"

definition requireLiveActiveAttempt :: "string \<Rightarrow> int \<Rightarrow> ('s, attempt_row) co" where
  "requireLiveActiveAttempt attemptId observedAt =
     bindC (requireActiveAttempt attemptId) (\<lambda>record.
     bindC getC (\<lambda>c.
     case co_currentBoot c of
       None \<Rightarrow> failClosed ''attempt is owned by a different boot epoch''
     | Some boot \<Rightarrow>
         if ta_bootEpoch record \<noteq> be_bootEpoch boot then failClosed ''attempt is owned by a different boot epoch''
         else if ta_leaseExpiresAt record > be_leaseExpiresAt boot then failClosed ''attempt outlived its owning boot lease''
         else if observedAt < ta_lastHeartbeatAt record then failClosed ''clock moved behind attempt ownership''
         else if observedAt \<ge> ta_leaseExpiresAt record then failClosed ''attempt lease expired before owner mutation''
         else returnC record))"

section \<open>Accepting what the store returns\<close>

definition hasSameJsonValue :: "json option \<Rightarrow> json option \<Rightarrow> bool" where
  "hasSameJsonValue left right \<longleftrightarrow> stringifyOptionalJson left = stringifyOptionalJson right"

definition hasSameAttemptIdentity :: "attempt_row \<Rightarrow> attempt_row \<Rightarrow> bool" where
  "hasSameAttemptIdentity previous new \<longleftrightarrow>
     ta_attemptId new = ta_attemptId previous \<and> ta_turnId new = ta_turnId previous
     \<and> ta_recoveredFromAttemptId new = ta_recoveredFromAttemptId previous \<and> ta_runId new = ta_runId previous
     \<and> ta_sessionKey new = ta_sessionKey previous \<and> ta_sessionName new = ta_sessionName previous
     \<and> ta_agentId new = ta_agentId previous \<and> ta_provider new = ta_provider previous
     \<and> ta_model new = ta_model previous \<and> ta_bootEpoch new = ta_bootEpoch previous
     \<and> ta_startedAt new = ta_startedAt previous \<and> ta_requestBlobSha256 new = ta_requestBlobSha256 previous
     \<and> ta_userPromptSha256 new = ta_userPromptSha256 previous
     \<and> ta_systemPromptSha256 new = ta_systemPromptSha256 previous
     \<and> hasSameJsonValue (ta_checkpoint new) (ta_checkpoint previous) \<and> ta_originKind new = ta_originKind previous
     \<and> hasSameJsonValue (ta_source new) (ta_source previous)
     \<and> hasSameJsonValue (ta_turnProvenance new) (ta_turnProvenance previous)
     \<and> ta_taskBarrierTaskId new = ta_taskBarrierTaskId previous
     \<and> ta_deliveryBarrier new = ta_deliveryBarrier previous \<and> ta_pendingIds new = ta_pendingIds previous
     \<and> ta_recoveryClaimId new = ta_recoveryClaimId previous \<and> ta_recoveryStatus new = ta_recoveryStatus previous
     \<and> ta_recoveryReason new = ta_recoveryReason previous \<and> ta_recoveryRunId new = ta_recoveryRunId previous
     \<and> ta_recoveredAt new = ta_recoveredAt previous \<and> ta_createdAt new = ta_createdAt previous"

definition validNewBoot :: "coordinator \<Rightarrow> int \<Rightarrow> boot_epoch \<Rightarrow> bool" where
  "validNewBoot c startedAt boot \<longleftrightarrow>
     trim (be_bootEpoch boot) \<noteq> [] \<and> be_status boot = BootActive
     \<and> (co_configuredBootEpoch c = None \<or> Some (be_bootEpoch boot) = co_configuredBootEpoch c)
     \<and> be_instanceId boot = co_instanceId c \<and> be_pid boot = co_pid c \<and> be_startedAt boot = startedAt
     \<and> be_lastHeartbeatAt boot = startedAt \<and> be_leaseExpiresAt boot = startedAt + co_leaseMs c
     \<and> be_gracefulStoppedAt boot = None \<and> be_abandonedAt boot = None \<and> be_stopReason boot = None
     \<and> hasSameJsonValue (be_metadata boot) (co_bootMetadata c)
     \<and> be_createdAt boot = startedAt \<and> be_updatedAt boot = startedAt"

definition validRenewedBoot :: "coordinator \<Rightarrow> boot_epoch \<Rightarrow> int \<Rightarrow> boot_epoch \<Rightarrow> bool" where
  "validRenewedBoot c boot heartbeatAt renewed \<longleftrightarrow>
     be_status renewed = BootActive \<and> be_bootEpoch renewed = be_bootEpoch boot
     \<and> be_instanceId renewed = be_instanceId boot \<and> be_pid renewed = be_pid boot
     \<and> be_startedAt renewed = be_startedAt boot \<and> be_lastHeartbeatAt renewed = heartbeatAt
     \<and> be_leaseExpiresAt renewed = heartbeatAt + co_leaseMs c \<and> be_gracefulStoppedAt renewed = None
     \<and> be_abandonedAt renewed = None \<and> be_stopReason renewed = None
     \<and> hasSameJsonValue (be_metadata renewed) (be_metadata boot)
     \<and> be_createdAt renewed = be_createdAt boot \<and> be_updatedAt renewed = heartbeatAt"

definition validRenewedAttempt :: "attempt_row \<Rightarrow> int \<Rightarrow> int \<Rightarrow> attempt_row \<Rightarrow> bool" where
  "validRenewedAttempt previous heartbeatAt lease attempt \<longleftrightarrow>
     ta_status attempt = Running \<and> hasSameAttemptIdentity previous attempt
     \<and> ta_lastHeartbeatAt attempt = heartbeatAt \<and> ta_leaseExpiresAt attempt = lease
     \<and> ta_completedAt attempt = None \<and> ta_startedTool attempt = ta_startedTool previous
     \<and> ta_materializedOutput attempt = ta_materializedOutput previous
     \<and> hasSameJsonValue (ta_metadata attempt) (ta_metadata previous) \<and> ta_updatedAt attempt = heartbeatAt"

definition validNewAttempt :: "boot_epoch \<Rightarrow> int \<Rightarrow> int \<Rightarrow> attempt_input \<Rightarrow> attempt_row \<Rightarrow> bool" where
  "validNewAttempt boot observedAt startedAt inp a \<longleftrightarrow>
     trim (ta_attemptId a) \<noteq> [] \<and> ta_status a = Running
     \<and> (ai_attemptId inp = None \<or> Some (ta_attemptId a) = ai_attemptId inp) \<and> ta_turnId a = ai_turnId inp
     \<and> ta_recoveredFromAttemptId a = ai_recoveredFromAttemptId inp \<and> ta_runId a = ai_runId inp
     \<and> ta_sessionKey a = ai_sessionKey inp \<and> ta_sessionName a = ai_sessionName inp \<and> ta_agentId a = ai_agentId inp
     \<and> ta_provider a = ai_provider inp \<and> ta_model a = ai_model inp \<and> ta_bootEpoch a = be_bootEpoch boot
     \<and> ta_startedAt a = startedAt \<and> \<bar>ta_leaseExpiresAt a\<bar> \<le> MAX_SAFE_INTEGER
     \<and> ta_leaseExpiresAt a \<le> be_leaseExpiresAt boot \<and> observedAt < ta_leaseExpiresAt a
     \<and> ta_lastHeartbeatAt a = observedAt \<and> ta_completedAt a = None
     \<and> ta_requestBlobSha256 a = ai_requestBlobSha256 inp \<and> ta_userPromptSha256 a = ai_userPromptSha256 inp
     \<and> ta_systemPromptSha256 a = ai_systemPromptSha256 inp \<and> hasSameJsonValue (ta_checkpoint a) (ai_checkpoint inp)
     \<and> ta_originKind a = ai_originKind inp \<and> hasSameJsonValue (ta_source a) (ai_source inp)
     \<and> hasSameJsonValue (ta_turnProvenance a) (ai_turnProvenance inp)
     \<and> ta_taskBarrierTaskId a = ai_taskBarrierTaskId inp \<and> ta_deliveryBarrier a = ai_deliveryBarrier inp
     \<and> ta_pendingIds a = ai_pendingIds inp \<and> \<not> ta_startedTool a \<and> \<not> ta_materializedOutput a
     \<and> ta_recoveryClaimId a = None \<and> ta_recoveryStatus a = None \<and> ta_recoveryReason a = None
     \<and> ta_recoveryRunId a = None \<and> ta_recoveredAt a = None \<and> hasSameJsonValue (ta_metadata a) (ai_metadata inp)
     \<and> ta_createdAt a = startedAt \<and> ta_updatedAt a = startedAt"

text \<open>The properties of a metadata record, none when it is null.\<close>

definition record_props :: "json option \<Rightarrow> (string \<times> json) list" where
  "record_props m = (case m of Some (JObj kvs) \<Rightarrow> kvs | _ \<Rightarrow> [])"

definition validMarkedAttempt :: "attempt_row \<Rightarrow> safety_input \<Rightarrow> int \<Rightarrow> attempt_row \<Rightarrow> bool" where
  "validMarkedAttempt previous inp markedAt a \<longleftrightarrow>
     ta_status a = Running \<and> hasSameAttemptIdentity previous a
     \<and> ta_lastHeartbeatAt a = ta_lastHeartbeatAt previous \<and> ta_leaseExpiresAt a = ta_leaseExpiresAt previous
     \<and> (ta_startedTool a \<longleftrightarrow> ta_startedTool previous \<or> si_startedTool inp)
     \<and> (ta_materializedOutput a \<longleftrightarrow> ta_materializedOutput previous \<or> si_materializedOutput inp)
     \<and> hasSameJsonValue (ta_metadata a)
         (if si_inputMutated inp
          then Some (JObj (obj_set INPUT_MUTATED_KEY (JBool True) (record_props (ta_metadata previous))))
          else ta_metadata previous)
     \<and> ta_updatedAt a = markedAt"

definition validEndedAttempt ::
  "attempt_row \<Rightarrow> terminal_status \<Rightarrow> (string \<times> json) list \<Rightarrow> int \<Rightarrow> attempt_row \<Rightarrow> bool" where
  "validEndedAttempt previous status metadata completedAt a \<longleftrightarrow>
     ta_status a = Ended status \<and> hasSameAttemptIdentity previous a
     \<and> ta_lastHeartbeatAt a = ta_lastHeartbeatAt previous \<and> ta_leaseExpiresAt a = ta_leaseExpiresAt previous
     \<and> ta_completedAt a = Some completedAt \<and> (ta_startedTool a \<longleftrightarrow> ta_startedTool previous)
     \<and> (ta_materializedOutput a \<longleftrightarrow> ta_materializedOutput previous)
     \<and> hasSameJsonValue (ta_metadata a) (Some (JObj (obj_merge (record_props (ta_metadata previous)) metadata)))
     \<and> ta_updatedAt a = completedAt"

definition validStoppedBoot :: "boot_epoch \<Rightarrow> int \<Rightarrow> string option \<Rightarrow> boot_epoch \<Rightarrow> bool" where
  "validStoppedBoot boot stoppedAt reason stopped \<longleftrightarrow>
     be_status stopped = BootGracefulStopped \<and> be_bootEpoch stopped = be_bootEpoch boot
     \<and> be_instanceId stopped = be_instanceId boot \<and> be_pid stopped = be_pid boot
     \<and> be_startedAt stopped = be_startedAt boot \<and> be_lastHeartbeatAt stopped = be_lastHeartbeatAt boot
     \<and> be_leaseExpiresAt stopped = be_leaseExpiresAt boot \<and> be_gracefulStoppedAt stopped = Some stoppedAt
     \<and> be_abandonedAt stopped = None \<and> be_stopReason stopped = optionalText reason
     \<and> hasSameJsonValue (be_metadata stopped) (be_metadata boot)
     \<and> be_createdAt stopped = be_createdAt boot \<and> be_updatedAt stopped = stoppedAt"

section \<open>Operations\<close>

definition set_active :: "string \<Rightarrow> attempt_row \<Rightarrow> ('s, unit) co" where
  "set_active k a = modifyC (\<lambda>c. c\<lparr>co_activeAttempts := obj_set k a (co_activeAttempts c)\<rparr>)"

definition acceptingDeliveries :: "('s) crash_env \<Rightarrow> coordinator \<times> 's \<Rightarrow> bool \<times> 's" where
  "acceptingDeliveries env = (\<lambda>(c, s).
     case co_currentBoot c of
       None \<Rightarrow> (False, s)
     | Some boot \<Rightarrow>
         if co_state c \<noteq> CoRunning \<or> be_status boot \<noteq> BootActive then (False, s)
         else (case ce_now env s of
                 (None, s') \<Rightarrow> (False, s')
               | (Some t, s') \<Rightarrow> (be_lastHeartbeatAt boot \<le> t \<and> t < be_leaseExpiresAt boot, s')))"

definition start :: "('s) crash_env \<Rightarrow> ('s, boot_epoch) co" where
  "start env =
     bindC getC (\<lambda>c.
     bindC (unlessC (co_state c = CoIdle) (throwC (CoError ''cannot start from this state''))) (\<lambda>_.
     bindC (readNow env) (\<lambda>startedAt.
     bindC (callC (ce_createBootEpoch env
       \<lparr>bi_bootEpoch = co_configuredBootEpoch c, bi_instanceId = co_instanceId c, bi_pid = co_pid c,
        bi_startedAt = Some startedAt, bi_lastHeartbeatAt = Some startedAt,
        bi_leaseExpiresAt = startedAt + co_leaseMs c, bi_metadata = co_bootMetadata c\<rparr>)) (\<lambda>boot.
     bindC (unlessC (validNewBoot c startedAt boot) (throwC (CoError ''store returned a non-live boot epoch''))) (\<lambda>_.
     bindC (modifyC (\<lambda>c. c\<lparr>co_currentBoot := Some boot, co_state := CoRunning\<rparr>)) (\<lambda>_.
     bindC (observeLiveBoot env) (\<lambda>_.
     bindC (\<lambda>(c, s). case ce_setInterval env s of
              (True, s') \<Rightarrow> (Inr (), (c\<lparr>co_heartbeatTimer := True\<rparr>, s'))
            | (False, s') \<Rightarrow> failClosed ''Failed to start the crash recovery heartbeat timer'' (c, s')) (\<lambda>_.
     returnC boot))))))))"

text \<open>
  Publishing a record the store returned: the fences are checked against the previous record first,
  so that a stalled write cannot revive a lease that has expired, and again on the new one.
\<close>

definition publish_attempt :: "('s) crash_env \<Rightarrow> string \<Rightarrow> attempt_row \<Rightarrow> ('s, attempt_row) co" where
  "publish_attempt env attemptId attempt =
     bindC (observeLiveBoot env) (\<lambda>(_, observedAt).
     bindC (requireLiveActiveAttempt attemptId observedAt) (\<lambda>_.
     bindC (set_active attemptId attempt) (\<lambda>_.
     requireLiveActiveAttempt attemptId observedAt)))"

text \<open>Renewing one attempt; \<open>activeAttempt.record\<close> is the attempt the map holds under its id.\<close>

definition heartbeat_attempt :: "('s) crash_env \<Rightarrow> string \<Rightarrow> ('s, unit) co" where
  "heartbeat_attempt env attemptId =
     bindC (observeLiveBoot env) (\<lambda>(liveBoot, heartbeatAt).
     bindC (requireLiveActiveAttempt attemptId heartbeatAt) (\<lambda>record.
     bindC getC (\<lambda>c.
     let lease = min (heartbeatAt + co_leaseMs c) (be_leaseExpiresAt liveBoot) in
     catchC
       (bindC (callC (ce_heartbeatTurnAttempt env attemptId (be_bootEpoch liveBoot) heartbeatAt lease)) (\<lambda>attempt.
        bindC (unlessC (validRenewedAttempt record heartbeatAt lease attempt)
                 (throwC (CoError ''store returned an invalid renewed attempt''))) (\<lambda>_.
        bindC (publish_attempt env attemptId attempt) (\<lambda>_. returnC ()))))
       (\<lambda>_. failClosed ''Lost crash recovery attempt ownership''))))"

definition heartbeatNow :: "('s) crash_env \<Rightarrow> ('s, boot_epoch) co" where
  "heartbeatNow env =
     bindC (observeLiveBoot env) (\<lambda>(boot, heartbeatAt).
     bindC getC (\<lambda>c.
     bindC (catchC (callC (ce_heartbeatBootEpoch env (be_bootEpoch boot) heartbeatAt (heartbeatAt + co_leaseMs c)))
              (\<lambda>_. failClosed ''Lost crash recovery boot ownership'')) (\<lambda>renewedBoot.
     bindC (unlessC (validRenewedBoot c boot heartbeatAt renewedBoot) (failClosed ''boot was not renewed as active'')) (\<lambda>_.
     bindC (observeOwnedBoot env boot) (\<lambda>renewedBootObservedAt.
     bindC (modifyC (\<lambda>c. c\<lparr>co_currentBoot := Some renewedBoot\<rparr>)) (\<lambda>_.
     bindC (assertBootLeaseLive renewedBoot renewedBootObservedAt) (\<lambda>_.
     bindC getC (\<lambda>c'.
     bindC (eachC (heartbeat_attempt env) (map fst (co_activeAttempts c'))) (\<lambda>_.
     returnC renewedBoot)))))))))"

text \<open>Taking a new attempt in; it is live only if both fences still hold after the write.\<close>

definition register_attempt :: "('s) crash_env \<Rightarrow> attempt_row \<Rightarrow> ('s, attempt_row) co" where
  "register_attempt env attempt =
     bindC (set_active (ta_attemptId attempt) attempt) (\<lambda>_.
     bindC (observeLiveBoot env) (\<lambda>(_, persistedAt).
     requireLiveActiveAttempt (ta_attemptId attempt) persistedAt))"

definition startTurnAttempt :: "('s) crash_env \<Rightarrow> attempt_input \<Rightarrow> ('s, attempt_row) co" where
  "startTurnAttempt env inp =
     bindC (observeLiveBoot env) (\<lambda>(boot, observedAt).
     bindC (case ai_startedAt inp of None \<Rightarrow> returnC observedAt | Some t \<Rightarrow> readTimestamp t) (\<lambda>startedAt.
     bindC (unlessC (startedAt \<le> observedAt) (throwC (CoError ''startedAt cannot be after the current ownership observation''))) (\<lambda>_.
     bindC getC (\<lambda>c.
     let lease = min (observedAt + co_leaseMs c) (be_leaseExpiresAt boot) in
     bindC (unlessC (observedAt < lease) (failClosed ''No live crash recovery lease remains'')) (\<lambda>_.
     bindC (catchC (callC (ce_createTurnAttempt env (inp\<lparr>ai_bootEpoch := be_bootEpoch boot,
              ai_startedAt := Some startedAt, ai_lastHeartbeatAt := Some observedAt, ai_leaseExpiresAt := lease\<rparr>)))
              (\<lambda>_. failClosed ''Lost crash recovery ownership while creating an attempt'')) (\<lambda>attempt.
     bindC (unlessC (validNewAttempt boot observedAt startedAt inp attempt)
              (failClosed ''store returned an invalid new attempt'')) (\<lambda>_.
     register_attempt env attempt)))))))"

definition markTurnAttemptSafety :: "('s) crash_env \<Rightarrow> safety_input \<Rightarrow> ('s, attempt_row) co" where
  "markTurnAttemptSafety env inp =
     bindC (observeLiveBoot env) (\<lambda>(_, observedAt).
     bindC (requireLiveActiveAttempt (si_attemptId inp) observedAt) (\<lambda>record.
     bindC (unlessC (si_startedTool inp \<or> si_materializedOutput inp \<or> si_inputMutated inp)
              (throwC (CoError ''At least one monotonic safety marker must be set''))) (\<lambda>_.
     if (si_startedTool inp \<longrightarrow> ta_startedTool record) \<and> (si_materializedOutput inp \<longrightarrow> ta_materializedOutput record)
        \<and> (si_inputMutated inp \<longrightarrow> hasRuntimeTurnAttemptInputMutation record)
     then returnC record
     else
     bindC (case si_markedAt inp of None \<Rightarrow> returnC observedAt | Some t \<Rightarrow> readTimestamp t) (\<lambda>markedAt.
     bindC (unlessC (markedAt \<le> observedAt) (throwC (CoError ''markedAt cannot be after the current ownership observation''))) (\<lambda>_.
     bindC (catchC (callC (ce_markTurnAttemptSafety env (inp\<lparr>si_markedAt := Some markedAt\<rparr>)))
              (\<lambda>_. failClosed ''Lost crash recovery safety marker fence'')) (\<lambda>attempt.
     bindC (unlessC (validMarkedAttempt record inp markedAt attempt)
              (failClosed ''store returned an invalid marked attempt'')) (\<lambda>_.
     publish_attempt env (si_attemptId inp) attempt)))))))"

text \<open>Publishing the ended record and dropping the attempt from the active ones.\<close>

definition retire_attempt :: "string \<Rightarrow> int \<Rightarrow> attempt_row \<Rightarrow> ('s, unit) co" where
  "retire_attempt attemptId persistedAt attempt =
     bindC (requireLiveActiveAttempt attemptId persistedAt) (\<lambda>_.
     bindC (set_active attemptId attempt) (\<lambda>_.
     bindC (requireLiveActiveAttempt attemptId persistedAt) (\<lambda>_.
     modifyC (\<lambda>c. c\<lparr>co_activeAttempts := obj_del attemptId (co_activeAttempts c)\<rparr>))))"

definition settle_attempt :: "('s) crash_env \<Rightarrow> string \<Rightarrow> attempt_row \<Rightarrow> ('s, attempt_row) co" where
  "settle_attempt env attemptId attempt =
     bindC (observeLiveBoot env) (\<lambda>(_, persistedAt).
     bindC (retire_attempt attemptId persistedAt attempt) (\<lambda>_. returnC attempt))"

definition terminalizeTurnAttempt :: "('s) crash_env \<Rightarrow> terminal_input \<Rightarrow> ('s, attempt_row) co" where
  "terminalizeTurnAttempt env inp =
     bindC (observeLiveBoot env) (\<lambda>(_, observedAt).
     bindC (requireLiveActiveAttempt (ti_attemptId inp) observedAt) (\<lambda>record.
     bindC (case ti_completedAt inp of None \<Rightarrow> returnC observedAt | Some t \<Rightarrow> readTimestamp t) (\<lambda>completedAt.
     bindC (unlessC (completedAt \<le> observedAt) (throwC (CoError ''completedAt cannot be after the current ownership observation''))) (\<lambda>_.
     bindC (catchC (callC (ce_terminalizeTurnAttempt env (inp\<lparr>ti_completedAt := Some completedAt\<rparr>)))
              (\<lambda>_. failClosed ''Lost crash recovery terminal fence'')) (\<lambda>attempt.
     bindC (unlessC (validEndedAttempt record (ti_status inp) (nullish (ti_metadata inp) []) completedAt attempt)
              (failClosed ''store did not terminalize attempt'')) (\<lambda>_.
     settle_attempt env (ti_attemptId inp) attempt))))))"

definition abort_attempt :: "('s) crash_env \<Rightarrow> boot_epoch \<Rightarrow> string \<times> attempt_row \<Rightarrow> ('s, unit) co" where
  "abort_attempt env boot = (\<lambda>(attemptId, record).
     bindC (observeOwnedBoot env boot) (\<lambda>observedAt.
     bindC (requireLiveActiveAttempt attemptId observedAt) (\<lambda>_.
     bindC (callC (ce_terminalizeTurnAttempt env
              \<lparr>ti_attemptId = attemptId, ti_status = TAborted, ti_completedAt = Some observedAt, ti_metadata = None\<rparr>)) (\<lambda>attempt.
     bindC (unlessC (validEndedAttempt record TAborted [] observedAt attempt)
              (throwC (CoError ''store did not abort attempt''))) (\<lambda>_.
     bindC (observeOwnedBoot env boot) (\<lambda>persistedAt.
     retire_attempt attemptId persistedAt attempt))))))"

text \<open>The guarded part of a graceful stop.\<close>

definition stop_body :: "('s) crash_env \<Rightarrow> boot_epoch \<Rightarrow> string option \<Rightarrow> ('s, boot_epoch) co" where
  "stop_body env boot reason =
     bindC getC (\<lambda>c.
      bindC (eachC (abort_attempt env boot) (co_activeAttempts c)) (\<lambda>_.
      bindC (observeOwnedBoot env boot) (\<lambda>stoppedAt.
      bindC (callC (ce_markBootEpochGracefulStopped env (be_bootEpoch boot) stoppedAt reason)) (\<lambda>stoppedBoot.
      bindC (unlessC (validStoppedBoot boot stoppedAt reason stoppedBoot)
               (throwC (CoError ''store did not gracefully stop boot''))) (\<lambda>_.
      bindC (observeOwnedBoot env boot) (\<lambda>_.
      bindC (modifyC (\<lambda>c. c\<lparr>co_currentBoot := Some stoppedBoot, co_state := CoGracefulStopped\<rparr>)) (\<lambda>_.
      returnC stoppedBoot)))))))"

definition stopGracefully :: "('s) crash_env \<Rightarrow> string option \<Rightarrow> ('s, boot_epoch) co" where
  "stopGracefully env reason =
     bindC getC (\<lambda>c.
     case (co_state c = CoGracefulStopped, co_currentBoot c) of
       (True, Some b) \<Rightarrow> returnC b
     | _ \<Rightarrow>
     bindC (observeLiveBoot env) (\<lambda>(boot, _).
     bindC (modifyC (\<lambda>c. c\<lparr>co_state := CoStopping, co_heartbeatTimer := False\<rparr>)) (\<lambda>_.
     catchC
       (stop_body env boot reason)
       (\<lambda>_. failClosed ''Failed to gracefully stop crash recovery boot''))))"

end
