(* ===== verification/CoordinatorSafety.thy ===== *)
theory CoordinatorSafety
  imports CrashCoordinator
begin

text \<open>
  What the crash-recovery coordinator guarantees. Methods are verified with weakest preconditions
  (\<open>wp\<close>). Every operation is a run of atomic steps (\<open>lease_step\<close>), each one write of the ledger made
  under a live lease together with the record the coordinator publishes for it; on an error the
  coordinator is unchanged or fenced. The locale \<open>crash_reads\<close> is what any environment gives, the
  locale \<open>crash_store\<close> adds what the ledger promises, and is interpreted by the ledger of \<open>CrashLedger\<close>.
\<close>

section \<open>Weakest preconditions\<close>

text \<open>\<open>wp m Q E st\<close>: run from \<open>st\<close>, the method ends in \<open>Q\<close> when it returns and in \<open>E\<close> when it throws.\<close>

definition wp ::
  "('st, 'e, 'a) co_method \<Rightarrow> ('a \<Rightarrow> 'st \<Rightarrow> bool) \<Rightarrow> ('e \<Rightarrow> 'st \<Rightarrow> bool) \<Rightarrow> 'st \<Rightarrow> bool" where
  "wp m Q E st = (case m st of (Inl e, st') \<Rightarrow> E e st' | (Inr x, st') \<Rightarrow> Q x st')"

lemma wp_return [simp]: "wp (returnC x) Q E = Q x"
  by (simp add: wp_def returnC_def fun_eq_iff)

lemma wp_throw [simp]: "wp (throwC e) Q E = E e"
  by (simp add: wp_def throwC_def fun_eq_iff)

lemma wp_bind [simp]: "wp (bindC m k) Q E = wp m (\<lambda>x. wp (k x) Q E) E"
  by (simp add: wp_def bindC_def fun_eq_iff split: prod.split sum.split)

lemma wp_catch [simp]: "wp (catchC m h) Q E = wp m Q (\<lambda>e. wp (h e) Q E)"
  by (simp add: wp_def catchC_def fun_eq_iff split: prod.split sum.split)

lemma wp_unless [simp]: "wp (unlessC c m) Q E = (if c then Q () else wp m Q E)"
  by (simp add: unlessC_def)

lemma wp_get [simp]: "wp getC Q E = (\<lambda>(c, s). Q c (c, s))"
  by (simp add: wp_def getC_def fun_eq_iff)

lemma wp_modify [simp]: "wp (modifyC f) Q E = (\<lambda>(c, s). Q () (f c, s))"
  by (simp add: wp_def modifyC_def fun_eq_iff)

lemma wp_set_active [simp]:
  "wp (set_active k a) Q E = (\<lambda>(c, s). Q () (c\<lparr>co_activeAttempts := obj_set k a (co_activeAttempts c)\<rparr>, s))"
  by (simp add: set_active_def)

lemma wp_call:
  "(\<And>x s'. f s = (Inr x, s') \<Longrightarrow> Q x (c, s')) \<Longrightarrow> (\<And>e s'. f s = (Inl e, s') \<Longrightarrow> E (CoStoreError e) (c, s'))
   \<Longrightarrow> wp (callC f) Q E (c, s)"
  by (simp add: wp_def callC_def split: prod.split sum.split)

lemma wp_mono:
  "wp m Q E st \<Longrightarrow> (\<And>x st'. Q x st' \<Longrightarrow> Q' x st') \<Longrightarrow> (\<And>e st'. E e st' \<Longrightarrow> E' e st') \<Longrightarrow> wp m Q' E' st"
  by (simp add: wp_def split: prod.splits sum.splits)

lemma wp_each:
  assumes "I xs st" "\<And>x xs st. I (x # xs) st \<Longrightarrow> wp (f x) (\<lambda>_. I xs) E st"
  shows "wp (eachC f xs) (\<lambda>_. I []) E st"
  using assms(1)
proof (induction xs arbitrary: st)
  case (Cons x xs)
  show ?case using assms(2) [OF Cons.prems] Cons.IH by (auto intro: wp_mono)
qed simp

lemma wp_conj: "wp m Q E st \<Longrightarrow> wp m Q' E' st \<Longrightarrow> wp m (\<lambda>x st. Q x st \<and> Q' x st) (\<lambda>e st. E e st \<and> E' e st) st"
  by (simp add: wp_def split: prod.splits sum.splits)

text \<open>What a proved method gives about a concrete run of it.\<close>

lemma wp_Inr: "wp m Q E st \<Longrightarrow> m st = (Inr x, st') \<Longrightarrow> Q x st'"
  by (simp add: wp_def)

lemma wp_Inl: "wp m Q E st \<Longrightarrow> m st = (Inl e, st') \<Longrightarrow> E e st'"
  by (simp add: wp_def)

section \<open>Invariant of the coordinator\<close>

definition holds_attempt :: "boot_epoch option \<Rightarrow> string \<times> attempt_row \<Rightarrow> bool" where
  "holds_attempt boot = (\<lambda>(k, a). ta_attemptId a = k \<and> ta_status a = Running
     \<and> (case boot of None \<Rightarrow> False
        | Some b \<Rightarrow> ta_bootEpoch a = be_bootEpoch b \<and> ta_leaseExpiresAt a \<le> be_leaseExpiresAt b))"

definition co_live :: "coordinator \<Rightarrow> bool" where
  "co_live c \<longleftrightarrow> distinct (map fst (co_activeAttempts c)) \<and> co_ownershipLostError c = None
     \<and> (case co_currentBoot c of None \<Rightarrow> False
        | Some b \<Rightarrow> be_status b = BootActive \<and> be_leaseExpiresAt b = be_lastHeartbeatAt b + co_leaseMs c)
     \<and> list_all (holds_attempt (co_currentBoot c)) (co_activeAttempts c)"

definition co_ok :: "coordinator \<Rightarrow> bool" where
  "co_ok c \<longleftrightarrow>
     (case co_state c of
        CoIdle \<Rightarrow> co_currentBoot c = None \<and> co_activeAttempts c = [] \<and> \<not> co_heartbeatTimer c \<and> co_ownershipLostError c = None
      | CoRunning \<Rightarrow> co_live c
      | CoStopping \<Rightarrow> co_live c \<and> \<not> co_heartbeatTimer c
      | CoGracefulStopped \<Rightarrow> co_activeAttempts c = [] \<and> \<not> co_heartbeatTimer c \<and> co_ownershipLostError c = None
          \<and> (case co_currentBoot c of None \<Rightarrow> False | Some b \<Rightarrow> be_status b = BootGracefulStopped)
      | CoOwnershipLost \<Rightarrow> co_activeAttempts c = [] \<and> \<not> co_heartbeatTimer c \<and> co_ownershipLostError c \<noteq> None)"

text \<open>The coordinator after losing ownership: nothing is active, and every attempt that was has been told.\<close>

definition fence :: "string \<Rightarrow> coordinator \<Rightarrow> coordinator" where
  "fence message c = c\<lparr>co_state := CoOwnershipLost, co_ownershipLostError := Some message,
     co_heartbeatTimer := False, co_activeAttempts := [], co_notified := co_notified c @ map fst (co_activeAttempts c)\<rparr>"

definition fenced :: "coordinator \<Rightarrow> coordinator \<Rightarrow> bool" where
  "fenced c c' \<longleftrightarrow> (\<exists>message. c' = fence message c)"

lemma fenced_fields:
  "fenced c c' \<Longrightarrow> co_state c' = CoOwnershipLost \<and> co_ownershipLostError c' \<noteq> None \<and> \<not> co_heartbeatTimer c'
     \<and> co_activeAttempts c' = [] \<and> co_notified c' = co_notified c @ map fst (co_activeAttempts c)"
  by (auto simp: fenced_def fence_def)

lemma fenced_ok: "fenced c c' \<Longrightarrow> co_ok c'"
  by (auto dest: fenced_fields simp: co_ok_def)

lemma fenced_trans: "fenced c c1 \<Longrightarrow> co_state c1 \<noteq> CoOwnershipLost \<Longrightarrow> P"
  by (auto dest: fenced_fields)

lemma enterFailClosed_fence [simp]:
  "co_ownershipLostError c = None \<Longrightarrow> enterFailClosed m c = (CoOwnershipLostError m, fence m c)"
  by (simp add: enterFailClosed_def fence_def)

lemma enterFailClosed_again [simp]:
  "co_state c = CoOwnershipLost \<Longrightarrow> co_ownershipLostError c = Some e \<Longrightarrow> enterFailClosed m c = (CoOwnershipLostError e, c)"
  by (simp add: enterFailClosed_def)

lemma wp_failClosed:
  "co_ownershipLostError c = None \<Longrightarrow> (\<And>e c'. fenced c c' \<Longrightarrow> E e (c', s)) \<Longrightarrow> wp (failClosed m) Q E (c, s)"
proof -
  assume "co_ownershipLostError c = None" and e: "\<And>e c'. fenced c c' \<Longrightarrow> E e (c', s)"
  moreover have "fenced c (fence m c)" by (auto simp: fenced_def)
  ultimately show ?thesis by (simp add: wp_def failClosed_def e)
qed

lemma wp_failClosed_again:
  "fenced c0 c \<Longrightarrow> (\<And>e. E e (c, s)) \<Longrightarrow> wp (failClosed m) Q E (c, s)"
  by (auto simp: wp_def failClosed_def Let_def dest!: fenced_fields)

section \<open>The interface of the environment\<close>

text \<open>
  Reading the clock and setting the timer do not change what the store shows. For an arbitrary
  environment the store shows nothing, \<open>view = (\<lambda>_. ())\<close>.
\<close>

locale crash_reads =
  fixes env :: "('s) crash_env" and view :: "'s \<Rightarrow> 'v"
  assumes now_view: "ce_now env s = (t, s') \<Longrightarrow> view s' = view s"
    and interval_view: "ce_setInterval env s = (ok, s') \<Longrightarrow> view s' = view s"
begin

lemma wp_readOwnershipNow:
  assumes "co_ownershipLostError c = None"
    and "\<And>t s'. view s' = view s \<Longrightarrow> 0 \<le> t \<Longrightarrow> Q t (c, s')"
    and "\<And>e c' s'. view s' = view s \<Longrightarrow> fenced c c' \<Longrightarrow> E e (c', s')"
  shows "wp (readOwnershipNow env) Q E (c, s)"
proof -
  obtain t s' where t: "ce_now env s = (t, s')" by force
  from now_view [OF t] have v: "view s' = view s" .
  have f: "wp (failClosed m) Q E (c, s')" for m using assms(1,3) v by (auto intro: wp_failClosed)
  show ?thesis
  proof (cases "\<exists>i. t = Some i \<and> 0 \<le> i")
    case True
    with t assms(2) [OF v] show ?thesis by (auto simp: readOwnershipNow_def readNow_def wp_def catchC_def)
  next
    case False
    with t f [of "''clock failed''"] show ?thesis
      by (auto simp: readOwnershipNow_def readNow_def wp_def catchC_def split: option.split)
  qed
qed

lemma wp_assertBootLeaseLive:
  assumes "co_ownershipLostError c = None"
    and "be_lastHeartbeatAt b \<le> t \<Longrightarrow> t < be_leaseExpiresAt b \<Longrightarrow> Q () (c, s)"
    and "\<And>e c'. fenced c c' \<Longrightarrow> E e (c', s)"
  shows "wp (assertBootLeaseLive b t) Q E (c, s)"
  using assms by (simp add: assertBootLeaseLive_def wp_failClosed)

lemma wp_observeLiveBoot:
  assumes "co_state c = CoRunning" "co_live c" "co_currentBoot c = Some b"
    and "\<And>t s'. view s' = view s \<Longrightarrow> 0 \<le> t \<Longrightarrow> be_lastHeartbeatAt b \<le> t \<Longrightarrow> t < be_leaseExpiresAt b \<Longrightarrow> Q (b, t) (c, s')"
    and "\<And>e c' s'. view s' = view s \<Longrightarrow> fenced c c' \<Longrightarrow> E e (c', s')"
  shows "wp (observeLiveBoot env) Q E (c, s)"
proof -
  have l: "co_ownershipLostError c = None" "be_status b = BootActive" using assms by (auto simp: co_live_def)
  have r: "requireRunningBoot (c, s) = (Inr b, (c, s))"
    using assms(1,3) l by (simp add: requireRunningBoot_def bindC_def getC_def returnC_def)
  have "wp (readOwnershipNow env) (\<lambda>t. wp (assertBootLeaseLive b t) (\<lambda>_. Q (b, t)) E) E (c, s)"
    using l assms(4,5) by (intro wp_readOwnershipNow wp_assertBootLeaseLive) auto
  with r show ?thesis by (simp add: observeLiveBoot_def wp_def [of requireRunningBoot])
qed

text \<open>The first check of an operation: a coordinator that is not running throws and stays as it is.\<close>

lemma wp_observeLiveBoot_first:
  assumes "co_ok c"
    and "\<And>b t s'. co_state c = CoRunning \<Longrightarrow> co_live c \<Longrightarrow> co_currentBoot c = Some b \<Longrightarrow> view s' = view s \<Longrightarrow> 0 \<le> t
           \<Longrightarrow> be_lastHeartbeatAt b \<le> t \<Longrightarrow> t < be_leaseExpiresAt b \<Longrightarrow> Q (b, t) (c, s')"
    and "\<And>e c' s'. co_state c = CoRunning \<Longrightarrow> view s' = view s \<Longrightarrow> fenced c c' \<Longrightarrow> E e (c', s')"
    and "\<And>e. co_state c \<noteq> CoRunning \<Longrightarrow> E e (c, s)"
  shows "wp (observeLiveBoot env) Q E (c, s)"
proof (cases "co_state c = CoRunning")
  case True
  with assms(1) have l: "co_live c" by (simp add: co_ok_def)
  then obtain b where "co_currentBoot c = Some b" by (auto simp: co_live_def split: option.splits)
  with True l assms(2,3) show ?thesis by (auto intro: wp_observeLiveBoot)
next
  case False
  then have "\<exists>e. requireRunningBoot (c, s) = (Inl e, (c, s))"
    by (auto simp: requireRunningBoot_def bindC_def getC_def throwC_def split: option.split bool.split)
  with assms(4) [OF False] show ?thesis by (auto simp: observeLiveBoot_def bindC_def wp_def)
qed

lemma wp_observeOwnedBoot:
  assumes "co_live c" "co_currentBoot c = Some b'" "be_bootEpoch b' = be_bootEpoch b"
    and "\<And>t s'. view s' = view s \<Longrightarrow> 0 \<le> t \<Longrightarrow> be_lastHeartbeatAt b \<le> t \<Longrightarrow> t < be_leaseExpiresAt b \<Longrightarrow> Q t (c, s')"
    and "\<And>e c' s'. view s' = view s \<Longrightarrow> fenced c c' \<Longrightarrow> E e (c', s')"
  shows "wp (observeOwnedBoot env b) Q E (c, s)"
proof -
  have l: "co_ownershipLostError c = None" "be_status b' = BootActive" using assms by (auto simp: co_live_def)
  have "wp (readOwnershipNow env) (\<lambda>t. wp (assertBootLeaseLive b t) (\<lambda>_. Q t) E) E (c, s)"
    using l assms(4,5) by (intro wp_readOwnershipNow wp_assertBootLeaseLive) auto
  with l assms(2,3) show ?thesis by (simp add: observeOwnedBoot_def)
qed

lemma wp_requireLiveActiveAttempt:
  assumes "co_live c" "co_currentBoot c = Some b" "map_of (co_activeAttempts c) k = Some a"
    and "ta_lastHeartbeatAt a \<le> t \<Longrightarrow> t < ta_leaseExpiresAt a \<Longrightarrow> Q a (c, s)"
    and "\<And>e c'. fenced c c' \<Longrightarrow> E e (c', s)"
  shows "wp (requireLiveActiveAttempt k t) Q E (c, s)"
  using assms by (simp add: requireLiveActiveAttempt_def requireActiveAttempt_def co_live_def wp_failClosed)

lemma wp_requireLiveActiveAttempt_first:
  assumes "co_live c" "co_currentBoot c = Some b"
    and "\<And>a. map_of (co_activeAttempts c) k = Some a \<Longrightarrow> ta_lastHeartbeatAt a \<le> t \<Longrightarrow> t < ta_leaseExpiresAt a \<Longrightarrow> Q a (c, s)"
    and "\<And>e c'. fenced c c' \<Longrightarrow> E e (c', s)"
    and "\<And>e. map_of (co_activeAttempts c) k = None \<Longrightarrow> E e (c, s)"
  shows "wp (requireLiveActiveAttempt k t) Q E (c, s)"
proof (cases "map_of (co_activeAttempts c) k")
  case None
  with assms(5) show ?thesis by (simp add: requireLiveActiveAttempt_def requireActiveAttempt_def)
next
  case (Some a)
  with assms(1-4) show ?thesis by (auto intro: wp_requireLiveActiveAttempt)
qed

end

section \<open>Atomic steps\<close>

text \<open>
  One write of the store and the record published for it. The guards say when the coordinator
  writes: the clock was read while the lease of the boot, and of the attempt, was live.
\<close>

definition lease_live :: "boot_epoch \<Rightarrow> int \<Rightarrow> bool" where
  "lease_live b t \<longleftrightarrow> be_status b = BootActive \<and> be_lastHeartbeatAt b \<le> t \<and> t < be_leaseExpiresAt b"

definition attempt_live :: "attempt_row \<Rightarrow> int \<Rightarrow> bool" where
  "attempt_live a t \<longleftrightarrow> ta_lastHeartbeatAt a \<le> t \<and> t < ta_leaseExpiresAt a"

inductive lease_step ::
  "('s) crash_env \<Rightarrow> ('s \<Rightarrow> 'v) \<Rightarrow> coordinator \<times> 'v \<Rightarrow> coordinator \<times> 'v \<Rightarrow> bool"
  for env :: "('s) crash_env" and view :: "'s \<Rightarrow> 'v" where
  ls_start:
  "co_state c = CoIdle \<Longrightarrow> 0 \<le> t
   \<Longrightarrow> ce_createBootEpoch env \<lparr>bi_bootEpoch = co_configuredBootEpoch c, bi_instanceId = co_instanceId c,
         bi_pid = co_pid c, bi_startedAt = Some t, bi_lastHeartbeatAt = Some t,
         bi_leaseExpiresAt = t + co_leaseMs c, bi_metadata = co_bootMetadata c\<rparr> s = (Inr b, s')
   \<Longrightarrow> validNewBoot c t b
   \<Longrightarrow> lease_step env view (c, view s) (c\<lparr>co_currentBoot := Some b, co_state := CoRunning\<rparr>, view s')"
| ls_timer: "co_state c = CoRunning \<Longrightarrow> lease_step env view (c, v) (c\<lparr>co_heartbeatTimer := True\<rparr>, v)"
| ls_boot:
  "co_state c = CoRunning \<Longrightarrow> co_currentBoot c = Some b \<Longrightarrow> lease_live b t
   \<Longrightarrow> ce_heartbeatBootEpoch env (be_bootEpoch b) t (t + co_leaseMs c) s = (Inr b', s')
   \<Longrightarrow> validRenewedBoot c b t b'
   \<Longrightarrow> lease_step env view (c, view s) (c\<lparr>co_currentBoot := Some b'\<rparr>, view s')"
| ls_renew:
  "co_state c = CoRunning \<Longrightarrow> co_currentBoot c = Some b \<Longrightarrow> lease_live b t
   \<Longrightarrow> map_of (co_activeAttempts c) k = Some a \<Longrightarrow> attempt_live a t
   \<Longrightarrow> ce_heartbeatTurnAttempt env k (be_bootEpoch b) t (min (t + co_leaseMs c) (be_leaseExpiresAt b)) s = (Inr a', s')
   \<Longrightarrow> validRenewedAttempt a t (min (t + co_leaseMs c) (be_leaseExpiresAt b)) a'
   \<Longrightarrow> lease_step env view (c, view s) (c\<lparr>co_activeAttempts := obj_set k a' (co_activeAttempts c)\<rparr>, view s')"
| ls_new:
  "co_state c = CoRunning \<Longrightarrow> co_currentBoot c = Some b \<Longrightarrow> lease_live b t \<Longrightarrow> t0 \<le> t
   \<Longrightarrow> ce_createTurnAttempt env (inp\<lparr>ai_bootEpoch := be_bootEpoch b, ai_startedAt := Some t0,
         ai_lastHeartbeatAt := Some t, ai_leaseExpiresAt := min (t + co_leaseMs c) (be_leaseExpiresAt b)\<rparr>) s = (Inr a, s')
   \<Longrightarrow> validNewAttempt b t t0 inp a
   \<Longrightarrow> lease_step env view (c, view s)
         (c\<lparr>co_activeAttempts := obj_set (ta_attemptId a) a (co_activeAttempts c)\<rparr>, view s')"
| ls_mark:
  "co_state c = CoRunning \<Longrightarrow> co_currentBoot c = Some b \<Longrightarrow> lease_live b t
   \<Longrightarrow> map_of (co_activeAttempts c) (si_attemptId inp) = Some a \<Longrightarrow> attempt_live a t \<Longrightarrow> t0 \<le> t
   \<Longrightarrow> ce_markTurnAttemptSafety env (inp\<lparr>si_markedAt := Some t0\<rparr>) s = (Inr a', s')
   \<Longrightarrow> validMarkedAttempt a inp t0 a'
   \<Longrightarrow> lease_step env view (c, view s)
         (c\<lparr>co_activeAttempts := obj_set (si_attemptId inp) a' (co_activeAttempts c)\<rparr>, view s')"
| ls_end:
  "co_state c = CoRunning \<or> co_state c = CoStopping \<Longrightarrow> co_currentBoot c = Some b \<Longrightarrow> lease_live b t
   \<Longrightarrow> map_of (co_activeAttempts c) (ti_attemptId inp) = Some a \<Longrightarrow> attempt_live a t \<Longrightarrow> t0 \<le> t
   \<Longrightarrow> ce_terminalizeTurnAttempt env (inp\<lparr>ti_completedAt := Some t0\<rparr>) s = (Inr a', s')
   \<Longrightarrow> validEndedAttempt a (ti_status inp) (nullish (ti_metadata inp) []) t0 a'
   \<Longrightarrow> lease_step env view (c, view s)
         (c\<lparr>co_activeAttempts := obj_del (ti_attemptId inp) (co_activeAttempts c)\<rparr>, view s')"
| ls_stopping:
  "co_state c = CoRunning \<Longrightarrow> lease_step env view (c, v) (c\<lparr>co_state := CoStopping, co_heartbeatTimer := False\<rparr>, v)"
| ls_stopped:
  "co_state c = CoStopping \<Longrightarrow> co_currentBoot c = Some b \<Longrightarrow> lease_live b t \<Longrightarrow> co_activeAttempts c = []
   \<Longrightarrow> ce_markBootEpochGracefulStopped env (be_bootEpoch b) t reason s = (Inr b', s')
   \<Longrightarrow> validStoppedBoot b t reason b'
   \<Longrightarrow> lease_step env view (c, view s) (c\<lparr>co_currentBoot := Some b', co_state := CoGracefulStopped\<rparr>, view s')"

abbreviation lease_run :: "('s) crash_env \<Rightarrow> ('s \<Rightarrow> 'v) \<Rightarrow> coordinator \<times> 'v \<Rightarrow> coordinator \<times> 'v \<Rightarrow> bool" where
  "lease_run env view \<equiv> (lease_step env view)\<^sup>*\<^sup>*"

lemma list_all_obj_set: "list_all P xs \<Longrightarrow> P (k, v) \<Longrightarrow> list_all P (obj_set k v xs)"
  by (auto simp: list_all_iff obj_set_def)

lemma list_all_obj_del: "list_all P xs \<Longrightarrow> list_all P (obj_del k xs)"
  by (auto simp: list_all_iff obj_del_def)

lemma distinct_obj_del: "distinct (map fst xs) \<Longrightarrow> distinct (map fst (obj_del k xs))"
  by (simp add: obj_del_def distinct_map_filter)

lemma holds_active: "co_live c \<Longrightarrow> map_of (co_activeAttempts c) k = Some a \<Longrightarrow> holds_attempt (co_currentBoot c) (k, a)"
  by (auto simp: co_live_def list_all_iff dest: map_of_SomeD)

lemma live_obj_set:
  "co_live c \<Longrightarrow> holds_attempt (co_currentBoot c) (k, a)
   \<Longrightarrow> co_live (c\<lparr>co_activeAttempts := obj_set k a (co_activeAttempts c)\<rparr>)"
  by (simp add: co_live_def obj_set_distinct list_all_obj_set split: option.splits)

lemma live_obj_del: "co_live c \<Longrightarrow> co_live (c\<lparr>co_activeAttempts := obj_del k (co_activeAttempts c)\<rparr>)"
  by (simp add: co_live_def distinct_obj_del list_all_obj_del split: option.splits)

lemma live_state: "co_live (c\<lparr>co_state := st\<rparr>) = co_live c" "co_live (c\<lparr>co_heartbeatTimer := x\<rparr>) = co_live c"
  by (simp_all add: co_live_def split: option.split)

lemma lease_step_ok: "lease_step env view p q \<Longrightarrow> co_ok (fst p) \<Longrightarrow> co_ok (fst q)"
proof (induction rule: lease_step.induct)
  case (ls_start c t s b s')
  then show ?case by (simp add: co_ok_def co_live_def validNewBoot_def)
next
  case (ls_boot c b t s b' s')
  then have l: "co_live c" by (simp add: co_ok_def)
  have "holds_attempt (Some b') p" if "holds_attempt (Some b) p" for p
    using that l ls_boot by (auto simp: holds_attempt_def validRenewedBoot_def co_live_def lease_live_def)
  with l ls_boot show ?case by (auto simp: co_ok_def co_live_def validRenewedBoot_def list_all_iff)
next
  case (ls_renew c b t k a s a' s')
  then have l: "co_live c" by (simp add: co_ok_def)
  from ls_renew holds_active [OF l ls_renew(4)] have "holds_attempt (co_currentBoot c) (k, a')"
    by (simp add: holds_attempt_def validRenewedAttempt_def hasSameAttemptIdentity_def)
  with l ls_renew live_obj_set show ?case by (simp add: co_ok_def)
next
  case (ls_new c b t t0 inp s a s')
  then have l: "co_live c" by (simp add: co_ok_def)
  with ls_new live_obj_set [OF l, of "ta_attemptId a" a] show ?case
    by (simp add: co_ok_def holds_attempt_def validNewAttempt_def)
next
  case (ls_mark c b t inp a t0 s a' s')
  then have l: "co_live c" by (simp add: co_ok_def)
  from ls_mark holds_active [OF l ls_mark(4)] have "holds_attempt (co_currentBoot c) (si_attemptId inp, a')"
    by (simp add: holds_attempt_def validMarkedAttempt_def hasSameAttemptIdentity_def)
  with l ls_mark live_obj_set show ?case by (simp add: co_ok_def)
next
  case (ls_end c b t inp a t0 s a' s')
  then show ?case using live_obj_del [of c] by (auto simp: co_ok_def)
qed (auto simp: co_ok_def live_state validStoppedBoot_def, simp add: co_live_def)

lemma lease_run_ok: "lease_run env view p q \<Longrightarrow> co_ok (fst p) \<Longrightarrow> co_ok (fst q)"
  by (induction rule: rtranclp_induct) (auto intro: lease_step_ok)

text \<open>How an operation may end: after some steps, and when it throws, unchanged or fenced.\<close>

definition op_returns ::
  "('s) crash_env \<Rightarrow> ('s \<Rightarrow> 'v) \<Rightarrow> coordinator \<Rightarrow> 's \<Rightarrow> coordinator \<times> 's \<Rightarrow> bool" where
  "op_returns env view c s = (\<lambda>(c', s'). lease_run env view (c, view s) (c', view s'))"

definition op_fenced ::
  "('s) crash_env \<Rightarrow> ('s \<Rightarrow> 'v) \<Rightarrow> coordinator \<Rightarrow> 's \<Rightarrow> coordinator \<times> 's \<Rightarrow> bool" where
  "op_fenced env view c s = (\<lambda>(c', s'). \<exists>c1 v1. lease_run env view (c, view s) (c1, v1)
     \<and> co_state c1 \<noteq> CoOwnershipLost \<and> fenced c1 c')"

definition op_throws ::
  "('s) crash_env \<Rightarrow> ('s \<Rightarrow> 'v) \<Rightarrow> coordinator \<Rightarrow> 's \<Rightarrow> coordinator \<times> 's \<Rightarrow> bool" where
  "op_throws env view c s = (\<lambda>(c', s'). c' = c \<and> view s' = view s \<or> op_fenced env view c s (c', s'))"

lemma op_throws_same: "view s' = view s \<Longrightarrow> op_throws env view c s (c, s')"
  by (simp add: op_throws_def)

lemma op_fenced_throws: "op_fenced env view c s p \<Longrightarrow> op_throws env view c s p"
  by (cases p) (simp add: op_throws_def)

lemma op_fenced_now: "co_state c \<noteq> CoOwnershipLost \<Longrightarrow> fenced c c' \<Longrightarrow> op_fenced env view c s (c', s')"
  by (auto simp: op_fenced_def)

lemma op_fenced_step:
  "lease_step env view (c, view s) (c1, v1) \<Longrightarrow> co_state c1 \<noteq> CoOwnershipLost \<Longrightarrow> fenced c1 c'
   \<Longrightarrow> op_fenced env view c s (c', s')"
  by (auto simp: op_fenced_def)

lemma op_fenced_run:
  "lease_run env view (c, view s) (c1, view s1) \<Longrightarrow> op_fenced env view c1 s1 p \<Longrightarrow> op_fenced env view c s p"
  by (auto simp: op_fenced_def) (meson rtranclp_trans)

lemma op_returns_refl: "view s' = view s \<Longrightarrow> op_returns env view c s (c, s')"
  by (simp add: op_returns_def)

lemma op_returns_step: "lease_step env view (c, view s) (c', view s') \<Longrightarrow> op_returns env view c s (c', s')"
  by (auto simp: op_returns_def)

lemma obj_del_set: "obj_del k (obj_set k v xs) = obj_del k xs"
proof -
  have "filter (\<lambda>p. fst p \<noteq> k) (map (\<lambda>p. if fst p = k then (k, v) else p) xs) = filter (\<lambda>p. fst p \<noteq> k) xs"
    by (induction xs) auto
  then show ?thesis by (simp add: obj_del_def obj_set_def)
qed

section \<open>Operations are runs of atomic steps\<close>

context crash_reads
begin

lemma wp_fail_now:
  assumes "co_live c" "co_state c \<noteq> CoOwnershipLost"
  shows "wp (failClosed m) Q (\<lambda>_. op_fenced env view c s) (c, s')"
  by (intro wp_failClosed op_fenced_now) (use assms in \<open>auto simp: co_live_def\<close>)

lemma wp_fail_step:
  assumes "co_live c'" "co_state c' \<noteq> CoOwnershipLost" "lease_step env view (c, view s) (c', v)"
  shows "wp (failClosed m) Q (\<lambda>_. op_fenced env view c s) (c', s')"
  by (intro wp_failClosed op_fenced_step [OF assms(3)]) (use assms in \<open>auto simp: co_live_def\<close>)

lemma wp_fail_again:
  "fenced c1 (fst p) \<Longrightarrow> op_fenced env view c s p \<Longrightarrow> wp (failClosed m) Q (\<lambda>_. op_fenced env view c s) p"
  by (cases p) (auto intro: wp_failClosed_again)

lemma live_active:
  assumes "co_live c" "k \<in> set (map fst (co_activeAttempts c))"
  obtains b a where "co_currentBoot c = Some b" "be_status b = BootActive" "map_of (co_activeAttempts c) k = Some a"
proof -
  have "map_of (co_activeAttempts c) k \<noteq> None" using assms(2) by (simp add: map_of_eq_None_iff)
  with assms(1) that show ?thesis by (auto simp: co_live_def split: option.splits)
qed

lemma wp_publish_attempt:
  assumes c: "co_state c = CoRunning" "co_live c" "co_currentBoot c = Some b" "map_of (co_activeAttempts c) k = Some a"
    and step: "lease_step env view (c, view s0) (c\<lparr>co_activeAttempts := obj_set k a' (co_activeAttempts c)\<rparr>, view s)"
    and E: "\<And>e p. op_fenced env view c s0 p \<Longrightarrow> \<exists>c1. fenced c1 (fst p) \<Longrightarrow> E e p"
    and Q: "\<And>s'. view s' = view s \<Longrightarrow> co_live (c\<lparr>co_activeAttempts := obj_set k a' (co_activeAttempts c)\<rparr>)
       \<Longrightarrow> Q a' (c\<lparr>co_activeAttempts := obj_set k a' (co_activeAttempts c)\<rparr>, s')"
  shows "wp (publish_attempt env k a') Q E (c, s)"
proof -
  let ?c = "c\<lparr>co_activeAttempts := obj_set k a' (co_activeAttempts c)\<rparr>"
  have live: "co_live ?c" using lease_step_ok [OF step] c(1,2) by (simp add: co_ok_def)
  have now: "E e (c', s')" if "fenced c c'" for e c' s' using that c(1) by (intro E op_fenced_now) auto
  have after: "E e (c', s')" if "fenced ?c c'" for e c' s' using that c(1) step by (intro E op_fenced_step) auto
  have "wp (requireLiveActiveAttempt k t) Q E (?c, s')" if "view s' = view s" for t s'
    by (rule wp_requireLiveActiveAttempt [OF live]) (use c Q live that after in auto)
  then show ?thesis
    unfolding publish_attempt_def wp_bind
    by (intro wp_observeLiveBoot [OF c(1-3)]) (auto intro: wp_requireLiveActiveAttempt [OF c(2-4)] now)
qed

lemma wp_heartbeat_attempt:
  assumes c: "co_state c = CoRunning" "co_live c" "k \<in> set (map fst (co_activeAttempts c))"
  shows "wp (heartbeat_attempt env k)
    (\<lambda>_ (c', s'). lease_step env view (c, view s) (c', view s') \<and> co_state c' = CoRunning \<and> co_live c'
        \<and> map fst (co_activeAttempts c') = map fst (co_activeAttempts c) \<and> co_currentBoot c' = co_currentBoot c)
    (\<lambda>_. op_fenced env view c s) (c, s)"
proof -
  from c obtain b a where b: "co_currentBoot c = Some b" "be_status b = BootActive" and a: "map_of (co_activeAttempts c) k = Some a"
    by (metis live_active)
  have keys: "map fst (obj_set k a' (co_activeAttempts c)) = map fst (co_activeAttempts c)" for a'
    using c(3) by (auto simp: obj_set_def)
  note fail = wp_fail_now [OF c(2), simplified c, simplified]
  show ?thesis
    unfolding heartbeat_attempt_def wp_bind
  proof (rule wp_observeLiveBoot [OF c(1,2) b(1)], goal_cases)
    case (1 t s1)
    let ?lease = "min (t + co_leaseMs c) (be_leaseExpiresAt b)"
    have step: "lease_step env view (c, view s) (c\<lparr>co_activeAttempts := obj_set k a' (co_activeAttempts c)\<rparr>, view s2)"
      if "attempt_live a t" "ce_heartbeatTurnAttempt env k (be_bootEpoch b) t ?lease s1 = (Inr a', s2)"
        "validRenewedAttempt a t ?lease a'" for a' s2
      using ls_renew [where env = env and view = view, OF c(1) b(1) _ a that] 1 b by (simp add: lease_live_def)
    show ?case
    proof (simp add: Let_def, rule wp_requireLiveActiveAttempt [OF c(2) b(1) a], simp, rule wp_call, goal_cases)
      case (1 a' s2)
      then show ?case
        using step [of a' s2] c keys fail
        by (auto simp: attempt_live_def intro!: wp_publish_attempt [OF c(1,2) b(1) a] intro: wp_fail_again)
    next
      case (2 e s2) show ?case by (simp add: fail)
    next
      case (3 e c') with c show ?case by (auto intro: op_fenced_now)
    qed
  next
    case (2 e c' s1) with c show ?case by (auto intro: op_fenced_now)
  qed
qed

lemma wp_start_created:
  assumes "co_ok c" and step: "lease_step env view (c, view s) (c', view s')" and c': "co_state c' = CoRunning" "co_currentBoot c' = Some b"
    and E: "\<And>e p. op_fenced env view c s p \<Longrightarrow> E e p"
  shows "wp (observeLiveBoot env)
    (\<lambda>_. wp (\<lambda>(c, s). case ce_setInterval env s of
              (True, s') \<Rightarrow> (Inr (), (c\<lparr>co_heartbeatTimer := True\<rparr>, s'))
            | (False, s') \<Rightarrow> failClosed m (c, s'))
       (\<lambda>_ (c', s'). op_returns env view c s (c', s') \<and> co_state c' = CoRunning \<and> co_currentBoot c' = Some b)
       E) E (c', s')"
proof -
  have l: "co_live c'" using lease_step_ok [OF step] assms(1) c' by (simp add: co_ok_def)
  have timer: "lease_step env view (c', v) (c'\<lparr>co_heartbeatTimer := True\<rparr>, v)" for v by (rule ls_timer) (rule c')
  show ?thesis
  proof (rule wp_observeLiveBoot [OF c'(1) l c'(2)], goal_cases)
    case (1 t s1)
    obtain ok s2 where i: "ce_setInterval env s1 = (ok, s2)" by force
    from interval_view [OF i] 1 have "view s2 = view s'" by simp
    moreover have "wp (failClosed m) Q E (c', s2)" for Q :: "unit \<Rightarrow> coordinator \<times> 's \<Rightarrow> bool"
      using c' l by (intro wp_failClosed E op_fenced_step [OF step]) (auto simp: co_live_def)
    ultimately show ?case
      using i timer [of "view s'"] step c' by (cases ok) (auto simp: wp_def op_returns_def)
  next
    case (2 e c1 s1) with step c' show ?case by (intro E op_fenced_step [OF step]) auto
  qed
qed

lemma wp_start:
  assumes "co_ok c"
  shows "wp (start env) (\<lambda>b (c', s'). op_returns env view c s (c', s') \<and> co_state c' = CoRunning \<and> co_currentBoot c' = Some b)
    (\<lambda>e (c', s'). c' = c \<or> op_fenced env view c s (c', s')) (c, s)"
proof (cases "co_state c = CoIdle")
  case True
  obtain r s1 where now: "ce_now env s = (r, s1)" by force
  from now_view [OF now] have v1: "view s1 = view s" .
  consider e where "readNow env (c, s) = (Inl e, (c, s1))" | t where "readNow env (c, s) = (Inr t, (c, s1))" "0 \<le> t"
    using now by (cases "case r of None \<Rightarrow> True | Some v \<Rightarrow> v < 0") (auto simp: readNow_def split: option.splits)
  then show ?thesis
  proof cases
    case 1
    with True show ?thesis by (simp add: start_def wp_def [of "readNow env"])
  next
    case (2 t)
    then have read: "wp (readNow env) Q E (c, s) = Q t (c, s1)" for Q E by (simp add: wp_def)
    have created: "lease_step env view (c, view s) (c\<lparr>co_currentBoot := Some b, co_state := CoRunning\<rparr>, view s2)"
      if "ce_createBootEpoch env \<lparr>bi_bootEpoch = co_configuredBootEpoch c, bi_instanceId = co_instanceId c,
         bi_pid = co_pid c, bi_startedAt = Some t, bi_lastHeartbeatAt = Some t,
         bi_leaseExpiresAt = t + co_leaseMs c, bi_metadata = co_bootMetadata c\<rparr> s1 = (Inr b, s2)" "validNewBoot c t b" for b s2
      using ls_start [where env = env and view = view, OF True 2(2) that] v1 by simp
    show ?thesis
      unfolding start_def using True
      by (simp add: read) (intro wp_call; auto intro!: wp_start_created [OF assms created])
  qed
qed (simp add: start_def)

end

context crash_reads
begin

lemma wp_heartbeat_all:
  assumes c: "co_state c = CoRunning" "co_live c" and run: "lease_run env view (c0, view s0) (c, view s)"
    and E: "\<And>e p. op_fenced env view c0 s0 p \<Longrightarrow> E e p"
  shows "wp (eachC (heartbeat_attempt env) (map fst (co_activeAttempts c)))
    (\<lambda>_ (c', s'). op_returns env view c0 s0 (c', s') \<and> co_state c' = CoRunning \<and> co_currentBoot c' = co_currentBoot c
        \<and> map fst (co_activeAttempts c') = map fst (co_activeAttempts c)) E (c, s)"
proof -
  define I where "I = (\<lambda>xs (c', s'). lease_run env view (c0, view s0) (c', view s') \<and> co_state c' = CoRunning \<and> co_live c'
    \<and> co_currentBoot c' = co_currentBoot c \<and> map fst (co_activeAttempts c') = map fst (co_activeAttempts c)
    \<and> set xs \<subseteq> set (map fst (co_activeAttempts c)))"
  have body: "wp (heartbeat_attempt env k) (\<lambda>_. I ks) E st" if I: "I (k # ks) st" for k ks st
  proof -
    obtain c1 s1 where st: "st = (c1, s1)" by force
    from I st have r: "lease_run env view (c0, view s0) (c1, view s1)" by (simp add: I_def)
    have "wp (heartbeat_attempt env k)
      (\<lambda>_ (c', s'). lease_step env view (c1, view s1) (c', view s') \<and> co_state c' = CoRunning \<and> co_live c'
        \<and> map fst (co_activeAttempts c') = map fst (co_activeAttempts c1) \<and> co_currentBoot c' = co_currentBoot c1)
      (\<lambda>_. op_fenced env view c1 s1) (c1, s1)"
      by (rule wp_heartbeat_attempt) (use I st in \<open>auto simp: I_def\<close>)
    then show ?thesis unfolding st
      by (rule wp_mono) (use I st r in \<open>auto simp: I_def intro: rtranclp.rtrancl_into_rtrancl E op_fenced_run\<close>)
  qed
  have "I (map fst (co_activeAttempts c)) (c, s)" using c run by (simp add: I_def)
  from wp_each [of I, OF this body] show ?thesis
    by (rule wp_mono) (auto simp: I_def op_returns_def)
qed

lemma wp_heartbeatNow:
  assumes "co_ok c"
  shows "wp (heartbeatNow env)
    (\<lambda>b (c', s'). op_returns env view c s (c', s') \<and> co_state c' = CoRunning \<and> co_currentBoot c' = Some b
        \<and> map fst (co_activeAttempts c') = map fst (co_activeAttempts c))
    (\<lambda>_. op_throws env view c s) (c, s)"
  unfolding heartbeatNow_def wp_bind
proof (rule wp_observeLiveBoot_first [OF assms], goal_cases)
  case (1 b t s1)
  note c = 1(1-3) and live = 1(2) and v1 = 1(4)
  have fail: "wp (failClosed m) Q (\<lambda>_. op_throws env view c s) (c, s')" for m s' and Q :: "boot_epoch \<Rightarrow> coordinator \<times> 's \<Rightarrow> bool"
    by (rule wp_mono [OF wp_fail_now [OF live]]) (use c in \<open>auto intro: op_fenced_throws\<close>)
  have failu: "wp (failClosed m) Q (\<lambda>_. op_throws env view c s) (c, s')" for m s' and Q :: "unit \<Rightarrow> coordinator \<times> 's \<Rightarrow> bool"
    by (rule wp_mono [OF wp_fail_now [OF live]]) (use c in \<open>auto intro: op_fenced_throws\<close>)
  show ?case
  proof (simp, rule wp_call, goal_cases)
    case (1 b' s2)
    let ?c = "c\<lparr>co_currentBoot := Some b'\<rparr>"
    show ?case
    proof (cases "validRenewedBoot c b t b'")
      case True
      have "lease_step env view (c, view s1) (?c, view s2)"
        using \<open>be_lastHeartbeatAt b \<le> t\<close> \<open>t < be_leaseExpiresAt b\<close> c 1 True
        by (intro ls_boot) (auto simp: lease_live_def co_live_def)
      then have step: "lease_step env view (c, view s) (?c, view s2)" using v1 by simp
      have live': "co_live ?c" using lease_step_ok [OF step] assms c by (simp add: co_ok_def)
      have all: "wp (eachC (heartbeat_attempt env) (map fst (co_activeAttempts c)))
          (\<lambda>_ (c', s'). op_returns env view c s (c', s') \<and> co_state c' = CoRunning \<and> co_currentBoot c' = Some b'
             \<and> map fst (co_activeAttempts c') = map fst (co_activeAttempts c))
          (\<lambda>_. op_throws env view c s) (?c, s3)" if "view s3 = view s2" for s3
        using wp_heartbeat_all [of ?c c s s3 "\<lambda>_. op_throws env view c s"] c live' step that
        by (auto intro: op_fenced_throws)
      have after: "op_throws env view c s (c', s')" if "fenced ?c c'" for c' s'
        using that step c by (intro op_fenced_throws op_fenced_step) auto
      have now: "op_throws env view c s (c', s')" if "fenced c c'" for c' s'
        using that c by (intro op_fenced_throws op_fenced_now) auto
      show ?thesis
        using c live' all by (simp add: True) (intro wp_observeOwnedBoot [OF live c(3) refl];
          auto intro!: wp_assertBootLeaseLive intro: after now simp: co_live_def)
    qed (simp add: failu)
  qed (simp add: fail)
next
  case (2 e c' s') then show ?case by (intro op_fenced_throws op_fenced_now) auto
next
  case (3 e) show ?case by (simp add: op_throws_same)
qed

lemma wp_register_attempt:
  assumes c: "co_state c = CoRunning" "co_live c" and step: "lease_step env view (c, view s0)
       (c\<lparr>co_activeAttempts := obj_set (ta_attemptId a) a (co_activeAttempts c)\<rparr>, view s)"
  shows "wp (register_attempt env a)
    (\<lambda>x (c', s'). op_returns env view c s0 (c', s') \<and> c' = c\<lparr>co_activeAttempts := obj_set (ta_attemptId x) x (co_activeAttempts c)\<rparr>)
    (\<lambda>_. op_throws env view c s0) (c, s)"
proof -
  let ?c = "c\<lparr>co_activeAttempts := obj_set (ta_attemptId a) a (co_activeAttempts c)\<rparr>"
  have live: "co_live ?c" using lease_step_ok [OF step] c by (simp add: co_ok_def)
  then obtain b where b: "co_currentBoot ?c = Some b" by (auto simp: co_live_def split: option.splits)
  have after: "op_throws env view c s0 (c', s')" if "fenced ?c c'" for c' s'
    using that step c by (intro op_fenced_throws op_fenced_step) auto
  show ?thesis
    unfolding register_attempt_def wp_bind wp_set_active
    by (simp, intro wp_observeLiveBoot [OF _ live b]; (simp add: c; fail)?)
      (auto intro!: wp_requireLiveActiveAttempt [OF live b] after op_returns_step simp: step)
qed

lemma wp_fail_throws:
  assumes "co_live c" "co_state c \<noteq> CoOwnershipLost"
  shows "wp (failClosed m) Q (\<lambda>_. op_throws env view c s) (c, s')"
  by (rule wp_mono [OF wp_fail_now [OF assms]]) (auto intro: op_fenced_throws)

lemma fenced_throws: "fenced c c' \<Longrightarrow> co_state c = CoRunning \<Longrightarrow> op_throws env view c s (c', s')"
  by (intro op_fenced_throws op_fenced_now) auto

text \<open>A timestamp of the input, if there is one, is checked before anything is written.\<close>

lemma wp_input_time:
  assumes "\<And>x. Q x p" "\<And>e. E e p"
  shows "wp (case i of None \<Rightarrow> returnC t | Some x \<Rightarrow> readTimestamp x) Q E p"
  using assms by (auto simp: readTimestamp_def split: option.split)

lemma wp_startTurnAttempt:
  assumes "co_ok c"
  shows "wp (startTurnAttempt env inp)
    (\<lambda>a (c', s'). op_returns env view c s (c', s') \<and> co_state c = CoRunning
        \<and> c' = c\<lparr>co_activeAttempts := obj_set (ta_attemptId a) a (co_activeAttempts c)\<rparr>)
    (\<lambda>_. op_throws env view c s) (c, s)"
  unfolding startTurnAttempt_def wp_bind
proof (rule wp_observeLiveBoot_first [OF assms], goal_cases)
  case (1 b t s1)
  note c = 1(1-3) and v1 = 1(4)
  have same: "op_throws env view c s (c, s1)" using v1 by (rule op_throws_same)
  have created: "lease_step env view (c, view s) (c\<lparr>co_activeAttempts := obj_set (ta_attemptId a) a (co_activeAttempts c)\<rparr>, view s2)"
    if "t0 \<le> t" "ce_createTurnAttempt env (inp\<lparr>ai_bootEpoch := be_bootEpoch b, ai_startedAt := Some t0,
         ai_lastHeartbeatAt := Some t, ai_leaseExpiresAt := min (t + co_leaseMs c) (be_leaseExpiresAt b)\<rparr>) s1 = (Inr a, s2)"
      "validNewAttempt b t t0 inp a" for t0 a s2
    using ls_new [where env = env and view = view, OF c(1,3) _ that] 1 by (simp add: lease_live_def co_live_def)
  note fail = wp_fail_throws [OF c(2)]
  show ?case
  proof (simp add: Let_def, rule wp_input_time, goal_cases)
    case (1 t0)
    show ?case
    proof (cases "0 < co_leaseMs c \<and> t < be_leaseExpiresAt b")
      case False
      with c show ?thesis by (auto simp: same fail)
    next
      case True
      show ?thesis
        using True c by (simp add: same) (intro impI wp_call; auto simp: fail intro!: wp_register_attempt created)
    qed
  next
    case (2 e) show ?case by (rule same)
  qed
next
  case (2 e c' s') then show ?case by (intro fenced_throws)
next
  case (3 e) show ?case by (simp add: op_throws_same)
qed

end

context crash_reads
begin

lemma wp_markTurnAttemptSafety:
  assumes "co_ok c"
  shows "wp (markTurnAttemptSafety env inp)
    (\<lambda>a (c', s'). op_returns env view c s (c', s') \<and> co_state c' = CoRunning \<and> map_of (co_activeAttempts c') (si_attemptId inp) = Some a)
    (\<lambda>_. op_throws env view c s) (c, s)"
  unfolding markTurnAttemptSafety_def wp_bind
proof (rule wp_observeLiveBoot_first [OF assms], goal_cases)
  case (1 b t s1)
  note c = 1(1-3) and v1 = 1(4)
  have same: "op_throws env view c s (c, s1)" using v1 by (rule op_throws_same)
  note fail = wp_fail_throws [OF c(2)]
  show ?case
  proof (simp, rule wp_requireLiveActiveAttempt_first [OF c(2,3)], goal_cases)
    case (1 a)
    note a = this
    have marked: "lease_step env view (c, view s) (c\<lparr>co_activeAttempts := obj_set (si_attemptId inp) a' (co_activeAttempts c)\<rparr>, view s2)"
      if "t0 \<le> t" "ce_markTurnAttemptSafety env (inp\<lparr>si_markedAt := Some t0\<rparr>) s1 = (Inr a', s2)" "validMarkedAttempt a inp t0 a'"
      for t0 a' s2
      using ls_mark [where env = env and view = view, OF c(1,3) _ a(1) _ that] a v1
        \<open>be_lastHeartbeatAt b \<le> t\<close> \<open>t < be_leaseExpiresAt b\<close> c
      by (simp add: lease_live_def attempt_live_def co_live_def)
    have stored: "wp (publish_attempt env (si_attemptId inp) a')
        (\<lambda>a (c', s'). op_returns env view c s (c', s') \<and> co_state c' = CoRunning \<and> map_of (co_activeAttempts c') (si_attemptId inp) = Some a)
        (\<lambda>_. op_throws env view c s) (c, s2)"
      if "t0 \<le> t" "ce_markTurnAttemptSafety env (inp\<lparr>si_markedAt := Some t0\<rparr>) s1 = (Inr a', s2)" "validMarkedAttempt a inp t0 a'"
      for t0 a' s2
      using c marked [OF that]
      by (intro wp_publish_attempt [OF c a(1) marked [OF that]]) (auto intro: op_fenced_throws op_returns_step)
    show ?case
    proof (cases "(si_startedTool inp \<longrightarrow> ta_startedTool a) \<and> (si_materializedOutput inp \<longrightarrow> ta_materializedOutput a)
        \<and> (si_inputMutated inp \<longrightarrow> hasRuntimeTurnAttemptInputMutation a)")
      case True
      with c a v1 show ?thesis by (simp add: same op_returns_refl)
    next
      case False
      show ?thesis
        unfolding if_not_P [OF False] wp_bind wp_unless
        by (split if_split, intro conjI impI) (auto simp: c same fail intro!: wp_input_time wp_call stored)
    qed
  next
    case (2 e c') with c v1 show ?case by (intro fenced_throws)
  next
    case (3 e) show ?case by (rule same)
  qed
next
  case (2 e c' s') then show ?case by (intro fenced_throws)
next
  case (3 e) show ?case by (simp add: op_throws_same)
qed

lemma wp_retire_attempt:
  assumes c: "co_live c" "co_currentBoot c = Some b" "map_of (co_activeAttempts c) k = Some a"
    and v: "validEndedAttempt a st md t0 a'"
    and Q: "Q () (c\<lparr>co_activeAttempts := obj_del k (co_activeAttempts c)\<rparr>, s)" and E: "\<And>e c'. fenced c c' \<Longrightarrow> E e (c', s)"
  shows "wp (retire_attempt k t a') Q E (c, s)"
  unfolding retire_attempt_def wp_bind
proof (rule wp_requireLiveActiveAttempt [OF c], goal_cases)
  case 1
  with c v Q holds_active [OF c(1,3)] show ?case
    by (simp add: requireLiveActiveAttempt_def requireActiveAttempt_def validEndedAttempt_def
          hasSameAttemptIdentity_def holds_attempt_def obj_del_set)
next
  case 2 then show ?case by (rule E)
qed

lemma wp_terminalizeTurnAttempt:
  assumes "co_ok c"
  shows "wp (terminalizeTurnAttempt env inp)
    (\<lambda>a (c', s'). op_returns env view c s (c', s') \<and> co_state c = CoRunning
        \<and> c' = c\<lparr>co_activeAttempts := obj_del (ti_attemptId inp) (co_activeAttempts c)\<rparr> \<and> ta_status a = Ended (ti_status inp))
    (\<lambda>_. op_throws env view c s) (c, s)"
  unfolding terminalizeTurnAttempt_def wp_bind
proof (rule wp_observeLiveBoot_first [OF assms], goal_cases)
  case (1 b t s1)
  note c = 1(1-3) and v1 = 1(4)
  have same: "op_throws env view c s (c, s1)" using v1 by (rule op_throws_same)
  have now: "op_throws env view c s (c', s')" if "fenced c c'" for c' s' using that c(1) by (rule fenced_throws)
  note fail = wp_fail_throws [OF c(2)]
  show ?case
  proof (simp, rule wp_requireLiveActiveAttempt_first [OF c(2,3)], goal_cases)
    case (1 a)
    note a = this
    have ended: "op_returns env view c s (c\<lparr>co_activeAttempts := obj_del (ti_attemptId inp) (co_activeAttempts c)\<rparr>, s3)"
      if "t0 \<le> t" "ce_terminalizeTurnAttempt env (inp\<lparr>ti_completedAt := Some t0\<rparr>) s1 = (Inr a', s2)"
        "validEndedAttempt a (ti_status inp) (nullish (ti_metadata inp) []) t0 a'" "view s3 = view s2" for t0 a' s2 s3
      using ls_end [where env = env and view = view, OF disjI1 [OF c(1)] c(3) _ a(1) _ that(1-3)] a v1 that(4)
        \<open>be_lastHeartbeatAt b \<le> t\<close> \<open>t < be_leaseExpiresAt b\<close> c
      by (intro op_returns_step) (simp add: lease_live_def attempt_live_def co_live_def)
    show ?case
    proof (rule wp_input_time, goal_cases)
      case (1 t0)
      have "wp (settle_attempt env (ti_attemptId inp) a')
          (\<lambda>a (c', s'). op_returns env view c s (c', s') \<and> co_state c = CoRunning
             \<and> c' = c\<lparr>co_activeAttempts := obj_del (ti_attemptId inp) (co_activeAttempts c)\<rparr> \<and> ta_status a = Ended (ti_status inp))
          (\<lambda>_. op_throws env view c s) (c, s2)"
        if "t0 \<le> t" "ce_terminalizeTurnAttempt env (inp\<lparr>ti_completedAt := Some t0\<rparr>) s1 = (Inr a', s2)"
          and v: "validEndedAttempt a (ti_status inp) (nullish (ti_metadata inp) []) t0 a'" for a' s2
        unfolding settle_attempt_def wp_bind
      proof (rule wp_observeLiveBoot [OF c], simp, rule wp_retire_attempt [OF c(2,3) a(1) v], goal_cases)
        case (1 t' s3)
        with c(1) v ended [OF that] show ?case by (simp add: validEndedAttempt_def)
      qed (auto intro: now)
      then show ?case
        using c by (auto simp: fail same intro!: wp_call)
    next
      case 2 show ?case by (rule same)
    qed
  next
    case (2 e c') then show ?case by (rule now)
  next
    case (3 e) show ?case by (rule same)
  qed
next
  case (2 e c' s') then show ?case by (intro fenced_throws)
next
  case (3 e) show ?case by (simp add: op_throws_same)
qed

end

text \<open>
  Inside the guarded part of a graceful stop an error leaves a live coordinator, which the handler
  then fences, or one that is fenced already.
\<close>

definition stop_throws ::
  "('s) crash_env \<Rightarrow> ('s \<Rightarrow> 'v) \<Rightarrow> coordinator \<Rightarrow> 's \<Rightarrow> coordinator \<times> 's \<Rightarrow> bool" where
  "stop_throws env view c s = (\<lambda>(c', s'). (\<exists>v. lease_run env view (c, view s) (c', v) \<and> co_live c' \<and> co_state c' \<noteq> CoOwnershipLost)
     \<or> (\<exists>c1 v. lease_run env view (c, view s) (c1, v) \<and> co_state c1 \<noteq> CoOwnershipLost \<and> fenced c1 c'))"

context crash_reads
begin

lemma wp_stop_handler: "stop_throws env view c s p \<Longrightarrow> wp (failClosed m) Q (\<lambda>_. op_fenced env view c s) p"
proof (cases p)
  case (Pair c' s')
  moreover assume "stop_throws env view c s p"
  ultimately consider v where "lease_run env view (c, view s) (c', v)" "co_live c'" "co_state c' \<noteq> CoOwnershipLost"
    | c1 v where "lease_run env view (c, view s) (c1, v)" "co_state c1 \<noteq> CoOwnershipLost" "fenced c1 c'"
    by (auto simp: stop_throws_def)
  then show ?thesis
  proof cases
    case 1
    then show ?thesis unfolding Pair by (intro wp_failClosed) (auto simp: op_fenced_def co_live_def)
  next
    case 2
    then show ?thesis unfolding Pair by (intro wp_failClosed_again [OF 2(3)]) (auto simp: op_fenced_def)
  qed
qed

lemma wp_abort_attempt:
  assumes c: "co_state c = CoStopping" "co_live c" "co_currentBoot c = Some b" "co_activeAttempts c = (k, a) # rest"
    and run: "lease_run env view (c0, view s0) (c, view s)"
  shows "wp (abort_attempt env b (k, a))
    (\<lambda>_ (c', s'). lease_run env view (c0, view s0) (c', view s') \<and> c' = c\<lparr>co_activeAttempts := rest\<rparr>)
    (\<lambda>_. stop_throws env view c0 s0) (c, s)"
proof -
  have a: "map_of (co_activeAttempts c) k = Some a" by (simp add: c)
  have rest: "obj_del k (co_activeAttempts c) = rest"
    using c(2,4) by (auto simp: co_live_def obj_del_def intro!: filter_True)
  have same: "stop_throws env view c0 s0 (c, s')" for s' using run c by (auto simp: stop_throws_def)
  have now: "stop_throws env view c0 s0 (c', s')" if "fenced c c'" for c' s' using run c that by (auto simp: stop_throws_def)
  show ?thesis
    unfolding abort_attempt_def split wp_bind
  proof (rule wp_observeOwnedBoot [OF c(2,3) refl], goal_cases)
    case (1 t s1)
    note o = this
    show ?case
    proof (rule wp_requireLiveActiveAttempt [OF c(2,3) a], goal_cases)
      case 1
      note r = this
      show ?case
      proof (rule wp_call, goal_cases)
        case (1 a' s2)
        have retired: "wp (retire_attempt k t' a')
          (\<lambda>_ (c', s'). lease_run env view (c0, view s0) (c', view s') \<and> c' = c\<lparr>co_activeAttempts := rest\<rparr>)
          (\<lambda>_. stop_throws env view c0 s0) (c, s3)"
          if v: "validEndedAttempt a TAborted [] t a'" and s3: "view s3 = view s2" for t' s3
        proof (rule wp_retire_attempt [OF c(2,3) a v])
          have "lease_step env view (c, view s1) (c\<lparr>co_activeAttempts := obj_del k (co_activeAttempts c)\<rparr>, view s2)"
            using ls_end [where env = env and view = view and c = c and b = b and t = t and a = a and ?t0.0 = t and s = s1 and a' = a' and s' = s2
              and inp = "\<lparr>ti_attemptId = k, ti_status = TAborted, ti_completedAt = Some t, ti_metadata = None\<rparr>"] 1 v o r c a
            by (simp add: lease_live_def attempt_live_def co_live_def)
          with run o s3 rest show "case (c\<lparr>co_activeAttempts := obj_del k (co_activeAttempts c)\<rparr>, s3) of (c', s') \<Rightarrow>
              lease_run env view (c0, view s0) (c', view s') \<and> c' = c\<lparr>co_activeAttempts := rest\<rparr>"
            by (simp add: rtranclp.rtrancl_into_rtrancl)
        qed (rule now)
        then show ?case by (auto simp: same intro: wp_observeOwnedBoot [OF c(2,3) refl] now)
      next
        case (2 e s2) show ?case by (rule same)
      qed
    next
      case (2 e c') then show ?case by (rule now)
    qed
  next
    case (2 e c' s1) then show ?case by (intro now)
  qed
qed

lemma wp_abort_all:
  assumes c: "co_state c = CoStopping" "co_live c" "co_currentBoot c = Some b"
    and run: "lease_run env view (c0, view s0) (c, view s)"
  shows "wp (eachC (abort_attempt env b) (co_activeAttempts c))
    (\<lambda>_ (c', s'). lease_run env view (c0, view s0) (c', view s') \<and> co_state c' = CoStopping \<and> co_live c'
       \<and> co_currentBoot c' = Some b \<and> co_activeAttempts c' = [])
    (\<lambda>_. stop_throws env view c0 s0) (c, s)"
proof -
  define I where "I = (\<lambda>xs (c', s'). lease_run env view (c0, view s0) (c', view s') \<and> co_state c' = CoStopping \<and> co_live c'
       \<and> co_currentBoot c' = Some b \<and> co_activeAttempts c' = xs)"
  have "wp (abort_attempt env b x) (\<lambda>_. I xs) (\<lambda>_. stop_throws env view c0 s0) st" if I: "I (x # xs) st" for x xs st
  proof -
    obtain c1 s1 k a where e: "st = (c1, s1)" "x = (k, a)" by force
    have live: "co_live (c1\<lparr>co_activeAttempts := xs\<rparr>)"
      using I e by (auto simp: I_def co_live_def split: option.splits)
    have "wp (abort_attempt env b (k, a))
      (\<lambda>_ (c', s'). lease_run env view (c0, view s0) (c', view s') \<and> c' = c1\<lparr>co_activeAttempts := xs\<rparr>)
      (\<lambda>_. stop_throws env view c0 s0) (c1, s1)"
      by (rule wp_abort_attempt) (use I e in \<open>auto simp: I_def\<close>)
    then show ?thesis unfolding e
      by (rule wp_mono) (use I live e in \<open>auto simp: I_def\<close>)
  qed
  from wp_each [of I, OF _ this] show ?thesis
    by (rule wp_mono) (use c run in \<open>auto simp: I_def\<close>)
qed

lemma wp_stop_body:
  assumes c: "co_state c = CoStopping" "co_live c" "co_currentBoot c = Some b"
    and run: "lease_run env view (c0, view s0) (c, view s)"
  shows "wp (stop_body env b reason)
    (\<lambda>x (c', s'). op_returns env view c0 s0 (c', s') \<and> co_state c' = CoGracefulStopped \<and> co_currentBoot c' = Some x
        \<and> co_activeAttempts c' = [])
    (\<lambda>_. stop_throws env view c0 s0) (c, s)"
  unfolding stop_body_def wp_bind wp_get split
proof (rule wp_mono [OF wp_abort_all [OF c run]], goal_cases)
  case (1 u st)
  obtain c1 s1 where st: "st = (c1, s1)" by force
  from 1 st have c1: "co_live c1" "co_currentBoot c1 = Some b" and r: "lease_run env view (c0, view s0) (c1, view s1)"
    and e: "co_state c1 = CoStopping" "co_activeAttempts c1 = []" by simp_all
  have same: "stop_throws env view c0 s0 (c1, s')" for s' using r c1 e by (auto simp: stop_throws_def)
  have now: "stop_throws env view c0 s0 (c', s')" if "fenced c1 c'" for c' s' using r e that by (auto simp: stop_throws_def)
  show ?case unfolding st
  proof (rule wp_observeOwnedBoot [OF c1 refl], goal_cases)
    case (1 t s2)
    show ?case
    proof (rule wp_call, goal_cases)
      case (1 b' s3)
      have "op_returns env view c0 s0 (c1\<lparr>co_currentBoot := Some b', co_state := CoGracefulStopped\<rparr>, s4)"
        if "validStoppedBoot b t reason b'" "view s4 = view s3" for s4
        using ls_stopped [where env = env and view = view, OF e(1) c1(2) _ e(2) 1 that(1)] r c1 that(2)
          \<open>view s2 = view s1\<close> \<open>be_lastHeartbeatAt b \<le> t\<close> \<open>t < be_leaseExpiresAt b\<close>
        by (simp add: op_returns_def lease_live_def co_live_def rtranclp.rtrancl_into_rtrancl)
      then show ?case
        by (auto simp: same e intro!: wp_observeOwnedBoot [OF c1 refl] now)
    next
      case (2 x s3) show ?case by (rule same)
    qed
  qed (auto intro: now)
qed simp

lemma wp_stopGracefully:
  assumes "co_ok c"
  shows "wp (stopGracefully env reason)
    (\<lambda>b (c', s'). op_returns env view c s (c', s') \<and> co_state c' = CoGracefulStopped \<and> co_currentBoot c' = Some b
        \<and> co_activeAttempts c' = [])
    (\<lambda>_. op_throws env view c s) (c, s)"
proof (cases "co_state c = CoGracefulStopped")
  case True
  with assms obtain b where "co_currentBoot c = Some b" "co_activeAttempts c = []"
    by (auto simp: co_ok_def split: option.splits)
  with True show ?thesis by (simp add: stopGracefully_def op_returns_refl)
next
  case False
  show ?thesis
    using False unfolding stopGracefully_def wp_bind
  proof (simp, intro wp_observeLiveBoot_first [OF assms], goal_cases)
    case (1 b t s1)
    let ?c = "c\<lparr>co_state := CoStopping, co_heartbeatTimer := False\<rparr>"
    have "lease_step env view (c, view s) (?c, view s)" by (rule ls_stopping) (rule 1)
    then have run: "lease_run env view (c, view s) (?c, view s1)" using 1 by auto
    have live: "co_live ?c" using 1 by (simp add: co_live_def split: option.splits)
    have "wp (stop_body env b reason)
      (\<lambda>x (c', s'). op_returns env view c s (c', s') \<and> co_state c' = CoGracefulStopped \<and> co_currentBoot c' = Some x
         \<and> co_activeAttempts c' = [])
      (\<lambda>_. stop_throws env view c s) (?c, s1)"
      by (rule wp_stop_body [OF _ live _ run]) (use 1 in simp_all)
    then show ?case
      by (simp, elim wp_mono) (auto intro: op_fenced_throws wp_mono [OF wp_stop_handler])
  next
    case (2 e c' s') then show ?case by (intro fenced_throws)
  next
    case (3 e) show ?case by (simp add: op_throws_same)
  qed
qed

end

section \<open>The coordinator as a state machine\<close>

text \<open>One call of the host or of the timer, returning or throwing, or a step of the world outside.\<close>

inductive co_step ::
  "('s) crash_env \<Rightarrow> (coordinator \<Rightarrow> 's \<Rightarrow> 's \<Rightarrow> bool) \<Rightarrow> coordinator \<times> 's \<Rightarrow> coordinator \<times> 's \<Rightarrow> bool"
  for env :: "('s) crash_env" and world :: "coordinator \<Rightarrow> 's \<Rightarrow> 's \<Rightarrow> bool" where
  cs_start: "start env p = (r, q) \<Longrightarrow> co_step env world p q"
| cs_heartbeat: "heartbeatNow env p = (r, q) \<Longrightarrow> co_step env world p q"
| cs_start_attempt: "startTurnAttempt env ai p = (a, q) \<Longrightarrow> co_step env world p q"
| cs_mark: "markTurnAttemptSafety env si p = (a, q) \<Longrightarrow> co_step env world p q"
| cs_terminalize: "terminalizeTurnAttempt env ti p = (a, q) \<Longrightarrow> co_step env world p q"
| cs_stop: "stopGracefully env reason p = (r, q) \<Longrightarrow> co_step env world p q"
| cs_world: "world c s s' \<Longrightarrow> co_step env world (c, s) (c, s')"

text \<open>How a call relates the coordinator before and after it.\<close>

definition op_result :: "('s) crash_env \<Rightarrow> ('s \<Rightarrow> 'v) \<Rightarrow> coordinator \<times> 's \<Rightarrow> coordinator \<times> 's \<Rightarrow> bool" where
  "op_result env view = (\<lambda>(c, s) (c', s'). c' = c \<and> view s' = view s
     \<or> lease_run env view (c, view s) (c', view s') \<and> co_state c' \<in> {CoRunning, CoGracefulStopped}
     \<or> op_fenced env view c s (c', s'))"

lemma wp_op_result:
  assumes "wp m Q (\<lambda>_. op_throws env view c s) (c, s)" "m (c, s) = (r, c', s')"
    "\<And>x. Q x (c', s') \<Longrightarrow> op_returns env view c s (c', s') \<and> co_state c' \<in> {CoRunning, CoGracefulStopped}"
  shows "op_result env view (c, s) (c', s')"
  using assms by (cases r) (auto simp: wp_def op_result_def op_throws_def op_returns_def)

context crash_reads
begin

lemma op_results:
  assumes "co_ok c"
  shows "heartbeatNow env (c, s) = (r, c', s') \<Longrightarrow> op_result env view (c, s) (c', s')"
    and "startTurnAttempt env ai (c, s) = (a, c', s') \<Longrightarrow> op_result env view (c, s) (c', s')"
    and "markTurnAttemptSafety env si (c, s) = (a, c', s') \<Longrightarrow> op_result env view (c, s) (c', s')"
    and "terminalizeTurnAttempt env ti (c, s) = (a, c', s') \<Longrightarrow> op_result env view (c, s) (c', s')"
    and "stopGracefully env reason (c, s) = (r, c', s') \<Longrightarrow> op_result env view (c, s) (c', s')"
proof -
  show "heartbeatNow env (c, s) = (r, c', s') \<Longrightarrow> op_result env view (c, s) (c', s')"
    by (rule wp_op_result [OF wp_heartbeatNow [OF assms]]) auto
  show "startTurnAttempt env ai (c, s) = (a, c', s') \<Longrightarrow> op_result env view (c, s) (c', s')"
    by (rule wp_op_result [OF wp_startTurnAttempt [OF assms]]) auto
  show "markTurnAttemptSafety env si (c, s) = (a, c', s') \<Longrightarrow> op_result env view (c, s) (c', s')"
    by (rule wp_op_result [OF wp_markTurnAttemptSafety [OF assms]]) auto
  show "terminalizeTurnAttempt env ti (c, s) = (a, c', s') \<Longrightarrow> op_result env view (c, s) (c', s')"
    by (rule wp_op_result [OF wp_terminalizeTurnAttempt [OF assms]]) auto
  show "stopGracefully env reason (c, s) = (r, c', s') \<Longrightarrow> op_result env view (c, s) (c', s')"
    by (rule wp_op_result [OF wp_stopGracefully [OF assms]]) auto
qed

lemma start_result:
  assumes "co_ok c" "start env (c, s) = (r, c', s')"
  shows "c' = c \<or> lease_run env view (c, view s) (c', view s') \<and> co_state c' = CoRunning \<or> op_fenced env view c s (c', s')"
  using wp_start [OF assms(1), of s] assms(2) by (cases r) (auto simp: wp_def op_returns_def)

end

interpretation any_env: crash_reads env "\<lambda>_. ()" for env :: "('s) crash_env"
  by unfold_locales simp_all

lemma fenced_state: "op_fenced env view c s (c', s') \<Longrightarrow> co_state c' = CoOwnershipLost \<and> co_ok c'"
  by (auto simp: op_fenced_def dest: fenced_fields fenced_ok)

lemma op_result_ok:
  "op_result env view (c, s) (c', s') \<Longrightarrow> co_ok c \<and> co_state c \<noteq> CoStopping \<Longrightarrow> co_ok c' \<and> co_state c' \<noteq> CoStopping"
  using fenced_state [of env view c s c' s'] lease_run_ok [of env view "(c, view s)" "(c', view s')"]
  by (auto simp: op_result_def)

lemma co_step_ok: "co_step env world p q \<Longrightarrow> co_ok (fst p) \<and> co_state (fst p) \<noteq> CoStopping \<Longrightarrow> co_ok (fst q) \<and> co_state (fst q) \<noteq> CoStopping"
proof (induction rule: co_step.induct)
  case (cs_start p r q)
  obtain c s c' s' where "p = (c, s)" "q = (c', s')" by fastforce
  with cs_start any_env.start_result [of c env s r c' s'] fenced_state [of env "\<lambda>_. ()" c s c' s']
      lease_run_ok [of env "\<lambda>_. ()" "(c, ())" "(c', ())"] show ?case by auto
qed (metis any_env.op_results(1) op_result_ok prod.collapse, metis any_env.op_results(2) op_result_ok prod.collapse,
  metis any_env.op_results(3) op_result_ok prod.collapse, metis any_env.op_results(4) op_result_ok prod.collapse,
  metis any_env.op_results(5) op_result_ok prod.collapse, simp)

lemma newCoordinator_ok: "newCoordinator i pid e m l h = Inr c \<Longrightarrow> co_ok c \<and> co_state c = CoIdle"
  by (auto simp: newCoordinator_def co_ok_def)

lemma co_reachable_ok:
  assumes "newCoordinator i pid e m l h = Inr c0" "(co_step env world)\<^sup>*\<^sup>* (c0, s0) (c, s)"
  shows "co_ok c \<and> co_state c \<noteq> CoStopping"
proof -
  have "(co_step env world)\<^sup>*\<^sup>* p q \<Longrightarrow> co_ok (fst p) \<and> co_state (fst p) \<noteq> CoStopping
      \<Longrightarrow> co_ok (fst q) \<and> co_state (fst q) \<noteq> CoStopping" for p q
    by (induction rule: rtranclp_induct) (auto dest: co_step_ok)
  from this [OF assms(2)] newCoordinator_ok [OF assms(1)] show ?thesis by simp
qed

end
