(* ===== verification/CoordinatorLedger.thy ===== *)
theory CoordinatorLedger
  imports CoordinatorSafety
begin

text \<open>
  The coordinator on the ledger. The locale \<open>crash_store\<close> is what a coordinator relies on: a write that
  returns a row stores that row and nothing else. In it the coordinator refines the ledger: until
  ownership is lost its active attempts are exactly the running rows of its boot, whatever other
  processes do to their own rows. \<open>ledger_env\<close> is the store of \<open>CrashLedger\<close> with a clock, and interprets
  the locale.
\<close>

section \<open>The interface of the store\<close>

type_synonym ledger_view = "(string \<Rightarrow> boot_epoch option) \<times> (string \<Rightarrow> attempt_row option)"

text \<open>A write that returns a row leaves the store with that row under its key and all others as they were.\<close>

locale crash_store = crash_reads env view for env :: "('s) crash_env" and view :: "'s \<Rightarrow> ledger_view" +
  assumes create_boot_view: "ce_createBootEpoch env bi s = (Inr b, s') \<Longrightarrow> view s' = ((fst (view s))(be_bootEpoch b \<mapsto> b), snd (view s))"
    and heartbeat_boot_view: "ce_heartbeatBootEpoch env k t l s = (Inr b, s') \<Longrightarrow> view s' = ((fst (view s))(be_bootEpoch b \<mapsto> b), snd (view s))"
    and stop_boot_view: "ce_markBootEpochGracefulStopped env k t reason s = (Inr b, s') \<Longrightarrow> view s' = ((fst (view s))(be_bootEpoch b \<mapsto> b), snd (view s))"
    and create_attempt_view: "ce_createTurnAttempt env ai s = (Inr a, s') \<Longrightarrow> view s' = (fst (view s), (snd (view s))(ta_attemptId a \<mapsto> a))"
    and heartbeat_attempt_view: "ce_heartbeatTurnAttempt env k e t l s = (Inr a, s') \<Longrightarrow> view s' = (fst (view s), (snd (view s))(ta_attemptId a \<mapsto> a))"
    and mark_attempt_view: "ce_markTurnAttemptSafety env si s = (Inr a, s') \<Longrightarrow> view s' = (fst (view s), (snd (view s))(ta_attemptId a \<mapsto> a))"
    and end_attempt_view: "ce_terminalizeTurnAttempt env ti s = (Inr a, s') \<Longrightarrow> view s' = (fst (view s), (snd (view s))(ta_attemptId a \<mapsto> a))"

text \<open>The running attempt of a boot under a key, and a coordinator that mirrors its part of the store.\<close>

definition live_row :: "(string \<Rightarrow> attempt_row option) \<Rightarrow> string \<Rightarrow> string \<Rightarrow> attempt_row option" where
  "live_row A e k = (case A k of None \<Rightarrow> None | Some a \<Rightarrow> if ta_status a = Running \<and> ta_bootEpoch a = e then Some a else None)"

definition mirrors :: "boot_epoch \<Rightarrow> (string \<times> attempt_row) list \<Rightarrow> ledger_view \<Rightarrow> bool" where
  "mirrors b active v \<longleftrightarrow> fst v (be_bootEpoch b) = Some b \<and> map_of active = live_row (snd v) (be_bootEpoch b)"

definition tracks :: "coordinator \<Rightarrow> ledger_view \<Rightarrow> bool" where
  "tracks c v \<longleftrightarrow> co_state c \<noteq> CoOwnershipLost \<longrightarrow>
     (case co_currentBoot c of None \<Rightarrow> False | Some b \<Rightarrow> mirrors b (co_activeAttempts c) v)"

lemma map_of_obj_set: "map_of (obj_set k a xs) = (map_of xs)(k \<mapsto> a)"
proof
  fix x show "map_of (obj_set k a xs) x = ((map_of xs)(k \<mapsto> a)) x" by (cases "x = k") simp_all
qed

lemma map_of_obj_del: "map_of (obj_del k xs) = (map_of xs)(k := None)"
proof
  fix x show "map_of (obj_del k xs) x = ((map_of xs)(k := None)) x" by (cases "x = k") simp_all
qed

lemma live_row_running: "ta_status a = Running \<Longrightarrow> ta_bootEpoch a = e \<Longrightarrow> live_row (A(k \<mapsto> a)) e = (live_row A e)(k \<mapsto> a)"
  by (auto simp: live_row_def fun_eq_iff)

lemma live_row_ended: "ta_status a \<noteq> Running \<Longrightarrow> live_row (A(k \<mapsto> a)) e = (live_row A e)(k := None)"
  by (auto simp: live_row_def fun_eq_iff)

text \<open>What other processes do to the store leaves the rows of this boot alone.\<close>

definition foreign :: "('s \<Rightarrow> ledger_view) \<Rightarrow> coordinator \<Rightarrow> 's \<Rightarrow> 's \<Rightarrow> bool" where
  "foreign view c s s' \<longleftrightarrow> (case co_currentBoot c of None \<Rightarrow> True
     | Some b \<Rightarrow> fst (view s') (be_bootEpoch b) = fst (view s) (be_bootEpoch b)
         \<and> live_row (snd (view s')) (be_bootEpoch b) = live_row (snd (view s)) (be_bootEpoch b))"

context crash_store
begin

lemma lease_step_tracks:
  "lease_step env view (c, v) (c', v') \<Longrightarrow> co_ok c \<Longrightarrow> co_state c \<noteq> CoIdle \<Longrightarrow> tracks c v \<Longrightarrow> tracks c' v'"
proof (induction "(c, v)" "(c', v')" arbitrary: c v c' v' rule: lease_step.induct)
  case (ls_boot c b t s b' s')
  then show ?case using heartbeat_boot_view [OF ls_boot(4)]
    by (auto simp: tracks_def mirrors_def validRenewedBoot_def)
next
  case (ls_renew c b t k a s a' s')
  then have "co_live c" by (simp add: co_ok_def)
  from holds_active [OF this ls_renew(4)] ls_renew heartbeat_attempt_view [OF ls_renew(6)] show ?case
    by (auto simp: tracks_def mirrors_def validRenewedAttempt_def hasSameAttemptIdentity_def holds_attempt_def
          map_of_obj_set live_row_running)
next
  case (ls_new c b t t0 inp s a s')
  then show ?case using create_attempt_view [OF ls_new(5)]
    by (auto simp: tracks_def mirrors_def validNewAttempt_def map_of_obj_set live_row_running)
next
  case (ls_mark c b t inp a t0 s a' s')
  then have "co_live c" by (simp add: co_ok_def)
  from holds_active [OF this ls_mark(4)] ls_mark mark_attempt_view [OF ls_mark(7)] show ?case
    by (auto simp: tracks_def mirrors_def validMarkedAttempt_def hasSameAttemptIdentity_def holds_attempt_def
          map_of_obj_set live_row_running)
next
  case (ls_end c b t inp a t0 s a' s')
  then have "co_live c" by (auto simp: co_ok_def)
  from holds_active [OF this ls_end(4)] ls_end end_attempt_view [OF ls_end(7)] show ?case
    by (auto simp: tracks_def mirrors_def validEndedAttempt_def hasSameAttemptIdentity_def holds_attempt_def
          map_of_obj_del live_row_ended)
next
  case (ls_stopped c b t reason s b' s')
  then show ?case using stop_boot_view [OF ls_stopped(5)]
    by (auto simp: tracks_def mirrors_def validStoppedBoot_def)
qed (auto simp: tracks_def split: option.splits)

lemma lease_step_not_idle: "lease_step env view p q \<Longrightarrow> co_state (fst p) \<noteq> CoIdle \<Longrightarrow> co_state (fst q) \<noteq> CoIdle"
  by (induction rule: lease_step.induct) auto

lemma lease_run_tracks:
  "lease_run env view p q \<Longrightarrow> co_ok (fst p) \<Longrightarrow> co_state (fst p) \<noteq> CoIdle \<Longrightarrow> tracks (fst p) (snd p)
   \<Longrightarrow> tracks (fst q) (snd q) \<and> co_ok (fst q) \<and> co_state (fst q) \<noteq> CoIdle"
proof (induction rule: rtranclp_induct)
  case (step q r)
  then have q: "tracks (fst q) (snd q)" "co_ok (fst q)" "co_state (fst q) \<noteq> CoIdle" by simp_all
  from step.hyps(2) q lease_step_tracks [of "fst q" "snd q" "fst r" "snd r"]
    lease_step_ok [OF step.hyps(2)] lease_step_not_idle [OF step.hyps(2)] show ?case by simp
qed simp

lemma op_result_tracks:
  assumes "op_result env view (c, s) (c', s')" "co_ok c" "co_state c \<noteq> CoIdle" "tracks c (view s)"
  shows "tracks c' (view s') \<and> co_ok c' \<and> co_state c' \<noteq> CoIdle"
  using assms lease_run_tracks [of "(c, view s)" "(c', view s')"] fenced_state [of env view c s c' s']
  by (auto simp: op_result_def tracks_def)

lemma co_step_tracks:
  assumes "co_step env (foreign view) p q" "co_ok (fst p)" "co_state (fst p) \<noteq> CoIdle" "tracks (fst p) (view (snd p))"
  shows "tracks (fst q) (view (snd q)) \<and> co_ok (fst q) \<and> co_state (fst q) \<noteq> CoIdle"
proof -
  obtain c s c' s' where e: "p = (c, s)" "q = (c', s')" by fastforce
  note ok = assms(2) [unfolded e fst_conv]
  from assms(1) [unfolded e] have "op_result env view (c, s) (c', s') \<or> c' = c \<and> foreign view c s s'"
  proof cases
    case (cs_start r)
    with assms(3) e show ?thesis by (auto simp: start_def bindC_def getC_def unlessC_def throwC_def op_result_def)
  next
    case (cs_heartbeat r) from op_results(1) [OF ok this] show ?thesis ..
  next
    case (cs_start_attempt ai a) from op_results(2) [OF ok this] show ?thesis ..
  next
    case (cs_mark si a) from op_results(3) [OF ok this] show ?thesis ..
  next
    case (cs_terminalize ti a) from op_results(4) [OF ok this] show ?thesis ..
  next
    case (cs_stop reason r) from op_results(5) [OF ok this] show ?thesis ..
  qed simp
  then show ?thesis
  proof
    assume "op_result env view (c, s) (c', s')"
    from op_result_tracks [OF this] assms e show ?thesis by simp
  next
    assume "c' = c \<and> foreign view c s s'"
    with assms e show ?thesis by (auto simp: tracks_def mirrors_def foreign_def split: option.splits)
  qed
qed

lemma co_run_tracks:
  "(co_step env (foreign view))\<^sup>*\<^sup>* p q \<Longrightarrow> co_ok (fst p) \<Longrightarrow> co_state (fst p) \<noteq> CoIdle \<Longrightarrow> tracks (fst p) (view (snd p))
   \<Longrightarrow> tracks (fst q) (view (snd q)) \<and> co_ok (fst q) \<and> co_state (fst q) \<noteq> CoIdle"
  by (induction rule: rtranclp_induct) (auto dest: co_step_tracks)

text \<open>Starting with a boot epoch that is new and owns no running attempt.\<close>

lemma lease_step_epoch:
  "lease_step env view p q \<Longrightarrow> co_state (fst p) \<noteq> CoIdle
   \<Longrightarrow> map_option be_bootEpoch (co_currentBoot (fst q)) = map_option be_bootEpoch (co_currentBoot (fst p))"
  by (induction rule: lease_step.induct) (auto simp: validRenewedBoot_def validStoppedBoot_def)

lemma lease_run_epoch:
  "lease_run env view p q \<Longrightarrow> co_state (fst p) \<noteq> CoIdle
   \<Longrightarrow> map_option be_bootEpoch (co_currentBoot (fst q)) = map_option be_bootEpoch (co_currentBoot (fst p)) \<and> co_state (fst q) \<noteq> CoIdle"
  by (induction rule: rtranclp_induct) (auto dest: lease_step_epoch lease_step_not_idle)

lemma start_tracks:
  assumes "co_ok c" "co_state c = CoIdle" "start env (c, s) = (Inr b, c', s')"
    "live_row (snd (view s)) (be_bootEpoch b) = Map.empty"
  shows "tracks c' (view s') \<and> co_ok c' \<and> co_state c' \<noteq> CoIdle"
proof -
  from wp_Inr [OF wp_start [OF assms(1)] assms(3)]
  have run: "lease_run env view (c, view s) (c', view s')" and c': "co_state c' = CoRunning" "co_currentBoot c' = Some b"
    by (simp_all add: op_returns_def)
  from run c'(1) assms(2) obtain p where p: "lease_step env view (c, view s) p" "lease_run env view p (c', view s')"
    by (auto elim: converse_rtranclpE)
  from p(1) obtain b1 s1 bi s0 where e: "p = (c\<lparr>co_currentBoot := Some b1, co_state := CoRunning\<rparr>, view s1)"
      and s0: "view s0 = view s" and b1: "ce_createBootEpoch env bi s0 = (Inr b1, s1)"
    by (cases rule: lease_step.cases) (use assms(2) in auto)
  have "be_bootEpoch b1 = be_bootEpoch b" using lease_run_epoch [OF p(2)] c' e by simp
  moreover have "co_activeAttempts c = []" using assms(1,2) by (simp add: co_ok_def)
  ultimately have "tracks (fst p) (snd p)"
    using create_boot_view [OF b1] assms(4) s0 by (simp add: e tracks_def mirrors_def)
  from lease_run_tracks [OF p(2) _ _ this] lease_step_ok [OF p(1)] assms(1) e show ?thesis by simp
qed

end

section \<open>The ledger as the store\<close>

text \<open>
  The operations of \<open>sqliteCrashRecoveryStore\<close> that the coordinator uses, on a ledger and the number of
  readings so far; the clock, the fresh ids and the timer are functions of that number. All times
  are given by the coordinator, so the time a store operation falls back to is not used.
\<close>

definition on_ledger ::
  "(ledger \<Rightarrow> ledger_error + 'r \<times> ledger) \<Rightarrow> ledger \<times> nat \<Rightarrow> (ledger_error + 'r) \<times> (ledger \<times> nat)" where
  "on_ledger f = (\<lambda>(ld, n). case f ld of Inl e \<Rightarrow> (Inl e, (ld, n)) | Inr (r, ld') \<Rightarrow> (Inr r, (ld', n)))"

definition ledger_env ::
  "(nat \<Rightarrow> int option) \<Rightarrow> (nat \<Rightarrow> string) \<Rightarrow> (nat \<Rightarrow> bool) \<Rightarrow> (ledger \<times> nat) crash_env" where
  "ledger_env clock uuid timer =
     \<lparr>ce_createBootEpoch = (\<lambda>bi (ld, n). on_ledger (createRuntimeBootEpoch (uuid n) 0 bi) (ld, Suc n)),
      ce_heartbeatBootEpoch = (\<lambda>k t l. on_ledger (heartbeatRuntimeBootEpoch 0 k (Some t) l)),
      ce_markBootEpochGracefulStopped =
        (\<lambda>k t reason. on_ledger (markRuntimeBootEpochGracefulStopped 0 k (Some t) (map_option Some reason))),
      ce_createTurnAttempt = (\<lambda>ai (ld, n). on_ledger (createRuntimeTurnAttempt (uuid n) 0 ai) (ld, Suc n)),
      ce_heartbeatTurnAttempt = (\<lambda>k e t l. on_ledger (heartbeatRuntimeTurnAttempt 0 k e (Some t) l)),
      ce_markTurnAttemptSafety = (\<lambda>si. on_ledger (markRuntimeTurnAttemptSafety 0 si)),
      ce_terminalizeTurnAttempt = (\<lambda>ti. on_ledger (terminalizeRuntimeTurnAttempt 0 ti)),
      ce_now = (\<lambda>(ld, n). (clock n, (ld, Suc n))),
      ce_setInterval = (\<lambda>(ld, n). (timer n, (ld, Suc n)))\<rparr>"

definition rows_of :: "ledger \<times> nat \<Rightarrow> ledger_view" where
  "rows_of s = ((\<lambda>k. getBootEpochRow (fst s) k), (\<lambda>k. getTurnAttemptRow (fst s) k))"

lemma table_effect_view:
  assumes "table_effect key fresh le row rows rows'"
  shows "(\<lambda>k. row_of key k rows') = (\<lambda>k. row_of key k rows)(key row \<mapsto> row)"
proof
  fix k
  show "row_of key k rows' = ((\<lambda>k. row_of key k rows)(key row \<mapsto> row)) k"
  proof (cases "k = key row")
    case True
    with table_effect_row [OF assms] show ?thesis by simp
  next
    case False
    with assms show ?thesis unfolding table_effect_def
      by (elim disjE exE conjE) (simp_all add: row_of_append row_of_put split: option.split)
  qed
qed

lemma boot_effect_view:
  assumes "boot_effect b ld ld'"
  shows "rows_of (ld', n') = ((fst (rows_of (ld, n)))(be_bootEpoch b \<mapsto> b), snd (rows_of (ld, n)))"
proof -
  have "(\<lambda>k. getBootEpochRow ld' k) = (\<lambda>k. getBootEpochRow ld k)(be_bootEpoch b \<mapsto> b)"
    using assms unfolding boot_effect_def by (blast dest: table_effect_view)
  with boot_effect_attempts [OF assms] show ?thesis by (simp add: rows_of_def)
qed

lemma attempt_effect_view:
  assumes "attempt_effect a ld ld'"
  shows "rows_of (ld', n') = (fst (rows_of (ld, n)), (snd (rows_of (ld, n)))(ta_attemptId a \<mapsto> a))"
proof -
  have "(\<lambda>k. getTurnAttemptRow ld' k) = (\<lambda>k. getTurnAttemptRow ld k)(ta_attemptId a \<mapsto> a)"
    using assms unfolding attempt_effect_def by (blast dest: table_effect_view)
  with attempt_effect_boots [OF assms] show ?thesis by (simp add: rows_of_def)
qed

lemma on_ledger_Inr: "on_ledger f s = (Inr r, s') \<longleftrightarrow> f (fst s) = Inr (r, fst s') \<and> snd s' = snd s"
  by (cases s; cases s') (auto simp: on_ledger_def split: sum.splits)

interpretation sqlite: crash_store "ledger_env clock uuid timer" rows_of for clock uuid timer
proof unfold_locales
  fix s s' :: "ledger \<times> nat"
  note d = ledger_env_def on_ledger_Inr split_beta
  note b = boot_effect_view [where n = "snd s" and n' = "snd s'" and ld = "fst s" and ld' = "fst s'", simplified]
  note a = attempt_effect_view [where n = "snd s" and n' = "snd s'" and ld = "fst s" and ld' = "fst s'", simplified]
  show "ce_now (ledger_env clock uuid timer) s = (t, s') \<Longrightarrow> rows_of s' = rows_of s" for t
    by (cases s) (auto simp: ledger_env_def rows_of_def)
  show "ce_setInterval (ledger_env clock uuid timer) s = (ok, s') \<Longrightarrow> rows_of s' = rows_of s" for ok
    by (cases s) (auto simp: ledger_env_def rows_of_def)
  show "ce_createBootEpoch (ledger_env clock uuid timer) bi s = (Inr x, s') \<Longrightarrow> rows_of s' = ((fst (rows_of s))(be_bootEpoch x \<mapsto> x), snd (rows_of s))" for bi x
    by (rule b) (auto simp: d intro: boot_effects)
  show "ce_heartbeatBootEpoch (ledger_env clock uuid timer) k t l s = (Inr x, s') \<Longrightarrow> rows_of s' = ((fst (rows_of s))(be_bootEpoch x \<mapsto> x), snd (rows_of s))" for k t l x
    by (rule b) (auto simp: d intro: boot_effects)
  show "ce_markBootEpochGracefulStopped (ledger_env clock uuid timer) k t reason s = (Inr x, s') \<Longrightarrow> rows_of s' = ((fst (rows_of s))(be_bootEpoch x \<mapsto> x), snd (rows_of s))" for k t reason x
    by (rule b) (auto simp: d markRuntimeBootEpochGracefulStopped_def intro: boot_effects)
  show "ce_createTurnAttempt (ledger_env clock uuid timer) ai s = (Inr x, s') \<Longrightarrow> rows_of s' = (fst (rows_of s), (snd (rows_of s))(ta_attemptId x \<mapsto> x))" for ai x
    by (rule a) (auto simp: d intro: attempt_effects)
  show "ce_heartbeatTurnAttempt (ledger_env clock uuid timer) k e t l s = (Inr x, s') \<Longrightarrow> rows_of s' = (fst (rows_of s), (snd (rows_of s))(ta_attemptId x \<mapsto> x))" for k e t l x
    by (rule a) (auto simp: d intro: attempt_effects)
  show "ce_markTurnAttemptSafety (ledger_env clock uuid timer) si s = (Inr x, s') \<Longrightarrow> rows_of s' = (fst (rows_of s), (snd (rows_of s))(ta_attemptId x \<mapsto> x))" for si x
    by (rule a) (auto simp: d intro: attempt_effects)
  show "ce_terminalizeTurnAttempt (ledger_env clock uuid timer) ti s = (Inr x, s') \<Longrightarrow> rows_of s' = (fst (rows_of s), (snd (rows_of s))(ta_attemptId x \<mapsto> x))" for ti x
    by (rule a) (auto simp: d intro: attempt_effects)
qed

interpretation sqlite_reads: crash_reads "ledger_env clock uuid timer" fst for clock uuid timer
  by unfold_locales (auto simp: ledger_env_def)

section \<open>Properties of the coordinator\<close>

lemma accepting_iff:
  "acceptingDeliveries env (c, s) = (True, s') \<longleftrightarrow>
     (\<exists>b t. co_state c = CoRunning \<and> co_currentBoot c = Some b \<and> be_status b = BootActive \<and> ce_now env s = (Some t, s')
        \<and> be_lastHeartbeatAt b \<le> t \<and> t < be_leaseExpiresAt b)"
  by (auto simp: acceptingDeliveries_def split: option.splits if_splits prod.splits)

lemma co_ok_active:
  assumes "co_ok c" "co_state c \<noteq> CoStopping" "(k, a) \<in> set (co_activeAttempts c)"
  shows "co_state c = CoRunning \<and> ta_attemptId a = k \<and> ta_status a = Running
    \<and> (\<exists>b. co_currentBoot c = Some b \<and> be_status b = BootActive \<and> ta_bootEpoch a = be_bootEpoch b
         \<and> ta_leaseExpiresAt a \<le> be_leaseExpiresAt b)"
proof -
  have s: "co_state c = CoRunning" "co_live c"
    using assms by (auto simp: co_ok_def split: coordinator_state.splits)
  with assms(3) show ?thesis
    by (fastforce simp: co_live_def list_all_iff holds_attempt_def split: option.splits)
qed

lemma co_ok_fields:
  assumes "co_ok c" "co_state c \<noteq> CoStopping"
  shows "distinct (map fst (co_activeAttempts c)) \<and> (co_heartbeatTimer c \<longrightarrow> co_state c = CoRunning)
    \<and> (co_state c = CoOwnershipLost \<longleftrightarrow> co_ownershipLostError c \<noteq> None)"
  using assms by (cases "co_state c") (auto simp: co_ok_def co_live_def)

text \<open>A coordinator, a turn attempt in it, and the environment of the examples.\<close>

definition demo_env :: "(ledger \<times> nat) crash_env" where
  "demo_env = ledger_env (\<lambda>n. Some (100 + int (min n 20))) (\<lambda>_. ''u'') (\<lambda>_. True)"

definition demo_coordinator :: coordinator where
  "demo_coordinator = (case newCoordinator ''i'' 7 (Some ''b'') None (Some 60) (Some 10) of Inr c \<Rightarrow> c | Inl _ \<Rightarrow> undefined)"

definition demo_turn :: attempt_input where
  "demo_turn = demo_attempt\<lparr>ai_startedAt := None\<rparr>"

definition demo_p1 :: "coordinator \<times> (ledger \<times> nat)" where
  "demo_p1 = snd (start demo_env (demo_coordinator, (empty_ledger, 0)))"

definition demo_p2 :: "coordinator \<times> (ledger \<times> nat)" where
  "demo_p2 = snd (startTurnAttempt demo_env demo_turn demo_p1)"

lemma demo_results:
  "newCoordinator ''i'' 7 (Some ''b'') None (Some 60) (Some 10) = Inr demo_coordinator"
  "\<not> isl (fst (start demo_env (demo_coordinator, (empty_ledger, 0))))"
  "\<not> isl (fst (startTurnAttempt demo_env demo_turn demo_p1))"
  "\<not> isl (fst (heartbeatNow demo_env demo_p2))"
  "\<not> isl (fst (stopGracefully demo_env (Some ''bye'') demo_p2))"
  by code_simp+

lemma demo_steps:
  "co_step demo_env world (demo_coordinator, (empty_ledger, 0)) demo_p1"
  "co_step demo_env world demo_p1 demo_p2"
  unfolding demo_p1_def demo_p2_def by (rule cs_start, rule prod.collapse [symmetric]) (rule cs_start_attempt, rule prod.collapse [symmetric])

lemma demo_reach: "(co_step demo_env world)\<^sup>*\<^sup>* (demo_coordinator, (empty_ledger, 0)) (fst demo_p2, snd demo_p2)"
  using demo_steps [of world] by (metis (no_types) prod.collapse r_into_rtranclp rtranclp.rtrancl_into_rtrancl)

text \<open>C8: Whatever the store, the clock and other processes do, and whichever calls return or throw: the attempts a
  coordinator holds are running, are owned by its live boot and never outlive its lease; it holds none, and no timer, unless it
  is running; and it accepts deliveries only while the clock is within the lease of its boot.\<close>

theorem coordinator_invariant:
  assumes "newCoordinator i pid e m l h = Inr c0" "(co_step env world)\<^sup>*\<^sup>* (c0, s0) (c, s)"
  shows "distinct (map fst (co_activeAttempts c))
    \<and> (\<forall>(k, a)\<in>set (co_activeAttempts c). co_state c = CoRunning \<and> ta_attemptId a = k \<and> ta_status a = Running
         \<and> (\<exists>b. co_currentBoot c = Some b \<and> be_status b = BootActive \<and> ta_bootEpoch a = be_bootEpoch b
              \<and> ta_leaseExpiresAt a \<le> be_leaseExpiresAt b))
    \<and> (co_heartbeatTimer c \<longrightarrow> co_state c = CoRunning)
    \<and> (co_state c = CoOwnershipLost \<longleftrightarrow> co_ownershipLostError c \<noteq> None)
    \<and> (\<forall>s'. acceptingDeliveries env (c, s) = (True, s') \<longrightarrow>
         (\<exists>b t. co_state c = CoRunning \<and> co_currentBoot c = Some b \<and> be_status b = BootActive \<and> ce_now env s = (Some t, s')
            \<and> be_lastHeartbeatAt b \<le> t \<and> t < be_leaseExpiresAt b))"
proof -
  note ok = co_reachable_ok [OF assms]
  from co_ok_fields [OF conjunct1 [OF ok] conjunct2 [OF ok]] co_ok_active [OF conjunct1 [OF ok] conjunct2 [OF ok]]
  show ?thesis by (auto simp: accepting_iff)
qed

theorem coordinator_invariant_witness:
  "\<exists>b. co_currentBoot (fst demo_p2) = Some b \<and> be_status b = BootActive"
proof -
  have "\<exists>s'. acceptingDeliveries demo_env (fst demo_p2, snd demo_p2) = (True, s')"
    by (intro exI [of _ "snd (acceptingDeliveries demo_env (fst demo_p2, snd demo_p2))"]) code_simp
  with coordinator_invariant [OF demo_results(1) demo_reach [of "\<lambda>_ _ _. False"]] show ?thesis by blast
qed

text \<open>A coordinator that has lost ownership stays out for good: no call reads the clock, calls the store, or changes
  anything, each throws, and no delivery is accepted.\<close>

theorem lost_ownership_is_final:
  assumes "newCoordinator i pid ep m l h = Inr c0" "(co_step env world)\<^sup>*\<^sup>* (c0, s0) (c, s)" "co_state c = CoOwnershipLost"
  shows "\<exists>e. co_ownershipLostError c = Some e \<and> heartbeatNow env (c, s) = (Inl (CoOwnershipLostError e), (c, s))
    \<and> startTurnAttempt env ai (c, s) = (Inl (CoOwnershipLostError e), (c, s))
    \<and> markTurnAttemptSafety env si (c, s) = (Inl (CoOwnershipLostError e), (c, s))
    \<and> terminalizeTurnAttempt env ti (c, s) = (Inl (CoOwnershipLostError e), (c, s))
    \<and> stopGracefully env reason (c, s) = (Inl (CoOwnershipLostError e), (c, s))
    \<and> (\<exists>e'. start env (c, s) = (Inl e', (c, s)))
    \<and> acceptingDeliveries env (c, s) = (False, s)"
proof -
  from co_ok_fields co_reachable_ok [OF assms(1,2)] assms(3) obtain e where e: "co_ownershipLostError c = Some e" by blast
  then have "requireRunningBoot (c, s) = (Inl (CoOwnershipLostError e), (c, s))"
    using assms(3) by (simp add: requireRunningBoot_def bindC_def getC_def throwC_def)
  then have o: "observeLiveBoot env (c, s) = (Inl (CoOwnershipLostError e), (c, s))"
    by (simp add: observeLiveBoot_def bindC_def)
  show ?thesis
    using assms(3) e o
    by (intro exI [of _ e]) (simp add: heartbeatNow_def startTurnAttempt_def markTurnAttemptSafety_def terminalizeTurnAttempt_def
        stopGracefully_def start_def acceptingDeliveries_def bindC_def getC_def unlessC_def throwC_def split: option.split)
qed

text \<open>The clock of this environment stands still after the third reading, so a lease of one millisecond is lost.\<close>

definition late_env :: "(ledger \<times> nat) crash_env" where
  "late_env = ledger_env (\<lambda>n. Some (if n \<le> 2 then 100 else 1000)) (\<lambda>_. ''u'') (\<lambda>_. True)"

definition late_p :: "coordinator \<times> (ledger \<times> nat)" where
  "late_p = snd (heartbeatNow late_env (snd (start late_env (demo_coordinator, (empty_ledger, 0)))))"

theorem lost_ownership_is_final_witness:
  "\<exists>e. startTurnAttempt late_env demo_turn (fst late_p, snd late_p) = (Inl (CoOwnershipLostError e), late_p)"
proof -
  have "(co_step late_env (\<lambda>_ _ _. False))\<^sup>*\<^sup>* (demo_coordinator, (empty_ledger, 0)) (fst late_p, snd late_p)"
    unfolding late_p_def prod.collapse
    by (rule rtranclp.rtrancl_into_rtrancl [OF r_into_rtranclp]; (rule cs_start cs_heartbeat, rule prod.collapse [symmetric])?)
  moreover have "co_state (fst late_p) = CoOwnershipLost" by code_simp
  ultimately show ?thesis using lost_ownership_is_final [OF demo_results(1)] by fastforce
qed

text \<open>C9: A heartbeat, the start of a turn attempt, a safety mark, the end of an attempt and a graceful stop of a reachable
  coordinator each do one of three things, whether they return or throw: they change neither the coordinator nor the ledger;
  or they are a sequence of ledger writes, each made while the leases of boot and attempt were live and published exactly as
  written, after which the coordinator is running or stopped gracefully; or they fence the coordinator, which then holds no
  attempt and keeps the error. (The call that starts the coordinator is not among them: given a boot epoch with surrounding blanks
  it creates the row of the boot and then throws while the coordinator stays idle.)\<close>

theorem coordinator_calls_refine_leases:
  assumes "newCoordinator i pid ep m l h = Inr c0" "(co_step (ledger_env clock uuid timer) world)\<^sup>*\<^sup>* (c0, s0) (c, s)"
    and "heartbeatNow (ledger_env clock uuid timer) (c, s) = (r, (c', s'))
       \<or> startTurnAttempt (ledger_env clock uuid timer) ai (c, s) = (a, (c', s'))
       \<or> markTurnAttemptSafety (ledger_env clock uuid timer) si (c, s) = (a, (c', s'))
       \<or> terminalizeTurnAttempt (ledger_env clock uuid timer) ti (c, s) = (a, (c', s'))
       \<or> stopGracefully (ledger_env clock uuid timer) reason (c, s) = (r, (c', s'))"
  shows "c' = c \<and> fst s' = fst s
    \<or> lease_run (ledger_env clock uuid timer) fst (c, fst s) (c', fst s') \<and> co_state c' \<in> {CoRunning, CoGracefulStopped}
    \<or> co_state c' = CoOwnershipLost \<and> co_activeAttempts c' = [] \<and> co_ownershipLostError c' \<noteq> None"
proof -
  have ok: "co_ok c" using co_reachable_ok [OF assms(1,2)] by simp
  note results = sqlite_reads.op_results [OF ok, where s = s and s' = s' and c' = c']
  have "op_result (ledger_env clock uuid timer) fst (c, s) (c', s')"
    using assms(3) by (elim disjE) (erule results)+
  then show ?thesis by (auto simp: op_result_def op_fenced_def dest!: fenced_fields)
qed

definition demo_p3 :: "coordinator \<times> (ledger \<times> nat)" where
  "demo_p3 = snd (heartbeatNow demo_env demo_p2)"

theorem coordinator_calls_refine_leases_witness:
  "lease_run demo_env fst (fst demo_p2, fst (snd demo_p2)) (fst demo_p3, fst (snd demo_p3))"
proof -
  have d: "co_currentBoot (fst demo_p3) \<noteq> co_currentBoot (fst demo_p2) \<and> co_state (fst demo_p3) = CoRunning"
    by code_simp
  have "heartbeatNow demo_env (fst demo_p2, snd demo_p2) = (fst (heartbeatNow demo_env demo_p2), (fst demo_p3, snd demo_p3))"
    by (simp add: demo_p3_def)
  from coordinator_calls_refine_leases [OF demo_results(1) demo_reach [of "\<lambda>_ _ _. False", unfolded demo_env_def] disjI1, OF this [unfolded demo_env_def]]
    d show ?thesis by (auto simp: demo_env_def)
qed

lemma reach_tracks:
  assumes "newCoordinator i pid ep m l h = Inr c0" "start (ledger_env clock uuid timer) (c0, s0) = (Inr b, (c1, s1))"
    "\<And>a. a \<in> set (ld_attempts (fst s0)) \<Longrightarrow> ta_bootEpoch a \<noteq> be_bootEpoch b"
    "(co_step (ledger_env clock uuid timer) (foreign rows_of))\<^sup>*\<^sup>* (c1, s1) (c, s)"
  shows "tracks c (rows_of s) \<and> co_ok c \<and> co_state c \<noteq> CoIdle \<and> co_state c \<noteq> CoStopping"
proof -
  have "live_row (snd (rows_of s0)) (be_bootEpoch b) = Map.empty"
    using assms(3) by (auto simp: live_row_def rows_of_def fun_eq_iff split: option.split dest!: row_of_key)
  from sqlite.start_tracks [OF _ _ assms(2) this] newCoordinator_ok [OF assms(1)]
  have "tracks c1 (rows_of s1) \<and> co_ok c1 \<and> co_state c1 \<noteq> CoIdle" by blast
  with sqlite.co_run_tracks [OF assms(4)] have t: "tracks c (rows_of s) \<and> co_ok c \<and> co_state c \<noteq> CoIdle" by simp
  have "(co_step (ledger_env clock uuid timer) (foreign rows_of))\<^sup>*\<^sup>* (c0, s0) (c, s)"
    using cs_start [OF assms(2)] assms(4) by (rule converse_rtranclp_into_rtranclp)
  from co_reachable_ok [OF assms(1) this] t show ?thesis by simp
qed

lemma reach_step_tracks:
  assumes "newCoordinator i pid ep m l h = Inr c0" "start (ledger_env clock uuid timer) (c0, s0) = (Inr b, (c1, s1))"
    "\<And>a. a \<in> set (ld_attempts (fst s0)) \<Longrightarrow> ta_bootEpoch a \<noteq> be_bootEpoch b"
    "(co_step (ledger_env clock uuid timer) (foreign rows_of))\<^sup>*\<^sup>* (c1, s1) (c, s)"
    "co_step (ledger_env clock uuid timer) (foreign rows_of) (c, s) (c', s')"
  shows "tracks c' (rows_of s') \<and> co_ok c' \<and> co_state c' \<noteq> CoIdle"
  using reach_tracks [OF assms(1-3) rtranclp.rtrancl_into_rtrancl [OF assms(4,5)]] by simp

text \<open>C10: Until it loses ownership, the attempts a coordinator holds are exactly the running rows of its boot in the ledger,
  with equal records, and its boot is the row of the boot, however other processes change the rows of other boots.\<close>

theorem coordinator_mirrors_ledger:
  assumes "newCoordinator i pid ep m l h = Inr c0" "start (ledger_env clock uuid timer) (c0, s0) = (Inr b, (c1, s1))"
    "\<And>a. a \<in> set (ld_attempts (fst s0)) \<Longrightarrow> ta_bootEpoch a \<noteq> be_bootEpoch b"
    "(co_step (ledger_env clock uuid timer) (foreign rows_of))\<^sup>*\<^sup>* (c1, s1) (c, s)" "co_state c \<noteq> CoOwnershipLost"
  shows "\<exists>b'. co_currentBoot c = Some b' \<and> getBootEpochRow (fst s) (be_bootEpoch b') = Some b'
    \<and> (\<forall>k. map_of (co_activeAttempts c) k =
         (case getTurnAttemptRow (fst s) k of
            None \<Rightarrow> None
          | Some a \<Rightarrow> if ta_status a = Running \<and> ta_bootEpoch a = be_bootEpoch b' then Some a else None))"
  using reach_tracks [OF assms(1-4)] assms(5)
  by (auto simp: tracks_def mirrors_def rows_of_def live_row_def split: option.splits)

lemma demo_started: "start demo_env (demo_coordinator, (empty_ledger, 0)) = (Inr (the (co_currentBoot (fst demo_p1))), (fst demo_p1, snd demo_p1))"
  by code_simp

theorem coordinator_mirrors_ledger_witness:
  "\<exists>b'. co_currentBoot (fst demo_p2) = Some b' \<and> getBootEpochRow (fst (snd demo_p2)) (be_bootEpoch b') = Some b'"
proof -
  have s: "co_state (fst demo_p2) \<noteq> CoOwnershipLost" by code_simp
  have r: "(co_step demo_env (foreign rows_of))\<^sup>*\<^sup>* (fst demo_p1, snd demo_p1) (fst demo_p2, snd demo_p2)"
    using demo_steps(2) [of "foreign rows_of"] by simp
  from coordinator_mirrors_ledger [OF demo_results(1) demo_started [unfolded demo_env_def] _ r [unfolded demo_env_def] s]
  show ?thesis by (auto simp: demo_p1_def)
qed

lemma tracks_active:
  assumes "tracks c (rows_of s)" "co_state c \<noteq> CoOwnershipLost" "map_of (co_activeAttempts c) k = Some a"
  shows "getTurnAttemptRow (fst s) k = Some a \<and> ta_status a = Running"
  using assms by (auto simp: tracks_def mirrors_def live_row_def rows_of_def split: option.splits if_splits)

text \<open>A turn attempt that was started is active and is the running row of the ledger, a marked one holds the marks in
  the ledger, a terminalized one is neither active nor running in the ledger, the other attempts stay as they are; after a
  graceful stop no attempt of the boot runs and the boot is stopped in the ledger.\<close>

theorem turn_attempt_lifecycle:
  assumes "newCoordinator i pid ep m l h = Inr c0" "start (ledger_env clock uuid timer) (c0, s0) = (Inr b, (c1, s1))"
    "\<And>a. a \<in> set (ld_attempts (fst s0)) \<Longrightarrow> ta_bootEpoch a \<noteq> be_bootEpoch b"
    "(co_step (ledger_env clock uuid timer) (foreign rows_of))\<^sup>*\<^sup>* (c1, s1) (c, s)"
  shows "(startTurnAttempt (ledger_env clock uuid timer) ai (c, s) = (Inr a, (c', s')) \<longrightarrow>
           co_activeAttempts c' = obj_set (ta_attemptId a) a (co_activeAttempts c)
           \<and> getTurnAttemptRow (fst s') (ta_attemptId a) = Some a \<and> ta_status a = Running)
    \<and> (markTurnAttemptSafety (ledger_env clock uuid timer) si (c, s) = (Inr a, (c', s')) \<longrightarrow>
           map_of (co_activeAttempts c') (si_attemptId si) = Some a \<and> getTurnAttemptRow (fst s') (si_attemptId si) = Some a)
    \<and> (terminalizeTurnAttempt (ledger_env clock uuid timer) ti (c, s) = (Inr a, (c', s')) \<longrightarrow>
           co_activeAttempts c' = obj_del (ti_attemptId ti) (co_activeAttempts c) \<and> ta_status a = Ended (ti_status ti)
           \<and> (\<exists>b'. co_currentBoot c' = Some b' \<and> live_row (\<lambda>k. getTurnAttemptRow (fst s') k) (be_bootEpoch b') (ti_attemptId ti) = None))
    \<and> (stopGracefully (ledger_env clock uuid timer) reason (c, s) = (Inr b', (c', s')) \<longrightarrow>
           co_activeAttempts c' = [] \<and> be_status b' = BootGracefulStopped \<and> getBootEpochRow (fst s') (be_bootEpoch b') = Some b'
           \<and> (\<forall>k. live_row (\<lambda>k. getTurnAttemptRow (fst s') k) (be_bootEpoch b') k = None))"
    (is "(_ \<longrightarrow> ?start) \<and> (_ \<longrightarrow> ?mark) \<and> (_ \<longrightarrow> ?ended) \<and> (_ \<longrightarrow> ?stop)")
proof -
  have after: "tracks c' (rows_of s') \<and> co_ok c' \<and> co_state c' \<noteq> CoIdle"
    if "co_step (ledger_env clock uuid timer) (foreign rows_of) (c, s) (c', s')"
    using reach_step_tracks [OF assms(1,2) _ assms(4) that] assms(3) by blast
  have ok: "co_ok c" using reach_tracks [OF assms] by simp
  have p1: ?start if "startTurnAttempt (ledger_env clock uuid timer) ai (c, s) = (Inr a, (c', s'))"
  proof -
    from wp_Inr [OF sqlite.wp_startTurnAttempt [OF ok] that]
    have c': "c' = c\<lparr>co_activeAttempts := obj_set (ta_attemptId a) a (co_activeAttempts c)\<rparr>" "co_state c = CoRunning" by simp_all
    then have "map_of (co_activeAttempts c') (ta_attemptId a) = Some a" "co_state c' \<noteq> CoOwnershipLost" by simp_all
    from tracks_active [OF conjunct1 [OF after [OF cs_start_attempt [OF that]]] this(2,1)] c' show ?thesis by simp
  qed
  have p2: ?mark if "markTurnAttemptSafety (ledger_env clock uuid timer) si (c, s) = (Inr a, (c', s'))"
  proof -
    from wp_Inr [OF sqlite.wp_markTurnAttemptSafety [OF ok] that]
    have c': "map_of (co_activeAttempts c') (si_attemptId si) = Some a" "co_state c' \<noteq> CoOwnershipLost" by simp_all
    from tracks_active [OF conjunct1 [OF after [OF cs_mark [OF that]]] c'(2,1)] c' show ?thesis by simp
  qed
  have p3: ?ended if "terminalizeTurnAttempt (ledger_env clock uuid timer) ti (c, s) = (Inr a, (c', s'))"
  proof -
    from wp_Inr [OF sqlite.wp_terminalizeTurnAttempt [OF ok] that]
    have c': "c' = c\<lparr>co_activeAttempts := obj_del (ti_attemptId ti) (co_activeAttempts c)\<rparr>" "co_state c = CoRunning"
      "ta_status a = Ended (ti_status ti)" by simp_all
    from after [OF cs_terminalize [OF that]] c' obtain b' where "co_currentBoot c' = Some b'"
      "map_of (co_activeAttempts c') = live_row (\<lambda>k. getTurnAttemptRow (fst s') k) (be_bootEpoch b')"
      by (auto simp: tracks_def mirrors_def rows_of_def split: option.splits)
    moreover have "map_of (co_activeAttempts c') (ti_attemptId ti) = None" by (simp add: c')
    ultimately show ?thesis using c' by simp
  qed
  have p4: ?stop if "stopGracefully (ledger_env clock uuid timer) reason (c, s) = (Inr b', (c', s'))"
  proof -
    from wp_Inr [OF sqlite.wp_stopGracefully [OF ok] that]
    have c': "co_activeAttempts c' = []" "co_state c' = CoGracefulStopped" "co_currentBoot c' = Some b'" by simp_all
    with after [OF cs_stop [OF that]] have "be_status b' = BootGracefulStopped" "mirrors b' [] (rows_of s')"
      by (simp_all add: co_ok_def tracks_def)
    with c' show ?thesis by (auto simp: mirrors_def rows_of_def fun_eq_iff)
  qed
  from p1 p2 p3 p4 show ?thesis by blast
qed

theorem turn_attempt_lifecycle_witness:
  "\<forall>k. live_row (\<lambda>k. getTurnAttemptRow (fst (snd (snd (stopGracefully demo_env (Some ''bye'') demo_p2)))) k) ''b'' k = None"
proof -
  have r: "(co_step demo_env (foreign rows_of))\<^sup>*\<^sup>* (fst demo_p1, snd demo_p1) (fst demo_p2, snd demo_p2)"
    using demo_steps(2) [of "foreign rows_of"] by simp
  obtain b' c' s' where e: "stopGracefully demo_env (Some ''bye'') (fst demo_p2, snd demo_p2) = (Inr b', (c', s'))"
    using demo_results(5) by (metis isl_def prod.collapse sum.exhaust)
  have "fst (stopGracefully demo_env (Some ''bye'') demo_p2) = Inr (the (co_currentBoot (fst (snd (stopGracefully demo_env (Some ''bye'') demo_p2)))))
    \<and> be_bootEpoch (the (co_currentBoot (fst (snd (stopGracefully demo_env (Some ''bye'') demo_p2))))) = ''b''" by code_simp
  with e have b: "be_bootEpoch b' = ''b''" by simp
  from turn_attempt_lifecycle [OF demo_results(1) demo_started [unfolded demo_env_def] _ r [unfolded demo_env_def],
      where reason = "Some ''bye''" and b' = b' and c' = c' and s' = s'] e b
  show ?thesis by (auto simp: demo_env_def)
qed

section \<open>Keeping ownership\<close>

text \<open>One field of the input that the ledger does not store as given is enough to lose the ownership of the whole host.\<close>

lemma blank_session_name_loses_ownership:
  "co_state (fst (snd (startTurnAttempt demo_env (demo_turn\<lparr>ai_sessionName := Some ''''\<rparr>) demo_p1))) = CoOwnershipLost"
  by code_simp

text \<open>A clock that from reading \<open>n\<close> on does not go back and stays before \<open>L\<close>.\<close>

definition steady :: "(nat \<Rightarrow> int option) \<Rightarrow> nat \<Rightarrow> int \<Rightarrow> int \<Rightarrow> bool" where
  "steady clock n t L \<longleftrightarrow> 0 \<le> t \<and> clock n = Some t
     \<and> (\<forall>m x. n \<le> m \<longrightarrow> clock m = Some x \<longrightarrow> x < L \<and> (\<exists>y\<ge>x. clock (Suc m) = Some y))"

lemma steady_read:
  assumes "steady clock n t L" "n \<le> m"
  obtains x where "clock m = Some x" "t \<le> x" "x < L" "\<And>y. clock (Suc m) = Some y \<Longrightarrow> x \<le> y"
proof -
  have "\<exists>x. clock m = Some x \<and> t \<le> x" using assms(2)
  proof (induction m rule: dec_induct)
    case base with assms(1) show ?case by (simp add: steady_def)
  next
    case (step m)
    with assms(1) show ?case by (fastforce simp: steady_def)
  qed
  then obtain x where "clock m = Some x" "t \<le> x" by blast
  moreover from assms this have "x < L" "\<exists>y\<ge>x. clock (Suc m) = Some y" by (auto simp: steady_def)
  ultimately show ?thesis using that by fastforce
qed

lemma read_steady:
  "clock m = Some x \<Longrightarrow> 0 \<le> x \<Longrightarrow> readOwnershipNow (ledger_env clock uuid timer) (c, (ld, m)) = (Inr x, (c, (ld, Suc m)))"
  by (simp add: readOwnershipNow_def readNow_def catchC_def ledger_env_def)

lemma observe_steady:
  assumes "co_state c = CoRunning" "co_live c" "co_currentBoot c = Some b" "clock m = Some x" "0 \<le> x"
    "be_lastHeartbeatAt b \<le> x" "x < be_leaseExpiresAt b"
  shows "observeLiveBoot (ledger_env clock uuid timer) (c, (ld, m)) = (Inr (b, x), (c, (ld, Suc m)))"
  using assms read_steady [of clock m x uuid timer c ld]
  by (simp add: observeLiveBoot_def requireRunningBoot_def assertBootLeaseLive_def bindC_def getC_def returnC_def co_live_def)

lemma owned_steady:
  assumes "co_live c" "co_currentBoot c = Some b" "clock m = Some x" "0 \<le> x" "be_lastHeartbeatAt b \<le> x" "x < be_leaseExpiresAt b"
  shows "observeOwnedBoot (ledger_env clock uuid timer) b (c, (ld, m)) = (Inr x, (c, (ld, Suc m)))"
  using assms read_steady [of clock m x uuid timer c ld]
  by (simp add: observeOwnedBoot_def assertBootLeaseLive_def bindC_def getC_def returnC_def unlessC_def co_live_def)

lemma require_steady:
  assumes "co_live c" "co_currentBoot c = Some b" "map_of (co_activeAttempts c) k = Some a" "ta_lastHeartbeatAt a \<le> x" "x < ta_leaseExpiresAt a"
  shows "requireLiveActiveAttempt k x (c, s) = (Inr a, (c, s))"
  using assms holds_active [OF assms(1,3)]
  by (simp add: requireLiveActiveAttempt_def requireActiveAttempt_def bindC_def getC_def returnC_def holds_attempt_def)

text \<open>What renewing needs of a row: an id the ledger stores as it is, no claim on it, and an older heartbeat.\<close>

definition renewable :: "int \<Rightarrow> string \<times> attempt_row \<Rightarrow> bool" where
  "renewable t = (\<lambda>(k, a). trim k = k \<and> k \<noteq> [] \<and> ta_recoveryClaimId a = None \<and> ta_lastHeartbeatAt a \<le> t \<and> ta_updatedAt a \<le> t)"

lemma heartbeat_attempt_succeeds:
  assumes c: "co_state c = CoRunning" "co_live c" "co_currentBoot c = Some b" "map_of (co_activeAttempts c) k = Some a"
    and rows: "getBootEpochRow ld (be_bootEpoch b) = Some b" "getTurnAttemptRow ld k = Some a" "ledger_ok ld"
    and b: "trim (be_bootEpoch b) = be_bootEpoch b" "be_bootEpoch b \<noteq> []" "be_lastHeartbeatAt b = t" "be_leaseExpiresAt b \<le> MAX_SAFE_INTEGER"
    and a: "renewable t (k, a)" "L \<le> ta_leaseExpiresAt a" "ta_leaseExpiresAt a < be_leaseExpiresAt b" "t \<le> x" "0 \<le> t"
    and clock: "clock m = Some x" "clock (Suc m) = Some y" "x \<le> y" "y < L"
  shows "heartbeat_attempt (ledger_env clock uuid timer) k (c, (ld, m)) =
     (Inr (), (c\<lparr>co_activeAttempts := obj_set k (a\<lparr>ta_lastHeartbeatAt := x, ta_leaseExpiresAt := be_leaseExpiresAt b, ta_updatedAt := x\<rparr>) (co_activeAttempts c)\<rparr>,
        (ld\<lparr>ld_attempts := put_row ta_attemptId (a\<lparr>ta_lastHeartbeatAt := x, ta_leaseExpiresAt := be_leaseExpiresAt b, ta_updatedAt := x\<rparr>) (ld_attempts ld)\<rparr>,
         Suc (Suc m))))
    \<and> ledger_ok (ld\<lparr>ld_attempts := put_row ta_attemptId (a\<lparr>ta_lastHeartbeatAt := x, ta_leaseExpiresAt := be_leaseExpiresAt b, ta_updatedAt := x\<rparr>) (ld_attempts ld)\<rparr>)"
proof -
  let ?E = "ledger_env clock uuid timer"
  let ?l = "be_leaseExpiresAt b"
  let ?a = "a\<lparr>ta_lastHeartbeatAt := x, ta_leaseExpiresAt := ?l, ta_updatedAt := x\<rparr>"
  let ?c = "c\<lparr>co_activeAttempts := obj_set k ?a (co_activeAttempts c)\<rparr>"
  let ?ld = "ld\<lparr>ld_attempts := put_row ta_attemptId ?a (ld_attempts ld)\<rparr>"
  have h: "holds_attempt (Some b) (k, a)" using holds_active [OF c(2,4)] c(3) by simp
  then have owned: "ta_attemptId a = k" "ta_status a = Running" "ta_bootEpoch a = be_bootEpoch b" by (auto simp: holds_attempt_def)
  have bl: "be_status b = BootActive" "?l = t + co_leaseMs c" using c(2,3) b(3) by (auto simp: co_live_def)
  have x: "0 \<le> x" "x < ?l" "y < ?l" "x < ta_leaseExpiresAt a" "y < ta_leaseExpiresAt a" "x \<le> MAX_SAFE_INTEGER"
    and y: "0 \<le> y" "be_lastHeartbeatAt b \<le> y" "ta_lastHeartbeatAt a \<le> y"
    using a clock b(3,4) by (auto simp: renewable_def)
  have f: "ta_recoveryClaimId a = None" "ta_lastHeartbeatAt a \<le> x" "ta_updatedAt a \<le> x" "trim k = k" "k \<noteq> []"
    using a(1,4) by (auto simp: renewable_def)
  have lease: "min (x + co_leaseMs c) ?l = ?l" using bl a(4) by simp
  have ac: "attempt_check ?a"
    using ledger_ok_attempt [OF rows(3,2)] f x by (auto simp: attempt_check_def owned)
  have hb: "heartbeatRuntimeTurnAttempt 0 k (be_bootEpoch b) (Some x) ?l ld = Inr (?a, ?ld)"
    using rows b f x owned bl ac a(3) by (simp add: heartbeatRuntimeTurnAttempt_def)
  from ledger_step_ok [OF step_heartbeat_attempt [OF this] rows(3)] have ok: "ledger_ok ?ld" .
  from hb have call: "callC (ce_heartbeatTurnAttempt ?E k (be_bootEpoch b) x ?l) (c, (ld, Suc m)) = (Inr ?a, (c, (?ld, Suc m)))"
    by (simp add: callC_def ledger_env_def on_ledger_def)
  have valid: "validRenewedAttempt a x ?l ?a"
    using owned ac by (simp add: validRenewedAttempt_def hasSameAttemptIdentity_def hasSameJsonValue_def attempt_check_def)
  have live: "co_live ?c" using c(2) h by (intro live_obj_set) (simp_all add: c(3) holds_attempt_def)
  have obs1: "observeLiveBoot ?E (c, (ld, m)) = (Inr (b, x), (c, (ld, Suc m)))"
    using x a(4) b(3) by (intro observe_steady) (auto simp: c clock)
  have obs2: "observeLiveBoot ?E (c, (?ld, Suc m)) = (Inr (b, y), (c, (?ld, Suc (Suc m))))"
    using x y by (intro observe_steady) (auto simp: c clock(2))
  have req1: "requireLiveActiveAttempt k x (c, s) = (Inr a, (c, s))" for s :: "ledger \<times> nat"
    using x f by (intro require_steady [OF c(2-4)]) auto
  have req2: "requireLiveActiveAttempt k y (c, s) = (Inr a, (c, s))" for s :: "ledger \<times> nat"
    using x y by (intro require_steady [OF c(2-4)]) auto
  have req3: "requireLiveActiveAttempt k y (?c, s) = (Inr ?a, (?c, s))" for s :: "ledger \<times> nat"
    using x clock(3) c(3) by (intro require_steady [OF live, of b]) auto
  from ok show ?thesis
    by (simp add: heartbeat_attempt_def publish_attempt_def bindC_def catchC_def getC_def unlessC_def returnC_def Let_def
        obs1 req1 lease call valid obs2 req2 set_active_def modifyC_def req3)
qed

text \<open>The renewal of all attempts after the boot got its new lease.\<close>

definition renewing ::
  "(nat \<Rightarrow> int option) \<Rightarrow> nat \<Rightarrow> boot_epoch \<Rightarrow> int \<Rightarrow> int \<Rightarrow> string list \<Rightarrow> string list \<Rightarrow> coordinator \<times> (ledger \<times> nat) \<Rightarrow> bool" where
  "renewing clock n b t L keys xs = (\<lambda>(c, s). n \<le> snd s \<and> co_state c = CoRunning \<and> co_live c \<and> co_currentBoot c = Some b
     \<and> tracks c (rows_of s) \<and> ledger_ok (fst s) \<and> distinct xs \<and> map fst (co_activeAttempts c) = keys
     \<and> (\<forall>k a. map_of (co_activeAttempts c) k = Some a \<longrightarrow>
          (if k \<in> set xs then renewable t (k, a) \<and> L \<le> ta_leaseExpiresAt a \<and> ta_leaseExpiresAt a < be_leaseExpiresAt b
           else ta_leaseExpiresAt a = be_leaseExpiresAt b))
     \<and> set xs \<subseteq> set keys)"

lemma renewing_step:
  assumes clock: "steady clock n t L" and r: "renewing clock n b t L keys (k # xs) p"
    and b: "trim (be_bootEpoch b) = be_bootEpoch b" "be_bootEpoch b \<noteq> []" "be_lastHeartbeatAt b = t" "be_leaseExpiresAt b \<le> MAX_SAFE_INTEGER"
  shows "wp (heartbeat_attempt (ledger_env clock uuid timer) k) (\<lambda>_. renewing clock n b t L keys xs) (\<lambda>_ _. False) p"
proof -
  obtain c ld m where p: "p = (c, (ld, m))" by (metis prod.exhaust)
  note r' = r [unfolded p renewing_def, simplified]
  from r' have c: "co_state c = CoRunning" "co_live c" "co_currentBoot c = Some b" "k \<in> set (map fst (co_activeAttempts c))"
    and t: "tracks c (rows_of (ld, m))" "ledger_ok ld" and m: "n \<le> m" by auto
  obtain a where a: "map_of (co_activeAttempts c) k = Some a" using c(2,4) sqlite.live_active by metis
  with r' have ra: "renewable t (k, a)" "L \<le> ta_leaseExpiresAt a" "ta_leaseExpiresAt a < be_leaseExpiresAt b" by auto
  from t(1) c(1,3) have row: "getBootEpochRow ld (be_bootEpoch b) = Some b" by (simp add: tracks_def mirrors_def rows_of_def)
  have arow: "getTurnAttemptRow ld k = Some a" using tracks_active [OF t(1) _ a] c(1) by simp
  from steady_read [OF clock m] obtain x where x: "clock m = Some x" "t \<le> x" "x < L" "\<And>y. clock (Suc m) = Some y \<Longrightarrow> x \<le> y" by metis
  from steady_read [OF clock le_SucI [OF m]] obtain y where y: "clock (Suc m) = Some y" "y < L" by metis
  have t0: "0 \<le> t" using clock by (simp add: steady_def)
  let ?a = "a\<lparr>ta_lastHeartbeatAt := x, ta_leaseExpiresAt := be_leaseExpiresAt b, ta_updatedAt := x\<rparr>"
  let ?c = "c\<lparr>co_activeAttempts := obj_set k ?a (co_activeAttempts c)\<rparr>"
  let ?s = "(ld\<lparr>ld_attempts := put_row ta_attemptId ?a (ld_attempts ld)\<rparr>, Suc (Suc m))"
  note ren = heartbeat_attempt_succeeds [OF c(1-3) a row arow t(2) b ra x(2) t0 x(1) y(1) x(4) [OF y(1)] y(2)]
  from wp_Inr [OF sqlite.wp_heartbeat_attempt [OF c(1,2,4)] conjunct1 [OF ren]]
  have s: "lease_step (ledger_env clock uuid timer) rows_of (c, rows_of (ld, m)) (?c, rows_of ?s)" "co_live ?c"
    "map fst (co_activeAttempts ?c) = map fst (co_activeAttempts c)" by simp_all
  have "tracks ?c (rows_of ?s)" using c t by (intro sqlite.lease_step_tracks [OF s(1)]) (auto simp: co_ok_def)
  then have "renewing clock n b t L keys xs (?c, ?s)"
    using r' s c m ren ra unfolding renewing_def by (auto simp: map_of_obj_set)
  with ren show ?thesis by (simp add: p wp_def)
qed

text \<open>The first half of a heartbeat: the boot is renewed, and what remains is the renewal of the attempts.\<close>

lemma heartbeat_boot_renewed:
  assumes "co_state c = CoRunning" "co_ok c" "co_currentBoot c = Some b" "getBootEpochRow ld (be_bootEpoch b) = Some b" "ledger_ok ld"
    and "steady clock n t L" "be_lastHeartbeatAt b < t" "be_updatedAt b \<le> t" "L \<le> be_leaseExpiresAt b" "t + co_leaseMs c \<le> MAX_SAFE_INTEGER"
    and "trim (be_bootEpoch b) = be_bootEpoch b" "be_bootEpoch b \<noteq> []" "be_stopReason b = None"
    and E: "E = ledger_env clock uuid timer"
    and b': "b' = b\<lparr>be_lastHeartbeatAt := t, be_leaseExpiresAt := t + co_leaseMs c, be_updatedAt := t\<rparr>"
    and ld': "ld' = ld\<lparr>ld_boots := put_row be_bootEpoch b' (ld_boots ld)\<rparr>"
    and c': "c' = c\<lparr>co_currentBoot := Some b'\<rparr>"
  shows "heartbeatNow E (c, (ld, n)) = bindC (eachC (heartbeat_attempt E) (map fst (co_activeAttempts c)))
           (\<lambda>_. returnC b') (c', (ld', Suc (Suc n)))"
    and "lease_step E rows_of (c, rows_of (ld, Suc n)) (c', rows_of (ld', Suc (Suc n)))"
    and "ledger_ok ld'"
proof -
  have live: "co_live c" using assms(1,2) by (simp add: co_ok_def)
  have bl: "be_status b = BootActive" "be_leaseExpiresAt b = be_lastHeartbeatAt b + co_leaseMs c"
    using live assms(3) by (auto simp: co_live_def)
  from steady_read [OF assms(6) le_refl] assms(6) have t: "clock n = Some t" "0 \<le> t" "t < L" "\<And>y. clock (Suc n) = Some y \<Longrightarrow> t \<le> y"
    by (auto simp: steady_def)
  from steady_read [OF assms(6) le_SucI [OF le_refl]] obtain y where y: "clock (Suc n) = Some y" "t \<le> y" "y < L" by metis
  have tb: "be_lastHeartbeatAt b \<le> t" "t < be_leaseExpiresAt b" using t assms(7,9) by auto
  have yb: "0 \<le> y" "be_lastHeartbeatAt b \<le> y" "y < be_leaseExpiresAt b" "y < t + co_leaseMs c" using t y assms(7,9) bl by auto
  have check: "boot_check b'" using ledger_ok_boot [OF assms(5,4)] assms(7,8) bl t y by (auto simp: boot_check_def b')
  have hb: "heartbeatRuntimeBootEpoch 0 (be_bootEpoch b) (Some t) (t + co_leaseMs c) ld = Inr (b', ld')"
    using check bl t y assms(4,7-12) by (simp add: heartbeatRuntimeBootEpoch_def b' ld')
  then have call: "ce_heartbeatBootEpoch E (be_bootEpoch b) t (t + co_leaseMs c) (ld, Suc n) = (Inr b', (ld', Suc n))"
    by (simp add: E ledger_env_def on_ledger_def)
  have valid: "validRenewedBoot c b t b'"
    using check bl assms(13) by (simp add: validRenewedBoot_def hasSameJsonValue_def boot_check_def b')
  have obs: "observeLiveBoot E (c, (ld, n)) = (Inr (b, t), (c, (ld, Suc n)))"
    unfolding E by (rule observe_steady [where clock = clock and m = n, OF assms(1) live assms(3) t(1,2) tb])
  have own: "observeOwnedBoot E b (c, (ld', Suc n)) = (Inr y, (c, (ld', Suc (Suc n))))"
    unfolding E by (rule owned_steady [where clock = clock and m = "Suc n", OF live assms(3) y(1) yb(1,2,3)])
  have rest: "assertBootLeaseLive b' y (c', s) = (Inr (), (c', s))" for s :: "ledger \<times> nat"
    using y yb by (simp add: assertBootLeaseLive_def returnC_def b')
  show "heartbeatNow E (c, (ld, n)) = bindC (eachC (heartbeat_attempt E) (map fst (co_activeAttempts c)))
          (\<lambda>_. returnC b') (c', (ld', Suc (Suc n)))"
    by (simp add: heartbeatNow_def bindC_def catchC_def getC_def unlessC_def returnC_def modifyC_def callC_def obs call valid own
          rest flip: c') (simp add: c')
  from ls_boot [OF assms(1,3) _ call valid, of rows_of] bl t assms(7,9)
  show "lease_step E rows_of (c, rows_of (ld, Suc n)) (c', rows_of (ld', Suc (Suc n)))"
    by (simp add: lease_live_def rows_of_def c')
  show "ledger_ok ld'" using ledger_step_ok [OF step_heartbeat_boot [OF hb] assms(5)] .
qed

text \<open>C18: The lease protocol keeps going: a running coordinator whose records agree with the ledger, and whose clock moves on,
  does not go back and stays within the leases, renews its boot and every attempt; the heartbeat returns, all leases end one
  lease time after it, and no attempt is lost.\<close>

theorem heartbeat_keeps_ownership:
  assumes "co_state c = CoRunning" "co_ok c" "co_currentBoot c = Some b" "tracks c (rows_of (ld, n))" "ledger_ok ld"
    and "steady clock n t L" "be_lastHeartbeatAt b < t" "be_updatedAt b \<le> t" "L \<le> be_leaseExpiresAt b" "t + co_leaseMs c \<le> MAX_SAFE_INTEGER"
    and "trim (be_bootEpoch b) = be_bootEpoch b" "be_bootEpoch b \<noteq> []" "be_stopReason b = None"
    and "\<And>k a. (k, a) \<in> set (co_activeAttempts c) \<Longrightarrow> renewable t (k, a) \<and> L \<le> ta_leaseExpiresAt a"
  shows "\<exists>b' c' s'. heartbeatNow (ledger_env clock uuid timer) (c, (ld, n)) = (Inr b', (c', s')) \<and> co_state c' = CoRunning
    \<and> co_currentBoot c' = Some b' \<and> be_leaseExpiresAt b' = t + co_leaseMs c
    \<and> map fst (co_activeAttempts c') = map fst (co_activeAttempts c)
    \<and> (\<forall>k a. map_of (co_activeAttempts c') k = Some a \<longrightarrow> ta_leaseExpiresAt a = t + co_leaseMs c)"
proof -
  let ?E = "ledger_env clock uuid timer"
  let ?keys = "map fst (co_activeAttempts c)"
  let ?b = "b\<lparr>be_lastHeartbeatAt := t, be_leaseExpiresAt := t + co_leaseMs c, be_updatedAt := t\<rparr>"
  let ?ld = "ld\<lparr>ld_boots := put_row be_bootEpoch ?b (ld_boots ld)\<rparr>"
  let ?c = "c\<lparr>co_currentBoot := Some ?b\<rparr>"
  have live: "co_live c" using assms(1,2) by (simp add: co_ok_def)
  have row: "getBootEpochRow ld (be_bootEpoch b) = Some b" using assms(1,3,4) by (simp add: tracks_def mirrors_def rows_of_def)
  note boot = heartbeat_boot_renewed [OF assms(1-3) row assms(5-13) refl refl refl refl]
  have "renewing clock n ?b t L ?keys ?keys (?c, (?ld, Suc (Suc n)))"
  proof -
    have "co_live ?c" using lease_step_ok [OF boot(2)] assms(1,2) by (simp add: co_ok_def)
    moreover have "tracks ?c (rows_of (?ld, Suc (Suc n)))"
      using assms(1,2,4) by (intro sqlite.lease_step_tracks [OF boot(2)]) (auto simp: rows_of_def)
    moreover have "ta_leaseExpiresAt a < t + co_leaseMs c" if "map_of (co_activeAttempts c) k = Some a" for k a
      using holds_active [OF live that] live assms(3,7) by (auto simp: holds_attempt_def co_live_def)
    ultimately show ?thesis
      using boot(3) assms(1,14) live by (auto simp: renewing_def co_live_def [of c] dest: map_of_SomeD) (force dest: map_of_SomeD)+
  qed
  from wp_each [of "renewing clock n ?b t L ?keys", OF this renewing_step [OF assms(6)]] assms(10-12)
  have "wp (eachC (heartbeat_attempt ?E) ?keys) (\<lambda>_. renewing clock n ?b t L ?keys []) (\<lambda>_ _. False) (?c, (?ld, Suc (Suc n)))"
    by simp
  then obtain c' s' where "eachC (heartbeat_attempt ?E) ?keys (?c, (?ld, Suc (Suc n))) = (Inr (), (c', s'))"
    "renewing clock n ?b t L ?keys [] (c', s')"
    by (auto simp: wp_def split: prod.splits sum.splits)
  then show ?thesis
    by (intro exI [of _ ?b] exI [of _ c'] exI [of _ s']) (simp add: boot(1) bindC_def returnC_def renewing_def)
qed

lemma demo_steady: "steady (\<lambda>n. Some (100 + int (min n 20))) n (100 + int (min n 20)) 130"
  by (auto simp: steady_def)

lemma demo_p2_facts:
  "co_state (fst demo_p2) = CoRunning" "co_currentBoot (fst demo_p2) = Some (the (co_currentBoot (fst demo_p2)))"
  "ledger_ok (fst (snd demo_p2))" "snd (snd demo_p2) = 7"
  "be_lastHeartbeatAt (the (co_currentBoot (fst demo_p2))) = 100" "be_updatedAt (the (co_currentBoot (fst demo_p2))) = 100"
  "be_leaseExpiresAt (the (co_currentBoot (fst demo_p2))) = 160" "co_leaseMs (fst demo_p2) = 60"
  "be_bootEpoch (the (co_currentBoot (fst demo_p2))) = ''b''" "be_stopReason (the (co_currentBoot (fst demo_p2))) = None"
  "list_all (\<lambda>p. renewable 107 p \<and> 130 \<le> ta_leaseExpiresAt (snd p)) (co_activeAttempts (fst demo_p2))"
  by code_simp+

lemma demo_p2_reach:
  "(co_step demo_env (foreign rows_of))\<^sup>*\<^sup>* (fst demo_p1, snd demo_p1) (fst demo_p2, snd demo_p2)"
  using demo_steps(2) [of "foreign rows_of"] by simp

lemma demo_p2_tracks: "tracks (fst demo_p2) (rows_of (fst (snd demo_p2), 7)) \<and> co_ok (fst demo_p2)"
proof -
  have e: "(fst (snd demo_p2), 7) = snd demo_p2" by (rule prod_eqI) (simp_all only: demo_p2_facts(4) fst_conv snd_conv)
  have n: "a \<in> set (ld_attempts (fst (empty_ledger, 0::nat))) \<Longrightarrow> ta_bootEpoch a \<noteq> be_bootEpoch b" for a b by simp
  note t = reach_tracks [OF demo_results(1) demo_started [unfolded demo_env_def] n demo_p2_reach [unfolded demo_env_def]]
  show ?thesis unfolding e using conjunct1 [OF t] conjunct1 [OF conjunct2 [OF t]] by (rule conjI)
qed

lemma demo_p2_lengths:
  "be_lastHeartbeatAt (the (co_currentBoot (fst demo_p2))) < 107" "be_updatedAt (the (co_currentBoot (fst demo_p2))) \<le> 107"
  "130 \<le> be_leaseExpiresAt (the (co_currentBoot (fst demo_p2)))" "107 + co_leaseMs (fst demo_p2) \<le> MAX_SAFE_INTEGER"
  "trim (be_bootEpoch (the (co_currentBoot (fst demo_p2)))) = be_bootEpoch (the (co_currentBoot (fst demo_p2)))"
  "be_bootEpoch (the (co_currentBoot (fst demo_p2))) \<noteq> []"
proof -
  have "trim ''b'' = ''b''" by code_simp
  then show "trim (be_bootEpoch (the (co_currentBoot (fst demo_p2)))) = be_bootEpoch (the (co_currentBoot (fst demo_p2)))"
    by (simp only: demo_p2_facts(9))
qed (simp_all add: demo_p2_facts(5-9) MAX_SAFE_INTEGER_def)

lemma demo_p2_renewable:
  "(k, a) \<in> set (co_activeAttempts (fst demo_p2)) \<Longrightarrow> renewable 107 (k, a) \<and> 130 \<le> ta_leaseExpiresAt a"
  using demo_p2_facts(11) by (fastforce simp: list_all_iff)

theorem heartbeat_keeps_ownership_witness:
  "\<exists>b' c' s'. heartbeatNow demo_env (fst demo_p2, (fst (snd demo_p2), 7)) = (Inr b', (c', s')) \<and> co_state c' = CoRunning
     \<and> be_leaseExpiresAt b' = 167"
proof -
  have s: "steady (\<lambda>n. Some (100 + int (min n 20))) 7 107 130"
    using demo_steady [of 7] by simp
  note h = heartbeat_keeps_ownership [OF demo_p2_facts(1) conjunct2 [OF demo_p2_tracks] demo_p2_facts(2) conjunct1 [OF demo_p2_tracks]
      demo_p2_facts(3) s demo_p2_lengths demo_p2_facts(10) demo_p2_renewable]
  have "107 + co_leaseMs (fst demo_p2) = 167" by (simp add: demo_p2_facts(8))
  with h [of "\<lambda>_. ''u''" "\<lambda>_. True"] show ?thesis unfolding demo_env_def by metis
qed

end
