(* ===== verification/PromptLedger.thy ===== *)
theory PromptLedger
  imports LedgerHistory
begin

text \<open>
  The durable prompt queue of the crash-recovery ledger (\<open>src/src/runtime/crash-recovery-store.ts\<close>): one row
  per prompt, with a sequence number, an immutable content under a dedupe key, and a lifecycle that
  an owner moves under the fence of its boot, its owner token and its lease. The state extends the
  ledger of boots and attempts by the table and its counter. The hash of the canonical content is
  the argument \<open>sha\<close>. A transition reads the row, decodes it, checks the graph, the fence, the boot and
  the attempt it is delivered to, writes, and decodes the row it wrote; all in one transaction.
\<close>

section \<open>Rows\<close>

datatype queue_status =
  QQueued | QLeased | QStarting | QDelivered | QComplete | QCancelled | QSuperseded | QFailed | QRequeued | QDeferred

record queue_row =
  pq_queueSequence :: int
  pq_queueItemId :: string
  pq_dedupeKey :: string
  pq_immutableFingerprint :: string
  pq_sessionKey :: string
  pq_sessionName :: "string option"
  pq_agentId :: "string option"
  pq_laneKey :: delivery_barrier
  pq_bootEpoch :: "string option"
  pq_status :: queue_status
  pq_originKind :: turn_cause
  pq_deliveryBarrier :: delivery_barrier
  pq_taskBarrierTaskId :: "string option"
  pq_pendingId :: "string option"
  pq_prompt :: json
  pq_runtimeMessage :: json
  pq_queuedAt :: int
  pq_leaseOwner :: "string option"
  pq_leaseExpiresAt :: "int option"
  pq_deliveredAttemptId :: "string option"
  pq_deliveredTurnId :: "string option"
  pq_completedAt :: "int option"
  pq_recoveryClaimId :: "string option"
  pq_recoveryStatus :: "string option"
  pq_recoveryReason :: "string option"
  pq_recoveryRunId :: "string option"
  pq_recoveredAt :: "int option"
  pq_metadata :: "json option"
  pq_createdAt :: int
  pq_updatedAt :: int

record enqueue_input =
  ei_queueItemId :: "string option"
  ei_dedupeKey :: string
  ei_sessionKey :: string
  ei_sessionName :: "string option"
  ei_agentId :: "string option"
  ei_laneKey :: delivery_barrier
  ei_bootEpoch :: "string option"
  ei_originKind :: turn_cause
  ei_deliveryBarrier :: delivery_barrier
  ei_taskBarrierTaskId :: "string option"
  ei_pendingId :: "string option"
  ei_prompt :: "json option"
  ei_runtimeMessage :: "json option"
  ei_queuedAt :: "int option"
  ei_metadata :: "(string \<times> json) list option"

record prompt_ledger = ledger +
  pl_queue :: "queue_row list"
  pl_nextSequence :: int

abbreviation getPromptQueueRow :: "('a) prompt_ledger_scheme \<Rightarrow> string \<Rightarrow> queue_row option" where
  "getPromptQueueRow ld k \<equiv> row_of pq_queueItemId k (pl_queue ld)"

definition TERMINAL_QUEUE_STATUSES :: "queue_status list" where
  "TERMINAL_QUEUE_STATUSES = [QComplete, QCancelled, QSuperseded, QFailed]"

fun ALLOWED_QUEUE_STATUS_TRANSITIONS :: "queue_status \<Rightarrow> queue_status list" where
  "ALLOWED_QUEUE_STATUS_TRANSITIONS QQueued = [QQueued, QLeased, QDeferred, QCancelled, QSuperseded, QFailed]"
| "ALLOWED_QUEUE_STATUS_TRANSITIONS QLeased =
     [QLeased, QStarting, QRequeued, QDeferred, QCancelled, QSuperseded, QFailed]"
| "ALLOWED_QUEUE_STATUS_TRANSITIONS QStarting =
     [QStarting, QDelivered, QRequeued, QDeferred, QCancelled, QSuperseded, QFailed]"
| "ALLOWED_QUEUE_STATUS_TRANSITIONS QDelivered = [QDelivered, QComplete, QFailed]"
| "ALLOWED_QUEUE_STATUS_TRANSITIONS QComplete = [QComplete]"
| "ALLOWED_QUEUE_STATUS_TRANSITIONS QCancelled = [QCancelled]"
| "ALLOWED_QUEUE_STATUS_TRANSITIONS QSuperseded = [QSuperseded]"
| "ALLOWED_QUEUE_STATUS_TRANSITIONS QFailed = [QFailed]"
| "ALLOWED_QUEUE_STATUS_TRANSITIONS QRequeued = [QRequeued, QLeased, QDeferred, QCancelled, QSuperseded, QFailed]"
| "ALLOWED_QUEUE_STATUS_TRANSITIONS QDeferred =
     [QDeferred, QQueued, QRequeued, QLeased, QCancelled, QSuperseded, QFailed]"

abbreviation queue_terminal :: "queue_status \<Rightarrow> bool" where
  "queue_terminal s \<equiv> s \<in> set TERMINAL_QUEUE_STATUSES"

abbreviation owner_bound :: "queue_status \<Rightarrow> bool" where
  "owner_bound s \<equiv> s \<in> {QLeased, QStarting, QDelivered}"

text \<open>The constraints of the table.\<close>

definition queue_check :: "queue_row \<Rightarrow> bool" where
  "queue_check q \<longleftrightarrow> (queue_terminal (pq_status q) \<longleftrightarrow> pq_completedAt q \<noteq> None)
     \<and> (pq_leaseExpiresAt q = None \<or> pq_leaseOwner q \<noteq> None)
     \<and> (pq_status q \<notin> {QLeased, QStarting}
        \<or> pq_bootEpoch q \<noteq> None \<and> pq_leaseOwner q \<noteq> None \<and> pq_leaseExpiresAt q \<noteq> None)
     \<and> (pq_status q \<noteq> QDelivered \<or> pq_deliveredAttemptId q \<noteq> None \<and> pq_deliveredTurnId q \<noteq> None)
     \<and> (case pq_completedAt q of None \<Rightarrow> True | Some t \<Rightarrow> t \<ge> pq_queuedAt q)
     \<and> pq_updatedAt q \<ge> pq_createdAt q"

section \<open>Content and decoding\<close>

fun origin_name :: "turn_cause \<Rightarrow> string" where
  "origin_name CHuman = ''human''"
| "origin_name CCron = ''cron''"
| "origin_name CTrigger = ''trigger''"
| "origin_name CSessionFollowup = ''session-followup''"
| "origin_name CHeartbeat = ''heartbeat''"
| "origin_name CObserver = ''observer''"
| "origin_name CTask = ''task''"
| "origin_name CRoutine = ''routine''"
| "origin_name CDaemonRestart = ''daemon-restart''"
| "origin_name CAutomation = ''automation''"
| "origin_name CAgent = ''agent''"
| "origin_name CSystem = ''system''"
| "origin_name CBackground = ''background''"
| "origin_name CUnknown = ''unknown''"

definition json_text :: "string option \<Rightarrow> json" where
  "json_text v = (case v of None \<Rightarrow> JNull | Some s \<Rightarrow> JStr s)"

text \<open>The fields of a prompt that never change, hashed in canonical key order.\<close>

definition prompt_content :: "queue_row \<Rightarrow> json" where
  "prompt_content q = sortJson (JObj
     [(''dedupeKey'', JStr (pq_dedupeKey q)), (''sessionKey'', JStr (pq_sessionKey q)),
      (''sessionName'', json_text (pq_sessionName q)), (''agentId'', json_text (pq_agentId q)),
      (''laneKey'', JStr (barrier_name (pq_laneKey q))), (''originKind'', JStr (origin_name (pq_originKind q))),
      (''deliveryBarrier'', JStr (barrier_name (pq_deliveryBarrier q))),
      (''taskBarrierTaskId'', json_text (pq_taskBarrierTaskId q)), (''pendingId'', json_text (pq_pendingId q)),
      (''prompt'', pq_prompt q), (''runtimeMessage'', pq_runtimeMessage q),
      (''metadata'', nullish (pq_metadata q) JNull)])"

definition promptQueueFingerprint :: "(json \<Rightarrow> string) \<Rightarrow> queue_row \<Rightarrow> string" where
  "promptQueueFingerprint sha q = sha (prompt_content q)"

text \<open>Reading a row; the enumerations and JSON columns of a typed row need no decoding.\<close>

definition rowToPromptQueue :: "(json \<Rightarrow> string) \<Rightarrow> queue_row \<Rightarrow> ledger_error + queue_row" where
  "rowToPromptQueue sha row =
     throw_if (owner_bound (pq_status row)
               \<and> (pq_bootEpoch row = None \<or> pq_leaseOwner row = None \<or> pq_leaseExpiresAt row = None))
       (LedgerCorrupt ''Owner-bound runtime prompt queue item has an incomplete lease'') (
     throw_if ((pq_leaseOwner row = None) \<noteq> (pq_leaseExpiresAt row = None))
       (LedgerCorrupt ''Runtime prompt queue item has a partial lease fence'') (
     throw_if (pq_status row = QDelivered \<and> (pq_deliveredAttemptId row = None \<or> pq_deliveredTurnId row = None))
       (LedgerCorrupt ''Delivered runtime prompt queue item has no delivery identity'') (
     throw_if (queue_terminal (pq_status row) \<noteq> (pq_completedAt row \<noteq> None))
       (LedgerCorrupt ''Runtime prompt queue item has inconsistent terminal timestamps'') (
     throw_if (promptQueueFingerprint sha row \<noteq> pq_immutableFingerprint row)
       (LedgerCorrupt ''Immutable fingerprint mismatch for runtime prompt queue item'') (
     Inr row)))))"

section \<open>Enqueueing\<close>

text \<open>The insertion draws the next sequence number; ids and dedupe keys are unique columns.\<close>

definition insert_queue ::
  "(json \<Rightarrow> string) \<Rightarrow> queue_row \<Rightarrow> ('a) prompt_ledger_scheme \<Rightarrow> ledger_error + queue_row \<times> ('a) prompt_ledger_scheme" where
  "insert_queue sha q ld =
     throw_if (\<not> queue_check q \<or> pq_queueItemId q \<in> pq_queueItemId ` set (pl_queue ld)
               \<or> pq_dedupeKey q \<in> pq_dedupeKey ` set (pl_queue ld)) (LedgerConstraint ''runtime_prompt_queue'') (
     bindE (rowToPromptQueue sha q) (\<lambda>row.
     Inr (row, ld\<lparr>pl_queue := pl_queue ld @ [q], pl_nextSequence := pl_nextSequence ld + 1\<rparr>)))"

definition enqueue_boot_checks :: "string option \<Rightarrow> int \<Rightarrow> ('a) ledger_scheme \<Rightarrow> ledger_error + unit" where
  "enqueue_boot_checks bootEpoch queuedAt ld =
     (case bootEpoch of
        None \<Rightarrow> Inr ()
      | Some e \<Rightarrow>
          found (getBootEpochRow ld e) (LedgerNotFound ''Queue boot epoch not found'') (\<lambda>boot.
          throw_if (be_status boot \<noteq> BootActive) (LedgerConflict ''Cannot enqueue from terminal boot epoch'') (
          throw_if (queuedAt < be_startedAt boot \<or> be_leaseExpiresAt boot \<le> queuedAt)
            (LedgerConflict ''Cannot enqueue outside the live lease'') (Inr ()))))"

text \<open>The row of a new prompt: the normalized input, its hash, and the next sequence number.\<close>

definition enqueue_row ::
  "(json \<Rightarrow> string) \<Rightarrow> string \<Rightarrow> int \<Rightarrow> enqueue_input \<Rightarrow> ('a) prompt_ledger_scheme \<Rightarrow> ledger_error + queue_row" where
  "enqueue_row sha uuid now inp ld =
     bindE (requiredText (ei_dedupeKey inp) ''dedupeKey'') (\<lambda>dedupeKey.
     bindE (requiredText (ei_sessionKey inp) ''sessionKey'') (\<lambda>sessionKey.
     bindE (stringifyRequiredJson (ei_prompt inp) ''prompt'') (\<lambda>prompt.
     bindE (stringifyRequiredJson (ei_runtimeMessage inp) ''runtimeMessage'') (\<lambda>runtimeMessage.
     bindE (assertTimestamp (nullish (ei_queuedAt inp) now) ''queuedAt'') (\<lambda>queuedAt.
     let row = \<lparr>pq_queueSequence = pl_nextSequence ld,
           pq_queueItemId = nullish (optionalText (ei_queueItemId inp)) (''queue_'' @ uuid),
           pq_dedupeKey = dedupeKey, pq_immutableFingerprint = [], pq_sessionKey = sessionKey,
           pq_sessionName = optionalText (ei_sessionName inp), pq_agentId = optionalText (ei_agentId inp),
           pq_laneKey = ei_laneKey inp, pq_bootEpoch = optionalText (ei_bootEpoch inp), pq_status = QQueued,
           pq_originKind = ei_originKind inp, pq_deliveryBarrier = ei_deliveryBarrier inp,
           pq_taskBarrierTaskId = optionalText (ei_taskBarrierTaskId inp),
           pq_pendingId = optionalText (ei_pendingId inp), pq_prompt = prompt, pq_runtimeMessage = runtimeMessage,
           pq_queuedAt = queuedAt, pq_leaseOwner = None, pq_leaseExpiresAt = None, pq_deliveredAttemptId = None,
           pq_deliveredTurnId = None, pq_completedAt = None, pq_recoveryClaimId = None, pq_recoveryStatus = None,
           pq_recoveryReason = None, pq_recoveryRunId = None, pq_recoveredAt = None,
           pq_metadata = stringifyOptionalJson (map_option JObj (ei_metadata inp)),
           pq_createdAt = queuedAt, pq_updatedAt = queuedAt\<rparr>
     in Inr (row\<lparr>pq_immutableFingerprint := promptQueueFingerprint sha row\<rparr>))))))"

definition enqueueRuntimePrompt ::
  "(json \<Rightarrow> string) \<Rightarrow> string \<Rightarrow> int \<Rightarrow> enqueue_input \<Rightarrow> ('a) prompt_ledger_scheme
   \<Rightarrow> ledger_error + (bool \<times> queue_row) \<times> ('a) prompt_ledger_scheme" where
  "enqueueRuntimePrompt sha uuid now inp ld =
     (let requestedQueueItemId = optionalText (ei_queueItemId inp) in
     bindE (enqueue_row sha uuid now inp ld) (\<lambda>row.
     case row_of pq_dedupeKey (pq_dedupeKey row) (pl_queue ld) of
       Some existing \<Rightarrow>
         throw_if (pq_immutableFingerprint existing \<noteq> pq_immutableFingerprint row)
           (LedgerConflict ''Prompt dedupe key already exists with different immutable content'') (
         throw_if (requestedQueueItemId \<noteq> None \<and> Some (pq_queueItemId existing) \<noteq> requestedQueueItemId)
           (LedgerConflict ''Prompt dedupe key already belongs to another queue item'') (
         bindE (rowToPromptQueue sha existing) (\<lambda>item. Inr ((False, item), ld))))
     | None \<Rightarrow>
         bindE (enqueue_boot_checks (pq_bootEpoch row) (pq_queuedAt row) ld) (\<lambda>_.
         bindE (insert_queue sha row ld) (\<lambda>(item, ld'). Inr ((True, item), ld')))))"

text \<open>A page of the queue in the order of the sequence numbers; one row that does not decode fails the page.\<close>

primrec decode_rows :: "(json \<Rightarrow> string) \<Rightarrow> queue_row list \<Rightarrow> ledger_error + queue_row list" where
  "decode_rows sha [] = Inr []"
| "decode_rows sha (q # qs) =
     bindE (rowToPromptQueue sha q) (\<lambda>item. bindE (decode_rows sha qs) (\<lambda>items. Inr (item # items)))"

definition listRuntimePromptQueue ::
  "(json \<Rightarrow> string) \<Rightarrow> string option \<Rightarrow> delivery_barrier option \<Rightarrow> queue_status list option \<Rightarrow> int option
   \<Rightarrow> ('a) prompt_ledger_scheme \<Rightarrow> ledger_error + queue_row list" where
  "listRuntimePromptQueue sha sessionKeyIn laneKey statuses limitIn ld =
     bindE (if truthy sessionKeyIn then bindE (requiredText (the sessionKeyIn) ''sessionKey'') (\<lambda>k. Inr (Some k)) else Inr None) (\<lambda>sessionKey.
     bindE (assertLimit limitIn) (\<lambda>limit.
     decode_rows sha (take (nat limit) (sort_key pq_queueSequence (filter (\<lambda>q.
           (sessionKey = None \<or> sessionKey = Some (pq_sessionKey q)) \<and> (laneKey = None \<or> laneKey = Some (pq_laneKey q))
           \<and> (nullish statuses [] = [] \<or> pq_status q \<in> set (nullish statuses []))) (pl_queue ld))))))"

section \<open>Transitions\<close>

text \<open>In the input an outer \<open>None\<close> is undefined, an inner one null.\<close>

record queue_cas =
  qc_queueItemId :: string
  qc_expectedStatus :: "queue_status list"
  qc_expectedBootEpoch :: "string option option"
  qc_expectedLeaseOwner :: "string option option"
  qc_expectedLeaseExpiresAt :: "int option option"
  qc_status :: queue_status
  qc_bootEpoch :: "string option option"
  qc_leaseOwner :: "string option option"
  qc_leaseExpiresAt :: "int option option"
  qc_deliveredAttemptId :: "string option option"
  qc_deliveredTurnId :: "string option option"
  qc_completedAt :: "int option option"
  qc_updatedAt :: "int option"

definition given :: "'b option \<Rightarrow> ('b \<Rightarrow> 'c) \<Rightarrow> 'c \<Rightarrow> 'c" where
  "given v f current = (case v of None \<Rightarrow> current | Some x \<Rightarrow> f x)"

text \<open>A repeated transition must repeat the data that is stored.\<close>

definition provided_values_match :: "queue_cas \<Rightarrow> queue_row \<Rightarrow> bool" where
  "provided_values_match inp current \<longleftrightarrow>
     given (qc_bootEpoch inp) optionalText (pq_bootEpoch current) = pq_bootEpoch current
     \<and> given (qc_leaseOwner inp) optionalText (pq_leaseOwner current) = pq_leaseOwner current
     \<and> given (qc_leaseExpiresAt inp) id (pq_leaseExpiresAt current) = pq_leaseExpiresAt current
     \<and> given (qc_deliveredAttemptId inp) optionalText (pq_deliveredAttemptId current) = pq_deliveredAttemptId current
     \<and> given (qc_deliveredTurnId inp) optionalText (pq_deliveredTurnId current) = pq_deliveredTurnId current
     \<and> given (qc_completedAt inp) id (pq_completedAt current) = pq_completedAt current"

definition fence_given :: "queue_cas \<Rightarrow> bool" where
  "fence_given inp \<longleftrightarrow> qc_expectedBootEpoch inp \<noteq> None \<and> qc_expectedLeaseOwner inp \<noteq> None
     \<and> qc_expectedLeaseExpiresAt inp \<noteq> None"

definition fence_holds :: "queue_cas \<Rightarrow> queue_row \<Rightarrow> bool" where
  "fence_holds inp current \<longleftrightarrow>
     optionalText (nullish (qc_expectedBootEpoch inp) None) = pq_bootEpoch current
     \<and> optionalText (nullish (qc_expectedLeaseOwner inp) None) = pq_leaseOwner current
     \<and> nullish (qc_expectedLeaseExpiresAt inp) None = pq_leaseExpiresAt current"

text \<open>The row after the transition, before its completion time; a row that is queued again has no owner.\<close>

definition next_queue_row :: "queue_cas \<Rightarrow> int \<Rightarrow> queue_row \<Rightarrow> queue_row" where
  "next_queue_row inp updatedAt current =
     (let released = qc_status inp \<in> {QQueued, QRequeued, QDeferred} in
      current\<lparr>pq_status := qc_status inp,
        pq_bootEpoch := (if released then None else given (qc_bootEpoch inp) optionalText (pq_bootEpoch current)),
        pq_leaseOwner := (if released then None else given (qc_leaseOwner inp) optionalText (pq_leaseOwner current)),
        pq_leaseExpiresAt := (if released then None else given (qc_leaseExpiresAt inp) id (pq_leaseExpiresAt current)),
        pq_deliveredAttemptId := given (qc_deliveredAttemptId inp) optionalText (pq_deliveredAttemptId current),
        pq_deliveredTurnId := given (qc_deliveredTurnId inp) optionalText (pq_deliveredTurnId current),
        pq_completedAt := given (qc_completedAt inp) id (pq_completedAt current),
        pq_updatedAt := updatedAt\<rparr>)"

definition ownership_checks :: "queue_row \<Rightarrow> ledger_error + unit" where
  "ownership_checks n =
     (if pq_status n \<in> {QLeased, QStarting}
      then
        throw_if (pq_bootEpoch n = None \<or> pq_leaseOwner n = None \<or> pq_leaseExpiresAt n = None)
          (LedgerConflict ''prompt queue item requires bootEpoch, leaseOwner, and leaseExpiresAt'') (
        bindE (assertTimestamp (the (pq_leaseExpiresAt n)) ''leaseExpiresAt'') (\<lambda>lease.
        throw_if (lease \<le> pq_updatedAt n) (LedgerConflict ''prompt queue lease must expire in the future'') (Inr ())))
      else if pq_status n = QDelivered
      then
        throw_if (pq_bootEpoch n = None \<or> pq_leaseOwner n = None \<or> pq_leaseExpiresAt n = None)
          (LedgerConflict ''Delivered prompt queue item requires bootEpoch, leaseOwner, and leaseExpiresAt'') (
        throw_if (pq_deliveredAttemptId n = None \<or> pq_deliveredTurnId n = None)
          (LedgerConflict ''Delivered prompt queue item requires deliveredAttemptId and deliveredTurnId'') (
        bindE (assertTimestamp (the (pq_leaseExpiresAt n)) ''leaseExpiresAt'') (\<lambda>lease.
        throw_if (lease \<le> pq_updatedAt n) (LedgerConflict ''Cannot deliver a prompt queue item after its lease expires'')
          (Inr ()))))
      else Inr ())"

definition completion_time :: "queue_row \<Rightarrow> queue_row \<Rightarrow> ledger_error + int option" where
  "completion_time current n =
     (if queue_terminal (pq_status n)
      then
        bindE (assertTimestamp (nullish (pq_completedAt n) (pq_updatedAt n)) ''completedAt'') (\<lambda>t.
        throw_if (t < pq_updatedAt current \<or> t < pq_queuedAt current \<or> pq_updatedAt n < t)
          (LedgerConflict ''Prompt queue completion would create a regressive timeline'') (Inr (Some t)))
      else throw_if (pq_completedAt n \<noteq> None) (LedgerConflict ''Non-terminal queue status cannot have completedAt'')
        (Inr None))"

definition queue_boot_checks :: "queue_row \<Rightarrow> ('a) ledger_scheme \<Rightarrow> ledger_error + unit" where
  "queue_boot_checks n ld =
     bindE (case pq_leaseExpiresAt n of None \<Rightarrow> Inr () | Some l \<Rightarrow> bindE (assertTimestamp l ''leaseExpiresAt'') (\<lambda>_. Inr ())) (\<lambda>_.
     case pq_bootEpoch n of
       None \<Rightarrow> Inr ()
     | Some e \<Rightarrow>
         found (getBootEpochRow ld e) (LedgerNotFound ''Queue boot epoch not found'') (\<lambda>boot.
         throw_if (owner_bound (pq_status n) \<and> (be_status boot \<noteq> BootActive \<or> be_leaseExpiresAt boot \<le> pq_updatedAt n))
           (LedgerConflict ''Cannot assign prompt queue item to inactive boot'') (
         throw_if (case pq_leaseExpiresAt n of None \<Rightarrow> False | Some l \<Rightarrow> l > be_leaseExpiresAt boot)
           (LedgerConflict ''Prompt queue lease cannot outlive its owning boot lease'') (Inr ()))))"

text \<open>A prompt goes to a running attempt of its own session, turn and boot.\<close>

definition delivery_checks :: "queue_row \<Rightarrow> ('a) ledger_scheme \<Rightarrow> ledger_error + unit" where
  "delivery_checks n ld =
     (case pq_deliveredAttemptId n of
        None \<Rightarrow> Inr ()
      | Some k \<Rightarrow>
          found (getTurnAttemptRow ld k) (LedgerNotFound ''Delivered attempt not found'') (\<lambda>attempt.
          throw_if (pq_status n = QDelivered \<and> ta_status attempt \<noteq> Running)
            (LedgerConflict ''Cannot deliver a prompt queue item to a terminal attempt'') (
          throw_if (pq_status n = QDelivered \<and> ta_recoveryClaimId attempt \<noteq> None)
            (LedgerConflict ''Cannot deliver a prompt queue item to a recovery-claimed attempt'') (
          throw_if (pq_status n = QDelivered \<and> ta_leaseExpiresAt attempt \<le> pq_updatedAt n)
            (LedgerConflict ''Cannot deliver a prompt queue item to an expired attempt'') (
          throw_if (pq_status n = QDelivered \<and> pq_updatedAt n < ta_updatedAt attempt)
            (LedgerConflict ''Prompt delivery cannot precede its attempt observation'') (
          throw_if (pq_deliveredTurnId n \<noteq> None \<and> Some (ta_turnId attempt) \<noteq> pq_deliveredTurnId n)
            (LedgerConflict ''Delivered attempt and delivered turn do not match'') (
          throw_if (ta_sessionKey attempt \<noteq> pq_sessionKey n)
            (LedgerConflict ''Delivered attempt and prompt queue session do not match'') (
          throw_if (pq_bootEpoch n \<noteq> None \<and> Some (ta_bootEpoch attempt) \<noteq> pq_bootEpoch n)
            (LedgerConflict ''Delivered attempt and prompt queue boot owner do not match'') (Inr ())))))))))"

definition update_queue ::
  "(json \<Rightarrow> string) \<Rightarrow> queue_row \<Rightarrow> ('a) prompt_ledger_scheme \<Rightarrow> ledger_error + queue_row \<times> ('a) prompt_ledger_scheme" where
  "update_queue sha q ld =
     throw_if (\<not> queue_check q) (LedgerConstraint ''runtime_prompt_queue'') (
     bindE (rowToPromptQueue sha q) (\<lambda>row.
     Inr (row, ld\<lparr>pl_queue := put_row pq_queueItemId q (pl_queue ld)\<rparr>)))"

text \<open>The next row, once the fence holds.\<close>

definition write_transition ::
  "(json \<Rightarrow> string) \<Rightarrow> queue_cas \<Rightarrow> int \<Rightarrow> queue_row \<Rightarrow> ('a) prompt_ledger_scheme
   \<Rightarrow> ledger_error + (bool \<times> queue_row) \<times> ('a) prompt_ledger_scheme" where
  "write_transition sha inp updatedAt current ld =
     (let n = next_queue_row inp updatedAt current in
     bindE (ownership_checks n) (\<lambda>_.
     bindE (completion_time current n) (\<lambda>completedAt.
     bindE (queue_boot_checks n ld) (\<lambda>_.
     bindE (delivery_checks n ld) (\<lambda>_.
     bindE (update_queue sha (n\<lparr>pq_completedAt := completedAt\<rparr>) ld) (\<lambda>(item, ld'). Inr ((True, item), ld')))))))"

text \<open>Repetitions of a delivered or terminal row write nothing; a stale owner loses.\<close>

definition transition_queue ::
  "(json \<Rightarrow> string) \<Rightarrow> queue_cas \<Rightarrow> int \<Rightarrow> queue_row \<Rightarrow> ('a) prompt_ledger_scheme
   \<Rightarrow> ledger_error + (bool \<times> queue_row) \<times> ('a) prompt_ledger_scheme" where
  "transition_queue sha inp updatedAt current ld =
     (if pq_status current \<notin> set (qc_expectedStatus inp) then Inr ((False, current), ld)
      else if queue_terminal (pq_status current)
      then
        throw_if (pq_status current \<noteq> qc_status inp)
          (LedgerConflict ''Cannot transition terminal prompt queue item'') (
        throw_if (\<not> (provided_values_match inp current \<and> given (qc_updatedAt inp) id (pq_updatedAt current) = pq_updatedAt current))
          (LedgerConflict ''Terminal prompt queue item already has different durable data'') (
        Inr ((False, current), ld)))
      else
        throw_if (qc_status inp \<notin> set (ALLOWED_QUEUE_STATUS_TRANSITIONS (pq_status current)))
          (LedgerConflict ''Cannot transition prompt queue item'') (
        if pq_status current = QDelivered \<and> qc_status inp = QDelivered
        then
          throw_if (\<not> provided_values_match inp current)
            (LedgerConflict ''Delivered prompt queue item already has different durable data'') (
          Inr ((False, current), ld))
        else
          throw_if (updatedAt < pq_updatedAt current) (LedgerConflict ''Cannot move prompt queue item time backwards'') (
          throw_if (pq_leaseOwner current \<noteq> None \<and> \<not> fence_given inp)
            (LedgerInvalid ''Owner-bound prompt queue transition requires the observed boot, owner, and lease fence'') (
          if pq_leaseOwner current \<noteq> None \<and> \<not> fence_holds inp current then Inr ((False, current), ld)
          else write_transition sha inp updatedAt current ld))))"

definition compareAndSetRuntimePromptQueueStatus ::
  "(json \<Rightarrow> string) \<Rightarrow> int \<Rightarrow> queue_cas \<Rightarrow> ('a) prompt_ledger_scheme
   \<Rightarrow> ledger_error + (bool \<times> queue_row) \<times> ('a) prompt_ledger_scheme" where
  "compareAndSetRuntimePromptQueueStatus sha now inp ld =
     bindE (requiredText (qc_queueItemId inp) ''queueItemId'') (\<lambda>queueItemId.
     throw_if (qc_expectedStatus inp = []) (LedgerInvalid ''expectedStatus cannot be empty'') (
     bindE (assertTimestamp (nullish (qc_updatedAt inp) now) ''updatedAt'') (\<lambda>updatedAt.
     found (getPromptQueueRow ld queueItemId) (LedgerNotFound ''Prompt queue item not found'') (\<lambda>current.
     bindE (rowToPromptQueue sha current) (\<lambda>currentRecord.
     throw_if (pq_recoveryClaimId currentRecord \<noteq> None)
       (LedgerConflict ''Cannot mutate recovery-claimed prompt queue item'') (
     transition_queue sha inp updatedAt currentRecord ld))))))"

section \<open>What a transition does\<close>

text \<open>What no operation changes about a prompt.\<close>

definition queue_identity where
  "queue_identity q = ((pq_queueSequence q, pq_queueItemId q, pq_dedupeKey q, pq_immutableFingerprint q, pq_sessionKey q,
     pq_sessionName q), (pq_agentId q, pq_laneKey q, pq_originKind q, pq_deliveryBarrier q, pq_taskBarrierTaskId q),
     (pq_pendingId q, pq_prompt q, pq_runtimeMessage q, pq_queuedAt q, pq_metadata q, pq_createdAt q))"

text \<open>What a row says about its recovery, as one value.\<close>

record recovery_marks =
  rm_claimId :: "string option"
  rm_status :: "string option"
  rm_reason :: "string option"
  rm_runId :: "string option"
  rm_recoveredAt :: "int option"

definition unclaimed :: recovery_marks where
  "unclaimed = \<lparr>rm_claimId = None, rm_status = None, rm_reason = None, rm_runId = None, rm_recoveredAt = None\<rparr>"

definition queue_recovery :: "queue_row \<Rightarrow> recovery_marks" where
  "queue_recovery q = \<lparr>rm_claimId = pq_recoveryClaimId q, rm_status = pq_recoveryStatus q, rm_reason = pq_recoveryReason q,
     rm_runId = pq_recoveryRunId q, rm_recoveredAt = pq_recoveredAt q\<rparr>"

lemma identity_content: "queue_identity q = queue_identity q' \<Longrightarrow> prompt_content q = prompt_content q'"
  by (simp add: queue_identity_def prompt_content_def)

text \<open>A row that decodes.\<close>

definition queue_row_valid :: "(json \<Rightarrow> string) \<Rightarrow> queue_row \<Rightarrow> bool" where
  "queue_row_valid sha q \<longleftrightarrow>
     (owner_bound (pq_status q) \<longrightarrow> pq_bootEpoch q \<noteq> None \<and> pq_leaseOwner q \<noteq> None \<and> pq_leaseExpiresAt q \<noteq> None)
     \<and> (pq_leaseOwner q = None \<longleftrightarrow> pq_leaseExpiresAt q = None)
     \<and> (pq_status q = QDelivered \<longrightarrow> pq_deliveredAttemptId q \<noteq> None \<and> pq_deliveredTurnId q \<noteq> None)
     \<and> (queue_terminal (pq_status q) \<longleftrightarrow> pq_completedAt q \<noteq> None)
     \<and> promptQueueFingerprint sha q = pq_immutableFingerprint q"

lemma row_decodes [simp]: "rowToPromptQueue sha q = Inr q' \<longleftrightarrow> q' = q \<and> queue_row_valid sha q"
  by (auto simp: rowToPromptQueue_def queue_row_valid_def)

text \<open>How a prompt is tied to the boot that leases it and to the attempt it went to.\<close>

definition queue_tied :: "('a) ledger_scheme \<Rightarrow> queue_row \<Rightarrow> bool" where
  "queue_tied ld q \<longleftrightarrow>
     (\<forall>e. pq_bootEpoch q = Some e \<longrightarrow> (\<exists>b. getBootEpochRow ld e = Some b
        \<and> (\<forall>l. pq_leaseExpiresAt q = Some l \<longrightarrow> l \<le> be_leaseExpiresAt b)))
     \<and> (\<forall>k. pq_deliveredAttemptId q = Some k \<longrightarrow> (\<exists>a. getTurnAttemptRow ld k = Some a \<and> ta_sessionKey a = pq_sessionKey q
        \<and> (pq_deliveredTurnId q = None \<or> pq_deliveredTurnId q = Some (ta_turnId a))
        \<and> (pq_bootEpoch q = None \<or> pq_bootEpoch q = Some (ta_bootEpoch a))))"

text \<open>What a delivery requires of the boot and of the attempt.\<close>

definition queue_owned :: "('a) ledger_scheme \<Rightarrow> queue_row \<Rightarrow> bool" where
  "queue_owned ld q \<longleftrightarrow>
     (owner_bound (pq_status q) \<longrightarrow> (\<exists>e b l. pq_bootEpoch q = Some e \<and> getBootEpochRow ld e = Some b \<and> be_status b = BootActive
        \<and> pq_leaseOwner q \<noteq> None \<and> pq_leaseExpiresAt q = Some l \<and> pq_updatedAt q < l \<and> l \<le> be_leaseExpiresAt b))
     \<and> (pq_status q = QDelivered \<longrightarrow> (\<exists>k a. pq_deliveredAttemptId q = Some k \<and> getTurnAttemptRow ld k = Some a
        \<and> ta_status a = Running \<and> ta_recoveryClaimId a = None \<and> pq_updatedAt q < ta_leaseExpiresAt a
        \<and> ta_updatedAt a \<le> pq_updatedAt q \<and> ta_sessionKey a = pq_sessionKey q
        \<and> pq_deliveredTurnId q = Some (ta_turnId a) \<and> pq_bootEpoch q = Some (ta_bootEpoch a)))"

lemma boot_checks_Inr:
  "queue_boot_checks n ld = Inr () \<longleftrightarrow>
     (\<forall>l. pq_leaseExpiresAt n = Some l \<longrightarrow> 0 \<le> l \<and> l \<le> MAX_SAFE_INTEGER)
     \<and> (\<forall>e. pq_bootEpoch n = Some e \<longrightarrow> (\<exists>b. getBootEpochRow ld e = Some b
          \<and> (owner_bound (pq_status n) \<longrightarrow> be_status b = BootActive \<and> pq_updatedAt n < be_leaseExpiresAt b)
          \<and> (\<forall>l. pq_leaseExpiresAt n = Some l \<longrightarrow> l \<le> be_leaseExpiresAt b)))"
  by (cases "pq_leaseExpiresAt n"; cases "pq_bootEpoch n") (auto simp: queue_boot_checks_def)

lemma delivery_checks_Inr:
  "delivery_checks n ld = Inr () \<longleftrightarrow>
     (\<forall>k. pq_deliveredAttemptId n = Some k \<longrightarrow> (\<exists>a. getTurnAttemptRow ld k = Some a \<and> ta_sessionKey a = pq_sessionKey n
        \<and> (pq_status n = QDelivered \<longrightarrow> ta_status a = Running \<and> ta_recoveryClaimId a = None
             \<and> pq_updatedAt n < ta_leaseExpiresAt a \<and> ta_updatedAt a \<le> pq_updatedAt n)
        \<and> (pq_deliveredTurnId n = None \<or> pq_deliveredTurnId n = Some (ta_turnId a))
        \<and> (pq_bootEpoch n = None \<or> pq_bootEpoch n = Some (ta_bootEpoch a))))"
  by (cases "pq_deliveredAttemptId n") (auto simp: delivery_checks_def)

lemma ownership_checks_Inr:
  "ownership_checks n = Inr () \<longleftrightarrow>
     (owner_bound (pq_status n) \<longrightarrow> (\<exists>e w l. pq_bootEpoch n = Some e \<and> pq_leaseOwner n = Some w \<and> pq_leaseExpiresAt n = Some l
        \<and> 0 \<le> l \<and> l \<le> MAX_SAFE_INTEGER \<and> pq_updatedAt n < l))
     \<and> (pq_status n = QDelivered \<longrightarrow> pq_deliveredAttemptId n \<noteq> None \<and> pq_deliveredTurnId n \<noteq> None)"
  by (cases "pq_status n") (auto simp: ownership_checks_def)

lemma completion_time_Inr:
  "completion_time current n = Inr t \<Longrightarrow>
     (queue_terminal (pq_status n) \<longleftrightarrow> t \<noteq> None) \<and> (\<forall>x. t = Some x \<longrightarrow> pq_queuedAt current \<le> x \<and> pq_updatedAt current \<le> x \<and> x \<le> pq_updatedAt n)"
  by (auto simp: completion_time_def split: if_splits)

lemma next_queue_row_fields [simp]:
  "queue_identity (next_queue_row inp t q) = queue_identity q" "queue_recovery (next_queue_row inp t q) = queue_recovery q"
  "pq_status (next_queue_row inp t q) = qc_status inp" "pq_updatedAt (next_queue_row inp t q) = t"
  "pq_createdAt (next_queue_row inp t q) = pq_createdAt q" "pq_queueItemId (next_queue_row inp t q) = pq_queueItemId q"
  by (simp_all add: next_queue_row_def Let_def queue_identity_def queue_recovery_def)

text \<open>A transition either leaves the ledger as it is, or writes the next row of a prompt nobody has claimed, under the fence
  of its owner.\<close>

definition queue_moved :: "('a) ledger_scheme \<Rightarrow> queue_row \<Rightarrow> queue_row \<Rightarrow> bool" where
  "queue_moved ld current q \<longleftrightarrow> pq_recoveryClaimId current = None \<and> \<not> queue_terminal (pq_status current)
     \<and> pq_status q \<in> set (ALLOWED_QUEUE_STATUS_TRANSITIONS (pq_status current))
     \<and> queue_identity q = queue_identity current \<and> queue_recovery q = queue_recovery current
     \<and> pq_updatedAt current \<le> pq_updatedAt q \<and> queue_check q \<and> queue_tied ld q \<and> queue_owned ld q"

lemma write_transition_effect:
  assumes "write_transition sha inp t c ld = Inr ((applied, q), ld')" "pq_recoveryClaimId c = None" "\<not> queue_terminal (pq_status c)"
    "qc_status inp \<in> set (ALLOWED_QUEUE_STATUS_TRANSITIONS (pq_status c))" "pq_updatedAt c \<le> t"
  shows "applied \<and> queue_row_valid sha q \<and> queue_moved ld c q \<and> pq_status q = qc_status inp
    \<and> ld' = ld\<lparr>pl_queue := put_row pq_queueItemId q (pl_queue ld)\<rparr>"
proof -
  define n where "n = next_queue_row inp t c"
  from assms(1) obtain x where k: "ownership_checks n = Inr ()" "completion_time c n = Inr x" "queue_boot_checks n ld = Inr ()"
      "delivery_checks n ld = Inr ()" and u: "update_queue sha (n\<lparr>pq_completedAt := x\<rparr>) ld = Inr (q, ld')" "applied"
    by (auto simp: write_transition_def Let_def n_def [symmetric] split: prod.splits)
  from u have q: "q = n\<lparr>pq_completedAt := x\<rparr>" "queue_check q" "queue_row_valid sha q"
      "ld' = ld\<lparr>pl_queue := put_row pq_queueItemId q (pl_queue ld)\<rparr>"
    by (auto simp: update_queue_def)
  have f: "queue_identity q = queue_identity c" "queue_recovery q = queue_recovery c" "pq_status q = qc_status inp" "pq_updatedAt q = t"
    unfolding q(1) by (simp_all add: n_def queue_identity_def queue_recovery_def next_queue_row_def Let_def)
  have "queue_tied ld q \<and> queue_owned ld q"
    using k(1,3,4) unfolding ownership_checks_Inr boot_checks_Inr delivery_checks_Inr queue_tied_def queue_owned_def q(1)
    by fastforce
  with f q u assms(2-) show ?thesis by (simp add: queue_moved_def)
qed

lemma cas_effect:
  assumes "compareAndSetRuntimePromptQueueStatus sha now inp ld = Inr ((applied, q), ld')"
  shows "queue_row_valid sha q \<and>
    (if applied
     then (\<exists>c. getPromptQueueRow ld (trim (qc_queueItemId inp)) = Some c \<and> queue_moved ld c q \<and> pq_status q = qc_status inp
         \<and> pq_status c \<in> set (qc_expectedStatus inp) \<and> (pq_leaseOwner c \<noteq> None \<longrightarrow> fence_given inp \<and> fence_holds inp c)
         \<and> ld' = ld\<lparr>pl_queue := put_row pq_queueItemId q (pl_queue ld)\<rparr>)
     else ld' = ld \<and> getPromptQueueRow ld (trim (qc_queueItemId inp)) = Some q)"
proof -
  from assms obtain c t where c: "getPromptQueueRow ld (trim (qc_queueItemId inp)) = Some c" "queue_row_valid sha c"
      "pq_recoveryClaimId c = None" "transition_queue sha inp t c ld = Inr ((applied, q), ld')"
    unfolding compareAndSetRuntimePromptQueueStatus_def by auto
  then consider "\<not> applied" "q = c" "ld' = ld" | "pq_status c \<in> set (qc_expectedStatus inp)" "\<not> queue_terminal (pq_status c)"
      "qc_status inp \<in> set (ALLOWED_QUEUE_STATUS_TRANSITIONS (pq_status c))" "pq_updatedAt c \<le> t"
      "pq_leaseOwner c \<noteq> None \<longrightarrow> fence_given inp \<and> fence_holds inp c"
      "write_transition sha inp t c ld = Inr ((applied, q), ld')"
    by (auto simp: transition_queue_def split: if_splits)
  then show ?thesis
  proof cases
    case 1
    with c show ?thesis by simp
  next
    case 2
    from write_transition_effect [OF 2(6) c(3) 2(2,3,4)] 2 c(1) show ?thesis by auto
  qed
qed

lemma enqueue_row_Inr:
  assumes "enqueue_row sha uuid now inp ld = Inr q"
  shows "pq_status q = QQueued \<and> pq_queueSequence q = pl_nextSequence ld \<and> pq_leaseOwner q = None \<and> pq_leaseExpiresAt q = None
    \<and> pq_deliveredAttemptId q = None \<and> pq_completedAt q = None \<and> queue_recovery q = unclaimed
    \<and> pq_createdAt q = pq_queuedAt q \<and> pq_updatedAt q = pq_queuedAt q
    \<and> pq_immutableFingerprint q = promptQueueFingerprint sha q"
  using assms by (auto simp: enqueue_row_def Let_def queue_recovery_def unclaimed_def promptQueueFingerprint_def prompt_content_def)

text \<open>An enqueue either finds the prompt, or appends a new one with the next sequence number.\<close>

lemma enqueue_effect:
  assumes "enqueueRuntimePrompt sha uuid now inp ld = Inr ((created, q), ld')"
  shows "queue_row_valid sha q \<and> (\<exists>row. enqueue_row sha uuid now inp ld = Inr row \<and> pq_dedupeKey q = pq_dedupeKey row
    \<and> pq_immutableFingerprint q = pq_immutableFingerprint row
    \<and> (if created
       then q = row \<and> queue_check q \<and> queue_tied ld q \<and> pq_queueItemId q \<notin> pq_queueItemId ` set (pl_queue ld)
         \<and> pq_dedupeKey q \<notin> pq_dedupeKey ` set (pl_queue ld)
         \<and> ld' = ld\<lparr>pl_queue := pl_queue ld @ [q], pl_nextSequence := pl_nextSequence ld + 1\<rparr>
       else ld' = ld \<and> row_of pq_dedupeKey (pq_dedupeKey row) (pl_queue ld) = Some q))"
proof -
  from assms obtain row where row: "enqueue_row sha uuid now inp ld = Inr row"
    by (auto simp: enqueueRuntimePrompt_def Let_def)
  show ?thesis
  proof (cases "row_of pq_dedupeKey (pq_dedupeKey row) (pl_queue ld)")
    case None
    with assms row have b: "enqueue_boot_checks (pq_bootEpoch row) (pq_queuedAt row) ld = Inr ()"
      and i: "insert_queue sha row ld = Inr (q, ld')" "created"
      by (auto simp: enqueueRuntimePrompt_def Let_def split: prod.splits)
    then have "queue_tied ld row"
      using enqueue_row_Inr [OF row] by (auto simp: queue_tied_def enqueue_boot_checks_def split: option.splits)
    with i row show ?thesis by (auto simp: insert_queue_def)
  next
    case (Some e)
    with assms row row_of_key [OF Some] show ?thesis by (auto simp: enqueueRuntimePrompt_def Let_def)
  qed
qed

section \<open>The table of prompts\<close>

definition prompt_ledger_ok :: "(json \<Rightarrow> string) \<Rightarrow> ('a) prompt_ledger_scheme \<Rightarrow> bool" where
  "prompt_ledger_ok sha ld \<longleftrightarrow> distinct (map pq_queueItemId (pl_queue ld)) \<and> distinct (map pq_dedupeKey (pl_queue ld))
     \<and> sorted_wrt (<) (map pq_queueSequence (pl_queue ld)) \<and> (\<forall>q\<in>set (pl_queue ld). pq_queueSequence q < pl_nextSequence ld)
     \<and> (\<forall>q\<in>set (pl_queue ld). queue_check q \<and> queue_row_valid sha q \<and> queue_tied ld q)"

lemma queue_tied_mono:
  assumes "queue_tied ld q"
    "\<And>k b. getBootEpochRow ld k = Some b \<Longrightarrow> \<exists>b'. getBootEpochRow ld' k = Some b' \<and> boot_le b b'"
    "\<And>k a. getTurnAttemptRow ld k = Some a \<Longrightarrow> \<exists>a'. getTurnAttemptRow ld' k = Some a' \<and> attempt_le a a'"
  shows "queue_tied ld' q"
  unfolding queue_tied_def
proof (intro conjI allI impI)
  fix e assume "pq_bootEpoch q = Some e"
  with assms(1) obtain b where b: "getBootEpochRow ld e = Some b" "\<forall>l. pq_leaseExpiresAt q = Some l \<longrightarrow> l \<le> be_leaseExpiresAt b"
    by (auto simp: queue_tied_def)
  with assms(2) [OF b(1)] show "\<exists>b. getBootEpochRow ld' e = Some b \<and> (\<forall>l. pq_leaseExpiresAt q = Some l \<longrightarrow> l \<le> be_leaseExpiresAt b)"
    by (force simp: boot_le_def)
next
  fix k assume "pq_deliveredAttemptId q = Some k"
  with assms(1) obtain a where a: "getTurnAttemptRow ld k = Some a" "ta_sessionKey a = pq_sessionKey q"
      "pq_deliveredTurnId q = None \<or> pq_deliveredTurnId q = Some (ta_turnId a)"
      "pq_bootEpoch q = None \<or> pq_bootEpoch q = Some (ta_bootEpoch a)"
    by (auto simp: queue_tied_def)
  with assms(3) [OF a(1)] show "\<exists>a. getTurnAttemptRow ld' k = Some a \<and> ta_sessionKey a = pq_sessionKey q
      \<and> (pq_deliveredTurnId q = None \<or> pq_deliveredTurnId q = Some (ta_turnId a))
      \<and> (pq_bootEpoch q = None \<or> pq_bootEpoch q = Some (ta_bootEpoch a))"
    by (auto simp: attempt_le_def)
qed

text \<open>Writing back a row with the same identity keeps the keys and the order of the table.\<close>

lemma put_row_maps:
  assumes "distinct (map key rows)" "row_of key k rows = Some c" "key q = key c" "f q = f c"
  shows "map f (put_row key q rows) = map f rows"
proof -
  have "f r = f c" if "r \<in> set rows" "key r = key c" for r
    using assms(1) that row_of_key [OF assms(2)] by (auto simp: distinct_map dest: inj_onD)
  with assms(3,4) show ?thesis by (auto simp: put_row_def)
qed

lemma prompt_table_put:
  assumes "prompt_ledger_ok sha ld" "getPromptQueueRow ld k = Some c" "queue_identity q = queue_identity c"
    "queue_check q" "queue_row_valid sha q" "queue_tied ld q"
  shows "prompt_ledger_ok sha (ld\<lparr>pl_queue := put_row pq_queueItemId q (pl_queue ld)\<rparr>)"
proof -
  have d: "distinct (map pq_queueItemId (pl_queue ld))" using assms(1) by (simp add: prompt_ledger_ok_def)
  have i: "pq_queueItemId q = pq_queueItemId c" "pq_dedupeKey q = pq_dedupeKey c" "pq_queueSequence q = pq_queueSequence c"
    using assms(3) by (simp_all add: queue_identity_def)
  note m = put_row_maps [OF d assms(2) i(1)]
  have t: "queue_tied (ld\<lparr>pl_queue := Q\<rparr>) x = queue_tied ld x" for Q x by (simp add: queue_tied_def)
  have "c \<in> set (pl_queue ld)" using assms(2) row_of_key by fast
  with assms i have row: "pq_queueSequence x < pl_nextSequence ld \<and> queue_check x \<and> queue_row_valid sha x \<and> queue_tied ld x"
    if "x \<in> set (put_row pq_queueItemId q (pl_queue ld))" for x
    using put_row_in [OF that] by (auto simp: prompt_ledger_ok_def)
  show ?thesis using assms(1) m(1) [OF i(2)] m(1) [OF i(3)] row
    unfolding prompt_ledger_ok_def by (simp add: put_row_keys t)
qed

lemma enqueue_ok:
  assumes "enqueueRuntimePrompt sha uuid now inp ld = Inr ((created, q), ld')" "prompt_ledger_ok sha ld"
  shows "prompt_ledger_ok sha ld'"
proof (cases created)
  case False
  with enqueue_effect [OF assms(1)] assms(2) show ?thesis by auto
next
  case True
  from enqueue_effect [OF assms(1)] True obtain q' where e: "queue_row_valid sha q" "enqueue_row sha uuid now inp ld = Inr q"
      "queue_check q" "queue_tied ld q" "pq_queueItemId q \<notin> pq_queueItemId ` set (pl_queue ld)"
      "pq_dedupeKey q \<notin> pq_dedupeKey ` set (pl_queue ld)"
      "ld' = ld\<lparr>pl_queue := pl_queue ld @ [q], pl_nextSequence := pl_nextSequence ld + 1\<rparr>" by auto
  have "queue_tied (ld\<lparr>pl_queue := Q, pl_nextSequence := n\<rparr>) x = queue_tied ld x" for Q n x by (simp add: queue_tied_def)
  with e enqueue_row_Inr [OF e(2)] assms(2) show ?thesis
    by (force simp: prompt_ledger_ok_def sorted_wrt_append)
qed

lemma cas_ok:
  assumes "compareAndSetRuntimePromptQueueStatus sha now inp ld = Inr ((applied, q), ld')" "prompt_ledger_ok sha ld"
  shows "prompt_ledger_ok sha ld'"
  using cas_effect [OF assms(1)] assms(2) by (auto simp: queue_moved_def split: if_splits intro: prompt_table_put)

end
