(* ===== verification/RecoveryLedger.thy ===== *)
theory RecoveryLedger
  imports PromptLedger
begin

text \<open>
  Recovery runs, their candidates and the claims on them (\<open>src/src/runtime/crash-recovery-store.ts\<close>). A run
  inspects, rehearses or applies; it records what it evaluated as candidates under a key derived from
  the source; an apply run may claim a candidate, which fences the attempt or the queued prompt, and
  later completes the claim. The state extends the ledger and the prompt queue by the three tables.
\<close>

section \<open>Rows\<close>

datatype recovery_mode = ModeInspect | ModeDryRun | ModeApply

datatype run_status = RunRunning | RunComplete | RunFailed

datatype candidate_type = CandTurnAttempt | CandPromptQueue | CandLegacySessionTurn

datatype recovery_decision =
  DecResume | DecRequeue | DecReconcileInterrupted | DecDeferNextSchedule | DecIgnoreStale | DecManualReview

datatype action_status = ActPending | ActNotApplied | ActClaimed | ActApplied | ActFailed

datatype claim_status = ClaimClaimed | ClaimApplied | ClaimFailed

record recovery_run =
  rn_recoveryRunId :: string
  rn_mode :: recovery_mode
  rn_bootEpoch :: "string option"
  rn_status :: run_status
  rn_startedAt :: int
  rn_completedAt :: "int option"
  rn_summary :: "json option"
  rn_error :: "string option"
  rn_metadata :: "json option"
  rn_createdAt :: int
  rn_updatedAt :: int

record recovery_candidate =
  cn_recoveryRunId :: string
  cn_candidateKey :: string
  cn_candidateType :: candidate_type
  cn_sessionKey :: string
  cn_sessionName :: "string option"
  cn_attemptId :: "string option"
  cn_turnId :: "string option"
  cn_queueItemId :: "string option"
  cn_decision :: recovery_decision
  cn_reasonCode :: string
  cn_action :: string
  cn_actionStatus :: action_status
  cn_claimId :: "string option"
  cn_details :: "json option"
  cn_result :: "json option"
  cn_actionCompletedAt :: "int option"
  cn_createdAt :: int
  cn_updatedAt :: int

record candidate_input =
  ki_recoveryRunId :: string
  ki_candidateKey :: "string option"
  ki_candidateType :: candidate_type
  ki_sessionKey :: string
  ki_sessionName :: "string option"
  ki_attemptId :: "string option"
  ki_turnId :: "string option"
  ki_queueItemId :: "string option"
  ki_decision :: recovery_decision
  ki_reasonCode :: string
  ki_action :: string
  ki_details :: "(string \<times> json) list option"
  ki_recordedAt :: "int option"

record recovery_claim =
  cl_candidateKey :: string
  cl_claimId :: string
  cl_candidateType :: candidate_type
  cl_sessionKey :: string
  cl_attemptId :: "string option"
  cl_queueItemId :: "string option"
  cl_recoveryRunId :: string
  cl_claimedByBootEpoch :: string
  cl_status :: claim_status
  cl_claimedAt :: int
  cl_completedAt :: "int option"
  cl_result :: "json option"
  cl_createdAt :: int
  cl_updatedAt :: int

record recovery_ledger = prompt_ledger +
  rl_runs :: "recovery_run list"
  rl_candidates :: "recovery_candidate list"
  rl_claims :: "recovery_claim list"

definition candidate_id :: "recovery_candidate \<Rightarrow> string \<times> string" where
  "candidate_id c = (cn_recoveryRunId c, cn_candidateKey c)"

abbreviation getRecoveryRunRow :: "('a) recovery_ledger_scheme \<Rightarrow> string \<Rightarrow> recovery_run option" where
  "getRecoveryRunRow ld k \<equiv> row_of rn_recoveryRunId k (rl_runs ld)"

abbreviation getRecoveryCandidateRow :: "('a) recovery_ledger_scheme \<Rightarrow> string \<Rightarrow> string \<Rightarrow> recovery_candidate option" where
  "getRecoveryCandidateRow ld r k \<equiv> row_of candidate_id (r, k) (rl_candidates ld)"

abbreviation getRecoveryClaimByCandidateRow :: "('a) recovery_ledger_scheme \<Rightarrow> string \<Rightarrow> recovery_claim option" where
  "getRecoveryClaimByCandidateRow ld k \<equiv> row_of cl_candidateKey k (rl_claims ld)"

abbreviation getRecoveryClaimByIdRow :: "('a) recovery_ledger_scheme \<Rightarrow> string \<Rightarrow> recovery_claim option" where
  "getRecoveryClaimByIdRow ld k \<equiv> row_of cl_claimId k (rl_claims ld)"

fun decision_name :: "recovery_decision \<Rightarrow> string" where
  "decision_name DecResume = ''resume''"
| "decision_name DecRequeue = ''requeue''"
| "decision_name DecReconcileInterrupted = ''reconcile_interrupted''"
| "decision_name DecDeferNextSchedule = ''defer_next_schedule''"
| "decision_name DecIgnoreStale = ''ignore_stale''"
| "decision_name DecManualReview = ''manual_review''"

text \<open>The constraints of the three tables.\<close>

definition run_check :: "recovery_run \<Rightarrow> bool" where
  "run_check r \<longleftrightarrow> (rn_status r = RunRunning \<longleftrightarrow> rn_completedAt r = None)
     \<and> (case rn_completedAt r of None \<Rightarrow> True | Some t \<Rightarrow> t \<ge> rn_startedAt r)
     \<and> rn_updatedAt r \<ge> rn_createdAt r"

definition candidate_check :: "recovery_candidate \<Rightarrow> bool" where
  "candidate_check c \<longleftrightarrow>
     (case cn_candidateType c of
        CandTurnAttempt \<Rightarrow> cn_attemptId c \<noteq> None \<and> cn_queueItemId c = None
      | CandPromptQueue \<Rightarrow> cn_queueItemId c \<noteq> None \<and> cn_attemptId c = None
      | CandLegacySessionTurn \<Rightarrow> cn_attemptId c = None \<and> cn_queueItemId c = None \<and> cn_turnId c \<noteq> None)
     \<and> (case cn_actionStatus c of
          ActPending \<Rightarrow> cn_claimId c = None \<and> cn_actionCompletedAt c = None
        | ActClaimed \<Rightarrow> cn_claimId c \<noteq> None \<and> cn_actionCompletedAt c = None
        | ActNotApplied \<Rightarrow> cn_actionCompletedAt c \<noteq> None
        | _ \<Rightarrow> cn_claimId c \<noteq> None \<and> cn_actionCompletedAt c \<noteq> None)
     \<and> (case cn_actionCompletedAt c of None \<Rightarrow> True | Some t \<Rightarrow> t \<ge> cn_createdAt c)
     \<and> cn_updatedAt c \<ge> cn_createdAt c"

definition claim_check :: "recovery_claim \<Rightarrow> bool" where
  "claim_check c \<longleftrightarrow>
     (case cl_candidateType c of
        CandTurnAttempt \<Rightarrow> cl_attemptId c \<noteq> None \<and> cl_queueItemId c = None
      | CandPromptQueue \<Rightarrow> cl_queueItemId c \<noteq> None \<and> cl_attemptId c = None
      | CandLegacySessionTurn \<Rightarrow> False)
     \<and> (cl_status c = ClaimClaimed \<longleftrightarrow> cl_completedAt c = None)
     \<and> (case cl_completedAt c of None \<Rightarrow> True | Some t \<Rightarrow> t \<ge> cl_claimedAt c)
     \<and> cl_updatedAt c \<ge> cl_createdAt c"

text \<open>Writing one row of each table.\<close>

definition insert_run :: "recovery_run \<Rightarrow> ('a) recovery_ledger_scheme \<Rightarrow> ledger_error + recovery_run \<times> ('a) recovery_ledger_scheme" where
  "insert_run r ld = throw_if (\<not> run_check r) (LedgerConstraint ''runtime_recovery_runs'')
     (Inr (r, ld\<lparr>rl_runs := rl_runs ld @ [r]\<rparr>))"

definition update_run :: "recovery_run \<Rightarrow> ('a) recovery_ledger_scheme \<Rightarrow> ledger_error + recovery_run \<times> ('a) recovery_ledger_scheme" where
  "update_run r ld = throw_if (\<not> run_check r) (LedgerConstraint ''runtime_recovery_runs'')
     (Inr (r, ld\<lparr>rl_runs := put_row rn_recoveryRunId r (rl_runs ld)\<rparr>))"

definition insert_candidate ::
  "recovery_candidate \<Rightarrow> ('a) recovery_ledger_scheme \<Rightarrow> ledger_error + recovery_candidate \<times> ('a) recovery_ledger_scheme" where
  "insert_candidate c ld = throw_if (\<not> candidate_check c) (LedgerConstraint ''runtime_recovery_candidates'')
     (Inr (c, ld\<lparr>rl_candidates := rl_candidates ld @ [c]\<rparr>))"

definition update_candidate ::
  "recovery_candidate \<Rightarrow> ('a) recovery_ledger_scheme \<Rightarrow> ledger_error + recovery_candidate \<times> ('a) recovery_ledger_scheme" where
  "update_candidate c ld = throw_if (\<not> candidate_check c) (LedgerConstraint ''runtime_recovery_candidates'')
     (Inr (c, ld\<lparr>rl_candidates := put_row candidate_id c (rl_candidates ld)\<rparr>))"

definition insert_claim ::
  "recovery_claim \<Rightarrow> ('a) recovery_ledger_scheme \<Rightarrow> ledger_error + recovery_claim \<times> ('a) recovery_ledger_scheme" where
  "insert_claim c ld =
     throw_if (\<not> claim_check c \<or> cl_claimId c \<in> cl_claimId ` set (rl_claims ld)
               \<or> cl_candidateKey c \<in> cl_candidateKey ` set (rl_claims ld)) (LedgerConstraint ''runtime_recovery_claims'')
     (Inr (c, ld\<lparr>rl_claims := rl_claims ld @ [c]\<rparr>))"

definition update_claim ::
  "recovery_claim \<Rightarrow> ('a) recovery_ledger_scheme \<Rightarrow> ledger_error + recovery_claim \<times> ('a) recovery_ledger_scheme" where
  "update_claim c ld = throw_if (\<not> claim_check c) (LedgerConstraint ''runtime_recovery_claims'')
     (Inr (c, ld\<lparr>rl_claims := put_row cl_claimId c (rl_claims ld)\<rparr>))"

section \<open>Runs\<close>

definition run_boot_checks :: "recovery_mode \<Rightarrow> string option \<Rightarrow> int \<Rightarrow> ('a) ledger_scheme \<Rightarrow> ledger_error + unit" where
  "run_boot_checks mode bootEpoch startedAt ld =
     (case bootEpoch of
        Some e \<Rightarrow>
          found (getBootEpochRow ld e) (LedgerNotFound ''Recovery boot epoch not found'') (\<lambda>boot.
          throw_if (mode = ModeApply \<and> (be_status boot \<noteq> BootActive \<or> startedAt < be_startedAt boot
                                         \<or> be_leaseExpiresAt boot \<le> startedAt))
            (LedgerConflict ''Apply recovery run requires an active boot epoch'') (Inr ()))
      | None \<Rightarrow> throw_if (mode = ModeApply) (LedgerConflict ''Apply recovery run requires bootEpoch'') (Inr ()))"

definition createRuntimeRecoveryRun ::
  "string \<Rightarrow> int \<Rightarrow> string option \<Rightarrow> recovery_mode \<Rightarrow> string option \<Rightarrow> int option \<Rightarrow> (string \<times> json) list option
   \<Rightarrow> ('a) recovery_ledger_scheme \<Rightarrow> ledger_error + recovery_run \<times> ('a) recovery_ledger_scheme" where
  "createRuntimeRecoveryRun uuid now runIdIn mode bootIn startedIn metadata ld =
     bindE (requiredText (nullish runIdIn (''recovery_'' @ uuid)) ''recoveryRunId'') (\<lambda>recoveryRunId.
     bindE (assertTimestamp (nullish startedIn now) ''startedAt'') (\<lambda>startedAt.
     let bootEpoch = optionalText bootIn;
         metadataJson = stringifyOptionalJson (map_option JObj metadata)
     in case getRecoveryRunRow ld recoveryRunId of
          Some existing \<Rightarrow>
            throw_if (\<not> (rn_mode existing = mode \<and> rn_bootEpoch existing = bootEpoch \<and> rn_startedAt existing = startedAt
                          \<and> rn_metadata existing = metadataJson))
              (LedgerConflict ''Recovery run already exists with different immutable data'') (Inr (existing, ld))
        | None \<Rightarrow>
            bindE (run_boot_checks mode bootEpoch startedAt ld) (\<lambda>_.
            insert_run \<lparr>rn_recoveryRunId = recoveryRunId, rn_mode = mode, rn_bootEpoch = bootEpoch,
              rn_status = RunRunning, rn_startedAt = startedAt, rn_completedAt = None, rn_summary = None,
              rn_error = None, rn_metadata = metadataJson, rn_createdAt = startedAt, rn_updatedAt = startedAt\<rparr> ld)))"

text \<open>The outcome of a run; \<open>None\<close> is undefined, an inner \<open>None\<close> null.\<close>

record run_outcome =
  ro_recoveryRunId :: string
  ro_failed :: bool
  ro_summary :: "(string \<times> json) list option option"
  ro_error :: "string option option"
  ro_completedAt :: "int option"

definition completeRuntimeRecoveryRun ::
  "int \<Rightarrow> run_outcome \<Rightarrow> ('a) recovery_ledger_scheme \<Rightarrow> ledger_error + recovery_run \<times> ('a) recovery_ledger_scheme" where
  "completeRuntimeRecoveryRun now inp ld =
     (let status = (if ro_failed inp then RunFailed else RunComplete);
          summaryJson = stringifyOptionalJson (map_option JObj (nullish (ro_summary inp) None));
          err = optionalText (nullish (ro_error inp) None) in
     bindE (requiredText (ro_recoveryRunId inp) ''recoveryRunId'') (\<lambda>recoveryRunId.
     bindE (assertTimestamp (nullish (ro_completedAt inp) now) ''completedAt'') (\<lambda>completedAt.
     throw_if (ro_failed inp \<and> err = None) (LedgerInvalid ''Failed recovery run requires an error'') (
     throw_if (\<not> ro_failed inp \<and> err \<noteq> None) (LedgerInvalid ''Completed recovery run cannot include an error'') (
     found (getRecoveryRunRow ld recoveryRunId) (LedgerNotFound ''Recovery run not found'') (\<lambda>current.
     let candidates = filter (\<lambda>c. cn_recoveryRunId c = recoveryRunId) (rl_candidates ld) in
     if rn_status current = status
     then
       throw_if (\<not> ((ro_completedAt inp = None \<or> Some completedAt = rn_completedAt current)
                     \<and> (ro_summary inp = None \<or> summaryJson = rn_summary current)
                     \<and> (ro_error inp = None \<or> err = rn_error current)))
         (LedgerConflict ''Recovery run already has different terminal data'') (Inr (current, ld))
     else
       throw_if (rn_status current \<noteq> RunRunning) (LedgerConflict ''Cannot transition recovery run'') (
       throw_if (completedAt < rn_updatedAt current)
         (LedgerConflict ''completedAt cannot precede the latest recovery run update'') (
       throw_if (list_ex (\<lambda>c. cn_actionStatus c \<in> {ActPending, ActClaimed}) candidates)
         (LedgerConflict ''Recovery run still has open candidate'') (
       throw_if (list_ex (\<lambda>c. completedAt < cn_updatedAt c) candidates)
         (LedgerConflict ''completedAt cannot precede the latest candidate update'') (
       update_run (current\<lparr>rn_status := status, rn_completedAt := Some completedAt, rn_summary := summaryJson,
                           rn_error := err, rn_updatedAt := completedAt\<rparr>) ld))))))))))"

section \<open>Candidates\<close>

text \<open>The key of a candidate; \<open>sha256\<close> hashes the session and turn of a legacy turn, separated by a zero.\<close>

definition buildRuntimeRecoveryCandidateKey ::
  "(string \<Rightarrow> string) \<Rightarrow> candidate_type \<Rightarrow> string \<Rightarrow> string option \<Rightarrow> string option \<Rightarrow> string option \<Rightarrow> ledger_error + string" where
  "buildRuntimeRecoveryCandidateKey sha256 candidateType sessionKeyIn attemptId turnIdIn queueItemId =
     bindE (requiredText sessionKeyIn ''sessionKey'') (\<lambda>sessionKey.
     case candidateType of
       CandTurnAttempt \<Rightarrow> bindE (requiredText (nullish attemptId []) ''attemptId'') (\<lambda>a. Inr (''attempt:'' @ a))
     | CandPromptQueue \<Rightarrow> bindE (requiredText (nullish queueItemId []) ''queueItemId'') (\<lambda>q. Inr (''queue:'' @ q))
     | CandLegacySessionTurn \<Rightarrow> bindE (requiredText (nullish turnIdIn []) ''turnId'') (\<lambda>t.
         Inr (''legacy:'' @ sha256 (sessionKey @ [CHR 0x00] @ t))))"

text \<open>The source of a candidate: its session name and turn, completed from the row it points to.\<close>

definition candidate_source ::
  "(json \<Rightarrow> string) \<Rightarrow> candidate_type \<Rightarrow> string \<Rightarrow> string option \<Rightarrow> string option \<Rightarrow> string option \<Rightarrow> string option
   \<Rightarrow> ('a) prompt_ledger_scheme \<Rightarrow> ledger_error + string option \<times> string option" where
  "candidate_source sha candidateType sessionKey sessionName attemptId turnId queueItemId ld =
     (case candidateType of
        CandTurnAttempt \<Rightarrow>
          throw_if (attemptId = None \<or> queueItemId \<noteq> None)
            (LedgerInvalid ''turn_attempt candidate requires attemptId and forbids queueItemId'') (
          found (getTurnAttemptRow ld (the attemptId)) (LedgerNotFound ''Candidate attempt not found'') (\<lambda>attempt.
          throw_if (ta_sessionKey attempt \<noteq> sessionKey)
            (LedgerConflict ''Candidate sessionKey does not match attempt sessionKey'') (
          throw_if (turnId \<noteq> None \<and> turnId \<noteq> Some (ta_turnId attempt))
            (LedgerConflict ''Candidate turnId does not match attempt turnId'') (
          Inr (orElse sessionName (ta_sessionName attempt), Some (ta_turnId attempt))))))
      | CandPromptQueue \<Rightarrow>
          throw_if (queueItemId = None \<or> attemptId \<noteq> None)
            (LedgerInvalid ''prompt_queue candidate requires queueItemId and forbids attemptId'') (
          found (getPromptQueueRow ld (the queueItemId)) (LedgerNotFound ''Candidate queue item not found'') (\<lambda>item.
          bindE (rowToPromptQueue sha item) (\<lambda>_.
          throw_if (pq_sessionKey item \<noteq> sessionKey)
            (LedgerConflict ''Candidate sessionKey does not match queue item sessionKey'') (
          throw_if (turnId \<noteq> None \<and> pq_deliveredTurnId item \<noteq> None \<and> turnId \<noteq> pq_deliveredTurnId item)
            (LedgerConflict ''Candidate turnId does not match queue item delivered turnId'') (
          Inr (orElse sessionName (pq_sessionName item), orElse turnId (pq_deliveredTurnId item)))))))
      | CandLegacySessionTurn \<Rightarrow>
          throw_if (turnId = None \<or> attemptId \<noteq> None \<or> queueItemId \<noteq> None)
            (LedgerInvalid ''legacy_session_turn candidate requires turnId and forbids attemptId and queueItemId'') (
          Inr (sessionName, turnId)))"

definition same_candidate_data :: "recovery_candidate \<Rightarrow> recovery_candidate \<Rightarrow> bool" where
  "same_candidate_data existing new \<longleftrightarrow>
     cn_candidateType existing = cn_candidateType new \<and> cn_sessionKey existing = cn_sessionKey new
     \<and> cn_sessionName existing = cn_sessionName new \<and> cn_attemptId existing = cn_attemptId new
     \<and> cn_turnId existing = cn_turnId new \<and> cn_queueItemId existing = cn_queueItemId new
     \<and> cn_decision existing = cn_decision new \<and> cn_reasonCode existing = cn_reasonCode new
     \<and> cn_action existing = cn_action new \<and> cn_details existing = cn_details new"

definition recordRuntimeRecoveryCandidate ::
  "(string \<Rightarrow> string) \<Rightarrow> (json \<Rightarrow> string) \<Rightarrow> int \<Rightarrow> candidate_input \<Rightarrow> ('a) recovery_ledger_scheme
   \<Rightarrow> ledger_error + recovery_candidate \<times> ('a) recovery_ledger_scheme" where
  "recordRuntimeRecoveryCandidate sha256 sha now inp ld =
     bindE (requiredText (ki_recoveryRunId inp) ''recoveryRunId'') (\<lambda>recoveryRunId.
     bindE (requiredText (ki_sessionKey inp) ''sessionKey'') (\<lambda>sessionKey.
     bindE (requiredText (ki_reasonCode inp) ''reasonCode'') (\<lambda>reasonCode.
     bindE (requiredText (ki_action inp) ''action'') (\<lambda>action.
     bindE (assertTimestamp (nullish (ki_recordedAt inp) now) ''recordedAt'') (\<lambda>recordedAt.
     found (getRecoveryRunRow ld recoveryRunId) (LedgerNotFound ''Recovery run not found'') (\<lambda>run.
     throw_if (rn_status run \<noteq> RunRunning) (LedgerConflict ''Cannot append candidate to terminal recovery run'') (
     throw_if (recordedAt < rn_startedAt run) (LedgerConflict ''Recovery candidate cannot precede its recovery run'') (
     let attemptId = optionalText (ki_attemptId inp); queueItemId = optionalText (ki_queueItemId inp) in
     bindE (candidate_source sha (ki_candidateType inp) sessionKey (optionalText (ki_sessionName inp)) attemptId
              (optionalText (ki_turnId inp)) queueItemId ld) (\<lambda>(sessionName, turnId).
     bindE (buildRuntimeRecoveryCandidateKey sha256 (ki_candidateType inp) sessionKey attemptId turnId queueItemId) (\<lambda>candidateKey.
     throw_if (optionalText (ki_candidateKey inp) \<noteq> None \<and> optionalText (ki_candidateKey inp) \<noteq> Some candidateKey)
       (LedgerConflict ''Recovery candidate key must be canonical'') (
     let claimable = (rn_mode run = ModeApply \<and> ki_candidateType inp \<noteq> CandLegacySessionTurn);
         row = \<lparr>cn_recoveryRunId = recoveryRunId, cn_candidateKey = candidateKey, cn_candidateType = ki_candidateType inp,
           cn_sessionKey = sessionKey, cn_sessionName = sessionName, cn_attemptId = attemptId, cn_turnId = turnId,
           cn_queueItemId = queueItemId, cn_decision = ki_decision inp, cn_reasonCode = reasonCode, cn_action = action,
           cn_actionStatus = (if claimable then ActPending else ActNotApplied), cn_claimId = None,
           cn_details = stringifyOptionalJson (map_option JObj (ki_details inp)), cn_result = None,
           cn_actionCompletedAt = (if claimable then None else Some recordedAt), cn_createdAt = recordedAt,
           cn_updatedAt = recordedAt\<rparr>
     in case getRecoveryCandidateRow ld recoveryRunId candidateKey of
          Some existing \<Rightarrow>
            throw_if (\<not> same_candidate_data existing row)
              (LedgerConflict ''Recovery candidate already exists with different immutable data'') (Inr (existing, ld))
        | None \<Rightarrow> insert_candidate row ld)))))))))))"

section \<open>Claims\<close>

text \<open>The claim on the source: an attempt that still runs, or a prompt that is not terminal, and unclaimed.\<close>

definition source_claimable :: "(json \<Rightarrow> string) \<Rightarrow> recovery_candidate \<Rightarrow> ('a) prompt_ledger_scheme \<Rightarrow> ledger_error + unit" where
  "source_claimable sha candidate ld =
     (if cn_candidateType candidate = CandTurnAttempt
      then
        found (case cn_attemptId candidate of None \<Rightarrow> None | Some k \<Rightarrow> getTurnAttemptRow ld k)
          (LedgerNotFound ''Candidate attempt is missing'') (\<lambda>attempt.
        throw_if (ta_status attempt \<noteq> Running \<or> ta_recoveryClaimId attempt \<noteq> None)
          (LedgerConflict ''Candidate attempt is no longer claimable'') (Inr ()))
      else
        found (case cn_queueItemId candidate of None \<Rightarrow> None | Some k \<Rightarrow> getPromptQueueRow ld k)
          (LedgerNotFound ''Candidate queue item is missing'') (\<lambda>item.
        bindE (rowToPromptQueue sha item) (\<lambda>_.
        throw_if (queue_terminal (pq_status item) \<or> pq_recoveryClaimId item \<noteq> None)
          (LedgerConflict ''Candidate queue item is no longer claimable'') (Inr ()))))"

definition claimed_attempt :: "string \<Rightarrow> recovery_candidate \<Rightarrow> int \<Rightarrow> attempt_row \<Rightarrow> attempt_row" where
  "claimed_attempt claimId candidate claimedAt a =
     a\<lparr>ta_recoveryClaimId := Some claimId, ta_recoveryStatus := Some ''claimed'',
       ta_recoveryReason := Some (cn_reasonCode candidate), ta_recoveryRunId := Some (cn_recoveryRunId candidate),
       ta_updatedAt := max (ta_updatedAt a) claimedAt\<rparr>"

definition claimed_item :: "string \<Rightarrow> recovery_candidate \<Rightarrow> int \<Rightarrow> queue_row \<Rightarrow> queue_row" where
  "claimed_item claimId candidate claimedAt q =
     q\<lparr>pq_recoveryClaimId := Some claimId, pq_recoveryStatus := Some ''claimed'',
       pq_recoveryReason := Some (cn_reasonCode candidate), pq_recoveryRunId := Some (cn_recoveryRunId candidate),
       pq_updatedAt := max (pq_updatedAt q) claimedAt\<rparr>"

text \<open>A plain update of a queued prompt, which is not read back.\<close>

definition write_queue :: "queue_row \<Rightarrow> ('a) prompt_ledger_scheme \<Rightarrow> ledger_error + queue_row \<times> ('a) prompt_ledger_scheme" where
  "write_queue q ld = throw_if (\<not> queue_check q) (LedgerConstraint ''runtime_prompt_queue'')
     (Inr (q, ld\<lparr>pl_queue := put_row pq_queueItemId q (pl_queue ld)\<rparr>))"

definition claim_source ::
  "string \<Rightarrow> recovery_candidate \<Rightarrow> int \<Rightarrow> ('a) prompt_ledger_scheme \<Rightarrow> ledger_error + ('a) prompt_ledger_scheme" where
  "claim_source claimId candidate claimedAt ld =
     (if cn_candidateType candidate = CandTurnAttempt
      then
        found (getTurnAttemptRow ld (the (cn_attemptId candidate))) (LedgerConflict ''Candidate attempt lost its claim race'') (\<lambda>a.
        bindE (update_attempt (claimed_attempt claimId candidate claimedAt a) ld) (\<lambda>(_, ld'). Inr ld'))
      else
        found (getPromptQueueRow ld (the (cn_queueItemId candidate))) (LedgerConflict ''Candidate queue item lost its claim race'') (\<lambda>q.
        bindE (write_queue (claimed_item claimId candidate claimedAt q) ld) (\<lambda>(_, ld'). Inr ld')))"

definition same_logical_candidate :: "recovery_claim \<Rightarrow> recovery_candidate \<Rightarrow> bool" where
  "same_logical_candidate existing candidate \<longleftrightarrow>
     cl_candidateType existing = cn_candidateType candidate \<and> cl_sessionKey existing = cn_sessionKey candidate
     \<and> cl_attemptId existing = cn_attemptId candidate \<and> cl_queueItemId existing = cn_queueItemId candidate"

definition already_claimed_result :: "recovery_claim \<Rightarrow> json" where
  "already_claimed_result c = sortJson (JObj
     [(''code'', JStr ''already_claimed''), (''claimId'', JStr (cl_claimId c)),
      (''recoveryRunId'', JStr (cl_recoveryRunId c))])"

text \<open>Who may claim what: the boot of a running apply run, a candidate of that run.\<close>

definition claim_candidate_checks ::
  "string \<Rightarrow> string \<Rightarrow> string \<Rightarrow> int \<Rightarrow> ('a) recovery_ledger_scheme \<Rightarrow> ledger_error + recovery_candidate" where
  "claim_candidate_checks recoveryRunId candidateKey claimedBy claimedAt ld =
     found (getRecoveryRunRow ld recoveryRunId) (LedgerNotFound ''Recovery run not found'') (\<lambda>run.
     throw_if (rn_mode run \<noteq> ModeApply \<or> rn_status run \<noteq> RunRunning)
       (LedgerConflict ''Only a running apply recovery run may acquire claims'') (
     found (getBootEpochRow ld claimedBy) (LedgerNotFound ''Claiming boot epoch not found'') (\<lambda>boot.
     throw_if (be_status boot \<noteq> BootActive \<or> be_leaseExpiresAt boot \<le> claimedAt)
       (LedgerConflict ''Recovery claim requires an active claiming boot epoch'') (
     throw_if (rn_bootEpoch run \<noteq> Some claimedBy)
       (LedgerConflict ''Recovery claim must be owned by the apply run boot epoch'') (
     found (getRecoveryCandidateRow ld recoveryRunId candidateKey) (LedgerNotFound ''Recovery candidate not found'') (\<lambda>candidate.
     throw_if (cn_candidateType candidate = CandLegacySessionTurn)
       (LedgerConflict ''Legacy session turn candidates are inspect-only and cannot be claimed'') (
     throw_if (claimedAt < cn_updatedAt candidate \<or> claimedAt < rn_startedAt run)
       (LedgerConflict ''Recovery claim cannot precede its run or candidate'') (
     Inr candidate))))))))"

text \<open>A claim that exists settles the candidate of this run, and is returned.\<close>

definition beaten_candidate :: "recovery_claim \<Rightarrow> int \<Rightarrow> recovery_candidate \<Rightarrow> recovery_candidate" where
  "beaten_candidate cl t c = c\<lparr>cn_actionStatus := ActNotApplied, cn_claimId := Some (cl_claimId cl),
     cn_result := Some (already_claimed_result cl), cn_actionCompletedAt := Some t, cn_updatedAt := t\<rparr>"

definition yield_claim ::
  "recovery_claim \<Rightarrow> recovery_candidate \<Rightarrow> int \<Rightarrow> ('a) recovery_ledger_scheme
   \<Rightarrow> ledger_error + (bool \<times> recovery_claim) \<times> ('a) recovery_ledger_scheme" where
  "yield_claim existing candidate claimedAt ld =
     throw_if (\<not> same_logical_candidate existing candidate)
       (LedgerConflict ''Recovery candidate key collides with a different logical source'') (
     if cn_actionStatus candidate = ActPending
     then bindE (update_candidate (beaten_candidate existing claimedAt candidate) ld) (\<lambda>(_, ld'). Inr ((False, existing), ld'))
     else Inr ((False, existing), ld))"

definition new_claim :: "string \<Rightarrow> string \<Rightarrow> recovery_candidate \<Rightarrow> int \<Rightarrow> recovery_claim" where
  "new_claim claimId claimedBy candidate claimedAt =
     \<lparr>cl_candidateKey = cn_candidateKey candidate, cl_claimId = claimId, cl_candidateType = cn_candidateType candidate,
      cl_sessionKey = cn_sessionKey candidate, cl_attemptId = cn_attemptId candidate,
      cl_queueItemId = cn_queueItemId candidate, cl_recoveryRunId = cn_recoveryRunId candidate,
      cl_claimedByBootEpoch = claimedBy, cl_status = ClaimClaimed, cl_claimedAt = claimedAt, cl_completedAt = None,
      cl_result = None, cl_createdAt = claimedAt, cl_updatedAt = claimedAt\<rparr>"

definition claimed_candidate :: "recovery_claim \<Rightarrow> recovery_candidate \<Rightarrow> recovery_candidate" where
  "claimed_candidate cl c = c\<lparr>cn_actionStatus := ActClaimed, cn_claimId := Some (cl_claimId cl), cn_updatedAt := cl_claimedAt cl\<rparr>"

text \<open>A new claim is written to its table, to the source and to the candidate.\<close>

definition take_claim ::
  "(json \<Rightarrow> string) \<Rightarrow> recovery_claim \<Rightarrow> recovery_candidate \<Rightarrow> ('a) recovery_ledger_scheme
   \<Rightarrow> ledger_error + (bool \<times> recovery_claim) \<times> ('a) recovery_ledger_scheme" where
  "take_claim sha claim candidate ld =
     throw_if (cn_actionStatus candidate \<noteq> ActPending \<or> cn_claimId candidate \<noteq> None)
       (LedgerConflict ''Recovery candidate is not pending an unclaimed apply action'') (
     bindE (source_claimable sha candidate ld) (\<lambda>_.
     bindE (insert_claim claim ld) (\<lambda>(_, ld1).
     bindE (claim_source (cl_claimId claim) candidate (cl_claimedAt claim) ld1) (\<lambda>ld2.
     bindE (update_candidate (claimed_candidate claim candidate) ld2) (\<lambda>(_, ld3). Inr ((True, claim), ld3))))))"

text \<open>Acquiring a claim; \<open>False\<close> says that the claim existed.\<close>

definition acquireRuntimeRecoveryClaim ::
  "(json \<Rightarrow> string) \<Rightarrow> string \<Rightarrow> int \<Rightarrow> string \<Rightarrow> string \<Rightarrow> string \<Rightarrow> string option \<Rightarrow> int option
   \<Rightarrow> ('a) recovery_ledger_scheme \<Rightarrow> ledger_error + (bool \<times> recovery_claim) \<times> ('a) recovery_ledger_scheme" where
  "acquireRuntimeRecoveryClaim sha uuid now runIdIn keyIn bootIn claimIdIn claimedIn ld =
     bindE (requiredText runIdIn ''recoveryRunId'') (\<lambda>recoveryRunId.
     bindE (requiredText keyIn ''candidateKey'') (\<lambda>candidateKey.
     bindE (requiredText bootIn ''claimedByBootEpoch'') (\<lambda>claimedBy.
     bindE (requiredText (nullish claimIdIn (''claim_'' @ uuid)) ''claimId'') (\<lambda>claimId.
     bindE (assertTimestamp (nullish claimedIn now) ''claimedAt'') (\<lambda>claimedAt.
     bindE (claim_candidate_checks recoveryRunId candidateKey claimedBy claimedAt ld) (\<lambda>candidate.
     case getRecoveryClaimByCandidateRow ld candidateKey of
       Some existing \<Rightarrow> yield_claim existing candidate claimedAt ld
     | None \<Rightarrow> take_claim sha (new_claim claimId claimedBy candidate claimedAt) candidate ld))))))"

text \<open>What the source of a claim says about its recovery.\<close>

record source_projection =
  sp_claimId :: "string option"
  sp_status :: "string option"
  sp_reason :: "string option"
  sp_runId :: "string option"
  sp_recoveredAt :: "int option"
  sp_updatedAt :: int

definition claim_projection :: "recovery_claim \<Rightarrow> ('a) prompt_ledger_scheme \<Rightarrow> source_projection option" where
  "claim_projection claim ld =
     (if cl_candidateType claim = CandTurnAttempt
      then map_option (\<lambda>a. \<lparr>sp_claimId = ta_recoveryClaimId a, sp_status = ta_recoveryStatus a,
               sp_reason = ta_recoveryReason a, sp_runId = ta_recoveryRunId a, sp_recoveredAt = ta_recoveredAt a,
               sp_updatedAt = ta_updatedAt a\<rparr>)
             (case cl_attemptId claim of None \<Rightarrow> None | Some k \<Rightarrow> getTurnAttemptRow ld k)
      else map_option (\<lambda>q. \<lparr>sp_claimId = pq_recoveryClaimId q, sp_status = pq_recoveryStatus q,
               sp_reason = pq_recoveryReason q, sp_runId = pq_recoveryRunId q, sp_recoveredAt = pq_recoveredAt q,
               sp_updatedAt = pq_updatedAt q\<rparr>)
             (case cl_queueItemId claim of None \<Rightarrow> None | Some k \<Rightarrow> getPromptQueueRow ld k))"

text \<open>Decoding the source, when it is a queued prompt.\<close>

definition decode_source :: "(json \<Rightarrow> string) \<Rightarrow> recovery_claim \<Rightarrow> ('a) prompt_ledger_scheme \<Rightarrow> ledger_error + unit" where
  "decode_source sha claim ld =
     (if cl_candidateType claim = CandTurnAttempt then Inr ()
      else (case (case cl_queueItemId claim of None \<Rightarrow> None | Some k \<Rightarrow> getPromptQueueRow ld k) of
              None \<Rightarrow> Inr ()
            | Some item \<Rightarrow> bindE (rowToPromptQueue sha item) (\<lambda>_. Inr ())))"

definition recovered_attempt :: "string \<Rightarrow> string \<Rightarrow> int \<Rightarrow> attempt_row \<Rightarrow> attempt_row" where
  "recovered_attempt recoveryStatus reason completedAt a =
     a\<lparr>ta_recoveryStatus := Some recoveryStatus, ta_recoveryReason := Some reason, ta_recoveredAt := Some completedAt,
       ta_updatedAt := max (ta_updatedAt a) completedAt\<rparr>"

definition recovered_item :: "string \<Rightarrow> string \<Rightarrow> int \<Rightarrow> queue_row \<Rightarrow> queue_row" where
  "recovered_item recoveryStatus reason completedAt q =
     q\<lparr>pq_recoveryStatus := Some recoveryStatus, pq_recoveryReason := Some reason, pq_recoveredAt := Some completedAt,
       pq_updatedAt := max (pq_updatedAt q) completedAt\<rparr>"

definition complete_source ::
  "(json \<Rightarrow> string) \<Rightarrow> recovery_claim \<Rightarrow> string \<Rightarrow> string \<Rightarrow> int \<Rightarrow> ('a) prompt_ledger_scheme
   \<Rightarrow> ledger_error + ('a) prompt_ledger_scheme" where
  "complete_source sha claim recoveryStatus reason completedAt ld =
     (if cl_candidateType claim = CandTurnAttempt
      then
        found (getTurnAttemptRow ld (the (cl_attemptId claim))) (LedgerConflict ''Attempt projection is missing'') (\<lambda>a.
        bindE (update_attempt (recovered_attempt recoveryStatus reason completedAt a) ld) (\<lambda>(_, ld'). Inr ld'))
      else
        found (getPromptQueueRow ld (the (cl_queueItemId claim))) (LedgerConflict ''Queue projection is missing'') (\<lambda>q.
        bindE (write_queue (recovered_item recoveryStatus reason completedAt q) ld) (\<lambda>(q', ld').
        bindE (rowToPromptQueue sha q') (\<lambda>_. Inr ld'))))"

record claim_outcome =
  lo_claimId :: string
  lo_applied :: bool
  lo_result :: "(string \<times> json) list"
  lo_completedAt :: "int option"

text \<open>A repeated completion must find every projection as it left it.\<close>

definition retry_claim ::
  "(json \<Rightarrow> string) \<Rightarrow> bool \<Rightarrow> int \<Rightarrow> claim_outcome \<Rightarrow> json \<Rightarrow> recovery_claim \<Rightarrow> recovery_candidate \<Rightarrow> ('a) recovery_ledger_scheme
   \<Rightarrow> ledger_error + (recovery_claim \<times> recovery_candidate) \<times> ('a) recovery_ledger_scheme" where
  "retry_claim sha applied completedAt inp result current candidate ld =
     bindE (decode_source sha current ld) (\<lambda>_.
     throw_if (\<not> ((lo_completedAt inp = None \<or> Some completedAt = cl_completedAt current)
                   \<and> cl_result current = Some result
                   \<and> cn_actionStatus candidate = (if applied then ActApplied else ActFailed)
                   \<and> cn_claimId candidate = Some (cl_claimId current)
                   \<and> cn_actionCompletedAt candidate = cl_completedAt current \<and> cn_result candidate = cl_result current
                   \<and> (case claim_projection current ld of
                        None \<Rightarrow> False
                      | Some s \<Rightarrow> sp_claimId s = Some (cl_claimId current)
                          \<and> sp_status s = Some (if applied then decision_name (cn_decision candidate) else ''action_failed'')
                          \<and> sp_reason s = Some (cn_reasonCode candidate) \<and> sp_runId s = Some (cl_recoveryRunId current)
                          \<and> sp_recoveredAt s = cl_completedAt current)))
       (LedgerConflict ''Recovery claim already has different terminal data'') (
     Inr ((current, candidate), ld)))"

definition finished_claim :: "bool \<Rightarrow> int \<Rightarrow> json \<Rightarrow> recovery_claim \<Rightarrow> recovery_claim" where
  "finished_claim applied completedAt result cl =
     cl\<lparr>cl_status := (if applied then ClaimApplied else ClaimFailed), cl_completedAt := Some completedAt,
        cl_result := Some result, cl_updatedAt := completedAt\<rparr>"

definition finished_candidate :: "bool \<Rightarrow> int \<Rightarrow> json \<Rightarrow> recovery_candidate \<Rightarrow> recovery_candidate" where
  "finished_candidate applied completedAt result c =
     c\<lparr>cn_actionStatus := (if applied then ActApplied else ActFailed), cn_result := Some result,
       cn_actionCompletedAt := Some completedAt, cn_updatedAt := completedAt\<rparr>"

text \<open>Every projection of the claim is compared before it moves: candidate, run, boot and source.\<close>

definition finish_claim ::
  "(json \<Rightarrow> string) \<Rightarrow> bool \<Rightarrow> int \<Rightarrow> json \<Rightarrow> recovery_claim \<Rightarrow> recovery_candidate \<Rightarrow> ('a) recovery_ledger_scheme
   \<Rightarrow> ledger_error + (recovery_claim \<times> recovery_candidate) \<times> ('a) recovery_ledger_scheme" where
  "finish_claim sha applied completedAt result current candidate ld =
     throw_if (cl_status current \<noteq> ClaimClaimed) (LedgerConflict ''Cannot transition recovery claim'') (
     throw_if (cn_actionStatus candidate \<noteq> ActClaimed \<or> cn_claimId candidate \<noteq> Some (cl_claimId current))
       (LedgerConflict ''Recovery candidate projection diverged from claim'') (
     found (getRecoveryRunRow ld (cl_recoveryRunId current)) (LedgerConflict ''Recovery run is no longer open for claim'') (\<lambda>run.
     throw_if (rn_status run \<noteq> RunRunning \<or> rn_mode run \<noteq> ModeApply)
       (LedgerConflict ''Recovery run is no longer open for claim'') (
     found (getBootEpochRow ld (cl_claimedByBootEpoch current)) (LedgerConflict ''Claiming boot is no longer live'') (\<lambda>boot.
     throw_if (be_status boot \<noteq> BootActive \<or> be_leaseExpiresAt boot \<le> completedAt)
       (LedgerConflict ''Claiming boot is no longer live'') (
     throw_if (completedAt < cl_claimedAt current \<or> completedAt < cl_updatedAt current \<or> completedAt < cn_updatedAt candidate)
       (LedgerConflict ''Recovery claim completion time is regressive'') (
     bindE (update_claim (finished_claim applied completedAt result current) ld) (\<lambda>(claim, ld1).
     bindE (update_candidate (finished_candidate applied completedAt result candidate) ld1) (\<lambda>(candidate', ld2).
     let source = claim_projection current ld2 in
     throw_if (case source of None \<Rightarrow> True | Some s \<Rightarrow> completedAt < sp_updatedAt s)
       (LedgerConflict ''Source projection is missing or newer than claim'') (
     bindE (decode_source sha current ld2) (\<lambda>_.
     throw_if (\<not> (sp_claimId (the source) = Some (cl_claimId current) \<and> sp_status (the source) = Some ''claimed''
                   \<and> sp_reason (the source) = Some (cn_reasonCode candidate)
                   \<and> sp_runId (the source) = Some (cl_recoveryRunId current) \<and> sp_recoveredAt (the source) = None))
       (LedgerConflict ''Source projection diverged for claim'') (
     bindE (complete_source sha current (if applied then decision_name (cn_decision candidate) else ''action_failed'')
              (cn_reasonCode candidate) completedAt ld2) (\<lambda>ld3.
     Inr ((claim, candidate'), ld3))))))))))))))"

definition completeRuntimeRecoveryClaim ::
  "(json \<Rightarrow> string) \<Rightarrow> int \<Rightarrow> claim_outcome \<Rightarrow> ('a) recovery_ledger_scheme
   \<Rightarrow> ledger_error + (recovery_claim \<times> recovery_candidate) \<times> ('a) recovery_ledger_scheme" where
  "completeRuntimeRecoveryClaim sha now inp ld =
     bindE (requiredText (lo_claimId inp) ''claimId'') (\<lambda>claimId.
     bindE (assertTimestamp (nullish (lo_completedAt inp) now) ''completedAt'') (\<lambda>completedAt.
     bindE (stringifyRequiredJson (Some (JObj (lo_result inp))) ''claim result'') (\<lambda>result.
     found (getRecoveryClaimByIdRow ld claimId) (LedgerNotFound ''Recovery claim not found'') (\<lambda>current.
     found (getRecoveryCandidateRow ld (cl_recoveryRunId current) (cl_candidateKey current))
       (LedgerNotFound ''Winning recovery candidate is missing'') (\<lambda>candidate.
     if cl_status current = (if lo_applied inp then ClaimApplied else ClaimFailed)
     then retry_claim sha (lo_applied inp) completedAt inp result current candidate ld
     else finish_claim sha (lo_applied inp) completedAt result current candidate ld)))))"

section \<open>What an operation does\<close>

lemma write_rows_Inr [simp]:
  "insert_run r ld = Inr (r', ld') \<longleftrightarrow> run_check r \<and> r' = r \<and> ld' = ld\<lparr>rl_runs := rl_runs ld @ [r]\<rparr>"
  "update_run r ld = Inr (r', ld') \<longleftrightarrow> run_check r \<and> r' = r \<and> ld' = ld\<lparr>rl_runs := put_row rn_recoveryRunId r (rl_runs ld)\<rparr>"
  "insert_candidate c ld = Inr (c', ld') \<longleftrightarrow> candidate_check c \<and> c' = c \<and> ld' = ld\<lparr>rl_candidates := rl_candidates ld @ [c]\<rparr>"
  "update_candidate c ld = Inr (c', ld') \<longleftrightarrow> candidate_check c \<and> c' = c
     \<and> ld' = ld\<lparr>rl_candidates := put_row candidate_id c (rl_candidates ld)\<rparr>"
  "insert_claim l ld = Inr (l', ld') \<longleftrightarrow> claim_check l \<and> cl_claimId l \<notin> cl_claimId ` set (rl_claims ld)
     \<and> cl_candidateKey l \<notin> cl_candidateKey ` set (rl_claims ld) \<and> l' = l \<and> ld' = ld\<lparr>rl_claims := rl_claims ld @ [l]\<rparr>"
  "update_claim l ld = Inr (l', ld') \<longleftrightarrow> claim_check l \<and> l' = l \<and> ld' = ld\<lparr>rl_claims := put_row cl_claimId l (rl_claims ld)\<rparr>"
  "write_queue q pd = Inr (q', pd') \<longleftrightarrow> queue_check q \<and> q' = q \<and> pd' = pd\<lparr>pl_queue := put_row pq_queueItemId q (pl_queue pd)\<rparr>"
  by (auto simp: insert_run_def update_run_def insert_candidate_def update_candidate_def insert_claim_def update_claim_def
      write_queue_def)

lemma row_of_self: "row_of key k rows = Some r \<Longrightarrow> row_of key (key r) rows = Some r"
  using row_of_key by fast

lemma create_run_effect:
  assumes "createRuntimeRecoveryRun uuid now i mode b t md ld = Inr (r, ld')"
  shows "ld' = ld \<and> getRecoveryRunRow ld (rn_recoveryRunId r) = Some r
    \<or> getRecoveryRunRow ld (rn_recoveryRunId r) = None \<and> run_check r \<and> rn_status r = RunRunning
      \<and> (rn_mode r = ModeApply \<longrightarrow> rn_bootEpoch r \<noteq> None) \<and> ld' = ld\<lparr>rl_runs := rl_runs ld @ [r]\<rparr>"
  using assms unfolding createRuntimeRecoveryRun_def Let_def
  by (auto split: option.splits dest: row_of_self simp: run_boot_checks_def run_check_def)

text \<open>A run keeps its mode and its boot, and ends only when none of its candidates is open.\<close>

lemma complete_run_effect:
  assumes "completeRuntimeRecoveryRun now inp ld = Inr (r, ld')"
  shows "ld' = ld \<and> getRecoveryRunRow ld (rn_recoveryRunId r) = Some r
    \<or> (\<exists>c. getRecoveryRunRow ld (rn_recoveryRunId r) = Some c \<and> rn_status c = RunRunning \<and> rn_status r \<noteq> RunRunning \<and> run_check r
        \<and> rn_mode r = rn_mode c \<and> rn_bootEpoch r = rn_bootEpoch c
        \<and> (\<forall>x\<in>set (rl_candidates ld). cn_recoveryRunId x = rn_recoveryRunId r \<longrightarrow> cn_actionStatus x \<notin> {ActPending, ActClaimed})
        \<and> ld' = ld\<lparr>rl_runs := put_row rn_recoveryRunId r (rl_runs ld)\<rparr>)"
proof -
  from assms obtain c where c: "getRecoveryRunRow ld (trim (ro_recoveryRunId inp)) = Some c"
    by (auto simp: completeRuntimeRecoveryRun_def Let_def)
  with assms row_of_key [OF c] show ?thesis
    unfolding completeRuntimeRecoveryRun_def Let_def
    by (auto simp: list_ex_iff split: if_splits)
qed

text \<open>The canonical key of a candidate.\<close>

definition canonical_key :: "recovery_candidate \<Rightarrow> bool" where
  "canonical_key c \<longleftrightarrow>
     (case cn_candidateType c of
        CandTurnAttempt \<Rightarrow> (\<exists>a. cn_attemptId c = Some a \<and> cn_candidateKey c = ''attempt:'' @ a)
      | CandPromptQueue \<Rightarrow> (\<exists>q. cn_queueItemId c = Some q \<and> cn_candidateKey c = ''queue:'' @ q)
      | CandLegacySessionTurn \<Rightarrow> True)"

lemma optionalText_trimmed: "optionalText v = Some s \<Longrightarrow> trim s = s"
  by (auto simp: optionalText_def Let_def split: option.splits if_splits)

lemma record_candidate_effect:
  assumes "recordRuntimeRecoveryCandidate sha256 sha now inp ld = Inr (c, ld')"
  shows "ld' = ld \<and> getRecoveryCandidateRow ld (cn_recoveryRunId c) (cn_candidateKey c) = Some c
    \<or> getRecoveryCandidateRow ld (cn_recoveryRunId c) (cn_candidateKey c) = None \<and> candidate_check c \<and> canonical_key c
      \<and> cn_claimId c = None
      \<and> (\<exists>r. getRecoveryRunRow ld (cn_recoveryRunId c) = Some r \<and> rn_status r = RunRunning
          \<and> cn_actionStatus c = (if rn_mode r = ModeApply \<and> cn_candidateType c \<noteq> CandLegacySessionTurn then ActPending else ActNotApplied))
      \<and> ld' = ld\<lparr>rl_candidates := rl_candidates ld @ [c]\<rparr>"
proof -
  from assms obtain r sn tn key ra where r: "getRecoveryRunRow ld (trim (ki_recoveryRunId inp)) = Some r" "rn_status r = RunRunning"
    and s: "candidate_source sha (ki_candidateType inp) (trim (ki_sessionKey inp)) (optionalText (ki_sessionName inp))
        (optionalText (ki_attemptId inp)) (optionalText (ki_turnId inp)) (optionalText (ki_queueItemId inp)) ld = Inr (sn, tn)"
    and k: "buildRuntimeRecoveryCandidateKey sha256 (ki_candidateType inp) (trim (ki_sessionKey inp))
        (optionalText (ki_attemptId inp)) tn (optionalText (ki_queueItemId inp)) = Inr key"
    unfolding recordRuntimeRecoveryCandidate_def Let_def by auto
  show ?thesis
  proof (cases "getRecoveryCandidateRow ld (trim (ki_recoveryRunId inp)) key")
    case (Some e)
    with assms r s k row_of_key [OF Some] show ?thesis
      unfolding recordRuntimeRecoveryCandidate_def Let_def by (auto simp: candidate_id_def)
  next
    case None
    have "canonical_key c \<and> cn_claimId c = None \<and> cn_recoveryRunId c = trim (ki_recoveryRunId inp) \<and> cn_candidateKey c = key
        \<and> cn_candidateType c = ki_candidateType inp \<and> candidate_check c
        \<and> cn_actionStatus c = (if rn_mode r = ModeApply \<and> ki_candidateType inp \<noteq> CandLegacySessionTurn then ActPending else ActNotApplied)
        \<and> ld' = ld\<lparr>rl_candidates := rl_candidates ld @ [c]\<rparr>"
      using assms r s k None unfolding recordRuntimeRecoveryCandidate_def Let_def
      by (auto simp: canonical_key_def candidate_source_def buildRuntimeRecoveryCandidateKey_def
          split: candidate_type.splits dest: optionalText_trimmed)
    with r None show ?thesis by auto
  qed
qed

text \<open>What an attempt says about its recovery, as one value.\<close>

definition attempt_recovery :: "attempt_row \<Rightarrow> recovery_marks" where
  "attempt_recovery a = \<lparr>rm_claimId = ta_recoveryClaimId a, rm_status = ta_recoveryStatus a, rm_reason = ta_recoveryReason a,
     rm_runId = ta_recoveryRunId a, rm_recoveredAt = ta_recoveredAt a\<rparr>"

text \<open>The source of a claim is written, in the table of its type.\<close>

lemma claim_source_Inr:
  "claim_source i c t ld = Inr ld' \<longleftrightarrow>
     (if cn_candidateType c = CandTurnAttempt
      then (\<exists>a. getTurnAttemptRow ld (the (cn_attemptId c)) = Some a \<and> attempt_check (claimed_attempt i c t a)
        \<and> ld' = ld\<lparr>ld_attempts := put_row ta_attemptId (claimed_attempt i c t a) (ld_attempts ld)\<rparr>)
      else (\<exists>q. getPromptQueueRow ld (the (cn_queueItemId c)) = Some q \<and> queue_check (claimed_item i c t q)
        \<and> ld' = ld\<lparr>pl_queue := put_row pq_queueItemId (claimed_item i c t q) (pl_queue ld)\<rparr>))"
  by (auto simp: claim_source_def)

lemma source_claimable_Inr:
  "source_claimable sha c ld = Inr () \<longleftrightarrow>
     (if cn_candidateType c = CandTurnAttempt
      then (\<exists>k a. cn_attemptId c = Some k \<and> getTurnAttemptRow ld k = Some a \<and> ta_status a = Running \<and> ta_recoveryClaimId a = None)
      else (\<exists>k q. cn_queueItemId c = Some k \<and> getPromptQueueRow ld k = Some q \<and> queue_row_valid sha q
        \<and> \<not> queue_terminal (pq_status q) \<and> pq_recoveryClaimId q = None))"
  by (auto simp: source_claimable_def split: option.splits)

definition claim_ready :: "('a) recovery_ledger_scheme \<Rightarrow> string \<Rightarrow> string \<Rightarrow> string \<Rightarrow> recovery_candidate \<Rightarrow> bool" where
  "claim_ready ld runId key bootEpoch c \<longleftrightarrow>
     (\<exists>r b. getRecoveryRunRow ld runId = Some r \<and> rn_mode r = ModeApply \<and> rn_status r = RunRunning
        \<and> rn_bootEpoch r = Some bootEpoch \<and> getBootEpochRow ld bootEpoch = Some b \<and> be_status b = BootActive)
     \<and> getRecoveryCandidateRow ld runId key = Some c \<and> cn_candidateType c \<noteq> CandLegacySessionTurn
     \<and> cn_recoveryRunId c = runId \<and> cn_candidateKey c = key"

lemma claim_candidate_checks_Inr:
  "claim_candidate_checks runId key bootEpoch t ld = Inr c \<Longrightarrow> claim_ready ld runId key bootEpoch c"
  by (auto simp: claim_candidate_checks_def claim_ready_def candidate_id_def dest: row_of_key)

lemma yield_claim_Inr:
  "yield_claim e c t ld = Inr ((acquired, cl), ld') \<longleftrightarrow> \<not> acquired \<and> cl = e \<and> same_logical_candidate e c
     \<and> (if cn_actionStatus c = ActPending
        then candidate_check (beaten_candidate e t c)
          \<and> ld' = ld\<lparr>rl_candidates := put_row candidate_id (beaten_candidate e t c) (rl_candidates ld)\<rparr>
        else ld' = ld)"
  by (auto simp: yield_claim_def split: prod.splits)

lemma take_claim_Inr:
  "take_claim sha l c ld = Inr ((acquired, cl), ld') \<longleftrightarrow> acquired \<and> cl = l \<and> cn_actionStatus c = ActPending \<and> cn_claimId c = None
     \<and> source_claimable sha c ld = Inr () \<and> claim_check l \<and> cl_claimId l \<notin> cl_claimId ` set (rl_claims ld)
     \<and> cl_candidateKey l \<notin> cl_candidateKey ` set (rl_claims ld) \<and> candidate_check (claimed_candidate l c)
     \<and> (\<exists>ld2. claim_source (cl_claimId l) c (cl_claimedAt l) (ld\<lparr>rl_claims := rl_claims ld @ [l]\<rparr>) = Inr ld2
          \<and> ld' = ld2\<lparr>rl_candidates := put_row candidate_id (claimed_candidate l c) (rl_candidates ld2)\<rparr>)"
  by (auto simp: take_claim_def split: prod.splits)

text \<open>An acquisition either yields to the claim that exists or takes a new one.\<close>

lemma acquire_effect:
  assumes "acquireRuntimeRecoveryClaim sha uuid now runId key bootEpoch i t ld = Inr ((acquired, cl), ld')"
  shows "\<exists>c t. claim_ready ld (trim runId) (trim key) (trim bootEpoch) c \<and>
    (if acquired
     then getRecoveryClaimByCandidateRow ld (trim key) = None
       \<and> (\<exists>i. take_claim sha (new_claim i (trim bootEpoch) c t) c ld = Inr ((True, cl), ld'))
     else (\<exists>e. getRecoveryClaimByCandidateRow ld (trim key) = Some e \<and> yield_claim e c t ld = Inr ((False, cl), ld')))"
proof -
  from assms obtain c t2 i2 where c: "claim_candidate_checks (trim runId) (trim key) (trim bootEpoch) t2 ld = Inr c"
    and r: "(case getRecoveryClaimByCandidateRow ld (trim key) of
       Some existing \<Rightarrow> yield_claim existing c t2 ld
     | None \<Rightarrow> take_claim sha (new_claim i2 (trim bootEpoch) c t2) c ld) = Inr ((acquired, cl), ld')"
    unfolding acquireRuntimeRecoveryClaim_def
    by (simp only: bindE_Inr requiredText_Inr assertTimestamp_Inr) (elim exE conjE, hypsubst, rule that)
  note ready = claim_candidate_checks_Inr [OF c]
  show ?thesis
  proof (cases "getRecoveryClaimByCandidateRow ld (trim key)")
    case None
    with r have k: "take_claim sha (new_claim i2 (trim bootEpoch) c t2) c ld = Inr ((acquired, cl), ld')" by simp
    then have "acquired" by (simp add: take_claim_Inr)
    with k None ready show ?thesis by auto
  next
    case (Some e)
    with r have k: "yield_claim e c t2 ld = Inr ((acquired, cl), ld')" by simp
    then have "\<not> acquired" by (simp add: yield_claim_Inr)
    with k Some ready show ?thesis by auto
  qed
qed

text \<open>What a completion requires and writes.\<close>

lemma complete_source_Inr:
  "complete_source sha l rs reason t ld = Inr ld' \<longleftrightarrow>
     (if cl_candidateType l = CandTurnAttempt
      then (\<exists>a. getTurnAttemptRow ld (the (cl_attemptId l)) = Some a \<and> attempt_check (recovered_attempt rs reason t a)
        \<and> ld' = ld\<lparr>ld_attempts := put_row ta_attemptId (recovered_attempt rs reason t a) (ld_attempts ld)\<rparr>)
      else (\<exists>q. getPromptQueueRow ld (the (cl_queueItemId l)) = Some q \<and> queue_check (recovered_item rs reason t q)
        \<and> queue_row_valid sha (recovered_item rs reason t q)
        \<and> ld' = ld\<lparr>pl_queue := put_row pq_queueItemId (recovered_item rs reason t q) (pl_queue ld)\<rparr>))"
  by (auto simp: complete_source_def)

lemma finish_claim_Inr:
  assumes "finish_claim sha applied t res l c ld = Inr ((l', c'), ld')"
  shows "cl_status l = ClaimClaimed \<and> cn_actionStatus c = ActClaimed \<and> cn_claimId c = Some (cl_claimId l)
    \<and> (\<exists>r. getRecoveryRunRow ld (cl_recoveryRunId l) = Some r \<and> rn_status r = RunRunning \<and> rn_mode r = ModeApply)
    \<and> l' = finished_claim applied t res l \<and> c' = finished_candidate applied t res c \<and> claim_check l' \<and> candidate_check c'
    \<and> cl_claimedAt l \<le> t \<and> cn_updatedAt c \<le> t
    \<and> complete_source sha l (if applied then decision_name (cn_decision c) else ''action_failed'') (cn_reasonCode c) t
        (ld\<lparr>rl_claims := put_row cl_claimId l' (rl_claims ld), rl_candidates := put_row candidate_id c' (rl_candidates ld)\<rparr>) = Inr ld'"
  using assms unfolding finish_claim_def Let_def by (auto split: prod.splits)

lemma complete_claim_effect:
  assumes "completeRuntimeRecoveryClaim sha now inp ld = Inr ((l', c'), ld')"
  shows "\<exists>l c. getRecoveryClaimByIdRow ld (trim (lo_claimId inp)) = Some l
    \<and> getRecoveryCandidateRow ld (cl_recoveryRunId l) (cl_candidateKey l) = Some c
    \<and> (ld' = ld \<and> l' = l \<and> c' = c \<and> cl_status l = (if lo_applied inp then ClaimApplied else ClaimFailed)
       \<or> (\<exists>t res. finish_claim sha (lo_applied inp) t res l c ld = Inr ((l', c'), ld')))"
  using assms unfolding completeRuntimeRecoveryClaim_def
  by (auto simp: retry_claim_def split: if_splits)

end
