(* ===== verification/RecoveryHistory.thy ===== *)
theory RecoveryHistory
  imports RecoveryLedger
begin

text \<open>
  The crash-recovery ledger with its prompt queue and its recovery tables over time: every operation
  of \<open>CrashLedger\<close>, \<open>PromptLedger\<close> and \<open>RecoveryLedger\<close> as a step of one machine, and its invariant
  \<open>recovery_ok\<close>: the invariants of the ledger and of the queue, and that a claim, its run, its candidate
  and its source always agree. An attempt and a queued prompt are the two kinds of source; \<open>source_mark\<close>
  reads what a source says of its recovery, so that both kinds share the proofs.
\<close>

section \<open>The ledger with its queue and its recovery tables\<close>

inductive recovery_step ::
  "(string \<Rightarrow> string) \<Rightarrow> (json \<Rightarrow> string) \<Rightarrow> ('a) recovery_ledger_scheme \<Rightarrow> ('a) recovery_ledger_scheme \<Rightarrow> bool"
  for sha256 sha where
  rs_ledger: "ledger_step ld ld' \<Longrightarrow> recovery_step sha256 sha ld ld'"
| rs_enqueue: "enqueueRuntimePrompt sha uuid now ei ld = Inr (r, ld') \<Longrightarrow> recovery_step sha256 sha ld ld'"
| rs_transition: "compareAndSetRuntimePromptQueueStatus sha now qc ld = Inr (r, ld') \<Longrightarrow> recovery_step sha256 sha ld ld'"
| rs_create_run: "createRuntimeRecoveryRun uuid now i mode b t md ld = Inr (run, ld') \<Longrightarrow> recovery_step sha256 sha ld ld'"
| rs_complete_run: "completeRuntimeRecoveryRun now ro ld = Inr (run, ld') \<Longrightarrow> recovery_step sha256 sha ld ld'"
| rs_record: "recordRuntimeRecoveryCandidate sha256 sha now ki ld = Inr (c, ld') \<Longrightarrow> recovery_step sha256 sha ld ld'"
| rs_acquire: "acquireRuntimeRecoveryClaim sha uuid now runId key b i t ld = Inr (r, ld') \<Longrightarrow> recovery_step sha256 sha ld ld'"
| rs_complete_claim: "completeRuntimeRecoveryClaim sha now lo ld = Inr (p, ld') \<Longrightarrow> recovery_step sha256 sha ld ld'"

abbreviation recovery_run_steps ::
  "(string \<Rightarrow> string) \<Rightarrow> (json \<Rightarrow> string) \<Rightarrow> ('a) recovery_ledger_scheme \<Rightarrow> ('a) recovery_ledger_scheme \<Rightarrow> bool" where
  "recovery_run_steps sha256 sha \<equiv> (recovery_step sha256 sha)\<^sup>*\<^sup>*"

section \<open>What a step does to an attempt\<close>

text \<open>The owner of an attempt never writes what recovery says of it, and writes nothing once it is claimed.\<close>

definition owner_kept :: "attempt_row \<Rightarrow> attempt_row \<Rightarrow> bool" where
  "owner_kept a a' \<longleftrightarrow> attempt_recovery a' = attempt_recovery a \<and> (ta_recoveryClaimId a = None \<or> a' = a)"

lemma heartbeat_kept:
  assumes "heartbeatRuntimeTurnAttempt now k e hb lease ld = Inr (a, ld')"
  shows "\<exists>c. getTurnAttemptRow ld (trim k) = Some c \<and> owner_kept c a \<and> ta_attemptId a = ta_attemptId c
    \<and> (ld' = ld \<and> a = c \<or> ld' = ld\<lparr>ld_attempts := put_row ta_attemptId a (ld_attempts ld)\<rparr>)"
  using assms by (auto simp: heartbeatRuntimeTurnAttempt_def owner_kept_def attempt_recovery_def split: if_splits)

lemma safety_kept:
  assumes "markRuntimeTurnAttemptSafety now inp ld = Inr (a, ld')"
  shows "\<exists>c. getTurnAttemptRow ld (trim (si_attemptId inp)) = Some c \<and> owner_kept c a \<and> ta_attemptId a = ta_attemptId c
    \<and> (ld' = ld \<and> a = c \<or> ld' = ld\<lparr>ld_attempts := put_row ta_attemptId a (ld_attempts ld)\<rparr>)"
  using assms by (auto simp: markRuntimeTurnAttemptSafety_def owner_kept_def attempt_recovery_def)

lemma terminalize_kept:
  assumes "terminalizeRuntimeTurnAttempt now inp ld = Inr (a, ld')"
  shows "\<exists>c. getTurnAttemptRow ld (trim (ti_attemptId inp)) = Some c \<and> owner_kept c a \<and> ta_attemptId a = ta_attemptId c
    \<and> (ld' = ld \<and> a = c \<or> ld' = ld\<lparr>ld_attempts := put_row ta_attemptId a (ld_attempts ld)\<rparr>)"
proof -
  from assms obtain c where c: "getTurnAttemptRow ld (trim (ti_attemptId inp)) = Some c"
    by (simp add: terminalizeRuntimeTurnAttempt_def Let_def) blast
  show ?thesis
  proof (cases "ta_status c = Ended (ti_status inp)")
    case True
    with assms c have "a = c \<and> ld' = ld" by (simp add: terminalizeRuntimeTurnAttempt_def Let_def)
    with c show ?thesis by (simp add: owner_kept_def)
  next
    case False
    with assms c obtain md where "ta_recoveryClaimId c = None"
      "update_attempt (c\<lparr>ta_status := Ended (ti_status inp), ta_completedAt := Some (nullish (ti_completedAt inp) now),
            ta_metadata := md, ta_updatedAt := nullish (ti_completedAt inp) now\<rparr>) ld = Inr (a, ld')"
      by (simp del: update_attempt_Inr add: terminalizeRuntimeTurnAttempt_def Let_def) force
    with c show ?thesis by (auto simp: owner_kept_def attempt_recovery_def)
  qed
qed

lemma create_kept:
  assumes "createRuntimeTurnAttempt uuid now inp ld = Inr (a, ld')"
  shows "ld' = ld \<or> attempt_recovery a = unclaimed \<and> getTurnAttemptRow ld (ta_attemptId a) = None
    \<and> ld' = ld\<lparr>ld_attempts := ld_attempts ld @ [a]\<rparr>"
  using assms unfolding createRuntimeTurnAttempt_def Let_def
  by (auto simp: attempt_recovery_def unclaimed_def split: option.splits)

text \<open>One step of the owners: boots and attempts move forwards and nothing else changes.\<close>

definition owners_moved :: "('a) ledger_scheme \<Rightarrow> ('a) ledger_scheme \<Rightarrow> bool" where
  "owners_moved ld ld' \<longleftrightarrow> ld' = ld\<lparr>ld_boots := ld_boots ld', ld_attempts := ld_attempts ld'\<rparr>
     \<and> (\<forall>k a. getTurnAttemptRow ld k = Some a \<longrightarrow> (\<exists>a'. getTurnAttemptRow ld' k = Some a' \<and> attempt_le a a' \<and> owner_kept a a'))
     \<and> (\<forall>k a. getTurnAttemptRow ld k = None \<longrightarrow> getTurnAttemptRow ld' k = Some a
          \<longrightarrow> attempt_recovery a = unclaimed)
     \<and> (\<forall>k b. getBootEpochRow ld k = Some b \<longrightarrow> (\<exists>b'. getBootEpochRow ld' k = Some b' \<and> boot_le b b'))"

lemma owner_kept_refl [simp]: "owner_kept a a"
  by (simp add: owner_kept_def)

lemma put_attempt_owners:
  assumes "getTurnAttemptRow ld k = Some c" "ta_attemptId a = ta_attemptId c" "owner_kept c a"
  shows "getTurnAttemptRow ld k' = Some x \<Longrightarrow>
      \<exists>x'. row_of ta_attemptId k' (put_row ta_attemptId a (ld_attempts ld)) = Some x' \<and> owner_kept x x'"
    and "getTurnAttemptRow ld k' = None \<Longrightarrow> row_of ta_attemptId k' (put_row ta_attemptId a (ld_attempts ld)) = None"
  using assms row_of_key [OF assms(1)] by (auto simp: row_of_put split: option.splits)


lemma boot_effect_owners: "boot_effect b ld ld' \<Longrightarrow> owners_moved ld ld'"
  using boot_effect_attempts [of b ld ld'] boot_effect_grows [of b ld ld']
  by (simp add: owners_moved_def) (auto simp: boot_effect_def)

lemma attempt_effect_owners:
  assumes "attempt_effect a ld ld'"
    and "\<And>k x. getTurnAttemptRow ld k = Some x \<Longrightarrow> \<exists>x'. getTurnAttemptRow ld' k = Some x' \<and> owner_kept x x'"
    and "\<And>k x. getTurnAttemptRow ld k = None \<Longrightarrow> getTurnAttemptRow ld' k = Some x \<Longrightarrow> attempt_recovery x = unclaimed"
  shows "owners_moved ld ld'"
proof -
  have "ld' = ld\<lparr>ld_boots := ld_boots ld', ld_attempts := ld_attempts ld'\<rparr>"
    using assms(1) attempt_effect_boots [OF assms(1)] unfolding attempt_effect_def by simp
  moreover have "\<exists>x'. getTurnAttemptRow ld' k = Some x' \<and> attempt_le x x' \<and> owner_kept x x'" if "getTurnAttemptRow ld k = Some x" for k x
    using attempt_effect_grows [OF assms(1) that] assms(2) [OF that] by auto
  ultimately show ?thesis using assms(3) attempt_effect_boots [OF assms(1)] unfolding owners_moved_def by auto
qed

lemma put_attempt_moved:
  assumes "attempt_effect a ld ld'"
    and "\<exists>c. getTurnAttemptRow ld k = Some c \<and> owner_kept c a \<and> ta_attemptId a = ta_attemptId c
      \<and> (ld' = ld \<and> a = c \<or> ld' = ld\<lparr>ld_attempts := put_row ta_attemptId a (ld_attempts ld)\<rparr>)"
  shows "owners_moved ld ld'"
  using assms(2) put_attempt_owners [of k ld _ a] by (intro attempt_effect_owners [OF assms(1)]) auto

lemma create_attempt_moved:
  assumes "createRuntimeTurnAttempt uuid now inp ld = Inr (a, ld')" shows "owners_moved ld ld'"
  using create_kept [OF assms]
  by (intro attempt_effect_owners [OF create_attempt_effect [OF assms]]) (auto simp: row_of_append split: option.splits if_splits)

lemma ledger_step_owners: "ledger_step ld ld' \<Longrightarrow> owners_moved ld ld'"
proof (induction rule: ledger_step.induct)
  case step_heartbeat_attempt
  from put_attempt_moved [OF heartbeat_attempt_effect [OF step_heartbeat_attempt] heartbeat_kept [OF step_heartbeat_attempt]] show ?case .
next
  case step_mark_safety
  from put_attempt_moved [OF safety_attempt_effect [OF step_mark_safety] safety_kept [OF step_mark_safety]] show ?case .
next
  case step_terminalize
  from put_attempt_moved [OF terminalize_attempt_effect [OF step_terminalize] terminalize_kept [OF step_terminalize]] show ?case .
qed (auto simp: markRuntimeBootEpochGracefulStopped_def markRuntimeBootEpochAbandoned_def
      intro: boot_effect_owners create_attempt_moved dest: boot_effects)

section \<open>The invariant\<close>

text \<open>The source of a claim, an attempt or a prompt; what it says about its recovery; and whether it is still open.\<close>

definition claim_src :: "recovery_claim \<Rightarrow> (string + string) option" where
  "claim_src l = (if cl_candidateType l = CandTurnAttempt then map_option Inl (cl_attemptId l) else map_option Inr (cl_queueItemId l))"

definition source_mark :: "('a) prompt_ledger_scheme \<Rightarrow> string + string \<Rightarrow> recovery_marks option" where
  "source_mark ld s =
     (case s of Inl k \<Rightarrow> map_option attempt_recovery (getTurnAttemptRow ld k) | Inr k \<Rightarrow> map_option queue_recovery (getPromptQueueRow ld k))"

definition source_live :: "('a) prompt_ledger_scheme \<Rightarrow> string + string \<Rightarrow> bool" where
  "source_live ld s =
     (case s of
        Inl k \<Rightarrow> (case getTurnAttemptRow ld k of None \<Rightarrow> False | Some a \<Rightarrow> ta_status a = Running)
      | Inr k \<Rightarrow> (case getPromptQueueRow ld k of None \<Rightarrow> False | Some q \<Rightarrow> \<not> queue_terminal (pq_status q)))"

text \<open>What the source says while a claim is on it, as a function of the claim and of its candidate.\<close>

definition claim_marks :: "recovery_claim \<Rightarrow> recovery_candidate \<Rightarrow> recovery_marks" where
  "claim_marks l c =
     \<lparr>rm_claimId = Some (cl_claimId l),
      rm_status = Some (case cl_status l of ClaimClaimed \<Rightarrow> ''claimed'' | ClaimApplied \<Rightarrow> decision_name (cn_decision c)
                          | ClaimFailed \<Rightarrow> ''action_failed''),
      rm_reason = Some (cn_reasonCode c), rm_runId = Some (cl_recoveryRunId l), rm_recoveredAt = cl_completedAt l\<rparr>"

definition claim_action :: "claim_status \<Rightarrow> action_status" where
  "claim_action s = (case s of ClaimClaimed \<Rightarrow> ActClaimed | ClaimApplied \<Rightarrow> ActApplied | ClaimFailed \<Rightarrow> ActFailed)"

text \<open>A claim, its run, its candidate and its source agree.\<close>

definition claim_held :: "('a) recovery_ledger_scheme \<Rightarrow> recovery_claim \<Rightarrow> recovery_candidate \<Rightarrow> bool" where
  "claim_held ld l c \<longleftrightarrow> (\<exists>s. claim_src l = Some s \<and> source_mark ld s = Some (claim_marks l c) \<and> source_live ld s)"

definition claim_ok :: "('a) recovery_ledger_scheme \<Rightarrow> recovery_claim \<Rightarrow> bool" where
  "claim_ok ld l \<longleftrightarrow> claim_check l
     \<and> (\<exists>r. getRecoveryRunRow ld (cl_recoveryRunId l) = Some r \<and> rn_mode r = ModeApply \<and> rn_bootEpoch r = Some (cl_claimedByBootEpoch l))
     \<and> (\<exists>c. getRecoveryCandidateRow ld (cl_recoveryRunId l) (cl_candidateKey l) = Some c \<and> same_logical_candidate l c
          \<and> cn_actionStatus c = claim_action (cl_status l) \<and> cn_claimId c = Some (cl_claimId l)
          \<and> cn_actionCompletedAt c = cl_completedAt l \<and> (cl_status l \<noteq> ClaimClaimed \<longrightarrow> cn_result c = cl_result l) \<and> claim_held ld l c)"

text \<open>What never changes about a claim.\<close>

definition claim_base where
  "claim_base l = ((cl_candidateKey l, cl_claimId l, cl_candidateType l), (cl_sessionKey l, cl_attemptId l, cl_queueItemId l),
     (cl_recoveryRunId l, cl_claimedByBootEpoch l, cl_claimedAt l))"

definition candidate_ok :: "('a) recovery_ledger_scheme \<Rightarrow> recovery_candidate \<Rightarrow> bool" where
  "candidate_ok ld c \<longleftrightarrow> candidate_check c \<and> canonical_key c
     \<and> (\<exists>r. getRecoveryRunRow ld (cn_recoveryRunId c) = Some r
          \<and> (rn_status r \<noteq> RunRunning \<longrightarrow> cn_actionStatus c \<notin> {ActPending, ActClaimed})
          \<and> (rn_mode r \<noteq> ModeApply \<or> cn_candidateType c = CandLegacySessionTurn \<longrightarrow> cn_actionStatus c = ActNotApplied \<and> cn_claimId c = None))
     \<and> (\<forall>i. cn_claimId c = Some i \<longrightarrow> (\<exists>l. getRecoveryClaimByIdRow ld i = Some l \<and> cl_candidateKey l = cn_candidateKey c
          \<and> same_logical_candidate l c
          \<and> (cn_actionStatus c \<noteq> ActNotApplied \<longrightarrow> cl_recoveryRunId l = cn_recoveryRunId c)))"

definition sources_ok :: "('a) recovery_ledger_scheme \<Rightarrow> bool" where
  "sources_ok ld \<longleftrightarrow> (\<forall>s m. source_mark ld s = Some m \<longrightarrow>
     (case rm_claimId m of
        None \<Rightarrow> m = unclaimed
      | Some i \<Rightarrow> \<exists>l. getRecoveryClaimByIdRow ld i = Some l \<and> claim_src l = Some s))"

lemma unclaimed_mark: "sources_ok ld \<Longrightarrow> source_mark ld s = Some m \<Longrightarrow> rm_claimId m = None \<Longrightarrow> m = unclaimed"
  unfolding sources_ok_def by fastforce

definition recovery_tables_ok :: "('a) recovery_ledger_scheme \<Rightarrow> bool" where
  "recovery_tables_ok ld \<longleftrightarrow> distinct (map rn_recoveryRunId (rl_runs ld)) \<and> distinct (map candidate_id (rl_candidates ld))
     \<and> distinct (map cl_claimId (rl_claims ld)) \<and> distinct (map cl_candidateKey (rl_claims ld))
     \<and> (\<forall>r\<in>set (rl_runs ld). run_check r) \<and> (\<forall>c\<in>set (rl_candidates ld). candidate_ok ld c)
     \<and> (\<forall>l\<in>set (rl_claims ld). claim_ok ld l) \<and> sources_ok ld"

definition recovery_ok :: "(json \<Rightarrow> string) \<Rightarrow> ('a) recovery_ledger_scheme \<Rightarrow> bool" where
  "recovery_ok sha ld \<longleftrightarrow> ledger_ok ld \<and> prompt_ledger_ok sha ld \<and> recovery_tables_ok ld"

lemma source_simps [simp]:
  "source_mark (ld\<lparr>rl_runs := runs\<rparr>) = source_mark ld" "source_live (ld\<lparr>rl_runs := runs\<rparr>) = source_live ld"
  "source_mark (ld\<lparr>rl_candidates := cs\<rparr>) = source_mark ld" "source_live (ld\<lparr>rl_candidates := cs\<rparr>) = source_live ld"
  "source_mark (ld\<lparr>rl_claims := ls\<rparr>) = source_mark ld" "source_live (ld\<lparr>rl_claims := ls\<rparr>) = source_live ld"
  by (simp_all add: source_mark_def source_live_def fun_eq_iff split: sum.split)

section \<open>Frames\<close>

lemma claim_ok_frame:
  assumes "claim_ok ld l"
    "\<And>k r. getRecoveryRunRow ld k = Some r \<Longrightarrow> \<exists>r'. getRecoveryRunRow ld' k = Some r' \<and> rn_mode r' = rn_mode r \<and> rn_bootEpoch r' = rn_bootEpoch r"
    "\<And>c. getRecoveryCandidateRow ld (cl_recoveryRunId l) (cl_candidateKey l) = Some c \<Longrightarrow> cn_claimId c = Some (cl_claimId l)
       \<Longrightarrow> getRecoveryCandidateRow ld' (cl_recoveryRunId l) (cl_candidateKey l) = Some c"
    "\<And>c. claim_held ld l c \<Longrightarrow> claim_held ld' l c"
  shows "claim_ok ld' l"
  using assms(1) assms(2) [of "cl_recoveryRunId l"] assms(3,4) unfolding claim_ok_def by fastforce

lemma candidate_ok_frame:
  assumes "candidate_ok ld c"
    "\<And>r. getRecoveryRunRow ld (cn_recoveryRunId c) = Some r \<Longrightarrow> \<exists>r'. getRecoveryRunRow ld' (cn_recoveryRunId c) = Some r' \<and> rn_mode r' = rn_mode r
       \<and> (rn_status r' \<noteq> RunRunning \<longrightarrow> rn_status r \<noteq> RunRunning \<or> cn_actionStatus c \<notin> {ActPending, ActClaimed})"
    "\<And>i l. getRecoveryClaimByIdRow ld i = Some l \<Longrightarrow> \<exists>l'. getRecoveryClaimByIdRow ld' i = Some l' \<and> claim_base l' = claim_base l"
  shows "candidate_ok ld' c"
proof -
  have "\<exists>l'. getRecoveryClaimByIdRow ld' i = Some l' \<and> cl_candidateKey l' = cn_candidateKey c \<and> same_logical_candidate l' c
      \<and> (cn_actionStatus c \<noteq> ActNotApplied \<longrightarrow> cl_recoveryRunId l' = cn_recoveryRunId c)" if i: "cn_claimId c = Some i" for i
  proof -
    from assms(1) i obtain l where l: "getRecoveryClaimByIdRow ld i = Some l" "cl_candidateKey l = cn_candidateKey c"
      "same_logical_candidate l c" "cn_actionStatus c \<noteq> ActNotApplied \<longrightarrow> cl_recoveryRunId l = cn_recoveryRunId c"
      unfolding candidate_ok_def by blast
    from assms(3) [OF l(1)] l show ?thesis by (auto simp: claim_base_def same_logical_candidate_def)
  qed
  moreover from assms(1) obtain r where "getRecoveryRunRow ld (cn_recoveryRunId c) = Some r"
      "rn_status r \<noteq> RunRunning \<longrightarrow> cn_actionStatus c \<notin> {ActPending, ActClaimed}"
      "rn_mode r \<noteq> ModeApply \<or> cn_candidateType c = CandLegacySessionTurn \<longrightarrow> cn_actionStatus c = ActNotApplied \<and> cn_claimId c = None"
    unfolding candidate_ok_def by blast
  with assms(2) have "\<exists>r'. getRecoveryRunRow ld' (cn_recoveryRunId c) = Some r'
      \<and> (rn_status r' \<noteq> RunRunning \<longrightarrow> cn_actionStatus c \<notin> {ActPending, ActClaimed})
      \<and> (rn_mode r' \<noteq> ModeApply \<or> cn_candidateType c = CandLegacySessionTurn \<longrightarrow> cn_actionStatus c = ActNotApplied \<and> cn_claimId c = None)"
    by fastforce
  ultimately show ?thesis using assms(1) unfolding candidate_ok_def by blast
qed

text \<open>A change of the sources alone: the marks of claimed sources stay, new sources are unclaimed.\<close>

definition sources_moved :: "('a) recovery_ledger_scheme \<Rightarrow> ('a) recovery_ledger_scheme \<Rightarrow> bool" where
  "sources_moved ld ld' \<longleftrightarrow> rl_runs ld' = rl_runs ld \<and> rl_candidates ld' = rl_candidates ld \<and> rl_claims ld' = rl_claims ld
     \<and> (\<forall>s m. source_mark ld s = Some m \<longrightarrow> source_mark ld' s = Some m \<and> (rm_claimId m \<noteq> None \<longrightarrow> source_live ld s \<longrightarrow> source_live ld' s))
     \<and> (\<forall>s m. source_mark ld s = None \<longrightarrow> source_mark ld' s = Some m \<longrightarrow> m = unclaimed)"

lemma sources_moved_ok:
  assumes "sources_moved ld ld'" "recovery_tables_ok ld" shows "recovery_tables_ok ld'"
proof -
  have same: "rl_runs ld' = rl_runs ld" "rl_candidates ld' = rl_candidates ld" "rl_claims ld' = rl_claims ld"
    using assms(1) by (simp_all add: sources_moved_def)
  have held: "claim_held ld' l c" if "claim_held ld l c" for l c
    using that assms(1) by (auto simp: claim_held_def sources_moved_def claim_marks_def)
  have "claim_ok ld' l" if "claim_ok ld l" for l
    by (rule claim_ok_frame [OF that]) (simp_all add: same held)
  moreover have "candidate_ok ld' c \<longleftrightarrow> candidate_ok ld c" for c by (simp add: candidate_ok_def same)
  moreover have "sources_ok ld'"
    unfolding sources_ok_def
  proof (intro allI impI)
    fix s m assume m: "source_mark ld' s = Some m"
    show "case rm_claimId m of None \<Rightarrow> m = unclaimed | Some i \<Rightarrow> \<exists>l. getRecoveryClaimByIdRow ld' i = Some l \<and> claim_src l = Some s"
    proof (cases "source_mark ld s")
      case None
      with m assms(1) have "m = unclaimed" unfolding sources_moved_def by blast
      then show ?thesis by (simp add: unclaimed_def)
    next
      case (Some m')
      with m assms have "source_mark ld s = Some m" "sources_ok ld" by (auto simp: sources_moved_def recovery_tables_ok_def)
      then show ?thesis by (simp add: sources_ok_def same cong: option.case_cong)
    qed
  qed
  ultimately show ?thesis using assms(2) by (simp add: recovery_tables_ok_def same)
qed

section \<open>Every step keeps the invariant\<close>

lemma owners_moved_sources:
  assumes "owners_moved ld ld'" shows "sources_moved ld ld'"
proof -
  have e: "ld' = ld\<lparr>ld_boots := ld_boots ld', ld_attempts := ld_attempts ld'\<rparr>" using assms by (simp add: owners_moved_def)
  have same: "rl_runs ld' = rl_runs ld" "rl_candidates ld' = rl_candidates ld" "rl_claims ld' = rl_claims ld" "pl_queue ld' = pl_queue ld"
    by (subst e, simp)+
  have "source_mark ld' s = Some m \<and> (rm_claimId m \<noteq> None \<longrightarrow> source_live ld s \<longrightarrow> source_live ld' s)" if "source_mark ld s = Some m" for s m
  proof (cases s)
    case (Inl k)
    with that obtain a where a: "getTurnAttemptRow ld k = Some a" "m = attempt_recovery a" by (auto simp: source_mark_def)
    with assms obtain a' where "getTurnAttemptRow ld' k = Some a'" "owner_kept a a'" unfolding owners_moved_def by blast
    with a Inl show ?thesis by (auto simp: source_mark_def source_live_def owner_kept_def attempt_recovery_def)
  next
    case (Inr k)
    with that show ?thesis by (auto simp: source_mark_def source_live_def same)
  qed
  moreover have "m = unclaimed" if "source_mark ld s = None" "source_mark ld' s = Some m" for s m
    using that assms by (cases s) (auto simp: source_mark_def unclaimed_def owners_moved_def same)
  ultimately show ?thesis by (simp add: sources_moved_def same)
qed

lemma enqueue_sources:
  assumes "enqueueRuntimePrompt sha uuid now inp ld = Inr ((created, q), ld')" shows "sources_moved ld ld'"
proof (cases created)
  case False
  with enqueue_effect [OF assms] have "ld' = ld" by auto
  then show ?thesis by (simp add: sources_moved_def)
next
  case True
  with enqueue_effect [OF assms] have q: "enqueue_row sha uuid now inp ld = Inr q" "pq_queueItemId q \<notin> pq_queueItemId ` set (pl_queue ld)"
      "ld' = ld\<lparr>pl_queue := pl_queue ld @ [q], pl_nextSequence := pl_nextSequence ld + 1\<rparr>" by auto
  with enqueue_row_Inr [OF q(1)] show ?thesis
    by (auto simp: sources_moved_def source_mark_def source_live_def row_of_append unclaimed_def split: sum.splits option.splits if_splits)
qed

lemma cas_sources:
  assumes "compareAndSetRuntimePromptQueueStatus sha now inp ld = Inr ((applied, q), ld')" shows "sources_moved ld ld'"
proof (cases applied)
  case False
  with cas_effect [OF assms] show ?thesis by (simp add: sources_moved_def)
next
  case True
  with cas_effect [OF assms] obtain c where c: "getPromptQueueRow ld (trim (qc_queueItemId inp)) = Some c" "queue_moved ld c q"
    and ld': "ld' = ld\<lparr>pl_queue := put_row pq_queueItemId q (pl_queue ld)\<rparr>" by auto
  from c have k: "pq_queueItemId q = pq_queueItemId c" "queue_recovery q = queue_recovery c" "pq_recoveryClaimId c = None"
    by (simp_all add: queue_moved_def queue_identity_def)
  have "getPromptQueueRow ld (pq_queueItemId c) = Some c" using row_of_self [OF c(1)] .
  with k ld' show ?thesis
    by (auto simp: sources_moved_def source_mark_def source_live_def row_of_put queue_recovery_def split: sum.splits option.splits if_splits)
qed

lemma create_run_tables:
  assumes "createRuntimeRecoveryRun uuid now i mode b t md ld = Inr (r, ld')" "recovery_tables_ok ld"
  shows "recovery_tables_ok ld'"
proof (cases "ld' = ld")
  case False
  with create_run_effect [OF assms(1)] have r: "getRecoveryRunRow ld (rn_recoveryRunId r) = None" "run_check r"
    and ld': "ld' = ld\<lparr>rl_runs := rl_runs ld @ [r]\<rparr>" by auto
  have row: "getRecoveryRunRow ld' k = Some x" if "getRecoveryRunRow ld k = Some x" for k x
    using that by (simp add: ld' row_of_append)
  have "claim_ok ld' l" if "claim_ok ld l" for l
    by (rule claim_ok_frame [OF that]) (use row in \<open>auto simp: ld' claim_held_def\<close>)
  moreover have "candidate_ok ld' c" if "candidate_ok ld c" for c
    by (rule candidate_ok_frame [OF that]) (use row in \<open>auto simp: ld'\<close>)
  moreover have "sources_ok ld' \<longleftrightarrow> sources_ok ld" by (simp add: sources_ok_def ld' cong: option.case_cong)
  ultimately show ?thesis using assms(2) r by (simp add: recovery_tables_ok_def ld' row_of_None)
qed (use assms in simp)

lemma complete_run_tables:
  assumes "completeRuntimeRecoveryRun now inp ld = Inr (r, ld')" "recovery_tables_ok ld"
  shows "recovery_tables_ok ld'"
proof (cases "ld' = ld")
  case False
  with complete_run_effect [OF assms(1)] obtain x where x: "getRecoveryRunRow ld (rn_recoveryRunId r) = Some x"
      "run_check r" "rn_mode r = rn_mode x" "rn_bootEpoch r = rn_bootEpoch x"
      "\<forall>c\<in>set (rl_candidates ld). cn_recoveryRunId c = rn_recoveryRunId r \<longrightarrow> cn_actionStatus c \<notin> {ActPending, ActClaimed}"
    and ld': "ld' = ld\<lparr>rl_runs := put_row rn_recoveryRunId r (rl_runs ld)\<rparr>" by blast
  have row: "\<exists>z. getRecoveryRunRow ld' k = Some z \<and> rn_mode z = rn_mode y \<and> rn_bootEpoch z = rn_bootEpoch y
      \<and> (z = y \<or> k = rn_recoveryRunId r)" if "getRecoveryRunRow ld k = Some y" for k y
    using that x by (auto simp: ld' row_of_put split: option.splits)
  have "claim_ok ld' l" if "claim_ok ld l" for l
    by (rule claim_ok_frame [OF that]) (use row in \<open>force simp: ld' claim_held_def\<close>)+
  moreover have "candidate_ok ld' c" if "candidate_ok ld c" "c \<in> set (rl_candidates ld)" for c
    by (rule candidate_ok_frame [OF that(1)]) (use row x(5) that(2) in \<open>force simp: ld'\<close>)+
  moreover have "sources_ok ld' \<longleftrightarrow> sources_ok ld" by (simp add: sources_ok_def ld' cong: option.case_cong)
  ultimately show ?thesis using assms(2) x(2) by (auto simp: recovery_tables_ok_def ld' dest: put_row_in)
qed (use assms in simp)

lemma record_candidate_tables:
  assumes "recordRuntimeRecoveryCandidate sha256 sha now inp ld = Inr (c, ld')" "recovery_tables_ok ld"
  shows "recovery_tables_ok ld'"
proof (cases "ld' = ld")
  case False
  with record_candidate_effect [OF assms(1)] obtain r where c: "getRecoveryCandidateRow ld (cn_recoveryRunId c) (cn_candidateKey c) = None"
      "candidate_check c" "canonical_key c" "cn_claimId c = None" "getRecoveryRunRow ld (cn_recoveryRunId c) = Some r" "rn_status r = RunRunning"
      "cn_actionStatus c = (if rn_mode r = ModeApply \<and> cn_candidateType c \<noteq> CandLegacySessionTurn then ActPending else ActNotApplied)"
    and ld': "ld' = ld\<lparr>rl_candidates := rl_candidates ld @ [c]\<rparr>" by blast
  have "claim_ok ld' l" if "claim_ok ld l" for l
    by (rule claim_ok_frame [OF that]) (auto simp: ld' claim_held_def row_of_append)
  moreover have old: "candidate_ok ld' x \<longleftrightarrow> candidate_ok ld x" for x by (simp add: candidate_ok_def ld')
  moreover have "candidate_ok ld c" using c by (auto simp: candidate_ok_def)
  moreover have "sources_ok ld' \<longleftrightarrow> sources_ok ld" by (simp add: sources_ok_def ld' cong: option.case_cong)
  ultimately show ?thesis using assms(2) c(1)
    by (auto simp: recovery_tables_ok_def ld' row_of_None candidate_id_def)
qed (use assms in simp)

text \<open>Rewriting one candidate that no claim is on keeps the claims.\<close>

lemma put_candidate_claims:
  assumes "claim_ok ld l" "getRecoveryCandidateRow ld (cn_recoveryRunId c) (cn_candidateKey c) = Some x" "candidate_id c = candidate_id x"
    "cn_claimId x \<noteq> Some (cl_claimId l)" "rl_runs ld' = rl_runs ld"
    "rl_candidates ld' = put_row candidate_id c (rl_candidates ld)" "\<And>c. claim_held ld l c \<Longrightarrow> claim_held ld' l c"
  shows "claim_ok ld' l"
  by (rule claim_ok_frame [OF assms(1)])
    (use assms(2-) in \<open>auto simp: row_of_put candidate_id_def split: option.splits\<close>)

lemma yield_tables:
  assumes "yield_claim e c t ld = Inr ((acquired, cl), ld')" "getRecoveryClaimByCandidateRow ld (cn_candidateKey c) = Some e"
    "getRecoveryCandidateRow ld (cn_recoveryRunId c) (cn_candidateKey c) = Some c"
    "getRecoveryRunRow ld (cn_recoveryRunId c) = Some r" "rn_mode r = ModeApply" "cn_candidateType c \<noteq> CandLegacySessionTurn"
    "recovery_tables_ok ld"
  shows "recovery_tables_ok ld'"
proof (cases "cn_actionStatus c = ActPending")
  case False
  with assms(1,7) show ?thesis by (simp add: yield_claim_Inr)
next
  case True
  let ?b = "beaten_candidate e t c"
  from assms(1) True have b: "candidate_check ?b" "same_logical_candidate e c"
    and ld': "ld' = ld\<lparr>rl_candidates := put_row candidate_id ?b (rl_candidates ld)\<rparr>" by (auto simp: yield_claim_Inr)
  have c: "c \<in> set (rl_candidates ld)" using assms(3) row_of_key by fast
  then have ok: "candidate_ok ld c" using assms(7) by (simp add: recovery_tables_ok_def)
  then have none: "cn_claimId c = None" using True by (simp add: candidate_ok_def candidate_check_def)
  have id: "candidate_id ?b = candidate_id c" "cn_recoveryRunId ?b = cn_recoveryRunId c" "cn_candidateKey ?b = cn_candidateKey c"
    by (simp_all add: beaten_candidate_def candidate_id_def)
  have "claim_ok ld' l" if "claim_ok ld l" for l
    by (rule put_candidate_claims [OF that, of ?b c]) (use id none assms(3) in \<open>auto simp: ld' claim_held_def\<close>)
  moreover have old: "candidate_ok ld' x \<longleftrightarrow> candidate_ok ld x" for x by (simp add: candidate_ok_def ld')
  moreover have "candidate_ok ld ?b"
  proof -
    have e: "getRecoveryClaimByIdRow ld (cl_claimId e) = Some e" "cl_candidateKey e = cn_candidateKey c"
      using row_of_key [OF assms(2)] assms(7) by (auto simp: recovery_tables_ok_def intro: row_of_distinct)
    with ok b assms(4-6) show ?thesis
      by (simp add: candidate_ok_def beaten_candidate_def canonical_key_def same_logical_candidate_def cong: candidate_type.case_cong)
  qed
  moreover have "sources_ok ld' \<longleftrightarrow> sources_ok ld" by (simp add: sources_ok_def ld' cong: option.case_cong)
  ultimately show ?thesis using assms(7) by (auto simp: recovery_tables_ok_def ld' dest!: put_row_in)
qed

text \<open>What taking a claim does to the source.\<close>

lemma claim_source_marks:
  assumes "claim_source i c t ld = Inr ld'" "source_claimable sha c ld = Inr ()"
    "cl_candidateType l = cn_candidateType c" "cl_attemptId l = cn_attemptId c" "cl_queueItemId l = cn_queueItemId c"
  shows "\<exists>s m. claim_src l = Some s \<and> source_mark ld s = Some m \<and> rm_claimId m = None \<and> source_live ld s
    \<and> source_mark ld' = (source_mark ld)(s \<mapsto> m\<lparr>rm_claimId := Some i, rm_status := Some ''claimed'',
         rm_reason := Some (cn_reasonCode c), rm_runId := Some (cn_recoveryRunId c)\<rparr>)
    \<and> source_live ld' = source_live ld"
proof (cases "cn_candidateType c = CandTurnAttempt")
  case True
  with assms(2) obtain k a where a: "cn_attemptId c = Some k" "getTurnAttemptRow ld k = Some a" "ta_status a = Running"
    "ta_recoveryClaimId a = None" by (auto simp: source_claimable_Inr)
  with assms(1) True have ld': "ld' = ld\<lparr>ld_attempts := put_row ta_attemptId (claimed_attempt i c t a) (ld_attempts ld)\<rparr>"
    by (simp add: claim_source_Inr)
  have k: "ta_attemptId (claimed_attempt i c t a) = k" using row_of_key [OF a(2)] by (simp add: claimed_attempt_def)
  have "getTurnAttemptRow ld' j = (if j = k then Some (claimed_attempt i c t a) else getTurnAttemptRow ld j)" for j
    using a k by (simp add: ld' row_of_put)
  moreover have "pl_queue ld' = pl_queue ld" by (simp add: ld')
  ultimately show ?thesis using True a assms(3,4)
    by (intro exI [of _ "Inl k"] exI [of _ "attempt_recovery a"])
      (auto simp: claim_src_def source_mark_def source_live_def fun_eq_iff attempt_recovery_def claimed_attempt_def split: sum.splits)
next
  case False
  with assms(2) obtain k q where q: "cn_queueItemId c = Some k" "getPromptQueueRow ld k = Some q" "\<not> queue_terminal (pq_status q)"
    "pq_recoveryClaimId q = None" by (auto simp: source_claimable_Inr)
  with assms(1) False have ld': "ld' = ld\<lparr>pl_queue := put_row pq_queueItemId (claimed_item i c t q) (pl_queue ld)\<rparr>"
    by (simp add: claim_source_Inr)
  have k: "pq_queueItemId (claimed_item i c t q) = k" using row_of_key [OF q(2)] by (simp add: claimed_item_def)
  have "getPromptQueueRow ld' j = (if j = k then Some (claimed_item i c t q) else getPromptQueueRow ld j)" for j
    using q k by (simp add: ld' row_of_put)
  moreover have "ld_attempts ld' = ld_attempts ld" by (simp add: ld')
  ultimately show ?thesis using False q assms(3,5)
    by (intro exI [of _ "Inr k"] exI [of _ "queue_recovery q"])
      (auto simp: claim_src_def source_mark_def source_live_def fun_eq_iff queue_recovery_def claimed_item_def split: sum.splits)
qed

lemma claim_source_tables:
  assumes "claim_source i c t ld = Inr ld'"
  shows "rl_runs ld' = rl_runs ld" "rl_candidates ld' = rl_candidates ld" "rl_claims ld' = rl_claims ld"
  using assms by (auto simp: claim_source_Inr split: if_splits)

lemma held_other:
  assumes "claim_held ld x y" "source_mark ld' = (source_mark ld)(s \<mapsto> m')" "source_live ld' = source_live ld"
    "source_mark ld s = Some m" "rm_claimId m \<noteq> Some (cl_claimId x)"
  shows "claim_held ld' x y"
proof -
  from assms(1) obtain s' where s': "claim_src x = Some s'" "source_mark ld s' = Some (claim_marks x y)" "source_live ld s'"
    by (auto simp: claim_held_def)
  then have "s' \<noteq> s" using assms(4,5) by (auto simp: claim_marks_def)
  with s' assms(2,3) show ?thesis by (simp add: claim_held_def)
qed

text \<open>The four tables after a claim was taken, with the marks the source got.\<close>

definition claim_taken :: "('a) recovery_ledger_scheme \<Rightarrow> recovery_claim \<Rightarrow> recovery_candidate \<Rightarrow> ('a) recovery_ledger_scheme \<Rightarrow> bool" where
  "claim_taken ld l c ld' \<longleftrightarrow> rl_runs ld' = rl_runs ld \<and> rl_claims ld' = rl_claims ld @ [l]
     \<and> rl_candidates ld' = put_row candidate_id (claimed_candidate l c) (rl_candidates ld) \<and> source_live ld' = source_live ld
     \<and> (\<exists>s. claim_src l = Some s \<and> source_mark ld s = Some unclaimed \<and> source_live ld s
          \<and> source_mark ld' = (source_mark ld)(s \<mapsto> claim_marks l (claimed_candidate l c)))"

lemma take_effect:
  assumes "take_claim sha (new_claim i b c t) c ld = Inr ((acquired, l), ld')" "sources_ok ld"
  shows "claim_taken ld l c ld' \<and> l = new_claim i b c t \<and> claim_check l \<and> i \<notin> cl_claimId ` set (rl_claims ld)
    \<and> candidate_check (claimed_candidate l c) \<and> cn_actionStatus c = ActPending \<and> cn_claimId c = None"
proof -
  from assms(1) obtain ld2 where t: "l = new_claim i b c t" "cn_actionStatus c = ActPending" "cn_claimId c = None"
      "source_claimable sha c ld = Inr ()" "claim_check l" "i \<notin> cl_claimId ` set (rl_claims ld)" "candidate_check (claimed_candidate l c)"
    and s: "claim_source i c (cl_claimedAt l) (ld\<lparr>rl_claims := rl_claims ld @ [l]\<rparr>) = Inr ld2"
    and ld': "ld' = ld2\<lparr>rl_candidates := put_row candidate_id (claimed_candidate l c) (rl_candidates ld2)\<rparr>"
    by (auto simp: take_claim_Inr new_claim_def)
  have "source_claimable sha c (ld\<lparr>rl_claims := rl_claims ld @ [l]\<rparr>) = Inr ()"
    using t(4) by (auto simp: source_claimable_Inr split: if_splits)
  from claim_source_marks [OF s this, of l] obtain src m where m: "claim_src l = Some src" "source_mark ld src = Some m"
      "rm_claimId m = None" "source_live ld src" "source_live ld2 = source_live ld"
    and mark: "source_mark ld2 = (source_mark ld)(src \<mapsto> m\<lparr>rm_claimId := Some i, rm_status := Some ''claimed'',
         rm_reason := Some (cn_reasonCode c), rm_runId := Some (cn_recoveryRunId c)\<rparr>)"
    by (auto simp: t(1) new_claim_def)
  have u: "m = unclaimed" using unclaimed_mark [OF assms(2) m(2,3)] .
  have "m\<lparr>rm_claimId := Some i, rm_status := Some ''claimed'', rm_reason := Some (cn_reasonCode c), rm_runId := Some (cn_recoveryRunId c)\<rparr>
      = claim_marks l (claimed_candidate l c)"
    by (simp add: u unclaimed_def claim_marks_def claimed_candidate_def t(1) new_claim_def)
  with m mark u claim_source_tables [OF s] have "claim_taken ld l c ld'"
    unfolding claim_taken_def by (simp add: ld')
  with t show ?thesis by blast
qed

lemma new_claim_fields [simp]:
  "cl_candidateKey (new_claim i b c t) = cn_candidateKey c" "cl_claimId (new_claim i b c t) = i"
  "cl_recoveryRunId (new_claim i b c t) = cn_recoveryRunId c" "cl_claimedByBootEpoch (new_claim i b c t) = b"
  "cl_status (new_claim i b c t) = ClaimClaimed" "cl_completedAt (new_claim i b c t) = None" "cl_result (new_claim i b c t) = None"
  "same_logical_candidate (new_claim i b c t) c"
  by (simp_all add: new_claim_def same_logical_candidate_def)

lemma claimed_candidate_fields [simp]:
  "candidate_id (claimed_candidate l c) = candidate_id c" "cn_recoveryRunId (claimed_candidate l c) = cn_recoveryRunId c"
  "cn_candidateKey (claimed_candidate l c) = cn_candidateKey c" "cn_claimId (claimed_candidate l c) = Some (cl_claimId l)"
  "cn_actionStatus (claimed_candidate l c) = ActClaimed" "cn_candidateType (claimed_candidate l c) = cn_candidateType c"
  "canonical_key (claimed_candidate l c) = canonical_key c" "same_logical_candidate x (claimed_candidate l c) = same_logical_candidate x c"
  "cn_actionCompletedAt (claimed_candidate l c) = cn_actionCompletedAt c" "cn_result (claimed_candidate l c) = cn_result c"
  by (simp_all add: claimed_candidate_def candidate_id_def canonical_key_def same_logical_candidate_def cong: candidate_type.case_cong)

lemma taken_claims:
  assumes "claim_taken ld l c ld'" "l = new_claim i b c t" "claim_check l" "cn_claimId c = None" "cn_actionCompletedAt c = None"
    "getRecoveryCandidateRow ld (cn_recoveryRunId c) (cn_candidateKey c) = Some c"
    "getRecoveryRunRow ld (cn_recoveryRunId c) = Some r" "rn_mode r = ModeApply" "rn_bootEpoch r = Some b"
  shows "claim_ok ld' l" and "claim_ok ld x \<Longrightarrow> claim_ok ld' x"
proof -
  from assms(1) obtain s where s: "claim_src l = Some s" "source_mark ld s = Some unclaimed" "source_live ld s"
      "source_mark ld' = (source_mark ld)(s \<mapsto> claim_marks l (claimed_candidate l c))" "source_live ld' = source_live ld"
    and tab: "rl_runs ld' = rl_runs ld" "rl_candidates ld' = put_row candidate_id (claimed_candidate l c) (rl_candidates ld)"
    unfolding claim_taken_def by blast
  have row: "getRecoveryCandidateRow ld' (cn_recoveryRunId c) (cn_candidateKey c) = Some (claimed_candidate l c)"
    using assms(6) by (simp add: tab row_of_put candidate_id_def [of c])
  have "claim_held ld' l (claimed_candidate l c)" using s by (simp add: claim_held_def)
  with assms(2-5,7-9) row show "claim_ok ld' l" unfolding claim_ok_def by (simp add: tab claim_action_def)
  have "claim_held ld' x y" if "claim_held ld x y" for y
    by (rule held_other [OF that s(4,5,2)]) (simp add: unclaimed_def)
  then show "claim_ok ld' x" if "claim_ok ld x"
    using put_candidate_claims [OF that, of "claimed_candidate l c" c ld'] assms(4,6) by (simp add: tab)
qed

text \<open>The other rows after a claim was taken.\<close>

lemma taken_byid:
  assumes "claim_taken ld l c ld'" "cl_claimId l \<notin> cl_claimId ` set (rl_claims ld)"
  shows "getRecoveryClaimByIdRow ld' j = (if j = cl_claimId l then Some l else getRecoveryClaimByIdRow ld j)"
proof -
  have "rl_claims ld' = rl_claims ld @ [l]" using assms(1) unfolding claim_taken_def by blast
  moreover have "getRecoveryClaimByIdRow ld (cl_claimId l) = None" using assms(2) by (simp add: row_of_None)
  ultimately show ?thesis by (auto simp: row_of_append split: option.splits)
qed

lemma taken_candidates:
  assumes "claim_taken ld l c ld'" "l = new_claim i b c t" "i \<notin> cl_claimId ` set (rl_claims ld)"
  shows "candidate_ok ld x \<Longrightarrow> candidate_ok ld' x"
    and "candidate_check (claimed_candidate l c) \<Longrightarrow> canonical_key c \<Longrightarrow> getRecoveryRunRow ld (cn_recoveryRunId c) = Some r
      \<Longrightarrow> rn_mode r = ModeApply \<Longrightarrow> rn_status r = RunRunning \<Longrightarrow> cn_candidateType c \<noteq> CandLegacySessionTurn
      \<Longrightarrow> candidate_ok ld' (claimed_candidate l c)"
proof -
  have runs: "rl_runs ld' = rl_runs ld" using assms(1) unfolding claim_taken_def by blast
  have byid: "getRecoveryClaimByIdRow ld' j = (if j = i then Some l else getRecoveryClaimByIdRow ld j)" for j
    using taken_byid [OF assms(1)] assms(2,3) by simp
  have "j \<noteq> i" if "getRecoveryClaimByIdRow ld j = Some y" for j y
    using row_of_key [OF that] assms(3) by auto
  then show "candidate_ok ld' x" if "candidate_ok ld x"
    using that by (rule_tac candidate_ok_frame [OF that]) (auto simp: runs byid)
  show "candidate_ok ld' (claimed_candidate l c)"
    if "candidate_check (claimed_candidate l c)" "canonical_key c" "getRecoveryRunRow ld (cn_recoveryRunId c) = Some r"
      "rn_mode r = ModeApply" "rn_status r = RunRunning" "cn_candidateType c \<noteq> CandLegacySessionTurn"
    using that assms(2) by (simp add: candidate_ok_def runs byid)
qed

lemma taken_sources:
  assumes "claim_taken ld l c ld'" "cl_claimId l \<notin> cl_claimId ` set (rl_claims ld)" "sources_ok ld"
  shows "sources_ok ld'"
  unfolding sources_ok_def
proof (intro allI impI)
  fix s' m assume m: "source_mark ld' s' = Some m"
  from assms(1) obtain s where s: "claim_src l = Some s" "source_mark ld' = (source_mark ld)(s \<mapsto> claim_marks l (claimed_candidate l c))"
    unfolding claim_taken_def by blast
  note byid = taken_byid [OF assms(1,2)]
  show "case rm_claimId m of None \<Rightarrow> m = unclaimed | Some j \<Rightarrow> \<exists>x. getRecoveryClaimByIdRow ld' j = Some x \<and> claim_src x = Some s'"
  proof (cases "s' = s")
    case True
    with m s have "m = claim_marks l (claimed_candidate l c)" by simp
    with s True show ?thesis by (simp add: claim_marks_def byid)
  next
    case False
    with m s have "source_mark ld s' = Some m" by simp
    with assms(3) have "case rm_claimId m of None \<Rightarrow> m = unclaimed
        | Some j \<Rightarrow> \<exists>x. getRecoveryClaimByIdRow ld j = Some x \<and> claim_src x = Some s'" unfolding sources_ok_def by blast
    moreover have "getRecoveryClaimByIdRow ld (cl_claimId l) = None" using assms(2) by (simp add: row_of_None)
    ultimately show ?thesis by (auto simp: byid split: option.splits)
  qed
qed

lemma take_tables:
  assumes "take_claim sha (new_claim i b c t) c ld = Inr ((acquired, l), ld')"
    "getRecoveryClaimByCandidateRow ld (cn_candidateKey c) = None" "claim_ready ld (cn_recoveryRunId c) (cn_candidateKey c) b c"
    "recovery_tables_ok ld"
  shows "recovery_tables_ok ld'"
proof -
  from assms(3) obtain r where r: "getRecoveryRunRow ld (cn_recoveryRunId c) = Some r" "rn_mode r = ModeApply" "rn_status r = RunRunning"
      "rn_bootEpoch r = Some b" "getRecoveryCandidateRow ld (cn_recoveryRunId c) (cn_candidateKey c) = Some c"
      "cn_candidateType c \<noteq> CandLegacySessionTurn" unfolding claim_ready_def by blast
  have src: "sources_ok ld" using assms(4) by (simp add: recovery_tables_ok_def)
  from take_effect [OF assms(1) src] have t: "claim_taken ld l c ld'" "l = new_claim i b c t" "claim_check l"
      "i \<notin> cl_claimId ` set (rl_claims ld)" "candidate_check (claimed_candidate l c)" "cn_actionStatus c = ActPending" "cn_claimId c = None"
    by blast+
  have "c \<in> set (rl_candidates ld)" using row_of_key [OF r(5)] by simp
  then have ok: "candidate_check c" "canonical_key c" using assms(4) by (auto simp: recovery_tables_ok_def candidate_ok_def)
  then have done': "cn_actionCompletedAt c = None" using t(6) by (simp add: candidate_check_def)
  note claims = taken_claims [OF t(1-3,7) done' r(5,1,2,4)]
  note cands = taken_candidates [OF t(1,2,4)]
  have "sources_ok ld'" using taken_sources [OF t(1) _ src] t(2,4) by simp
  moreover have "rl_runs ld' = rl_runs ld" "rl_claims ld' = rl_claims ld @ [l]"
      "rl_candidates ld' = put_row candidate_id (claimed_candidate l c) (rl_candidates ld)"
    using t(1) unfolding claim_taken_def by blast+
  ultimately show ?thesis
    using assms(2,4) claims cands(1) cands(2) [OF t(5) ok(2) r(1-3,6)] t(2,4)
    by (auto simp: recovery_tables_ok_def row_of_None dest!: put_row_in)
qed

text \<open>What completing a claim does to the source.\<close>

lemma complete_source_marks:
  assumes "complete_source sha l rs reason t ld = Inr ld'" "claim_src l = Some s" "source_mark ld s = Some m"
  shows "source_mark ld' = (source_mark ld)(s \<mapsto> m\<lparr>rm_status := Some rs, rm_reason := Some reason, rm_recoveredAt := Some t\<rparr>)
    \<and> source_live ld' = source_live ld"
proof (cases "cl_candidateType l = CandTurnAttempt")
  case True
  with assms(2,3) obtain k a where a: "s = Inl k" "cl_attemptId l = Some k" "getTurnAttemptRow ld k = Some a" "m = attempt_recovery a"
    by (auto simp: claim_src_def source_mark_def)
  with assms(1) True have ld': "ld' = ld\<lparr>ld_attempts := put_row ta_attemptId (recovered_attempt rs reason t a) (ld_attempts ld)\<rparr>"
    by (simp add: complete_source_Inr)
  have k: "ta_attemptId (recovered_attempt rs reason t a) = k" using row_of_key [OF a(3)] by (simp add: recovered_attempt_def)
  have "getTurnAttemptRow ld' j = (if j = k then Some (recovered_attempt rs reason t a) else getTurnAttemptRow ld j)" for j
    using a k by (simp add: ld' row_of_put)
  moreover have "pl_queue ld' = pl_queue ld" by (simp add: ld')
  ultimately show ?thesis using a
    by (auto simp: source_mark_def source_live_def fun_eq_iff attempt_recovery_def recovered_attempt_def split: sum.splits)
next
  case False
  with assms(2,3) obtain k x where q: "s = Inr k" "cl_queueItemId l = Some k" "getPromptQueueRow ld k = Some x" "m = queue_recovery x"
    by (auto simp: claim_src_def source_mark_def)
  with assms(1) False have ld': "ld' = ld\<lparr>pl_queue := put_row pq_queueItemId (recovered_item rs reason t x) (pl_queue ld)\<rparr>"
    by (simp add: complete_source_Inr)
  have k: "pq_queueItemId (recovered_item rs reason t x) = k" using row_of_key [OF q(3)] by (simp add: recovered_item_def)
  have "getPromptQueueRow ld' j = (if j = k then Some (recovered_item rs reason t x) else getPromptQueueRow ld j)" for j
    using q k by (simp add: ld' row_of_put)
  moreover have "ld_attempts ld' = ld_attempts ld" by (simp add: ld')
  ultimately show ?thesis using q
    by (auto simp: source_mark_def source_live_def fun_eq_iff queue_recovery_def recovered_item_def split: sum.splits)
qed

lemma complete_source_tables:
  assumes "complete_source sha l rs reason t ld = Inr ld'"
  shows "rl_runs ld' = rl_runs ld" "rl_candidates ld' = rl_candidates ld" "rl_claims ld' = rl_claims ld"
  using assms by (auto simp: complete_source_Inr split: if_splits)

text \<open>The two rows a completion writes keep what identifies them.\<close>

lemma finished_fields [simp]:
  "claim_base (finished_claim ap t res l) = claim_base l" "claim_src (finished_claim ap t res l) = claim_src l"
  "cl_claimId (finished_claim ap t res l) = cl_claimId l" "cl_candidateKey (finished_claim ap t res l) = cl_candidateKey l"
  "cl_recoveryRunId (finished_claim ap t res l) = cl_recoveryRunId l"
  "cl_claimedByBootEpoch (finished_claim ap t res l) = cl_claimedByBootEpoch l"
  "cl_completedAt (finished_claim ap t res l) = Some t" "cl_result (finished_claim ap t res l) = Some res"
  "cl_status (finished_claim ap t res l) = (if ap then ClaimApplied else ClaimFailed)"
  "candidate_id (finished_candidate ap t res c) = candidate_id c" "cn_candidateType (finished_candidate ap t res c) = cn_candidateType c"
  "cn_recoveryRunId (finished_candidate ap t res c) = cn_recoveryRunId c" "cn_candidateKey (finished_candidate ap t res c) = cn_candidateKey c"
  "cn_claimId (finished_candidate ap t res c) = cn_claimId c" "cn_decision (finished_candidate ap t res c) = cn_decision c"
  "cn_actionStatus (finished_candidate ap t res c) = (if ap then ActApplied else ActFailed)"
  "cn_actionCompletedAt (finished_candidate ap t res c) = Some t" "cn_result (finished_candidate ap t res c) = Some res"
  "canonical_key (finished_candidate ap t res c) = canonical_key c"
  "same_logical_candidate (finished_claim ap t res l) y = same_logical_candidate l y"
  "same_logical_candidate x (finished_candidate ap t res c) = same_logical_candidate x c"
  by (simp_all add: finished_claim_def finished_candidate_def claim_base_def candidate_id_def same_logical_candidate_def claim_src_def
      canonical_key_def cong: candidate_type.case_cong)

text \<open>The four tables after a claim was completed, with the marks the source got.\<close>

definition claim_finished ::
  "('a) recovery_ledger_scheme \<Rightarrow> recovery_claim \<Rightarrow> recovery_claim \<Rightarrow> recovery_candidate \<Rightarrow> recovery_candidate \<Rightarrow> ('a) recovery_ledger_scheme \<Rightarrow> bool" where
  "claim_finished ld l l' c c' ld' \<longleftrightarrow> rl_runs ld' = rl_runs ld \<and> rl_claims ld' = put_row cl_claimId l' (rl_claims ld)
     \<and> rl_candidates ld' = put_row candidate_id c' (rl_candidates ld) \<and> source_live ld' = source_live ld
     \<and> (\<exists>s. claim_src l = Some s \<and> source_mark ld s = Some (claim_marks l c) \<and> source_live ld s
          \<and> source_mark ld' = (source_mark ld)(s \<mapsto> claim_marks l' c'))"

lemma finish_effect:
  assumes "finish_claim sha ap t res l c ld = Inr ((l', c'), ld')" "claim_ok ld l"
    "getRecoveryCandidateRow ld (cl_recoveryRunId l) (cl_candidateKey l) = Some c"
  shows "claim_finished ld l l' c c' ld'"
proof -
  let ?ld = "ld\<lparr>rl_claims := put_row cl_claimId l' (rl_claims ld), rl_candidates := put_row candidate_id c' (rl_candidates ld)\<rparr>"
  let ?rs = "if ap then decision_name (cn_decision c) else ''action_failed''"
  from finish_claim_Inr [OF assms(1)] have f: "l' = finished_claim ap t res l" "c' = finished_candidate ap t res c" "cl_status l = ClaimClaimed"
    and src: "complete_source sha l ?rs (cn_reasonCode c) t ?ld = Inr ld'" by blast+
  from assms(2,3) obtain s where s: "claim_src l = Some s" "source_mark ld s = Some (claim_marks l c)" "source_live ld s"
    by (auto simp: claim_ok_def claim_held_def)
  have "source_mark ld' = (source_mark ld)(s \<mapsto> (claim_marks l c)\<lparr>rm_status := Some ?rs, rm_reason := Some (cn_reasonCode c), rm_recoveredAt := Some t\<rparr>)
      \<and> source_live ld' = source_live ld"
    using complete_source_marks [OF src s(1)] s(2) by simp
  moreover have "(claim_marks l c)\<lparr>rm_status := Some ?rs, rm_reason := Some (cn_reasonCode c), rm_recoveredAt := Some t\<rparr> = claim_marks l' c'"
    by (simp add: claim_marks_def f) (simp add: finished_candidate_def)
  ultimately show ?thesis using s complete_source_tables [OF src] unfolding claim_finished_def by simp
qed

text \<open>The other rows after a claim was completed.\<close>

lemma finished_byid:
  assumes "claim_finished ld l l' c c' ld'" "getRecoveryClaimByIdRow ld (cl_claimId l) = Some l" "cl_claimId l' = cl_claimId l"
  shows "getRecoveryClaimByIdRow ld' j = (if j = cl_claimId l then Some l' else getRecoveryClaimByIdRow ld j)"
proof -
  have "rl_claims ld' = put_row cl_claimId l' (rl_claims ld)" using assms(1) unfolding claim_finished_def by blast
  then show ?thesis using assms(2,3) by (simp add: row_of_put)
qed

lemma finished_claims:
  assumes "claim_finished ld l (finished_claim ap t res l) c (finished_candidate ap t res c) ld'" "claim_ok ld l"
    "getRecoveryCandidateRow ld (cl_recoveryRunId l) (cl_candidateKey l) = Some c" "claim_check (finished_claim ap t res l)"
  shows "claim_ok ld' (finished_claim ap t res l)"
    and "claim_ok ld x \<Longrightarrow> cl_claimId x \<noteq> cl_claimId l \<Longrightarrow> claim_ok ld' x"
proof -
  let ?l = "finished_claim ap t res l" and ?c = "finished_candidate ap t res c"
  from assms(1) obtain s where s: "claim_src l = Some s" "source_mark ld s = Some (claim_marks l c)" "source_live ld s"
      "source_mark ld' = (source_mark ld)(s \<mapsto> claim_marks ?l ?c)" "source_live ld' = source_live ld"
    and tab: "rl_runs ld' = rl_runs ld" "rl_candidates ld' = put_row candidate_id ?c (rl_candidates ld)"
    unfolding claim_finished_def by blast
  have key: "cn_recoveryRunId c = cl_recoveryRunId l" "cn_candidateKey c = cl_candidateKey l"
    using row_of_key [OF assms(3)] by (simp_all add: candidate_id_def)
  have row: "getRecoveryCandidateRow ld' (cl_recoveryRunId l) (cl_candidateKey l) = Some ?c"
    using assms(3) key by (simp add: tab row_of_put candidate_id_def [of c])
  have held: "claim_held ld' ?l ?c" using s by (simp add: claim_held_def)
  from assms(2,3) have l: "same_logical_candidate l c" "cn_claimId c = Some (cl_claimId l)"
      "\<exists>r. getRecoveryRunRow ld (cl_recoveryRunId l) = Some r \<and> rn_mode r = ModeApply \<and> rn_bootEpoch r = Some (cl_claimedByBootEpoch l)"
    by (auto simp: claim_ok_def)
  then show "claim_ok ld' ?l"
    using assms(4) row held unfolding claim_ok_def by (simp add: tab claim_action_def)
  show "claim_ok ld' x" if x: "claim_ok ld x" "cl_claimId x \<noteq> cl_claimId l"
  proof (rule put_candidate_claims [OF x(1), of ?c c])
    show "claim_held ld' x y" if "claim_held ld x y" for y
      by (rule held_other [OF that s(4,5,2)]) (use x(2) in \<open>simp add: claim_marks_def\<close>)
  qed (use assms(3) key l(2) x(2) in \<open>simp_all add: tab\<close>)
qed

lemma finished_candidates:
  assumes "claim_finished ld l (finished_claim ap t res l) c (finished_candidate ap t res c) ld'"
    "getRecoveryClaimByIdRow ld (cl_claimId l) = Some l"
  shows "candidate_ok ld x \<Longrightarrow> candidate_ok ld' x"
    and "candidate_ok ld c \<Longrightarrow> candidate_check (finished_candidate ap t res c) \<Longrightarrow> cn_actionStatus c = ActClaimed
      \<Longrightarrow> candidate_ok ld' (finished_candidate ap t res c)"
proof -
  have runs: "rl_runs ld' = rl_runs ld" using assms(1) unfolding claim_finished_def by blast
  have byid: "getRecoveryClaimByIdRow ld' j = (if j = cl_claimId l then Some (finished_claim ap t res l) else getRecoveryClaimByIdRow ld j)" for j
    using finished_byid [OF assms(1,2)] by simp
  show keep: "candidate_ok ld' x" if "candidate_ok ld x" for x
    using assms(2) by (rule_tac candidate_ok_frame [OF that]) (auto simp: runs byid)
  show "candidate_ok ld' (finished_candidate ap t res c)"
    if "candidate_ok ld c" "candidate_check (finished_candidate ap t res c)" "cn_actionStatus c = ActClaimed"
    using keep [OF that(1)] that(2,3) unfolding candidate_ok_def by auto
qed

lemma finished_sources:
  assumes "claim_finished ld l (finished_claim ap t res l) c c' ld'" "getRecoveryClaimByIdRow ld (cl_claimId l) = Some l" "sources_ok ld"
  shows "sources_ok ld'"
  unfolding sources_ok_def
proof (intro allI impI)
  let ?l = "finished_claim ap t res l"
  fix s' m assume m: "source_mark ld' s' = Some m"
  from assms(1) obtain s where s: "claim_src l = Some s" "source_mark ld' = (source_mark ld)(s \<mapsto> claim_marks ?l c')"
    unfolding claim_finished_def by blast
  have byid: "getRecoveryClaimByIdRow ld' j = (if j = cl_claimId l then Some ?l else getRecoveryClaimByIdRow ld j)" for j
    using finished_byid [OF assms(1,2)] by simp
  show "case rm_claimId m of None \<Rightarrow> m = unclaimed | Some j \<Rightarrow> \<exists>x. getRecoveryClaimByIdRow ld' j = Some x \<and> claim_src x = Some s'"
  proof (cases "s' = s")
    case True
    with m s have "m = claim_marks ?l c'" by simp
    with s True show ?thesis by (simp add: claim_marks_def byid)
  next
    case False
    with m s have "source_mark ld s' = Some m" by simp
    with assms(3) have "case rm_claimId m of None \<Rightarrow> m = unclaimed
        | Some j \<Rightarrow> \<exists>x. getRecoveryClaimByIdRow ld j = Some x \<and> claim_src x = Some s'" unfolding sources_ok_def by blast
    with assms(2) show ?thesis by (auto simp: byid split: option.splits)
  qed
qed

lemma finish_tables:
  assumes "finish_claim sha ap t res l c ld = Inr ((l', c'), ld')" "getRecoveryClaimByIdRow ld (cl_claimId l) = Some l"
    "getRecoveryCandidateRow ld (cl_recoveryRunId l) (cl_candidateKey l) = Some c" "recovery_tables_ok ld"
  shows "recovery_tables_ok ld'"
proof -
  have "l \<in> set (rl_claims ld)" "c \<in> set (rl_candidates ld)" using row_of_key [OF assms(2)] row_of_key [OF assms(3)] by simp_all
  then have ok: "claim_ok ld l" "candidate_ok ld c" "sources_ok ld" using assms(4) by (simp_all add: recovery_tables_ok_def)
  from finish_claim_Inr [OF assms(1)] have f: "l' = finished_claim ap t res l" "c' = finished_candidate ap t res c" "claim_check l'"
      "candidate_check c'" "cn_actionStatus c = ActClaimed" by blast+
  have fin: "claim_finished ld l (finished_claim ap t res l) c (finished_candidate ap t res c) ld'"
    using finish_effect [OF assms(1) ok(1) assms(3)] by (simp add: f)
  note claims = finished_claims [OF fin ok(1) assms(3)] and cands = finished_candidates [OF fin assms(2)]
  have "sources_ok ld'" using finished_sources [OF fin assms(2) ok(3)] .
  moreover have tab: "rl_runs ld' = rl_runs ld" "rl_claims ld' = put_row cl_claimId l' (rl_claims ld)"
      "rl_candidates ld' = put_row candidate_id c' (rl_candidates ld)"
    using fin unfolding claim_finished_def f by blast+
  moreover have "map cl_candidateKey (put_row cl_claimId l' (rl_claims ld)) = map cl_candidateKey (rl_claims ld)"
    using assms(2,4) by (intro put_row_maps) (simp_all add: f recovery_tables_ok_def)
  ultimately show ?thesis
    using assms(4) claims cands(1) cands(2) [OF ok(2)] f
    by (auto simp: recovery_tables_ok_def dest!: put_row_in)
qed

end
