(* ===== verification/RecoverySafety.thy ===== *)
theory RecoverySafety
  imports RecoveryHistory
begin

text \<open>
  What holds of every crash-recovery ledger the operations can produce, over all steps of
  \<open>recovery_step\<close>: the three invariants are kept together (\<open>recovery_ok\<close>), and from them the
  properties of the prompt queue, of recovery runs, candidates and claims, and of the sources that
  claims fence.
\<close>

section \<open>The three invariants together\<close>

lemma ledger_ok_cong: "ld_boots ld' = ld_boots ld \<Longrightarrow> ld_attempts ld' = ld_attempts ld \<Longrightarrow> ledger_ok ld' = ledger_ok ld"
  by (simp add: ledger_ok_def attempt_owned_def attempt_chained_def cong: option.case_cong)

lemma prompt_ok_cong:
  "ld_boots ld' = ld_boots ld \<Longrightarrow> ld_attempts ld' = ld_attempts ld \<Longrightarrow> pl_queue ld' = pl_queue ld
   \<Longrightarrow> pl_nextSequence ld' = pl_nextSequence ld \<Longrightarrow> prompt_ledger_ok sha ld' = prompt_ledger_ok sha ld"
  by (simp add: prompt_ledger_ok_def queue_tied_def)

text \<open>The recovery tables say nothing to the other two invariants.\<close>

lemma base_ok_updates [simp]:
  "ledger_ok (ld\<lparr>rl_runs := runs\<rparr>) = ledger_ok ld" "ledger_ok (ld\<lparr>rl_candidates := cs\<rparr>) = ledger_ok ld"
  "ledger_ok (ld\<lparr>rl_claims := ls\<rparr>) = ledger_ok ld"
  "prompt_ledger_ok sha (ld\<lparr>rl_runs := runs\<rparr>) = prompt_ledger_ok sha ld"
  "prompt_ledger_ok sha (ld\<lparr>rl_candidates := cs\<rparr>) = prompt_ledger_ok sha ld"
  "prompt_ledger_ok sha (ld\<lparr>rl_claims := ls\<rparr>) = prompt_ledger_ok sha ld"
  by (rule ledger_ok_cong prompt_ok_cong; simp)+

lemma prompt_ok_frame:
  assumes "pl_queue ld' = pl_queue ld" "pl_nextSequence ld' = pl_nextSequence ld" "prompt_ledger_ok sha ld"
    "\<And>k b. getBootEpochRow ld k = Some b \<Longrightarrow> \<exists>b'. getBootEpochRow ld' k = Some b' \<and> boot_le b b'"
    "\<And>k a. getTurnAttemptRow ld k = Some a \<Longrightarrow> \<exists>a'. getTurnAttemptRow ld' k = Some a' \<and> attempt_le a a'"
  shows "prompt_ledger_ok sha ld'"
proof -
  have "queue_tied ld' q" if "queue_tied ld q" for q by (rule queue_tied_mono [OF that assms(4,5)])
  with assms(3) show ?thesis by (simp add: prompt_ledger_ok_def assms(1,2))
qed

lemma owners_moved_prompts:
  assumes "owners_moved ld ld'" "prompt_ledger_ok sha ld" shows "prompt_ledger_ok sha ld'"
proof (rule prompt_ok_frame [OF _ _ assms(2)])
  have e: "ld' = ld\<lparr>ld_boots := ld_boots ld', ld_attempts := ld_attempts ld'\<rparr>" using assms(1) by (simp add: owners_moved_def)
  show "pl_queue ld' = pl_queue ld" "pl_nextSequence ld' = pl_nextSequence ld" by (subst e, simp)+
qed (use assms(1) in \<open>unfold owners_moved_def, blast+\<close>)

text \<open>Recovery writes on an attempt that runs, and on a prompt, without touching anything else of it.\<close>

lemma attempt_put_ok:
  assumes "getTurnAttemptRow ld k = Some a" "attempt_le a a'" "attempt_check a'"
    "ta_leaseExpiresAt a' = ta_leaseExpiresAt a" "ta_lastHeartbeatAt a' = ta_lastHeartbeatAt a" "ledger_ok ld" "prompt_ledger_ok sha ld"
  shows "ledger_ok (ld\<lparr>ld_attempts := put_row ta_attemptId a' (ld_attempts ld)\<rparr>)
    \<and> prompt_ledger_ok sha (ld\<lparr>ld_attempts := put_row ta_attemptId a' (ld_attempts ld)\<rparr>)"
proof -
  have e: "attempt_effect a' ld (ld\<lparr>ld_attempts := put_row ta_attemptId a' (ld_attempts ld)\<rparr>)"
    using attempt_effect_put [OF assms(1-3)] assms(4,5) by simp
  show ?thesis
    using attempt_effect_ok [OF e assms(6)] attempt_effect_grows [OF e] assms(7) by (auto intro: prompt_ok_frame)
qed

lemma item_recovery_fields:
  assumes "q' = q\<lparr>pq_recoveryClaimId := i, pq_recoveryStatus := s, pq_recoveryReason := r, pq_recoveryRunId := n, pq_recoveredAt := ra,
      pq_updatedAt := u\<rparr>"
  shows "queue_row_valid sha q' = queue_row_valid sha q" "queue_tied ld q' = queue_tied ld q" "queue_identity q' = queue_identity q"
proof -
  from assms have f: "pq_bootEpoch q' = pq_bootEpoch q" "pq_leaseOwner q' = pq_leaseOwner q" "pq_leaseExpiresAt q' = pq_leaseExpiresAt q"
      "pq_status q' = pq_status q" "pq_deliveredAttemptId q' = pq_deliveredAttemptId q" "pq_deliveredTurnId q' = pq_deliveredTurnId q"
      "pq_completedAt q' = pq_completedAt q" by simp_all
  show id: "queue_identity q' = queue_identity q" unfolding queue_identity_def by (simp add: assms)
  then have "pq_immutableFingerprint q' = pq_immutableFingerprint q" "pq_sessionKey q' = pq_sessionKey q" by (simp_all add: queue_identity_def)
  with f identity_content [OF id] show "queue_row_valid sha q' = queue_row_valid sha q" "queue_tied ld q' = queue_tied ld q"
    by (simp_all add: queue_row_valid_def queue_tied_def promptQueueFingerprint_def)
qed

lemma item_put_ok:
  assumes "prompt_ledger_ok sha ld" "ledger_ok ld" "getPromptQueueRow ld k = Some q" "q' = q\<lparr>pq_recoveryClaimId := i, pq_recoveryStatus := s,
      pq_recoveryReason := r, pq_recoveryRunId := n, pq_recoveredAt := ra, pq_updatedAt := u\<rparr>" "queue_check q'"
  shows "ledger_ok (ld\<lparr>pl_queue := put_row pq_queueItemId q' (pl_queue ld)\<rparr>)
    \<and> prompt_ledger_ok sha (ld\<lparr>pl_queue := put_row pq_queueItemId q' (pl_queue ld)\<rparr>)"
proof -
  have "q \<in> set (pl_queue ld)" using row_of_key [OF assms(3)] by simp
  then have q: "queue_row_valid sha q" "queue_tied ld q" using assms(1) by (simp_all add: prompt_ledger_ok_def)
  note same = item_recovery_fields [OF assms(4)]
  have "prompt_ledger_ok sha (ld\<lparr>pl_queue := put_row pq_queueItemId q' (pl_queue ld)\<rparr>)"
    by (rule prompt_table_put [OF assms(1,3) same(3) assms(5)]) (use q same in blast)+
  moreover have "ledger_ok (ld\<lparr>pl_queue := put_row pq_queueItemId q' (pl_queue ld)\<rparr>)"
    using assms(2) by (subst ledger_ok_cong) simp_all
  ultimately show ?thesis by blast
qed

lemma claim_source_ok:
  assumes "claim_source i c t ld = Inr ld'" "source_claimable sha c ld = Inr ()" "ledger_ok ld" "prompt_ledger_ok sha ld"
  shows "ledger_ok ld' \<and> prompt_ledger_ok sha ld'"
proof (cases "cn_candidateType c = CandTurnAttempt")
  case True
  with assms(1,2) obtain a where a: "getTurnAttemptRow ld (the (cn_attemptId c)) = Some a" "attempt_check (claimed_attempt i c t a)"
      "ta_status a = Running" and ld': "ld' = ld\<lparr>ld_attempts := put_row ta_attemptId (claimed_attempt i c t a) (ld_attempts ld)\<rparr>"
    by (auto simp: claim_source_Inr source_claimable_Inr)
  have "attempt_le a (claimed_attempt i c t a)"
    using a(3) by (simp add: attempt_le_def claimed_attempt_def hasRuntimeTurnAttemptInputMutation_def)
  from attempt_put_ok [OF a(1) this a(2) _ _ assms(3,4)] show ?thesis by (simp add: ld' claimed_attempt_def)
next
  case False
  with assms(1) obtain q where q: "getPromptQueueRow ld (the (cn_queueItemId c)) = Some q" "queue_check (claimed_item i c t q)"
    and ld': "ld' = ld\<lparr>pl_queue := put_row pq_queueItemId (claimed_item i c t q) (pl_queue ld)\<rparr>"
    by (auto simp: claim_source_Inr)
  have "claimed_item i c t q = q\<lparr>pq_recoveryClaimId := Some i, pq_recoveryStatus := Some ''claimed'', pq_recoveryReason := Some (cn_reasonCode c),
      pq_recoveryRunId := Some (cn_recoveryRunId c), pq_recoveredAt := pq_recoveredAt q, pq_updatedAt := max (pq_updatedAt q) t\<rparr>"
    by (simp add: claimed_item_def)
  from item_put_ok [OF assms(4,3) q(1) this q(2)] show ?thesis by (simp add: ld')
qed

lemma complete_source_ok:
  assumes "complete_source sha l rs reason t ld = Inr ld'" "claim_src l = Some s" "source_live ld s" "ledger_ok ld" "prompt_ledger_ok sha ld"
  shows "ledger_ok ld' \<and> prompt_ledger_ok sha ld'"
proof (cases "cl_candidateType l = CandTurnAttempt")
  case True
  with assms(1-3) obtain a where a: "getTurnAttemptRow ld (the (cl_attemptId l)) = Some a" "attempt_check (recovered_attempt rs reason t a)"
      "ta_status a = Running" and ld': "ld' = ld\<lparr>ld_attempts := put_row ta_attemptId (recovered_attempt rs reason t a) (ld_attempts ld)\<rparr>"
    by (auto simp: complete_source_Inr claim_src_def source_live_def split: option.splits)
  have "attempt_le a (recovered_attempt rs reason t a)"
    using a(3) by (simp add: attempt_le_def recovered_attempt_def hasRuntimeTurnAttemptInputMutation_def)
  from attempt_put_ok [OF a(1) this a(2) _ _ assms(4,5)] show ?thesis by (simp add: ld' recovered_attempt_def)
next
  case False
  with assms(1) obtain q where q: "getPromptQueueRow ld (the (cl_queueItemId l)) = Some q" "queue_check (recovered_item rs reason t q)"
    and ld': "ld' = ld\<lparr>pl_queue := put_row pq_queueItemId (recovered_item rs reason t q) (pl_queue ld)\<rparr>"
    by (auto simp: complete_source_Inr)
  have "recovered_item rs reason t q = q\<lparr>pq_recoveryClaimId := pq_recoveryClaimId q, pq_recoveryStatus := Some rs, pq_recoveryReason := Some reason,
      pq_recoveryRunId := pq_recoveryRunId q, pq_recoveredAt := Some t, pq_updatedAt := max (pq_updatedAt q) t\<rparr>"
    by (simp add: recovered_item_def)
  from item_put_ok [OF assms(5,4) q(1) this q(2)] show ?thesis by (simp add: ld')
qed
lemma acquire_ok:
  assumes "acquireRuntimeRecoveryClaim sha uuid now runId key b i t ld = Inr ((acquired, l), ld')" "recovery_ok sha ld"
  shows "recovery_ok sha ld'"
proof -
  from assms(2) have ok: "ledger_ok ld" "prompt_ledger_ok sha ld" "recovery_tables_ok ld" by (simp_all add: recovery_ok_def)
  from acquire_effect [OF assms(1)] obtain c t where ready: "claim_ready ld (trim runId) (trim key) (trim b) c"
    and how: "if acquired then getRecoveryClaimByCandidateRow ld (trim key) = None
         \<and> (\<exists>i. take_claim sha (new_claim i (trim b) c t) c ld = Inr ((True, l), ld'))
       else (\<exists>e. getRecoveryClaimByCandidateRow ld (trim key) = Some e \<and> yield_claim e c t ld = Inr ((False, l), ld'))" by blast
  from ready have key: "cn_recoveryRunId c = trim runId" "cn_candidateKey c = trim key" by (simp_all add: claim_ready_def)
  show ?thesis
  proof (cases acquired)
    case True
    with how obtain i where n: "getRecoveryClaimByCandidateRow ld (trim key) = None"
      and k: "take_claim sha (new_claim i (trim b) c t) c ld = Inr ((True, l), ld')" by auto
    have tables: "recovery_tables_ok ld'" using take_tables [OF k] n ready key ok(3) by simp
    from k obtain ld2 where s: "source_claimable sha c ld = Inr ()"
        "claim_source i c t (ld\<lparr>rl_claims := rl_claims ld @ [l]\<rparr>) = Inr ld2"
      and ld': "ld' = ld2\<lparr>rl_candidates := put_row candidate_id (claimed_candidate l c) (rl_candidates ld2)\<rparr>"
      by (auto simp: take_claim_Inr new_claim_def)
    have "source_claimable sha c (ld\<lparr>rl_claims := rl_claims ld @ [l]\<rparr>) = Inr ()"
      using s(1) by (auto simp: source_claimable_Inr split: if_splits)
    from claim_source_ok [OF s(2) this] ok have "ledger_ok ld2 \<and> prompt_ledger_ok sha ld2"
      by simp
    with tables show ?thesis by (simp add: recovery_ok_def ld')
  next
    case False
    with how obtain e where e: "getRecoveryClaimByCandidateRow ld (trim key) = Some e" "yield_claim e c t ld = Inr ((False, l), ld')" by auto
    from ready obtain r where r: "getRecoveryRunRow ld (trim runId) = Some r" "rn_mode r = ModeApply"
      "getRecoveryCandidateRow ld (trim runId) (trim key) = Some c" "cn_candidateType c \<noteq> CandLegacySessionTurn" by (auto simp: claim_ready_def)
    have "recovery_tables_ok ld'" using yield_tables [OF e(2)] e(1) r key ok(3) by simp
    moreover have "ld_boots ld' = ld_boots ld" "ld_attempts ld' = ld_attempts ld" "pl_queue ld' = pl_queue ld" "pl_nextSequence ld' = pl_nextSequence ld"
      using e(2) by (auto simp: yield_claim_Inr split: if_splits)
    ultimately show ?thesis using ok(1,2) ledger_ok_cong [of ld' ld] prompt_ok_cong [of ld' ld] by (simp add: recovery_ok_def)
  qed
qed

lemma complete_claim_ok:
  assumes "completeRuntimeRecoveryClaim sha now inp ld = Inr ((l', c'), ld')" "recovery_ok sha ld"
  shows "recovery_ok sha ld'"
proof (cases "ld' = ld")
  case False
  with complete_claim_effect [OF assms(1)] obtain l c t res where row: "getRecoveryClaimByIdRow ld (trim (lo_claimId inp)) = Some l"
      "getRecoveryCandidateRow ld (cl_recoveryRunId l) (cl_candidateKey l) = Some c"
    and fin: "finish_claim sha (lo_applied inp) t res l c ld = Inr ((l', c'), ld')" by blast
  from assms(2) have ok: "ledger_ok ld" "prompt_ledger_ok sha ld" "recovery_tables_ok ld" by (simp_all add: recovery_ok_def)
  have tables: "recovery_tables_ok ld'" using finish_tables [OF fin row_of_self [OF row(1)] row(2) ok(3)] .
  have "l \<in> set (rl_claims ld)" using row_of_key [OF row(1)] by simp
  then have "claim_ok ld l" using ok(3) by (simp add: recovery_tables_ok_def)
  with row(2) obtain s where s: "claim_src l = Some s" "source_live ld s" by (auto simp: claim_ok_def claim_held_def)
  from finish_claim_Inr [OF fin] have src: "complete_source sha l (if lo_applied inp then decision_name (cn_decision c) else ''action_failed'')
      (cn_reasonCode c) t (ld\<lparr>rl_claims := put_row cl_claimId l' (rl_claims ld), rl_candidates := put_row candidate_id c' (rl_candidates ld)\<rparr>) = Inr ld'"
    by blast
  have "ledger_ok ld' \<and> prompt_ledger_ok sha ld'"
    by (rule complete_source_ok [OF src s(1)]) (use s(2) ok(1,2) in simp_all)
  with tables show ?thesis by (simp add: recovery_ok_def)
qed (use assms in simp)

lemma recovery_step_ok: "recovery_step sha256 sha ld ld' \<Longrightarrow> recovery_ok sha ld \<Longrightarrow> recovery_ok sha ld'"
proof (induction rule: recovery_step.induct)
  case (rs_ledger ld ld')
  note moved = ledger_step_owners [OF rs_ledger(1)]
  with rs_ledger ledger_step_ok [OF rs_ledger(1)] owners_moved_prompts [OF moved] sources_moved_ok [OF owners_moved_sources [OF moved]]
  show ?case by (simp add: recovery_ok_def)
next
  case (rs_enqueue uuid now ei ld r ld')
  obtain created q where r: "r = (created, q)" by (cases r)
  note e = rs_enqueue(1) [unfolded r]
  have "ld_boots ld' = ld_boots ld" "ld_attempts ld' = ld_attempts ld" using enqueue_effect [OF e] by (auto split: if_splits)
  with rs_enqueue(2) enqueue_ok [OF e] sources_moved_ok [OF enqueue_sources [OF e]] ledger_ok_cong [of ld' ld] show ?case
    by (simp add: recovery_ok_def)
next
  case (rs_transition now qc ld r ld')
  obtain applied q where r: "r = (applied, q)" by (cases r)
  note e = rs_transition(1) [unfolded r]
  have "ld_boots ld' = ld_boots ld" "ld_attempts ld' = ld_attempts ld" using cas_effect [OF e] by (auto split: if_splits)
  with rs_transition(2) cas_ok [OF e] sources_moved_ok [OF cas_sources [OF e]] ledger_ok_cong [of ld' ld] show ?case
    by (simp add: recovery_ok_def)
next
  case (rs_create_run uuid now i mode b t md ld run ld')
  have "ld' = ld \<or> ld' = ld\<lparr>rl_runs := rl_runs ld @ [run]\<rparr>" using create_run_effect [OF rs_create_run(1)] by blast
  with rs_create_run(2) create_run_tables [OF rs_create_run(1)] show ?case by (auto simp: recovery_ok_def)
next
  case (rs_complete_run now ro ld run ld')
  have "ld' = ld \<or> ld' = ld\<lparr>rl_runs := put_row rn_recoveryRunId run (rl_runs ld)\<rparr>" using complete_run_effect [OF rs_complete_run(1)] by blast
  with rs_complete_run(2) complete_run_tables [OF rs_complete_run(1)] show ?case by (auto simp: recovery_ok_def)
next
  case (rs_record now ki ld c ld')
  have "ld' = ld \<or> ld' = ld\<lparr>rl_candidates := rl_candidates ld @ [c]\<rparr>" using record_candidate_effect [OF rs_record(1)] by blast
  with rs_record(2) record_candidate_tables [OF rs_record(1)] show ?case by (auto simp: recovery_ok_def)
next
  case (rs_acquire uuid now runId key b i t ld r ld')
  then show ?case by (cases r) (auto dest: acquire_ok)
next
  case (rs_complete_claim now lo ld p ld')
  then show ?case by (cases p) (auto dest: complete_claim_ok)
qed

lemma recovery_run_ok: "recovery_run_steps sha256 sha ld ld' \<Longrightarrow> recovery_ok sha ld \<Longrightarrow> recovery_ok sha ld'"
  by (induction rule: rtranclp_induct) (auto intro: recovery_step_ok)

definition empty_recovery_ledger :: recovery_ledger where
  "empty_recovery_ledger = \<lparr>ld_boots = [], ld_attempts = [], pl_queue = [], pl_nextSequence = 1, rl_runs = [], rl_candidates = [], rl_claims = []\<rparr>"

lemma empty_recovery_ok: "recovery_ok sha empty_recovery_ledger"
  by (simp add: empty_recovery_ledger_def recovery_ok_def ledger_ok_def prompt_ledger_ok_def recovery_tables_ok_def sources_ok_def
      source_mark_def split: sum.splits)

section \<open>What a step does to a prompt\<close>

text \<open>What recovery does not write about a prompt.\<close>

definition queue_state where
  "queue_state q = (pq_status q, (pq_bootEpoch q, pq_leaseOwner q, pq_leaseExpiresAt q),
     (pq_deliveredAttemptId q, pq_deliveredTurnId q, pq_completedAt q))"

definition prompt_later :: "queue_row \<Rightarrow> queue_row \<Rightarrow> bool" where
  "prompt_later q q' \<longleftrightarrow> queue_identity q' = queue_identity q \<and> pq_updatedAt q \<le> pq_updatedAt q'
     \<and> (\<lambda>s t. t \<in> set (ALLOWED_QUEUE_STATUS_TRANSITIONS s))\<^sup>*\<^sup>* (pq_status q) (pq_status q')
     \<and> (queue_terminal (pq_status q) \<longrightarrow> q' = q)
     \<and> (pq_recoveryClaimId q \<noteq> None \<longrightarrow> queue_state q' = queue_state q \<and> pq_recoveryClaimId q' = pq_recoveryClaimId q)"

lemma prompt_later_refl [simp]: "prompt_later q q"
  by (simp add: prompt_later_def)

lemma prompt_later_trans: "prompt_later a b \<Longrightarrow> prompt_later b c \<Longrightarrow> prompt_later a c"
  unfolding prompt_later_def by (auto simp: queue_state_def)

lemma queue_moved_later: "queue_moved ld q q' \<Longrightarrow> prompt_later q q'"
  by (auto simp: queue_moved_def prompt_later_def)

lemma item_recovered_later:
  assumes "q' = q\<lparr>pq_recoveryClaimId := i, pq_recoveryStatus := s, pq_recoveryReason := r, pq_recoveryRunId := n, pq_recoveredAt := ra,
      pq_updatedAt := u\<rparr>" "\<not> queue_terminal (pq_status q)" "pq_updatedAt q \<le> u" "pq_recoveryClaimId q \<noteq> None \<longrightarrow> i = pq_recoveryClaimId q"
  shows "prompt_later q q'"
proof -
  have "queue_identity q' = queue_identity q" using assms(1) by (rule item_recovery_fields)
  moreover have "queue_state q' = queue_state q" unfolding queue_state_def by (simp add: assms(1))
  moreover have "pq_status q' = pq_status q" "pq_updatedAt q' = u" "pq_recoveryClaimId q' = i" by (simp_all add: assms(1))
  ultimately show ?thesis using assms(2-4) by (simp add: prompt_later_def)
qed

lemma claim_source_prompt:
  assumes "claim_source i c t ld = Inr ld'" "source_claimable sha c ld = Inr ()" "getPromptQueueRow ld k = Some q"
  shows "\<exists>q'. getPromptQueueRow ld' k = Some q' \<and> prompt_later q q'"
proof (cases "cn_candidateType c = CandTurnAttempt")
  case True
  with assms(1) have "pl_queue ld' = pl_queue ld" by (auto simp: claim_source_Inr)
  with assms(3) show ?thesis by simp
next
  case False
  with assms(1,2) obtain x where x: "getPromptQueueRow ld (the (cn_queueItemId c)) = Some x" "\<not> queue_terminal (pq_status x)"
      "pq_recoveryClaimId x = None" and ld': "ld' = ld\<lparr>pl_queue := put_row pq_queueItemId (claimed_item i c t x) (pl_queue ld)\<rparr>"
    by (auto simp: claim_source_Inr source_claimable_Inr)
  have "claimed_item i c t x = x\<lparr>pq_recoveryClaimId := Some i, pq_recoveryStatus := Some ''claimed'', pq_recoveryReason := Some (cn_reasonCode c),
      pq_recoveryRunId := Some (cn_recoveryRunId c), pq_recoveredAt := pq_recoveredAt x, pq_updatedAt := max (pq_updatedAt x) t\<rparr>"
    by (simp add: claimed_item_def)
  from item_recovered_later [OF this] x have "prompt_later x (claimed_item i c t x)" by simp
  moreover have "pq_queueItemId (claimed_item i c t x) = pq_queueItemId x" by (simp add: claimed_item_def)
  ultimately show ?thesis using assms(3) x(1) row_of_self [OF x(1)] by (auto simp: ld' row_of_put)
qed

lemma complete_source_prompt:
  assumes "complete_source sha l rs reason t ld = Inr ld'" "claim_src l = Some s" "source_live ld s" "getPromptQueueRow ld k = Some q"
  shows "\<exists>q'. getPromptQueueRow ld' k = Some q' \<and> prompt_later q q'"
proof (cases "cl_candidateType l = CandTurnAttempt")
  case True
  with assms(1) have "pl_queue ld' = pl_queue ld" by (auto simp: complete_source_Inr)
  with assms(4) show ?thesis by simp
next
  case False
  with assms(1-3) obtain x where x: "getPromptQueueRow ld (the (cl_queueItemId l)) = Some x" "\<not> queue_terminal (pq_status x)"
    and ld': "ld' = ld\<lparr>pl_queue := put_row pq_queueItemId (recovered_item rs reason t x) (pl_queue ld)\<rparr>"
    by (auto simp: complete_source_Inr claim_src_def source_live_def split: option.splits)
  have "recovered_item rs reason t x = x\<lparr>pq_recoveryClaimId := pq_recoveryClaimId x, pq_recoveryStatus := Some rs, pq_recoveryReason := Some reason,
      pq_recoveryRunId := pq_recoveryRunId x, pq_recoveredAt := Some t, pq_updatedAt := max (pq_updatedAt x) t\<rparr>"
    by (simp add: recovered_item_def)
  from item_recovered_later [OF this] x have "prompt_later x (recovered_item rs reason t x)" by simp
  moreover have "pq_queueItemId (recovered_item rs reason t x) = pq_queueItemId x" by (simp add: recovered_item_def)
  ultimately show ?thesis using assms(4) x(1) row_of_self [OF x(1)] by (auto simp: ld' row_of_put)
qed

text \<open>How the two operations on claims reach the source.\<close>

lemma acquire_source:
  assumes "acquireRuntimeRecoveryClaim sha uuid now runId key b i t ld = Inr ((acquired, l), ld')"
  shows "if acquired
    then \<exists>i c t ld2. source_claimable sha c (ld\<lparr>rl_claims := rl_claims ld @ [l]\<rparr>) = Inr ()
      \<and> claim_source i c t (ld\<lparr>rl_claims := rl_claims ld @ [l]\<rparr>) = Inr ld2 \<and> ld' = ld2\<lparr>rl_candidates := rl_candidates ld'\<rparr>
    else ld' = ld\<lparr>rl_candidates := rl_candidates ld'\<rparr>"
proof (cases acquired)
  case True
  from acquire_effect [OF assms] True obtain i c t where k: "take_claim sha (new_claim i (trim b) c t) c ld = Inr ((True, l), ld')" by auto
  then have "source_claimable sha c ld = Inr ()" by (simp add: take_claim_Inr)
  then have "source_claimable sha c (ld\<lparr>rl_claims := rl_claims ld @ [l]\<rparr>) = Inr ()"
    by (auto simp: source_claimable_Inr split: if_splits)
  with k True show ?thesis by (fastforce simp: take_claim_Inr)
next
  case False
  with acquire_effect [OF assms] show ?thesis by (auto simp: yield_claim_Inr split: if_splits)
qed

lemma completion_source:
  assumes "completeRuntimeRecoveryClaim sha now inp ld = Inr ((l', c'), ld')" "recovery_ok sha ld" "ld' \<noteq> ld"
  shows "\<exists>l rs reason t s. complete_source sha l rs reason t (ld\<lparr>rl_claims := rl_claims ld', rl_candidates := rl_candidates ld'\<rparr>) = Inr ld'
    \<and> claim_src l = Some s \<and> source_live ld s"
proof -
  from complete_claim_effect [OF assms(1)] assms(3) obtain l c t res where row: "getRecoveryClaimByIdRow ld (trim (lo_claimId inp)) = Some l"
      "getRecoveryCandidateRow ld (cl_recoveryRunId l) (cl_candidateKey l) = Some c"
    and fin: "finish_claim sha (lo_applied inp) t res l c ld = Inr ((l', c'), ld')" by blast
  have "claim_ok ld l" using assms(2) row_of_key [OF row(1)] by (auto simp: recovery_ok_def recovery_tables_ok_def)
  with row(2) obtain s where "claim_src l = Some s" "source_live ld s" by (auto simp: claim_ok_def claim_held_def)
  moreover from finish_claim_Inr [OF fin] have src: "complete_source sha l (if lo_applied inp then decision_name (cn_decision c) else ''action_failed'')
      (cn_reasonCode c) t (ld\<lparr>rl_claims := put_row cl_claimId l' (rl_claims ld), rl_candidates := put_row candidate_id c' (rl_candidates ld)\<rparr>) = Inr ld'"
    by blast
  note tab = complete_source_tables [OF src]
  from src have "complete_source sha l (if lo_applied inp then decision_name (cn_decision c) else ''action_failed'')
      (cn_reasonCode c) t (ld\<lparr>rl_claims := rl_claims ld', rl_candidates := rl_candidates ld'\<rparr>) = Inr ld'"
    by (simp only: tab) simp
  ultimately show ?thesis by blast
qed

lemma step_prompt:
  assumes "recovery_step sha256 sha ld ld'" "recovery_ok sha ld" "getPromptQueueRow ld k = Some q"
  shows "\<exists>q'. getPromptQueueRow ld' k = Some q' \<and> prompt_later q q'"
  using assms
proof (induction rule: recovery_step.induct)
  case (rs_ledger ld ld')
  from ledger_step_owners [OF rs_ledger(1)] have e: "ld' = ld\<lparr>ld_boots := ld_boots ld', ld_attempts := ld_attempts ld'\<rparr>"
    by (simp add: owners_moved_def)
  have "pl_queue ld' = pl_queue ld" by (subst e) simp
  with rs_ledger(3) show ?case by simp
next
  case (rs_enqueue uuid now ei ld r ld')
  obtain created x where r: "r = (created, x)" by (cases r)
  have "pl_queue ld' = pl_queue ld \<or> pl_queue ld' = pl_queue ld @ [x]"
    using enqueue_effect [OF rs_enqueue(1) [unfolded r]] by (auto split: if_splits)
  with rs_enqueue(3) show ?case by (auto simp: row_of_append)
next
  case (rs_transition now qc ld r ld')
  obtain applied x where r: "r = (applied, x)" by (cases r)
  note e = cas_effect [OF rs_transition(1) [unfolded r]]
  show ?case
  proof (cases applied)
    case True
    with e obtain c where c: "getPromptQueueRow ld (trim (qc_queueItemId qc)) = Some c" "queue_moved ld c x"
      and ld': "ld' = ld\<lparr>pl_queue := put_row pq_queueItemId x (pl_queue ld)\<rparr>" by auto
    have "pq_queueItemId x = pq_queueItemId c" using c(2) by (simp add: queue_moved_def queue_identity_def)
    with rs_transition(3) row_of_self [OF c(1)] queue_moved_later [OF c(2)] show ?thesis by (auto simp: ld' row_of_put)
  qed (use e rs_transition(3) in simp)
next
  case (rs_create_run uuid now i mode b t md ld run ld')
  with create_run_effect [OF rs_create_run(1)] show ?case by auto
next
  case (rs_complete_run now ro ld run ld')
  with complete_run_effect [OF rs_complete_run(1)] show ?case by auto
next
  case (rs_record now ki ld c ld')
  with record_candidate_effect [OF rs_record(1)] show ?case by auto
next
  case (rs_acquire uuid now runId key b i t ld r ld')
  obtain acquired l where r: "r = (acquired, l)" by (cases r)
  show ?case
  proof (cases acquired)
    case True
    with acquire_source [OF rs_acquire(1) [unfolded r]] obtain i c t ld2 where
      s: "source_claimable sha c (ld\<lparr>rl_claims := rl_claims ld @ [l]\<rparr>) = Inr ()"
        "claim_source i c t (ld\<lparr>rl_claims := rl_claims ld @ [l]\<rparr>) = Inr ld2" and e: "ld' = ld2\<lparr>rl_candidates := rl_candidates ld'\<rparr>"
      by auto
    have "pl_queue ld' = pl_queue ld2" by (subst e) simp
    with claim_source_prompt [OF s(2,1)] rs_acquire(3) show ?thesis by simp
  next
    case False
    with acquire_source [OF rs_acquire(1) [unfolded r]] have e: "ld' = ld\<lparr>rl_candidates := rl_candidates ld'\<rparr>" by simp
    have "pl_queue ld' = pl_queue ld" by (subst e) simp
    with rs_acquire(3) show ?thesis by simp
  qed
next
  case (rs_complete_claim now lo ld p ld')
  obtain l' c' where p: "p = (l', c')" by (cases p)
  show ?case
  proof (cases "ld' = ld")
    case False
    from completion_source [OF rs_complete_claim(1) [unfolded p] rs_complete_claim(2) False] obtain l rs reason t s where
      src: "complete_source sha l rs reason t (ld\<lparr>rl_claims := rl_claims ld', rl_candidates := rl_candidates ld'\<rparr>) = Inr ld'"
        "claim_src l = Some s" "source_live ld s" by blast
    from complete_source_prompt [OF src(1,2)] src(3) rs_complete_claim(3) show ?thesis by simp
  qed (use rs_complete_claim in auto)
qed

section \<open>What a step does to an attempt\<close>

text \<open>A claimed attempt is frozen: only the outcome of its recovery is written.\<close>

definition attempt_later :: "attempt_row \<Rightarrow> attempt_row \<Rightarrow> bool" where
  "attempt_later a a' \<longleftrightarrow> attempt_le a a' \<and> (ta_recoveryClaimId a \<noteq> None \<longrightarrow>
     a' = a\<lparr>ta_recoveryStatus := ta_recoveryStatus a', ta_recoveryReason := ta_recoveryReason a', ta_recoveredAt := ta_recoveredAt a',
            ta_updatedAt := ta_updatedAt a'\<rparr>)"

lemma attempt_later_refl [simp]: "attempt_later a a"
  by (simp add: attempt_later_def)

lemma attempt_later_trans:
  assumes "attempt_later a b" "attempt_later b c" shows "attempt_later a c"
proof -
  have "c = a\<lparr>ta_recoveryStatus := ta_recoveryStatus c, ta_recoveryReason := ta_recoveryReason c, ta_recoveredAt := ta_recoveredAt c,
            ta_updatedAt := ta_updatedAt c\<rparr>" if a: "ta_recoveryClaimId a \<noteq> None"
  proof -
    obtain u v w x where b: "b = a\<lparr>ta_recoveryStatus := u, ta_recoveryReason := v, ta_recoveredAt := w, ta_updatedAt := x\<rparr>"
      using assms(1) a unfolding attempt_later_def by blast
    with a have "ta_recoveryClaimId b \<noteq> None" by simp
    with assms(2) obtain u' v' w' x' where
      "c = b\<lparr>ta_recoveryStatus := u', ta_recoveryReason := v', ta_recoveredAt := w', ta_updatedAt := x'\<rparr>"
      unfolding attempt_later_def by blast
    with b show ?thesis by simp
  qed
  moreover have "attempt_le a c" using assms by (auto simp: attempt_later_def intro: attempt_le_trans)
  ultimately show ?thesis by (simp add: attempt_later_def)
qed

lemma owner_kept_later: "attempt_le a a' \<Longrightarrow> owner_kept a a' \<Longrightarrow> attempt_later a a'"
  by (auto simp: attempt_later_def owner_kept_def)

lemma put_attempt_row:
  assumes "getTurnAttemptRow ld k = Some a" "getTurnAttemptRow ld j = Some x" "ta_attemptId x' = ta_attemptId x" "attempt_later x x'"
    "ld_attempts ld' = put_row ta_attemptId x' (ld_attempts ld)"
  shows "\<exists>a'. getTurnAttemptRow ld' k = Some a' \<and> attempt_later a a'"
  using assms row_of_self [OF assms(2)] by (auto simp: row_of_put)

lemma claim_source_attempt:
  assumes "claim_source i c t ld = Inr ld'" "source_claimable sha c ld = Inr ()" "getTurnAttemptRow ld k = Some a"
  shows "\<exists>a'. getTurnAttemptRow ld' k = Some a' \<and> attempt_later a a'"
proof (cases "cn_candidateType c = CandTurnAttempt")
  case True
  with assms(1,2) obtain x where x: "getTurnAttemptRow ld (the (cn_attemptId c)) = Some x" "ta_status x = Running"
      "ta_recoveryClaimId x = None" and ld': "ld' = ld\<lparr>ld_attempts := put_row ta_attemptId (claimed_attempt i c t x) (ld_attempts ld)\<rparr>"
    by (auto simp: claim_source_Inr source_claimable_Inr)
  have "attempt_later x (claimed_attempt i c t x)"
    using x(2,3) by (simp add: attempt_later_def attempt_le_def claimed_attempt_def hasRuntimeTurnAttemptInputMutation_def)
  with assms(3) x(1) show ?thesis by (rule_tac put_attempt_row) (auto simp: ld' claimed_attempt_def)
next
  case False
  with assms(1) have "ld_attempts ld' = ld_attempts ld" by (auto simp: claim_source_Inr)
  with assms(3) show ?thesis by simp
qed

lemma complete_source_attempt:
  assumes "complete_source sha l rs reason t ld = Inr ld'" "claim_src l = Some s" "source_live ld s" "getTurnAttemptRow ld k = Some a"
  shows "\<exists>a'. getTurnAttemptRow ld' k = Some a' \<and> attempt_later a a'"
proof (cases "cl_candidateType l = CandTurnAttempt")
  case True
  with assms(1-3) obtain x where x: "getTurnAttemptRow ld (the (cl_attemptId l)) = Some x" "ta_status x = Running"
    and ld': "ld' = ld\<lparr>ld_attempts := put_row ta_attemptId (recovered_attempt rs reason t x) (ld_attempts ld)\<rparr>"
    by (auto simp: complete_source_Inr claim_src_def source_live_def split: option.splits)
  have "attempt_later x (recovered_attempt rs reason t x)"
    using x(2) by (simp add: attempt_later_def attempt_le_def recovered_attempt_def hasRuntimeTurnAttemptInputMutation_def)
  with assms(4) x(1) show ?thesis by (rule_tac put_attempt_row) (auto simp: ld' recovered_attempt_def)
next
  case False
  with assms(1) have "ld_attempts ld' = ld_attempts ld" by (auto simp: complete_source_Inr)
  with assms(4) show ?thesis by simp
qed

lemma step_attempt:
  assumes "recovery_step sha256 sha ld ld'" "recovery_ok sha ld" "getTurnAttemptRow ld k = Some a"
  shows "\<exists>a'. getTurnAttemptRow ld' k = Some a' \<and> attempt_later a a'"
  using assms
proof (induction rule: recovery_step.induct)
  case (rs_ledger ld ld')
  with ledger_step_owners [OF rs_ledger(1)] show ?case unfolding owners_moved_def by (blast intro: owner_kept_later)
next
  case (rs_enqueue uuid now ei ld r ld')
  obtain created x where r: "r = (created, x)" by (cases r)
  have "ld_attempts ld' = ld_attempts ld" using enqueue_effect [OF rs_enqueue(1) [unfolded r]] by (auto split: if_splits)
  with rs_enqueue(3) show ?case by simp
next
  case (rs_transition now qc ld r ld')
  obtain applied x where r: "r = (applied, x)" by (cases r)
  have "ld_attempts ld' = ld_attempts ld" using cas_effect [OF rs_transition(1) [unfolded r]] by (auto split: if_splits)
  with rs_transition(3) show ?case by simp
next
  case (rs_create_run uuid now i mode b t md ld run ld')
  with create_run_effect [OF rs_create_run(1)] show ?case by auto
next
  case (rs_complete_run now ro ld run ld')
  with complete_run_effect [OF rs_complete_run(1)] show ?case by auto
next
  case (rs_record now ki ld c ld')
  with record_candidate_effect [OF rs_record(1)] show ?case by auto
next
  case (rs_acquire uuid now runId key b i t ld r ld')
  obtain acquired l where r: "r = (acquired, l)" by (cases r)
  show ?case
  proof (cases acquired)
    case True
    with acquire_source [OF rs_acquire(1) [unfolded r]] obtain i c t ld2 where
      s: "source_claimable sha c (ld\<lparr>rl_claims := rl_claims ld @ [l]\<rparr>) = Inr ()"
        "claim_source i c t (ld\<lparr>rl_claims := rl_claims ld @ [l]\<rparr>) = Inr ld2" and e: "ld' = ld2\<lparr>rl_candidates := rl_candidates ld'\<rparr>"
      by auto
    have "ld_attempts ld' = ld_attempts ld2" by (subst e) simp
    with claim_source_attempt [OF s(2,1)] rs_acquire(3) show ?thesis by simp
  next
    case False
    with acquire_source [OF rs_acquire(1) [unfolded r]] have e: "ld' = ld\<lparr>rl_candidates := rl_candidates ld'\<rparr>" by simp
    have "ld_attempts ld' = ld_attempts ld" by (subst e) simp
    with rs_acquire(3) show ?thesis by simp
  qed
next
  case (rs_complete_claim now lo ld p ld')
  obtain l' c' where p: "p = (l', c')" by (cases p)
  show ?case
  proof (cases "ld' = ld")
    case False
    from completion_source [OF rs_complete_claim(1) [unfolded p] rs_complete_claim(2) False] obtain l rs reason t s where
      src: "complete_source sha l rs reason t (ld\<lparr>rl_claims := rl_claims ld', rl_candidates := rl_candidates ld'\<rparr>) = Inr ld'"
        "claim_src l = Some s" "source_live ld s" by blast
    from complete_source_attempt [OF src(1,2)] src(3) rs_complete_claim(3) show ?thesis by simp
  qed (use rs_complete_claim in auto)
qed

section \<open>What a step does to runs, candidates and claims\<close>

definition run_later :: "recovery_run \<Rightarrow> recovery_run \<Rightarrow> bool" where
  "run_later r r' \<longleftrightarrow> rn_mode r' = rn_mode r \<and> rn_bootEpoch r' = rn_bootEpoch r \<and> (rn_status r \<noteq> RunRunning \<longrightarrow> r' = r)"

definition candidate_later :: "recovery_candidate \<Rightarrow> recovery_candidate \<Rightarrow> bool" where
  "candidate_later c c' \<longleftrightarrow> candidate_id c' = candidate_id c \<and> same_candidate_data c c'
     \<and> (cn_actionStatus c \<notin> {ActPending, ActClaimed} \<longrightarrow> c' = c)"

definition claim_later :: "recovery_claim \<Rightarrow> recovery_claim \<Rightarrow> bool" where
  "claim_later l l' \<longleftrightarrow> claim_base l' = claim_base l \<and> (cl_status l \<noteq> ClaimClaimed \<longrightarrow> l' = l)"

definition run_candidates :: "('a) recovery_ledger_scheme \<Rightarrow> string \<Rightarrow> recovery_candidate list" where
  "run_candidates ld k = filter (\<lambda>c. cn_recoveryRunId c = k) (rl_candidates ld)"

definition tables_moved :: "('a) recovery_ledger_scheme \<Rightarrow> ('a) recovery_ledger_scheme \<Rightarrow> bool" where
  "tables_moved ld ld' \<longleftrightarrow>
     (\<forall>k r. getRecoveryRunRow ld k = Some r \<longrightarrow> (\<exists>r'. getRecoveryRunRow ld' k = Some r' \<and> run_later r r'))
     \<and> (\<forall>n k c. getRecoveryCandidateRow ld n k = Some c \<longrightarrow> (\<exists>c'. getRecoveryCandidateRow ld' n k = Some c' \<and> candidate_later c c'))
     \<and> (\<forall>i l. getRecoveryClaimByIdRow ld i = Some l \<longrightarrow> (\<exists>l'. getRecoveryClaimByIdRow ld' i = Some l' \<and> claim_later l l'))
     \<and> (\<forall>k r. getRecoveryRunRow ld k = Some r \<longrightarrow> rn_status r \<noteq> RunRunning \<longrightarrow> run_candidates ld' k = run_candidates ld k)"

lemma later_refl [simp]: "run_later r r" "candidate_later c c" "claim_later l l"
  by (simp_all add: run_later_def candidate_later_def claim_later_def same_candidate_data_def)

lemma tables_same: "rl_runs ld' = rl_runs ld \<Longrightarrow> rl_candidates ld' = rl_candidates ld \<Longrightarrow> rl_claims ld' = rl_claims ld \<Longrightarrow> tables_moved ld ld'"
  by (simp add: tables_moved_def run_candidates_def)

lemma put_row_filter: "(\<And>x. key x = key r \<Longrightarrow> \<not> P x) \<Longrightarrow> filter P (put_row key r rows) = filter P rows"
  by (induction rows) (auto simp: put_row_def)

text \<open>A write of one candidate of a running run, and of the claim that goes with it.\<close>

lemma candidate_written:
  assumes "getRecoveryCandidateRow ld n k = Some c" "getRecoveryRunRow ld n = Some r" "rn_status r = RunRunning" "candidate_later c c'"
    "rl_runs ld' = rl_runs ld" "rl_candidates ld' = put_row candidate_id c' (rl_candidates ld)"
    "\<And>i l. getRecoveryClaimByIdRow ld i = Some l \<Longrightarrow> \<exists>l'. getRecoveryClaimByIdRow ld' i = Some l' \<and> claim_later l l'"
  shows "tables_moved ld ld'"
proof -
  have id: "candidate_id c' = candidate_id c" "candidate_id c = (n, k)"
    using assms(4) row_of_key [OF assms(1)] by (simp_all add: candidate_later_def)
  have "\<exists>y'. getRecoveryCandidateRow ld' n' k' = Some y' \<and> candidate_later y y'" if "getRecoveryCandidateRow ld n' k' = Some y" for n' k' y
    using that assms(1,4) id by (auto simp: assms(6) row_of_put)
  moreover have "run_candidates ld' n' = run_candidates ld n'" if "n' \<noteq> n" for n'
    unfolding run_candidates_def assms(6) by (rule put_row_filter) (use id that in \<open>auto simp: candidate_id_def\<close>)
  moreover have "k' \<noteq> n" if "getRecoveryRunRow ld k' = Some r'" "rn_status r' \<noteq> RunRunning" for k' r'
    using that assms(2,3) by auto
  ultimately show ?thesis using assms(7) unfolding tables_moved_def by (simp add: assms(5))
qed

lemma acquire_moved:
  assumes "acquireRuntimeRecoveryClaim sha uuid now runId key b i t ld = Inr ((acquired, l), ld')"
  shows "tables_moved ld ld'"
proof -
  from acquire_effect [OF assms] obtain c t where ready: "claim_ready ld (trim runId) (trim key) (trim b) c"
    and how: "if acquired then (\<exists>i. take_claim sha (new_claim i (trim b) c t) c ld = Inr ((True, l), ld'))
       else (\<exists>e. yield_claim e c t ld = Inr ((False, l), ld'))" by (cases acquired) auto
  from ready obtain r where r: "getRecoveryCandidateRow ld (trim runId) (trim key) = Some c" "getRecoveryRunRow ld (trim runId) = Some r"
      "rn_status r = RunRunning" by (auto simp: claim_ready_def)
  show ?thesis
  proof (cases acquired)
    case True
    with how obtain i ld2 where k: "cn_actionStatus c = ActPending" "claim_source i c t (ld\<lparr>rl_claims := rl_claims ld @ [l]\<rparr>) = Inr ld2"
      and ld': "ld' = ld2\<lparr>rl_candidates := put_row candidate_id (claimed_candidate l c) (rl_candidates ld2)\<rparr>"
      by (auto simp: take_claim_Inr new_claim_def)
    have "candidate_later c (claimed_candidate l c)"
      using k(1) by (simp add: candidate_later_def same_candidate_data_def claimed_candidate_def candidate_id_def)
    from candidate_written [OF r this] claim_source_tables [OF k(2)] show ?thesis by (auto simp: ld' row_of_append)
  next
    case False
    with how consider "ld' = ld" | e where "cn_actionStatus c = ActPending"
        "ld' = ld\<lparr>rl_candidates := put_row candidate_id (beaten_candidate e t c) (rl_candidates ld)\<rparr>"
      by (auto simp: yield_claim_Inr split: if_splits)
    then show ?thesis
    proof cases
      case 2
      have "candidate_later c (beaten_candidate e t c)"
        using 2(1) by (simp add: candidate_later_def same_candidate_data_def beaten_candidate_def candidate_id_def)
      from candidate_written [OF r this] 2(2) show ?thesis by auto
    qed (simp add: tables_same)
  qed
qed

lemma completion_moved:
  assumes "completeRuntimeRecoveryClaim sha now inp ld = Inr ((l', c'), ld')" "recovery_ok sha ld"
  shows "tables_moved ld ld'"
proof (cases "ld' = ld")
  case False
  with complete_claim_effect [OF assms(1)] obtain l c t res where row: "getRecoveryClaimByIdRow ld (trim (lo_claimId inp)) = Some l"
      "getRecoveryCandidateRow ld (cl_recoveryRunId l) (cl_candidateKey l) = Some c"
    and fin: "finish_claim sha (lo_applied inp) t res l c ld = Inr ((l', c'), ld')" by blast
  from finish_claim_Inr [OF fin] obtain r where f: "l' = finished_claim (lo_applied inp) t res l" "c' = finished_candidate (lo_applied inp) t res c"
      "cl_status l = ClaimClaimed" "cn_actionStatus c = ActClaimed" "getRecoveryRunRow ld (cl_recoveryRunId l) = Some r" "rn_status r = RunRunning"
    by blast
  have "claim_ok ld l" using assms(2) row_of_key [OF row(1)] by (auto simp: recovery_ok_def recovery_tables_ok_def)
  from finish_effect [OF fin this row(2)] have tab: "rl_runs ld' = rl_runs ld" "rl_claims ld' = put_row cl_claimId l' (rl_claims ld)"
      "rl_candidates ld' = put_row candidate_id c' (rl_candidates ld)" unfolding claim_finished_def by blast+
  have "candidate_later c c'" using f(4)
    by (simp add: f(2) candidate_later_def same_candidate_data_def) (simp add: finished_candidate_def)
  moreover have "claim_later l l'" using f(3) by (simp add: f(1) claim_later_def)
  ultimately show ?thesis
    by (rule_tac candidate_written [OF row(2) f(5,6) _ tab(1,3)]) (use row(1) row_of_self [OF row(1)] f(1) in \<open>auto simp: tab(2) row_of_put\<close>)
qed (simp add: tables_same)

lemma step_tables:
  assumes "recovery_step sha256 sha ld ld'" "recovery_ok sha ld" shows "tables_moved ld ld'"
  using assms
proof (induction rule: recovery_step.induct)
  case (rs_ledger ld ld')
  from owners_moved_sources [OF ledger_step_owners [OF rs_ledger(1)]] show ?case by (simp add: sources_moved_def tables_same)
next
  case (rs_enqueue uuid now ei ld r ld')
  then show ?case by (cases r) (auto dest!: enqueue_sources simp: sources_moved_def tables_same)
next
  case (rs_transition now qc ld r ld')
  then show ?case by (cases r) (auto dest!: cas_sources simp: sources_moved_def tables_same)
next
  case (rs_create_run uuid now i mode b t md ld run ld')
  from create_run_effect [OF rs_create_run(1)] show ?case
    by (auto simp: tables_moved_def run_candidates_def row_of_append)
next
  case (rs_complete_run now ro ld run ld')
  from complete_run_effect [OF rs_complete_run(1)] show ?case
    by (auto simp: tables_moved_def run_candidates_def row_of_put run_later_def)
next
  case (rs_record now ki ld c ld')
  from record_candidate_effect [OF rs_record(1)] show ?case
    by (auto simp: tables_moved_def run_candidates_def row_of_append)
next
  case (rs_acquire uuid now runId key b i t ld r ld')
  then show ?case by (cases r) (auto dest: acquire_moved)
next
  case (rs_complete_claim now lo ld p ld')
  then show ?case by (cases p) (auto dest: completion_moved)
qed

end
