(* ===== verification/RecoveryGuarantees.thy ===== *)
theory RecoveryGuarantees
  imports RecoverySafety
begin

text \<open>
  The guarantees of the crash-recovery ledger over its whole history: what every reachable ledger looks
  like, what a prompt, an attempt, a run, a candidate and a claim keep from one ledger to any later one,
  and which operations have their effect only once. A concrete history, from a boot to a completed
  recovery run, shows that the hypotheses can hold.
\<close>

section \<open>Histories\<close>

lemma run_prompt:
  assumes "recovery_run_steps sha256 sha ld ld'" "recovery_ok sha ld" "getPromptQueueRow ld k = Some q"
  shows "\<exists>q'. getPromptQueueRow ld' k = Some q' \<and> prompt_later q q'"
  using assms
proof (induction rule: rtranclp_induct)
  case (step y z)
  then obtain x where "getPromptQueueRow y k = Some x" "prompt_later q x" by blast
  with step_prompt [OF step(2) recovery_run_ok [OF step(1,4)]] show ?case by (blast intro: prompt_later_trans)
qed simp

lemma run_attempt:
  assumes "recovery_run_steps sha256 sha ld ld'" "recovery_ok sha ld" "getTurnAttemptRow ld k = Some a"
  shows "\<exists>a'. getTurnAttemptRow ld' k = Some a' \<and> attempt_later a a'"
  using assms
proof (induction rule: rtranclp_induct)
  case (step y z)
  then obtain x where "getTurnAttemptRow y k = Some x" "attempt_later a x" by blast
  with step_attempt [OF step(2) recovery_run_ok [OF step(1,4)]] show ?case by (blast intro: attempt_later_trans)
qed simp

lemma later_trans:
  "run_later r s \<Longrightarrow> run_later s t \<Longrightarrow> run_later r t" "candidate_later c d \<Longrightarrow> candidate_later d e \<Longrightarrow> candidate_later c e"
  "claim_later l m \<Longrightarrow> claim_later m n \<Longrightarrow> claim_later l n"
  by (auto simp: run_later_def candidate_later_def same_candidate_data_def claim_later_def)

lemma tables_moved_trans:
  assumes "tables_moved a b" "tables_moved b c" shows "tables_moved a c"
  unfolding tables_moved_def
proof (intro conjI allI impI)
  fix k r assume r: "getRecoveryRunRow a k = Some r"
  with assms(1) obtain s where s: "getRecoveryRunRow b k = Some s" "run_later r s" unfolding tables_moved_def by blast
  with assms(2) obtain t where "getRecoveryRunRow c k = Some t" "run_later s t" unfolding tables_moved_def by blast
  with s show "\<exists>t. getRecoveryRunRow c k = Some t \<and> run_later r t" by (blast intro: later_trans)
  assume "rn_status r \<noteq> RunRunning"
  with assms r s show "run_candidates c k = run_candidates a k" by (simp add: tables_moved_def run_later_def)
next
  fix n k x assume "getRecoveryCandidateRow a n k = Some x"
  with assms(1) obtain y where y: "getRecoveryCandidateRow b n k = Some y" "candidate_later x y" unfolding tables_moved_def by blast
  with assms(2) obtain z where "getRecoveryCandidateRow c n k = Some z" "candidate_later y z" unfolding tables_moved_def by blast
  with y show "\<exists>z. getRecoveryCandidateRow c n k = Some z \<and> candidate_later x z" by (blast intro: later_trans)
next
  fix i x assume "getRecoveryClaimByIdRow a i = Some x"
  with assms(1) obtain y where y: "getRecoveryClaimByIdRow b i = Some y" "claim_later x y" unfolding tables_moved_def by blast
  with assms(2) obtain z where "getRecoveryClaimByIdRow c i = Some z" "claim_later y z" unfolding tables_moved_def by blast
  with y show "\<exists>z. getRecoveryClaimByIdRow c i = Some z \<and> claim_later x z" by (blast intro: later_trans)
qed

lemma run_tables:
  assumes "recovery_run_steps sha256 sha ld ld'" "recovery_ok sha ld" shows "tables_moved ld ld'"
  using assms
proof (induction rule: rtranclp_induct)
  case (step y z)
  with step_tables [OF step(2) recovery_run_ok [OF step(1,4)]] show ?case by (blast intro: tables_moved_trans)
qed (simp add: tables_same)

section \<open>A concrete history\<close>

text \<open>A boot with an attempt; a prompt delivered to it and one that waits; and a recovery run that claims the attempt.\<close>

definition demo_hash :: "json \<Rightarrow> string" where
  "demo_hash v = ''h''"

definition demo_enqueue :: "string \<Rightarrow> string \<Rightarrow> enqueue_input" where
  "demo_enqueue k d = \<lparr>ei_queueItemId = Some k, ei_dedupeKey = d, ei_sessionKey = ''s'', ei_sessionName = None, ei_agentId = None,
     ei_laneKey = AfterResponse, ei_bootEpoch = None, ei_originKind = CHuman, ei_deliveryBarrier = AfterResponse,
     ei_taskBarrierTaskId = None, ei_pendingId = None, ei_prompt = Some (JStr ''p''), ei_runtimeMessage = Some (JStr ''m''),
     ei_queuedAt = Some 13, ei_metadata = None\<rparr>"

definition demo_cas :: "queue_status \<Rightarrow> queue_status \<Rightarrow> queue_cas" where
  "demo_cas from_s to_s = \<lparr>qc_queueItemId = ''q'', qc_expectedStatus = [from_s], qc_expectedBootEpoch = Some (Some ''b''),
     qc_expectedLeaseOwner = Some (Some ''w''), qc_expectedLeaseExpiresAt = Some (Some 30), qc_status = to_s,
     qc_bootEpoch = Some (Some ''b''), qc_leaseOwner = Some (Some ''w''), qc_leaseExpiresAt = Some (Some 30),
     qc_deliveredAttemptId = (if to_s = QDelivered then Some (Some ''a'') else None),
     qc_deliveredTurnId = (if to_s = QDelivered then Some (Some ''t'') else None),
     qc_completedAt = None, qc_updatedAt = Some 15\<rparr>"

definition demo_candidate :: candidate_input where
  "demo_candidate = \<lparr>ki_recoveryRunId = ''r'', ki_candidateKey = None, ki_candidateType = CandTurnAttempt, ki_sessionKey = ''s'',
     ki_sessionName = None, ki_attemptId = Some ''a'', ki_turnId = None, ki_queueItemId = None, ki_decision = DecReconcileInterrupted,
     ki_reasonCode = ''c'', ki_action = ''x'', ki_details = None, ki_recordedAt = Some 17\<rparr>"

definition demo_outcome :: claim_outcome where
  "demo_outcome = \<lparr>lo_claimId = ''l'', lo_applied = True, lo_result = [], lo_completedAt = Some 19\<rparr>"

definition demo_run_outcome :: run_outcome where
  "demo_run_outcome = \<lparr>ro_recoveryRunId = ''r'', ro_failed = False, ro_summary = None, ro_error = None, ro_completedAt = Some 20\<rparr>"

definition after :: "'l \<Rightarrow> ('l \<Rightarrow> 'e + 'r \<times> 'l) \<Rightarrow> 'l" where
  "after ld f = (case f ld of Inl _ \<Rightarrow> ld | Inr p \<Rightarrow> snd p)"

lemma after_run: "(\<And>x ld'. f ld = Inr (x, ld') \<Longrightarrow> recovery_step sha256 sha ld ld') \<Longrightarrow> recovery_run_steps sha256 sha ld (after ld f)"
  by (auto simp: after_def split: sum.splits)

definition demo_r1 :: recovery_ledger where
  "demo_r1 = after empty_recovery_ledger (createRuntimeBootEpoch ''u'' 10 demo_boot)"

definition demo_r2 :: recovery_ledger where
  "demo_r2 = after demo_r1 (createRuntimeTurnAttempt ''u'' 12 demo_attempt)"

definition demo_r3 :: recovery_ledger where
  "demo_r3 = after demo_r2 (enqueueRuntimePrompt demo_hash ''u'' 13 (demo_enqueue ''q'' ''d''))"

definition demo_r4 :: recovery_ledger where
  "demo_r4 = after demo_r3 (compareAndSetRuntimePromptQueueStatus demo_hash 15 (demo_cas QQueued QLeased))"

definition demo_r5 :: recovery_ledger where
  "demo_r5 = after demo_r4 (compareAndSetRuntimePromptQueueStatus demo_hash 15 (demo_cas QLeased QStarting))"

definition demo_r6 :: recovery_ledger where
  "demo_r6 = after demo_r5 (compareAndSetRuntimePromptQueueStatus demo_hash 15 (demo_cas QStarting QDelivered))"

definition demo_r7 :: recovery_ledger where
  "demo_r7 = after demo_r6 (createRuntimeRecoveryRun ''u'' 16 (Some ''r'') ModeApply (Some ''b'') None None)"

definition demo_r8 :: recovery_ledger where
  "demo_r8 = after demo_r7 (recordRuntimeRecoveryCandidate (\<lambda>s. s) demo_hash 17 demo_candidate)"

definition demo_r9 :: recovery_ledger where
  "demo_r9 = after demo_r8 (acquireRuntimeRecoveryClaim demo_hash ''u'' 18 ''r'' ''attempt:a'' ''b'' (Some ''l'') None)"

definition demo_r10 :: recovery_ledger where
  "demo_r10 = after demo_r9 (completeRuntimeRecoveryClaim demo_hash 19 demo_outcome)"

definition demo_r11 :: recovery_ledger where
  "demo_r11 = after demo_r10 (completeRuntimeRecoveryRun 20 demo_run_outcome)"
lemma demo_runs:
  "recovery_run_steps (\<lambda>s. s) demo_hash empty_recovery_ledger demo_r1" "recovery_run_steps (\<lambda>s. s) demo_hash demo_r1 demo_r2"
  "recovery_run_steps (\<lambda>s. s) demo_hash demo_r2 demo_r3" "recovery_run_steps (\<lambda>s. s) demo_hash demo_r3 demo_r4"
  "recovery_run_steps (\<lambda>s. s) demo_hash demo_r4 demo_r5" "recovery_run_steps (\<lambda>s. s) demo_hash demo_r5 demo_r6"
  "recovery_run_steps (\<lambda>s. s) demo_hash demo_r6 demo_r7" "recovery_run_steps (\<lambda>s. s) demo_hash demo_r7 demo_r8"
  "recovery_run_steps (\<lambda>s. s) demo_hash demo_r8 demo_r9" "recovery_run_steps (\<lambda>s. s) demo_hash demo_r9 demo_r10"
  "recovery_run_steps (\<lambda>s. s) demo_hash demo_r10 demo_r11"
  by (simp_all only: demo_r1_def demo_r2_def demo_r3_def demo_r4_def demo_r5_def demo_r6_def demo_r7_def demo_r8_def demo_r9_def
      demo_r10_def demo_r11_def) (rule after_run, erule recovery_step.intros ledger_step.intros [THEN rs_ledger])+

lemma demo_reach6: "recovery_run_steps (\<lambda>s. s) demo_hash empty_recovery_ledger demo_r6"
  using demo_runs(1-6) by (meson rtranclp_trans)

lemma demo_reach9: "recovery_run_steps (\<lambda>s. s) demo_hash empty_recovery_ledger demo_r9"
  using demo_reach6 demo_runs(7-9) by (meson rtranclp_trans)
section \<open>Reachable ledgers\<close>

lemma recovery_reachable_ok: "recovery_run_steps sha256 sha empty_recovery_ledger ld \<Longrightarrow> recovery_ok sha ld"
  by (rule recovery_run_ok [OF _ empty_recovery_ok])

lemma reachable_claim:
  assumes "recovery_ok sha ld" "l \<in> set (rl_claims ld)"
  shows "claim_ok ld l" "getRecoveryClaimByIdRow ld (cl_claimId l) = Some l" "getRecoveryClaimByCandidateRow ld (cl_candidateKey l) = Some l"
  using assms by (auto simp: recovery_ok_def recovery_tables_ok_def intro: row_of_distinct)

text \<open>The claim on a source is the claim the source names, and the source is still open.\<close>

lemma reachable_source:
  assumes "recovery_ok sha ld" "source_mark ld s = Some m" "rm_claimId m = Some i"
  shows "\<exists>l\<in>set (rl_claims ld). cl_claimId l = i \<and> claim_src l = Some s \<and> source_live ld s"
proof -
  from assms obtain l where l: "getRecoveryClaimByIdRow ld i = Some l" "claim_src l = Some s"
    by (fastforce simp: recovery_ok_def recovery_tables_ok_def sources_ok_def)
  with row_of_key [OF l(1)] have i: "l \<in> set (rl_claims ld)" "cl_claimId l = i" by simp_all
  from reachable_claim(1) [OF assms(1) i(1)] l(2) have "source_live ld s" by (auto simp: claim_ok_def claim_held_def)
  with i l(2) show ?thesis by blast
qed

lemma held_source: "claim_held ld l c \<Longrightarrow> \<exists>s m. claim_src l = Some s \<and> source_mark ld s = Some m \<and> rm_claimId m = Some (cl_claimId l) \<and> source_live ld s"
  by (auto simp: claim_held_def claim_marks_def)

lemma one_claim_per_source:
  assumes "recovery_ok sha ld" "l \<in> set (rl_claims ld)" "m \<in> set (rl_claims ld)" "claim_src l = claim_src m"
  shows "l = m"
proof -
  have "\<exists>c. claim_held ld x c" if "x \<in> set (rl_claims ld)" for x
    using reachable_claim(1) [OF assms(1) that] by (auto simp: claim_ok_def)
  with held_source assms(2-4) have "cl_claimId l = cl_claimId m" by (metis option.inject)
  with reachable_claim(2) [OF assms(1)] assms(2,3) show ?thesis by (metis option.inject)
qed

text \<open>C4: In every ledger the operations can produce, a claim is exclusive and every table agrees on it: no two claims have an id, a
  candidate key or a source in common; each belongs to an apply run of the boot that claimed, to a candidate of that run in the
  matching state, and is written on its source; and an attempt or prompt that carries a claim is still open and has that claim.\<close>

theorem recovery_claims_consistent:
  assumes "recovery_run_steps sha256 sha empty_recovery_ledger ld"
  shows "distinct (map cl_claimId (rl_claims ld)) \<and> distinct (map cl_candidateKey (rl_claims ld))
    \<and> (\<forall>l\<in>set (rl_claims ld). \<forall>m\<in>set (rl_claims ld). claim_src l = claim_src m \<longrightarrow> l = m)
    \<and> (\<forall>l\<in>set (rl_claims ld).
         (\<exists>r\<in>set (rl_runs ld). rn_recoveryRunId r = cl_recoveryRunId l \<and> rn_mode r = ModeApply
            \<and> rn_bootEpoch r = Some (cl_claimedByBootEpoch l))
         \<and> (\<exists>c\<in>set (rl_candidates ld). cn_recoveryRunId c = cl_recoveryRunId l \<and> cn_candidateKey c = cl_candidateKey l
            \<and> cn_claimId c = Some (cl_claimId l) \<and> cn_actionStatus c = claim_action (cl_status l) \<and> claim_held ld l c))
    \<and> (\<forall>a\<in>set (ld_attempts ld). \<forall>i. ta_recoveryClaimId a = Some i \<longrightarrow> ta_status a = Running
         \<and> (\<exists>l\<in>set (rl_claims ld). cl_claimId l = i \<and> claim_src l = Some (Inl (ta_attemptId a))))
    \<and> (\<forall>q\<in>set (pl_queue ld). \<forall>i. pq_recoveryClaimId q = Some i \<longrightarrow> \<not> queue_terminal (pq_status q)
         \<and> (\<exists>l\<in>set (rl_claims ld). cl_claimId l = i \<and> claim_src l = Some (Inr (pq_queueItemId q))))"
proof (intro conjI ballI allI impI)
  have ok: "recovery_ok sha ld" using assms by (rule recovery_reachable_ok)
  then show "distinct (map cl_claimId (rl_claims ld))" "distinct (map cl_candidateKey (rl_claims ld))"
    by (simp_all add: recovery_ok_def recovery_tables_ok_def)
  show "l = m" if "l \<in> set (rl_claims ld)" "m \<in> set (rl_claims ld)" "claim_src l = claim_src m" for l m
    using one_claim_per_source [OF ok that] .
  show "\<exists>r\<in>set (rl_runs ld). rn_recoveryRunId r = cl_recoveryRunId l \<and> rn_mode r = ModeApply \<and> rn_bootEpoch r = Some (cl_claimedByBootEpoch l)"
    if "l \<in> set (rl_claims ld)" for l
    using reachable_claim(1) [OF ok that] by (auto simp: claim_ok_def dest: row_of_key)
  show "\<exists>c\<in>set (rl_candidates ld). cn_recoveryRunId c = cl_recoveryRunId l \<and> cn_candidateKey c = cl_candidateKey l
      \<and> cn_claimId c = Some (cl_claimId l) \<and> cn_actionStatus c = claim_action (cl_status l) \<and> claim_held ld l c"
    if "l \<in> set (rl_claims ld)" for l
  proof -
    from reachable_claim(1) [OF ok that] obtain c where c: "getRecoveryCandidateRow ld (cl_recoveryRunId l) (cl_candidateKey l) = Some c"
      "cn_claimId c = Some (cl_claimId l)" "cn_actionStatus c = claim_action (cl_status l)" "claim_held ld l c" unfolding claim_ok_def by blast
    with row_of_key [OF c(1)] show ?thesis by (auto simp: candidate_id_def)
  qed
  fix a i assume a: "a \<in> set (ld_attempts ld)" "ta_recoveryClaimId a = Some i"
  then have row: "getTurnAttemptRow ld (ta_attemptId a) = Some a" using ok by (auto simp: recovery_ok_def ledger_ok_def intro: row_of_distinct)
  from reachable_source [OF ok, of "Inl (ta_attemptId a)" "attempt_recovery a" i] row a(2)
  show "ta_status a = Running" "\<exists>l\<in>set (rl_claims ld). cl_claimId l = i \<and> claim_src l = Some (Inl (ta_attemptId a))"
    by (auto simp: source_mark_def source_live_def attempt_recovery_def)
next
  have ok: "recovery_ok sha ld" using assms by (rule recovery_reachable_ok)
  fix q i assume q: "q \<in> set (pl_queue ld)" "pq_recoveryClaimId q = Some i"
  then have row: "getPromptQueueRow ld (pq_queueItemId q) = Some q" using ok by (auto simp: recovery_ok_def prompt_ledger_ok_def intro: row_of_distinct)
  from reachable_source [OF ok, of "Inr (pq_queueItemId q)" "queue_recovery q" i] row q(2)
  show "\<exists>l\<in>set (rl_claims ld). cl_claimId l = i \<and> claim_src l = Some (Inr (pq_queueItemId q))" "\<not> queue_terminal (pq_status q)"
    by (auto simp: source_mark_def source_live_def queue_recovery_def)
qed

theorem recovery_claims_consistent_witness:
  "\<exists>l\<in>set (rl_claims demo_r9). cl_claimId l = ''l'' \<and> claim_src l = Some (Inl ''a'')"
proof -
  have "\<exists>a\<in>set (ld_attempts demo_r9). ta_attemptId a = ''a'' \<and> ta_recoveryClaimId a = Some ''l''" by code_simp
  with recovery_claims_consistent [OF demo_reach9] show ?thesis by metis
qed

text \<open>C5: A prompt in the durable queue of a reachable ledger has an id, a dedupe key and a place of its own and the content it was
  hashed with; while it is leased, starting or delivered it is leased within the lease of a known boot; once delivered it names
  an attempt of its own session, of the turn it records and of the boot that owns it; and it has a completion time exactly when
  its status is final.\<close>

theorem prompt_queue_consistent:
  assumes "recovery_run_steps sha256 sha empty_recovery_ledger ld"
  shows "distinct (map pq_queueItemId (pl_queue ld)) \<and> distinct (map pq_dedupeKey (pl_queue ld))
    \<and> sorted_wrt (<) (map pq_queueSequence (pl_queue ld))
    \<and> (\<forall>q\<in>set (pl_queue ld). pq_immutableFingerprint q = promptQueueFingerprint sha q
         \<and> (queue_terminal (pq_status q) \<longleftrightarrow> pq_completedAt q \<noteq> None)
         \<and> (owner_bound (pq_status q) \<longrightarrow> pq_leaseOwner q \<noteq> None
              \<and> (\<exists>b\<in>set (ld_boots ld). \<exists>l. pq_bootEpoch q = Some (be_bootEpoch b) \<and> pq_leaseExpiresAt q = Some l \<and> l \<le> be_leaseExpiresAt b))
         \<and> (pq_status q = QDelivered \<longrightarrow> (\<exists>a\<in>set (ld_attempts ld). pq_deliveredAttemptId q = Some (ta_attemptId a)
              \<and> pq_deliveredTurnId q = Some (ta_turnId a) \<and> pq_sessionKey q = ta_sessionKey a \<and> pq_bootEpoch q = Some (ta_bootEpoch a))))"
proof (intro conjI ballI impI)
  have ok: "prompt_ledger_ok sha ld" using recovery_reachable_ok [OF assms] by (simp add: recovery_ok_def)
  then show "distinct (map pq_queueItemId (pl_queue ld))" "distinct (map pq_dedupeKey (pl_queue ld))"
    "sorted_wrt (<) (map pq_queueSequence (pl_queue ld))" by (simp_all add: prompt_ledger_ok_def)
  fix q assume "q \<in> set (pl_queue ld)"
  with ok have q: "queue_row_valid sha q" "queue_tied ld q" by (simp_all add: prompt_ledger_ok_def)
  from q(1) show "pq_immutableFingerprint q = promptQueueFingerprint sha q" "queue_terminal (pq_status q) \<longleftrightarrow> pq_completedAt q \<noteq> None"
    by (simp_all add: queue_row_valid_def)
  show "pq_leaseOwner q \<noteq> None" if "owner_bound (pq_status q)" using q(1) that unfolding queue_row_valid_def by blast
  show "\<exists>b\<in>set (ld_boots ld). \<exists>l. pq_bootEpoch q = Some (be_bootEpoch b) \<and> pq_leaseExpiresAt q = Some l \<and> l \<le> be_leaseExpiresAt b"
    if "owner_bound (pq_status q)"
  proof -
    from q(1) that obtain e l where e: "pq_bootEpoch q = Some e" "pq_leaseExpiresAt q = Some l" unfolding queue_row_valid_def by blast
    with q(2) obtain b where b: "getBootEpochRow ld e = Some b" "l \<le> be_leaseExpiresAt b" unfolding queue_tied_def by blast
    with row_of_key [OF b(1)] e show ?thesis by auto
  qed
  assume d: "pq_status q = QDelivered"
  with q(1) obtain k t e where k: "pq_deliveredAttemptId q = Some k" "pq_deliveredTurnId q = Some t" "pq_bootEpoch q = Some e"
    unfolding queue_row_valid_def by auto
  with q(2) obtain a where a: "getTurnAttemptRow ld k = Some a" "ta_sessionKey a = pq_sessionKey q" "t = ta_turnId a" "e = ta_bootEpoch a"
    unfolding queue_tied_def by auto
  with row_of_key [OF a(1)] k show "\<exists>a\<in>set (ld_attempts ld). pq_deliveredAttemptId q = Some (ta_attemptId a)
      \<and> pq_deliveredTurnId q = Some (ta_turnId a) \<and> pq_sessionKey q = ta_sessionKey a \<and> pq_bootEpoch q = Some (ta_bootEpoch a)" by auto
qed

theorem prompt_queue_consistent_witness:
  "\<exists>a\<in>set (ld_attempts demo_r6). ta_attemptId a = ''a'' \<and> ta_sessionKey a = ''s''"
proof -
  have "\<exists>q\<in>set (pl_queue demo_r6). pq_status q = QDelivered \<and> pq_deliveredAttemptId q = Some ''a'' \<and> pq_sessionKey q = ''s''" by code_simp
  with prompt_queue_consistent [OF demo_reach6] show ?thesis by fastforce
qed
text \<open>C14: From any reachable ledger on, a prompt is never lost and its content never changes; its status only moves along the allowed
  transitions; a final prompt never changes again, and a claimed prompt keeps its claim, status, owner and delivery.\<close>

theorem prompt_lifecycle:
  assumes "recovery_run_steps sha256 sha empty_recovery_ledger ld" "recovery_run_steps sha256 sha ld ld'" "getPromptQueueRow ld k = Some q"
  shows "\<exists>q'. getPromptQueueRow ld' k = Some q' \<and> queue_identity q' = queue_identity q \<and> pq_updatedAt q \<le> pq_updatedAt q'
    \<and> (\<lambda>s t. t \<in> set (ALLOWED_QUEUE_STATUS_TRANSITIONS s))\<^sup>*\<^sup>* (pq_status q) (pq_status q')
    \<and> (queue_terminal (pq_status q) \<longrightarrow> q' = q)
    \<and> (pq_recoveryClaimId q \<noteq> None \<longrightarrow> queue_state q' = queue_state q \<and> pq_recoveryClaimId q' = pq_recoveryClaimId q)"
  using run_prompt [OF assms(2) recovery_reachable_ok [OF assms(1)] assms(3)] by (auto simp: prompt_later_def)

theorem prompt_lifecycle_witness:
  "\<exists>q'. getPromptQueueRow demo_r11 ''q'' = Some q' \<and> (\<lambda>s t. t \<in> set (ALLOWED_QUEUE_STATUS_TRANSITIONS s))\<^sup>*\<^sup>* QDelivered (pq_status q')"
proof -
  have q: "getPromptQueueRow demo_r6 ''q'' = Some (the (getPromptQueueRow demo_r6 ''q''))
      \<and> pq_status (the (getPromptQueueRow demo_r6 ''q'')) = QDelivered" by code_simp
  have "recovery_run_steps (\<lambda>s. s) demo_hash demo_r6 demo_r11" using demo_runs(7-11) by (meson rtranclp_trans)
  from prompt_lifecycle [OF demo_reach6 this conjunct1 [OF q]] q show ?thesis by metis
qed

text \<open>C6: A claim fences its source: from the claim on, whatever the former owner, a new boot or the recovery itself does, the claim
  exists with the same identity, the attempt stays running and only the outcome of its recovery is written on it, and the
  prompt keeps its content, status, owner and delivery.\<close>

theorem claimed_source_fenced:
  assumes "recovery_run_steps sha256 sha empty_recovery_ledger ld" "recovery_run_steps sha256 sha ld ld'" "l \<in> set (rl_claims ld)"
  shows "(\<exists>l'\<in>set (rl_claims ld'). claim_base l' = claim_base l \<and> (cl_status l \<noteq> ClaimClaimed \<longrightarrow> l' = l))
    \<and> (\<forall>k. claim_src l = Some (Inl k) \<longrightarrow> (\<exists>a a'. getTurnAttemptRow ld k = Some a \<and> getTurnAttemptRow ld' k = Some a'
         \<and> ta_status a = Running \<and> ta_recoveryClaimId a = Some (cl_claimId l)
         \<and> a' = a\<lparr>ta_recoveryStatus := ta_recoveryStatus a', ta_recoveryReason := ta_recoveryReason a',
                   ta_recoveredAt := ta_recoveredAt a', ta_updatedAt := ta_updatedAt a'\<rparr>))
    \<and> (\<forall>k. claim_src l = Some (Inr k) \<longrightarrow> (\<exists>q q'. getPromptQueueRow ld k = Some q \<and> getPromptQueueRow ld' k = Some q'
         \<and> pq_recoveryClaimId q = Some (cl_claimId l) \<and> pq_recoveryClaimId q' = Some (cl_claimId l)
         \<and> queue_identity q' = queue_identity q \<and> queue_state q' = queue_state q))"
proof (intro conjI allI impI)
  have ok: "recovery_ok sha ld" using assms(1) by (rule recovery_reachable_ok)
  from run_tables [OF assms(2) ok] reachable_claim(2) [OF ok assms(3)] obtain l' where
    "getRecoveryClaimByIdRow ld' (cl_claimId l) = Some l'" "claim_later l l'" unfolding tables_moved_def by blast
  then show "\<exists>l'\<in>set (rl_claims ld'). claim_base l' = claim_base l \<and> (cl_status l \<noteq> ClaimClaimed \<longrightarrow> l' = l)"
    using row_of_key unfolding claim_later_def by fast
  from reachable_claim(1) [OF ok assms(3)] obtain c where "claim_held ld l c" unfolding claim_ok_def by blast
  from held_source [OF this] obtain s m where s: "claim_src l = Some s" "source_mark ld s = Some m" "rm_claimId m = Some (cl_claimId l)"
    "source_live ld s" by blast
  show "\<exists>a a'. getTurnAttemptRow ld k = Some a \<and> getTurnAttemptRow ld' k = Some a'
         \<and> ta_status a = Running \<and> ta_recoveryClaimId a = Some (cl_claimId l)
         \<and> a' = a\<lparr>ta_recoveryStatus := ta_recoveryStatus a', ta_recoveryReason := ta_recoveryReason a',
                   ta_recoveredAt := ta_recoveredAt a', ta_updatedAt := ta_updatedAt a'\<rparr>" if "claim_src l = Some (Inl k)" for k
  proof -
    from s that obtain a where a: "getTurnAttemptRow ld k = Some a" "ta_status a = Running" "ta_recoveryClaimId a = Some (cl_claimId l)"
      by (auto simp: source_mark_def source_live_def attempt_recovery_def)
    with run_attempt [OF assms(2) ok a(1)] show ?thesis unfolding attempt_later_def by blast
  qed
  show "\<exists>q q'. getPromptQueueRow ld k = Some q \<and> getPromptQueueRow ld' k = Some q'
         \<and> pq_recoveryClaimId q = Some (cl_claimId l) \<and> pq_recoveryClaimId q' = Some (cl_claimId l)
         \<and> queue_identity q' = queue_identity q \<and> queue_state q' = queue_state q" if "claim_src l = Some (Inr k)" for k
  proof -
    from s that obtain q where q: "getPromptQueueRow ld k = Some q" "pq_recoveryClaimId q = Some (cl_claimId l)"
      by (auto simp: source_mark_def queue_recovery_def)
    with run_prompt [OF assms(2) ok q(1)] show ?thesis by (auto simp: prompt_later_def)
  qed
qed

theorem claimed_source_fenced_witness:
  "\<exists>a'. getTurnAttemptRow demo_r11 ''a'' = Some a' \<and> ta_status a' = Running"
proof -
  have l: "rl_claims demo_r9 \<noteq> [] \<and> claim_src (hd (rl_claims demo_r9)) = Some (Inl ''a'')" by code_simp
  have "recovery_run_steps (\<lambda>s. s) demo_hash demo_r9 demo_r11" using demo_runs(10,11) by (meson rtranclp_trans)
  note fenced = claimed_source_fenced [OF demo_reach9 this hd_in_set [OF conjunct1 [OF l]]]
  from mp [OF spec [OF conjunct1 [OF conjunct2 [OF fenced]]] conjunct2 [OF l]] obtain a a' where
    a: "getTurnAttemptRow demo_r11 ''a'' = Some a'" "ta_status a = Running"
    "a' = a\<lparr>ta_recoveryStatus := ta_recoveryStatus a', ta_recoveryReason := ta_recoveryReason a',
            ta_recoveredAt := ta_recoveredAt a', ta_updatedAt := ta_updatedAt a'\<rparr>" by (elim exE conjE) (rule that)
  have "ta_status a' = ta_status a" by (subst a(3)) simp
  with a(1,2) show ?thesis by simp
qed

text \<open>C15: A recovery run that has ended is final: its row never changes, no candidate is added to it or changed, and none of its
  candidates waits for an action or holds an unfinished claim.\<close>

theorem ended_run_final:
  assumes "recovery_run_steps sha256 sha empty_recovery_ledger ld" "recovery_run_steps sha256 sha ld ld'"
    "getRecoveryRunRow ld k = Some r" "rn_status r \<noteq> RunRunning"
  shows "getRecoveryRunRow ld' k = Some r
    \<and> filter (\<lambda>c. cn_recoveryRunId c = k) (rl_candidates ld') = filter (\<lambda>c. cn_recoveryRunId c = k) (rl_candidates ld)
    \<and> (\<forall>c\<in>set (rl_candidates ld'). cn_recoveryRunId c = k \<longrightarrow> cn_actionStatus c \<notin> {ActPending, ActClaimed})"
proof -
  have ok: "recovery_ok sha ld" using assms(1) by (rule recovery_reachable_ok)
  from run_tables [OF assms(2) ok] assms(3,4) have row: "getRecoveryRunRow ld' k = Some r" and same: "run_candidates ld' k = run_candidates ld k"
    by (auto simp: tables_moved_def run_later_def)
  have "candidate_ok ld' c" if "c \<in> set (rl_candidates ld')" for c
    using recovery_run_ok [OF assms(2) ok] that by (simp add: recovery_ok_def recovery_tables_ok_def)
  with row assms(4) have "cn_actionStatus c \<notin> {ActPending, ActClaimed}" if "c \<in> set (rl_candidates ld')" "cn_recoveryRunId c = k" for c
    using that by (fastforce simp: candidate_ok_def)
  with row same show ?thesis by (auto simp: run_candidates_def)
qed

theorem ended_run_final_witness:
  "list_all (\<lambda>c. cn_actionStatus c \<notin> {ActPending, ActClaimed}) (filter (\<lambda>c. cn_recoveryRunId c = ''r'') (rl_candidates demo_r11))"
proof -
  have r: "getRecoveryRunRow demo_r11 ''r'' = Some (the (getRecoveryRunRow demo_r11 ''r''))
      \<and> rn_status (the (getRecoveryRunRow demo_r11 ''r'')) \<noteq> RunRunning" by code_simp
  have "recovery_run_steps (\<lambda>s. s) demo_hash empty_recovery_ledger demo_r11" using demo_reach9 demo_runs(10,11) by (meson rtranclp_trans)
  from ended_run_final [OF this rtranclp.rtrancl_refl conjunct1 [OF r] conjunct2 [OF r]] show ?thesis
    by (auto simp: list_all_iff)
qed

text \<open>C11: A candidate is claimed once and for all: after a claim was acquired, every later acquisition for the same key, by whatever
  run and boot, returns that claim without creating another one.\<close>

theorem claim_acquired_once:
  assumes "recovery_run_steps sha256 sha empty_recovery_ledger ld"
    and "acquireRuntimeRecoveryClaim sha uuid now runId key b i t ld = Inr ((True, l), ld1)"
    and "recovery_run_steps sha256 sha ld1 ld2"
    and "acquireRuntimeRecoveryClaim sha uuid' now' runId' key' b' i' t' ld2 = Inr ((acquired, m), ld3)" "trim key' = trim key"
  shows "\<not> acquired \<and> claim_base m = claim_base l \<and> rl_claims ld3 = rl_claims ld2"
proof -
  have step: "recovery_step sha256 sha ld ld1" using assms(2) by (rule rs_acquire)
  have ok1: "recovery_ok sha ld1" using recovery_step_ok [OF step recovery_reachable_ok [OF assms(1)]] .
  from acquire_effect [OF assms(2)] obtain c j s where k: "cn_candidateKey c = trim key" "l = new_claim j (trim b) c s"
      "take_claim sha (new_claim j (trim b) c s) c ld = Inr ((True, l), ld1)" by (auto simp: claim_ready_def take_claim_Inr)
  then have "l \<in> set (rl_claims ld1)" using claim_source_tables by (fastforce simp: take_claim_Inr)
  from run_tables [OF assms(3) ok1] reachable_claim(2) [OF ok1 this] obtain l' where
    l': "getRecoveryClaimByIdRow ld2 (cl_claimId l) = Some l'" "claim_base l' = claim_base l" unfolding tables_moved_def claim_later_def by blast
  then have "cl_candidateKey l' = trim key'" "l' \<in> set (rl_claims ld2)"
    using row_of_key [OF l'(1)] k(1,2) assms(5) by (simp_all add: claim_base_def)
  with reachable_claim(3) [OF recovery_run_ok [OF assms(3) ok1], of l'] have row: "getRecoveryClaimByCandidateRow ld2 (trim key') = Some l'" by simp
  with acquire_effect [OF assms(4)] obtain c' t' where "\<not> acquired" "yield_claim l' c' t' ld2 = Inr ((False, m), ld3)"
    by (cases acquired) auto
  with l'(2) show ?thesis by (auto simp: yield_claim_Inr split: if_splits)
qed

theorem claim_acquired_once_witness:
  "\<exists>m. acquireRuntimeRecoveryClaim demo_hash ''v'' 18 ''r'' ''attempt:a'' ''b'' None None demo_r9 = Inr ((False, m), demo_r9)
     \<and> claim_base m = claim_base (hd (rl_claims demo_r9))"
proof -
  have a: "acquireRuntimeRecoveryClaim demo_hash ''u'' 18 ''r'' ''attempt:a'' ''b'' (Some ''l'') None demo_r8
      = Inr ((True, hd (rl_claims demo_r9)), demo_r9)" by code_simp
  have b: "acquireRuntimeRecoveryClaim demo_hash ''v'' 18 ''r'' ''attempt:a'' ''b'' None None demo_r9
      = Inr ((False, hd (rl_claims demo_r9)), demo_r9)" by code_simp
  have "recovery_run_steps (\<lambda>s. s) demo_hash empty_recovery_ledger demo_r8" using demo_reach6 demo_runs(7,8) by (meson rtranclp_trans)
  from claim_acquired_once [OF this a rtranclp.rtrancl_refl b refl] b show ?thesis by blast
qed

text \<open>Repeating a completion finds every projection as the first one left it.\<close>

lemma held_projection:
  assumes "claim_check l" "claim_held ld l c" "prompt_ledger_ok sha ld"
  shows "decode_source sha l ld = Inr () \<and> (\<exists>s. claim_projection l ld = Some s \<and> sp_claimId s = rm_claimId (claim_marks l c)
    \<and> sp_status s = rm_status (claim_marks l c) \<and> sp_reason s = rm_reason (claim_marks l c) \<and> sp_runId s = rm_runId (claim_marks l c)
    \<and> sp_recoveredAt s = rm_recoveredAt (claim_marks l c))"
proof (cases "cl_candidateType l = CandTurnAttempt")
  case True
  with assms(2) obtain k a where "cl_attemptId l = Some k" "getTurnAttemptRow ld k = Some a" "claim_marks l c = attempt_recovery a"
    by (auto simp: claim_held_def claim_src_def source_mark_def)
  with True show ?thesis by (simp add: decode_source_def claim_projection_def attempt_recovery_def)
next
  case False
  with assms(2) obtain k q where q: "cl_queueItemId l = Some k" "getPromptQueueRow ld k = Some q" "claim_marks l c = queue_recovery q"
    by (auto simp: claim_held_def claim_src_def source_mark_def)
  have "queue_row_valid sha q" using assms(3) row_of_key [OF q(2)] by (simp add: prompt_ledger_ok_def)
  with False q show ?thesis by (simp add: decode_source_def claim_projection_def queue_recovery_def)
qed

lemma retry_claim_ok:
  assumes "recovery_ok sha ld" "l \<in> set (rl_claims ld)" "getRecoveryCandidateRow ld (cl_recoveryRunId l) (cl_candidateKey l) = Some c"
    "cl_status l = (if ap then ClaimApplied else ClaimFailed)" "cl_result l = Some res"
    "lo_completedAt inp = None \<or> Some t = cl_completedAt l"
  shows "retry_claim sha ap t inp res l c ld = Inr ((l, c), ld)"
proof -
  from reachable_claim(1) [OF assms(1,2)] assms(3,4) have c: "claim_check l" "claim_held ld l c" "cn_claimId c = Some (cl_claimId l)"
      "cn_actionStatus c = claim_action (cl_status l)" "cn_actionCompletedAt c = cl_completedAt l" "cn_result c = cl_result l"
    by (auto simp: claim_ok_def split: if_splits)
  from held_projection [OF c(1,2)] assms(1) obtain s where s: "decode_source sha l ld = Inr ()" "claim_projection l ld = Some s"
      "sp_claimId s = rm_claimId (claim_marks l c)" "sp_status s = rm_status (claim_marks l c)" "sp_reason s = rm_reason (claim_marks l c)"
      "sp_runId s = rm_runId (claim_marks l c)" "sp_recoveredAt s = rm_recoveredAt (claim_marks l c)"
    by (auto simp: recovery_ok_def)
  from s(3-7) show ?thesis
    using assms(4-6) c(3-6) unfolding retry_claim_def s(1) bindE_val by (simp add: s(2) claim_marks_def claim_action_def)
qed

lemma completion_result:
  assumes "completeRuntimeRecoveryClaim sha now inp ld = Inr ((l, c), ld')" "recovery_ok sha ld"
  shows "trim (lo_claimId inp) \<noteq> [] \<and> getRecoveryClaimByIdRow ld' (trim (lo_claimId inp)) = Some l
    \<and> getRecoveryCandidateRow ld' (cl_recoveryRunId l) (cl_candidateKey l) = Some c
    \<and> cl_status l = (if lo_applied inp then ClaimApplied else ClaimFailed)
    \<and> stringifyRequiredJson (Some (JObj (lo_result inp))) ''claim result'' = Inr (the (cl_result l)) \<and> cl_result l \<noteq> None
    \<and> (\<forall>t. lo_completedAt inp = Some t \<longrightarrow> 0 \<le> t \<and> t \<le> MAX_SAFE_INTEGER \<and> cl_completedAt l = Some t)"
proof -
  from assms(1) obtain x y res where row: "getRecoveryClaimByIdRow ld (trim (lo_claimId inp)) = Some x"
      "getRecoveryCandidateRow ld (cl_recoveryRunId x) (cl_candidateKey x) = Some y"
      "stringifyRequiredJson (Some (JObj (lo_result inp))) ''claim result'' = Inr res" "trim (lo_claimId inp) \<noteq> []"
      "0 \<le> nullish (lo_completedAt inp) now" "nullish (lo_completedAt inp) now \<le> MAX_SAFE_INTEGER"
    and r: "(if cl_status x = (if lo_applied inp then ClaimApplied else ClaimFailed)
        then retry_claim sha (lo_applied inp) (nullish (lo_completedAt inp) now) inp res x y ld
        else finish_claim sha (lo_applied inp) (nullish (lo_completedAt inp) now) res x y ld) = Inr ((l, c), ld')"
    unfolding completeRuntimeRecoveryClaim_def by auto
  show ?thesis
  proof (cases "cl_status x = (if lo_applied inp then ClaimApplied else ClaimFailed)")
    case True
    with r row show ?thesis by (auto simp: retry_claim_def)
  next
    case False
    with r have fin: "finish_claim sha (lo_applied inp) (nullish (lo_completedAt inp) now) res x y ld = Inr ((l, c), ld')" by simp
    from finish_claim_Inr [OF fin] have f: "l = finished_claim (lo_applied inp) (nullish (lo_completedAt inp) now) res x"
      "c = finished_candidate (lo_applied inp) (nullish (lo_completedAt inp) now) res y" by blast+
    have "claim_ok ld x" using assms(2) row_of_key [OF row(1)] by (auto simp: recovery_ok_def recovery_tables_ok_def)
    from finish_effect [OF fin this row(2)] have tab: "rl_claims ld' = put_row cl_claimId l (rl_claims ld)"
        "rl_candidates ld' = put_row candidate_id c (rl_candidates ld)" unfolding claim_finished_def by blast+
    have id: "cl_claimId x = trim (lo_claimId inp)" "candidate_id y = (cl_recoveryRunId x, cl_candidateKey x)"
      using row_of_key [OF row(1)] row_of_key [OF row(2)] by simp_all
    with row tab show ?thesis by (auto simp: f row_of_put)
  qed
qed

text \<open>C12: A claim is completed once: repeating the completion, at any later time and in any later ledger, returns the same claim and
  candidate and changes nothing, and a completion with the opposite outcome is refused.\<close>

theorem claim_completed_once:
  assumes "recovery_run_steps sha256 sha empty_recovery_ledger ld"
    and "completeRuntimeRecoveryClaim sha now inp ld = Inr ((l, c), ld1)" "recovery_run_steps sha256 sha ld1 ld2"
    and "0 \<le> now'" "now' \<le> MAX_SAFE_INTEGER"
  shows "completeRuntimeRecoveryClaim sha now' inp ld2 = Inr ((l, c), ld2)
    \<and> completeRuntimeRecoveryClaim sha now' (inp\<lparr>lo_applied := \<not> lo_applied inp\<rparr>) ld2
        = Inl (LedgerConflict ''Cannot transition recovery claim'')"
proof -
  have step: "recovery_step sha256 sha ld ld1" using assms(2) by (rule rs_complete_claim)
  have ok: "recovery_ok sha ld" using recovery_reachable_ok [OF assms(1)] .
  have ok1: "recovery_ok sha ld1" using recovery_step_ok [OF step ok] .
  have ok2: "recovery_ok sha ld2" using recovery_run_ok [OF assms(3) ok1] .
  note r = completion_result [OF assms(2) ok]
  from r have l1: "l \<in> set (rl_claims ld1)" "cl_claimId l = trim (lo_claimId inp)" by (auto dest: row_of_key)
  from reachable_claim(1) [OF ok1 l1(1)] r have "cn_actionStatus c \<notin> {ActPending, ActClaimed}"
    by (auto simp: claim_ok_def claim_action_def)
  with run_tables [OF assms(3) ok1] r have row: "getRecoveryClaimByIdRow ld2 (trim (lo_claimId inp)) = Some l"
      "getRecoveryCandidateRow ld2 (cl_recoveryRunId l) (cl_candidateKey l) = Some c"
    unfolding tables_moved_def claim_later_def candidate_later_def by (metis claim_status.distinct)+
  then have l2: "l \<in> set (rl_claims ld2)" using row_of_key [OF row(1)] by simp
  have t: "assertTimestamp (nullish (lo_completedAt inp) now') ''completedAt'' = Inr (nullish (lo_completedAt inp) now')"
    using r assms(4,5) by (cases "lo_completedAt inp") auto
  have retry: "retry_claim sha (lo_applied inp) (nullish (lo_completedAt inp) now') inp (the (cl_result l)) l c ld2 = Inr ((l, c), ld2)"
    by (rule retry_claim_ok [OF ok2 l2 row(2)]) (use r in \<open>cases "lo_completedAt inp"; auto\<close>)+
  have id: "requiredText (lo_claimId inp) ''claimId'' = Inr (trim (lo_claimId inp))" using r by simp
  from r have res: "stringifyRequiredJson (Some (JObj (lo_result inp))) ''claim result'' = Inr (the (cl_result l))"
    and st: "cl_status l = (if lo_applied inp then ClaimApplied else ClaimFailed)" by blast+
  show ?thesis
    using retry st by (cases "lo_applied inp") (simp_all add: completeRuntimeRecoveryClaim_def id t res row finish_claim_def throw_if_def)
qed

theorem claim_completed_once_witness:
  "completeRuntimeRecoveryClaim demo_hash 50 demo_outcome demo_r10
     = Inr ((hd (rl_claims demo_r10), hd (rl_candidates demo_r10)), demo_r10)"
proof -
  have a: "completeRuntimeRecoveryClaim demo_hash 19 demo_outcome demo_r9
      = Inr ((hd (rl_claims demo_r10), hd (rl_candidates demo_r10)), demo_r10)" by code_simp
  from claim_completed_once [OF demo_reach9 a rtranclp.rtrancl_refl, of 50] show ?thesis by (simp add: MAX_SAFE_INTEGER_def)
qed
text \<open>The row an enqueue would write is determined by its input, up to its place, its generated id and its times.\<close>

lemma enqueue_row_again:
  assumes "enqueue_row sha uuid now inp ld = Inr row" "0 \<le> now'" "now' \<le> MAX_SAFE_INTEGER"
  shows "\<exists>row'. enqueue_row sha uuid' now' inp ld' = Inr row' \<and> pq_dedupeKey row' = pq_dedupeKey row
    \<and> pq_immutableFingerprint row' = pq_immutableFingerprint row
    \<and> (\<forall>i. optionalText (ei_queueItemId inp) = Some i \<longrightarrow> pq_queueItemId row = i)"
proof -
  have "0 \<le> nullish (ei_queuedAt inp) now' \<and> nullish (ei_queuedAt inp) now' \<le> MAX_SAFE_INTEGER"
    using assms by (cases "ei_queuedAt inp") (auto simp: enqueue_row_def)
  then show ?thesis
    using assms(1) by (auto simp: enqueue_row_def Let_def promptQueueFingerprint_def prompt_content_def)
qed

lemma enqueue_requested:
  assumes "enqueueRuntimePrompt sha uuid now inp ld = Inr ((created, q), ld')" "optionalText (ei_queueItemId inp) = Some i"
  shows "pq_queueItemId q = i"
  using assms unfolding enqueueRuntimePrompt_def Let_def
  by (auto split: option.splits prod.splits simp: insert_queue_def enqueue_row_def Let_def)

text \<open>C13: A prompt is enqueued at most once: after it was accepted, enqueueing the same input again, at any later time and in any
  later ledger and whatever has happened to the prompt since, returns the prompt itself and changes nothing.\<close>

theorem prompt_enqueued_once:
  assumes "recovery_run_steps sha256 sha empty_recovery_ledger ld"
    and "enqueueRuntimePrompt sha uuid now inp ld = Inr ((created, q), ld1)" "recovery_run_steps sha256 sha ld1 ld2"
    and "0 \<le> now'" "now' \<le> MAX_SAFE_INTEGER"
  shows "\<exists>q'. enqueueRuntimePrompt sha uuid' now' inp ld2 = Inr ((False, q'), ld2) \<and> queue_identity q' = queue_identity q"
proof -
  have step: "recovery_step sha256 sha ld ld1" using assms(2) by (rule rs_enqueue)
  have ok: "recovery_ok sha ld" using recovery_reachable_ok [OF assms(1)] .
  have ok1: "recovery_ok sha ld1" using recovery_step_ok [OF step ok] .
  have ok2: "prompt_ledger_ok sha ld2" using recovery_run_ok [OF assms(3) ok1] by (simp add: recovery_ok_def)
  from enqueue_effect [OF assms(2)] obtain row where row: "enqueue_row sha uuid now inp ld = Inr row" "pq_dedupeKey q = pq_dedupeKey row"
      "pq_immutableFingerprint q = pq_immutableFingerprint row" and q1: "q \<in> set (pl_queue ld1)"
    by (auto split: if_splits dest: row_of_key)
  have "getPromptQueueRow ld1 (pq_queueItemId q) = Some q"
    using ok1 q1 by (auto simp: recovery_ok_def prompt_ledger_ok_def intro: row_of_distinct)
  from run_prompt [OF assms(3) ok1 this] obtain q' where q': "getPromptQueueRow ld2 (pq_queueItemId q) = Some q'" "queue_identity q' = queue_identity q"
    by (auto simp: prompt_later_def)
  have in2: "q' \<in> set (pl_queue ld2)" using row_of_key [OF q'(1)] by simp
  with ok2 have key: "row_of pq_dedupeKey (pq_dedupeKey q') (pl_queue ld2) = Some q'" and v: "queue_row_valid sha q'"
    by (auto simp: prompt_ledger_ok_def intro: row_of_distinct)
  from enqueue_row_again [OF row(1) assms(4,5)] obtain row' where r': "enqueue_row sha uuid' now' inp ld2 = Inr row'"
    "pq_dedupeKey row' = pq_dedupeKey row" "pq_immutableFingerprint row' = pq_immutableFingerprint row" by blast
  have id: "pq_dedupeKey q' = pq_dedupeKey q" "pq_immutableFingerprint q' = pq_immutableFingerprint q" "pq_queueItemId q' = pq_queueItemId q"
    using q'(2) by (simp_all add: queue_identity_def)
  have "optionalText (ei_queueItemId inp) \<noteq> None \<longrightarrow> Some (pq_queueItemId q') = optionalText (ei_queueItemId inp)"
    using enqueue_requested [OF assms(2)] id(3) by auto
  moreover have "rowToPromptQueue sha q' = Inr q'" using v by simp
  ultimately have "enqueueRuntimePrompt sha uuid' now' inp ld2 = Inr ((False, q'), ld2)"
    unfolding enqueueRuntimePrompt_def Let_def r'(1) bindE_val using r'(2,3) row(2,3) key id(1,2) by (cases "optionalText (ei_queueItemId inp)") (simp_all add: throw_if_def)
  with q'(2) show ?thesis by blast
qed

theorem prompt_enqueued_once_witness:
  "\<exists>q'. enqueueRuntimePrompt demo_hash ''v'' 50 (demo_enqueue ''q'' ''d'') demo_r6 = Inr ((False, q'), demo_r6)"
proof -
  have a: "enqueueRuntimePrompt demo_hash ''u'' 13 (demo_enqueue ''q'' ''d'') demo_r2 = Inr ((True, hd (pl_queue demo_r3)), demo_r3)"
    by code_simp
  have r: "recovery_run_steps (\<lambda>s. s) demo_hash empty_recovery_ledger demo_r2" "recovery_run_steps (\<lambda>s. s) demo_hash demo_r3 demo_r6"
    using demo_runs(1-6) by (meson rtranclp_trans)+
  from prompt_enqueued_once [OF r(1) a r(2), of 50] show ?thesis by (auto simp: MAX_SAFE_INTEGER_def)
qed

text \<open>C7: A stale owner never advances a prompt, and a prompt is only given to an owner that lives: a transition that is applied found
  the prompt unclaimed, in an expected status and, when it had an owner, with the boot, the owner and the lease the caller
  observed; a leased or delivered prompt is leased within the unexpired lease of an active boot, and it is delivered to a
  running, unclaimed and unexpired attempt of its own session, turn and boot.\<close>

theorem queue_transition_fenced:
  assumes "compareAndSetRuntimePromptQueueStatus sha now inp ld = Inr ((True, q), ld')"
  shows "\<exists>c. getPromptQueueRow ld (trim (qc_queueItemId inp)) = Some c \<and> pq_status c \<in> set (qc_expectedStatus inp)
    \<and> pq_recoveryClaimId c = None \<and> \<not> queue_terminal (pq_status c)
    \<and> (pq_leaseOwner c \<noteq> None \<longrightarrow> optionalText (nullish (qc_expectedBootEpoch inp) None) = pq_bootEpoch c
         \<and> optionalText (nullish (qc_expectedLeaseOwner inp) None) = pq_leaseOwner c
         \<and> nullish (qc_expectedLeaseExpiresAt inp) None = pq_leaseExpiresAt c)
    \<and> pq_status q = qc_status inp \<and> qc_status inp \<in> set (ALLOWED_QUEUE_STATUS_TRANSITIONS (pq_status c))
    \<and> queue_identity q = queue_identity c
    \<and> (owner_bound (pq_status q) \<longrightarrow> (\<exists>b l. getBootEpochRow ld (be_bootEpoch b) = Some b \<and> pq_bootEpoch q = Some (be_bootEpoch b)
         \<and> be_status b = BootActive \<and> pq_leaseExpiresAt q = Some l \<and> pq_updatedAt q < l \<and> l \<le> be_leaseExpiresAt b))
    \<and> (pq_status q = QDelivered \<longrightarrow> (\<exists>a. getTurnAttemptRow ld (ta_attemptId a) = Some a \<and> pq_deliveredAttemptId q = Some (ta_attemptId a)
         \<and> ta_status a = Running \<and> ta_recoveryClaimId a = None \<and> pq_updatedAt q < ta_leaseExpiresAt a
         \<and> ta_sessionKey a = pq_sessionKey q \<and> pq_deliveredTurnId q = Some (ta_turnId a) \<and> pq_bootEpoch q = Some (ta_bootEpoch a)))
    \<and> ld' = ld\<lparr>pl_queue := put_row pq_queueItemId q (pl_queue ld)\<rparr>"
proof -
  from cas_effect [OF assms] obtain c where c: "getPromptQueueRow ld (trim (qc_queueItemId inp)) = Some c" "queue_moved ld c q"
      "pq_status q = qc_status inp" "pq_status c \<in> set (qc_expectedStatus inp)" "pq_leaseOwner c \<noteq> None \<longrightarrow> fence_holds inp c"
      "ld' = ld\<lparr>pl_queue := put_row pq_queueItemId q (pl_queue ld)\<rparr>" by auto
  from c(2) have o: "queue_owned ld q" by (simp add: queue_moved_def)
  have boot: "\<exists>b l. getBootEpochRow ld (be_bootEpoch b) = Some b \<and> pq_bootEpoch q = Some (be_bootEpoch b)
         \<and> be_status b = BootActive \<and> pq_leaseExpiresAt q = Some l \<and> pq_updatedAt q < l \<and> l \<le> be_leaseExpiresAt b" if "owner_bound (pq_status q)"
  proof -
    from o that obtain e b l where b: "pq_bootEpoch q = Some e" "getBootEpochRow ld e = Some b" "be_status b = BootActive"
      "pq_leaseExpiresAt q = Some l" "pq_updatedAt q < l" "l \<le> be_leaseExpiresAt b" unfolding queue_owned_def by blast
    with row_of_key [OF b(2)] show ?thesis by blast
  qed
  have att: "\<exists>a. getTurnAttemptRow ld (ta_attemptId a) = Some a \<and> pq_deliveredAttemptId q = Some (ta_attemptId a)
         \<and> ta_status a = Running \<and> ta_recoveryClaimId a = None \<and> pq_updatedAt q < ta_leaseExpiresAt a
         \<and> ta_sessionKey a = pq_sessionKey q \<and> pq_deliveredTurnId q = Some (ta_turnId a) \<and> pq_bootEpoch q = Some (ta_bootEpoch a)"
    if "pq_status q = QDelivered"
  proof -
    from o that obtain k a where a: "pq_deliveredAttemptId q = Some k" "getTurnAttemptRow ld k = Some a" "ta_status a = Running"
      "ta_recoveryClaimId a = None" "pq_updatedAt q < ta_leaseExpiresAt a" "ta_sessionKey a = pq_sessionKey q"
      "pq_deliveredTurnId q = Some (ta_turnId a)" "pq_bootEpoch q = Some (ta_bootEpoch a)" unfolding queue_owned_def by blast
    with row_of_key [OF a(2)] show ?thesis by blast
  qed
  from c boot att show ?thesis by (intro exI [of _ c]) (simp add: queue_moved_def fence_holds_def)
qed

theorem queue_transition_fenced_witness:
  "\<exists>a. getTurnAttemptRow demo_r5 (ta_attemptId a) = Some a \<and> ta_status a = Running \<and> ta_sessionKey a = ''s''"
proof -
  have a: "compareAndSetRuntimePromptQueueStatus demo_hash 15 (demo_cas QStarting QDelivered) demo_r5
      = Inr ((True, hd (pl_queue demo_r6)), demo_r6)"
    and b: "pq_status (hd (pl_queue demo_r6)) = QDelivered \<and> pq_sessionKey (hd (pl_queue demo_r6)) = ''s''" by code_simp+
  from queue_transition_fenced [OF a] b show ?thesis by metis
qed
section \<open>Stored rows decode\<close>

definition is_corrupt :: "ledger_error + 'b \<Rightarrow> bool" where
  "is_corrupt r = (case r of Inl (LedgerCorrupt _) \<Rightarrow> True | _ \<Rightarrow> False)"

lemma is_corrupt_simps [simp]:
  "\<not> is_corrupt (Inr x)" "\<not> is_corrupt (Inl (LedgerConstraint m))" "\<not> is_corrupt (Inl (LedgerInvalid m))"
  "\<not> is_corrupt (Inl (LedgerConflict m))" "\<not> is_corrupt (Inl (LedgerNotFound m))" "is_corrupt (Inl (LedgerCorrupt m))"
  by (simp_all add: is_corrupt_def)

lemma is_corrupt_throw [simp]: "is_corrupt (throw_if c e k) \<longleftrightarrow> (if c then is_corrupt (Inl e :: ledger_error + 'b) else is_corrupt (k :: ledger_error + 'b))"
  by (simp add: throw_if_def)

lemma is_corrupt_found [simp]:
  "is_corrupt (found v e k) \<longleftrightarrow> (case v of None \<Rightarrow> is_corrupt (Inl e :: ledger_error + 'b) | Some x \<Rightarrow> is_corrupt (k x :: ledger_error + 'b))"
  by (cases v) (simp_all add: found_def)

lemma is_corrupt_bind: "is_corrupt (bindE v k) \<longleftrightarrow> is_corrupt v \<or> (\<exists>x. v = Inr x \<and> is_corrupt (k x))"
  by (cases v) (auto simp: bindE_def is_corrupt_def)

lemma is_corrupt_leaf [simp]:
  "\<not> is_corrupt (requiredText v l)" "\<not> is_corrupt (assertTimestamp i l)" "\<not> is_corrupt (stringifyRequiredJson j l)"
  "\<not> is_corrupt (assertLimit n)" "is_corrupt (rowToPromptQueue sha q) \<longleftrightarrow> \<not> queue_row_valid sha q"
  by (auto simp: requiredText_def assertTimestamp_def stringifyRequiredJson_def assertLimit_def rowToPromptQueue_def queue_row_valid_def Let_def
           split: option.splits)

lemma is_corrupt_write [simp]:
  "\<not> is_corrupt (insert_run r rd)" "\<not> is_corrupt (update_run r rd)" "\<not> is_corrupt (insert_candidate c rd)" "\<not> is_corrupt (update_candidate c rd)"
  "\<not> is_corrupt (insert_claim l rd)" "\<not> is_corrupt (update_claim l rd)" "\<not> is_corrupt (update_attempt a ld)" "\<not> is_corrupt (write_queue q pd)"
  by (simp_all add: insert_run_def update_run_def insert_candidate_def update_candidate_def insert_claim_def update_claim_def update_attempt_def
      write_queue_def)

lemma stored_row_valid: "prompt_ledger_ok sha ld \<Longrightarrow> getPromptQueueRow ld k = Some q \<Longrightarrow> queue_row_valid sha q"
  by (auto simp: prompt_ledger_ok_def dest: row_of_key)

lemma list_corrupt:
  assumes "prompt_ledger_ok sha ld" shows "\<not> is_corrupt (listRuntimePromptQueue sha k lane sts lim ld)"
proof -
  have "\<not> is_corrupt (decode_rows sha qs)" if "\<forall>q\<in>set qs. queue_row_valid sha q" for qs
    using that by (induction qs) (auto simp: is_corrupt_bind)
  moreover have "\<forall>q\<in>set (take n (sort_key pq_queueSequence (filter P (pl_queue ld)))). queue_row_valid sha q" for n P
    using assms by (auto simp: prompt_ledger_ok_def dest: in_set_takeD)
  ultimately show ?thesis by (simp add: listRuntimePromptQueue_def is_corrupt_bind)
qed

lemma enqueue_corrupt:
  assumes "prompt_ledger_ok sha ld" shows "\<not> is_corrupt (enqueueRuntimePrompt sha uuid now inp ld)"
proof -
  have row: "\<not> is_corrupt (enqueue_row sha uuid now inp ld)" by (simp add: enqueue_row_def is_corrupt_bind Let_def)
  have ins: "\<not> is_corrupt (insert_queue sha q ld)" if "enqueue_row sha uuid now inp ld = Inr q" for q
    using enqueue_row_Inr [OF that] by (simp add: insert_queue_def is_corrupt_bind queue_row_valid_def TERMINAL_QUEUE_STATUSES_def)
  have boot: "\<not> is_corrupt (enqueue_boot_checks e t ld)" for e t by (simp add: enqueue_boot_checks_def split: option.split)
  have old: "queue_row_valid sha q" if "row_of pq_dedupeKey d (pl_queue ld) = Some q" for d q
    using assms row_of_key [OF that] by (simp add: prompt_ledger_ok_def)
  show ?thesis using row ins boot old
    by (auto simp: enqueueRuntimePrompt_def is_corrupt_bind Let_def split: option.splits)
qed

lemma record_corrupt:
  assumes "prompt_ledger_ok sha ld" shows "\<not> is_corrupt (recordRuntimeRecoveryCandidate sha256 sha now inp ld)"
proof -
  have "\<not> is_corrupt (candidate_source sha ty s n a t q ld)" for ty s n a t q
    using stored_row_valid [OF assms] by (auto simp: candidate_source_def is_corrupt_bind split: candidate_type.split option.splits)
  moreover have "\<not> is_corrupt (buildRuntimeRecoveryCandidateKey sha256 ty s a t q)" for ty s a t q
    by (auto simp: buildRuntimeRecoveryCandidateKey_def is_corrupt_bind split: candidate_type.split)
  ultimately show ?thesis
    by (auto simp: recordRuntimeRecoveryCandidate_def is_corrupt_bind Let_def split: option.splits)
qed

lemma acquire_corrupt:
  assumes "prompt_ledger_ok sha ld" shows "\<not> is_corrupt (acquireRuntimeRecoveryClaim sha uuid now r k b i t ld)"
proof -
  have "\<not> is_corrupt (claim_candidate_checks r k b t ld)" for r k b t
    by (simp add: claim_candidate_checks_def split: option.split)
  moreover have "\<not> is_corrupt (yield_claim e c t ld)" for e c t by (simp add: yield_claim_def is_corrupt_bind)
  moreover have "\<not> is_corrupt (source_claimable sha c ld)" for c
    using stored_row_valid [OF assms] by (auto simp: source_claimable_def is_corrupt_bind split: option.splits)
  moreover have "\<not> is_corrupt (claim_source i c t ld1)" for i c t and ld1 :: "'a recovery_ledger_scheme"
    by (auto simp: claim_source_def is_corrupt_bind split: option.splits)
  ultimately show ?thesis
    by (auto simp: acquireRuntimeRecoveryClaim_def take_claim_def is_corrupt_bind split: option.splits)
qed

lemma complete_corrupt:
  assumes "prompt_ledger_ok sha ld" shows "\<not> is_corrupt (completeRuntimeRecoveryClaim sha now inp ld)"
proof -
  have dec: "\<not> is_corrupt (decode_source sha l ld1)" if "pl_queue ld1 = pl_queue ld" for l and ld1 :: "'a recovery_ledger_scheme"
    using stored_row_valid [OF assms] that by (auto simp: decode_source_def is_corrupt_bind split: option.splits)
  have retry: "\<not> is_corrupt (retry_claim sha ap t inp res l c ld)" for ap t res l c
    using dec [of ld] by (simp add: retry_claim_def is_corrupt_bind)
  have src: "\<not> is_corrupt (complete_source sha l rs r t ld1)" if "pl_queue ld1 = pl_queue ld" for l rs r t and ld1 :: "'a recovery_ledger_scheme"
  proof -
    have "recovered_item rs r t q = q\<lparr>pq_recoveryClaimId := pq_recoveryClaimId q, pq_recoveryStatus := Some rs, pq_recoveryReason := Some r,
        pq_recoveryRunId := pq_recoveryRunId q, pq_recoveredAt := Some t, pq_updatedAt := max (pq_updatedAt q) t\<rparr>" for q
      by (simp add: recovered_item_def)
    note item_recovery_fields(1) [OF this, of sha]
    then show ?thesis using stored_row_valid [OF assms] that
      by (auto simp: complete_source_def is_corrupt_bind split: option.splits)
  qed
  have "\<not> is_corrupt (finish_claim sha ap t res l c ld)" for ap t res l c
    unfolding finish_claim_def Let_def using dec src
    by (auto simp: is_corrupt_bind split: option.splits prod.splits)
  with retry show ?thesis by (auto simp: completeRuntimeRecoveryClaim_def is_corrupt_bind split: option.splits)
qed

text \<open>C16: What the operations store they can read back: in a reachable ledger every stored prompt decodes, so that listing the queue,
  enqueueing, recording a candidate, acquiring a claim and completing it never report a corrupt row.\<close>

theorem stored_prompts_decode:
  assumes "recovery_run_steps sha256 sha empty_recovery_ledger ld"
  shows "(\<forall>q\<in>set (pl_queue ld). rowToPromptQueue sha q = Inr q)
    \<and> listRuntimePromptQueue sha k lane sts lim ld \<noteq> Inl (LedgerCorrupt m)
    \<and> enqueueRuntimePrompt sha uuid now ei ld \<noteq> Inl (LedgerCorrupt m)
    \<and> recordRuntimeRecoveryCandidate sha256 sha now ki ld \<noteq> Inl (LedgerCorrupt m)
    \<and> acquireRuntimeRecoveryClaim sha uuid now r key b i t ld \<noteq> Inl (LedgerCorrupt m)
    \<and> completeRuntimeRecoveryClaim sha now lo ld \<noteq> Inl (LedgerCorrupt m)"
proof -
  have ok: "prompt_ledger_ok sha ld" using recovery_reachable_ok [OF assms] by (simp add: recovery_ok_def)
  have n: "\<not> is_corrupt r \<Longrightarrow> r \<noteq> Inl (LedgerCorrupt m)" for r :: "ledger_error + 'b" by auto
  have "rowToPromptQueue sha q = Inr q" if "q \<in> set (pl_queue ld)" for q using ok that by (simp add: prompt_ledger_ok_def)
  then show ?thesis
    by (intro conjI ballI n list_corrupt [OF ok] enqueue_corrupt [OF ok] record_corrupt [OF ok] acquire_corrupt [OF ok] complete_corrupt [OF ok])
qed

theorem stored_prompts_decode_witness:
  "listRuntimePromptQueue demo_hash None None None None demo_r6 \<noteq> Inl (LedgerCorrupt ''x'') \<and> pl_queue demo_r6 \<noteq> []"
proof -
  have "pl_queue demo_r6 \<noteq> []" by code_simp
  with stored_prompts_decode [OF demo_reach6] show ?thesis by blast
qed
lemma sorted_take: "sorted_wrt R xs \<Longrightarrow> sorted_wrt R (take n xs)"
  by (induction xs arbitrary: n) (auto simp: take_Cons' dest: in_set_takeD)

text \<open>C17: Reading the queue is first in, first out: a page of a reachable queue is the first prompts of the asked session, lane and
  statuses, in the order in which they were enqueued.\<close>

theorem queue_read_fifo:
  assumes "recovery_run_steps sha256 sha empty_recovery_ledger ld" "listRuntimePromptQueue sha k lane sts lim ld = Inr qs"
  shows "sorted_wrt (<) (map pq_queueSequence qs)
    \<and> (\<exists>n. assertLimit lim = Inr n \<and> qs = take (nat n) (filter (\<lambda>q. (truthy k \<longrightarrow> pq_sessionKey q = trim (the k))
          \<and> (lane \<noteq> None \<longrightarrow> lane = Some (pq_laneKey q)) \<and> (nullish sts [] \<noteq> [] \<longrightarrow> pq_status q \<in> set (nullish sts []))) (pl_queue ld)))"
proof -
  have ok: "prompt_ledger_ok sha ld" using recovery_reachable_ok [OF assms(1)] by (simp add: recovery_ok_def)
  have dec: "decode_rows sha xs = Inr ys \<longleftrightarrow> ys = xs \<and> (\<forall>x\<in>set xs. queue_row_valid sha x)" for xs ys
    by (induction xs arbitrary: ys) auto
  have lt: "sorted_wrt (<) (map pq_queueSequence (filter P (pl_queue ld)))" for P
    using ok by (auto simp: prompt_ledger_ok_def sorted_wrt_map intro: sorted_wrt_filter)
  then have sorted: "sort_key pq_queueSequence (filter P (pl_queue ld)) = filter P (pl_queue ld)" for P
    by (intro sort_key_id_if_sorted strict_sorted_imp_sorted)
  define s where "s = (if truthy k then Some (trim (the k)) else None)"
  let ?P = "\<lambda>q. (s = None \<or> s = Some (pq_sessionKey q)) \<and> (lane = None \<or> lane = Some (pq_laneKey q))
           \<and> (nullish sts [] = [] \<or> pq_status q \<in> set (nullish sts []))"
  from assms(2) obtain s' n where s': "(if truthy k then bindE (requiredText (the k) ''sessionKey'') (\<lambda>k. Inr (Some k)) else Inr None)
      = (Inr s' :: ledger_error + string option)" "assertLimit lim = Inr n"
    "decode_rows sha (take (nat n) (sort_key pq_queueSequence (filter (\<lambda>q. (s' = None \<or> s' = Some (pq_sessionKey q))
       \<and> (lane = None \<or> lane = Some (pq_laneKey q)) \<and> (nullish sts [] = [] \<or> pq_status q \<in> set (nullish sts []))) (pl_queue ld)))) = Inr qs"
    unfolding listRuntimePromptQueue_def bindE_Inr by blast
  have "s' = s" using s'(1) by (auto simp: s_def split: if_splits)
  with s'(3) have qs: "qs = take (nat n) (filter ?P (pl_queue ld))" by (simp add: dec sorted)
  have eq: "?P = (\<lambda>q. (truthy k \<longrightarrow> pq_sessionKey q = trim (the k)) \<and> (lane \<noteq> None \<longrightarrow> lane = Some (pq_laneKey q))
      \<and> (nullish sts [] \<noteq> [] \<longrightarrow> pq_status q \<in> set (nullish sts [])))" by (auto simp: s_def fun_eq_iff)
  show ?thesis
  proof (intro conjI exI)
    show "sorted_wrt (<) (map pq_queueSequence qs)" unfolding qs by (simp only: sorted_take take_map [symmetric] lt)
  qed (fact s'(2) qs [unfolded eq])+
qed

theorem queue_read_fifo_witness:
  "sorted_wrt (<) (map pq_queueSequence [hd (pl_queue demo_r6)])"
proof -
  have "listRuntimePromptQueue demo_hash (Some ''s'') None None None demo_r6 = Inr [hd (pl_queue demo_r6)]" by code_simp
  from conjunct1 [OF queue_read_fifo [OF demo_reach6 this]] show ?thesis .
qed

section \<open>Three consequences worth knowing\<close>

text \<open>A claimed attempt stays running for ever, so that no attempt can be recorded as recovered from it.\<close>

lemma claimed_attempt_never_continued:
  assumes "recovery_run_steps sha256 sha empty_recovery_ledger ld" "recovery_run_steps sha256 sha ld ld'"
    "l \<in> set (rl_claims ld)" "claim_src l = Some (Inl k)" "a \<in> set (ld_attempts ld')"
  shows "ta_recoveredFromAttemptId a \<noteq> Some k"
proof
  assume r: "ta_recoveredFromAttemptId a = Some k"
  have ok: "recovery_ok sha ld" using assms(1) by (rule recovery_reachable_ok)
  have ok': "recovery_ok sha ld'" using recovery_run_ok [OF assms(2) ok] .
  from run_tables [OF assms(2) ok] reachable_claim(2) [OF ok assms(3)] obtain l' where
    l': "getRecoveryClaimByIdRow ld' (cl_claimId l) = Some l'" "claim_base l' = claim_base l" unfolding tables_moved_def claim_later_def by blast
  then have "l' \<in> set (rl_claims ld')" "claim_src l' = Some (Inl k)"
    using row_of_key [OF l'(1)] assms(4) by (auto simp: claim_base_def claim_src_def split: if_splits)
  with reachable_claim(1) [OF ok', of l'] have "source_live ld' (Inl k)" by (auto simp: claim_ok_def claim_held_def)
  moreover have "attempt_chained ld' a" using ok' assms(5) by (simp add: recovery_ok_def ledger_ok_def)
  ultimately show False using r by (auto simp: attempt_chained_def source_live_def split: option.splits)
qed

text \<open>Nothing asks whether the owner of an attempt is gone: a live boot claims its own running attempt within its lease.\<close>

lemma live_attempt_claimable:
  "acquireRuntimeRecoveryClaim demo_hash ''u'' 18 ''r'' ''attempt:a'' ''b'' (Some ''l'') None demo_r8
     = Inr ((True, hd (rl_claims demo_r9)), demo_r9)
   \<and> (case getTurnAttemptRow demo_r8 ''a'' of None \<Rightarrow> False | Some a \<Rightarrow> ta_bootEpoch a = ''b'' \<and> 18 < ta_leaseExpiresAt a)
   \<and> (case getBootEpochRow demo_r8 ''b'' of None \<Rightarrow> False | Some b \<Rightarrow> be_status b = BootActive \<and> 18 < be_leaseExpiresAt b)"
  by code_simp

text \<open>A final transition that names an owner but no lease passes the checks, and is then reported as a corrupt row.\<close>

lemma partial_fence_reported_as_corruption:
  "compareAndSetRuntimePromptQueueStatus demo_hash 15 ((demo_cas QQueued QCancelled)\<lparr>qc_leaseExpiresAt := None\<rparr>) demo_r3
     = Inl (LedgerCorrupt ''Runtime prompt queue item has a partial lease fence'')"
  by code_simp

end
