(* ===== verification/Spec2Isabelle.thy ===== *)
theory Spec2Isabelle
  imports DeliveryBarriers Scope ShellPolicy TaskGuarantees RouteResolver DeliveryQueue CoordinatorLedger RecoveryGuarantees
begin

text \<open>
  A verification development for ravi, a host that runs language-model agents behind chat channels.
  A message arrives on a channel, is routed to an agent and a session, waits in the queue of
  that session until its delivery barrier lets it out, and is handed to a model provider as part
  of a turn. What the turn may do is bounded by the capabilities of the agent, of the actor who
  caused it and of the surface it came from. The theories follow these parts; file names are
  relative to \<open>src/src\<close>.

  Permissions. \<open>ToolRegistry\<close> holds the catalogue of built-in tools and the tool groups
  (\<open>cli/tool-registry.ts\<close>). \<open>Capabilities\<close> is the matcher of capability snapshots
  (\<open>permissions/capability-snapshot.ts\<close>, \<open>capability-context.ts\<close>). \<open>Delegation\<close> computes the
  effective capabilities of a delegated turn (\<open>permissions/delegation.ts\<close>): deny grants win, and
  the effective set is the intersection of the branches. \<open>Providers\<close> are the sources of
  capabilities (bootstrap, agent defaults, agent identity, contact policy), \<open>PermissionRuntime\<close> the
  provider chain and the authorization facade (\<open>permissions/provider-runtime.ts\<close>), where a locale
  states what every provider promises and each provider interprets it. \<open>Scope\<close> holds the checks of
  sessions, contacts, agents and commands (\<open>permissions/scope.ts\<close>). \<open>Regex\<close> has the regular
  expressions of the language with their backtracking matcher, \<open>ShellParser\<close> the parser of shell
  commands (\<open>bash/parser.ts\<close>), \<open>ShellPolicy\<close> the hooks that check a shell command or a tool call
  against the capabilities of the context and record what they deny (\<open>bash/hook.ts\<close>); the last
  section there lists commands that a shell runs and the parser does not see.

  Routing and sessions. \<open>SessionTypes\<close> has the records of \<open>router/types.ts\<close>. \<open>SessionKey\<close> builds
  and parses session keys, \<open>SessionName\<close> generates and validates names, \<open>SessionStore\<close> is the table
  of sessions (\<open>router/sessions.ts\<close>) as a state with its operations, whose reachable states keep
  keys and names unique, and \<open>RouteResolver\<close> matches routes and commits them to the store
  (\<open>router/resolver.ts\<close>).

  Runtime. \<open>DeliveryBarriers\<close> orders the barriers (\<open>delivery-barriers.ts\<close>). \<open>MessageTypes\<close> has
  the prompts and queued messages, \<open>TurnOrigin\<close> the envelopes of internal producers and the
  classification of the cause of a turn, \<open>TurnSurface\<close> the identity of reply surfaces.
  \<open>HostSession\<close> is the streaming session with its replay fence, stash and shutdown
  (\<open>runtime/host-session.ts\<close>), \<open>TurnEnd\<close> the events that end a turn
  (\<open>runtime/host-event-loop.ts\<close>), and \<open>DeliveryQueue\<close> the release of queued messages, interrupts
  and the generator that hands turns to the provider (\<open>runtime/delivery-queue.ts\<close>). A run of
  the queue is a step relation over these operations; its invariant says that no prompt is lost,
  duplicated or invented.

  Crash recovery. \<open>LedgerBase\<close>, \<open>CrashLedger\<close> are the tables of boot epochs and turn attempts with the
  checks and constraints of every operation (\<open>runtime/crash-recovery-store.ts\<close>), \<open>LedgerHistory\<close>
  what holds in every ledger that their operations reach. \<open>CrashCoordinator\<close> is the class that owns
  the leases of one host process (\<open>runtime/crash-recovery.ts\<close>), as methods over its state and an
  environment: the store, the clock and the timer. \<open>CoordinatorSafety\<close> proves, for every
  environment, that its calls after the start are lease steps or fence it, in a locale that says which part of the
  environment it may read; \<open>CoordinatorLedger\<close> states the contract of a store as a locale,
  interprets it by the ledger, and shows that the coordinator mirrors the ledger. \<open>PromptLedger\<close> adds
  the durable queue of prompts, \<open>RecoveryLedger\<close> the recovery runs with their candidates and claims,
  each as a record that extends the ledger before it, so that every operation acts on all later
  ledgers. \<open>RecoveryHistory\<close> makes all operations the steps of one machine, whose invariant ties a
  claim to its run, its candidate and its source; \<open>RecoverySafety\<close> shows that every step keeps it and
  what a step may do to a row, and \<open>RecoveryGuarantees\<close> what follows for whole histories: exclusive
  claims, fenced sources, operations that have their effect once, and a queue read in order.

  Tasks. \<open>TaskStore\<close> has the rows of tasks, assignments, events, comments, dependencies and launch
  plans with the event log, \<open>TaskLifecycle\<close> the operations of the store (\<open>tasks/task-db.ts\<close>), and
  \<open>TaskGraph\<close> the dependencies of the service (\<open>tasks/service.ts\<close>): readiness, the search for cycles,
  creation, the guards of a dispatch, and what a completion releases. \<open>TaskReach\<close> shows that the
  search for cycles is the reachability of the graph. \<open>TaskWrites\<close> breaks every operation into
  writes of a few kinds, \<open>TaskHistory\<close> makes the operations the steps of a machine, labelled with
  the tasks they may dispatch, create or delete, and proves its invariant, and \<open>TaskGuarantees\<close>
  draws the consequences: consistent rows, outcomes that stay, dependencies without cycles, the
  release of waiting tasks, the task a session is bound to, and where the rows disagree. The
  service takes the agent, the session and the work tree of a dispatch from the profile and the
  session it prepares, which are arguments here; the launch plan of a released task is handed on,
  and its dispatch is a step of its own.

  Conventions. Strings are lists of code units below 256. The values undefined and null of the
  language are both \<open>None\<close>. A lookup in an object literal is the lookup of its own properties, except where the parser of shell commands catches the error that an inherited one causes. A
  row of the database is a record and a table a list of rows; the clock, fresh identifiers, the
  environment and tables of other components are arguments. A thrown error is a value of a sum
  type. Object identity of queued messages, which the queue compares, is the field \<open>um_ref\<close>. All
  recursive functions terminate by structural recursion or a measure; no fuel is used.

  Not modelled. The transports, channel plugins, command line, user interfaces, generated SDKs and
  provider adapters, which are input and output; of the event loop only the events that end a turn;
  of the database only the tables of sessions, routes, tasks and the crash-recovery ledger. Of the
  sessions the deletion of expired rows and the filling in of missing names by \<open>router/router-db.ts\<close>
  are left out, of the ledger the list queries other than that of its queue, of the tasks the list
  queries, the profiles, documents and automations, and the callbacks to parent tasks.
\<close>

end
